(* ===== verification/Prelude.thy ===== *)
theory Prelude
  imports
    Complex_Main
    "HOL-Library.List_Lexorder"
    "HOL-Library.Char_ord"
    "HOL-Library.AList"
    "HOL-Library.Sublist"
begin

text \<open>
  Shared vocabulary of the development: the exceptions a modelled Python function can raise, and
  the operations of Python's \<open>str\<close>, \<open>list\<close>, \<open>dict\<close> and \<open>int\<close> that the modelled code uses.

  A Python \<open>str\<close> is a HOL \<open>string\<close> (a list of characters with code points below 256), a \<open>dict\<close>
  with string keys is an association list in insertion order, an \<open>int\<close> is an \<open>int\<close> and a
  \<open>float\<close> (costs, budgets, timeouts) is an exact rational: rounding is not modelled.
  A call that can raise returns a value of the sum \<open>py_error + 'a\<close>; a method that changes its
  object before it raises returns the changed object beside the sum.
\<close>

section \<open>Collections of facts\<close>

named_theorems py_defs \<open>definitions of the Python primitives, for evaluation of closed terms\<close>
named_theorems isinst \<open>equations that decide an isinstance test on a constructor\<close>

section \<open>Exceptions\<close>

datatype py_error =
    FileNotFoundError
  | ValueError string
  | KeyError string
  | TypeError string
  | IndexError
  | AssertionError
  | AttributeError string
  | RuntimeError string
  | LLMMalformedActionError string
  | LLMNoActionError string
  | LLMResponseError string
  | FunctionCallValidationError string
  | FunctionCallNotExistsError string
  | LLMContextWindowExceedError string
  | AgentStuckInLoopError string
  | OtherError string string

type_synonym 'a res = "py_error + 'a"

definition is_ok :: "'a res \<Rightarrow> bool" where
  "is_ok r = (case r of Inl _ \<Rightarrow> False | Inr _ \<Rightarrow> True)"

lemma is_ok_simps [simp]: "is_ok (Inr a)" "\<not> is_ok (Inl e)"
  by (simp_all add: is_ok_def)

definition bind_res :: "'a res \<Rightarrow> ('a \<Rightarrow> 'b res) \<Rightarrow> 'b res" where
  "bind_res r f = (case r of Inl e \<Rightarrow> Inl e | Inr a \<Rightarrow> f a)"

lemma bind_res_simps [simp]:
  "bind_res (Inl e) f = Inl e"
  "bind_res (Inr a) f = f a"
  by (simp_all add: bind_res_def)

lemma bind_res_Inr: "bind_res r f = Inr b \<longleftrightarrow> (\<exists>a. r = Inr a \<and> f a = Inr b)"
  by (cases r) auto

text \<open>\<open>for x in xs: ...\<close> with a body that may raise: the first exception ends the loop.\<close>

fun map_res :: "('a \<Rightarrow> 'b res) \<Rightarrow> 'a list \<Rightarrow> 'b list res" where
  "map_res f [] = Inr []"
| "map_res f (x # xs) = bind_res (f x) (\<lambda>y. bind_res (map_res f xs) (\<lambda>ys. Inr (y # ys)))"

lemma map_res_Inr_map: "(\<And>x. x \<in> set xs \<Longrightarrow> f (g x) = Inr x) \<Longrightarrow> map_res f (map g xs) = Inr xs"
  by (induction xs) auto

section \<open>Lists\<close>

text \<open>An index of a slice, clamped to the list as Python does (negative counts from the end).\<close>

definition py_clamp :: "int \<Rightarrow> nat \<Rightarrow> nat" where
  "py_clamp i n = (if i < 0 then nat (int n + i) else min (nat i) n)"

definition py_take :: "int \<Rightarrow> 'a list \<Rightarrow> 'a list" where
  \<comment> \<open>\<open>xs[:i]\<close>\<close>
  "py_take i xs = take (py_clamp i (length xs)) xs"

definition py_drop :: "int \<Rightarrow> 'a list \<Rightarrow> 'a list" where
  \<comment> \<open>\<open>xs[i:]\<close>\<close>
  "py_drop i xs = drop (py_clamp i (length xs)) xs"

definition py_slice :: "int \<Rightarrow> int \<Rightarrow> 'a list \<Rightarrow> 'a list" where
  \<comment> \<open>\<open>xs[i:j]\<close>\<close>
  "py_slice i j xs = drop (py_clamp i (length xs)) (take (py_clamp j (length xs)) xs)"

definition py_get :: "'a list \<Rightarrow> int \<Rightarrow> 'a res" where
  \<comment> \<open>\<open>xs[i]\<close>, which raises out of range\<close>
  "py_get xs i =
     (if - int (length xs) \<le> i \<and> i < int (length xs) then Inr (xs ! py_clamp i (length xs)) else Inl IndexError)"

definition py_insert :: "int \<Rightarrow> 'a \<Rightarrow> 'a list \<Rightarrow> 'a list" where
  \<comment> \<open>\<open>xs.insert(i, x)\<close>\<close>
  "py_insert i x xs = (let k = py_clamp i (length xs) in take k xs @ x # drop k xs)"

fun find_index :: "('a \<Rightarrow> bool) \<Rightarrow> 'a list \<Rightarrow> nat option" where
  \<comment> \<open>\<open>next((i for i, x in enumerate(xs) if p(x)), None)\<close>\<close>
  "find_index p [] = None"
| "find_index p (x # xs) = (if p x then Some 0 else map_option Suc (find_index p xs))"

definition find_last :: "('a \<Rightarrow> bool) \<Rightarrow> 'a list \<Rightarrow> 'a option" where
  \<comment> \<open>the first match of \<open>for x in reversed(xs)\<close>\<close>
  "find_last p xs = find p (rev xs)"

lemmas [py_defs] = py_clamp_def py_take_def py_drop_def py_slice_def py_get_def py_insert_def
  find_last_def

lemma py_clamp_le [simp]: "py_clamp i n \<le> n"
  by (simp add: py_clamp_def nat_le_iff)

lemma py_clamp_nat [simp]: "py_clamp (int k) n = min k n"
  by (simp add: py_clamp_def)

lemma py_clamp_neg: "py_clamp (- int k) n = (if k = 0 then 0 else n - k)"
  by (simp add: py_clamp_def nat_minus_as_int)

lemma length_py_take [simp]: "length (py_take i xs) = py_clamp i (length xs)"
  by (simp add: py_take_def)

lemma set_py_take: "set (py_take i xs) \<subseteq> set xs"
  by (simp add: py_take_def set_take_subset)

lemma set_py_drop: "set (py_drop i xs) \<subseteq> set xs"
  by (simp add: py_drop_def set_drop_subset)

lemma py_take_drop [simp]: "py_take i xs @ py_drop i xs = xs"
  by (simp add: py_take_def py_drop_def)

lemma set_py_insert [simp]: "set (py_insert i x xs) = insert x (set xs)"
proof -
  have "set (py_insert i x xs) = insert x (set (take (py_clamp i (length xs)) xs @ drop (py_clamp i (length xs)) xs))"
    by (simp only: py_insert_def Let_def set_append list.set) blast
  then show ?thesis by simp
qed

lemma length_py_insert [simp]: "length (py_insert i x xs) = Suc (length xs)"
  by (simp add: py_insert_def Let_def)

lemma find_index_Some:
  "find_index p xs = Some i \<longleftrightarrow> i < length xs \<and> p (xs ! i) \<and> (\<forall>j < i. \<not> p (xs ! j))"
proof (induction xs arbitrary: i)
  case Nil
  then show ?case by simp
next
  case (Cons x xs)
  show ?case
    by (cases i) (auto simp: Cons.IH nth_Cons less_Suc_eq_0_disj split: nat.splits)
qed

lemma find_index_None: "find_index p xs = None \<longleftrightarrow> (\<forall>x \<in> set xs. \<not> p x)"
  by (induction xs) auto

lemma find_append: "find p (xs @ ys) = (case find p xs of None \<Rightarrow> find p ys | Some x \<Rightarrow> Some x)"
  by (induction xs) auto

lemma find_SomeD: "find p xs = Some x \<Longrightarrow> x \<in> set xs \<and> p x"
  by (induction xs) (auto split: if_splits)

lemma find_None: "find p xs = None \<longleftrightarrow> (\<forall>x \<in> set xs. \<not> p x)"
  by (induction xs) auto

lemma find_last_append: "find_last p (xs @ ys) = (case find_last p ys of None \<Rightarrow> find_last p xs | Some y \<Rightarrow> Some y)"
  by (simp add: find_last_def find_append split: option.split)

lemma find_last_SomeD: "find_last p xs = Some x \<Longrightarrow> x \<in> set xs \<and> p x"
  by (auto simp: find_last_def dest!: find_SomeD)

lemma find_last_None: "find_last p xs = None \<longleftrightarrow> (\<forall>x \<in> set xs. \<not> p x)"
  by (simp add: find_last_def find_None)

section \<open>Strings\<close>

definition nl :: char where "nl = CHR 0x0A"

definition py_startswith :: "string \<Rightarrow> string \<Rightarrow> bool" where
  \<comment> \<open>\<open>s.startswith(p)\<close>\<close>
  "py_startswith s p = (take (length p) s = p)"

definition py_endswith :: "string \<Rightarrow> string \<Rightarrow> bool" where
  \<comment> \<open>\<open>s.endswith(p)\<close>\<close>
  "py_endswith s p = (length p \<le> length s \<and> drop (length s - length p) s = p)"

fun py_contains :: "string \<Rightarrow> string \<Rightarrow> bool" where
  \<comment> \<open>\<open>p in s\<close>\<close>
  "py_contains [] p = (p = [])"
| "py_contains (c # s) p = (py_startswith (c # s) p \<or> py_contains s p)"

definition py_removesuffix :: "string \<Rightarrow> string \<Rightarrow> string" where
  "py_removesuffix s p = (if p \<noteq> [] \<and> py_endswith s p then take (length s - length p) s else s)"

definition py_removeprefix :: "string \<Rightarrow> string \<Rightarrow> string" where
  "py_removeprefix s p = (if py_startswith s p then drop (length p) s else s)"

fun py_split :: "char \<Rightarrow> string \<Rightarrow> string list" where
  \<comment> \<open>\<open>s.split(c)\<close> for a separator of one character: never empty\<close>
  "py_split c [] = [[]]"
| "py_split c (x # s) =
     (if x = c then [] # py_split c s
      else (case py_split c s of [] \<Rightarrow> [[x]] | w # ws \<Rightarrow> (x # w) # ws))"

fun py_join :: "string \<Rightarrow> string list \<Rightarrow> string" where
  \<comment> \<open>\<open>sep.join(ws)\<close>\<close>
  "py_join sep [] = []"
| "py_join sep [w] = w"
| "py_join sep (w # ws) = w @ sep @ py_join sep ws"

definition py_isspace :: "char \<Rightarrow> bool" where
  \<comment> \<open>the code points below 256 that \<open>str.strip\<close> removes\<close>
  "py_isspace c = (let n = of_char c :: nat in 9 \<le> n \<and> n \<le> 13 \<or> 28 \<le> n \<and> n \<le> 32 \<or> n = 133 \<or> n = 160)"

definition py_strip :: "string \<Rightarrow> string" where
  "py_strip s = rev (dropWhile py_isspace (rev (dropWhile py_isspace s)))"

definition py_lower_char :: "char \<Rightarrow> char" where
  \<comment> \<open>\<open>str.lower\<close> on ASCII letters; other characters are left as they are\<close>
  "py_lower_char c = (let n = of_char c :: nat in if 65 \<le> n \<and> n \<le> 90 then char_of (n + 32) else c)"

definition py_lower :: "string \<Rightarrow> string" where
  "py_lower s = map py_lower_char s"

text \<open>\<open>s.replace(old, new)\<close>: left to right, without overlaps; an empty \<open>old\<close> matches between all characters.\<close>

fun py_replace_aux :: "nat \<Rightarrow> string \<Rightarrow> string \<Rightarrow> string \<Rightarrow> string" where
  \<comment> \<open>the first argument counts the characters of a match still to be skipped\<close>
  "py_replace_aux k old new [] = []"
| "py_replace_aux (Suc k) old new (c # s) = py_replace_aux k old new s"
| "py_replace_aux 0 old new (c # s) =
     (if py_startswith (c # s) old then new @ py_replace_aux (length old - 1) old new s
      else c # py_replace_aux 0 old new s)"

definition py_replace :: "string \<Rightarrow> string \<Rightarrow> string \<Rightarrow> string" where
  "py_replace s old new =
     (if old = [] then new @ concat (map (\<lambda>c. c # new) s) else py_replace_aux 0 old new s)"

lemmas [py_defs] = nl_def py_startswith_def py_endswith_def py_removesuffix_def py_removeprefix_def
  py_isspace_def py_strip_def py_lower_char_def py_lower_def py_replace_def

lemma py_split_nonempty [simp]: "py_split c s \<noteq> []"
  by (induction s) (auto split: list.splits)

lemma py_split_no_sep: "w \<in> set (py_split c s) \<Longrightarrow> c \<notin> set w"
proof (induction s arbitrary: w)
  case Nil
  then show ?case by simp
next
  case (Cons x s)
  obtain v vs where vs: "py_split c s = v # vs"
    by (cases "py_split c s") auto
  with Cons show ?case by (auto split: if_splits)
qed

lemma py_split_append: "c \<notin> set w \<Longrightarrow> py_split c (w @ c # s) = w # py_split c s"
  by (induction w) auto

lemma py_split_single: "c \<notin> set w \<Longrightarrow> py_split c w = [w]"
  by (induction w) auto

lemma py_join_Cons: "ws \<noteq> [] \<Longrightarrow> py_join sep (w # ws) = w @ sep @ py_join sep ws"
  by (cases ws) auto

text \<open>Splitting on a character and joining with it gives the string back.\<close>

lemma py_join_split: "py_join [c] (py_split c s) = s"
proof (induction s)
  case Nil
  then show ?case by simp
next
  case (Cons x s)
  obtain v vs where vs: "py_split c s = v # vs"
    by (cases "py_split c s") auto
  with Cons show ?case by (cases vs) auto
qed

lemma py_split_join: "ws \<noteq> [] \<Longrightarrow> \<forall>w \<in> set ws. c \<notin> set w \<Longrightarrow> py_split c (py_join [c] ws) = ws"
proof (induction ws)
  case Nil
  then show ?case by simp
next
  case (Cons w ws)
  then show ?case by (cases ws) (simp_all add: py_split_append py_split_single)
qed

section \<open>Integers and their decimal text\<close>

text \<open>\<open>str(n)\<close>: decimal digits, most significant first.\<close>

definition digit_char :: "nat \<Rightarrow> char" where
  "digit_char d = char_of (48 + d)"

fun str_of_nat :: "nat \<Rightarrow> string" where
  "str_of_nat n = (if n < 10 then [digit_char n] else str_of_nat (n div 10) @ [digit_char (n mod 10)])"

declare str_of_nat.simps [simp del]

definition str_of_int :: "int \<Rightarrow> string" where
  "str_of_int i = (if i < 0 then CHR ''-'' # str_of_nat (nat (- i)) else str_of_nat (nat i))"

text \<open>
  \<open>int(s)\<close>: optional surrounding whitespace and sign, then decimal digits with single
  underscores between them; \<open>None\<close> stands for the \<open>ValueError\<close>.
\<close>

definition char_digit :: "char \<Rightarrow> nat option" where
  "char_digit c = (let n = of_char c :: nat in if 48 \<le> n \<and> n \<le> 57 then Some (n - 48) else None)"

fun parse_digits :: "nat \<Rightarrow> bool \<Rightarrow> string \<Rightarrow> nat option" where
  \<comment> \<open>the flag says that the last character read was a digit\<close>
  "parse_digits acc after_digit [] = (if after_digit then Some acc else None)"
| "parse_digits acc after_digit (c # s) =
     (case char_digit c of
        Some d \<Rightarrow> parse_digits (10 * acc + d) True s
      | None \<Rightarrow> if c = CHR ''_'' \<and> after_digit then parse_digits acc False s else None)"

definition py_int :: "string \<Rightarrow> int option" where
  "py_int s =
     (case py_strip s of
        [] \<Rightarrow> None
      | c # t \<Rightarrow>
          if c = CHR ''-'' then map_option (\<lambda>n. - int n) (parse_digits 0 False t)
          else if c = CHR ''+'' then map_option int (parse_digits 0 False t)
          else map_option int (parse_digits 0 False (c # t)))"

lemma of_char_digit: "d < 10 \<Longrightarrow> (of_char (digit_char d) :: nat) = 48 + d"
  by (simp add: digit_char_def)

lemma char_digit_digit [simp]: "d < 10 \<Longrightarrow> char_digit (digit_char d) = Some d"
  by (simp add: char_digit_def of_char_digit Let_def)

lemma str_of_nat_nonempty [simp]: "str_of_nat n \<noteq> []"
  by (subst str_of_nat.simps) simp

lemma str_of_nat_digits: "c \<in> set (str_of_nat n) \<Longrightarrow> \<exists>d < 10. c = digit_char d"
proof (induction n rule: str_of_nat.induct)
  case (1 n)
  show ?case
  proof (cases "n < 10")
    case True
    with "1.prems" show ?thesis by (subst (asm) str_of_nat.simps) auto
  next
    case False
    with "1.prems" have "c \<in> set (str_of_nat (n div 10)) \<or> c = digit_char (n mod 10)"
      by (subst (asm) str_of_nat.simps) auto
    with "1.IH" False show ?thesis by (metis mod_less_divisor zero_less_numeral)
  qed
qed

lemma digit_char_neq: "d < 10 \<Longrightarrow> (of_char c :: nat) < 48 \<or> 57 < (of_char c :: nat) \<Longrightarrow> digit_char d \<noteq> c"
  using of_char_digit [of d] by auto

lemma str_of_nat_notin: "(of_char c :: nat) < 48 \<or> 57 < (of_char c :: nat) \<Longrightarrow> c \<notin> set (str_of_nat n)"
  using str_of_nat_digits digit_char_neq by blast

lemma str_of_int_notin:
  "(of_char c :: nat) < 48 \<or> 57 < (of_char c :: nat) \<Longrightarrow> c \<noteq> CHR ''-'' \<Longrightarrow> c \<notin> set (str_of_int i)"
  by (auto simp: str_of_int_def str_of_nat_notin)

lemma parse_digits_str_of_nat:
  "parse_digits acc b (str_of_nat n @ s) = parse_digits (acc * 10 ^ length (str_of_nat n) + n) True s"
proof (induction n arbitrary: s rule: str_of_nat.induct)
  case (1 n)
  show ?case
  proof (cases "n < 10")
    case True
    then show ?thesis by (simp add: str_of_nat.simps [of n] mult.commute)
  next
    case False
    have m: "n mod 10 < 10" by simp
    from False have "parse_digits acc b (str_of_nat n @ s)
        = parse_digits acc b (str_of_nat (n div 10) @ digit_char (n mod 10) # s)"
      by (simp add: str_of_nat.simps [of n])
    also have "\<dots> = parse_digits (acc * 10 ^ length (str_of_nat (n div 10)) + n div 10) True
        (digit_char (n mod 10) # s)"
      using "1.IH" False by blast
    also have "\<dots> = parse_digits (acc * 10 ^ length (str_of_nat n) + n) True s"
      using False m by (simp add: str_of_nat.simps [of n] algebra_simps)
    finally show ?thesis .
  qed
qed

lemma digit_not_space: "d < 10 \<Longrightarrow> \<not> py_isspace (digit_char d)"
  by (simp add: py_isspace_def of_char_digit Let_def)

lemma py_strip_id: "s \<noteq> [] \<Longrightarrow> \<not> py_isspace (hd s) \<Longrightarrow> \<not> py_isspace (last s) \<Longrightarrow> py_strip s = s"
proof -
  assume a: "s \<noteq> []" "\<not> py_isspace (hd s)" "\<not> py_isspace (last s)"
  have no_drop: "xs \<noteq> [] \<Longrightarrow> \<not> py_isspace (hd xs) \<Longrightarrow> dropWhile py_isspace xs = xs" for xs
    by (cases xs) auto
  from a show ?thesis by (simp add: py_strip_def no_drop hd_rev)
qed

text \<open>Parsing the decimal text of an integer gives it back.\<close>

lemma py_int_str_of_int [simp]: "py_int (str_of_int i) = Some i"
proof -
  have nsp: "\<not> py_isspace c" if "c \<in> set (str_of_int i)" for c
  proof -
    from that have "c = CHR ''-'' \<or> (\<exists>d < 10. c = digit_char d)"
      by (auto simp: str_of_int_def dest: str_of_nat_digits split: if_splits)
    then show ?thesis by (auto simp: digit_not_space) (simp add: py_isspace_def)
  qed
  have ne: "str_of_int i \<noteq> []" by (simp add: str_of_int_def)
  then have strip: "py_strip (str_of_int i) = str_of_int i"
    by (intro py_strip_id) (use ne nsp in simp_all)
  have parse: "parse_digits 0 False (str_of_nat n) = Some n" for n
    using parse_digits_str_of_nat [of 0 False n "[]"] by simp
  show ?thesis
  proof (cases "i < 0")
    case True
    then show ?thesis using strip parse by (simp add: py_int_def str_of_int_def)
  next
    case False
    obtain c t where ct: "str_of_nat (nat i) = c # t" by (cases "str_of_nat (nat i)") auto
    then have "c \<noteq> CHR ''-''" "c \<noteq> CHR ''+''"
      using str_of_nat_notin [of "CHR ''-''" "nat i"] str_of_nat_notin [of "CHR ''+''" "nat i"] by auto
    with False strip ct parse [of "nat i"] show ?thesis by (simp add: py_int_def str_of_int_def)
  qed
qed

lemma str_of_int_inject [simp]: "str_of_int i = str_of_int j \<longleftrightarrow> i = j"
  by (metis option.inject py_int_str_of_int)

end
