(* ===== verification/ControlFlags.thy ===== *)
theory ControlFlags
  imports Prelude
begin

text \<open>
  The limits on an agent's run (\<open>openhands/controller/state/control_flags.py\<close>): a flag counts
  iterations or spent budget against a maximum and raises when the maximum is reached.
  The abstract base class \<open>ControlFlag\<close> is the locale \<open>control_flag\<close>; the iteration and the
  budget flag interpret it.
\<close>

section \<open>The flags\<close>

record 't control_flag =
  limit_increase_amount :: 't
  current_value :: 't
  max_value :: 't
  flag_headless_mode :: bool
  hit_limit :: bool

type_synonym iteration_flag = "int control_flag"
type_synonym budget_flag = "rat control_flag"

definition new_flag :: "'t \<Rightarrow> 't \<Rightarrow> 't \<Rightarrow> 't control_flag" where
  "new_flag inc cur mx =
     \<lparr>limit_increase_amount = inc, current_value = cur, max_value = mx,
      flag_headless_mode = False, hit_limit = False\<rparr>"

text \<open>\<open>f'{x:.2f}'\<close>: two decimals, ties to the even digit.\<close>

definition round_half_even :: "rat \<Rightarrow> int" where
  "round_half_even x =
     (let f = \<lfloor>x\<rfloor>; r = x - of_int f
      in if r < 1/2 then f else if r > 1/2 then f + 1 else if even f then f else f + 1)"

definition fmt_2f :: "rat \<Rightarrow> string" where
  "fmt_2f x =
     (let n = round_half_even (\<bar>x\<bar> * 100); whole = n div 100; cents = n mod 100
      in (if x < 0 then ''-'' else []) @ str_of_int whole @ ''.''
         @ (if cents < 10 then ''0'' else []) @ str_of_int cents)"

section \<open>IterationControlFlag\<close>

definition iter_reached_limit :: "iteration_flag \<Rightarrow> iteration_flag \<times> bool" where
  "iter_reached_limit f =
     (let hit = max_value f \<le> current_value f in (f\<lparr>hit_limit := hit\<rparr>, hit))"

definition iter_increase_limit :: "bool \<Rightarrow> iteration_flag \<Rightarrow> iteration_flag" where
  "iter_increase_limit headless f =
     (if \<not> headless \<and> hit_limit f
      then f\<lparr>max_value := max_value f + limit_increase_amount f, hit_limit := False\<rparr>
      else f)"

definition iter_limit_msg :: "iteration_flag \<Rightarrow> string" where
  "iter_limit_msg f =
     ''Agent reached maximum iteration. Current iteration: '' @ str_of_int (current_value f)
     @ '', max iteration: '' @ str_of_int (max_value f)"

definition iter_step :: "iteration_flag \<Rightarrow> iteration_flag \<times> unit res" where
  "iter_step f =
     (let (f', reached) = iter_reached_limit f
      in if reached then (f', Inl (RuntimeError (iter_limit_msg f')))
         else (f'\<lparr>current_value := current_value f' + 1\<rparr>, Inr ()))"

section \<open>BudgetControlFlag\<close>

definition budget_reached_limit :: "budget_flag \<Rightarrow> budget_flag \<times> bool" where
  "budget_reached_limit f =
     (let hit = max_value f \<le> current_value f in (f\<lparr>hit_limit := hit\<rparr>, hit))"

definition budget_increase_limit :: "bool \<Rightarrow> budget_flag \<Rightarrow> budget_flag" where
  "budget_increase_limit headless f =
     (if hit_limit f
      then f\<lparr>max_value := current_value f + limit_increase_amount f, hit_limit := False\<rparr>
      else f)"

definition budget_limit_msg :: "budget_flag \<Rightarrow> string" where
  "budget_limit_msg f =
     ''Agent reached maximum budget for conversation.'' @ ''Current budget: '' @ fmt_2f (current_value f)
     @ '', max budget: '' @ fmt_2f (max_value f)"

definition budget_step :: "budget_flag \<Rightarrow> budget_flag \<times> unit res" where
  "budget_step f =
     (let (f', reached) = budget_reached_limit f
      in if reached then (f', Inl (RuntimeError (budget_limit_msg f'))) else (f', Inr ()))"

section \<open>The contract of a control flag\<close>

text \<open>
  What a client of a flag relies on: \<open>step\<close> raises exactly when the current value has reached
  the maximum, remembers that it did, and never moves the maximum; \<open>increase_limit\<close> changes
  nothing unless the limit was hit, and where it acts it leaves room for a further step.
\<close>

locale control_flag =
  fixes step :: "('t :: linordered_idom) control_flag \<Rightarrow> 't control_flag \<times> unit res"
    and increase :: "bool \<Rightarrow> 't control_flag \<Rightarrow> 't control_flag"
    and may_increase :: "bool \<Rightarrow> bool"
    and advance :: "'t \<Rightarrow> 't"
  assumes step_reached:
      "max_value f \<le> current_value f \<Longrightarrow>
        fst (step f) = f\<lparr>hit_limit := True\<rparr> \<and> \<not> is_ok (snd (step f))"
    and step_below:
      "current_value f < max_value f \<Longrightarrow>
        step f = (f\<lparr>hit_limit := False, current_value := advance (current_value f)\<rparr>, Inr ())"
    and increase_idle: "\<not> (may_increase h \<and> hit_limit f) \<Longrightarrow> increase h f = f"
    and increase_cur: "current_value (increase h f) = current_value f"
    and increase_acts:
      "may_increase h \<Longrightarrow> hit_limit f \<Longrightarrow> current_value f = max_value f \<Longrightarrow>
        max_value (increase h f) = max_value f + limit_increase_amount f \<and> \<not> hit_limit (increase h f)"
begin

lemma step_ok_iff: "is_ok (snd (step f)) \<longleftrightarrow> current_value f < max_value f"
  by (cases "current_value f < max_value f") (auto simp: step_below step_reached not_less)

lemma step_max: "max_value (fst (step f)) = max_value f"
  by (cases "current_value f < max_value f") (simp_all add: step_below step_reached)

lemma step_hit: "hit_limit (fst (step f)) \<longleftrightarrow> max_value f \<le> current_value f"
  by (cases "current_value f < max_value f") (auto simp: step_below step_reached)

text \<open>A raised flag stays raised until the limit is increased.\<close>

lemma stays_raised:
  "\<not> is_ok (snd (step f)) \<Longrightarrow> \<not> is_ok (snd (step (fst (step f))))"
  using step_ok_iff step_reached by (metis not_less select_convs(2,3) step_max surjective update_convs(5))

text \<open>After a raise exactly at the maximum, an allowed increase by a positive amount lets the run go on.\<close>

lemma recover:
  assumes "\<not> is_ok (snd (step f))" and "may_increase h" and "current_value f = max_value f"
    and "0 < limit_increase_amount f"
  shows "is_ok (snd (step (increase h (fst (step f)))))"
proof -
  let ?g = "f\<lparr>hit_limit := True\<rparr>"
  from assms have g: "fst (step f) = ?g" using step_reached by (metis order_refl)
  from assms have "max_value (increase h ?g) = max_value ?g + limit_increase_amount ?g"
    using increase_acts [of h ?g] by simp
  with assms show ?thesis by (simp add: step_ok_iff g increase_cur)
qed

text \<open>Without an increase the flag never recovers.\<close>

lemma no_recover:
  assumes "\<not> is_ok (snd (step f))" and "\<not> may_increase h"
  shows "\<not> is_ok (snd (step (increase h (fst (step f)))))"
  using assms by (simp add: increase_idle stays_raised)

end

lemmas iter_defs = iter_step_def iter_reached_limit_def iter_increase_limit_def
lemmas budget_defs = budget_step_def budget_reached_limit_def budget_increase_limit_def

text \<open>The iteration flag is increased in interactive mode only, the budget flag in both.\<close>

interpretation iter: control_flag iter_step iter_increase_limit "\<lambda>headless. \<not> headless" "\<lambda>n. n + 1"
  by unfold_locales (auto simp: iter_defs Let_def)

interpretation budget: control_flag budget_step budget_increase_limit "\<lambda>headless. True" "\<lambda>b. b"
  by unfold_locales (auto simp: budget_defs Let_def)

section \<open>Runs of the iteration flag\<close>

text \<open>The successive calls of \<open>step\<close> an agent makes: how many succeed before the first raise.\<close>

fun iter_run :: "nat \<Rightarrow> iteration_flag \<Rightarrow> iteration_flag \<times> nat" where
  "iter_run 0 f = (f, 0)"
| "iter_run (Suc n) f =
     (case iter_step f of
        (f', Inl e) \<Rightarrow> (f', 0)
      | (f', Inr u) \<Rightarrow> (let (g, k) = iter_run n f' in (g, Suc k)))"

lemma iter_run_inv:
  "current_value f \<le> max_value f \<Longrightarrow> iter_run n f = (g, k) \<Longrightarrow>
     max_value g = max_value f \<and> current_value g = current_value f + int k \<and> current_value g \<le> max_value g
     \<and> k = min n (nat (max_value f - current_value f))"
proof (induction n arbitrary: f g k)
  case 0
  then show ?case by simp
next
  case (Suc n)
  show ?case
  proof (cases "current_value f < max_value f")
    case True
    let ?f = "f\<lparr>hit_limit := False, current_value := current_value f + 1\<rparr>"
    obtain g' k' where r: "iter_run n ?f = (g', k')" by force
    have room: "nat (max_value f - current_value f) = Suc (nat (max_value f - (current_value f + 1)))"
      using True by simp
    from True Suc.IH [OF _ r] Suc.prems r show ?thesis
      by (auto simp: iter.step_below room)
  next
    case False
    with Suc.prems show ?thesis by (auto simp: iter_defs Let_def)
  qed
qed

text \<open>
  A fresh iteration flag with maximum \<open>m\<close> allows exactly \<open>m\<close> steps, however many are tried:
  the count never passes the maximum.
\<close>

theorem iteration_budget_exact:
  assumes "0 \<le> m" and "iter_run n (new_flag m 0 m) = (g, k)"
  shows "k = min n (nat m) \<and> current_value g = int k \<and> max_value g = m \<and> current_value g \<le> m"
  using iter_run_inv [of "new_flag m 0 m" n g k] assms by (auto simp: new_flag_def)

theorem iteration_budget_exact_witness:
  "snd (iter_run 5 (new_flag 3 0 3)) = 3"
proof -
  have "iter_run 5 (new_flag 3 0 3) = (fst (iter_run 5 (new_flag 3 0 3)), snd (iter_run 5 (new_flag 3 0 3)))"
    by simp
  from iteration_budget_exact [OF _ this] show ?thesis by simp
qed

end
