(* ===== verification/Json.thy ===== *)
theory Json
  imports Prelude
begin

text \<open>
  The values a Python \<open>dict[str, Any]\<close> of this program holds: what \<open>json.dumps\<close> can write and
  \<open>json.loads\<close> can return, with the dictionary operations the code uses and Python's \<open>==\<close> on them.
\<close>

section \<open>Values\<close>

datatype json =
    JNull
  | JBool bool
  | JInt int
  | JFloat rat
  | JStr string
  | JList "json list"
  | JObj "(string \<times> json) list"

type_synonym dict = "(string \<times> json) list"

section \<open>Dictionaries\<close>

abbreviation d_get :: "(string \<times> 'v) list \<Rightarrow> string \<Rightarrow> 'v option" where
  "d_get d k \<equiv> map_of d k"

definition d_has :: "(string \<times> 'v) list \<Rightarrow> string \<Rightarrow> bool" where
  \<comment> \<open>\<open>k in d\<close>\<close>
  "d_has d k = (map_of d k \<noteq> None)"

definition d_set :: "string \<Rightarrow> 'v \<Rightarrow> (string \<times> 'v) list \<Rightarrow> (string \<times> 'v) list" where
  \<comment> \<open>\<open>d[k] = v\<close>: in place when the key is there, else at the end\<close>
  "d_set k v d = AList.update k v d"

fun d_del :: "string \<Rightarrow> (string \<times> 'v) list \<Rightarrow> (string \<times> 'v) list" where
  \<comment> \<open>\<open>d.pop(k, None)\<close>\<close>
  "d_del k [] = []"
| "d_del k ((k', v) # d) = (if k = k' then d_del k d else (k', v) # d_del k d)"

definition d_update :: "(string \<times> 'v) list \<Rightarrow> (string \<times> 'v) list \<Rightarrow> (string \<times> 'v) list" where
  \<comment> \<open>\<open>d.update(e)\<close>\<close>
  "d_update d e = fold (\<lambda>(k, v). d_set k v) e d"

definition d_keys :: "(string \<times> 'v) list \<Rightarrow> string list" where
  "d_keys d = map fst d"

lemma d_has_Nil [simp]: "\<not> d_has [] k"
  by (simp add: d_has_def)

lemma d_has_Cons [simp]: "d_has ((k', v) # d) k \<longleftrightarrow> k = k' \<or> d_has d k"
  by (auto simp: d_has_def)

lemma d_has_append [simp]: "d_has (d @ e) k \<longleftrightarrow> d_has d k \<or> d_has e k"
  by (auto simp: d_has_def map_add_def split: option.splits)

lemma d_has_keys: "d_has d k \<longleftrightarrow> k \<in> set (d_keys d)"
  by (auto simp: d_has_def d_keys_def map_of_eq_None_iff)

lemma map_of_d_set [simp]: "map_of (d_set k v d) = (map_of d)(k \<mapsto> v)"
  by (simp add: d_set_def update_conv')

lemma map_of_d_del [simp]: "map_of (d_del k d) k' = (if k' = k then None else map_of d k')"
  by (induction k d rule: d_del.induct) auto

lemma d_del_notin: "\<not> d_has d k \<Longrightarrow> d_del k d = d"
  by (induction k d rule: d_del.induct) auto

lemma set_d_keys: "set (d_keys d) = dom (map_of d)"
  by (simp add: d_keys_def dom_map_of_conv_image_fst)

lemma keys_d_set: "set (d_keys (d_set k v d)) = insert k (set (d_keys d))"
  by (simp add: set_d_keys)

lemma map_of_d_update: "distinct (d_keys e) \<Longrightarrow> map_of (d_update d e) = map_of d ++ map_of e"
proof (induction e arbitrary: d)
  case Nil
  then show ?case by (simp add: d_update_def)
next
  case (Cons kv e)
  obtain k v where kv: "kv = (k, v)" by force
  with Cons.prems have k: "map_of e k = None"
    by (auto simp: d_keys_def map_of_eq_None_iff)
  have "map_of (d_update d (kv # e)) = map_of (d_update (d_set k v d) e)"
    by (simp add: d_update_def kv)
  also have "\<dots> = (map_of d)(k \<mapsto> v) ++ map_of e"
    using Cons by (simp add: d_keys_def)
  also have "\<dots> = map_of d ++ map_of (kv # e)"
    using k by (auto simp: kv map_add_def fun_eq_iff split: option.splits)
  finally show ?case .
qed

lemma distinct_d_set: "distinct (d_keys d) \<Longrightarrow> distinct (d_keys (d_set k v d))"
  by (simp add: d_keys_def d_set_def distinct_update)

lemma keys_d_del: "set (d_keys (d_del k d)) = set (d_keys d) - {k}"
  by (induction k d rule: d_del.induct) (auto simp: d_keys_def)

lemma distinct_d_del: "distinct (d_keys d) \<Longrightarrow> distinct (d_keys (d_del k d))"
  by (induction k d rule: d_del.induct) (auto simp: d_keys_def dest!: keys_d_del [THEN equalityD1, THEN subsetD, unfolded d_keys_def, simplified])

section \<open>Python equality\<close>

text \<open>
  \<open>==\<close> on these values ignores the order of a dictionary and compares booleans, integers and
  floats as numbers. It is equality of the normal forms below, so it is an equivalence.
\<close>

primrec norm_json :: "json \<Rightarrow> json" where
  "norm_json JNull = JNull"
| "norm_json (JBool b) = JFloat (if b then 1 else 0)"
| "norm_json (JInt i) = JFloat (of_int i)"
| "norm_json (JFloat q) = JFloat q"
| "norm_json (JStr s) = JStr s"
| "norm_json (JList js) = JList (map norm_json js)"
| "norm_json (JObj d) = JObj (sort_key fst (map (map_prod id norm_json) d))"

definition py_eq :: "json \<Rightarrow> json \<Rightarrow> bool" where
  "py_eq a b = (norm_json a = norm_json b)"

definition norm_dict :: "dict \<Rightarrow> dict" where
  "norm_dict d = sort_key fst (map (map_prod id norm_json) d)"

lemma py_eq_equiv:
  "py_eq a a" "py_eq a b \<Longrightarrow> py_eq b a" "py_eq a b \<Longrightarrow> py_eq b c \<Longrightarrow> py_eq a c"
  by (simp_all add: py_eq_def)

section \<open>Text of values\<close>

text \<open>\<open>str\<close> of a float that is a finite decimal of at most 17 places, without exponent notation.\<close>

fun decimals :: "nat \<Rightarrow> rat \<Rightarrow> string" where
  "decimals 0 x = []"
| "decimals (Suc n) x =
     (let y = 10 * x; d = \<lfloor>y\<rfloor> in
      digit_char (nat d) # (if y = of_int d then [] else decimals n (y - of_int d)))"

definition str_of_float :: "rat \<Rightarrow> string" where
  "str_of_float q =
     (let a = \<bar>q\<bar> in (if q < 0 then ''-'' else []) @ str_of_int \<lfloor>a\<rfloor> @ ''.'' @ decimals 17 (a - of_int \<lfloor>a\<rfloor>))"

definition hex_digit :: "nat \<Rightarrow> char" where
  "hex_digit n = (if n < 10 then char_of (48 + n) else char_of (87 + n))"

definition repr_char :: "char \<Rightarrow> char \<Rightarrow> string" where
  "repr_char q c =
     (let n = of_char c :: nat; bs = char_of (92 :: nat) in
      if c = bs \<or> c = q then [bs, c]
      else if n = 10 then [bs, CHR ''n''] else if n = 13 then [bs, CHR ''r''] else if n = 9 then [bs, CHR ''t'']
      else if n < 32 \<or> 127 \<le> n \<and> n \<le> 160 \<or> n = 173 then [bs, CHR ''x'', hex_digit (n div 16), hex_digit (n mod 16)]
      else [c])"

definition py_repr_str :: "string \<Rightarrow> string" where
  "py_repr_str s =
     (let q = (if CHR 0x27 \<in> set s \<and> CHR 0x22 \<notin> set s then CHR 0x22 else CHR 0x27)
      in [q] @ concat (map (repr_char q) s) @ [q])"

primrec py_repr :: "json \<Rightarrow> string" where
  "py_repr JNull = ''None''"
| "py_repr (JBool b) = (if b then ''True'' else ''False'')"
| "py_repr (JInt i) = str_of_int i"
| "py_repr (JFloat q) = str_of_float q"
| "py_repr (JStr s) = py_repr_str s"
| "py_repr (JList js) = ''['' @ py_join '', '' (map py_repr js) @ '']''"
| "py_repr (JObj d) =
     CHR 0x7B # py_join '', '' (map (\<lambda>(k, s). py_repr_str k @ '': '' @ s) (map (map_prod id py_repr) d)) @ [CHR 0x7D]"

text \<open>\<open>str(v)\<close>, as an f-string shows it: a string as it is, everything else as \<open>repr\<close>.\<close>

definition py_str :: "json \<Rightarrow> string" where
  "py_str j = (case j of JStr s \<Rightarrow> s | _ \<Rightarrow> py_repr j)"

end
