(* ===== verification/Metrics.thy ===== *)
theory Metrics
  imports Json
begin

text \<open>
  The cost and token accounting of \<open>openhands/llm/metrics.py\<close> and its per-service aggregation in
  \<open>openhands/server/services/conversation_stats.py\<close>. Costs, latencies and timestamps are exact
  rationals. A method that mutates \<open>self\<close> returns the changed record.
\<close>

section \<open>Records\<close>

record cost_entry =
  c_model :: string
  c_cost :: rat
  c_timestamp :: rat

record response_latency =
  rl_model :: string
  rl_latency :: rat
  rl_response_id :: string

record token_usage =
  tu_model :: string
  tu_prompt_tokens :: int
  tu_completion_tokens :: int
  tu_cache_read_tokens :: int
  tu_cache_write_tokens :: int
  tu_context_window :: int
  tu_per_turn_token :: int
  tu_response_id :: string

definition empty_usage :: "string \<Rightarrow> token_usage" where
  "empty_usage m =
     \<lparr>tu_model = m, tu_prompt_tokens = 0, tu_completion_tokens = 0, tu_cache_read_tokens = 0,
      tu_cache_write_tokens = 0, tu_context_window = 0, tu_per_turn_token = 0, tu_response_id = []\<rparr>"

definition usage_add :: "token_usage \<Rightarrow> token_usage \<Rightarrow> token_usage" where
  "usage_add u v =
     \<lparr>tu_model = tu_model u,
      tu_prompt_tokens = tu_prompt_tokens u + tu_prompt_tokens v,
      tu_completion_tokens = tu_completion_tokens u + tu_completion_tokens v,
      tu_cache_read_tokens = tu_cache_read_tokens u + tu_cache_read_tokens v,
      tu_cache_write_tokens = tu_cache_write_tokens u + tu_cache_write_tokens v,
      tu_context_window = max (tu_context_window u) (tu_context_window v),
      tu_per_turn_token = tu_per_turn_token v,
      tu_response_id = tu_response_id u\<rparr>"

record metrics =
  accumulated_cost :: rat
  max_budget_per_task :: "rat option"
  costs :: "cost_entry list"
  response_latencies :: "response_latency list"
  model_name :: string
  token_usages :: "token_usage list"
  accumulated_token_usage :: token_usage

definition new_metrics :: "string \<Rightarrow> metrics" where
  "new_metrics name =
     \<lparr>accumulated_cost = 0, max_budget_per_task = None, costs = [], response_latencies = [],
      model_name = name, token_usages = [], accumulated_token_usage = empty_usage name\<rparr>"

section \<open>Methods\<close>

definition set_accumulated_cost :: "rat \<Rightarrow> metrics \<Rightarrow> metrics res" where
  "set_accumulated_cost v m =
     (if v < 0 then Inl (ValueError ''Total cost cannot be negative.'')
      else Inr (m\<lparr>accumulated_cost := v\<rparr>))"

text \<open>The timestamp of the new entry is the time of the call, a parameter.\<close>

definition add_cost :: "rat \<Rightarrow> rat \<Rightarrow> metrics \<Rightarrow> metrics res" where
  "add_cost now v m =
     (if v < 0 then Inl (ValueError ''Added cost cannot be negative.'')
      else Inr (m\<lparr>accumulated_cost := accumulated_cost m + v,
                 costs := costs m @ [\<lparr>c_model = model_name m, c_cost = v, c_timestamp = now\<rparr>]\<rparr>))"

definition add_response_latency :: "rat \<Rightarrow> string \<Rightarrow> metrics \<Rightarrow> metrics" where
  "add_response_latency v rid m =
     m\<lparr>response_latencies := response_latencies m
         @ [\<lparr>rl_model = model_name m, rl_latency = max 0 v, rl_response_id = rid\<rparr>]\<rparr>"

definition add_token_usage :: "int \<Rightarrow> int \<Rightarrow> int \<Rightarrow> int \<Rightarrow> int \<Rightarrow> string \<Rightarrow> metrics \<Rightarrow> metrics" where
  "add_token_usage pt ct cr cw win rid m =
     (let per_turn = pt + ct;
          usage = \<lparr>tu_model = model_name m, tu_prompt_tokens = pt, tu_completion_tokens = ct,
                   tu_cache_read_tokens = cr, tu_cache_write_tokens = cw, tu_context_window = win,
                   tu_per_turn_token = per_turn, tu_response_id = rid\<rparr>
      in m\<lparr>token_usages := token_usages m @ [usage],
           accumulated_token_usage :=
             usage_add (accumulated_token_usage m) (usage\<lparr>tu_response_id := []\<rparr>)\<rparr>)"

definition merge_metrics :: "metrics \<Rightarrow> metrics \<Rightarrow> metrics" where
  "merge_metrics m other =
     m\<lparr>accumulated_cost := accumulated_cost m + accumulated_cost other,
       max_budget_per_task :=
         (if max_budget_per_task m = None \<and> max_budget_per_task other \<noteq> None
          then max_budget_per_task other else max_budget_per_task m),
       costs := costs m @ costs other,
       token_usages := token_usages m @ token_usages other,
       response_latencies := response_latencies m @ response_latencies other,
       accumulated_token_usage := usage_add (accumulated_token_usage m) (accumulated_token_usage other)\<rparr>"

definition diff_metrics :: "metrics \<Rightarrow> metrics \<Rightarrow> metrics" where
  "diff_metrics m baseline =
     (let base = accumulated_token_usage baseline; cur = accumulated_token_usage m
      in (new_metrics (model_name m))
         \<lparr>accumulated_cost := accumulated_cost m - accumulated_cost baseline,
          costs := (if costs baseline \<noteq> []
                    then filter (\<lambda>c. c_timestamp (last (costs baseline)) < c_timestamp c) (costs m)
                    else costs m),
          response_latencies := drop (length (response_latencies baseline)) (response_latencies m),
          token_usages := drop (length (token_usages baseline)) (token_usages m),
          accumulated_token_usage :=
            \<lparr>tu_model = model_name m,
             tu_prompt_tokens = tu_prompt_tokens cur - tu_prompt_tokens base,
             tu_completion_tokens = tu_completion_tokens cur - tu_completion_tokens base,
             tu_cache_read_tokens = tu_cache_read_tokens cur - tu_cache_read_tokens base,
             tu_cache_write_tokens = tu_cache_write_tokens cur - tu_cache_write_tokens base,
             tu_context_window = tu_context_window cur,
             tu_per_turn_token = 0, tu_response_id = []\<rparr>\<rparr>)"

section \<open>Dictionaries of metrics\<close>

definition cost_to_dict :: "cost_entry \<Rightarrow> json" where
  "cost_to_dict c =
     JObj [(''model'', JStr (c_model c)), (''cost'', JFloat (c_cost c)), (''timestamp'', JFloat (c_timestamp c))]"

definition latency_to_dict :: "response_latency \<Rightarrow> json" where
  "latency_to_dict l =
     JObj [(''model'', JStr (rl_model l)), (''latency'', JFloat (rl_latency l)),
           (''response_id'', JStr (rl_response_id l))]"

definition usage_to_dict :: "token_usage \<Rightarrow> json" where
  "usage_to_dict u =
     JObj [(''model'', JStr (tu_model u)), (''prompt_tokens'', JInt (tu_prompt_tokens u)),
           (''completion_tokens'', JInt (tu_completion_tokens u)),
           (''cache_read_tokens'', JInt (tu_cache_read_tokens u)),
           (''cache_write_tokens'', JInt (tu_cache_write_tokens u)),
           (''context_window'', JInt (tu_context_window u)),
           (''per_turn_token'', JInt (tu_per_turn_token u)), (''response_id'', JStr (tu_response_id u))]"

definition metrics_get :: "metrics \<Rightarrow> dict" where
  "metrics_get m =
     [(''accumulated_cost'', JFloat (accumulated_cost m)),
      (''max_budget_per_task'', (case max_budget_per_task m of None \<Rightarrow> JNull | Some b \<Rightarrow> JFloat b)),
      (''accumulated_token_usage'', usage_to_dict (accumulated_token_usage m)),
      (''costs'', JList (map cost_to_dict (costs m))),
      (''response_latencies'', JList (map latency_to_dict (response_latencies m))),
      (''token_usages'', JList (map usage_to_dict (token_usages m)))]"

section \<open>Accounting laws\<close>

text \<open>
  Well-formed metrics: no negative cost, and the accumulated cost and token counts are the sums
  over the individual entries. Every recording operation keeps it.
\<close>

definition cost_sum :: "metrics \<Rightarrow> rat" where
  "cost_sum m = sum_list (map c_cost (costs m))"

definition metrics_ok :: "metrics \<Rightarrow> bool" where
  "metrics_ok m \<longleftrightarrow>
     (\<forall>c \<in> set (costs m). 0 \<le> c_cost c) \<and> (\<forall>l \<in> set (response_latencies m). 0 \<le> rl_latency l)
     \<and> accumulated_cost m = cost_sum m
     \<and> tu_prompt_tokens (accumulated_token_usage m) = sum_list (map tu_prompt_tokens (token_usages m))
     \<and> tu_completion_tokens (accumulated_token_usage m) = sum_list (map tu_completion_tokens (token_usages m))
     \<and> tu_cache_read_tokens (accumulated_token_usage m) = sum_list (map tu_cache_read_tokens (token_usages m))
     \<and> tu_cache_write_tokens (accumulated_token_usage m) = sum_list (map tu_cache_write_tokens (token_usages m))
     \<and> tu_context_window (accumulated_token_usage m) = fold max (map tu_context_window (token_usages m)) 0"

lemma metrics_ok_new: "metrics_ok (new_metrics name)"
  by (simp add: metrics_ok_def new_metrics_def empty_usage_def cost_sum_def)

lemma metrics_ok_add_cost: "metrics_ok m \<Longrightarrow> add_cost now v m = Inr m' \<Longrightarrow> metrics_ok m'"
  by (auto simp: metrics_ok_def add_cost_def cost_sum_def split: if_splits)

lemma metrics_ok_add_latency: "metrics_ok m \<Longrightarrow> metrics_ok (add_response_latency v rid m)"
  by (auto simp: metrics_ok_def add_response_latency_def cost_sum_def)

lemma fold_max_from: "0 \<le> a \<Longrightarrow> fold max ys a = max a (fold max ys (0 :: int))"
proof -
  have "fold max ys (max a b) = max a (fold max ys b)" for a b :: int
  proof (induction ys arbitrary: b)
    case (Cons y ys)
    then show ?case by (simp only: fold_simps) (metis max.left_commute)
  qed simp
  then show "0 \<le> a \<Longrightarrow> ?thesis" by (metis max.absorb1)
qed

lemma fold_max_nonneg: "0 \<le> fold max xs (0 :: int)"
  by (induction xs rule: rev_induct) auto

lemma metrics_ok_add_usage: "metrics_ok m \<Longrightarrow> metrics_ok (add_token_usage pt ct cr cw win rid m)"
  by (simp add: metrics_ok_def add_token_usage_def cost_sum_def usage_add_def Let_def max.commute)

lemma metrics_ok_merge: "metrics_ok m \<Longrightarrow> metrics_ok n \<Longrightarrow> metrics_ok (merge_metrics m n)"
  by (auto simp: metrics_ok_def merge_metrics_def cost_sum_def usage_add_def
      fold_max_from [OF fold_max_nonneg])

lemma metrics_ok_cost_nonneg: "metrics_ok m \<Longrightarrow> 0 \<le> accumulated_cost m"
  by (auto simp: metrics_ok_def cost_sum_def intro!: sum_list_nonneg)

text \<open>What \<open>diff\<close> against an earlier snapshot reports is what was recorded since.\<close>

lemma diff_merge:
  "accumulated_cost (diff_metrics (merge_metrics b n) b) = accumulated_cost n"
  "token_usages (diff_metrics (merge_metrics b n) b) = token_usages n"
  "response_latencies (diff_metrics (merge_metrics b n) b) = response_latencies n"
  "tu_prompt_tokens (accumulated_token_usage (diff_metrics (merge_metrics b n) b))
     = tu_prompt_tokens (accumulated_token_usage n)"
  by (simp_all add: diff_metrics_def merge_metrics_def usage_add_def Let_def)

lemma diff_merge_costs:
  assumes "\<forall>c \<in> set (costs b). c_timestamp c \<le> t" and "\<forall>c \<in> set (costs n). t < c_timestamp c"
    and "costs b \<noteq> [] \<Longrightarrow> c_timestamp (last (costs b)) = t"
  shows "costs (diff_metrics (merge_metrics b n) b) = costs n"
proof (cases "costs b = []")
  case True
  then show ?thesis by (simp add: diff_metrics_def merge_metrics_def Let_def)
next
  case False
  with assms have "filter (\<lambda>c. t < c_timestamp c) (costs b) = []"
    and "filter (\<lambda>c. t < c_timestamp c) (costs n) = costs n"
    by (auto simp: filter_empty_conv)
  with False assms(3) show ?thesis by (simp add: diff_metrics_def merge_metrics_def Let_def)
qed

text \<open>A sequence of calls on one metrics object; the first exception ends it.\<close>

datatype metrics_call =
    CallAddCost rat rat
  | CallAddLatency rat string
  | CallAddUsage int int int int int string
  | CallMerge metrics

fun apply_call :: "metrics_call \<Rightarrow> metrics \<Rightarrow> metrics res" where
  "apply_call (CallAddCost now v) m = add_cost now v m"
| "apply_call (CallAddLatency v rid) m = Inr (add_response_latency v rid m)"
| "apply_call (CallAddUsage pt ct cr cw win rid) m = Inr (add_token_usage pt ct cr cw win rid m)"
| "apply_call (CallMerge other) m = Inr (merge_metrics m other)"

fun metrics_calls :: "metrics_call list \<Rightarrow> metrics \<Rightarrow> metrics res" where
  "metrics_calls [] m = Inr m"
| "metrics_calls (c # cs) m = bind_res (apply_call c m) (metrics_calls cs)"

lemma metrics_calls_ok:
  "metrics_ok m \<Longrightarrow> \<forall>n. CallMerge n \<in> set cs \<longrightarrow> metrics_ok n \<Longrightarrow> metrics_calls cs m = Inr m' \<Longrightarrow> metrics_ok m'"
proof (induction cs arbitrary: m)
  case (Cons c cs)
  then obtain m1 where m1: "apply_call c m = Inr m1" "metrics_calls cs m1 = Inr m'" by (auto simp: bind_res_Inr)
  with Cons.prems have "metrics_ok m1"
    by (cases c) (auto simp: metrics_ok_add_latency metrics_ok_add_usage metrics_ok_merge dest: metrics_ok_add_cost)
  with Cons m1 show ?case by simp
qed simp

lemma metrics_call_extends:
  "apply_call c m = Inr m' \<Longrightarrow> \<exists>us ls cs. token_usages m' = token_usages m @ us \<and> response_latencies m' = response_latencies m @ ls \<and> costs m' = costs m @ cs"
  by (cases c) (auto simp: add_cost_def add_response_latency_def add_token_usage_def merge_metrics_def Let_def split: if_splits)

lemma metrics_calls_extends:
  "metrics_calls cs m = Inr m' \<Longrightarrow> \<exists>us ls xs. token_usages m' = token_usages m @ us \<and> response_latencies m' = response_latencies m @ ls \<and> costs m' = costs m @ xs"
proof (induction cs arbitrary: m)
  case (Cons c cs)
  then obtain m1 where "apply_call c m = Inr m1" "metrics_calls cs m1 = Inr m'" by (auto simp: bind_res_Inr)
  with metrics_call_extends [of c m m1] Cons.IH [of m1] show ?case by fastforce
qed simp

definition costs_in_time :: "metrics \<Rightarrow> bool" where
  \<comment> \<open>every cost was recorded later than those before it\<close>
  "costs_in_time m = sorted_wrt (<) (map c_timestamp (costs m))"

lemma diff_costs_in_time:
  assumes "costs m = costs b @ xs" and "costs_in_time m"
  shows "costs (diff_metrics m b) = xs"
proof (cases "costs b" rule: rev_cases)
  case (snoc ys y)
  with assms have "sorted_wrt (<) (map c_timestamp ys @ c_timestamp y # map c_timestamp xs)" by (simp add: costs_in_time_def)
  then have "filter (\<lambda>c. c_timestamp y < c_timestamp c) ys = []" "filter (\<lambda>c. c_timestamp y < c_timestamp c) xs = xs"
    by (auto simp: sorted_wrt_append filter_empty_conv filter_id_conv dest: less_asym)
  with snoc assms(1) show ?thesis by (simp add: diff_metrics_def Let_def)
qed (use assms in \<open>simp add: diff_metrics_def Let_def\<close>)

text \<open>
  C21. Accounting. After any sequence of recordings and merges the accumulated cost and tokens are the
  sums over the entries, and the difference to an earlier snapshot accounts for exactly what was recorded since then: its cost, its token
  usages and latencies, and the sums of all four kinds of tokens; the context window is the largest of all entries, and
  the tokens of a turn are not counted. Its list of costs is the one of the new entries, with their sum, when every cost is later than those
  recorded before it; entries that are merged in with an earlier time are missing from it.
\<close>

theorem metrics_accounting:
  assumes "metrics_calls cs (new_metrics name) = Inr b" and "metrics_calls cs' b = Inr m"
    and "\<forall>n. CallMerge n \<in> set cs \<union> set cs' \<longrightarrow> metrics_ok n"
  defines "d \<equiv> diff_metrics m b"
  shows "metrics_ok m \<and> 0 \<le> accumulated_cost m
    \<and> accumulated_cost d = cost_sum m - cost_sum b \<and> model_name d = model_name m
    \<and> token_usages m = token_usages b @ token_usages d
    \<and> response_latencies m = response_latencies b @ response_latencies d
    \<and> tu_prompt_tokens (accumulated_token_usage d) = sum_list (map tu_prompt_tokens (token_usages d))
    \<and> tu_completion_tokens (accumulated_token_usage d) = sum_list (map tu_completion_tokens (token_usages d))
    \<and> tu_cache_read_tokens (accumulated_token_usage d) = sum_list (map tu_cache_read_tokens (token_usages d))
    \<and> tu_cache_write_tokens (accumulated_token_usage d) = sum_list (map tu_cache_write_tokens (token_usages d))
    \<and> tu_context_window (accumulated_token_usage d) = fold max (map tu_context_window (token_usages m)) 0
    \<and> tu_per_turn_token (accumulated_token_usage d) = 0
    \<and> (costs_in_time m \<longrightarrow> costs m = costs b @ costs d \<and> accumulated_cost d = cost_sum d)"
proof -
  have b: "metrics_ok b" using metrics_calls_ok [OF metrics_ok_new _ assms(1)] assms(3) by blast
  have m: "metrics_ok m" using metrics_calls_ok [OF b _ assms(2)] assms(3) by blast
  obtain us ls xs where ext: "token_usages m = token_usages b @ us" "response_latencies m = response_latencies b @ ls"
    "costs m = costs b @ xs" using metrics_calls_extends [OF assms(2)] by blast
  have acc: "accumulated_cost d = cost_sum m - cost_sum b" using m b by (simp add: d_def diff_metrics_def metrics_ok_def Let_def)
  have "costs_in_time m \<longrightarrow> costs m = costs b @ costs d \<and> accumulated_cost d = cost_sum d"
    using diff_costs_in_time [OF ext(3)] ext(3) acc by (simp add: d_def cost_sum_def)
  with m metrics_ok_cost_nonneg [OF m] b ext acc show ?thesis
    by (simp add: d_def diff_metrics_def metrics_ok_def new_metrics_def Let_def)
qed

text \<open>
  A cost that is merged in and is not later than the last one of the snapshot is in the accumulated cost of the difference and not in its list.
\<close>

lemma diff_loses_merged_costs:
  assumes "costs b \<noteq> []" and "\<forall>c \<in> set (costs n). c_timestamp c \<le> c_timestamp (last (costs b))"
  shows "accumulated_cost (diff_metrics (merge_metrics b n) b) = accumulated_cost n
    \<and> set (costs (diff_metrics (merge_metrics b n) b)) \<inter> set (costs n) = {}"
  using assms by (auto simp: diff_metrics_def merge_metrics_def Let_def dest: leD)

theorem metrics_accounting_witness:
  "\<exists>b m. metrics_calls [CallAddCost 1 (1/2)] (new_metrics ''gpt'') = Inr b
    \<and> metrics_calls [CallAddUsage 10 5 3 2 100 ''r'', CallAddCost 2 (1/4)] b = Inr m
    \<and> accumulated_cost (diff_metrics m b) = 1/4 \<and> length (token_usages (diff_metrics m b)) = 1
    \<and> map c_cost (costs (diff_metrics m b)) = [1/4] \<and> tu_cache_read_tokens (accumulated_token_usage (diff_metrics m b)) = 3"
proof -
  obtain b where b: "metrics_calls [CallAddCost 1 (1/2)] (new_metrics ''gpt'') = Inr b"
      "cost_sum b = 1/2" "token_usages b = []" "accumulated_cost b = 1/2" "costs b = [\<lparr>c_model = model_name b, c_cost = 1/2, c_timestamp = 1\<rparr>]"
    by (auto simp: add_cost_def new_metrics_def cost_sum_def)
  then obtain m where m: "metrics_calls [CallAddUsage 10 5 3 2 100 ''r'', CallAddCost 2 (1/4)] b = Inr m"
      "cost_sum m = 3/4" "map tu_cache_read_tokens (token_usages m) = [3]" "map c_timestamp (costs m) = [1, 2]" "map c_cost (costs m) = [1/2, 1/4]"
    by (auto simp: add_cost_def add_token_usage_def cost_sum_def Let_def)
  have "costs_in_time m" by (simp add: costs_in_time_def m(4))
  with metrics_accounting [OF b(1) m(1)] have d: "accumulated_cost (diff_metrics m b) = cost_sum m - cost_sum b"
    "token_usages m = token_usages b @ token_usages (diff_metrics m b)" "costs m = costs b @ costs (diff_metrics m b)"
    "tu_cache_read_tokens (accumulated_token_usage (diff_metrics m b)) = sum_list (map tu_cache_read_tokens (token_usages (diff_metrics m b)))"
    by simp_all
  have "length (token_usages m) = 1" using m(3) by (metis length_Cons length_map list.size(3) One_nat_def)
  moreover have "map c_cost (costs (diff_metrics m b)) = [1/4]" using m(5) d(3) b(5) by simp
  ultimately show ?thesis using b m d by auto
qed

section \<open>ConversationStats\<close>

text \<open>The file the pickled metrics are written to is the store's; here only the in-memory state is kept.\<close>

record conversation_stats =
  service_to_metrics :: "(string \<times> metrics) list"
  restored_metrics :: "(string \<times> metrics) list"

definition get_combined_metrics :: "conversation_stats \<Rightarrow> metrics" where
  "get_combined_metrics cs = fold (\<lambda>(_, m) total. merge_metrics total m) (service_to_metrics cs) (new_metrics ''default'')"

text \<open>The dictionary \<open>save_metrics\<close> pickles: restored entries, overwritten by registered ones.\<close>

definition saved_metrics :: "conversation_stats \<Rightarrow> (string \<times> metrics) list" where
  "saved_metrics cs = d_update (restored_metrics cs) (service_to_metrics cs)"

definition get_metrics_for_service :: "string \<Rightarrow> conversation_stats \<Rightarrow> metrics res" where
  "get_metrics_for_service sid cs =
     (case d_get (service_to_metrics cs) sid of
        None \<Rightarrow> Inl (OtherError ''Exception'' (''LLM service does not exist '' @ sid))
      | Some m \<Rightarrow> Inr m)"

text \<open>\<open>register_llm\<close>: the second component is the metrics object the LLM has afterwards.\<close>

definition register_llm :: "string \<Rightarrow> metrics \<Rightarrow> conversation_stats \<Rightarrow> conversation_stats \<times> metrics" where
  "register_llm sid llm_metrics cs =
     (case d_get (restored_metrics cs) sid of
        Some r \<Rightarrow>
          (cs\<lparr>restored_metrics := d_del sid (restored_metrics cs),
              service_to_metrics := d_set sid r (service_to_metrics cs)\<rparr>, r)
      | None \<Rightarrow> (cs\<lparr>service_to_metrics := d_set sid llm_metrics (service_to_metrics cs)\<rparr>, llm_metrics))"

definition drop_zero_cost :: "(string \<times> metrics) list \<Rightarrow> (string \<times> metrics) list" where
  "drop_zero_cost d = filter (\<lambda>(_, m). accumulated_cost m \<noteq> 0) d"

definition merge_and_save :: "conversation_stats \<Rightarrow> conversation_stats \<Rightarrow> conversation_stats \<times> conversation_stats" where
  "merge_and_save self other =
     (let mine = drop_zero_cost (restored_metrics self); theirs = drop_zero_cost (restored_metrics other)
      in (self\<lparr>restored_metrics := d_update mine theirs\<rparr>, other\<lparr>restored_metrics := theirs\<rparr>))"

lemma fold_merge_cost:
  fixes xs :: "(string \<times> metrics) list"
  shows "accumulated_cost (fold (\<lambda>(_, m) total. merge_metrics total m) xs t)
    = accumulated_cost t + sum_list (map (accumulated_cost \<circ> snd) xs)"
  by (induction xs arbitrary: t) (auto simp: merge_metrics_def)

lemma fold_merge_ok:
  fixes xs :: "(string \<times> metrics) list"
  shows "\<forall>(k, m) \<in> set xs. metrics_ok m \<Longrightarrow> metrics_ok t \<Longrightarrow>
    metrics_ok (fold (\<lambda>(_, m) total. merge_metrics total m) xs t)"
  by (induction xs arbitrary: t) (auto simp: metrics_ok_merge)

lemma combined_cost:
  "accumulated_cost (get_combined_metrics cs) = sum_list (map (accumulated_cost \<circ> snd) (service_to_metrics cs))"
  by (simp add: get_combined_metrics_def fold_merge_cost) (simp add: new_metrics_def)

lemma combined_ok:
  "\<forall>(k, m) \<in> set (service_to_metrics cs). metrics_ok m \<Longrightarrow> metrics_ok (get_combined_metrics cs)"
  by (simp add: get_combined_metrics_def fold_merge_ok metrics_ok_new)

text \<open>Registering a service moves the metrics restored for it, so the saved dictionary keeps them.\<close>

lemma register_llm_restored:
  assumes "d_get (restored_metrics cs) sid = Some r" and "distinct (d_keys (service_to_metrics cs))"
    and "register_llm sid m cs = (cs', m')"
  shows "m' = r \<and> d_get (saved_metrics cs') sid = Some r \<and> \<not> d_has (restored_metrics cs') sid"
  using assms by (auto simp: register_llm_def d_has_def saved_metrics_def map_of_d_update distinct_d_set)

text \<open>
  Registering services one after the other: what was restored for a service is what its LLM continues
  with, the saved dictionary never loses a restored entry, and the combined cost is the sum over the registered services.
\<close>

theorem restored_metrics_survive:
  assumes "d_get (restored_metrics cs) sid = Some r" and "distinct (d_keys (service_to_metrics cs))"
    and "register_llm sid' m cs = (cs', m')"
  shows "(sid' = sid \<longrightarrow> m' = r)
    \<and> (sid' = sid \<or> \<not> d_has (service_to_metrics cs) sid \<longrightarrow> d_get (saved_metrics cs') sid = Some r)
    \<and> accumulated_cost (get_combined_metrics cs') = sum_list (map (accumulated_cost \<circ> snd) (service_to_metrics cs'))
    \<and> distinct (d_keys (service_to_metrics cs'))"
proof -
  have svc: "\<exists>x. service_to_metrics cs' = d_set sid' x (service_to_metrics cs)"
    and rest: "sid' \<noteq> sid \<Longrightarrow> d_get (restored_metrics cs') sid = Some r"
    using assms(1,3) by (auto simp: register_llm_def split: option.splits)
  from svc have dist: "distinct (d_keys (service_to_metrics cs'))" using assms(2) by (auto simp: distinct_d_set)
  moreover have "d_get (saved_metrics cs') sid = Some r" if "sid' \<noteq> sid" "\<not> d_has (service_to_metrics cs) sid"
  proof -
    from svc that have "d_get (service_to_metrics cs') sid = None" by (auto simp: d_has_def)
    with rest [OF that(1)] dist show ?thesis by (simp add: saved_metrics_def map_of_d_update map_add_def)
  qed
  moreover have "sid' = sid \<Longrightarrow> m' = r \<and> d_get (saved_metrics cs') sid = Some r"
    using register_llm_restored [OF assms(1,2)] assms(3) by blast
  ultimately show ?thesis using combined_cost [of cs'] by blast
qed

theorem restored_metrics_survive_witness:
  "let cs = \<lparr>service_to_metrics = [], restored_metrics = [(''agent'', (new_metrics ''m'')\<lparr>accumulated_cost := 2\<rparr>)]\<rparr>;
       (cs', m') = register_llm ''agent'' (new_metrics ''n'') cs
   in accumulated_cost m' = 2 \<and> d_get (saved_metrics cs') ''agent'' = Some m'"
proof -
  let ?r = "(new_metrics ''m'')\<lparr>accumulated_cost := 2\<rparr>"
  let ?cs = "\<lparr>service_to_metrics = [], restored_metrics = [(''agent'', ?r)]\<rparr>"
  obtain cs' m' where r: "register_llm ''agent'' (new_metrics ''n'') ?cs = (cs', m')" by force
  from restored_metrics_survive [of ?cs "''agent''" ?r, OF _ _ r] show ?thesis
    by (simp add: r d_keys_def)
qed

end
