(* ===== verification/Events.thy ===== *)
theory Events
  imports Metrics
begin

text \<open>
  The events of the system (\<open>openhands/events\<close>): the actions an agent or the user issues, the
  observations that answer them, and the metadata every event carries.

  Each dataclass with several fields is a record whose fields are the class's own, in order, under a
  prefix of its class; the constant field \<open>action\<close> or \<open>observation\<close> that names the class is the constructor.
  The attributes with a leading underscore, which the dataclass equality ignores, are in the record
  \<open>event\<close> beside the \<open>body\<close>; so is the attribute \<open>confirmation_state\<close> that the controller
  assigns to objects whose class does not declare it. String enumerations keep a constructor for a string that is none of
  their members, because the deserialisers store such a string unchecked.
\<close>

section \<open>Enumerations\<close>

datatype event_source = AGENT | USER | ENVIRONMENT

definition source_value :: "event_source \<Rightarrow> string" where
  "source_value s = (case s of AGENT \<Rightarrow> ''agent'' | USER \<Rightarrow> ''user'' | ENVIRONMENT \<Rightarrow> ''environment'')"

definition source_of :: "string \<Rightarrow> event_source res" where
  "source_of s = (if s = ''agent'' then Inr AGENT else if s = ''user'' then Inr USER
     else if s = ''environment'' then Inr ENVIRONMENT else Inl (ValueError s))"

datatype file_edit_source = LLM_BASED_EDIT | EDIT_OH_ACI | OtherEditSource string

definition edit_source_value :: "file_edit_source \<Rightarrow> string" where
  "edit_source_value s = (case s of LLM_BASED_EDIT \<Rightarrow> ''llm_based_edit'' | EDIT_OH_ACI \<Rightarrow> ''oh_aci'' | OtherEditSource t \<Rightarrow> t)"

definition edit_source_of :: "string \<Rightarrow> file_edit_source" where
  "edit_source_of s = (if s = ''llm_based_edit'' then LLM_BASED_EDIT else if s = ''oh_aci'' then EDIT_OH_ACI else OtherEditSource s)"

datatype file_read_source = READ_OH_ACI | READ_DEFAULT | OtherReadSource string

definition read_source_value :: "file_read_source \<Rightarrow> string" where
  "read_source_value s = (case s of READ_OH_ACI \<Rightarrow> ''oh_aci'' | READ_DEFAULT \<Rightarrow> ''default'' | OtherReadSource t \<Rightarrow> t)"

definition read_source_of :: "string \<Rightarrow> file_read_source" where
  "read_source_of s = (if s = ''oh_aci'' then READ_OH_ACI else if s = ''default'' then READ_DEFAULT else OtherReadSource s)"

datatype recall_type = WORKSPACE_CONTEXT | KNOWLEDGE | OtherRecallType string

definition recall_type_value :: "recall_type \<Rightarrow> string" where
  "recall_type_value s = (case s of WORKSPACE_CONTEXT \<Rightarrow> ''workspace_context'' | KNOWLEDGE \<Rightarrow> ''knowledge'' | OtherRecallType t \<Rightarrow> t)"

definition recall_type_of :: "string \<Rightarrow> recall_type" where
  "recall_type_of s = (if s = ''workspace_context'' then WORKSPACE_CONTEXT else if s = ''knowledge'' then KNOWLEDGE else OtherRecallType s)"

datatype confirmation_status = CONFIRMED | CONF_REJECTED | AWAITING_CONFIRMATION | OtherConfirmation string

definition confirmation_value :: "confirmation_status \<Rightarrow> string" where
  "confirmation_value s = (case s of CONFIRMED \<Rightarrow> ''confirmed'' | CONF_REJECTED \<Rightarrow> ''rejected''
     | AWAITING_CONFIRMATION \<Rightarrow> ''awaiting_confirmation'' | OtherConfirmation t \<Rightarrow> t)"

definition confirmation_of :: "string \<Rightarrow> confirmation_status" where
  "confirmation_of s = (if s = ''confirmed'' then CONFIRMED else if s = ''rejected'' then CONF_REJECTED
     else if s = ''awaiting_confirmation'' then AWAITING_CONFIRMATION else OtherConfirmation s)"

datatype security_risk = RISK_UNKNOWN | RISK_LOW | RISK_MEDIUM | RISK_HIGH

definition risk_value :: "security_risk \<Rightarrow> int" where
  "risk_value r = (case r of RISK_UNKNOWN \<Rightarrow> -1 | RISK_LOW \<Rightarrow> 0 | RISK_MEDIUM \<Rightarrow> 1 | RISK_HIGH \<Rightarrow> 2)"

definition risk_of :: "int \<Rightarrow> security_risk option" where
  "risk_of n = (if n = -1 then Some RISK_UNKNOWN else if n = 0 then Some RISK_LOW
     else if n = 1 then Some RISK_MEDIUM else if n = 2 then Some RISK_HIGH else None)"

text \<open>The states of an agent; \<open>ChangeAgentStateAction\<close> carries an arbitrary string.\<close>

datatype agent_state =
    LOADING | RUNNING | AWAITING_USER_INPUT | PAUSED | STOPPED | FINISHED | REJECTED | ERROR
  | AWAITING_USER_CONFIRMATION | USER_CONFIRMED | USER_REJECTED | RATE_LIMITED | OtherState string

definition agent_state_value :: "agent_state \<Rightarrow> string" where
  "agent_state_value s = (case s of LOADING \<Rightarrow> ''loading'' | RUNNING \<Rightarrow> ''running''
     | AWAITING_USER_INPUT \<Rightarrow> ''awaiting_user_input'' | PAUSED \<Rightarrow> ''paused'' | STOPPED \<Rightarrow> ''stopped''
     | FINISHED \<Rightarrow> ''finished'' | REJECTED \<Rightarrow> ''rejected'' | ERROR \<Rightarrow> ''error''
     | AWAITING_USER_CONFIRMATION \<Rightarrow> ''awaiting_user_confirmation'' | USER_CONFIRMED \<Rightarrow> ''user_confirmed''
     | USER_REJECTED \<Rightarrow> ''user_rejected'' | RATE_LIMITED \<Rightarrow> ''rate_limited'' | OtherState t \<Rightarrow> t)"

definition agent_state_of :: "string \<Rightarrow> agent_state" where
  "agent_state_of s =
     (if s = ''loading'' then LOADING else if s = ''running'' then RUNNING
      else if s = ''awaiting_user_input'' then AWAITING_USER_INPUT else if s = ''paused'' then PAUSED
      else if s = ''stopped'' then STOPPED else if s = ''finished'' then FINISHED
      else if s = ''rejected'' then REJECTED else if s = ''error'' then ERROR
      else if s = ''awaiting_user_confirmation'' then AWAITING_USER_CONFIRMATION
      else if s = ''user_confirmed'' then USER_CONFIRMED else if s = ''user_rejected'' then USER_REJECTED
      else if s = ''rate_limited'' then RATE_LIMITED else OtherState s)"

lemmas enum_value_defs = source_value_def edit_source_value_def read_source_value_def recall_type_value_def
  confirmation_value_def risk_value_def agent_state_value_def

lemmas enum_of_defs = source_of_def edit_source_of_def read_source_of_def recall_type_of_def
  confirmation_of_def risk_of_def agent_state_of_def

text \<open>Reading the value of a member gives the member back.\<close>

lemma source_of_value [simp]: "source_of (source_value s) = Inr s"
  by (cases s) (simp_all add: source_of_def source_value_def)

lemma risk_of_value [simp]: "risk_of (risk_value r) = Some r"
  by (cases r) (simp_all add: risk_of_def risk_value_def)

lemma agent_state_value_of [simp]: "agent_state_value (agent_state_of s) = s"
  by (simp add: agent_state_of_def agent_state_value_def)

lemma edit_source_value_of [simp]: "edit_source_value (edit_source_of s) = s"
  by (simp add: edit_source_of_def edit_source_value_def)

lemma read_source_value_of [simp]: "read_source_value (read_source_of s) = s"
  by (simp add: read_source_of_def read_source_value_def)

lemma recall_type_value_of [simp]: "recall_type_value (recall_type_of s) = s"
  by (simp add: recall_type_of_def recall_type_value_def)

lemma confirmation_value_of [simp]: "confirmation_value (confirmation_of s) = s"
  by (simp add: confirmation_of_def confirmation_value_def)

section \<open>Actions\<close>

record cmd_run_action =
  cr_command :: string
  cr_is_input :: bool
  cr_thought :: string
  cr_blocking :: bool
  cr_is_static :: bool
  cr_cwd :: "string option"
  cr_hidden :: bool
  cr_confirmation_state :: confirmation_status
  cr_security_risk :: "security_risk option"

record ipython_action =
  ip_code :: string
  ip_thought :: string
  ip_include_extra :: bool
  ip_confirmation_state :: confirmation_status
  ip_security_risk :: "security_risk option"
  ip_kernel_init_code :: string

record browse_url_action =
  bu_url :: string
  bu_thought :: string
  bu_security_risk :: "security_risk option"
  bu_return_axtree :: bool

record browse_interactive_action =
  bi_browser_actions :: string
  bi_thought :: string
  bi_browsergym_send_msg_to_user :: string
  bi_security_risk :: "security_risk option"
  bi_return_axtree :: bool

record file_read_action =
  fr_path :: string
  fr_start :: int
  fr_end :: int
  fr_thought :: string
  fr_security_risk :: "security_risk option"
  fr_impl_source :: file_read_source
  fr_view_range :: "int list option"

record file_write_action =
  fw_path :: string
  fw_content :: string
  fw_start :: int
  fw_end :: int
  fw_thought :: string
  fw_security_risk :: "security_risk option"

record file_edit_action =
  fe_path :: string
  fe_command :: string
  fe_file_text :: "string option"
  fe_old_str :: "string option"
  fe_new_str :: "string option"
  fe_insert_line :: "int option"
  fe_content :: string
  fe_start :: int
  fe_end :: int
  fe_thought :: string
  fe_security_risk :: "security_risk option"
  fe_impl_source :: file_edit_source

record mcp_action =
  mc_name :: string
  mc_arguments :: dict
  mc_thought :: string
  mc_security_risk :: "security_risk option"

record message_action =
  ma_content :: string
  ma_file_urls :: "string list option"
  ma_image_urls :: "string list option"
  ma_wait_for_response :: bool
  ma_security_risk :: "security_risk option"

record system_message_action =
  sm_content :: string
  sm_tools :: "json list option"
  sm_openhands_version :: "string option"
  sm_agent_class :: "string option"

record condensation_action =
  ca_forgotten_event_ids :: "int list option"
  ca_forgotten_events_start_id :: "int option"
  ca_forgotten_events_end_id :: "int option"
  ca_summary :: "string option"
  ca_summary_offset :: "int option"

datatype action =
    NullAction
  | CmdRunAction cmd_run_action
  | IPythonRunCellAction ipython_action
  | BrowseURLAction browse_url_action
  | BrowseInteractiveAction browse_interactive_action
  | FileReadAction file_read_action
  | FileWriteAction file_write_action
  | FileEditAction file_edit_action
  | AgentThinkAction (think_thought: string)
  | AgentFinishAction (finish_final_thought: string) (finish_outputs: dict) (finish_thought: string)
  | AgentRejectAction (reject_outputs: dict) (reject_thought: string)
  | AgentDelegateAction (delegate_agent: string) (delegate_inputs: dict) (delegate_thought: string)
  | RecallAction (recall_kind: recall_type) (recall_query: string) (recall_thought: string)
  | ChangeAgentStateAction (change_agent_state: agent_state) (change_thought: string)
  | MessageAction message_action
  | SystemMessageAction system_message_action
  | CondensationAction condensation_action
  | CondensationRequestAction
  | MCPAction mcp_action
  | TaskTrackingAction (tt_command: string) (tt_task_list: "json list") (tt_thought: string)
  | LoopRecoveryAction (loop_option: int)

section \<open>Observations\<close>

record cmd_output_metadata =
  cm_exit_code :: int
  cm_pid :: int
  cm_username :: "string option"
  cm_hostname :: "string option"
  cm_working_dir :: "string option"
  cm_py_interpreter_path :: "string option"
  cm_prefix :: string
  cm_suffix :: string

record cmd_output_observation =
  co_content :: string
  co_command :: string
  co_metadata :: cmd_output_metadata
  co_hidden :: bool

record ipython_observation =
  io_content :: string
  io_code :: string
  io_image_urls :: "string list option"

record browser_output_observation =
  bo_content :: string
  bo_url :: string
  bo_trigger_by_action :: string
  bo_screenshot :: string
  bo_screenshot_path :: "string option"
  bo_set_of_marks :: string
  bo_error :: bool
  bo_goal_image_urls :: "string list"
  bo_open_pages_urls :: "string list"
  bo_active_page_index :: int
  bo_dom_object :: dict
  bo_axtree_object :: dict
  bo_extra_element_properties :: dict
  bo_last_browser_action :: string
  bo_last_browser_action_error :: string
  bo_focused_element_bid :: string
  bo_filter_visible_only :: bool

record file_edit_observation =
  fo_content :: string
  fo_path :: string
  fo_prev_exist :: bool
  fo_old_content :: "string option"
  fo_new_content :: "string option"
  fo_impl_source :: file_edit_source
  fo_diff :: "string option"
  fo_diff_cache :: "string option"

record microagent_knowledge =
  mk_name :: string
  mk_trigger :: string
  mk_content :: string

record recall_observation =
  ro_content :: string
  ro_recall_type :: recall_type
  ro_repo_name :: string
  ro_repo_directory :: string
  ro_repo_branch :: string
  ro_repo_instructions :: string
  ro_runtime_hosts :: "(string \<times> int) list"
  ro_additional_agent_instructions :: string
  ro_date :: string
  ro_custom_secrets_descriptions :: "(string \<times> string) list"
  ro_conversation_instructions :: string
  ro_working_dir :: string
  ro_microagent_knowledge :: "microagent_knowledge list"

datatype observation =
    NullObservation string
  | CmdOutputObservation cmd_output_observation
  | IPythonRunCellObservation ipython_observation
  | BrowserOutputObservation browser_output_observation
  | FileReadObservation (fro_content: string) (fro_path: string) (fro_impl_source: file_read_source)
  | FileWriteObservation (fwo_content: string) (fwo_path: string)
  | FileEditObservation file_edit_observation
  | AgentDelegateObservation (ado_content: string) (ado_outputs: dict)
  | SuccessObservation string
  | ErrorObservation (eo_content: string) (eo_error_id: string)
  | AgentStateChangedObservation (asc_content: string) (asc_agent_state: agent_state) (asc_reason: string)
  | UserRejectObservation string
  | AgentCondensationObservation string
  | AgentThinkObservation string
  | RecallObservation recall_observation
  | MCPObservation (mo_content: string) (mo_name: string) (mo_arguments: dict)
  | FileDownloadObservation (fd_content: string) (fd_file_path: string)
  | TaskTrackingObservation (tto_content: string) (tto_command: string) (tto_task_list: "json list")
  | LoopDetectionObservation string

section \<open>Events\<close>

text \<open>\<open>model_response\<close> is an object of the LiteLLM library; the model keeps its dump.\<close>

record tool_call_metadata =
  tc_function_name :: string
  tc_tool_call_id :: string
  tc_model_response :: json
  tc_total_calls_in_response :: int

datatype body = Act action | Obs observation

record event =
  ev_body :: body
  ev_id :: "int option"
  ev_timestamp :: "string option"
  ev_source :: "event_source option"
  ev_cause :: "int option"
  ev_timeout :: "rat option"
  ev_llm_metrics :: "metrics option"
  ev_tool_call_metadata :: "tool_call_metadata option"
  ev_response_id :: "string option"
  ev_extra_confirmation :: "confirmation_status option"

definition INVALID_ID :: int where "INVALID_ID = -1"

definition event_id :: "event \<Rightarrow> int" where
  "event_id e = (case ev_id e of None \<Rightarrow> INVALID_ID | Some i \<Rightarrow> i)"

text \<open>An object fresh from its constructor: no underscore attribute is set.\<close>

definition fresh :: "body \<Rightarrow> event" where
  "fresh b = \<lparr>ev_body = b, ev_id = None, ev_timestamp = None, ev_source = None, ev_cause = None,
     ev_timeout = None, ev_llm_metrics = None, ev_tool_call_metadata = None, ev_response_id = None, ev_extra_confirmation = None\<rparr>"

definition new_action :: "action \<Rightarrow> event" where "new_action a = fresh (Act a)"
definition new_obs :: "observation \<Rightarrow> event" where "new_obs b = fresh (Obs b)"

lemma fresh_sel [simp]:
  "ev_body (fresh b) = b" "ev_id (fresh b) = None" "ev_source (fresh b) = None" "ev_cause (fresh b) = None"
  "event_id (fresh b) = -1" "ev_timestamp (fresh b) = None" "ev_timeout (fresh b) = None"
  "ev_llm_metrics (fresh b) = None" "ev_tool_call_metadata (fresh b) = None" "ev_response_id (fresh b) = None"
  "ev_extra_confirmation (fresh b) = None"
  by (simp_all add: fresh_def event_id_def INVALID_ID_def)

subsection \<open>Class tests\<close>

fun is_action :: "body \<Rightarrow> bool" where
  "is_action (Act _) = True" | "is_action (Obs _) = False"

fun is_observation :: "body \<Rightarrow> bool" where
  "is_observation (Act _) = False" | "is_observation (Obs _) = True"

definition is_message :: "body \<Rightarrow> bool" where
  "is_message b = (case b of Act (MessageAction _) \<Rightarrow> True | _ \<Rightarrow> False)"

definition is_system_message :: "body \<Rightarrow> bool" where
  "is_system_message b = (case b of Act (SystemMessageAction _) \<Rightarrow> True | _ \<Rightarrow> False)"

definition is_null_action :: "body \<Rightarrow> bool" where
  "is_null_action b = (case b of Act NullAction \<Rightarrow> True | _ \<Rightarrow> False)"

definition is_null_obs :: "body \<Rightarrow> bool" where
  "is_null_obs b = (case b of Obs (NullObservation _) \<Rightarrow> True | _ \<Rightarrow> False)"

definition is_error_obs :: "body \<Rightarrow> bool" where
  "is_error_obs b = (case b of Obs (ErrorObservation _ _) \<Rightarrow> True | _ \<Rightarrow> False)"

definition is_ipython_obs :: "body \<Rightarrow> bool" where
  "is_ipython_obs b = (case b of Obs (IPythonRunCellObservation _) \<Rightarrow> True | _ \<Rightarrow> False)"

definition is_condensation_obs :: "body \<Rightarrow> bool" where
  "is_condensation_obs b = (case b of Obs (AgentCondensationObservation _) \<Rightarrow> True | _ \<Rightarrow> False)"

definition is_state_changed :: "body \<Rightarrow> bool" where
  "is_state_changed b = (case b of Obs (AgentStateChangedObservation _ _ _) \<Rightarrow> True | _ \<Rightarrow> False)"

definition is_change_state :: "body \<Rightarrow> bool" where
  "is_change_state b = (case b of Act (ChangeAgentStateAction _ _) \<Rightarrow> True | _ \<Rightarrow> False)"

definition is_delegate_action :: "body \<Rightarrow> bool" where
  "is_delegate_action b = (case b of Act (AgentDelegateAction _ _ _) \<Rightarrow> True | _ \<Rightarrow> False)"

definition is_delegate_obs :: "body \<Rightarrow> bool" where
  "is_delegate_obs b = (case b of Obs (AgentDelegateObservation _ _) \<Rightarrow> True | _ \<Rightarrow> False)"

definition is_condensation_action :: "body \<Rightarrow> bool" where
  "is_condensation_action b = (case b of Act (CondensationAction _) \<Rightarrow> True | _ \<Rightarrow> False)"

definition is_condensation_request :: "body \<Rightarrow> bool" where
  "is_condensation_request b = (case b of Act CondensationRequestAction \<Rightarrow> True | _ \<Rightarrow> False)"

definition is_browser_obs :: "body \<Rightarrow> bool" where
  "is_browser_obs b = (case b of Obs (BrowserOutputObservation _) \<Rightarrow> True | _ \<Rightarrow> False)"

definition is_finish :: "body \<Rightarrow> bool" where
  "is_finish b = (case b of Act (AgentFinishAction _ _ _) \<Rightarrow> True | _ \<Rightarrow> False)"

lemmas is_class_defs [isinst] = is_message_def is_system_message_def is_null_action_def is_null_obs_def
  is_error_obs_def is_ipython_obs_def is_condensation_obs_def is_state_changed_def is_change_state_def
  is_delegate_action_def is_delegate_obs_def is_condensation_action_def is_condensation_request_def
  is_browser_obs_def is_finish_def

lemma is_observation_iff [simp]: "is_observation b \<longleftrightarrow> \<not> is_action b"
  by (cases b) simp_all

lemma is_class_kind:
  "is_message b \<Longrightarrow> is_action b" "is_null_action b \<Longrightarrow> is_action b" "is_null_obs b \<Longrightarrow> is_observation b"
  "is_error_obs b \<Longrightarrow> is_observation b" "is_ipython_obs b \<Longrightarrow> is_observation b"
  "is_condensation_obs b \<Longrightarrow> is_observation b" "is_delegate_action b \<Longrightarrow> is_action b"
  "is_condensation_action b \<Longrightarrow> is_action b" "is_condensation_request b \<Longrightarrow> is_action b"
  by (cases b; simp add: is_class_defs)+

definition is_user_message :: "event \<Rightarrow> bool" where
  "is_user_message e = (is_message (ev_body e) \<and> ev_source e = Some USER)"

definition is_agent_message :: "event \<Rightarrow> bool" where
  "is_agent_message e = (is_message (ev_body e) \<and> ev_source e = Some AGENT)"

end
