(* ===== verification/EventOps.thy ===== *)
theory EventOps
  imports Events
begin

text \<open>
  The methods and properties of the event classes: the one-line message, equality of dataclasses, the
  truncating constructor of command output, the validation of a condensation action, and the
  attribute access the controller does with \<open>hasattr\<close> and \<open>getattr\<close>.
\<close>

section \<open>Dataclass equality\<close>

text \<open>
  \<open>==\<close> on events compares the class and the declared fields, never the underscore attributes.
  Fields that hold dictionaries or arbitrary values are compared as Python compares them.
\<close>

fun norm_action :: "action \<Rightarrow> action" where
  "norm_action (AgentFinishAction f outs t) = AgentFinishAction f (norm_dict outs) t"
| "norm_action (AgentRejectAction outs t) = AgentRejectAction (norm_dict outs) t"
| "norm_action (AgentDelegateAction a ins t) = AgentDelegateAction a (norm_dict ins) t"
| "norm_action (MCPAction r) = MCPAction (r\<lparr>mc_arguments := norm_dict (mc_arguments r)\<rparr>)"
| "norm_action (SystemMessageAction r) = SystemMessageAction (r\<lparr>sm_tools := map_option (map norm_json) (sm_tools r)\<rparr>)"
| "norm_action (TaskTrackingAction c ts t) = TaskTrackingAction c (map norm_json ts) t"
| "norm_action a = a"

fun norm_obs :: "observation \<Rightarrow> observation" where
  "norm_obs (BrowserOutputObservation r) = BrowserOutputObservation
     (r\<lparr>bo_dom_object := norm_dict (bo_dom_object r), bo_axtree_object := norm_dict (bo_axtree_object r),
        bo_extra_element_properties := norm_dict (bo_extra_element_properties r)\<rparr>)"
| "norm_obs (AgentDelegateObservation c outs) = AgentDelegateObservation c (norm_dict outs)"
| "norm_obs (RecallObservation r) = RecallObservation
     (r\<lparr>ro_runtime_hosts := sort_key fst (ro_runtime_hosts r),
        ro_custom_secrets_descriptions := sort_key fst (ro_custom_secrets_descriptions r)\<rparr>)"
| "norm_obs (MCPObservation c n args) = MCPObservation c n (norm_dict args)"
| "norm_obs (TaskTrackingObservation c m ts) = TaskTrackingObservation c m (map norm_json ts)"
| "norm_obs ob = ob"

fun norm_body :: "body \<Rightarrow> body" where
  "norm_body (Act a) = Act (norm_action a)"
| "norm_body (Obs ob) = Obs (norm_obs ob)"

definition event_eq :: "event \<Rightarrow> event \<Rightarrow> bool" where
  \<comment> \<open>\<open>e1 == e2\<close>\<close>
  "event_eq e1 e2 = (norm_body (ev_body e1) = norm_body (ev_body e2))"

lemma event_eq_refl [simp]: "event_eq e e"
  by (simp add: event_eq_def)

lemma event_eq_sym: "event_eq e1 e2 \<Longrightarrow> event_eq e2 e1"
  by (simp add: event_eq_def)

lemma event_eq_trans: "event_eq e1 e2 \<Longrightarrow> event_eq e2 e3 \<Longrightarrow> event_eq e1 e3"
  by (simp add: event_eq_def)

lemma norm_kind: "is_action (norm_body b) = is_action b"
  by (cases b) simp_all

lemma norm_message: "is_message (norm_body b) = is_message b"
proof (cases b)
  case (Act a)
  then show ?thesis by (cases a) (simp_all add: is_message_def)
qed (simp add: is_message_def)

lemma event_eq_kind: "event_eq e1 e2 \<Longrightarrow> is_action (ev_body e1) = is_action (ev_body e2)"
  by (metis event_eq_def norm_kind)

definition index_of :: "event list \<Rightarrow> event \<Rightarrow> nat option" where
  \<comment> \<open>\<open>history.index(e)\<close>: the first element equal to \<open>e\<close>\<close>
  "index_of es e = find_index (\<lambda>x. event_eq x e) es"

lemma index_of_member: "e \<in> set es \<Longrightarrow> \<exists>i. index_of es e = Some i \<and> i < length es \<and> event_eq (es ! i) e"
  by (cases "index_of es e") (auto simp: index_of_def find_index_None find_index_Some)

section \<open>Command output\<close>

definition default_metadata :: cmd_output_metadata where
  "default_metadata = \<lparr>cm_exit_code = -1, cm_pid = -1, cm_username = None, cm_hostname = None,
     cm_working_dir = None, cm_py_interpreter_path = None, cm_prefix = [], cm_suffix = []\<rparr>"

definition MAX_CMD_OUTPUT_SIZE :: nat where "MAX_CMD_OUTPUT_SIZE = 30000"

definition truncation_notice :: string where
  "truncation_notice = nl # ''[... Observation truncated due to length ...]'' @ [nl]"

text \<open>\<open>content[:half] + notice + content[-half:]\<close>; with \<open>half = 0\<close> the last slice is the whole text.\<close>

definition truncate_middle :: "nat \<Rightarrow> string \<Rightarrow> string" where
  "truncate_middle half s = py_take (int half) s @ truncation_notice @ py_drop (- int half) s"

definition maybe_truncate :: "nat \<Rightarrow> string \<Rightarrow> string" where
  "maybe_truncate max_size content =
     (if length content \<le> max_size then content else truncate_middle (max_size div 2) content)"

text \<open>The constructor \<open>CmdOutputObservation(content, command, metadata, hidden, exit_code, command_id)\<close>.\<close>

definition new_cmd_output ::
  "string \<Rightarrow> string \<Rightarrow> cmd_output_metadata \<Rightarrow> bool \<Rightarrow> int option \<Rightarrow> int option \<Rightarrow> cmd_output_observation" where
  "new_cmd_output content command md hidden exit_code command_id =
     (let content = (if hidden then content else maybe_truncate MAX_CMD_OUTPUT_SIZE content);
          md = (case exit_code of None \<Rightarrow> md | Some c \<Rightarrow> md\<lparr>cm_exit_code := c\<rparr>);
          md = (case command_id of None \<Rightarrow> md | Some p \<Rightarrow> md\<lparr>cm_pid := p\<rparr>)
      in \<lparr>co_content = content, co_command = command, co_metadata = md, co_hidden = hidden\<rparr>)"

definition co_exit_code :: "cmd_output_observation \<Rightarrow> int" where
  "co_exit_code c = cm_exit_code (co_metadata c)"

definition co_error :: "cmd_output_observation \<Rightarrow> bool" where
  "co_error c = (co_exit_code c \<noteq> 0)"

definition co_success :: "cmd_output_observation \<Rightarrow> bool" where
  "co_success c = (\<not> co_error c)"

definition to_agent_observation :: "cmd_output_observation \<Rightarrow> string" where
  "to_agent_observation c =
     (let md = co_metadata c in
      cm_prefix md @ co_content c @ cm_suffix md
      @ (case cm_working_dir md of
           Some d \<Rightarrow> (if d = [] then [] else nl # ''[Current working directory: '' @ d @ '']'') | None \<Rightarrow> [])
      @ (case cm_py_interpreter_path md of
           Some p \<Rightarrow> (if p = [] then [] else nl # ''[Python interpreter: '' @ p @ '']'') | None \<Rightarrow> [])
      @ (if cm_exit_code md \<noteq> -1
         then nl # ''[Command finished with exit code '' @ str_of_int (cm_exit_code md) @ '']'' else []))"

lemma length_notice [simp]: "length truncation_notice = 47"
  by (simp add: truncation_notice_def)

lemma truncate_middle_pos:
  "0 < h \<Longrightarrow> h \<le> length s \<Longrightarrow>
     truncate_middle h s = take h s @ truncation_notice @ drop (length s - h) s"
  by (simp add: truncate_middle_def py_take_def py_drop_def py_clamp_neg)

lemma length_truncate_middle:
  "0 < h \<Longrightarrow> 2 * h \<le> length s \<Longrightarrow> length (truncate_middle h s) = 2 * h + 47"
  by (simp add: truncate_middle_pos)

text \<open>
  A second truncation of truncated text leaves it alone, although the text is longer than the
  limit: an event that is stored and read back keeps its content.
\<close>

lemma truncate_middle_idem:
  assumes "0 < h" and "2 * h \<le> length s"
  shows "truncate_middle h (truncate_middle h s) = truncate_middle h s"
proof -
  let ?t = "truncate_middle h s"
  have t: "?t = take h s @ truncation_notice @ drop (length s - h) s"
    using assms by (simp add: truncate_middle_pos)
  have "take h ?t = take h s" using assms by (simp add: t)
  moreover have "drop (length ?t - h) ?t = drop (length s - h) s"
    using assms by (simp add: t)
  moreover have "truncate_middle h ?t = take h ?t @ truncation_notice @ drop (length ?t - h) ?t"
    using assms length_truncate_middle [OF assms] by (intro truncate_middle_pos) simp_all
  ultimately show ?thesis by (simp add: t)
qed

lemma maybe_truncate_idem:
  assumes "2 \<le> n"
  shows "maybe_truncate n (maybe_truncate n s) = maybe_truncate n s"
proof (cases "length s \<le> n")
  case True
  then show ?thesis by (simp add: maybe_truncate_def)
next
  case False
  let ?h = "n div 2"
  have h: "0 < ?h" "2 * ?h \<le> length s" using assms False by auto
  have "n < length (truncate_middle ?h s)" using length_truncate_middle [OF h] by presburger
  with False show ?thesis by (simp add: maybe_truncate_def truncate_middle_idem [OF h])
qed

lemma length_maybe_truncate:
  assumes "2 \<le> n"
  shows "length (maybe_truncate n s) \<le> n + 47"
proof (cases "length s \<le> n")
  case True
  then show ?thesis by (simp add: maybe_truncate_def)
next
  case False
  with assms have "0 < n div 2" "2 * (n div 2) \<le> length s" by auto
  from length_truncate_middle [OF this] False show ?thesis by (simp add: maybe_truncate_def)
qed

section \<open>Condensation actions\<close>

definition valid_condensation :: "condensation_action \<Rightarrow> bool" where
  \<comment> \<open>\<open>_validate_field_polymorphism\<close>\<close>
  "valid_condensation c =
     (let using_ids = ca_forgotten_event_ids c \<noteq> None;
          using_range = (ca_forgotten_events_start_id c \<noteq> None \<and> ca_forgotten_events_end_id c \<noteq> None);
          summary_ok = (ca_summary c = None \<and> ca_summary_offset c = None
                        \<or> ca_summary c \<noteq> None \<and> ca_summary_offset c \<noteq> None)
      in (using_ids \<noteq> using_range) \<and> summary_ok)"

definition mk_condensation ::
  "int list option \<Rightarrow> int option \<Rightarrow> int option \<Rightarrow> string option \<Rightarrow> int option \<Rightarrow> condensation_action res" where
  \<comment> \<open>the constructor with its \<open>__post_init__\<close>\<close>
  "mk_condensation ids lo hi summary offset =
     (let c = \<lparr>ca_forgotten_event_ids = ids, ca_forgotten_events_start_id = lo,
               ca_forgotten_events_end_id = hi, ca_summary = summary, ca_summary_offset = offset\<rparr>
      in if valid_condensation c then Inr c
         else Inl (ValueError ''Invalid configuration of the optional fields.''))"

definition forgotten :: "condensation_action \<Rightarrow> int list res" where
  "forgotten c =
     (if \<not> valid_condensation c then Inl (ValueError ''Invalid configuration of the optional fields.'')
      else case ca_forgotten_event_ids c of
             Some ids \<Rightarrow> Inr ids
           | None \<Rightarrow>
               (case (ca_forgotten_events_start_id c, ca_forgotten_events_end_id c) of
                  (Some a, Some b) \<Rightarrow> Inr [a..b]
                | _ \<Rightarrow> Inl AssertionError))"

lemma mk_condensation_valid: "mk_condensation ids a b s off = Inr c \<Longrightarrow> valid_condensation c"
  by (auto simp: mk_condensation_def Let_def split: if_splits)

lemma forgotten_valid: "valid_condensation c \<Longrightarrow> \<exists>ids. forgotten c = Inr ids"
  by (auto simp: forgotten_def valid_condensation_def Let_def split: option.splits)

lemma mk_condensation_ids: "mk_condensation (Some ids) None None None None = Inr
  \<lparr>ca_forgotten_event_ids = Some ids, ca_forgotten_events_start_id = None, ca_forgotten_events_end_id = None,
   ca_summary = None, ca_summary_offset = None\<rparr>"
  by (simp add: mk_condensation_def valid_condensation_def)

lemma mk_condensation_range: "mk_condensation None (Some a) (Some b) None None = Inr
  \<lparr>ca_forgotten_event_ids = None, ca_forgotten_events_start_id = Some a, ca_forgotten_events_end_id = Some b,
   ca_summary = None, ca_summary_offset = None\<rparr>"
  by (simp add: mk_condensation_def valid_condensation_def)

section \<open>Attributes\<close>

fun obs_content :: "observation \<Rightarrow> string" where
  "obs_content (NullObservation c) = c"
| "obs_content (CmdOutputObservation r) = co_content r"
| "obs_content (IPythonRunCellObservation r) = io_content r"
| "obs_content (BrowserOutputObservation r) = bo_content r"
| "obs_content (FileReadObservation c p s) = c"
| "obs_content (FileWriteObservation c p) = c"
| "obs_content (FileEditObservation r) = fo_content r"
| "obs_content (AgentDelegateObservation c outs) = c"
| "obs_content (SuccessObservation c) = c"
| "obs_content (ErrorObservation c i) = c"
| "obs_content (AgentStateChangedObservation c s r) = c"
| "obs_content (UserRejectObservation c) = c"
| "obs_content (AgentCondensationObservation c) = c"
| "obs_content (AgentThinkObservation c) = c"
| "obs_content (RecallObservation r) = ro_content r"
| "obs_content (MCPObservation c n a) = c"
| "obs_content (FileDownloadObservation c p) = c"
| "obs_content (TaskTrackingObservation c m ts) = c"
| "obs_content (LoopDetectionObservation c) = c"

definition hidden :: "event \<Rightarrow> bool" where
  \<comment> \<open>\<open>getattr(event, 'hidden', False)\<close>\<close>
  "hidden e = (case ev_body e of
       Act (CmdRunAction r) \<Rightarrow> cr_hidden r
     | Obs (CmdOutputObservation r) \<Rightarrow> co_hidden r
     | _ \<Rightarrow> False)"

fun runnable :: "action \<Rightarrow> bool" where
  "runnable (CmdRunAction _) = True"
| "runnable (IPythonRunCellAction _) = True"
| "runnable (BrowseURLAction _) = True"
| "runnable (BrowseInteractiveAction _) = True"
| "runnable (FileReadAction _) = True"
| "runnable (FileWriteAction _) = True"
| "runnable (FileEditAction _) = True"
| "runnable (MCPAction _) = True"
| "runnable _ = False"

text \<open>\<open>hasattr(action, 'security_risk')\<close> and its value; the outer \<open>None\<close> is a missing attribute.\<close>

fun action_risk :: "action \<Rightarrow> security_risk option option" where
  "action_risk (CmdRunAction r) = Some (cr_security_risk r)"
| "action_risk (IPythonRunCellAction r) = Some (ip_security_risk r)"
| "action_risk (BrowseURLAction r) = Some (bu_security_risk r)"
| "action_risk (BrowseInteractiveAction r) = Some (bi_security_risk r)"
| "action_risk (FileReadAction r) = Some (fr_security_risk r)"
| "action_risk (FileWriteAction r) = Some (fw_security_risk r)"
| "action_risk (FileEditAction r) = Some (fe_security_risk r)"
| "action_risk (MCPAction r) = Some (mc_security_risk r)"
| "action_risk (MessageAction r) = Some (ma_security_risk r)"
| "action_risk _ = None"

fun set_action_risk :: "security_risk \<Rightarrow> action \<Rightarrow> action" where
  \<comment> \<open>assigns where the attribute is there\<close>
  "set_action_risk k (CmdRunAction r) = CmdRunAction (r\<lparr>cr_security_risk := Some k\<rparr>)"
| "set_action_risk k (IPythonRunCellAction r) = IPythonRunCellAction (r\<lparr>ip_security_risk := Some k\<rparr>)"
| "set_action_risk k (BrowseURLAction r) = BrowseURLAction (r\<lparr>bu_security_risk := Some k\<rparr>)"
| "set_action_risk k (BrowseInteractiveAction r) = BrowseInteractiveAction (r\<lparr>bi_security_risk := Some k\<rparr>)"
| "set_action_risk k (FileReadAction r) = FileReadAction (r\<lparr>fr_security_risk := Some k\<rparr>)"
| "set_action_risk k (FileWriteAction r) = FileWriteAction (r\<lparr>fw_security_risk := Some k\<rparr>)"
| "set_action_risk k (FileEditAction r) = FileEditAction (r\<lparr>fe_security_risk := Some k\<rparr>)"
| "set_action_risk k (MCPAction r) = MCPAction (r\<lparr>mc_security_risk := Some k\<rparr>)"
| "set_action_risk k (MessageAction r) = MessageAction (r\<lparr>ma_security_risk := Some k\<rparr>)"
| "set_action_risk k a = a"

fun set_thought_empty :: "action \<Rightarrow> action" where
  \<comment> \<open>\<open>if hasattr(action, 'thought'): action.thought = ''\<close>\<close>
  "set_thought_empty (CmdRunAction r) = CmdRunAction (r\<lparr>cr_thought := []\<rparr>)"
| "set_thought_empty (IPythonRunCellAction r) = IPythonRunCellAction (r\<lparr>ip_thought := []\<rparr>)"
| "set_thought_empty (BrowseURLAction r) = BrowseURLAction (r\<lparr>bu_thought := []\<rparr>)"
| "set_thought_empty (BrowseInteractiveAction r) = BrowseInteractiveAction (r\<lparr>bi_thought := []\<rparr>)"
| "set_thought_empty (FileReadAction r) = FileReadAction (r\<lparr>fr_thought := []\<rparr>)"
| "set_thought_empty (FileWriteAction r) = FileWriteAction (r\<lparr>fw_thought := []\<rparr>)"
| "set_thought_empty (FileEditAction r) = FileEditAction (r\<lparr>fe_thought := []\<rparr>)"
| "set_thought_empty (MCPAction r) = MCPAction (r\<lparr>mc_thought := []\<rparr>)"
| "set_thought_empty (AgentThinkAction t) = AgentThinkAction []"
| "set_thought_empty (AgentFinishAction f outs t) = AgentFinishAction f outs []"
| "set_thought_empty (AgentRejectAction outs t) = AgentRejectAction outs []"
| "set_thought_empty (AgentDelegateAction a ins t) = AgentDelegateAction a ins []"
| "set_thought_empty (RecallAction k q t) = RecallAction k q []"
| "set_thought_empty (ChangeAgentStateAction s t) = ChangeAgentStateAction s []"
| "set_thought_empty (TaskTrackingAction c ts t) = TaskTrackingAction c ts []"
| "set_thought_empty a = a"

text \<open>
  \<open>action.confirmation_state\<close> is a declared field of two classes only. Assigned to an object of another
  class it becomes an extra attribute of that object, which the serialiser does not write.
\<close>

fun declared_confirmation :: "action \<Rightarrow> confirmation_status option" where
  "declared_confirmation (CmdRunAction r) = Some (cr_confirmation_state r)"
| "declared_confirmation (IPythonRunCellAction r) = Some (ip_confirmation_state r)"
| "declared_confirmation _ = None"

fun set_declared_confirmation :: "confirmation_status \<Rightarrow> action \<Rightarrow> action" where
  "set_declared_confirmation c (CmdRunAction r) = CmdRunAction (r\<lparr>cr_confirmation_state := c\<rparr>)"
| "set_declared_confirmation c (IPythonRunCellAction r) = IPythonRunCellAction (r\<lparr>ip_confirmation_state := c\<rparr>)"
| "set_declared_confirmation c a = a"

definition event_confirmation :: "event \<Rightarrow> confirmation_status option" where
  \<comment> \<open>\<open>getattr(e, 'confirmation_state', None)\<close>\<close>
  "event_confirmation e =
     (case ev_body e of
        Act a \<Rightarrow> (case declared_confirmation a of Some c \<Rightarrow> Some c | None \<Rightarrow> ev_extra_confirmation e)
      | Obs _ \<Rightarrow> ev_extra_confirmation e)"

definition set_event_confirmation :: "confirmation_status \<Rightarrow> event \<Rightarrow> event" where
  \<comment> \<open>\<open>e.confirmation_state = c\<close>\<close>
  "set_event_confirmation c e =
     (case ev_body e of
        Act a \<Rightarrow> (if declared_confirmation a \<noteq> None then e\<lparr>ev_body := Act (set_declared_confirmation c a)\<rparr>
                  else e\<lparr>ev_extra_confirmation := Some c\<rparr>)
      | Obs _ \<Rightarrow> e\<lparr>ev_extra_confirmation := Some c\<rparr>)"

lemma declared_confirmation_set:
  "declared_confirmation a \<noteq> None \<Longrightarrow> declared_confirmation (set_declared_confirmation c a) = Some c"
  by (cases a) simp_all

lemma event_confirmation_set [simp]: "event_confirmation (set_event_confirmation c e) = Some c"
  by (auto simp: event_confirmation_def set_event_confirmation_def declared_confirmation_set split: body.splits option.splits)

text \<open>\<open>set_hard_timeout\<close>: \<open>blocking\<close> is a field of \<open>CmdRunAction\<close> only.\<close>

definition set_hard_timeout :: "rat option \<Rightarrow> bool \<Rightarrow> event \<Rightarrow> event" where
  "set_hard_timeout v blocking e =
     (let e = e\<lparr>ev_timeout := v\<rparr> in
      case ev_body e of
        Act (CmdRunAction r) \<Rightarrow> e\<lparr>ev_body := Act (CmdRunAction (r\<lparr>cr_blocking := blocking\<rparr>))\<rparr>
      | _ \<Rightarrow> e)"

lemma runnable_has_risk: "runnable a \<Longrightarrow> action_risk a \<noteq> None"
  by (cases a) simp_all

lemma set_action_risk_get: "action_risk (set_action_risk k a) = (if action_risk a = None then None else Some (Some k))"
  by (cases a) simp_all

end
