(* ===== verification/View.thy ===== *)
theory View
  imports EventOps
begin

text \<open>
  The view of a history an agent works with (\<open>openhands/memory/view.py\<close>): condensation actions forget
  events and may insert a summary.
\<close>

record view =
  vw_events :: "event list"
  vw_unhandled_condensation_request :: bool

definition empty_view :: view where
  "empty_view = \<lparr>vw_events = [], vw_unhandled_condensation_request = False\<rparr>"

definition view_len :: "view \<Rightarrow> int" where "view_len v = int (length (vw_events v))"

text \<open>The ids the first loop puts into the set, event by event.\<close>

definition forgets :: "event \<Rightarrow> int list res" where
  "forgets e =
     (case ev_body e of
        Act (CondensationAction c) \<Rightarrow> bind_res (forgotten c) (\<lambda>ids. Inr (ids @ [event_id e]))
      | Act CondensationRequestAction \<Rightarrow> Inr [event_id e]
      | _ \<Rightarrow> Inr [])"

definition forgotten_event_ids :: "event list \<Rightarrow> int list res" where
  "forgotten_event_ids es = bind_res (map_res forgets es) (\<lambda>idss. Inr (concat idss))"

definition summary_of :: "event \<Rightarrow> (string \<times> int) option" where
  "summary_of e =
     (case ev_body e of
        Act (CondensationAction c) \<Rightarrow>
          (case (ca_summary c, ca_summary_offset c) of (Some s, Some off) \<Rightarrow> Some (s, off) | _ \<Rightarrow> None)
      | _ \<Rightarrow> None)"

definition last_summary :: "event list \<Rightarrow> (string \<times> int) option" where
  "last_summary es = (case find_last (\<lambda>e. summary_of e \<noteq> None) es of None \<Rightarrow> None | Some e \<Rightarrow> summary_of e)"

definition unhandled_request :: "event list \<Rightarrow> bool" where
  "unhandled_request es =
     (case find_last (\<lambda>e. is_condensation_action (ev_body e) \<or> is_condensation_request (ev_body e)) es of
        None \<Rightarrow> False
      | Some e \<Rightarrow> is_condensation_request (ev_body e))"

definition from_events :: "event list \<Rightarrow> view res" where
  "from_events es =
     bind_res (forgotten_event_ids es) (\<lambda>ids.
       let kept = filter (\<lambda>e. event_id e \<notin> set ids) es;
           kept = (case last_summary es of
                     None \<Rightarrow> kept
                   | Some (s, off) \<Rightarrow> py_insert off (new_obs (AgentCondensationObservation s)) kept)
       in Inr \<lparr>vw_events = kept, vw_unhandled_condensation_request = unhandled_request es\<rparr>)"

section \<open>Totality and extension\<close>

text \<open>Every condensation action a constructor has built is valid, so the view exists.\<close>

definition condensations_ok :: "event list \<Rightarrow> bool" where
  "condensations_ok es \<longleftrightarrow> (\<forall>e \<in> set es. case ev_body e of Act (CondensationAction c) \<Rightarrow> valid_condensation c | _ \<Rightarrow> True)"

lemma map_res_total: "(\<And>x. x \<in> set xs \<Longrightarrow> \<exists>y. f x = Inr y) \<Longrightarrow> \<exists>ys. map_res f xs = Inr ys"
  by (induction xs) (auto, fastforce)

lemma map_res_append: "map_res f (xs @ ys) = bind_res (map_res f xs) (\<lambda>a. bind_res (map_res f ys) (\<lambda>b. Inr (a @ b)))"
proof (induction xs)
  case Nil
  then show ?case by (cases "map_res f ys") simp_all
next
  case (Cons x xs)
  then show ?case
    by (cases "f x"; cases "map_res f xs"; cases "map_res f ys") simp_all
qed

lemma forgets_total:
  "(case ev_body e of Act (CondensationAction c) \<Rightarrow> valid_condensation c | _ \<Rightarrow> True) \<Longrightarrow> \<exists>ids. forgets e = Inr ids"
  using forgotten_valid by (auto simp: forgets_def split: body.splits action.splits) fastforce

lemma from_events_total: "condensations_ok es \<Longrightarrow> \<exists>v. from_events es = Inr v"
proof -
  assume "condensations_ok es"
  then obtain idss where "map_res forgets es = Inr idss"
    using map_res_total [of es forgets] forgets_total unfolding condensations_ok_def by meson
  then show ?thesis by (simp add: from_events_def forgotten_event_ids_def Let_def)
qed

lemma forgotten_event_ids_snoc:
  "forgotten_event_ids es = Inr ids \<Longrightarrow> forgets e = Inr ids2 \<Longrightarrow> forgotten_event_ids (es @ [e]) = Inr (ids @ ids2)"
  by (auto simp: forgotten_event_ids_def map_res_append bind_res_Inr)

lemma last_summary_snoc:
  "last_summary (es @ [e]) = (if summary_of e \<noteq> None then summary_of e else last_summary es)"
  by (simp add: last_summary_def find_last_append) (simp add: find_last_def)

lemma unhandled_request_snoc:
  "unhandled_request (es @ [e]) =
     (if is_condensation_action (ev_body e) then False
      else if is_condensation_request (ev_body e) then True else unhandled_request es)"
proof -
  have "\<not> (is_condensation_action b \<and> is_condensation_request b)" for b
    by (cases b) (auto simp: isinst split: action.splits)
  then show ?thesis
    by (auto simp: unhandled_request_def find_last_append) (auto simp: find_last_def)
qed

text \<open>
  Appending a condensation without a summary to a history without summaries drops exactly the
  ids it names from the view and answers a pending request.
\<close>

lemma from_events_condensation:
  assumes "from_events es = Inr v" and "last_summary es = None"
    and "forgotten c = Inr ids" and "ca_summary c = None"
    and "ev_body e = Act (CondensationAction c)" and "\<forall>x \<in> set (vw_events v). event_id x \<noteq> event_id e"
  shows "from_events (es @ [e]) = Inr \<lparr>vw_events = filter (\<lambda>x. event_id x \<notin> set ids) (vw_events v),
     vw_unhandled_condensation_request = False\<rparr>"
proof -
  obtain fids where f: "forgotten_event_ids es = Inr fids"
    using assms(1) by (auto simp: from_events_def bind_res_Inr)
  with assms(1,2) have v: "vw_events v = filter (\<lambda>e. event_id e \<notin> set fids) es"
    by (auto simp: from_events_def Let_def)
  have ids2: "forgets e = Inr (ids @ [event_id e])" using assms(3,5) by (simp add: forgets_def)
  have sum: "last_summary (es @ [e]) = None" using assms(2,4,5) by (simp add: last_summary_snoc summary_of_def)
  have un: "\<not> unhandled_request (es @ [e])" using assms(5) by (simp add: unhandled_request_snoc isinst)
  have "filter (\<lambda>x. event_id x \<notin> set (fids @ ids @ [event_id e])) (es @ [e])
      = filter (\<lambda>x. event_id x \<notin> set ids) (filter (\<lambda>x. event_id x \<notin> set fids) es)"
    using assms(6) unfolding v by (auto intro!: filter_cong)
  with forgotten_event_ids_snoc [OF f ids2] sum un show ?thesis
    by (simp add: from_events_def Let_def v)
qed

text \<open>With a summary, the summary is inserted at its offset into what remains.\<close>

definition remaining :: "event list \<Rightarrow> event list res" where
  "remaining es = bind_res (forgotten_event_ids es) (\<lambda>ids. Inr (filter (\<lambda>e. event_id e \<notin> set ids) es))"

lemma from_events_remaining:
  "from_events es = bind_res (remaining es) (\<lambda>kept. Inr
     \<lparr>vw_events = (case last_summary es of None \<Rightarrow> kept
         | Some (s, off) \<Rightarrow> py_insert off (new_obs (AgentCondensationObservation s)) kept),
      vw_unhandled_condensation_request = unhandled_request es\<rparr>)"
  by (cases "forgotten_event_ids es") (simp_all add: from_events_def remaining_def Let_def)

lemma from_events_summary:
  assumes "remaining es = Inr kept"
    and "forgotten c = Inr ids" and "ca_summary c = Some s" and "ca_summary_offset c = Some off"
    and "ev_body e = Act (CondensationAction c)" and "\<forall>x \<in> set kept. event_id x \<noteq> event_id e"
  shows "from_events (es @ [e]) = Inr \<lparr>vw_events =
       py_insert off (new_obs (AgentCondensationObservation s)) (filter (\<lambda>x. event_id x \<notin> set ids) kept),
     vw_unhandled_condensation_request = False\<rparr>"
proof -
  obtain fids where f: "forgotten_event_ids es = Inr fids" and v: "kept = filter (\<lambda>e. event_id e \<notin> set fids) es"
    using assms(1) by (auto simp: remaining_def bind_res_Inr)
  have ids2: "forgets e = Inr (ids @ [event_id e])" using assms(2,5) by (simp add: forgets_def)
  have sum: "last_summary (es @ [e]) = Some (s, off)" using assms(3-5) by (simp add: last_summary_snoc summary_of_def)
  have un: "\<not> unhandled_request (es @ [e])" using assms(5) by (simp add: unhandled_request_snoc isinst)
  have "filter (\<lambda>x. event_id x \<notin> set (fids @ ids @ [event_id e])) (es @ [e])
      = filter (\<lambda>x. event_id x \<notin> set ids) (filter (\<lambda>x. event_id x \<notin> set fids) es)"
    using assms(6) unfolding v by (auto intro!: filter_cong)
  with forgotten_event_ids_snoc [OF f ids2] sum un show ?thesis
    by (simp add: from_events_def Let_def v)
qed

end
