(* ===== verification/Condensers.thy ===== *)
theory Condensers
  imports View
begin

text \<open>
  The condensers (\<open>openhands/memory/condenser\<close>): strategies that shrink the view an agent sends to its
  model, either directly or by a condensation action that goes into the history and shapes all later views.

  The answer of a language model is a parameter: the summary it writes for the previous summary and the
  forgotten events, and the ranking of the ids of a view. The metadata batches and the registry of
  configurations are not modelled.
\<close>

text \<open>\<open>View | Condensation\<close>\<close>

datatype condensed = Viewed view | Condensed condensation_action

definition ids_of :: "event list \<Rightarrow> int list" where "ids_of es = map event_id es"

definition py_min :: "int list \<Rightarrow> int res" where
  "py_min xs = (if xs = [] then Inl (ValueError ''min() arg is an empty sequence'') else Inr (Min (set xs)))"

definition py_max :: "int list \<Rightarrow> int res" where
  "py_max xs = (if xs = [] then Inl (ValueError ''max() arg is an empty sequence'') else Inr (Max (set xs)))"

section \<open>Condensers that rewrite the view\<close>

definition no_op_condense :: "view \<Rightarrow> condensed res" where
  "no_op_condense v = Inr (Viewed v)"

text \<open>With \<open>tail_length = 0\<close> the slice \<open>view[-0:]\<close> is the whole view.\<close>

definition recent_events_condense :: "int \<Rightarrow> int \<Rightarrow> view \<Rightarrow> condensed res" where
  "recent_events_condense keep_first max_events v =
     (let head = py_take keep_first (vw_events v);
          tail_length = max 0 (max_events - int (length head));
          tail = py_drop (- tail_length) (vw_events v)
      in Inr (Viewed \<lparr>vw_events = head @ tail, vw_unhandled_condensation_request = False\<rparr>))"

definition masked :: event where
  "masked = new_obs (AgentCondensationObservation ''<MASKED>'')"

definition observation_masking_condense :: "int \<Rightarrow> view \<Rightarrow> condensed res" where
  "observation_masking_condense attention_window v =
     Inr (Viewed \<lparr>vw_events =
         map (\<lambda>(i, e). if is_observation (ev_body e) \<and> int i < view_len v - attention_window then masked else e)
             (enumerate 0 (vw_events v)),
       vw_unhandled_condensation_request = False\<rparr>)"

definition browser_url :: "event \<Rightarrow> string" where
  "browser_url e = (case ev_body e of Obs (BrowserOutputObservation r) \<Rightarrow> bo_url r | _ \<Rightarrow> [])"

definition visited :: "string \<Rightarrow> event" where
  "visited url = new_obs (AgentCondensationObservation (''Visited URL '' @ url @ [nl] @ ''Content omitted''))"

fun browser_loop :: "int \<Rightarrow> int \<Rightarrow> event list \<Rightarrow> event list" where
  \<comment> \<open>over the reversed view, with the count of browser outputs kept so far\<close>
  "browser_loop window cnt [] = []"
| "browser_loop window cnt (e # es) =
     (if is_browser_obs (ev_body e) \<and> window \<le> cnt then visited (browser_url e) # browser_loop window cnt es
      else e # browser_loop window (if is_browser_obs (ev_body e) then cnt + 1 else cnt) es)"

definition browser_output_condense :: "int \<Rightarrow> view \<Rightarrow> condensed res" where
  "browser_output_condense attention_window v =
     Inr (Viewed \<lparr>vw_events = rev (browser_loop attention_window 0 (rev (vw_events v))),
       vw_unhandled_condensation_request = False\<rparr>)"

section \<open>Rolling condensers\<close>

text \<open>The base class condenses where the strategy's test says so and else passes the view on.\<close>

definition rolling_condense :: "(view \<Rightarrow> bool) \<Rightarrow> (view \<Rightarrow> condensation_action res) \<Rightarrow> view \<Rightarrow> condensed res" where
  "rolling_condense should_condense get_condensation v =
     (if should_condense v then bind_res (get_condensation v) (\<lambda>c. Inr (Condensed c)) else Inr (Viewed v))"

definition over_size :: "int \<Rightarrow> view \<Rightarrow> bool" where
  "over_size max_size v = (max_size < view_len v \<or> vw_unhandled_condensation_request v)"

text \<open>The checks the constructors of the sized condensers share.\<close>

definition check_sizes :: "int \<Rightarrow> int \<Rightarrow> unit res" where
  "check_sizes max_size keep_first =
     (if max_size div 2 \<le> keep_first then Inl (ValueError (''keep_first ('' @ str_of_int keep_first @ '') must be less than half of max_size ('' @ str_of_int max_size @ '')''))
      else if keep_first < 0 then Inl (ValueError (''keep_first ('' @ str_of_int keep_first @ '') cannot be negative''))
      else if max_size < 1 then Inl (ValueError (''max_size ('' @ str_of_int max_size @ '') cannot be non-positive''))
      else Inr ())"

subsection \<open>Forgetting half\<close>

definition amortized_get_condensation :: "int \<Rightarrow> int \<Rightarrow> view \<Rightarrow> condensation_action res" where
  "amortized_get_condensation max_size keep_first v =
     (let target_size = max_size div 2;
          head = py_take keep_first (vw_events v);
          events_from_tail = target_size - int (length head);
          tail = py_drop (- events_from_tail) (vw_events v);
          event_ids_to_keep = ids_of (head @ tail);
          event_ids_to_forget = filter (\<lambda>i. i \<notin> set event_ids_to_keep) (ids_of (vw_events v))
      in bind_res (py_min event_ids_to_forget) (\<lambda>a. bind_res (py_max event_ids_to_forget) (\<lambda>b.
           mk_condensation None (Some a) (Some b) None None)))"

definition amortized_condense :: "int \<Rightarrow> int \<Rightarrow> view \<Rightarrow> condensed res" where
  "amortized_condense max_size keep_first =
     rolling_condense (over_size max_size) (amortized_get_condensation max_size keep_first)"

subsection \<open>The conversation window\<close>

definition is_recall_of :: "string \<Rightarrow> event \<Rightarrow> bool" where
  "is_recall_of query e = (case ev_body e of Act (RecallAction k q t) \<Rightarrow> q = query | _ \<Rightarrow> False)"

definition message_content :: "event \<Rightarrow> string" where
  "message_content e = (case ev_body e of Act (MessageAction r) \<Rightarrow> ma_content r | _ \<Rightarrow> [])"

text \<open>The first recall action for the message after it, and the first observation that action caused.\<close>

definition recall_pair :: "event list \<Rightarrow> event \<Rightarrow> event list" where
  "recall_pair later first_user_msg =
     (case find_index (is_recall_of (message_content first_user_msg)) later of
        None \<Rightarrow> []
      | Some i \<Rightarrow>
          let recall_action = later ! i in
          recall_action #
            (case find (\<lambda>e. is_observation (ev_body e) \<and> ev_cause e = Some (event_id recall_action)) (drop (Suc i) later) of
               None \<Rightarrow> [] | Some ob \<Rightarrow> [ob]))"

definition essential_events :: "event list \<Rightarrow> nat \<Rightarrow> event list" where
  \<comment> \<open>the number is the index of the first user message\<close>
  "essential_events events i =
     (case find (is_system_message \<circ> ev_body) events of None \<Rightarrow> [] | Some e \<Rightarrow> [e])
     @ [events ! i] @ recall_pair (drop (Suc i) events) (events ! i)"

definition window_start :: "event list \<Rightarrow> nat \<Rightarrow> nat" where
  \<comment> \<open>\<open>first_valid_event_index\<close>: where the recent half begins, after any dangling observations\<close>
  "window_start events num_essential_events =
     (let total_events = int (length events);
          num_non_essential_events = total_events - int num_essential_events;
          num_recent_to_keep = max 1 (num_non_essential_events div 2);
          slice_start_index = nat (max 0 (total_events - num_recent_to_keep));
          recent_events_slice = drop slice_start_index events
      in slice_start_index + length (takeWhile (is_observation \<circ> ev_body) recent_events_slice))"

definition contiguous :: "int list \<Rightarrow> bool" where
  "contiguous ids = (1 < length ids \<and> last ids - hd ids = int (length ids) - 1)"

definition window_get_condensation :: "view \<Rightarrow> condensation_action res" where
  "window_get_condensation v =
     (let events = vw_events v; nothing = mk_condensation (Some []) None None None None in
      if events = [] then nothing
      else case find_index is_user_message events of
        None \<Rightarrow> nothing
      | Some i \<Rightarrow>
          let essential = essential_events events i;
              events_to_keep = ids_of essential @ ids_of (drop (window_start events (length essential)) events);
              forgotten_event_ids = sort (remdups (filter (\<lambda>k. k \<notin> set events_to_keep) (ids_of events)))
          in if forgotten_event_ids = [] then nothing
             else if contiguous forgotten_event_ids
               then mk_condensation None (Some (hd forgotten_event_ids)) (Some (last forgotten_event_ids)) None None
               else mk_condensation (Some forgotten_event_ids) None None None None)"

definition window_condense :: "view \<Rightarrow> condensed res" where
  "window_condense = rolling_condense vw_unhandled_condensation_request window_get_condensation"

subsection \<open>Summaries by a model\<close>

text \<open>The previous summary event, the events to forget: the slice without summaries.\<close>

definition summarizing_parts :: "int \<Rightarrow> int \<Rightarrow> view \<Rightarrow> (event \<times> event list) res" where
  "summarizing_parts max_size keep_first v =
     (let head = py_take keep_first (vw_events v);
          target_size = max_size div 2;
          events_from_tail = target_size - int (length head) - 1
      in bind_res (py_get (vw_events v) keep_first) (\<lambda>e.
           let summary_event = (if is_condensation_obs (ev_body e) then e
                                else new_obs (AgentCondensationObservation ''No events summarized''));
               forgotten_events = filter (\<lambda>e. \<not> is_condensation_obs (ev_body e))
                                    (py_slice keep_first (- events_from_tail) (vw_events v))
           in Inr (summary_event, forgotten_events)))"

text \<open>\<open>summarize\<close> is the model's answer to the prompt made of the previous summary and the forgotten events.\<close>

definition summarizing_get_condensation ::
  "(event \<Rightarrow> event list \<Rightarrow> string) \<Rightarrow> int \<Rightarrow> int \<Rightarrow> view \<Rightarrow> condensation_action res" where
  "summarizing_get_condensation summarize max_size keep_first v =
     bind_res (summarizing_parts max_size keep_first v) (\<lambda>(summary_event, forgotten_events).
       let summary = summarize summary_event forgotten_events in
       bind_res (py_min (ids_of forgotten_events)) (\<lambda>a. bind_res (py_max (ids_of forgotten_events)) (\<lambda>b.
         mk_condensation None (Some a) (Some b) (Some summary) (Some keep_first))))"

definition summarizing_condense :: "(event \<Rightarrow> event list \<Rightarrow> string) \<Rightarrow> int \<Rightarrow> int \<Rightarrow> view \<Rightarrow> condensed res" where
  "summarizing_condense summarize max_size keep_first =
     rolling_condense (over_size max_size) (summarizing_get_condensation summarize max_size keep_first)"

subsection \<open>Selection by a model\<close>

text \<open>The backwards loop that fills the answer up: ids already there are skipped.\<close>

fun fill_ids :: "int \<Rightarrow> int list \<Rightarrow> int list \<Rightarrow> int list" where
  "fill_ids n response [] = response"
| "fill_ids n response (i # ids) =
     (if n \<le> int (length response) then response
      else fill_ids n (if i \<in> set response then response else response @ [i]) ids)"

definition attention_get_condensation :: "(event list \<Rightarrow> int list) \<Rightarrow> int \<Rightarrow> int \<Rightarrow> view \<Rightarrow> condensation_action res" where
  "attention_get_condensation rank max_size keep_first v =
     (let target_size = max_size div 2;
          head_event_ids = ids_of (py_take keep_first (vw_events v));
          events_from_tail = target_size - int (length head_event_ids);
          response_ids = py_take events_from_tail (filter (\<lambda>i. i \<notin> set head_event_ids) (rank (vw_events v)));
          response_ids = fill_ids events_from_tail response_ids (rev (ids_of (vw_events v)))
      in mk_condensation
           (Some (filter (\<lambda>i. i \<notin> set response_ids \<and> i \<notin> set head_event_ids) (ids_of (vw_events v)))) None None None None)"

definition attention_condense :: "(event list \<Rightarrow> int list) \<Rightarrow> int \<Rightarrow> int \<Rightarrow> view \<Rightarrow> condensed res" where
  "attention_condense rank max_size keep_first =
     rolling_condense (over_size max_size) (attention_get_condensation rank max_size keep_first)"

section \<open>Pipelines\<close>

fun pipeline_condense :: "(view \<Rightarrow> condensed res) list \<Rightarrow> view \<Rightarrow> condensed res" where
  "pipeline_condense [] v = Inr (Viewed v)"
| "pipeline_condense (c # cs) v =
     bind_res (c v) (\<lambda>r. case r of Viewed v \<Rightarrow> pipeline_condense cs v | Condensed a \<Rightarrow> Inr (Condensed a))"

section \<open>The interface of a condenser\<close>

text \<open>
  What an agent relies on, whatever the strategy: a condenser that returns a view has put nothing into
  it but events of the view it was given and placeholders, and a condensation is valid, so the views
  of all later histories exist.
\<close>

definition from_view :: "view \<Rightarrow> view \<Rightarrow> bool" where
  "from_view v v' \<longleftrightarrow> (\<forall>e \<in> set (vw_events v'). e \<in> set (vw_events v) \<or> is_condensation_obs (ev_body e))"

lemma from_view_refl: "from_view v v"
  by (simp add: from_view_def)

lemma from_view_trans: "from_view v v' \<Longrightarrow> from_view v' v'' \<Longrightarrow> from_view v v''"
  by (auto simp: from_view_def)

locale condenser =
  fixes condense :: "view \<Rightarrow> condensed res"
  assumes view_sound: "condense v = Inr (Viewed v') \<Longrightarrow> from_view v v'"
    and action_valid: "condense v = Inr (Condensed c) \<Longrightarrow> valid_condensation c"
begin

lemma condensed_forgets: "condense v = Inr (Condensed c) \<Longrightarrow> \<exists>ids. forgotten c = Inr ids"
  using action_valid forgotten_valid by blast

text \<open>A history that has grown by the condensation still has a view.\<close>

lemma condensed_view_exists:
  assumes "from_events es = Inr v" and "condense v = Inr (Condensed c)" and "ev_body e = Act (CondensationAction c)"
  shows "\<exists>v'. from_events (es @ [e]) = Inr v' \<and> \<not> vw_unhandled_condensation_request v'"
proof -
  obtain fids where f: "forgotten_event_ids es = Inr fids"
    using assms(1) by (auto simp: from_events_def bind_res_Inr)
  obtain ids where "forgotten c = Inr ids" using condensed_forgets [OF assms(2)] by blast
  then have "forgets e = Inr (ids @ [event_id e])" using assms(3) by (simp add: forgets_def)
  from forgotten_event_ids_snoc [OF f this] assms(3) show ?thesis
    by (simp add: from_events_def Let_def unhandled_request_snoc isinst)
qed

lemma no_invented_events:
  "condense v = Inr (Viewed v') \<Longrightarrow> e \<in> set (vw_events v') \<Longrightarrow> is_action (ev_body e) \<Longrightarrow> e \<in> set (vw_events v)"
  using view_sound is_class_kind(6) by (fastforce simp: from_view_def)

end

text \<open>A rolling condenser needs only that its condensations are valid.\<close>

locale rolling_condenser =
  fixes should_condense :: "view \<Rightarrow> bool" and get_condensation :: "view \<Rightarrow> condensation_action res"
  assumes get_valid: "get_condensation v = Inr c \<Longrightarrow> valid_condensation c"

sublocale rolling_condenser \<subseteq> condenser "rolling_condense should_condense get_condensation"
  by unfold_locales (auto simp: rolling_condense_def bind_res_Inr from_view_refl get_valid split: if_splits)

lemma mk_condensation_bind:
  "bind_res r (\<lambda>a. bind_res (s a) (\<lambda>b. mk_condensation (i a b) (lo a b) (hi a b) (sm a b) (off a b))) = Inr c
    \<Longrightarrow> valid_condensation c"
  by (auto simp: bind_res_Inr dest: mk_condensation_valid)

interpretation no_op: condenser no_op_condense
  by unfold_locales (auto simp: no_op_condense_def from_view_refl)

interpretation recent_events: condenser "recent_events_condense keep_first max_events" for keep_first max_events
  by unfold_locales
    (auto simp: recent_events_condense_def Let_def from_view_def dest: set_py_take [THEN subsetD] set_py_drop [THEN subsetD])

interpretation masking: condenser "observation_masking_condense window" for window
  by unfold_locales
    (auto simp: observation_masking_condense_def from_view_def masked_def new_obs_def isinst
      dest: set_zip_rightD simp: in_set_enumerate_eq)

lemma browser_loop_sound:
  "e \<in> set (browser_loop w n es) \<Longrightarrow> e \<in> set es \<or> is_condensation_obs (ev_body e)"
  by (induction w n es rule: browser_loop.induct) (auto simp: visited_def new_obs_def isinst split: if_splits)

interpretation browser: condenser "browser_output_condense window" for window
  by unfold_locales (auto simp: browser_output_condense_def from_view_def dest: browser_loop_sound)

interpretation amortized: rolling_condenser "over_size max_size" "amortized_get_condensation max_size keep_first"
  for max_size keep_first
  by unfold_locales (simp add: amortized_get_condensation_def Let_def mk_condensation_bind)

interpretation window: rolling_condenser vw_unhandled_condensation_request window_get_condensation
  by unfold_locales
    (auto simp: window_get_condensation_def Let_def split: if_splits option.splits dest: mk_condensation_valid)

interpretation summarizing: rolling_condenser "over_size max_size" "summarizing_get_condensation summarize max_size keep_first"
  for summarize max_size keep_first
  by unfold_locales
    (auto simp: summarizing_get_condensation_def Let_def bind_res_Inr split: prod.splits dest: mk_condensation_valid)

interpretation attention: rolling_condenser "over_size max_size" "attention_get_condensation rank max_size keep_first"
  for rank max_size keep_first
  by unfold_locales (auto simp: attention_get_condensation_def Let_def dest: mk_condensation_valid)

text \<open>A pipeline of condensers is a condenser.\<close>

lemma pipeline_view_sound:
  "\<forall>c \<in> set cs. condenser c \<Longrightarrow> pipeline_condense cs v = Inr (Viewed v') \<Longrightarrow> from_view v v'"
proof (induction cs v rule: pipeline_condense.induct)
  case (2 c cs v)
  from 2(3) obtain r where r: "c v = Inr r" "(case r of Viewed v \<Rightarrow> pipeline_condense cs v | Condensed a \<Rightarrow> Inr (Condensed a)) = Inr (Viewed v')"
    by (auto simp: bind_res_Inr)
  show ?case
  proof (cases r)
    case (Viewed v1)
    with 2 r condenser.view_sound [of c v v1] show ?thesis by (auto intro: from_view_trans)
  next
    case (Condensed b)
    with r show ?thesis by simp
  qed
qed (simp add: from_view_refl)

lemma pipeline_action_valid:
  "\<forall>c \<in> set cs. condenser c \<Longrightarrow> pipeline_condense cs v = Inr (Condensed a) \<Longrightarrow> valid_condensation a"
proof (induction cs v rule: pipeline_condense.induct)
  case (2 c cs v)
  from 2(3) obtain r where r: "c v = Inr r" "(case r of Viewed v \<Rightarrow> pipeline_condense cs v | Condensed a \<Rightarrow> Inr (Condensed a)) = Inr (Condensed a)"
    by (auto simp: bind_res_Inr)
  show ?case
  proof (cases r)
    case (Viewed v1)
    with 2 r show ?thesis by auto
  next
    case (Condensed b)
    with r 2(2) condenser.action_valid [of c v b] show ?thesis by auto
  qed
qed simp

lemma pipeline_condenser: "\<forall>c \<in> set cs. condenser c \<Longrightarrow> condenser (pipeline_condense cs)"
  by unfold_locales (blast dest: pipeline_view_sound pipeline_action_valid)+

interpretation standard_pipeline: condenser "pipeline_condense [browser_output_condense w, amortized_condense n k]" for w n k
  by (rule pipeline_condenser) (auto simp: amortized_condense_def intro: browser.condenser_axioms amortized.condenser_axioms)

end
