(* ===== verification/CondenserLaws.thy ===== *)
theory CondenserLaws
  imports Condensers
begin

text \<open>
  What each condenser of \<open>openhands/memory/condenser/impl\<close> does to the views that follow its condensation:
  the events that stay, the size of the view, and the inputs on which the strategies fail.
\<close>

section \<open>Forgetting a range of ids\<close>

text \<open>
  The ids of a view rise strictly, because a stream numbers its events and a view keeps their
  order. The range between the least and the greatest id of a middle part then names that part alone.
\<close>

definition ids_rise :: "event list \<Rightarrow> bool" where
  "ids_rise es \<longleftrightarrow> sorted_wrt (<) (ids_of es)"

lemma ids_of_append [simp]: "ids_of (xs @ ys) = ids_of xs @ ids_of ys"
  by (simp add: ids_of_def)

lemma set_ids_of: "set (ids_of es) = event_id ` set es"
  by (simp add: ids_of_def)

lemma length_ids_of [simp]: "length (ids_of es) = length es"
  by (simp add: ids_of_def)

lemma ids_rise_append:
  "ids_rise (xs @ ys) \<longleftrightarrow> ids_rise xs \<and> ids_rise ys \<and> (\<forall>x \<in> set xs. \<forall>y \<in> set ys. event_id x < event_id y)"
  by (auto simp: ids_rise_def sorted_wrt_append set_ids_of)

lemma ids_rise_inj: "ids_rise es \<Longrightarrow> x \<in> set es \<Longrightarrow> y \<in> set es \<Longrightarrow> event_id x = event_id y \<Longrightarrow> x = y"
proof (induction es)
  case (Cons e es)
  then have "\<forall>y \<in> set es. event_id e < event_id y" "ids_rise es"
    using ids_rise_append [of "[e]" es] by simp_all
  with Cons show ?case by auto
qed simp

lemma ids_rise_distinct: "ids_rise es \<Longrightarrow> distinct (ids_of es)"
  by (simp add: ids_rise_def strict_sorted_iff)

lemma forget_middle:
  assumes "ids_rise (a @ b @ c)" and "b \<noteq> []"
  shows "filter (\<lambda>x. event_id x \<notin> set [Min (set (ids_of b))..Max (set (ids_of b))]) (a @ b @ c) = a @ c"
proof -
  let ?lo = "Min (set (ids_of b))" and ?hi = "Max (set (ids_of b))"
  have ne: "finite (set (ids_of b))" "set (ids_of b) \<noteq> {}" using assms(2) by (auto simp: ids_of_def)
  obtain l where l: "l \<in> set b" "?lo = event_id l" using Min_in [OF ne] by (auto simp: set_ids_of)
  obtain h where h: "h \<in> set b" "?hi = event_id h" using Max_in [OF ne] by (auto simp: set_ids_of)
  have "event_id x < ?lo" if "x \<in> set a" for x
    using assms(1) l that by (auto simp: ids_rise_append)
  moreover have "?hi < event_id x" if "x \<in> set c" for x
    using assms(1) h that by (auto simp: ids_rise_append)
  moreover have "\<not> event_id x < ?lo" "\<not> ?hi < event_id x" if "x \<in> set b" for x
    using Min_le [OF ne(1)] Max_ge [OF ne(1)] that by (simp_all add: set_ids_of not_less)
  ultimately show ?thesis by (auto simp: filter_empty_conv filter_id_conv not_le)
qed

lemma forget_rest:
  assumes "ids_rise (a @ b @ c)"
  shows "filter (\<lambda>i. i \<notin> set (ids_of (a @ c))) (ids_of (a @ b @ c)) = ids_of b"
proof -
  have "i \<notin> set (ids_of (a @ c))" if "i \<in> set (ids_of b)" for i
    using ids_rise_distinct [OF assms] that by auto
  then have b: "filter (\<lambda>i. i \<notin> set (ids_of (a @ c))) (ids_of b) = ids_of b" by (simp add: filter_id_conv)
  have "filter (\<lambda>i. i \<notin> set (ids_of (a @ c))) (ids_of d) = []" if "d = a \<or> d = c" for d
    using that by (auto simp: filter_empty_conv)
  with b show ?thesis by simp
qed

lemma split_view:
  assumes "0 \<le> k" and "0 < t" and "k + t \<le> int (length xs)"
  obtains a b c where "xs = a @ b @ c" and "py_take k xs = a" and "py_drop (- t) xs = c"
    and "int (length a) = k" and "int (length c) = t" and "py_slice k (- t) xs = b"
proof -
  let ?n = "length xs"
  have k: "py_clamp k ?n = nat k" and t: "py_clamp (- t) ?n = ?n - nat t"
    using assms by (auto simp: py_clamp_def nat_diff_distrib)
  have "xs = take (nat k) xs @ drop (nat k) (take (?n - nat t) xs) @ drop (?n - nat t) xs"
  proof -
    have "nat k \<le> ?n - nat t" using assms by linarith
    then have "take (nat k) xs = take (nat k) (take (?n - nat t) xs)" by (simp add: min_def)
    then show ?thesis by (metis append.assoc append_take_drop_id)
  qed
  then show ?thesis
    using that [of "take (nat k) xs" "drop (nat k) (take (?n - nat t) xs)" "drop (?n - nat t) xs"] assms k t
    by (auto simp: py_take_def py_drop_def py_slice_def)
qed

section \<open>What the strategies promise\<close>

text \<open>
  Forgetting half: once a view has more than \<open>max_size\<close> events, the condensation puts the view
  of every history that continues with it at exactly the first \<open>keep_first\<close> and the last events of the
  old view, \<open>max_size // 2\<close> in all.
\<close>

theorem amortized_halves_view:
  assumes "check_sizes max_size keep_first = Inr ()"
    and "from_events es = Inr v" and "last_summary es = None" and "ids_rise (vw_events v)"
    and "max_size < view_len v"
  shows "\<exists>c. amortized_condense max_size keep_first v = Inr (Condensed c) \<and>
    (\<forall>e. ev_body e = Act (CondensationAction c) \<and> event_id e \<notin> set (ids_of (vw_events v)) \<longrightarrow>
       (\<exists>v'. from_events (es @ [e]) = Inr v' \<and> view_len v' = max_size div 2 \<and>
          vw_events v' = py_take keep_first (vw_events v) @ py_drop (keep_first - max_size div 2) (vw_events v)))"
proof -
  let ?xs = "vw_events v" and ?t = "max_size div 2 - keep_first"
  have kf: "0 \<le> keep_first" "0 < ?t" "keep_first + ?t \<le> int (length ?xs)"
    and big: "max_size div 2 < int (length ?xs)"
    using assms(1,5) by (auto simp: check_sizes_def view_len_def split: if_splits)
  obtain a b c where split: "?xs = a @ b @ c" "py_take keep_first ?xs = a" "py_drop (- ?t) ?xs = c"
      "int (length a) = keep_first" "int (length c) = ?t"
    using split_view [OF kf] by metis
  then have b: "b \<noteq> []" "ids_of b \<noteq> []" using big by (auto simp: ids_of_def)
  have rise: "ids_rise (a @ b @ c)" using assms(4) split(1) by simp
  let ?c = "\<lparr>ca_forgotten_event_ids = None, ca_forgotten_events_start_id = Some (Min (set (ids_of b))),
     ca_forgotten_events_end_id = Some (Max (set (ids_of b))), ca_summary = None, ca_summary_offset = None\<rparr>"
  have "amortized_get_condensation max_size keep_first v = Inr ?c"
    using split b forget_rest [OF rise]
    by (simp add: amortized_get_condensation_def Let_def py_min_def py_max_def mk_condensation_range)
  then have cond: "amortized_condense max_size keep_first v = Inr (Condensed ?c)"
    using assms(5) by (simp add: amortized_condense_def rolling_condense_def over_size_def)
  have forg: "forgotten ?c = Inr [Min (set (ids_of b))..Max (set (ids_of b))]"
    by (simp add: forgotten_def valid_condensation_def)
  show ?thesis
  proof (intro exI [of _ ?c] conjI allI impI, rule cond)
    fix e assume e: "ev_body e = Act (CondensationAction ?c) \<and> event_id e \<notin> set (ids_of ?xs)"
    then have new: "\<forall>x \<in> set ?xs. event_id x \<noteq> event_id e" by (auto simp: set_ids_of image_iff)
    from e have "from_events (es @ [e]) = Inr \<lparr>vw_events = a @ c, vw_unhandled_condensation_request = False\<rparr>"
      using from_events_condensation [OF assms(2,3) forg _ _ new] forget_middle [OF rise b(1)] split(1)
      by simp
    then show "\<exists>v'. from_events (es @ [e]) = Inr v' \<and> view_len v' = max_size div 2 \<and>
          vw_events v' = py_take keep_first ?xs @ py_drop (keep_first - max_size div 2) ?xs"
      using split by (simp add: view_len_def)
  qed
qed

text \<open>
  A condensation request on a view of at most \<open>max_size // 2\<close> events: nothing is left to forget
  and the call raises the \<open>ValueError\<close> of \<open>min()\<close>.
\<close>

theorem amortized_request_on_small_view_fails:
  assumes "check_sizes max_size keep_first = Inr ()"
    and "vw_unhandled_condensation_request v" and "view_len v \<le> max_size div 2"
  shows "amortized_condense max_size keep_first v = Inl (ValueError ''min() arg is an empty sequence'')"
proof -
  let ?xs = "vw_events v" and ?t = "max_size div 2 - int (py_clamp keep_first (length (vw_events v)))"
  have "set ?xs \<subseteq> set (py_take keep_first ?xs) \<union> set (py_drop (- ?t) ?xs)"
  proof -
    have "py_clamp (- ?t) (length ?xs) \<le> py_clamp keep_first (length ?xs)"
      using assms(1,3) unfolding check_sizes_def py_clamp_def view_len_def
      by (simp split: if_splits) linarith+
    then have "set (py_drop keep_first ?xs) \<subseteq> set (py_drop (- ?t) ?xs)"
      by (simp add: py_drop_def set_drop_subset_set_drop)
    moreover have "set ?xs = set (py_take keep_first ?xs) \<union> set (py_drop keep_first ?xs)"
      by (metis py_take_drop set_append)
    ultimately show ?thesis by blast
  qed
  then have "filter (\<lambda>i. i \<notin> set (ids_of (py_take keep_first ?xs @ py_drop (- ?t) ?xs))) (ids_of ?xs) = []"
    by (auto simp: filter_empty_conv set_ids_of)
  then have "amortized_get_condensation max_size keep_first v = Inl (ValueError ''min() arg is an empty sequence'')"
    by (simp add: amortized_get_condensation_def Let_def py_min_def)
  then show ?thesis using assms(2) by (simp add: amortized_condense_def rolling_condense_def over_size_def)
qed

lemma clamp_overlap: "0 < h \<Longrightarrow> h \<le> n \<Longrightarrow> int n < m \<Longrightarrow> py_clamp (- (m - int h)) n < h"
  unfolding py_clamp_def by (simp split: if_splits)

lemma overlap_not_distinct:
  assumes "0 < h" and "h \<le> length xs" and "c < h"
  shows "\<not> distinct (take h xs @ drop c xs)"
proof -
  have "xs ! (h - 1) \<in> set (take h xs)" using assms by (auto simp: in_set_conv_nth intro!: exI [of _ "h - 1"])
  moreover have "xs ! (h - 1) \<in> set (drop c xs)"
    using assms by (auto simp: in_set_conv_nth intro!: exI [of _ "h - 1 - c"])
  ultimately show ?thesis by auto
qed

text \<open>
  The recent-events condenser keeps the first \<open>keep_first\<close> and the last events of a view with at
  least \<open>max_events\<close> events. On a shorter view its two slices overlap: the view it returns is longer
  than the one it was given and an event comes twice.
\<close>

theorem recent_events_overlap:
  assumes "0 < keep_first" and "keep_first < max_events" and "vw_events v \<noteq> []"
  shows "\<exists>v'. recent_events_condense keep_first max_events v = Inr (Viewed v') \<and>
    (if max_events \<le> view_len v
     then view_len v' = max_events \<and>
       (\<exists>dropped. vw_events v = py_take keep_first (vw_events v') @ dropped @ py_drop keep_first (vw_events v'))
     else view_len v < view_len v' \<and> \<not> distinct (vw_events v'))"
proof -
  let ?xs = "vw_events v" and ?h = "py_clamp keep_first (length (vw_events v))"
  let ?c = "py_clamp (- (max_events - int ?h)) (length ?xs)"
  have h: "0 < ?h" "?h \<le> length ?xs" "int ?h < max_events"
    using assms by (auto simp: py_clamp_def)
  have res: "recent_events_condense keep_first max_events v = Inr (Viewed \<lparr>vw_events = take ?h ?xs @ drop ?c ?xs,
      vw_unhandled_condensation_request = False\<rparr>)"
    using h(3) by (simp add: recent_events_condense_def Let_def py_take_def py_drop_def max_def)
  show ?thesis
  proof (cases "max_events \<le> view_len v")
    case True
    then have c: "?h = nat keep_first" "?h \<le> ?c" "int ?c = int (length ?xs) - (max_events - keep_first)"
      using assms h(3) by (auto simp: py_clamp_def view_len_def)
    have "?xs = take ?h ?xs @ drop ?h (take ?c ?xs) @ drop ?c ?xs"
      using c(2) by (metis append.assoc append_take_drop_id min.absorb1 take_take)
    with True res c h show ?thesis
      by (auto simp: view_len_def py_take_def py_drop_def py_clamp_def)
  next
    case False
    then have c: "?c < ?h" using h clamp_overlap [of ?h "length ?xs" max_events] by (simp add: view_len_def)
    from overlap_not_distinct [OF h(1,2) c] have "\<not> distinct (take ?h ?xs @ drop ?c ?xs)" .
    with False res c h show ?thesis by (auto simp: view_len_def)
  qed
qed

subsection \<open>The conversation window\<close>

lemma contiguous_range:
  assumes "contiguous ids" and "sorted ids" and "distinct ids"
  shows "set [hd ids..last ids] = set ids"
proof -
  have ne: "ids \<noteq> []" and len: "last ids - hd ids = int (length ids) - 1"
    using assms(1) by (auto simp: contiguous_def)
  have "hd ids \<le> x \<and> x \<le> last ids" if "x \<in> set ids" for x
    using that sorted_nth_mono [OF assms(2)] ne by (auto simp: in_set_conv_nth hd_conv_nth last_conv_nth)
  then have "set ids \<subseteq> {hd ids..last ids}" by auto
  moreover have "card (set ids) = card {hd ids..last ids}" using len by (simp add: distinct_card assms(3))
  ultimately have "set ids = {hd ids..last ids}" by (intro card_subset_eq) auto
  then show ?thesis by simp
qed

text \<open>What the condensation forgets, in either encoding, is every id of the view it does not keep.\<close>

lemma window_forgets:
  assumes "find_index is_user_message (vw_events v) = Some i"
  shows "\<exists>c ids. window_get_condensation v = Inr c \<and> forgotten c = Inr ids \<and> ca_summary c = None \<and>
    set ids = set (ids_of (vw_events v)) - set (ids_of (essential_events (vw_events v) i
      @ drop (window_start (vw_events v) (length (essential_events (vw_events v) i))) (vw_events v)))"
proof -
  let ?xs = "vw_events v" and ?ess = "essential_events (vw_events v) i"
  let ?keep = "ids_of ?ess @ ids_of (drop (window_start ?xs (length ?ess)) ?xs)"
  let ?ids = "sort (remdups (filter (\<lambda>k. k \<notin> set ?keep) (ids_of ?xs)))"
  have set: "set ?ids = set (ids_of ?xs) - set ?keep" by auto
  have ne: "?xs \<noteq> []" using assms by auto
  have win: "window_get_condensation v =
      (if ?ids = [] then mk_condensation (Some []) None None None None
       else if contiguous ?ids then mk_condensation None (Some (hd ?ids)) (Some (last ?ids)) None None
       else mk_condensation (Some ?ids) None None None None)"
    using ne assms by (simp add: window_get_condensation_def Let_def)
  consider "?ids = []" | "?ids \<noteq> []" "contiguous ?ids" | "?ids \<noteq> []" "\<not> contiguous ?ids" by blast
  then show ?thesis
  proof cases
    case 1
    then show ?thesis using set win by (simp add: mk_condensation_ids forgotten_def valid_condensation_def)
  next
    case 2
    have "set [hd ?ids..last ?ids] = set ?ids" by (rule contiguous_range [OF 2(2)]) simp_all
    with 2 show ?thesis using set win
      by (simp add: mk_condensation_range forgotten_def valid_condensation_def del: set_upto)
  next
    case 3
    then show ?thesis using set win
      by (simp add: mk_condensation_ids forgotten_def valid_condensation_def)
  qed
qed

lemma window_suffix_eq:
  "drop (window_start xs n) xs = dropWhile (is_observation \<circ> ev_body)
     (drop (nat (max 0 (int (length xs) - max 1 ((int (length xs) - int n) div 2)))) xs)" (is "_ = dropWhile _ (drop ?s xs)")
  by (simp only: window_start_def Let_def dropWhile_eq_drop drop_drop add.commute)

lemma window_suffix:
  "drop (window_start xs n) xs = [] \<or> \<not> is_observation (ev_body (hd (drop (window_start xs n) xs)))"
  using hd_dropWhile [of "is_observation \<circ> ev_body"] unfolding window_suffix_eq by fastforce

lemma length_window_suffix:
  "int (length (drop (window_start xs n) xs)) \<le> max 1 ((int (length xs) - int n) div 2)"
proof -
  have "length (drop (window_start xs n) xs) \<le> length xs - nat (max 0 (int (length xs) - max 1 ((int (length xs) - int n) div 2)))"
    unfolding window_suffix_eq using length_dropWhile_le by (metis length_drop)
  then show ?thesis by linarith
qed

lemma essential_subset:
  assumes "find_index is_user_message xs = Some i"
  shows "set (essential_events xs i) \<subseteq> set xs"
proof -
  have i: "i < length xs" using assms by (simp add: find_index_Some)
  have "set (recall_pair (drop (Suc i) xs) e) \<subseteq> set xs" for e
  proof (cases "find_index (is_recall_of (message_content e)) (drop (Suc i) xs)")
    case (Some k)
    then have "drop (Suc i) xs ! k \<in> set (drop (Suc i) xs)" by (simp only: find_index_Some nth_mem)
    with Some show ?thesis
      by (auto simp: recall_pair_def Let_def split: option.splits dest!: find_SomeD [OF sym] intro: in_set_dropD)
  qed (simp add: recall_pair_def)
  then show ?thesis using i
    by (auto simp: essential_events_def split: option.splits dest: find_SomeD [OF sym])
qed

text \<open>
  When a condensation is requested, the conversation window keeps exactly the essential events
  (system message, first user message, its recall action and observation) and the recent half of the
  rest, whichever of its two encodings it picks; the recent half starts with no dangling observation.
\<close>

theorem window_keeps_essentials:
  assumes "from_events es = Inr v" and "last_summary es = None" and "ids_rise (vw_events v)"
    and "vw_unhandled_condensation_request v" and "find_index is_user_message (vw_events v) = Some i"
  defines "essential \<equiv> essential_events (vw_events v) i"
  defines "recent \<equiv> drop (window_start (vw_events v) (length essential)) (vw_events v)"
  shows "\<exists>c. window_condense v = Inr (Condensed c) \<and>
    (\<forall>e. ev_body e = Act (CondensationAction c) \<and> event_id e \<notin> set (ids_of (vw_events v)) \<longrightarrow>
       from_events (es @ [e]) = Inr \<lparr>vw_events = filter (\<lambda>x. x \<in> set essential \<or> x \<in> set recent) (vw_events v),
         vw_unhandled_condensation_request = False\<rparr>)
    \<and> vw_events v ! i \<in> set essential
    \<and> (recent = [] \<or> \<not> is_observation (ev_body (hd recent)))
    \<and> int (length recent) \<le> max 1 ((view_len v - int (length essential)) div 2)"
proof -
  let ?xs = "vw_events v"
  obtain c ids where c: "window_get_condensation v = Inr c" "forgotten c = Inr ids" "ca_summary c = None"
      "set ids = set (ids_of ?xs) - set (ids_of (essential @ recent))"
    using window_forgets [OF assms(5)] unfolding essential_def recent_def by blast
  have sub: "set (essential @ recent) \<subseteq> set ?xs"
    using essential_subset [OF assms(5)] set_drop_subset by (fastforce simp: essential_def recent_def)
  have keep: "event_id x \<notin> set ids \<longleftrightarrow> x \<in> set essential \<or> x \<in> set recent" if "x \<in> set ?xs" for x
    using that sub ids_rise_inj [OF assms(3) that] by (auto simp: c(4) set_ids_of)
  have "from_events (es @ [e]) = Inr \<lparr>vw_events = filter (\<lambda>x. x \<in> set essential \<or> x \<in> set recent) ?xs,
         vw_unhandled_condensation_request = False\<rparr>"
    if "ev_body e = Act (CondensationAction c)" "event_id e \<notin> set (ids_of ?xs)" for e
  proof -
    have new: "\<forall>x \<in> set ?xs. event_id x \<noteq> event_id e" using that(2) by (auto simp: set_ids_of image_iff)
    from from_events_condensation [OF assms(1,2) c(2,3) that(1) new] keep show ?thesis
      by (simp cong: filter_cong)
  qed
  moreover have "window_condense v = Inr (Condensed c)"
    using c(1) assms(4) by (simp add: window_condense_def rolling_condense_def)
  ultimately show ?thesis
    using window_suffix [where xs = ?xs and n = "length essential"] length_window_suffix [where xs = ?xs and n = "length essential"]
    by (auto simp: recent_def view_len_def) (auto simp: essential_def essential_events_def)
qed

subsection \<open>Summaries\<close>

lemma py_take_append [simp]: "int (length a) = k \<Longrightarrow> py_take k (a @ b) = a"
  by (auto simp: py_take_def py_clamp_def)

lemma py_insert_append: "int (length a) = k \<Longrightarrow> py_insert k x (a @ b) = a @ x # b"
  by (auto simp: py_insert_def py_clamp_def Let_def)

lemma py_slice_append: "int (length a) = k \<Longrightarrow> 0 < length c \<Longrightarrow> int (length c) = t \<Longrightarrow> py_slice k (- t) (a @ b @ c) = b"
  by (auto simp: py_slice_def py_clamp_def min_def nat_add_distrib)

lemma py_get_append: "int (length a) = k \<Longrightarrow> py_get (a @ x # b) k = Inr x"
  by (auto simp: py_get_def py_clamp_def)

definition no_summary_events :: "event list \<Rightarrow> bool" where
  "no_summary_events es \<longleftrightarrow> (\<forall>e \<in> set es. \<not> is_condensation_obs (ev_body e))"

lemma is_condensation_new_obs [simp]: "is_condensation_obs (ev_body (new_obs (AgentCondensationObservation s)))"
  by (simp add: new_obs_def isinst)

text \<open>
  The parts a summarizing condenser splits the view of such a history into: what the model is asked to
  summarize is the slice between the head and the tail, and the event before it.
\<close>

definition previous_summary :: "event list \<Rightarrow> event" where
  "previous_summary es = new_obs (AgentCondensationObservation
     (case last_summary es of None \<Rightarrow> ''No events summarized'' | Some (s, off) \<Rightarrow> s))"

lemma summarizing_split:
  assumes "from_events es = Inr v" and "no_summary_events es" and "remaining es = Inr (a @ b @ c)"
    and "last_summary es = None \<or> (\<exists>s. last_summary es = Some (s, keep_first))"
    and "b \<noteq> []" and "int (length a) = keep_first" and "0 < length c" and "int (length c) = max_size div 2 - keep_first - 1"
  shows "summarizing_parts max_size keep_first v = Inr (previous_summary es, b)"
proof -
  have no: "\<not> is_condensation_obs (ev_body x)" if "x \<in> set (a @ b @ c)" for x
  proof -
    have "set (a @ b @ c) \<subseteq> set es"
      using assms(3) by (auto simp: remaining_def bind_res_Inr dest!: arg_cong [of _ _ set])
    with assms(2) that show ?thesis by (auto simp: no_summary_events_def)
  qed
  then have b: "filter (\<lambda>e. \<not> is_condensation_obs (ev_body e)) b = b" by (simp add: filter_id_conv)
  have t: "1 - (max_size div 2 - keep_first) = - int (length c)" using assms(8) by simp
  from assms(4) show ?thesis
  proof (elim disjE exE)
    assume "last_summary es = None"
    then have v: "vw_events v = a @ b @ c" using assms(1,3) by (auto simp: from_events_remaining)
    obtain x b' where x: "b = x # b'" using assms(5) by (cases b) auto
    have "py_get (a @ b @ c) keep_first = Inr x" using assms(6) by (simp add: x py_get_append)
    with b t no [of x] show ?thesis
      using py_slice_append [OF assms(6,7) refl, of b] assms(6) x
      by (simp add: summarizing_parts_def v Let_def previous_summary_def \<open>last_summary es = None\<close>)
  next
    fix s assume "last_summary es = Some (s, keep_first)"
    then have v: "vw_events v = a @ new_obs (AgentCondensationObservation s) # b @ c"
      using assms(1,3,6) by (auto simp: from_events_remaining py_insert_append)
    have "py_get (vw_events v) keep_first = Inr (new_obs (AgentCondensationObservation s))"
      using assms(6) by (simp add: v py_get_append)
    with b t show ?thesis
      using py_slice_append [OF assms(6,7) refl, of "new_obs (AgentCondensationObservation s) # b"] assms(6)
      by (simp add: summarizing_parts_def v Let_def previous_summary_def \<open>last_summary es = Some (s, keep_first)\<close>)
  qed
qed

lemma summarizing_condenses:
  assumes "check_sizes max_size keep_first = Inr ()" and "keep_first < max_size div 2 - 1"
    and "from_events es = Inr v" and "no_summary_events es" and "remaining es = Inr kept"
    and "last_summary es = None \<or> (\<exists>s. last_summary es = Some (s, keep_first))"
    and "ids_rise kept" and "max_size < view_len v"
  shows "\<exists>c s. summarizing_condense summarize max_size keep_first v = Inr (Condensed c) \<and>
    s = summarize (previous_summary es) (py_slice keep_first (keep_first + 1 - max_size div 2) kept) \<and>
    (\<forall>e. ev_body e = Act (CondensationAction c) \<and> event_id e \<notin> set (ids_of kept) \<longrightarrow>
       (\<exists>v'. from_events (es @ [e]) = Inr v' \<and> view_len v' = max_size div 2 \<and>
          vw_events v' = py_take keep_first kept @ new_obs (AgentCondensationObservation s)
            # py_drop (keep_first + 1 - max_size div 2) kept))"
proof -
  let ?t = "max_size div 2 - keep_first - 1"
  have "length (vw_events v) \<le> Suc (length kept)"
    using assms(3,5) by (auto simp: from_events_remaining split: option.splits)
  then have len: "max_size \<le> int (length kept)" using assms(8) by (simp add: view_len_def)
  with assms(1,2) have kf: "0 \<le> keep_first" "0 < ?t" "keep_first + ?t \<le> int (length kept)"
    and big: "keep_first + ?t < int (length kept)" by (auto simp: check_sizes_def split: if_splits)
  obtain a b c where split: "kept = a @ b @ c" "py_take keep_first kept = a" "py_drop (- ?t) kept = c"
      "int (length a) = keep_first" "int (length c) = ?t" "py_slice keep_first (- ?t) kept = b"
    using split_view [OF kf] by metis
  then have b: "b \<noteq> []" "ids_of b \<noteq> []" using big by (auto simp: ids_of_def)
  have "0 < length c" using kf(2) split(5) by linarith
  with assms(3-6) b split have parts: "summarizing_parts max_size keep_first v = Inr (previous_summary es, b)"
    using summarizing_split [of es v a b c keep_first max_size] by auto
  let ?s = "summarize (previous_summary es) b"
  let ?c = "\<lparr>ca_forgotten_event_ids = None, ca_forgotten_events_start_id = Some (Min (set (ids_of b))),
     ca_forgotten_events_end_id = Some (Max (set (ids_of b))), ca_summary = Some ?s, ca_summary_offset = Some keep_first\<rparr>"
  have cond: "summarizing_condense summarize max_size keep_first v = Inr (Condensed ?c)"
    using parts b assms(8)
    by (simp add: summarizing_condense_def rolling_condense_def over_size_def summarizing_get_condensation_def
      Let_def py_min_def py_max_def mk_condensation_def valid_condensation_def)
  have forg: "forgotten ?c = Inr [Min (set (ids_of b))..Max (set (ids_of b))]"
    by (simp add: forgotten_def valid_condensation_def)
  have view: "from_events (es @ [e]) = Inr \<lparr>vw_events = a @ new_obs (AgentCondensationObservation ?s) # c,
      vw_unhandled_condensation_request = False\<rparr>"
    if "ev_body e = Act (CondensationAction ?c)" "event_id e \<notin> set (ids_of kept)" for e
  proof -
    have new: "\<forall>x \<in> set kept. event_id x \<noteq> event_id e" using that(2) by (auto simp: set_ids_of image_iff)
    from from_events_summary [OF assms(5) forg _ _ that(1) new] forget_middle [of a b c] assms(7) b(1) split(1,4)
    show ?thesis by (simp add: py_insert_append)
  qed
  have t: "keep_first + 1 - max_size div 2 = - ?t" by simp
  show ?thesis
    by (intro exI [of _ ?c] exI [of _ ?s] conjI) (use cond split view in \<open>auto simp: t view_len_def\<close>)
qed

text \<open>
  With \<open>keep_first\<close> one below the bound that the constructor enforces, the slice is \<open>view[k:-0]\<close>, which
  is empty, and \<open>min()\<close> raises for every view that should be condensed.
\<close>

theorem summarizing_boundary_fails:
  assumes "check_sizes max_size keep_first = Inr ()" and "keep_first = max_size div 2 - 1"
    and "max_size < view_len v"
  shows "summarizing_condense summarize max_size keep_first v = Inl (ValueError ''min() arg is an empty sequence'')"
proof -
  have k: "0 \<le> keep_first" "keep_first < int (length (vw_events v))"
    using assms by (auto simp: check_sizes_def view_len_def split: if_splits)
  then obtain e where "py_get (vw_events v) keep_first = Inr e" by (auto simp: py_get_def)
  moreover have "int (py_clamp keep_first (length (vw_events v))) = keep_first" using k by (auto simp: py_clamp_def)
  moreover have "py_slice keep_first 0 (vw_events v) = []" by (simp add: py_slice_def py_clamp_def)
  ultimately show ?thesis
    using assms(2,3)
    by (simp add: summarizing_condense_def rolling_condense_def over_size_def summarizing_get_condensation_def
      summarizing_parts_def Let_def py_min_def ids_of_def)
qed

text \<open>
  C18. In a history with rising ids whose only summary, if any, is one of this condenser, a view with more than \<open>max_size\<close> events is
  condensed to exactly \<open>max_size // 2\<close>: the first \<open>keep_first\<close> events, the model's summary and the last events, and every event
  that disappears was given to the model, with the previous summary. The one configuration that the constructor accepts and for which
  this fails is the largest \<open>keep_first\<close>, \<open>max_size // 2 - 1\<close>: there every condensation that is due raises.
\<close>

theorem summarizing_bounds_view:
  assumes "check_sizes max_size keep_first = Inr ()"
    and "from_events es = Inr v" and "no_summary_events es" and "remaining es = Inr kept"
    and "last_summary es = None \<or> (\<exists>s. last_summary es = Some (s, keep_first))"
    and "ids_rise kept" and "max_size < view_len v"
  shows "if keep_first = max_size div 2 - 1
    then summarizing_condense summarize max_size keep_first v = Inl (ValueError ''min() arg is an empty sequence'')
    else \<exists>c s. summarizing_condense summarize max_size keep_first v = Inr (Condensed c) \<and>
      s = summarize (previous_summary es) (py_slice keep_first (keep_first + 1 - max_size div 2) kept) \<and>
      (\<forall>e. ev_body e = Act (CondensationAction c) \<and> event_id e \<notin> set (ids_of kept) \<longrightarrow>
         (\<exists>v'. from_events (es @ [e]) = Inr v' \<and> view_len v' = max_size div 2 \<and>
            vw_events v' = py_take keep_first kept @ new_obs (AgentCondensationObservation s)
              # py_drop (keep_first + 1 - max_size div 2) kept))"
proof (cases "keep_first = max_size div 2 - 1")
  case True
  with summarizing_boundary_fails [OF assms(1) True assms(7)] show ?thesis by simp
next
  case False
  then have "keep_first < max_size div 2 - 1" using assms(1) by (auto simp: check_sizes_def split: if_splits)
  from summarizing_condenses [OF assms(1) this assms(2-7)] False show ?thesis by simp
qed

section \<open>Witnesses\<close>

definition numbered :: "int \<Rightarrow> body \<Rightarrow> event" where
  "numbered i b = (fresh b)\<lparr>ev_id := Some i\<rparr>"

definition sample_history :: "event list" where
  "sample_history = map (\<lambda>i. numbered i (Act NullAction)) [0..4]"

definition plain_view :: "event list \<Rightarrow> view" where
  "plain_view es = \<lparr>vw_events = es, vw_unhandled_condensation_request = False\<rparr>"

lemma event_id_numbered [simp]: "event_id (numbered i b) = i" "ev_body (numbered i b) = b"
  by (simp_all add: numbered_def event_id_def)

lemma sample_history_eq: "sample_history = [numbered 0 (Act NullAction), numbered 1 (Act NullAction),
    numbered 2 (Act NullAction), numbered 3 (Act NullAction), numbered 4 (Act NullAction)]"
  by (simp add: sample_history_def upto.simps)

lemmas sample_view_defs = plain_view_def remaining_def forgotten_event_ids_def forgets_def last_summary_def find_last_def
  summary_of_def unhandled_request_def isinst ids_rise_def ids_of_def view_len_def no_summary_events_def
  from_events_remaining sample_history_eq

lemma sample_history_view:
  "from_events sample_history = Inr (plain_view sample_history)" "last_summary sample_history = None"
  "ids_rise sample_history" "remaining sample_history = Inr sample_history" "no_summary_events sample_history"
  "view_len (plain_view sample_history) = 5"
  by (simp_all add: sample_view_defs)

theorem amortized_halves_view_witness:
  "check_sizes 4 1 = Inr () \<and> 4 < view_len (plain_view sample_history) \<and>
   (\<exists>c v'. amortized_condense 4 1 (plain_view sample_history) = Inr (Condensed c) \<and>
      from_events (sample_history @ [numbered 5 (Act (CondensationAction c))]) = Inr v' \<and> view_len v' = 2)"
proof -
  have sizes: "check_sizes 4 1 = Inr ()" by (simp add: check_sizes_def)
  have big: "4 < view_len (plain_view sample_history)" using sample_history_view by simp
  have rise: "ids_rise (vw_events (plain_view sample_history))" using sample_history_view by (simp add: plain_view_def)
  obtain c where c: "amortized_condense 4 1 (plain_view sample_history) = Inr (Condensed c)"
    and view: "\<And>e. ev_body e = Act (CondensationAction c) \<Longrightarrow> event_id e \<notin> set (ids_of sample_history)
       \<Longrightarrow> \<exists>v'. from_events (sample_history @ [e]) = Inr v' \<and> view_len v' = 4 div 2"
    using amortized_halves_view [OF sizes sample_history_view(1,2) rise big] by (simp add: plain_view_def) blast
  have "\<exists>v'. from_events (sample_history @ [numbered 5 (Act (CondensationAction c))]) = Inr v' \<and> view_len v' = 4 div 2"
    by (rule view) (simp_all add: sample_history_eq ids_of_def)
  with c sizes big show ?thesis by auto
qed

theorem amortized_request_on_small_view_fails_witness:
  "amortized_condense 100 1 ((plain_view sample_history)\<lparr>vw_unhandled_condensation_request := True\<rparr>)
     = Inl (ValueError ''min() arg is an empty sequence'')"
  by (rule amortized_request_on_small_view_fails)
    (simp_all add: check_sizes_def view_len_def plain_view_def sample_history_eq)

theorem recent_events_overlap_witness:
  "\<exists>v'. recent_events_condense 1 10 (plain_view sample_history) = Inr (Viewed v') \<and> \<not> distinct (vw_events v')"
proof -
  have "\<exists>v'. recent_events_condense 1 10 (plain_view sample_history) = Inr (Viewed v') \<and>
    (if 10 \<le> view_len (plain_view sample_history)
     then view_len v' = 10 \<and> (\<exists>dropped. vw_events (plain_view sample_history) = py_take 1 (vw_events v') @ dropped @ py_drop 1 (vw_events v'))
     else view_len (plain_view sample_history) < view_len v' \<and> \<not> distinct (vw_events v'))"
    by (rule recent_events_overlap) (simp_all add: plain_view_def sample_history_eq)
  then show ?thesis by (auto simp: sample_history_view)
qed

theorem summarizing_bounds_view_witness:
  "check_sizes 4 0 = Inr () \<and>
   (\<exists>c v'. summarizing_condense (\<lambda>prev es. ''summary'') 4 0 (plain_view sample_history) = Inr (Condensed c) \<and>
      from_events (sample_history @ [numbered 5 (Act (CondensationAction c))]) = Inr v' \<and> view_len v' = 2)"
proof -
  have sizes: "check_sizes 4 0 = Inr ()" and inner: "(0 :: int) \<noteq> 4 div 2 - 1" by (simp_all add: check_sizes_def)
  have big: "4 < view_len (plain_view sample_history)" using sample_history_view by simp
  have none: "last_summary sample_history = None \<or> (\<exists>s. last_summary sample_history = Some (s, 0))"
    using sample_history_view by simp
  obtain c where c: "summarizing_condense (\<lambda>prev es. ''summary'') 4 0 (plain_view sample_history) = Inr (Condensed c)"
    and view: "\<And>e. ev_body e = Act (CondensationAction c) \<Longrightarrow> event_id e \<notin> set (ids_of sample_history)
       \<Longrightarrow> \<exists>v'. from_events (sample_history @ [e]) = Inr v' \<and> view_len v' = 4 div 2"
    using summarizing_bounds_view [OF sizes sample_history_view(1,5,4) none sample_history_view(3) big,
      of "\<lambda>prev es. ''summary''"] unfolding if_not_P [OF inner] by blast
  have "\<exists>v'. from_events (sample_history @ [numbered 5 (Act (CondensationAction c))]) = Inr v' \<and> view_len v' = 4 div 2"
    by (rule view) (simp_all add: sample_history_eq ids_of_def)
  with c sizes show ?thesis by auto
qed

theorem summarizing_boundary_fails_witness:
  "summarizing_condense (\<lambda>prev es. ''summary'') 4 1 (plain_view sample_history) = Inl (ValueError ''min() arg is an empty sequence'')"
  by (rule summarizing_boundary_fails) (simp_all add: sample_history_view check_sizes_def)

definition sample_conversation :: "event list" where
  "sample_conversation =
     [numbered 0 (Act (SystemMessageAction \<lparr>sm_content = ''system'', sm_tools = None, sm_openhands_version = None, sm_agent_class = None\<rparr>)),
      (numbered 1 (Act (MessageAction \<lparr>ma_content = ''fix it'', ma_file_urls = None, ma_image_urls = None,
         ma_wait_for_response = False, ma_security_risk = None\<rparr>)))\<lparr>ev_source := Some USER\<rparr>,
      numbered 2 (Act NullAction), numbered 3 (Obs (NullObservation [])),
      numbered 4 (Act NullAction), numbered 5 (Obs (NullObservation [])), numbered 7 (Act NullAction)]"

definition requested :: event where
  "requested = numbered 8 (Act CondensationRequestAction)"

lemma ids_filter_members:
  assumes "ids_rise xs" and "set a \<subseteq> set xs" and "set b \<subseteq> set xs"
  shows "map event_id (filter (\<lambda>x. x \<in> set a \<or> x \<in> set b) xs)
       = filter (\<lambda>i. i \<in> set (ids_of a) \<or> i \<in> set (ids_of b)) (ids_of xs)"
proof -
  have "x \<in> set d \<longleftrightarrow> event_id x \<in> set (ids_of d)" if "x \<in> set xs" "set d \<subseteq> set xs" for x d
    using ids_rise_inj [OF assms(1) that(1)] that(2) by (auto simp: set_ids_of)
  with assms(2,3) have "filter (\<lambda>x. x \<in> set a \<or> x \<in> set b) xs
      = filter (\<lambda>x. event_id x \<in> set (ids_of a) \<or> event_id x \<in> set (ids_of b)) xs"
    by (intro filter_cong) auto
  then show ?thesis by (simp add: ids_of_def filter_map comp_def)
qed

theorem window_keeps_essentials_witness:
  "\<exists>c v'. window_condense \<lparr>vw_events = sample_conversation, vw_unhandled_condensation_request = True\<rparr> = Inr (Condensed c) \<and>
     from_events (sample_conversation @ [requested, numbered 9 (Act (CondensationAction c))]) = Inr v' \<and>
     map event_id (vw_events v') = [0, 1, 7]"
proof -
  let ?v = "\<lparr>vw_events = sample_conversation, vw_unhandled_condensation_request = True\<rparr>"
  have h: "from_events (sample_conversation @ [requested]) = Inr ?v" "last_summary (sample_conversation @ [requested]) = None"
    "ids_rise (vw_events ?v)" "vw_unhandled_condensation_request ?v"
    "find_index is_user_message (vw_events ?v) = Some 1"
    by (simp_all add: sample_view_defs sample_conversation_def requested_def is_user_message_def numbered_def fresh_def event_id_def)
  have ess: "essential_events sample_conversation (Suc 0) = take 2 sample_conversation"
    by (simp add: essential_events_def sample_conversation_def recall_pair_def is_recall_of_def isinst numbered_def fresh_def)
  have rec: "drop (window_start sample_conversation 2) sample_conversation = drop 6 sample_conversation"
    by (simp add: window_start_def sample_conversation_def Let_def numbered_def fresh_def)
  obtain c where c: "window_condense ?v = Inr (Condensed c)"
    and view: "\<And>e. ev_body e = Act (CondensationAction c) \<Longrightarrow> event_id e \<notin> set (ids_of (vw_events ?v)) \<Longrightarrow>
       from_events ((sample_conversation @ [requested]) @ [e]) = Inr \<lparr>vw_events = filter (\<lambda>x. x \<in> set (essential_events (vw_events ?v) 1)
          \<or> x \<in> set (drop (window_start (vw_events ?v) (length (essential_events (vw_events ?v) 1))) (vw_events ?v))) (vw_events ?v),
         vw_unhandled_condensation_request = False\<rparr>"
    using window_keeps_essentials [OF h] by blast
  have len: "length sample_conversation = 7" by (simp add: sample_conversation_def)
  have ids: "ids_of sample_conversation = [0, 1, 2, 3, 4, 5, 7]"
    by (simp add: sample_conversation_def ids_of_def numbered_def event_id_def)
  then have ids2: "ids_of (take 2 sample_conversation) = [0, 1]" "ids_of (drop 6 sample_conversation) = [7]"
    by (simp_all add: ids_of_def flip: take_map drop_map)
  have "from_events ((sample_conversation @ [requested]) @ [numbered 9 (Act (CondensationAction c))]) = Inr
     \<lparr>vw_events = filter (\<lambda>x. x \<in> set (take 2 sample_conversation) \<or> x \<in> set (drop 6 sample_conversation)) sample_conversation,
       vw_unhandled_condensation_request = False\<rparr>"
    using view [of "numbered 9 (Act (CondensationAction c))"] by (simp add: ess rec len ids)
  moreover have "map event_id (filter (\<lambda>x. x \<in> set (take 2 sample_conversation) \<or> x \<in> set (drop 6 sample_conversation)) sample_conversation) = [0, 1, 7]"
    using ids_filter_members [of sample_conversation "take 2 sample_conversation" "drop 6 sample_conversation"] h(3)
    by (simp add: set_take_subset set_drop_subset ids ids2)
  ultimately show ?thesis using c by auto
qed

end
