(* ===== verification/Stuck.thy ===== *)
theory Stuck
  imports EventOps
begin

text \<open>
  The loop detector (\<open>openhands/controller/stuck.py\<close>): five patterns in the filtered history stop an
  agent that goes round in circles.

  A scenario returns the analysis it stores when it fires and \<open>None\<close> when it does not.
\<close>

definition SYNTAX_ERROR_MESSAGES :: "string list" where
  "SYNTAX_ERROR_MESSAGES =
     [''SyntaxError: unterminated string literal (detected at line'',
      ''SyntaxError: invalid syntax. Perhaps you forgot a comma?'',
      ''SyntaxError: incomplete input'']"

record stuck_analysis =
  loop_type :: string
  loop_repeat_times :: int
  loop_start_idx :: int

text \<open>\<open>es.index(e)\<close> for a member \<open>e\<close>: the place of the first element equal to it.\<close>

definition list_index :: "event list \<Rightarrow> event \<Rightarrow> nat" where
  "list_index es e = length (takeWhile (\<lambda>x. \<not> event_eq x e) es)"

definition all_same :: "string list \<Rightarrow> bool" where
  \<comment> \<open>\<open>len(set(xs)) == 1\<close>\<close>
  "all_same xs = (length (remdups xs) = 1)"

definition eq_no_pid :: "event \<Rightarrow> event \<Rightarrow> bool" where
  "eq_no_pid obj1 obj2 =
     (case (ev_body obj1, ev_body obj2) of
        (Act (IPythonRunCellAction a), Act (IPythonRunCellAction b)) \<Rightarrow>
          (if py_contains (ip_code a) ''edit_file_by_replace('' \<and> py_contains (ip_code b) ''edit_file_by_replace(''
           then 2 < length (py_split nl (ip_code a))
             \<and> take 3 (py_split nl (ip_code a)) = take 3 (py_split nl (ip_code b))
           else event_eq obj1 obj2)
      | (Obs (CmdOutputObservation a), Obs (CmdOutputObservation b)) \<Rightarrow>
          co_command a = co_command b \<and> co_exit_code a = co_exit_code b
      | _ \<Rightarrow> event_eq obj1 obj2)"

section \<open>The filtered history\<close>

definition filtered_out :: "event \<Rightarrow> bool" where
  "filtered_out e = (is_user_message e \<or> is_null_action (ev_body e) \<or> is_null_obs (ev_body e))"

definition after_last_user_message :: "event list \<Rightarrow> nat" where
  \<comment> \<open>\<open>last_user_msg_idx + 1\<close>\<close>
  "after_last_user_message history =
     (case find_index is_user_message (rev history) of None \<Rightarrow> 0 | Some i \<Rightarrow> length history - i)"

definition filtered_history_offset :: "bool \<Rightarrow> event list \<Rightarrow> nat" where
  "filtered_history_offset headless_mode history = (if headless_mode then 0 else after_last_user_message history)"

definition filtered_history :: "bool \<Rightarrow> event list \<Rightarrow> event list" where
  "filtered_history headless_mode history =
     filter (\<lambda>e. \<not> filtered_out e) (drop (filtered_history_offset headless_mode history) history)"

text \<open>The last \<open>n\<close> actions and observations, newest first.\<close>

definition last_actions :: "nat \<Rightarrow> event list \<Rightarrow> event list" where
  "last_actions n es = take n (filter (is_action \<circ> ev_body) (rev es))"

definition last_observations :: "nat \<Rightarrow> event list \<Rightarrow> event list" where
  "last_observations n es = take n (filter (is_observation \<circ> ev_body) (rev es))"

definition analysis_from :: "string \<Rightarrow> int \<Rightarrow> event list \<Rightarrow> nat \<Rightarrow> event \<Rightarrow> stuck_analysis" where
  "analysis_from typ reps fh off e =
     \<lparr>loop_type = typ, loop_repeat_times = reps, loop_start_idx = int (list_index fh e) + int off\<rparr>"

section \<open>The scenarios\<close>

definition repeating_action_observation :: "event list \<Rightarrow> nat \<Rightarrow> stuck_analysis option" where
  "repeating_action_observation fh off =
     (let acts = last_actions 4 fh; obs = last_observations 4 fh in
      if length acts = 4 \<and> length obs = 4
         \<and> list_all (eq_no_pid (hd acts)) acts \<and> list_all (eq_no_pid (hd obs)) obs
      then Some (analysis_from ''repeating_action_observation'' 4 fh off (last acts)) else None)"

definition ipython_content :: "event \<Rightarrow> string" where
  "ipython_content e = (case ev_body e of Obs (IPythonRunCellObservation r) \<Rightarrow> io_content r | _ \<Rightarrow> [])"

definition content_lines :: "event \<Rightarrow> string list" where
  "content_lines e = py_split nl (py_strip (ipython_content e))"

definition nth_last :: "nat \<Rightarrow> 'a list \<Rightarrow> 'a" where
  \<comment> \<open>\<open>xs[-n]\<close> for \<open>1 <= n <= len(xs)\<close>\<close>
  "nth_last n xs = xs ! (length xs - n)"

definition jupyter_footer :: "string list \<Rightarrow> bool" where
  "jupyter_footer ls =
     (py_startswith (nth_last 1 ls) ''[Jupyter Python interpreter:''
      \<and> py_startswith (nth_last 2 ls) ''[Jupyter current working directory:'')"

definition consistent_invalid_syntax :: "event list \<Rightarrow> string \<Rightarrow> bool" where
  "consistent_invalid_syntax obs msg =
     (if \<exists>e \<in> set obs. length (content_lines e) < 6 \<or> \<not> py_startswith (py_strip (hd (content_lines e))) ''Cell In[1], line''
      then False
      else let valid = filter (\<lambda>e. jupyter_footer (content_lines e) \<and> py_contains (nth_last 3 (content_lines e)) msg) obs
           in all_same (map (\<lambda>e. py_strip (hd (content_lines e))) obs)
              \<and> length valid = 3
              \<and> all_same (map (\<lambda>e. nth_last 3 (content_lines e)) valid))"

definition consistent_line_error :: "event list \<Rightarrow> string \<Rightarrow> bool" where
  "consistent_line_error obs msg =
     (if \<exists>e \<in> set obs. length (content_lines e) < 3 \<or> \<not> jupyter_footer (content_lines e) then False
      else let error_lines = filter (\<lambda>l. py_contains l msg) (map (\<lambda>e. nth_last 3 (content_lines e)) obs)
           in length error_lines = 3 \<and> all_same error_lines)"

definition consistent_syntax_error :: "event list \<Rightarrow> bool" where
  \<comment> \<open>the loop over the messages\<close>
  "consistent_syntax_error obs =
     list_ex (\<lambda>msg. if py_startswith msg ''SyntaxError: unterminated string literal (detected at line''
                    then consistent_line_error obs msg
                    else consistent_invalid_syntax obs msg) SYNTAX_ERROR_MESSAGES"

definition repeating_action_error :: "event list \<Rightarrow> nat \<Rightarrow> stuck_analysis option" where
  "repeating_action_error fh off =
     (let acts = last_actions 4 fh; obs = last_observations 4 fh in
      if length acts < 3 \<or> length obs < 3 then None
      else if list_all (eq_no_pid (hd acts)) (take 3 acts)
        \<and> (list_all (is_error_obs \<circ> ev_body) (take 3 obs)
           \<or> list_all (is_ipython_obs \<circ> ev_body) (take 3 obs) \<and> consistent_syntax_error (take 3 obs))
      then Some (analysis_from ''repeating_action_error'' 3 fh off (last acts)) else None)"

definition monologue :: "event list \<Rightarrow> nat \<Rightarrow> stuck_analysis option" where
  "monologue fh off =
     (let msgs = filter (\<lambda>(i, e). is_agent_message e) (enumerate 0 fh);
          last3 = drop (length msgs - 3) msgs;
          start_index = fst (hd last3);
          end_index = fst (last last3)
      in if 3 \<le> length msgs
            \<and> list_all (\<lambda>(i, e). event_eq (snd (hd last3)) e) last3
            \<and> \<not> list_ex (is_observation \<circ> ev_body) (drop (Suc start_index) (take end_index fh))
         then Some \<lparr>loop_type = ''monologue'', loop_repeat_times = 3, loop_start_idx = int start_index + int off\<rparr>
         else None)"

definition alternating :: "event list \<Rightarrow> bool" where
  \<comment> \<open>over six events\<close>
  "alternating es =
     (eq_no_pid (es ! 0) (es ! 2) \<and> eq_no_pid (es ! 0) (es ! 4)
      \<and> eq_no_pid (es ! 1) (es ! 3) \<and> eq_no_pid (es ! 1) (es ! 5))"

definition action_observation_pattern :: "event list \<Rightarrow> nat \<Rightarrow> stuck_analysis option" where
  "action_observation_pattern fh off =
     (let acts = last_actions 6 fh; obs = last_observations 6 fh in
      if length acts = 6 \<and> length obs = 6 \<and> alternating acts \<and> alternating obs
      then Some (analysis_from ''repeating_action_observation_pattern'' 3 fh off (last acts)) else None)"

definition only_condensations :: "event list \<Rightarrow> nat \<Rightarrow> nat \<Rightarrow> bool" where
  "only_condensations fh a b = list_all (is_condensation_obs \<circ> ev_body) (drop (Suc a) (take b fh))"

definition context_window_error :: "event list \<Rightarrow> nat \<Rightarrow> stuck_analysis option" where
  "context_window_error fh off =
     (let idxs = map fst (filter (\<lambda>(i, e). is_condensation_obs (ev_body e)) (enumerate 0 fh));
          last10 = drop (length idxs - 10) idxs
      in if length idxs < 10 then None
         else map_option (\<lambda>(a, b). \<lparr>loop_type = ''context_window_error'', loop_repeat_times = 2,
                                    loop_start_idx = int a + int off\<rparr>)
                (find (\<lambda>(a, b). only_condensations fh a b) (zip last10 (tl last10))))"

section \<open>The detector\<close>

definition first_some :: "'a option \<Rightarrow> 'a option \<Rightarrow> 'a option" where
  "first_some a b = (case a of Some x \<Rightarrow> Some x | None \<Rightarrow> b)"

definition detect :: "event list \<Rightarrow> nat \<Rightarrow> stuck_analysis option" where
  "detect fh off =
     first_some (repeating_action_observation fh off)
      (first_some (repeating_action_error fh off)
       (first_some (monologue fh off)
        (first_some (if 6 \<le> length fh then action_observation_pattern fh off else None)
         (if 10 \<le> length fh then context_window_error fh off else None))))"

text \<open>The result and the new value of \<open>stuck_analysis\<close>, which a history of fewer than three events leaves alone.\<close>

definition is_stuck :: "bool \<Rightarrow> event list \<Rightarrow> stuck_analysis option \<Rightarrow> bool \<times> stuck_analysis option" where
  "is_stuck headless_mode history analysis =
     (let fh = filtered_history headless_mode history; off = filtered_history_offset headless_mode history in
      if length fh < 3 then (False, analysis)
      else case detect fh off of None \<Rightarrow> (False, None) | Some a \<Rightarrow> (True, Some a))"

end
