(* ===== verification/StuckLaws.thy ===== *)
theory StuckLaws
  imports Stuck
begin

text \<open>
  What the loop detector finds and what it does not: no alarm without a repetition, repetitions are
  found, and where the reported start of the loop lies.
\<close>

section \<open>Facts about the parts\<close>

lemma list_index_member: "e \<in> set es \<Longrightarrow> list_index es e < length es \<and> event_eq (es ! list_index es e) e"
proof -
  assume e: "e \<in> set es"
  then have "takeWhile (\<lambda>x. \<not> event_eq x e) es \<noteq> es" by (auto simp: takeWhile_eq_all_conv intro!: bexI [of _ e])
  then have "list_index es e < length es"
    unfolding list_index_def by (metis length_takeWhile_le nless_le takeWhile_eq_take take_all_iff)
  then show ?thesis unfolding list_index_def using nth_length_takeWhile by blast
qed

lemma index_of_list_index: "e \<in> set es \<Longrightarrow> index_of es e = Some (list_index es e)"
proof -
  assume e: "e \<in> set es"
  have "\<not> event_eq (es ! j) e" if "j < list_index es e" for j
    using that unfolding list_index_def
    by (metis nth_mem set_takeWhileD takeWhile_nth)
  with list_index_member [OF e] show ?thesis by (simp add: index_of_def find_index_Some)
qed

lemma set_last_actions: "e \<in> set (last_actions n es) \<Longrightarrow> e \<in> set es \<and> is_action (ev_body e)"
  by (auto simp: last_actions_def dest: in_set_takeD)

lemma set_last_observations: "e \<in> set (last_observations n es) \<Longrightarrow> e \<in> set es \<and> is_observation (ev_body e)"
  by (auto simp: last_observations_def dest: in_set_takeD)

lemma analysis_in_range:
  "e \<in> set fh \<Longrightarrow> loop_start_idx (analysis_from t k fh off e) < int (length fh + off)
     \<and> int off \<le> loop_start_idx (analysis_from t k fh off e)"
  using list_index_member [of e fh] by (simp add: analysis_from_def)

text \<open>Two of the actions are the same.\<close>

definition repeats :: "event list \<Rightarrow> bool" where
  "repeats es \<longleftrightarrow> (\<exists>i j. i < j \<and> j < length es \<and> eq_no_pid (es ! j) (es ! i))"

lemma repeats_take_rev:
  assumes "i < j" and "j < length (take n (rev es))" and "eq_no_pid (take n (rev es) ! i) (take n (rev es) ! j)"
  shows "repeats es"
proof -
  have "take n (rev es) ! k = es ! (length es - Suc k)" if "k < length (take n (rev es))" for k
    using that by (simp add: rev_nth)
  with assms have "eq_no_pid (es ! (length es - Suc i)) (es ! (length es - Suc j))" by simp
  moreover have "length es - Suc j < length es - Suc i" "length es - Suc i < length es" using assms(1,2) by auto
  ultimately show ?thesis unfolding repeats_def by blast
qed

abbreviation actions_of :: "event list \<Rightarrow> event list" where
  "actions_of es \<equiv> filter (is_action \<circ> ev_body) es"

lemma last_actions_rev: "last_actions n es = take n (rev (actions_of es))"
  by (simp add: last_actions_def rev_filter)

lemma last_actions_repeat:
  "i < j \<Longrightarrow> j < length (last_actions n es) \<Longrightarrow> eq_no_pid (last_actions n es ! i) (last_actions n es ! j) \<Longrightarrow> repeats (actions_of es)"
  unfolding last_actions_rev by (rule repeats_take_rev)

lemma list_all_nth: "list_all P xs \<Longrightarrow> i < length xs \<Longrightarrow> P (xs ! i)"
  by (simp add: list_all_length)

lemma scenario1_repeats: "repeating_action_observation fh off = Some a \<Longrightarrow> repeats (actions_of fh)"
proof -
  assume "repeating_action_observation fh off = Some a"
  then have l: "length (last_actions 4 fh) = 4" "list_all (eq_no_pid (hd (last_actions 4 fh))) (last_actions 4 fh)"
    by (auto simp: repeating_action_observation_def Let_def split: if_splits)
  then have "eq_no_pid (last_actions 4 fh ! 0) (last_actions 4 fh ! 1)"
    using list_all_nth [OF l(2), of 1] by (cases "last_actions 4 fh") auto
  with l(1) show ?thesis by (intro last_actions_repeat [of 0 1 4 fh]) simp_all
qed

lemma scenario2_repeats: "repeating_action_error fh off = Some a \<Longrightarrow> repeats (actions_of fh)"
proof -
  assume "repeating_action_error fh off = Some a"
  then have l: "3 \<le> length (last_actions 4 fh)" "list_all (eq_no_pid (hd (last_actions 4 fh))) (take 3 (last_actions 4 fh))"
    by (auto simp: repeating_action_error_def Let_def split: if_splits)
  then have "eq_no_pid (last_actions 4 fh ! 0) (last_actions 4 fh ! 1)"
    using list_all_nth [OF l(2), of 1] by (cases "last_actions 4 fh") auto
  with l(1) show ?thesis by (intro last_actions_repeat [of 0 1 4 fh]) simp_all
qed

lemma scenario4_repeats: "action_observation_pattern fh off = Some a \<Longrightarrow> repeats (actions_of fh)"
proof -
  assume "action_observation_pattern fh off = Some a"
  then have l: "length (last_actions 6 fh) = 6" "alternating (last_actions 6 fh)"
    by (auto simp: action_observation_pattern_def Let_def split: if_splits)
  then show ?thesis by (intro last_actions_repeat [of 0 2 6 fh]) (simp_all add: alternating_def)
qed

lemma event_eq_message_no_pid: "is_message (ev_body e) \<Longrightarrow> event_eq e e' \<Longrightarrow> eq_no_pid e' e"
proof -
  assume e: "is_message (ev_body e)" "event_eq e e'"
  then have "is_message (ev_body e')" using norm_message by (metis event_eq_def)
  with e event_eq_sym [OF e(2)] show ?thesis
    by (auto simp: eq_no_pid_def is_message_def split: body.splits action.splits)
qed

text \<open>Places in a list as places in the list of its actions.\<close>

lemma repeats_actions_of:
  assumes "i < j" and "j < length es" and "is_action (ev_body (es ! i))" and "is_action (ev_body (es ! j))"
    and "eq_no_pid (es ! j) (es ! i)"
  shows "repeats (actions_of es)"
proof -
  let ?x = "length (actions_of (take i es))" and ?y = "length (actions_of (take j es))"
  have split: "actions_of es = actions_of (take k es) @ es ! k # actions_of (drop (Suc k) es)"
    if "k < length es" "is_action (ev_body (es ! k))" for k
    using that by (subst id_take_nth_drop [OF that(1)]) (simp add: comp_def)
  have x: "actions_of es ! ?x = es ! i" using split [of i] assms by (simp add: nth_append)
  have y: "actions_of es ! ?y = es ! j" using split [of j] assms by (simp add: nth_append)
  have "actions_of (take j es) = actions_of (take i es) @ es ! i # actions_of (drop (Suc i) (take j es))"
  proof -
    have "take j es = take i es @ es ! i # drop (Suc i) (take j es)"
      using assms(1,2) by (subst id_take_nth_drop [of i "take j es"]) auto
    then show ?thesis using assms(3) by (metis (no_types, lifting) comp_apply filter.simps(2) filter_append)
  qed
  then have "?x < ?y" by simp
  moreover have "?y < length (actions_of es)" using split [of j] assms by simp
  ultimately show ?thesis using x y assms(5) unfolding repeats_def by metis
qed

lemma enumerate_filter_sorted: "sorted_wrt (\<lambda>p q. fst p < fst q) (filter P (enumerate 0 xs))"
proof -
  have "sorted_wrt (\<lambda>p q. fst p < fst q) (enumerate 0 xs)"
    by (simp add: sorted_wrt_iff_nth_less nth_enumerate_eq)
  then show ?thesis by (rule sorted_wrt_filter)
qed

lemma enumerate_filter_nth:
  assumes "k < length (filter P (enumerate 0 xs))"
  shows "fst (filter P (enumerate 0 xs) ! k) < length xs \<and>
    snd (filter P (enumerate 0 xs) ! k) = xs ! fst (filter P (enumerate 0 xs) ! k) \<and> P (filter P (enumerate 0 xs) ! k)"
proof -
  have "filter P (enumerate 0 xs) ! k \<in> set (filter P (enumerate 0 xs))" using assms by (rule nth_mem)
  then show ?thesis by (auto simp: in_set_enumerate_eq)
qed

lemma scenario3_repeats: "monologue fh off = Some a \<Longrightarrow> repeats (actions_of fh)"
proof -
  let ?P = "\<lambda>(i :: nat, e). is_agent_message e" and ?msgs = "filter (\<lambda>(i, e). is_agent_message e) (enumerate 0 fh)"
  assume "monologue fh off = Some a"
  then have l: "3 \<le> length ?msgs"
    "list_all (\<lambda>(i, e). event_eq (snd (hd (drop (length ?msgs - 3) ?msgs))) e) (drop (length ?msgs - 3) ?msgs)"
    by (auto simp: monologue_def Let_def split: if_splits)
  let ?i = "length ?msgs - 3"
  have lt: "?i < length ?msgs" "Suc ?i < length ?msgs" using l(1) by auto
  have "event_eq (snd (?msgs ! ?i)) (snd (?msgs ! Suc ?i))"
    using list_all_nth [OF l(2), of 1] l(1) lt by (simp add: hd_drop_conv_nth split_beta)
  moreover have "is_message (ev_body (snd (?msgs ! ?i)))" "is_message (ev_body (snd (?msgs ! Suc ?i)))"
    using enumerate_filter_nth [OF lt(1)] enumerate_filter_nth [OF lt(2)] by (auto simp: split_beta is_agent_message_def)
  moreover have "fst (?msgs ! ?i) < fst (?msgs ! Suc ?i)"
    using sorted_wrt_nth_less [OF enumerate_filter_sorted [of ?P fh], of ?i "Suc ?i"] lt by simp
  ultimately show ?thesis
    using enumerate_filter_nth [OF lt(1)] enumerate_filter_nth [OF lt(2)]
    by (intro repeats_actions_of [of "fst (?msgs ! ?i)" "fst (?msgs ! Suc ?i)"])
      (auto intro: event_eq_message_no_pid is_class_kind)
qed

lemma length_filter_enumerate: "length (filter (\<lambda>p. P (snd p)) (enumerate n xs)) = length (filter P xs)"
  by (induction xs arbitrary: n) simp_all

lemma scenario5_condensations:
  "context_window_error fh off = Some a \<Longrightarrow> 10 \<le> length (filter (is_condensation_obs \<circ> ev_body) fh)"
proof -
  assume "context_window_error fh off = Some a"
  then have "10 \<le> length (filter (\<lambda>(i, e). is_condensation_obs (ev_body e)) (enumerate 0 fh))"
    by (auto simp: context_window_error_def Let_def split: if_splits)
  also have "\<dots> = length (filter (is_condensation_obs \<circ> ev_body) fh)"
    using length_filter_enumerate [of "is_condensation_obs \<circ> ev_body" 0 fh] by (simp add: split_beta')
  finally show ?thesis by simp
qed

text \<open>
  C19. No false alarm: when no two actions of the filtered history are the same (as the detector compares
  them) and it has fewer than ten condensation observations, the agent is not stuck and an old analysis is
  cleared, unless the history is shorter than three events.
\<close>

theorem distinct_actions_never_stuck:
  assumes "\<not> repeats (actions_of (filtered_history headless history))"
    and "length (filter (is_condensation_obs \<circ> ev_body) (filtered_history headless history)) < 10"
  shows "is_stuck headless history analysis =
    (False, if length (filtered_history headless history) < 3 then analysis else None)"
proof -
  let ?fh = "filtered_history headless history" and ?off = "filtered_history_offset headless history"
  have "repeating_action_observation ?fh ?off = None" "repeating_action_error ?fh ?off = None"
    "monologue ?fh ?off = None" "action_observation_pattern ?fh ?off = None"
    using assms(1) scenario1_repeats scenario2_repeats scenario3_repeats scenario4_repeats by (meson not_None_eq)+
  moreover have "context_window_error ?fh ?off = None"
    using assms(2) scenario5_condensations by (meson linorder_not_less not_None_eq)
  ultimately have "detect ?fh ?off = None" by (simp add: detect_def first_some_def)
  then show ?thesis by (simp add: is_stuck_def)
qed

lemma last_actions_append:
  "last_actions n (xs @ ys) = take n (rev (actions_of ys) @ rev (actions_of xs))"
  by (simp add: last_actions_rev)

lemma last_observations_append:
  "last_observations n (xs @ ys) =
     take n (rev (filter (is_observation \<circ> ev_body) ys) @ rev (filter (is_observation \<circ> ev_body) xs))"
  by (simp add: last_observations_def rev_filter)

lemma list_index_le: "i < length es \<Longrightarrow> list_index es (es ! i) \<le> i"
proof (rule ccontr)
  assume i: "i < length es" and "\<not> list_index es (es ! i) \<le> i"
  then have "i < length (takeWhile (\<lambda>x. \<not> event_eq x (es ! i)) es)" by (simp add: list_index_def)
  then have "\<not> event_eq (es ! i) (es ! i)" using nth_mem set_takeWhileD by (metis takeWhile_nth)
  then show False by simp
qed

text \<open>
  Four equal action-observation pairs at the end of the filtered history are always detected, and the
  start of the loop is reported no later than the first of them.
\<close>

theorem four_repeats_detected:
  assumes "filtered_history headless history = pre @ [a1, b1, a2, b2, a3, b3, a4, b4]"
    and "\<forall>a \<in> {a1, a2, a3, a4}. is_action (ev_body a) \<and> eq_no_pid a4 a"
    and "\<forall>b \<in> {b1, b2, b3, b4}. is_observation (ev_body b) \<and> eq_no_pid b4 b"
  shows "\<exists>idx. is_stuck headless history analysis =
      (True, Some \<lparr>loop_type = ''repeating_action_observation'', loop_repeat_times = 4, loop_start_idx = idx\<rparr>)
    \<and> idx \<le> int (filtered_history_offset headless history + length pre)"
proof -
  let ?fh = "filtered_history headless history" and ?off = "filtered_history_offset headless history"
  have a: "last_actions 4 ?fh = [a4, a3, a2, a1]" using assms by (simp add: last_actions_append)
  have b: "last_observations 4 ?fh = [b4, b3, b2, b1]" using assms by (simp add: last_observations_append)
  have "repeating_action_observation ?fh ?off = Some (analysis_from ''repeating_action_observation'' 4 ?fh ?off a1)"
    using assms(2,3) unfolding repeating_action_observation_def a b by simp
  then have "is_stuck headless history analysis = (True, Some (analysis_from ''repeating_action_observation'' 4 ?fh ?off a1))"
    using assms(1) by (simp add: is_stuck_def detect_def first_some_def)
  moreover have "list_index ?fh a1 \<le> length pre"
    using list_index_le [of "length pre" ?fh] assms(1) by simp
  ultimately show ?thesis by (simp add: analysis_from_def)
qed

text \<open>
  A loop of three equal failing actions that follows another action is reported to start at that other
  action or before, at least two events before the loop: the analysis takes the fourth-last action.
\<close>

theorem error_loop_start_too_early:
  assumes "filtered_history headless history = pre @ b # mid @ [a1, e1, a2, e2, a3, e3]"
    and "is_action (ev_body b)" and "\<forall>x \<in> set mid. is_observation (ev_body x)" and "mid \<noteq> []"
    and "\<forall>a \<in> {a1, a2, a3}. is_action (ev_body a) \<and> eq_no_pid a3 a"
    and "\<forall>e \<in> {e1, e2, e3}. is_error_obs (ev_body e)" and "\<not> eq_no_pid a3 b"
  shows "\<exists>idx. is_stuck headless history analysis =
      (True, Some \<lparr>loop_type = ''repeating_action_error'', loop_repeat_times = 3, loop_start_idx = idx\<rparr>)
    \<and> idx \<le> int (filtered_history_offset headless history + length pre)
    \<and> idx + 2 \<le> int (filtered_history_offset headless history + length (pre @ b # mid))"
proof -
  let ?fh = "filtered_history headless history" and ?off = "filtered_history_offset headless history"
  have eo: "\<not> is_action (ev_body e1)" "\<not> is_action (ev_body e2)" "\<not> is_action (ev_body e3)"
    using assms(6) is_class_kind(4) by auto
  have "actions_of mid = []" "filter (is_observation \<circ> ev_body) mid = mid"
    using assms(3) by (auto simp: filter_empty_conv filter_id_conv)
  then have a: "last_actions 4 ?fh = [a3, a2, a1, b]"
    and b: "take 3 (last_observations 4 ?fh) = [e3, e2, e1]" "3 \<le> length (last_observations 4 ?fh)"
    using assms(1,2,5) eo
    by (simp_all add: last_actions_append [of _ pre] last_observations_append [of _ pre])
  have 1: "repeating_action_observation ?fh ?off = None"
    using assms(7) unfolding repeating_action_observation_def a Let_def by simp
  have 2: "repeating_action_error ?fh ?off = Some (analysis_from ''repeating_action_error'' 3 ?fh ?off b)"
    using assms(5,6) b unfolding repeating_action_error_def a Let_def by (simp add: b(1))
  have detect_some: "detect ?fh ?off = Some (analysis_from ''repeating_action_error'' 3 ?fh ?off b)"
    by (simp add: detect_def first_some_def 1 2)
  have "\<not> length ?fh < 3" using assms(1) by simp
  then have "is_stuck headless history analysis = (True, Some (analysis_from ''repeating_action_error'' 3 ?fh ?off b))"
    by (simp add: is_stuck_def Let_def detect_some)
  moreover have "list_index ?fh b \<le> length pre"
    using list_index_le [of "length pre" ?fh] assms(1) by simp
  moreover have "1 \<le> length mid" using assms(4) by (cases mid) auto
  ultimately show ?thesis by (simp add: analysis_from_def)
qed

section \<open>Examples\<close>

definition think :: "string \<Rightarrow> event" where "think s = new_action (AgentThinkAction s)"
definition condensed_obs :: event where "condensed_obs = new_obs (AgentCondensationObservation [])"
definition failed_obs :: event where "failed_obs = new_obs (ErrorObservation [] [])"
definition done_obs :: event where "done_obs = new_obs (AgentThinkObservation [])"

text \<open>
  The scenario for context window errors fires on ten condensation observations of which only two are
  adjacent, with a different action between all the others, although its documentation asks for
  repeated observations without any other events between them.
\<close>

theorem context_window_needs_one_adjacent_pair:
  "is_stuck True (condensed_obs # condensed_obs # concat (map (\<lambda>c. [think [c], condensed_obs]) ''abcdefgh'')) None
     = (True, Some \<lparr>loop_type = ''context_window_error'', loop_repeat_times = 2, loop_start_idx = 0\<rparr>)"
  by code_simp

theorem distinct_actions_never_stuck_witness:
  "is_stuck True [think ''a'', done_obs, think ''b'', done_obs, think ''c'', done_obs, think ''d'', done_obs] None = (False, None)"
proof -
  let ?h = "[think ''a'', done_obs, think ''b'', done_obs, think ''c'', done_obs, think ''d'', done_obs]"
  have fh: "filtered_history True ?h = ?h" by code_simp
  have "\<not> repeats [think ''a'', think ''b'', think ''c'', think ''d'']"
    by (auto simp: repeats_def less_Suc_eq think_def new_action_def eq_no_pid_def event_eq_def)
  moreover have "actions_of ?h = [think ''a'', think ''b'', think ''c'', think ''d'']" by code_simp
  moreover have "length (filter (is_condensation_obs \<circ> ev_body) ?h) < 10" by code_simp
  ultimately show ?thesis
    using distinct_actions_never_stuck [of True ?h None] by (simp add: fh)
qed

theorem four_repeats_detected_witness:
  "\<exists>idx. is_stuck True [think ''x'', done_obs, think ''a'', done_obs, think ''a'', done_obs, think ''a'', done_obs, think ''a'', done_obs] None
     = (True, Some \<lparr>loop_type = ''repeating_action_observation'', loop_repeat_times = 4, loop_start_idx = idx\<rparr>) \<and> idx \<le> 2"
proof -
  let ?h = "[think ''x'', done_obs, think ''a'', done_obs, think ''a'', done_obs, think ''a'', done_obs, think ''a'', done_obs]"
  have fh: "filtered_history True ?h = [think ''x'', done_obs] @ [think ''a'', done_obs, think ''a'', done_obs, think ''a'', done_obs, think ''a'', done_obs]"
    by code_simp
  have a: "is_action (ev_body (think ''a'')) \<and> eq_no_pid (think ''a'') (think ''a'')"
    and b: "is_observation (ev_body done_obs) \<and> eq_no_pid done_obs done_obs" by code_simp+
  show ?thesis
    using four_repeats_detected [OF fh, of None] a b by (simp add: filtered_history_offset_def)
qed

theorem error_loop_start_too_early_witness:
  "\<exists>idx. is_stuck True [think ''x'', done_obs, think ''a'', failed_obs, think ''a'', failed_obs, think ''a'', failed_obs] None
     = (True, Some \<lparr>loop_type = ''repeating_action_error'', loop_repeat_times = 3, loop_start_idx = idx\<rparr>) \<and> idx \<le> 0"
proof -
  let ?h = "[think ''x'', done_obs, think ''a'', failed_obs, think ''a'', failed_obs, think ''a'', failed_obs]"
  have fh: "filtered_history True ?h = [] @ think ''x'' # [done_obs] @ [think ''a'', failed_obs, think ''a'', failed_obs, think ''a'', failed_obs]"
    by code_simp
  have f: "is_action (ev_body (think ''x''))" "is_action (ev_body (think ''a'')) \<and> eq_no_pid (think ''a'') (think ''a'')"
    "is_error_obs (ev_body failed_obs)" "is_observation (ev_body done_obs)" "\<not> eq_no_pid (think ''a'') (think ''x'')"
    by code_simp+
  show ?thesis
    using error_loop_start_too_early [OF fh, of None] f by (simp add: filtered_history_offset_def)
qed

end
