(* ===== verification/FileStore.thy ===== *)
theory FileStore
  imports Prelude
begin

text \<open>
  The storage interface (\<open>openhands/storage/files.py\<close>), its in-memory implementation
  (\<open>openhands/storage/memory.py\<close>) and the names of a conversation's files
  (\<open>openhands/storage/locations.py\<close>). The interface is the locale \<open>file_store\<close>: what its clients
  rely on. The type of contents is a parameter; the clients store parsed documents.
\<close>

section \<open>Locations\<close>

definition get_conversation_dir :: "string \<Rightarrow> string option \<Rightarrow> string" where
  "get_conversation_dir sid user_id =
     (case user_id of
        Some (c # u) \<Rightarrow> ''users/'' @ (c # u) @ ''/conversations/'' @ sid @ ''/''
      | _ \<Rightarrow> ''sessions/'' @ sid @ ''/'')"

definition get_conversation_events_dir :: "string \<Rightarrow> string option \<Rightarrow> string" where
  "get_conversation_events_dir sid user_id = get_conversation_dir sid user_id @ ''events/''"

definition get_conversation_event_filename :: "string \<Rightarrow> int \<Rightarrow> string option \<Rightarrow> string" where
  "get_conversation_event_filename sid i user_id = get_conversation_events_dir sid user_id @ str_of_int i @ ''.json''"

definition event_cache_filename :: "string \<Rightarrow> string option \<Rightarrow> int \<Rightarrow> int \<Rightarrow> string" where
  \<comment> \<open>\<open>EventStore._get_filename_for_cache\<close>\<close>
  "event_cache_filename sid user_id a b =
     get_conversation_dir sid user_id @ ''event_cache/'' @ str_of_int a @ ''-'' @ str_of_int b @ ''.json''"

lemma event_filename_inject [simp]:
  "get_conversation_event_filename sid i u = get_conversation_event_filename sid j u \<longleftrightarrow> i = j"
  by (simp add: get_conversation_event_filename_def)

lemma event_filename_not_cache [simp]:
  "get_conversation_event_filename sid i u \<noteq> event_cache_filename sid u a b"
  by (simp add: get_conversation_event_filename_def event_cache_filename_def get_conversation_events_dir_def)

lemma takeWhile_stop: "c \<notin> set xs \<Longrightarrow> takeWhile (\<lambda>x. x \<noteq> c) (xs @ c # ys) = xs"
  by (induction xs) auto

lemma str_of_int_tl: "CHR ''-'' \<notin> set (tl (str_of_int a))"
proof -
  have "CHR ''-'' \<notin> set (str_of_nat n)" for n
    using str_of_nat_notin [of "CHR ''-''" n] by simp
  then show ?thesis
    by (auto simp: str_of_int_def dest: list.set_sel(2) [rotated] split: if_splits)
qed

lemma str_of_int_nonempty [simp]: "str_of_int a \<noteq> []"
  by (simp add: str_of_int_def)

lemma str_of_int_dash:
  "str_of_int a @ CHR ''-'' # x = str_of_int a' @ CHR ''-'' # x' \<longleftrightarrow> a = a' \<and> x = x'"
proof
  assume eq: "str_of_int a @ CHR ''-'' # x = str_of_int a' @ CHR ''-'' # x'"
  have tw: "takeWhile (\<lambda>c. c \<noteq> CHR ''-'') (tl (str_of_int b @ CHR ''-'' # y)) = tl (str_of_int b)" for b y
    using str_of_int_tl [of b] by (cases "str_of_int b") (auto simp: takeWhile_stop)
  have hd: "hd (str_of_int b @ CHR ''-'' # y) = hd (str_of_int b)" for b y
    by (cases "str_of_int b") (simp_all add: str_of_int_def split: if_splits)
  have "hd (str_of_int a) = hd (str_of_int a')" "tl (str_of_int a) = tl (str_of_int a')"
    using tw [of a x] tw [of a' x'] hd [of a x] hd [of a' x'] eq by simp_all
  then have "str_of_int a = str_of_int a'"
    by (metis list.expand str_of_int_nonempty)
  with eq show "a = a' \<and> x = x'" by simp
qed simp

lemma cache_filename_inject [simp]:
  "event_cache_filename sid u a b = event_cache_filename sid u a' b' \<longleftrightarrow> a = a' \<and> b = b'"
  using str_of_int_dash [of a "str_of_int b @ ''.json''" a' "str_of_int b' @ ''.json''"]
  by (auto simp: event_cache_filename_def)

section \<open>The in-memory store\<close>

type_synonym 'c mem_store = "(string \<times> 'c) list"

definition mem_write :: "string \<Rightarrow> 'c \<Rightarrow> 'c mem_store \<Rightarrow> 'c mem_store" where
  "mem_write path contents s = AList.update path contents s"

definition mem_read :: "'c mem_store \<Rightarrow> string \<Rightarrow> 'c res" where
  "mem_read s path = (case map_of s path of None \<Rightarrow> Inl FileNotFoundError | Some c \<Rightarrow> Inr c)"

definition path_join :: "string \<Rightarrow> string \<Rightarrow> string" where
  \<comment> \<open>\<open>os.path.join(p, q)\<close> for a \<open>q\<close> that does not start with a slash\<close>
  "path_join p q = (if p = [] \<or> last p = CHR ''/'' then p @ q else p @ ''/'' @ q)"

text \<open>
  \<open>list\<close>: the files directly under the path, and a name with a trailing slash for each deeper part.
  A file whose whole name is the path leaves no part, and \<open>parts[0]\<close> raises.
\<close>

datatype list_entry = Skip | Direct | Under string | NoPart

definition mem_list_entry :: "string \<Rightarrow> string \<Rightarrow> list_entry" where
  "mem_list_entry path nm =
     (if \<not> py_startswith nm path then Skip
      else let parts = py_split (CHR ''/'') (py_removeprefix nm path);
               parts = (if hd parts = [] then tl parts else parts)
           in (case parts of
                 [] \<Rightarrow> NoPart
               | [_] \<Rightarrow> Direct
               | part # _ \<Rightarrow>
                   let dir_path = path_join path part
                   in Under (if py_endswith dir_path ''/'' then dir_path else dir_path @ ''/'')))"

fun mem_list_loop :: "string \<Rightarrow> string list \<Rightarrow> string list \<Rightarrow> string list res" where
  "mem_list_loop path files [] = Inr files"
| "mem_list_loop path files (nm # rest) =
     (case mem_list_entry path nm of
        Skip \<Rightarrow> mem_list_loop path files rest
      | NoPart \<Rightarrow> Inl IndexError
      | Direct \<Rightarrow> mem_list_loop path (files @ [nm]) rest
      | Under d \<Rightarrow> mem_list_loop path (if d \<in> set files then files else files @ [d]) rest)"

definition mem_list :: "'c mem_store \<Rightarrow> string \<Rightarrow> string list res" where
  "mem_list s path = mem_list_loop path [] (map fst s)"

definition mem_delete :: "string \<Rightarrow> 'c mem_store \<Rightarrow> 'c mem_store" where
  \<comment> \<open>every key that starts with the path goes\<close>
  "mem_delete path s = filter (\<lambda>(k, _). \<not> py_startswith k path) s"

section \<open>The interface\<close>

text \<open>
  What the event store relies on: a file reads as it was last written, other files are untouched, and
  listing a directory (a path that ends in a slash) names every file directly in it; whatever else
  it names is a subdirectory, with a trailing slash.
\<close>

locale file_store =
  fixes wr :: "string \<Rightarrow> 'c \<Rightarrow> 's \<Rightarrow> 's"
    and rd :: "'s \<Rightarrow> string \<Rightarrow> 'c res"
    and ls :: "'s \<Rightarrow> string \<Rightarrow> string list res"
  assumes read_write: "rd (wr p c s) q = (if q = p then Inr c else rd s q)"
    and read_missing: "rd s p = Inl e \<Longrightarrow> e = FileNotFoundError"
    and list_total: "rd s (d @ ''/'') = Inl FileNotFoundError \<Longrightarrow>
        ls s (d @ ''/'') = Inl FileNotFoundError \<or> (\<exists>names. ls s (d @ ''/'') = Inr names)"
    and list_complete: "ls s (d @ ''/'') = Inr names \<Longrightarrow> rd s (d @ ''/'' @ f) = Inr c \<Longrightarrow> f \<noteq> [] \<Longrightarrow>
        CHR ''/'' \<notin> set f \<Longrightarrow> d @ ''/'' @ f \<in> set names"
    and list_missing: "ls s (d @ ''/'') = Inl FileNotFoundError \<Longrightarrow> rd s (d @ ''/'' @ f) = Inl FileNotFoundError"
    and list_sound: "ls s (d @ ''/'') = Inr names \<Longrightarrow> n \<in> set names \<Longrightarrow>
        (\<exists>f c. n = d @ ''/'' @ f \<and> rd s n = Inr c) \<or> py_endswith n ''/''"
begin

lemma read_same [simp]: "rd (wr p c s) p = Inr c"
  by (simp add: read_write)

lemma read_other [simp]: "q \<noteq> p \<Longrightarrow> rd (wr p c s) q = rd s q"
  by (simp add: read_write)

lemma write_write: "rd (wr p c (wr p c' s)) q = rd (wr p c s) q"
  by (simp add: read_write)

lemma write_commute: "p \<noteq> p' \<Longrightarrow> rd (wr p c (wr p' c' s)) q = rd (wr p' c' (wr p c s)) q"
  by (auto simp: read_write)

end

section \<open>The in-memory store is a store\<close>

lemma mem_read_write: "mem_read (mem_write p c s) q = (if q = p then Inr c else mem_read s q)"
  by (simp add: mem_read_def mem_write_def update_conv')

lemma py_startswith_append: "py_startswith nm path \<longleftrightarrow> (\<exists>f. nm = path @ f)"
  by (auto simp: py_startswith_def) (metis append_take_drop_id)

lemma py_removeprefix_append [simp]: "py_removeprefix (p @ f) p = f"
  by (simp add: py_removeprefix_def py_startswith_def)

lemma mem_list_entry_NoPart: "mem_list_entry path nm = NoPart \<Longrightarrow> nm = path"
proof -
  assume e: "mem_list_entry path nm = NoPart"
  then obtain f where f: "nm = path @ f"
    by (auto simp: mem_list_entry_def py_startswith_append split: if_splits)
  obtain p ps where ps: "py_split (CHR ''/'') f = p # ps"
    by (cases "py_split (CHR ''/'') f") auto
  with e f have "p = []" "ps = []"
    by (auto simp: mem_list_entry_def Let_def split: if_splits list.splits)
  with ps py_join_split [of "CHR ''/''" f] f show "nm = path" by simp
qed

lemma mem_list_entry_Direct: "mem_list_entry path nm = Direct \<Longrightarrow> py_startswith nm path"
  by (auto simp: mem_list_entry_def split: if_splits)

lemma mem_list_entry_Under: "mem_list_entry path nm = Under d \<Longrightarrow> py_endswith d ''/''"
proof -
  have "py_endswith (s @ ''/'') ''/''" for s by (simp add: py_endswith_def)
  then show "mem_list_entry path nm = Under d \<Longrightarrow> py_endswith d ''/''"
    by (auto simp: mem_list_entry_def Let_def split: if_splits list.splits)
qed

lemma mem_list_entry_file: "f \<noteq> [] \<Longrightarrow> CHR ''/'' \<notin> set f \<Longrightarrow> mem_list_entry path (path @ f) = Direct"
  by (simp add: mem_list_entry_def py_startswith_def py_split_single)

lemma mem_list_loop_error: "mem_list_loop path acc fs = Inl e \<Longrightarrow> e = IndexError \<and> path \<in> set fs"
  by (induction fs arbitrary: acc) (auto dest: mem_list_entry_NoPart split: list_entry.splits if_splits)

lemma mem_list_loop_keep: "mem_list_loop path acc fs = Inr names \<Longrightarrow> x \<in> set acc \<Longrightarrow> x \<in> set names"
  by (induction fs arbitrary: acc) (auto split: list_entry.splits)

lemma mem_list_loop_complete:
  "mem_list_loop path acc fs = Inr names \<Longrightarrow> path @ f \<in> set fs \<Longrightarrow> f \<noteq> [] \<Longrightarrow> CHR ''/'' \<notin> set f \<Longrightarrow> path @ f \<in> set names"
proof (induction fs arbitrary: acc)
  case (Cons nm rest)
  show ?case
  proof (cases "nm = path @ f")
    case True
    with Cons.prems have "mem_list_loop path (acc @ [nm]) rest = Inr names"
      by (simp add: mem_list_entry_file)
    from mem_list_loop_keep [OF this] True show ?thesis by simp
  next
    case False
    with Cons show ?thesis by (auto split: list_entry.splits)
  qed
qed simp

lemma mem_list_loop_sound:
  "mem_list_loop path acc fs = Inr names \<Longrightarrow> n \<in> set names \<Longrightarrow>
     n \<in> set acc \<or> n \<in> set fs \<and> py_startswith n path \<or> py_endswith n ''/''"
proof (induction fs arbitrary: acc)
  case (Cons nm rest)
  show ?case
  proof (cases "mem_list_entry path nm")
    case (Under d)
    with Cons.IH [of "if d \<in> set acc then acc else acc @ [d]"] Cons.prems mem_list_entry_Under [OF Under]
    show ?thesis by (auto split: if_splits)
  next
    case Direct
    with Cons.IH [of "acc @ [nm]"] Cons.prems mem_list_entry_Direct [OF Direct] show ?thesis by auto
  qed (use Cons in auto)
qed simp

interpretation mem: file_store mem_write mem_read mem_list
proof
  fix s :: "'c mem_store" and d names f n and c :: 'c and e
  show "mem_read (mem_write p c s) q = (if q = p then Inr c else mem_read s q)" for p q
    by (rule mem_read_write)
  show "mem_read s p = Inl e \<Longrightarrow> e = FileNotFoundError" for p
    by (simp add: mem_read_def split: option.splits)
  show "mem_list s (d @ ''/'') = Inl FileNotFoundError \<or> (\<exists>names. mem_list s (d @ ''/'') = Inr names)"
    if "mem_read s (d @ ''/'') = Inl FileNotFoundError"
  proof (cases "mem_list s (d @ ''/'')")
    case (Inl e)
    then have "d @ ''/'' \<in> set (map fst s)" using mem_list_loop_error by (fastforce simp: mem_list_def)
    with that show ?thesis by (auto simp: mem_read_def map_of_eq_None_iff split: option.splits)
  qed simp
  show "mem_list s (d @ ''/'') = Inl FileNotFoundError \<Longrightarrow> mem_read s (d @ ''/'' @ f) = Inl FileNotFoundError"
    using mem_list_loop_error by (fastforce simp: mem_list_def)
  show "d @ ''/'' @ f \<in> set names"
    if "mem_list s (d @ ''/'') = Inr names" "mem_read s (d @ ''/'' @ f) = Inr c" "f \<noteq> []" "CHR ''/'' \<notin> set f"
  proof -
    have "(d @ ''/'') @ f \<in> set (map fst s)"
      using that(2) by (auto simp: mem_read_def split: option.splits dest!: map_of_SomeD intro: rev_image_eqI)
    from mem_list_loop_complete [OF that(1) [unfolded mem_list_def] this that(3,4)] show ?thesis by simp
  qed
  show "(\<exists>f c. n = d @ ''/'' @ f \<and> mem_read s n = Inr c) \<or> py_endswith n ''/''"
    if "mem_list s (d @ ''/'') = Inr names" "n \<in> set names"
  proof -
    have "n \<in> fst ` set s \<and> py_startswith n (d @ ''/'') \<or> py_endswith n ''/''"
      using mem_list_loop_sound [OF that(1) [unfolded mem_list_def] that(2)] by simp
    then consider "n \<in> fst ` set s" "py_startswith n (d @ ''/'')" | "py_endswith n ''/''"
      by blast
    then show ?thesis
    proof cases
      case 1
      then have "\<exists>c. mem_read s n = Inr c"
        by (cases "map_of s n") (auto simp: mem_read_def map_of_eq_None_iff)
      moreover from 1 have "\<exists>f. n = d @ ''/'' @ f" by (simp add: py_startswith_append)
      ultimately show ?thesis by blast
    qed simp
  qed
qed

text \<open>Deleting takes away exactly the names that start with the path.\<close>

lemma mem_read_delete: "mem_read (mem_delete p s) q = (if py_startswith q p then Inl FileNotFoundError else mem_read s q)"
proof -
  have "map_of (filter (\<lambda>(k, _). \<not> py_startswith k p) s) q = (if py_startswith q p then None else map_of s q)"
    by (induction s) auto
  then show ?thesis by (simp add: mem_read_def mem_delete_def)
qed

end
