(* ===== verification/State.thy ===== *)
theory State
  imports View ControlFlags FileStore Stuck
begin

text \<open>
  The running state of an agent (\<open>openhands/controller/state/state.py\<close>): its history, the view of
  it, the limits and metrics, and how it is saved to and restored from a session.

  The two control flags, the metrics and the statistics are objects that a delegate's state shares
  with its parent's: they are the record \<open>shared\<close> beside the record \<open>state\<close> of one controller. The cached view and the length it
  was computed for are fields of the state, as \<open>_view\<close> and \<open>_history_checksum\<close> are attributes of it. Pickling
  and base64 are the identity on the object that \<open>__getstate__\<close> returns; pickles of older versions are left out.
\<close>

definition RESUMABLE_STATES :: "agent_state list" where
  "RESUMABLE_STATES = [RUNNING, PAUSED, AWAITING_USER_INPUT, FINISHED]"

record shared =
  sh_iteration_flag :: iteration_flag
  sh_budget_flag :: "budget_flag option"
  sh_conversation_stats :: "conversation_stats option"
  sh_metrics :: metrics

record state =
  s_session_id :: string
  s_user_id :: "string option"
  s_confirmation_mode :: bool
  s_history :: "event list"
  s_inputs :: dict
  s_outputs :: dict
  s_agent_state :: agent_state
  s_resume_state :: "agent_state option"
  s_delegate_level :: int
  s_start_id :: int
  s_end_id :: int
  s_parent_metrics_snapshot :: "metrics option"
  s_parent_iteration :: int
  s_extra_data :: dict
  s_last_error :: string
  s_history_checksum :: int
  s_view :: view

text \<open>The defaults of the dataclass; a checksum of \<open>-1\<close> is the missing attribute.\<close>

definition new_state :: "string \<Rightarrow> string option \<Rightarrow> state" where
  "new_state session_id user_id =
     \<lparr>s_session_id = session_id, s_user_id = user_id, s_confirmation_mode = False, s_history = [],
      s_inputs = [], s_outputs = [], s_agent_state = LOADING, s_resume_state = None, s_delegate_level = 0,
      s_start_id = -1, s_end_id = -1, s_parent_metrics_snapshot = None, s_parent_iteration = 100,
      s_extra_data = [], s_last_error = [], s_history_checksum = -1, s_view = empty_view\<rparr>"

section \<open>Saving and restoring\<close>

definition get_conversation_agent_state_filename :: "string \<Rightarrow> string option \<Rightarrow> string" where
  "get_conversation_agent_state_filename sid user_id = get_conversation_dir sid user_id @ ''agent_state.pkl''"

type_synonym saved_state = "state \<times> shared"

definition getstate :: "state \<Rightarrow> state" where
  "getstate s = s\<lparr>s_history := [], s_history_checksum := -1, s_view := empty_view\<rparr>"

definition truthy :: "string option \<Rightarrow> bool" where
  "truthy x = (x \<noteq> None \<and> x \<noteq> Some [])"

definition save_to_session ::
  "(string \<Rightarrow> saved_state \<Rightarrow> 's \<Rightarrow> 's) \<Rightarrow> (string \<Rightarrow> 's \<Rightarrow> 's) \<Rightarrow> string \<Rightarrow> string option \<Rightarrow> state \<Rightarrow> shared \<Rightarrow> 's \<Rightarrow> 's" where
  "save_to_session wr del sid user_id s sh files =
     (let files = wr (get_conversation_agent_state_filename sid user_id)
                     (getstate s, sh\<lparr>sh_conversation_stats := None\<rparr>) files
      in if truthy user_id then del (get_conversation_agent_state_filename sid None) files else files)"

definition restored :: "saved_state \<Rightarrow> saved_state" where
  \<comment> \<open>what follows the unpickling\<close>
  "restored p =
     (let s = fst p in
      (s\<lparr>s_resume_state := if s_agent_state s \<in> set RESUMABLE_STATES then Some (s_agent_state s) else None,
         s_agent_state := LOADING\<rparr>, snd p))"

definition restore_from_session ::
  "('s \<Rightarrow> string \<Rightarrow> saved_state res) \<Rightarrow> string \<Rightarrow> string option \<Rightarrow> 's \<Rightarrow> saved_state res" where
  "restore_from_session rd sid user_id files =
     (case rd files (get_conversation_agent_state_filename sid user_id) of
        Inr p \<Rightarrow> Inr (restored p)
      | Inl FileNotFoundError \<Rightarrow>
          (if truthy user_id
           then bind_res (rd files (get_conversation_agent_state_filename sid None)) (\<lambda>p. Inr (restored p))
           else Inl FileNotFoundError)
      | Inl err \<Rightarrow> Inl err)"

section \<open>The view\<close>

text \<open>The property \<open>view\<close> recomputes when the length of the history is not the one it remembers.\<close>

definition state_view :: "state \<Rightarrow> state \<times> view res" where
  "state_view s =
     (let n = int (length (s_history s)) in
      if n \<noteq> s_history_checksum s
      then let s = s\<lparr>s_history_checksum := n\<rparr>
           in (case from_events (s_history s) of
                 Inl err \<Rightarrow> (s, Inl err)
               | Inr v \<Rightarrow> (s\<lparr>s_view := v\<rparr>, Inr v))
      else (s, Inr (s_view s)))"

fun user_intent :: "event list \<Rightarrow> string option \<times> string list option \<Rightarrow> string option \<times> string list option" where
  \<comment> \<open>the loop over the reversed view\<close>
  "user_intent [] acc = acc"
| "user_intent (e # es) (last_user_message, image_urls) =
     (case ev_body e of
        Act (MessageAction r) \<Rightarrow>
          (if ev_source e = Some USER then user_intent es (Some (ma_content r), ma_image_urls r)
           else user_intent es (last_user_message, image_urls))
      | Act (AgentFinishAction f outs t) \<Rightarrow>
          (if last_user_message \<noteq> None then (last_user_message, None)
           else user_intent es (last_user_message, image_urls))
      | _ \<Rightarrow> user_intent es (last_user_message, image_urls))"

definition get_current_user_intent :: "state \<Rightarrow> state \<times> (string option \<times> string list option) res" where
  "get_current_user_intent s =
     (case state_view s of (s, r) \<Rightarrow> (s, bind_res r (\<lambda>v. Inr (user_intent (rev (vw_events v)) (None, Some [])))))"

definition get_last_agent_message :: "state \<Rightarrow> state \<times> event option res" where
  "get_last_agent_message s =
     (case state_view s of (s, r) \<Rightarrow> (s, bind_res r (\<lambda>v. Inr (find is_agent_message (rev (vw_events v))))))"

definition get_last_user_message :: "state \<Rightarrow> state \<times> event option res" where
  "get_last_user_message s =
     (case state_view s of (s, r) \<Rightarrow> (s, bind_res r (\<lambda>v. Inr (find is_user_message (rev (vw_events v))))))"

section \<open>Local counts\<close>

definition get_local_step :: "state \<Rightarrow> shared \<Rightarrow> int" where
  "get_local_step s sh =
     (if s_parent_iteration s = 0 then current_value (sh_iteration_flag sh)
      else current_value (sh_iteration_flag sh) - s_parent_iteration s)"

definition get_local_metrics :: "state \<Rightarrow> shared \<Rightarrow> metrics" where
  "get_local_metrics s sh =
     (case s_parent_metrics_snapshot s of
        None \<Rightarrow> sh_metrics sh
      | Some snapshot \<Rightarrow> diff_metrics (sh_metrics sh) snapshot)"

section \<open>The cached view\<close>

text \<open>
  The cache is right as long as the history has only grown since it was filled: what it remembers is
  the view of a prefix of the history.
\<close>

definition cache_ok :: "state \<Rightarrow> bool" where
  "cache_ok s \<longleftrightarrow> s_history_checksum s = -1
     \<or> (\<exists>n \<le> length (s_history s). s_history_checksum s = int n \<and> from_events (take n (s_history s)) = Inr (s_view s))"

lemma cache_ok_new [simp]: "cache_ok (new_state sid u)"
  by (simp add: cache_ok_def new_state_def)

lemma cache_ok_append: "cache_ok s \<Longrightarrow> cache_ok (s\<lparr>s_history := s_history s @ es\<rparr>)"
  by (auto simp: cache_ok_def)

text \<open>
  C20. On a history that has only grown since the cache was filled, reading the view gives the view of the whole
  history, and leaves a cache that is right for every longer history.
\<close>

theorem view_of_grown_history:
  assumes "cache_ok s" and "condensations_ok (s_history s)"
  shows "\<exists>v s'. from_events (s_history s) = Inr v \<and> state_view s = (s', Inr v)
    \<and> s_history s' = s_history s \<and> cache_ok (s'\<lparr>s_history := s_history s @ es\<rparr>)"
proof -
  obtain v where v: "from_events (s_history s) = Inr v" using from_events_total [OF assms(2)] by blast
  show ?thesis
  proof (cases "s_history_checksum s = int (length (s_history s))")
    case True
    then have "s_view s = v" using assms(1) v by (auto simp: cache_ok_def)
    with True v show ?thesis using cache_ok_append [OF assms(1)] by (simp add: state_view_def)
  next
    case False
    with v show ?thesis by (auto simp: state_view_def Let_def cache_ok_def)
  qed
qed

text \<open>
  The cache is not refreshed when the history was cut and has grown to its old length: the view of the
  old events is returned for the new ones, whatever they are.
\<close>

theorem stale_view_at_same_length:
  assumes "state_view s = (s', Inr v)" and "length h = length (s_history s)"
  shows "snd (state_view (s'\<lparr>s_history := h\<rparr>)) = Inr v"
  using assms by (auto simp: state_view_def Let_def split: if_splits sum.splits)

section \<open>The user's intent\<close>

definition said :: "event \<Rightarrow> string option \<times> string list option" where
  "said e = (case ev_body e of Act (MessageAction r) \<Rightarrow> (Some (ma_content r), ma_image_urls r) | _ \<Rightarrow> (None, None))"

lemma user_intent_Cons:
  "user_intent (e # es) (m, urls) =
     (if is_user_message e then user_intent es (said e)
      else if is_finish (ev_body e) \<and> m \<noteq> None then (m, None)
      else user_intent es (m, urls))"
  by (auto simp: said_def is_user_message_def isinst split: body.splits action.splits)

lemma user_intent_no_finish:
  assumes "\<forall>e \<in> set es. \<not> is_finish (ev_body e)"
  shows "user_intent (rev es @ rest) acc =
    user_intent rest (case find is_user_message es of None \<Rightarrow> acc | Some m \<Rightarrow> said m)"
  using assms
proof (induction es arbitrary: rest)
  case (Cons e es)
  obtain m urls where acc: "(case find is_user_message es of None \<Rightarrow> acc | Some m \<Rightarrow> said m) = (m, urls)"
    by (metis surj_pair)
  have "user_intent (rev (e # es) @ rest) acc = user_intent (e # rest) (m, urls)"
    using Cons acc by simp
  also have "\<dots> = user_intent rest (case find is_user_message (e # es) of None \<Rightarrow> acc | Some m \<Rightarrow> said m)"
    using Cons.prems acc by (simp add: user_intent_Cons del: user_intent.simps)
  finally show ?case .
qed simp

lemma said_user: "is_user_message e \<Longrightarrow> fst (said e) \<noteq> None"
  by (auto simp: said_def is_user_message_def isinst split: body.splits action.splits)

text \<open>
  The intent is the first user message after the last finish action, without its images; it is the
  first user message with its images when nothing was finished. It is not the latest message, which the documentation of
  the function promises.
\<close>

theorem intent_is_first_message_after_finish:
  assumes "\<forall>e \<in> set post. \<not> is_finish (ev_body e)" and "find is_user_message post = Some m"
    and "pre = [] \<or> is_finish (ev_body (last pre))" and "from_events (s_history s) = Inr v"
    and "vw_events v = pre @ post" and "s_history_checksum s = -1"
  shows "snd (get_current_user_intent s) = Inr (if pre = [] then said m else (fst (said m), None))"
proof -
  have view: "snd (state_view s) = Inr v" using assms(4,6) by (simp add: state_view_def Let_def)
  have "user_intent (rev (pre @ post)) (None, Some []) = user_intent (rev pre) (said m)"
    using user_intent_no_finish [OF assms(1), of "rev pre"] assms(2) by simp
  also have "\<dots> = (if pre = [] then said m else (fst (said m), None))"
  proof (cases "pre = []")
    case False
    then have p: "rev pre = last pre # rev (butlast pre)" by (cases pre rule: rev_cases) auto
    have f: "is_finish (ev_body (last pre))" using False assms(3) by simp
    then have "\<not> is_user_message (last pre)"
      by (auto simp: is_user_message_def isinst split: body.splits action.splits)
    moreover have "fst (said m) \<noteq> None" using said_user [of m] find_SomeD [OF assms(2)] by simp
    moreover obtain t urls where m: "said m = (t, urls)" by (metis surj_pair)
    ultimately have "user_intent (last pre # rev (butlast pre)) (t, urls) = (t, None)"
      using f unfolding user_intent_Cons m by simp
    then have "user_intent (rev pre) (said m) = (t, None)" unfolding p m .
    then show ?thesis using False m by simp
  qed simp
  finally show ?thesis
    using view assms(5) by (auto simp: get_current_user_intent_def split: prod.splits)
qed

section \<open>Sessions\<close>

text \<open>A file store whose \<open>delete\<close> removes what the path is a prefix of, and nothing else.\<close>

locale deleting_store = file_store wr rd ls
  for wr :: "string \<Rightarrow> 'c \<Rightarrow> 's \<Rightarrow> 's" and rd ls +
  fixes del :: "string \<Rightarrow> 's \<Rightarrow> 's"
  assumes read_deleted: "rd (del p s) q = (if py_startswith q p then Inl FileNotFoundError else rd s q)"

lemma mem_read_deleted:
  "mem_read (mem_delete p s) q = (if py_startswith q p then Inl FileNotFoundError else mem_read s q)"
proof -
  have "map_of (filter (\<lambda>(k, _). \<not> py_startswith k p) s) q = (if py_startswith q p then None else map_of s q)"
    by (induction s) auto
  then show ?thesis by (simp add: mem_read_def mem_delete_def)
qed

interpretation mem_del: deleting_store mem_write mem_read mem_list mem_delete
  by unfold_locales (rule mem_read_deleted)

lemma old_file_elsewhere:
  "truthy u \<Longrightarrow> \<not> py_startswith (get_conversation_agent_state_filename sid u) (get_conversation_agent_state_filename sid None)"
  by (auto simp: truthy_def get_conversation_agent_state_filename_def get_conversation_dir_def py_startswith_def
    split: list.splits option.splits)

text \<open>The laws of a session over any such store of pickled states.\<close>

locale session_store = deleting_store wr rd ls del
  for wr :: "string \<Rightarrow> saved_state \<Rightarrow> 's \<Rightarrow> 's" and rd ls del
begin

lemma saved_reads:
  "rd (save_to_session wr del sid u s sh files) (get_conversation_agent_state_filename sid u)
     = Inr (getstate s, sh\<lparr>sh_conversation_stats := None\<rparr>)"
  using old_file_elsewhere [of u sid] by (simp add: save_to_session_def Let_def read_deleted)

lemma session_roundtrip:
  "restore_from_session rd sid u (save_to_session wr del sid u s sh files)
     = Inr (restored (getstate s, sh\<lparr>sh_conversation_stats := None\<rparr>))"
  by (simp add: restore_from_session_def saved_reads)

lemma old_file_gone:
  "truthy u \<Longrightarrow> rd (save_to_session wr del sid u s sh files) (get_conversation_agent_state_filename sid None)
     = Inl FileNotFoundError"
  by (simp add: save_to_session_def Let_def read_deleted py_startswith_def)

lemma migrated:
  "truthy u \<Longrightarrow> rd files (get_conversation_agent_state_filename sid u) = Inl FileNotFoundError
     \<Longrightarrow> rd files (get_conversation_agent_state_filename sid None) = Inr p
     \<Longrightarrow> restore_from_session rd sid u files = Inr (restored p)"
  by (simp add: restore_from_session_def)

end

interpretation mem_session: session_store mem_write mem_read mem_list mem_delete
  by unfold_locales

text \<open>
  Restoring what was saved gives the state back without its history and cache, in the state LOADING,
  with the old agent state to resume if it can be resumed; for a known user no copy is left in the old
  directory.
\<close>

theorem session_roundtrip_mem:
  "restore_from_session mem_read sid u (save_to_session mem_write mem_delete sid u s sh files) =
     Inr (s\<lparr>s_history := [], s_history_checksum := -1, s_view := empty_view,
           s_resume_state := (if s_agent_state s \<in> {RUNNING, PAUSED, AWAITING_USER_INPUT, FINISHED} then Some (s_agent_state s) else None),
           s_agent_state := LOADING\<rparr>, sh\<lparr>sh_conversation_stats := None\<rparr>)
   \<and> (truthy u \<longrightarrow> mem_read (save_to_session mem_write mem_delete sid u s sh files)
        (get_conversation_agent_state_filename sid None) = Inl FileNotFoundError)"
  unfolding mem_session.session_roundtrip using mem_session.old_file_gone
  by (simp add: restored_def getstate_def RESUMABLE_STATES_def)

text \<open>
  The step count of a root agent is off by a hundred: the field \<open>parent_iteration\<close> has the default 100,
  which is subtracted although there is no parent.
\<close>

theorem root_local_step:
  "get_local_step (new_state sid u) sh = current_value (sh_iteration_flag sh) - 100"
  by (simp add: get_local_step_def new_state_def)

section \<open>Examples\<close>

definition unlimited :: shared where
  "unlimited = \<lparr>sh_iteration_flag = new_flag 10 0 10, sh_budget_flag = None, sh_conversation_stats = None,
     sh_metrics = new_metrics ''default''\<rparr>"

theorem session_roundtrip_mem_witness:
  "truthy (Some ''u'')
   \<and> mem_read (save_to_session mem_write mem_delete ''s'' (Some ''u'') (new_state ''s'' None) unlimited [])
       (get_conversation_agent_state_filename ''s'' None) = Inl FileNotFoundError"
  using session_roundtrip_mem [of "''s''" "Some ''u''" "new_state ''s'' None" unlimited "[]"] by (simp add: truthy_def)

definition with_history :: "event list \<Rightarrow> state" where
  "with_history es = (new_state ''s'' None)\<lparr>s_history := es\<rparr>"

definition thinking :: "int \<Rightarrow> event" where
  "thinking i = (new_action (AgentThinkAction []))\<lparr>ev_id := Some i\<rparr>"

lemma from_events_thinking: "from_events [thinking i] = Inr \<lparr>vw_events = [thinking i], vw_unhandled_condensation_request = False\<rparr>"
  by (simp add: from_events_remaining remaining_def forgotten_event_ids_def forgets_def last_summary_def find_last_def
    summary_of_def unhandled_request_def isinst thinking_def new_action_def)

theorem view_of_grown_history_witness:
  "\<exists>v s'. from_events [thinking 0] = Inr v \<and> state_view (with_history [thinking 0]) = (s', Inr v)"
proof -
  have "cache_ok (with_history [thinking 0])" by (simp add: cache_ok_def with_history_def new_state_def)
  moreover have "condensations_ok (s_history (with_history [thinking 0]))"
    by (simp add: condensations_ok_def with_history_def thinking_def new_action_def)
  moreover have "s_history (with_history [thinking 0]) = [thinking 0]" by (simp add: with_history_def)
  ultimately show ?thesis using view_of_grown_history [of "with_history [thinking 0]" "[]"] by auto
qed

theorem stale_view_at_same_length_witness:
  "\<exists>s' v. state_view (with_history [thinking 0]) = (s', Inr v)
     \<and> snd (state_view (s'\<lparr>s_history := [thinking 1]\<rparr>)) = Inr v \<and> from_events [thinking 1] \<noteq> Inr v"
proof -
  let ?v = "\<lparr>vw_events = [thinking 0], vw_unhandled_condensation_request = False\<rparr>"
  obtain s' where s: "state_view (with_history [thinking 0]) = (s', Inr ?v)"
    by (simp add: state_view_def with_history_def new_state_def from_events_thinking)
  moreover have "snd (state_view (s'\<lparr>s_history := [thinking 1]\<rparr>)) = Inr ?v"
    by (rule stale_view_at_same_length [OF s]) (simp add: with_history_def)
  moreover have "from_events [thinking 1] \<noteq> Inr ?v" by (simp add: from_events_thinking) (simp add: thinking_def new_action_def fresh_def)
  ultimately show ?thesis by blast
qed

definition asks :: "string \<Rightarrow> event" where
  "asks t = (new_action (MessageAction \<lparr>ma_content = t, ma_file_urls = None, ma_image_urls = None,
     ma_wait_for_response = False, ma_security_risk = None\<rparr>))\<lparr>ev_source := Some USER\<rparr>"

theorem intent_is_first_message_after_finish_witness:
  "snd (get_current_user_intent (with_history [new_action (AgentFinishAction [] [] []), asks ''a'', asks ''b'']))
     = Inr (Some ''a'', None)"
proof -
  let ?pre = "[new_action (AgentFinishAction [] [] [])]" and ?post = "[asks ''a'', asks ''b'']"
  let ?v = "\<lparr>vw_events = ?pre @ ?post, vw_unhandled_condensation_request = False\<rparr>"
  have v: "from_events (s_history (with_history (?pre @ ?post))) = Inr ?v"
    by (simp add: from_events_remaining remaining_def forgotten_event_ids_def forgets_def last_summary_def find_last_def
      summary_of_def unhandled_request_def isinst new_action_def asks_def with_history_def)
  have "snd (get_current_user_intent (with_history (?pre @ ?post)))
      = Inr (if ?pre = [] then said (asks ''a'') else (fst (said (asks ''a'')), None))"
    by (rule intent_is_first_message_after_finish [OF _ _ _ v])
      (simp_all add: asks_def new_action_def isinst is_user_message_def with_history_def new_state_def)
  then show ?thesis by (simp add: said_def asks_def new_action_def)
qed

end
