(* ===== verification/Serialization.thy ===== *)
theory Serialization
  imports EventOps
begin

text \<open>
  Events as dictionaries and back (\<open>openhands/events/serialization\<close>), the form in which they are
  stored and in which every subscriber receives them.

  A dictionary whose values do not have the declared types builds an ill-typed object in Python; such
  a document is outside the model and is the error \<open>ill_typed\<close>. The text of an error message that
  quotes the whole dictionary is abbreviated. \<open>ast.literal_eval\<close>, which a deprecated argument is
  parsed with, is the parameter \<open>lit\<close>.
\<close>

section \<open>The message of an event\<close>

definition code_fence :: "string \<Rightarrow> string" where
  "code_fence s = ''```'' @ [nl] @ s @ [nl] @ ''```''"

fun action_message :: "action \<Rightarrow> string res" where
  "action_message NullAction = Inr ''No action''"
| "action_message (CmdRunAction r) = Inr (''Running command: '' @ cr_command r)"
| "action_message (IPythonRunCellAction r) = Inr (''Running Python code interactively: '' @ ip_code r)"
| "action_message (BrowseURLAction r) = Inr (''I am browsing the URL: '' @ bu_url r)"
| "action_message (BrowseInteractiveAction r) =
     Inr (''I am interacting with the browser:'' @ [nl] @ code_fence (bi_browser_actions r))"
| "action_message (FileReadAction r) = Inr (''Reading file: '' @ fr_path r)"
| "action_message (FileWriteAction r) = Inr (''Writing file: '' @ fw_path r)"
| "action_message (FileEditAction r) = Inr []"
| "action_message (AgentThinkAction t) = Inr (''I am thinking...: '' @ t)"
| "action_message (AgentFinishAction f outs t) =
     Inr (if t \<noteq> [] then t else ''All done! What'' @ [CHR 0x27] @ ''s next on the agenda?'')"
| "action_message (AgentRejectAction outs t) =
     (case d_get outs ''reason'' of
        None \<Rightarrow> Inr ''Task is rejected by the agent.''
      | Some (JStr s) \<Rightarrow> Inr (''Task is rejected by the agent.'' @ '' Reason: '' @ s)
      | Some _ \<Rightarrow> Inl (TypeError ''can only concatenate str''))"
| "action_message (AgentDelegateAction a ins t) =
     Inr (''I'' @ [CHR 0x27] @ ''m asking '' @ a @ '' for help with this task.'')"
| "action_message (RecallAction k q t) = Inr (''Retrieving content for: '' @ take 50 q)"
| "action_message (ChangeAgentStateAction s t) = Inr (''Agent state changed to '' @ agent_state_value s)"
| "action_message (MessageAction r) = Inr (ma_content r)"
| "action_message (SystemMessageAction r) = Inr (sm_content r)"
| "action_message (CondensationAction c) =
     (case ca_summary c of
        Some (x # s) \<Rightarrow> Inr (''Summary: '' @ x # s)
      | _ \<Rightarrow> bind_res (forgotten c) (\<lambda>ids.
           Inr (''Condenser is dropping the events: '' @ py_repr (JList (map JInt ids)) @ ''.'')))"
| "action_message CondensationRequestAction = Inr ''Requesting a condensation of the conversation history.''"
| "action_message (MCPAction r) =
     Inr (''I am interacting with the MCP server with name:'' @ [nl] @ code_fence (mc_name r) @ [nl]
          @ ''and arguments:'' @ [nl] @ code_fence (py_repr (JObj (mc_arguments r))))"
| "action_message (TaskTrackingAction c ts t) =
     Inr (if ts = [] then ''Clearing the task list.''
          else if length ts = 1 then ''Managing 1 task item.''
          else ''Managing '' @ str_of_int (int (length ts)) @ '' task items.'')"
| "action_message (LoopRecoveryAction n) = Inr []"

fun obs_message :: "observation \<Rightarrow> string" where
  "obs_message (NullObservation c) = ''No observation''"
| "obs_message (CmdOutputObservation r) =
     ''Command `'' @ co_command r @ ''` executed with exit code '' @ str_of_int (co_exit_code r) @ ''.''"
| "obs_message (IPythonRunCellObservation r) = ''Code executed in IPython cell.''"
| "obs_message (BrowserOutputObservation r) = ''Visited '' @ bo_url r"
| "obs_message (FileReadObservation c p s) = ''I read the file '' @ p @ ''.''"
| "obs_message (FileWriteObservation c p) = ''I wrote to the file '' @ p @ ''.''"
| "obs_message (FileEditObservation r) = ''I edited the file '' @ fo_path r @ ''.''"
| "obs_message (AgentDelegateObservation c outs) = []"
| "obs_message (SuccessObservation c) = c"
| "obs_message (ErrorObservation c i) = c"
| "obs_message (AgentStateChangedObservation c s r) = []"
| "obs_message (UserRejectObservation c) = c"
| "obs_message (AgentCondensationObservation c) = c"
| "obs_message (AgentThinkObservation c) = c"
| "obs_message (RecallObservation r) =
     (if ro_recall_type r = WORKSPACE_CONTEXT then ''Added workspace context'' else ''Added microagent knowledge'')"
| "obs_message (MCPObservation c n a) = c"
| "obs_message (FileDownloadObservation c p) = ''Downloaded the file at location: '' @ p"
| "obs_message (TaskTrackingObservation c m ts) = c"
| "obs_message (LoopDetectionObservation c) = []"

fun message :: "body \<Rightarrow> string res" where
  "message (Act a) = action_message a"
| "message (Obs ob) = Inr (obs_message ob)"

section \<open>Writing\<close>

definition j_opt :: "('a \<Rightarrow> json) \<Rightarrow> 'a option \<Rightarrow> json" where
  "j_opt f x = (case x of None \<Rightarrow> JNull | Some v \<Rightarrow> f v)"

definition j_strs :: "string list \<Rightarrow> json" where
  "j_strs ss = JList (map JStr ss)"

definition d_opt :: "string \<Rightarrow> ('a \<Rightarrow> json) \<Rightarrow> 'a option \<Rightarrow> dict" where
  \<comment> \<open>an entry that is written only where the value is not \<open>None\<close>\<close>
  "d_opt k f x = (case x of None \<Rightarrow> [] | Some v \<Rightarrow> [(k, f v)])"

definition j_risk :: "security_risk option \<Rightarrow> dict" where
  "j_risk r = d_opt ''security_risk'' (JInt \<circ> risk_value) r"

fun action_type :: "action \<Rightarrow> string" where
  "action_type NullAction = ''null''"
| "action_type (CmdRunAction _) = ''run''"
| "action_type (IPythonRunCellAction _) = ''run_ipython''"
| "action_type (BrowseURLAction _) = ''browse''"
| "action_type (BrowseInteractiveAction _) = ''browse_interactive''"
| "action_type (FileReadAction _) = ''read''"
| "action_type (FileWriteAction _) = ''write''"
| "action_type (FileEditAction _) = ''edit''"
| "action_type (AgentThinkAction _) = ''think''"
| "action_type (AgentFinishAction _ _ _) = ''finish''"
| "action_type (AgentRejectAction _ _) = ''reject''"
| "action_type (AgentDelegateAction _ _ _) = ''delegate''"
| "action_type (RecallAction _ _ _) = ''recall''"
| "action_type (ChangeAgentStateAction _ _) = ''change_agent_state''"
| "action_type (MessageAction _) = ''message''"
| "action_type (SystemMessageAction _) = ''system''"
| "action_type (CondensationAction _) = ''condensation''"
| "action_type CondensationRequestAction = ''condensation_request''"
| "action_type (MCPAction _) = ''call_tool_mcp''"
| "action_type (TaskTrackingAction _ _ _) = ''task_tracking''"
| "action_type (LoopRecoveryAction _) = ''loop_recovery''"

fun observation_type :: "observation \<Rightarrow> string" where
  "observation_type (NullObservation _) = ''null''"
| "observation_type (CmdOutputObservation _) = ''run''"
| "observation_type (IPythonRunCellObservation _) = ''run_ipython''"
| "observation_type (BrowserOutputObservation _) = ''browse''"
| "observation_type (FileReadObservation _ _ _) = ''read''"
| "observation_type (FileWriteObservation _ _) = ''write''"
| "observation_type (FileEditObservation _) = ''edit''"
| "observation_type (AgentDelegateObservation _ _) = ''delegate''"
| "observation_type (SuccessObservation _) = ''success''"
| "observation_type (ErrorObservation _ _) = ''error''"
| "observation_type (AgentStateChangedObservation _ _ _) = ''agent_state_changed''"
| "observation_type (UserRejectObservation _) = ''user_rejected''"
| "observation_type (AgentCondensationObservation _) = ''condense''"
| "observation_type (AgentThinkObservation _) = ''think''"
| "observation_type (RecallObservation _) = ''recall''"
| "observation_type (MCPObservation _ _ _) = ''mcp''"
| "observation_type (FileDownloadObservation _ _) = ''download''"
| "observation_type (TaskTrackingObservation _ _ _) = ''task_tracking''"
| "observation_type (LoopDetectionObservation _) = ''loop_detection''"

text \<open>\<open>asdict(action)\<close> without the top-level keys; a risk of \<open>None\<close> is dropped.\<close>

fun action_args :: "action \<Rightarrow> dict" where
  "action_args NullAction = []"
| "action_args (CmdRunAction r) =
     [(''command'', JStr (cr_command r)), (''is_input'', JBool (cr_is_input r)), (''thought'', JStr (cr_thought r)),
      (''blocking'', JBool (cr_blocking r)), (''is_static'', JBool (cr_is_static r)), (''cwd'', j_opt JStr (cr_cwd r)),
      (''hidden'', JBool (cr_hidden r)), (''confirmation_state'', JStr (confirmation_value (cr_confirmation_state r)))]
     @ j_risk (cr_security_risk r)"
| "action_args (IPythonRunCellAction r) =
     [(''code'', JStr (ip_code r)), (''thought'', JStr (ip_thought r)), (''include_extra'', JBool (ip_include_extra r)),
      (''confirmation_state'', JStr (confirmation_value (ip_confirmation_state r)))]
     @ j_risk (ip_security_risk r) @ [(''kernel_init_code'', JStr (ip_kernel_init_code r))]"
| "action_args (BrowseURLAction r) =
     [(''url'', JStr (bu_url r)), (''thought'', JStr (bu_thought r))] @ j_risk (bu_security_risk r)
     @ [(''return_axtree'', JBool (bu_return_axtree r))]"
| "action_args (BrowseInteractiveAction r) =
     [(''browser_actions'', JStr (bi_browser_actions r)), (''thought'', JStr (bi_thought r)),
      (''browsergym_send_msg_to_user'', JStr (bi_browsergym_send_msg_to_user r))]
     @ j_risk (bi_security_risk r) @ [(''return_axtree'', JBool (bi_return_axtree r))]"
| "action_args (FileReadAction r) =
     [(''path'', JStr (fr_path r)), (''start'', JInt (fr_start r)), (''end'', JInt (fr_end r)), (''thought'', JStr (fr_thought r))]
     @ j_risk (fr_security_risk r)
     @ [(''impl_source'', JStr (read_source_value (fr_impl_source r))),
        (''view_range'', j_opt (\<lambda>is. JList (map JInt is)) (fr_view_range r))]"
| "action_args (FileWriteAction r) =
     [(''path'', JStr (fw_path r)), (''content'', JStr (fw_content r)), (''start'', JInt (fw_start r)),
      (''end'', JInt (fw_end r)), (''thought'', JStr (fw_thought r))] @ j_risk (fw_security_risk r)"
| "action_args (FileEditAction r) =
     [(''path'', JStr (fe_path r)), (''command'', JStr (fe_command r)), (''file_text'', j_opt JStr (fe_file_text r)),
      (''old_str'', j_opt JStr (fe_old_str r)), (''new_str'', j_opt JStr (fe_new_str r)),
      (''insert_line'', j_opt JInt (fe_insert_line r)), (''content'', JStr (fe_content r)), (''start'', JInt (fe_start r)),
      (''end'', JInt (fe_end r)), (''thought'', JStr (fe_thought r))]
     @ j_risk (fe_security_risk r) @ [(''impl_source'', JStr (edit_source_value (fe_impl_source r)))]"
| "action_args (AgentThinkAction t) = [(''thought'', JStr t)]"
| "action_args (AgentFinishAction f outs t) =
     [(''final_thought'', JStr f), (''outputs'', JObj outs), (''thought'', JStr t)]"
| "action_args (AgentRejectAction outs t) = [(''outputs'', JObj outs), (''thought'', JStr t)]"
| "action_args (AgentDelegateAction a ins t) = [(''agent'', JStr a), (''inputs'', JObj ins), (''thought'', JStr t)]"
| "action_args (RecallAction k q t) =
     [(''recall_type'', JStr (recall_type_value k)), (''query'', JStr q), (''thought'', JStr t)]"
| "action_args (ChangeAgentStateAction s t) = [(''agent_state'', JStr (agent_state_value s)), (''thought'', JStr t)]"
| "action_args (MessageAction r) =
     [(''content'', JStr (ma_content r)), (''file_urls'', j_opt j_strs (ma_file_urls r)),
      (''image_urls'', j_opt j_strs (ma_image_urls r)), (''wait_for_response'', JBool (ma_wait_for_response r))]
     @ j_risk (ma_security_risk r)"
| "action_args (SystemMessageAction r) =
     [(''content'', JStr (sm_content r)), (''tools'', j_opt JList (sm_tools r)),
      (''openhands_version'', j_opt JStr (sm_openhands_version r)), (''agent_class'', j_opt JStr (sm_agent_class r))]"
| "action_args (CondensationAction c) =
     [(''forgotten_event_ids'', j_opt (\<lambda>is. JList (map JInt is)) (ca_forgotten_event_ids c)),
      (''forgotten_events_start_id'', j_opt JInt (ca_forgotten_events_start_id c)),
      (''forgotten_events_end_id'', j_opt JInt (ca_forgotten_events_end_id c)),
      (''summary'', j_opt JStr (ca_summary c)), (''summary_offset'', j_opt JInt (ca_summary_offset c))]"
| "action_args CondensationRequestAction = []"
| "action_args (MCPAction r) =
     [(''name'', JStr (mc_name r)), (''arguments'', JObj (mc_arguments r)), (''thought'', JStr (mc_thought r))]
     @ j_risk (mc_security_risk r)"
| "action_args (TaskTrackingAction c ts t) =
     [(''command'', JStr c), (''task_list'', JList ts), (''thought'', JStr t)]"
| "action_args (LoopRecoveryAction n) = [(''option'', JInt n)]"

definition metadata_to_dict :: "cmd_output_metadata \<Rightarrow> dict" where
  "metadata_to_dict m =
     [(''exit_code'', JInt (cm_exit_code m)), (''pid'', JInt (cm_pid m)), (''username'', j_opt JStr (cm_username m)),
      (''hostname'', j_opt JStr (cm_hostname m)), (''working_dir'', j_opt JStr (cm_working_dir m)),
      (''py_interpreter_path'', j_opt JStr (cm_py_interpreter_path m)), (''prefix'', JStr (cm_prefix m)),
      (''suffix'', JStr (cm_suffix m))]"

definition knowledge_to_dict :: "microagent_knowledge \<Rightarrow> json" where
  "knowledge_to_dict k =
     JObj [(''name'', JStr (mk_name k)), (''trigger'', JStr (mk_trigger k)), (''content'', JStr (mk_content k))]"

fun obs_extras :: "observation \<Rightarrow> dict" where
  "obs_extras (NullObservation c) = []"
| "obs_extras (CmdOutputObservation r) =
     [(''command'', JStr (co_command r)), (''metadata'', JObj (metadata_to_dict (co_metadata r))),
      (''hidden'', JBool (co_hidden r))]"
| "obs_extras (IPythonRunCellObservation r) =
     [(''code'', JStr (io_code r)), (''image_urls'', j_opt j_strs (io_image_urls r))]"
| "obs_extras (BrowserOutputObservation r) =
     [(''url'', JStr (bo_url r)), (''trigger_by_action'', JStr (bo_trigger_by_action r)),
      (''screenshot'', JStr (bo_screenshot r)), (''screenshot_path'', j_opt JStr (bo_screenshot_path r)),
      (''set_of_marks'', JStr (bo_set_of_marks r)), (''error'', JBool (bo_error r)),
      (''goal_image_urls'', j_strs (bo_goal_image_urls r)), (''open_pages_urls'', j_strs (bo_open_pages_urls r)),
      (''active_page_index'', JInt (bo_active_page_index r)), (''dom_object'', JObj (bo_dom_object r)),
      (''axtree_object'', JObj (bo_axtree_object r)),
      (''extra_element_properties'', JObj (bo_extra_element_properties r)),
      (''last_browser_action'', JStr (bo_last_browser_action r)),
      (''last_browser_action_error'', JStr (bo_last_browser_action_error r)),
      (''focused_element_bid'', JStr (bo_focused_element_bid r)),
      (''filter_visible_only'', JBool (bo_filter_visible_only r))]"
| "obs_extras (FileReadObservation c p s) = [(''path'', JStr p), (''impl_source'', JStr (read_source_value s))]"
| "obs_extras (FileWriteObservation c p) = [(''path'', JStr p)]"
| "obs_extras (FileEditObservation r) =
     [(''path'', JStr (fo_path r)), (''prev_exist'', JBool (fo_prev_exist r)), (''old_content'', j_opt JStr (fo_old_content r)),
      (''new_content'', j_opt JStr (fo_new_content r)), (''impl_source'', JStr (edit_source_value (fo_impl_source r))),
      (''diff'', j_opt JStr (fo_diff r)), (''_diff_cache'', j_opt JStr (fo_diff_cache r))]"
| "obs_extras (AgentDelegateObservation c outs) = [(''outputs'', JObj outs)]"
| "obs_extras (SuccessObservation c) = []"
| "obs_extras (ErrorObservation c i) = [(''error_id'', JStr i)]"
| "obs_extras (AgentStateChangedObservation c s r) = [(''agent_state'', JStr (agent_state_value s)), (''reason'', JStr r)]"
| "obs_extras (UserRejectObservation c) = []"
| "obs_extras (AgentCondensationObservation c) = []"
| "obs_extras (AgentThinkObservation c) = []"
| "obs_extras (RecallObservation r) =
     [(''recall_type'', JStr (recall_type_value (ro_recall_type r))), (''repo_name'', JStr (ro_repo_name r)),
      (''repo_directory'', JStr (ro_repo_directory r)), (''repo_branch'', JStr (ro_repo_branch r)),
      (''repo_instructions'', JStr (ro_repo_instructions r)),
      (''runtime_hosts'', JObj (map (map_prod id JInt) (ro_runtime_hosts r))),
      (''additional_agent_instructions'', JStr (ro_additional_agent_instructions r)), (''date'', JStr (ro_date r)),
      (''custom_secrets_descriptions'', JObj (map (map_prod id JStr) (ro_custom_secrets_descriptions r))),
      (''conversation_instructions'', JStr (ro_conversation_instructions r)), (''working_dir'', JStr (ro_working_dir r)),
      (''microagent_knowledge'', JList (map knowledge_to_dict (ro_microagent_knowledge r)))]"
| "obs_extras (MCPObservation c n a) = [(''name'', JStr n), (''arguments'', JObj a)]"
| "obs_extras (FileDownloadObservation c p) = [(''file_path'', JStr p)]"
| "obs_extras (TaskTrackingObservation c m ts) = [(''command'', JStr m), (''task_list'', JList ts)]"
| "obs_extras (LoopDetectionObservation c) = []"

fun obs_success :: "observation \<Rightarrow> dict" where
  \<comment> \<open>\<open>if hasattr(event, 'success')\<close>\<close>
  "obs_success (CmdOutputObservation r) = [(''success'', JBool (co_success r))]"
| "obs_success (IPythonRunCellObservation r) = [(''success'', JBool True)]"
| "obs_success _ = []"

definition tool_call_to_dict :: "tool_call_metadata \<Rightarrow> json" where
  "tool_call_to_dict t =
     JObj [(''function_name'', JStr (tc_function_name t)), (''tool_call_id'', JStr (tc_tool_call_id t)),
           (''model_response'', tc_model_response t), (''total_calls_in_response'', JInt (tc_total_calls_in_response t))]"

definition event_to_dict :: "event \<Rightarrow> dict res" where
  "event_to_dict e =
     bind_res (message (ev_body e)) (\<lambda>msg.
       let head = (if event_id e = INVALID_ID then [] else [(''id'', JInt (event_id e))])
                  @ d_opt ''timestamp'' JStr (ev_timestamp e)
                  @ d_opt ''source'' (JStr \<circ> source_value) (ev_source e)
                  @ [(''message'', JStr msg)]
                  @ d_opt ''cause'' JInt (ev_cause e);
           tail = d_opt ''tool_call_metadata'' tool_call_to_dict (ev_tool_call_metadata e)
                  @ d_opt ''llm_metrics'' (JObj \<circ> metrics_get) (ev_llm_metrics e)
       in case ev_body e of
            Act a \<Rightarrow>
              Inr (head @ [(''action'', JStr (action_type a))] @ tail @ [(''args'', JObj (action_args a))]
                   @ d_opt ''timeout'' JFloat (ev_timeout e))
          | Obs ob \<Rightarrow>
              Inr (head @ [(''observation'', JStr (observation_type ob))] @ tail
                   @ [(''content'', JStr (obs_content ob)), (''extras'', JObj (obs_extras ob))] @ obs_success ob))"

end
