(* ===== verification/EventFilter.thy ===== *)
theory EventFilter
  imports Serialization
begin

text \<open>
  Filters of the event stream (\<open>openhands/events/event_filter.py\<close>) and the pairing of actions with
  their observations (\<open>openhands/events/utils.py\<close>).
\<close>

section \<open>\<open>json.dumps\<close>\<close>

text \<open>The standard encoder with its default separators; characters outside printable ASCII are escaped.\<close>

definition dumps_char :: "char \<Rightarrow> string" where
  "dumps_char c =
     (let n = of_char c :: nat; bs = char_of (92 :: nat) in
      if c = CHR 0x22 \<or> c = bs then [bs, c]
      else if n = 10 then [bs, CHR ''n''] else if n = 13 then [bs, CHR ''r''] else if n = 9 then [bs, CHR ''t'']
      else if n = 8 then [bs, CHR ''b''] else if n = 12 then [bs, CHR ''f'']
      else if n < 32 \<or> 126 < n then [bs] @ ''u00'' @ [hex_digit (n div 16), hex_digit (n mod 16)]
      else [c])"

definition dumps_str :: "string \<Rightarrow> string" where
  "dumps_str s = [CHR 0x22] @ concat (map dumps_char s) @ [CHR 0x22]"

primrec json_dumps :: "json \<Rightarrow> string" where
  "json_dumps JNull = ''null''"
| "json_dumps (JBool b) = (if b then ''true'' else ''false'')"
| "json_dumps (JInt i) = str_of_int i"
| "json_dumps (JFloat q) = str_of_float q"
| "json_dumps (JStr s) = dumps_str s"
| "json_dumps (JList js) = ''['' @ py_join '', '' (map json_dumps js) @ '']''"
| "json_dumps (JObj d) =
     CHR 0x7B # py_join '', '' (map (\<lambda>(k, s). dumps_str k @ '': '' @ s) (map (map_prod id json_dumps) d)) @ [CHR 0x7D]"

section \<open>Filters\<close>

text \<open>A class in a tuple of types is its instance test on the event.\<close>

record event_filter =
  ef_exclude_hidden :: bool
  ef_query :: "string option"
  ef_include_types :: "(body \<Rightarrow> bool) list option"
  ef_exclude_types :: "(body \<Rightarrow> bool) list option"
  ef_source :: "string option"
  ef_start_date :: "string option"
  ef_end_date :: "string option"

definition no_filter :: event_filter where
  "no_filter = \<lparr>ef_exclude_hidden = False, ef_query = None, ef_include_types = None, ef_exclude_types = None,
     ef_source = None, ef_start_date = None, ef_end_date = None\<rparr>"

definition isinstance :: "body \<Rightarrow> (body \<Rightarrow> bool) list \<Rightarrow> bool" where
  "isinstance b ts = list_ex (\<lambda>t. t b) ts"

definition given :: "'a list option \<Rightarrow> 'a list option" where
  \<comment> \<open>an optional string or tuple that is tested by its truth: an empty one counts as absent\<close>
  "given x = (case x of Some (c # s) \<Rightarrow> Some (c # s) | _ \<Rightarrow> None)"

definition filter_attributes :: "event_filter \<Rightarrow> event \<Rightarrow> bool" where
  \<comment> \<open>every test before the text search\<close>
  "filter_attributes f e =
     (if (case given (ef_include_types f) of Some ts \<Rightarrow> \<not> isinstance (ev_body e) ts | None \<Rightarrow> False) then False
      else if (case ef_exclude_types f of Some ts \<Rightarrow> isinstance (ev_body e) ts | None \<Rightarrow> False) then False
      else if (case given (ef_source f) of
                 Some s \<Rightarrow> (case ev_source e of None \<Rightarrow> True | Some src \<Rightarrow> source_value src \<noteq> s) | None \<Rightarrow> False) then False
      else if (case (given (ef_start_date f), ev_timestamp e) of (Some d, Some t) \<Rightarrow> t < d | _ \<Rightarrow> False) then False
      else if (case (given (ef_end_date f), ev_timestamp e) of (Some d, Some t) \<Rightarrow> d < t | _ \<Rightarrow> False) then False
      else if ef_exclude_hidden f \<and> hidden e then False
      else True)"

definition filter_include :: "event_filter \<Rightarrow> event \<Rightarrow> bool res" where
  "filter_include f e =
     (if \<not> filter_attributes f e then Inr False
      else case given (ef_query f) of
             None \<Rightarrow> Inr True
           | Some q \<Rightarrow> bind_res (event_to_dict e) (\<lambda>d. Inr (py_contains (py_lower (json_dumps (JObj d))) (py_lower q))))"

definition filter_exclude :: "event_filter \<Rightarrow> event \<Rightarrow> bool res" where
  "filter_exclude f e = bind_res (filter_include f e) (\<lambda>b. Inr (\<not> b))"

lemma filter_include_no_filter [simp]: "filter_include no_filter e = Inr True"
  by (simp add: filter_include_def filter_attributes_def no_filter_def given_def)

lemma filter_include_sound:
  "filter_include f e = Inr True \<Longrightarrow> filter_attributes f e"
  by (auto simp: filter_include_def split: if_splits)

lemma filter_no_query: "given (ef_query f) = None \<Longrightarrow> filter_include f e = Inr (filter_attributes f e)"
  by (simp add: filter_include_def)

section \<open>Pairs\<close>

text \<open>The two dictionaries of \<open>get_pairs_from_events\<close>, filled in one pass.\<close>

type_synonym 'a id_map = "(int \<times> 'a) list"

definition pairs_step :: "event \<Rightarrow> event id_map \<times> event id_map \<Rightarrow> event id_map \<times> event id_map" where
  "pairs_step e m =
     (case m of (am, om) \<Rightarrow>
        (if is_action (ev_body e) then AList.update (event_id e) e am else am,
         if is_observation (ev_body e)
         then (case ev_cause e of None \<Rightarrow> om | Some c \<Rightarrow> AList.update c e om) else om))"

definition get_pairs_from_events :: "event list \<Rightarrow> (event \<times> event) list" where
  "get_pairs_from_events es =
     (case fold pairs_step es ([], []) of (am, om) \<Rightarrow>
        map (\<lambda>(i, a). (a, case map_of om i of Some ob \<Rightarrow> ob | None \<Rightarrow> new_obs (NullObservation []))) am
        @ map (\<lambda>(c, ob). (new_action NullAction, ob))
              (filter (\<lambda>(c, ob). map_of am c = None \<and> \<not> is_null_obs (ev_body ob)) om))"

lemma pairs_step_fst: "\<exists>om'. pairs_step e (am, om) = (if is_action (ev_body e) then AList.update (event_id e) e am else am, om')"
  by (simp add: pairs_step_def)

lemma pairs_fold_actions:
  "distinct (map event_id (filter (is_action \<circ> ev_body) es)) \<Longrightarrow>
   (\<forall>e \<in> set es. is_action (ev_body e) \<longrightarrow> event_id e \<notin> fst ` set am) \<Longrightarrow>
   fst (fold pairs_step es (am, om)) = am @ map (\<lambda>e. (event_id e, e)) (filter (is_action \<circ> ev_body) es)"
proof (induction es arbitrary: am om)
  case (Cons e es)
  have upd: "k \<notin> fst ` set xs \<Longrightarrow> AList.update k v xs = xs @ [(k, v)]" for k v and xs :: "event id_map"
    by (induction xs) auto
  show ?case
  proof (cases "is_action (ev_body e)")
    case True
    have "\<forall>x \<in> set es. is_action (ev_body x) \<longrightarrow> event_id x \<notin> fst ` set (am @ [(event_id e, e)])"
    proof (intro ballI impI)
      fix x assume x: "x \<in> set es" "is_action (ev_body x)"
      with Cons.prems(1) True have "event_id e \<notin> event_id ` {y \<in> set es. is_action (ev_body y)}"
        by (simp add: comp_def)
      with x have "event_id x \<noteq> event_id e" by (metis (mono_tags, lifting) image_eqI mem_Collect_eq)
      with x Cons.prems(2) show "event_id x \<notin> fst ` set (am @ [(event_id e, e)])" by simp
    qed
    moreover obtain om' where "pairs_step e (am, om) = (am @ [(event_id e, e)], om')"
      using pairs_step_fst [of e am om] Cons.prems True upd by auto
    ultimately show ?thesis
      using Cons.IH [of "am @ [(event_id e, e)]" om'] Cons.prems True by simp
  next
    case False
    moreover obtain om' where "pairs_step e (am, om) = (am, om')"
      using pairs_step_fst [of e am om] False by auto
    ultimately show ?thesis using Cons.IH [of am om'] Cons.prems by simp
  qed
qed simp

lemma pairs_fold_obs:
  "map_of (snd (fold pairs_step es (am, om))) c =
     (case find_last (\<lambda>e. is_observation (ev_body e) \<and> ev_cause e = Some c) es of
        Some ob \<Rightarrow> Some ob | None \<Rightarrow> map_of om c)"
proof (induction es arbitrary: am om)
  case Nil
  then show ?case by (simp add: find_last_def)
next
  case (Cons e es)
  have "find_last p (e # es) = (case find_last p es of None \<Rightarrow> (if p e then Some e else None) | Some y \<Rightarrow> Some y)" for p
    using find_last_append [of p "[e]" es] by (cases "find_last p es") (simp_all add: find_last_def)
  moreover have "snd (pairs_step e (am, om)) =
      (if is_observation (ev_body e) then (case ev_cause e of None \<Rightarrow> om | Some k \<Rightarrow> AList.update k e om) else om)"
    by (simp add: pairs_step_def)
  moreover obtain am' om' where st: "pairs_step e (am, om) = (am', om')" by force
  ultimately show ?case
    using Cons.IH [of am' om'] by (cases "ev_body e") (auto simp: update_conv' split: option.splits)
qed

text \<open>
  Where the actions have distinct ids, each is paired exactly once, in order, with the last observation it
  caused, or with an empty observation where it caused none; observations without their action follow.
\<close>

lemma get_pairs_actions:
  assumes "distinct (map event_id (filter (is_action \<circ> ev_body) es))"
  shows "\<exists>rest. get_pairs_from_events es =
    map (\<lambda>a. (a, case find_last (\<lambda>e. is_observation (ev_body e) \<and> ev_cause e = Some (event_id a)) es of
                     Some ob \<Rightarrow> ob | None \<Rightarrow> new_obs (NullObservation [])))
        (filter (is_action \<circ> ev_body) es) @ rest
    \<and> (\<forall>(a, ob) \<in> set rest. a = new_action NullAction \<and> \<not> is_null_obs (ev_body ob))"
proof -
  obtain am om where f: "fold pairs_step es ([], []) = (am, om)" by force
  have am: "am = map (\<lambda>e. (event_id e, e)) (filter (is_action \<circ> ev_body) es)"
    using pairs_fold_actions [of es "[]" "[]"] assms f by simp
  have om: "map_of om c = find_last (\<lambda>e. is_observation (ev_body e) \<and> ev_cause e = Some c) es" for c
    using pairs_fold_obs [of es "[]" "[]" c] f by (simp split: option.splits)
  show ?thesis
    by (rule exI [of _ "map (\<lambda>(c, ob). (new_action NullAction, ob))
              (filter (\<lambda>(c, ob). map_of am c = None \<and> \<not> is_null_obs (ev_body ob)) om)"])
       (auto simp: get_pairs_from_events_def f am om comp_def)
qed

end
