(* ===== verification/Deserialization.thy ===== *)
theory Deserialization
  imports Serialization
begin

text \<open>
  Reading events back (\<open>event_from_dict\<close>, \<open>action_from_dict\<close>, \<open>observation_from_dict\<close>), the
  compatibility rewrites of old dictionaries included, and the round trip with \<open>event_to_dict\<close>.
\<close>

section \<open>Typed access to keyword arguments\<close>

definition ill_typed :: py_error where "ill_typed = OtherError ''ill-typed'' []"

definition as_str :: "json \<Rightarrow> string res" where
  "as_str j = (case j of JStr s \<Rightarrow> Inr s | _ \<Rightarrow> Inl ill_typed)"

definition as_bool :: "json \<Rightarrow> bool res" where
  "as_bool j = (case j of JBool b \<Rightarrow> Inr b | _ \<Rightarrow> Inl ill_typed)"

definition as_int :: "json \<Rightarrow> int res" where
  "as_int j = (case j of JInt i \<Rightarrow> Inr i | _ \<Rightarrow> Inl ill_typed)"

definition as_float :: "json \<Rightarrow> rat res" where
  "as_float j = (case j of JFloat q \<Rightarrow> Inr q | JInt i \<Rightarrow> Inr (of_int i) | _ \<Rightarrow> Inl ill_typed)"

definition as_dict :: "json \<Rightarrow> dict res" where
  "as_dict j = (case j of JObj d \<Rightarrow> Inr d | _ \<Rightarrow> Inl ill_typed)"

definition as_json :: "json \<Rightarrow> json res" where "as_json j = Inr j"

definition as_list :: "(json \<Rightarrow> 'a res) \<Rightarrow> json \<Rightarrow> 'a list res" where
  "as_list f j = (case j of JList js \<Rightarrow> map_res f js | _ \<Rightarrow> Inl ill_typed)"

definition as_opt :: "(json \<Rightarrow> 'a res) \<Rightarrow> json \<Rightarrow> 'a option res" where
  "as_opt f j = (case j of JNull \<Rightarrow> Inr None | _ \<Rightarrow> bind_res (f j) (\<lambda>v. Inr (Some v)))"

definition as_enum :: "(string \<Rightarrow> 'a) \<Rightarrow> json \<Rightarrow> 'a res" where
  "as_enum f j = bind_res (as_str j) (\<lambda>s. Inr (f s))"

definition as_map :: "(json \<Rightarrow> 'a res) \<Rightarrow> json \<Rightarrow> (string \<times> 'a) list res" where
  "as_map f j = bind_res (as_dict j) (map_res (\<lambda>(k, v). bind_res (f v) (\<lambda>w. Inr (k, w))))"

definition as_risk :: "json \<Rightarrow> security_risk res" where
  "as_risk j = bind_res (as_int j) (\<lambda>i. case risk_of i of Some r \<Rightarrow> Inr r | None \<Rightarrow> Inl ill_typed)"

text \<open>One keyword argument: its value where given, else its default, else the \<open>TypeError\<close> of the call.\<close>

definition arg ::
  "dict \<Rightarrow> string \<Rightarrow> 'a option \<Rightarrow> (json \<Rightarrow> 'a res) \<Rightarrow> ('a \<Rightarrow> 'b res) \<Rightarrow> 'b res" where
  "arg d k dflt conv f =
     (case d_get d k of
        Some j \<Rightarrow> bind_res (conv j) f
      | None \<Rightarrow> (case dflt of Some v \<Rightarrow> f v | None \<Rightarrow> Inl (TypeError (''missing required argument: '' @ k))))"

text \<open>A dataclass constructor refuses a keyword that names no field; \<open>action\<close> and \<open>observation\<close> are fields.\<close>

definition kwargs :: "string list \<Rightarrow> dict \<Rightarrow> 'b res \<Rightarrow> 'b res" where
  "kwargs names d r =
     (case find (\<lambda>k. k \<notin> set names) (d_keys d) of
        None \<Rightarrow> r
      | Some k \<Rightarrow> if k = ''action'' \<or> k = ''observation'' then Inl ill_typed
                  else Inl (TypeError (''unexpected keyword argument: '' @ k)))"

lemmas as_defs = as_str_def as_bool_def as_int_def as_float_def as_dict_def as_json_def as_list_def
  as_opt_def as_enum_def as_map_def as_risk_def j_opt_def j_strs_def

section \<open>Actions\<close>

abbreviation risk_arg :: "dict \<Rightarrow> (security_risk option \<Rightarrow> 'b res) \<Rightarrow> 'b res" where
  "risk_arg d f \<equiv> arg d ''security_risk'' (Some (Some RISK_UNKNOWN)) (as_opt as_risk) f"

definition dec_cmd_run :: "dict \<Rightarrow> action res" where
  "dec_cmd_run d = kwargs [''command'', ''is_input'', ''thought'', ''blocking'', ''is_static'', ''cwd'', ''hidden'',
       ''confirmation_state'', ''security_risk''] d
     (arg d ''command'' None as_str (\<lambda>c. arg d ''is_input'' (Some False) as_bool (\<lambda>i.
      arg d ''thought'' (Some []) as_str (\<lambda>t. arg d ''blocking'' (Some False) as_bool (\<lambda>b.
      arg d ''is_static'' (Some False) as_bool (\<lambda>st. arg d ''cwd'' (Some None) (as_opt as_str) (\<lambda>cwd.
      arg d ''hidden'' (Some False) as_bool (\<lambda>h.
      arg d ''confirmation_state'' (Some CONFIRMED) (as_enum confirmation_of) (\<lambda>cs.
      risk_arg d (\<lambda>r. Inr (CmdRunAction
        \<lparr>cr_command = c, cr_is_input = i, cr_thought = t, cr_blocking = b, cr_is_static = st, cr_cwd = cwd,
         cr_hidden = h, cr_confirmation_state = cs, cr_security_risk = r\<rparr>)))))))))))"

definition dec_ipython :: "dict \<Rightarrow> action res" where
  "dec_ipython d = kwargs [''code'', ''thought'', ''include_extra'', ''confirmation_state'', ''security_risk'', ''kernel_init_code''] d
     (arg d ''code'' None as_str (\<lambda>c. arg d ''thought'' (Some []) as_str (\<lambda>t.
      arg d ''include_extra'' (Some True) as_bool (\<lambda>x.
      arg d ''confirmation_state'' (Some CONFIRMED) (as_enum confirmation_of) (\<lambda>cs. risk_arg d (\<lambda>r.
      arg d ''kernel_init_code'' (Some []) as_str (\<lambda>k. Inr (IPythonRunCellAction
        \<lparr>ip_code = c, ip_thought = t, ip_include_extra = x, ip_confirmation_state = cs, ip_security_risk = r,
         ip_kernel_init_code = k\<rparr>))))))))"

definition dec_browse_url :: "dict \<Rightarrow> action res" where
  "dec_browse_url d = kwargs [''url'', ''thought'', ''security_risk'', ''return_axtree''] d
     (arg d ''url'' None as_str (\<lambda>u. arg d ''thought'' (Some []) as_str (\<lambda>t. risk_arg d (\<lambda>r.
      arg d ''return_axtree'' (Some False) as_bool (\<lambda>x. Inr (BrowseURLAction
        \<lparr>bu_url = u, bu_thought = t, bu_security_risk = r, bu_return_axtree = x\<rparr>))))))"

definition dec_browse_interactive :: "dict \<Rightarrow> action res" where
  "dec_browse_interactive d = kwargs [''browser_actions'', ''thought'', ''browsergym_send_msg_to_user'', ''security_risk'', ''return_axtree''] d
     (arg d ''browser_actions'' None as_str (\<lambda>a. arg d ''thought'' (Some []) as_str (\<lambda>t.
      arg d ''browsergym_send_msg_to_user'' (Some []) as_str (\<lambda>m. risk_arg d (\<lambda>r.
      arg d ''return_axtree'' (Some False) as_bool (\<lambda>x. Inr (BrowseInteractiveAction
        \<lparr>bi_browser_actions = a, bi_thought = t, bi_browsergym_send_msg_to_user = m, bi_security_risk = r,
         bi_return_axtree = x\<rparr>)))))))"

definition dec_file_read :: "dict \<Rightarrow> action res" where
  "dec_file_read d = kwargs [''path'', ''start'', ''end'', ''thought'', ''security_risk'', ''impl_source'', ''view_range''] d
     (arg d ''path'' None as_str (\<lambda>p. arg d ''start'' (Some 0) as_int (\<lambda>s. arg d ''end'' (Some (-1)) as_int (\<lambda>e.
      arg d ''thought'' (Some []) as_str (\<lambda>t. risk_arg d (\<lambda>r.
      arg d ''impl_source'' (Some READ_DEFAULT) (as_enum read_source_of) (\<lambda>src.
      arg d ''view_range'' (Some None) (as_opt (as_list as_int)) (\<lambda>v. Inr (FileReadAction
        \<lparr>fr_path = p, fr_start = s, fr_end = e, fr_thought = t, fr_security_risk = r, fr_impl_source = src,
         fr_view_range = v\<rparr>)))))))))"

definition dec_file_write :: "dict \<Rightarrow> action res" where
  "dec_file_write d = kwargs [''path'', ''content'', ''start'', ''end'', ''thought'', ''security_risk''] d
     (arg d ''path'' None as_str (\<lambda>p. arg d ''content'' None as_str (\<lambda>c. arg d ''start'' (Some 0) as_int (\<lambda>s.
      arg d ''end'' (Some (-1)) as_int (\<lambda>e. arg d ''thought'' (Some []) as_str (\<lambda>t. risk_arg d (\<lambda>r. Inr (FileWriteAction
        \<lparr>fw_path = p, fw_content = c, fw_start = s, fw_end = e, fw_thought = t, fw_security_risk = r\<rparr>))))))))"

definition dec_file_edit :: "dict \<Rightarrow> action res" where
  "dec_file_edit d = kwargs [''path'', ''command'', ''file_text'', ''old_str'', ''new_str'', ''insert_line'', ''content'',
       ''start'', ''end'', ''thought'', ''security_risk'', ''impl_source''] d
     (arg d ''path'' None as_str (\<lambda>p. arg d ''command'' (Some []) as_str (\<lambda>c.
      arg d ''file_text'' (Some None) (as_opt as_str) (\<lambda>ft. arg d ''old_str'' (Some None) (as_opt as_str) (\<lambda>os.
      arg d ''new_str'' (Some None) (as_opt as_str) (\<lambda>ns. arg d ''insert_line'' (Some None) (as_opt as_int) (\<lambda>il.
      arg d ''content'' (Some []) as_str (\<lambda>co. arg d ''start'' (Some 1) as_int (\<lambda>s. arg d ''end'' (Some (-1)) as_int (\<lambda>e.
      arg d ''thought'' (Some []) as_str (\<lambda>t. risk_arg d (\<lambda>r.
      arg d ''impl_source'' (Some EDIT_OH_ACI) (as_enum edit_source_of) (\<lambda>src. Inr (FileEditAction
        \<lparr>fe_path = p, fe_command = c, fe_file_text = ft, fe_old_str = os, fe_new_str = ns, fe_insert_line = il,
         fe_content = co, fe_start = s, fe_end = e, fe_thought = t, fe_security_risk = r, fe_impl_source = src\<rparr>))))))))))))))"

definition dec_message :: "dict \<Rightarrow> action res" where
  "dec_message d = kwargs [''content'', ''file_urls'', ''image_urls'', ''wait_for_response'', ''security_risk''] d
     (arg d ''content'' None as_str (\<lambda>c. arg d ''file_urls'' (Some None) (as_opt (as_list as_str)) (\<lambda>fu.
      arg d ''image_urls'' (Some None) (as_opt (as_list as_str)) (\<lambda>iu.
      arg d ''wait_for_response'' (Some False) as_bool (\<lambda>w. risk_arg d (\<lambda>r. Inr (MessageAction
        \<lparr>ma_content = c, ma_file_urls = fu, ma_image_urls = iu, ma_wait_for_response = w, ma_security_risk = r\<rparr>)))))))"

text \<open>The default of \<open>openhands_version\<close> is the installed version, a build-time constant: here a parameter-free \<open>None\<close> is never used, a missing version is ill-typed.\<close>

definition dec_system :: "dict \<Rightarrow> action res" where
  "dec_system d = kwargs [''content'', ''tools'', ''openhands_version'', ''agent_class''] d
     (arg d ''content'' None as_str (\<lambda>c. arg d ''tools'' (Some None) (as_opt (as_list as_json)) (\<lambda>ts.
      if \<not> d_has d ''openhands_version'' then Inl ill_typed else
      arg d ''openhands_version'' None (as_opt as_str) (\<lambda>v.
      arg d ''agent_class'' (Some None) (as_opt as_str) (\<lambda>a. Inr (SystemMessageAction
        \<lparr>sm_content = c, sm_tools = ts, sm_openhands_version = v, sm_agent_class = a\<rparr>))))))"

definition dec_condensation :: "dict \<Rightarrow> action res" where
  "dec_condensation d = kwargs [''forgotten_event_ids'', ''forgotten_events_start_id'', ''forgotten_events_end_id'', ''summary'', ''summary_offset''] d
     (arg d ''forgotten_event_ids'' (Some None) (as_opt (as_list as_int)) (\<lambda>ids.
      arg d ''forgotten_events_start_id'' (Some None) (as_opt as_int) (\<lambda>a.
      arg d ''forgotten_events_end_id'' (Some None) (as_opt as_int) (\<lambda>b.
      arg d ''summary'' (Some None) (as_opt as_str) (\<lambda>s.
      arg d ''summary_offset'' (Some None) (as_opt as_int) (\<lambda>off.
      bind_res (mk_condensation ids a b s off) (\<lambda>c. Inr (CondensationAction c))))))))"

definition dec_mcp :: "dict \<Rightarrow> action res" where
  "dec_mcp d = kwargs [''name'', ''arguments'', ''thought'', ''security_risk''] d
     (arg d ''name'' None as_str (\<lambda>n. arg d ''arguments'' (Some []) as_dict (\<lambda>a.
      arg d ''thought'' (Some []) as_str (\<lambda>t. risk_arg d (\<lambda>r. Inr (MCPAction
        \<lparr>mc_name = n, mc_arguments = a, mc_thought = t, mc_security_risk = r\<rparr>))))))"

text \<open>\<open>ACTION_TYPE_TO_CLASS\<close> with the constructors: \<open>None\<close> for an undefined action type.\<close>

definition action_class :: "string \<Rightarrow> (dict \<Rightarrow> action res) option" where
  "action_class ty =
     (if ty = ''null'' then Some (\<lambda>d. kwargs [] d (Inr NullAction))
      else if ty = ''run'' then Some dec_cmd_run
      else if ty = ''run_ipython'' then Some dec_ipython
      else if ty = ''browse'' then Some dec_browse_url
      else if ty = ''browse_interactive'' then Some dec_browse_interactive
      else if ty = ''read'' then Some dec_file_read
      else if ty = ''write'' then Some dec_file_write
      else if ty = ''edit'' then Some dec_file_edit
      else if ty = ''think'' then Some (\<lambda>d. kwargs [''thought''] d
        (arg d ''thought'' (Some []) as_str (\<lambda>t. Inr (AgentThinkAction t))))
      else if ty = ''finish'' then Some (\<lambda>d. kwargs [''final_thought'', ''outputs'', ''thought''] d
        (arg d ''final_thought'' (Some []) as_str (\<lambda>f. arg d ''outputs'' (Some []) as_dict (\<lambda>outs.
         arg d ''thought'' (Some []) as_str (\<lambda>t. Inr (AgentFinishAction f outs t))))))
      else if ty = ''reject'' then Some (\<lambda>d. kwargs [''outputs'', ''thought''] d
        (arg d ''outputs'' (Some []) as_dict (\<lambda>outs.
         arg d ''thought'' (Some []) as_str (\<lambda>t. Inr (AgentRejectAction outs t)))))
      else if ty = ''delegate'' then Some (\<lambda>d. kwargs [''agent'', ''inputs'', ''thought''] d
        (arg d ''agent'' None as_str (\<lambda>a. arg d ''inputs'' None as_dict (\<lambda>ins.
         arg d ''thought'' (Some []) as_str (\<lambda>t. Inr (AgentDelegateAction a ins t))))))
      else if ty = ''recall'' then Some (\<lambda>d. kwargs [''recall_type'', ''query'', ''thought''] d
        (arg d ''recall_type'' None (as_enum recall_type_of) (\<lambda>k. arg d ''query'' (Some []) as_str (\<lambda>q.
         arg d ''thought'' (Some []) as_str (\<lambda>t. Inr (RecallAction k q t))))))
      else if ty = ''change_agent_state'' then Some (\<lambda>d. kwargs [''agent_state'', ''thought''] d
        (arg d ''agent_state'' None (as_enum agent_state_of) (\<lambda>s.
         arg d ''thought'' (Some []) as_str (\<lambda>t. Inr (ChangeAgentStateAction s t)))))
      else if ty = ''message'' then Some dec_message
      else if ty = ''system'' then Some dec_system
      else if ty = ''condensation'' then Some dec_condensation
      else if ty = ''condensation_request'' then Some (\<lambda>d. kwargs [] d (Inr CondensationRequestAction))
      else if ty = ''call_tool_mcp'' then Some dec_mcp
      else if ty = ''task_tracking'' then Some (\<lambda>d. kwargs [''command'', ''task_list'', ''thought''] d
        (arg d ''command'' (Some ''view'') as_str (\<lambda>c. arg d ''task_list'' (Some []) (as_list as_json) (\<lambda>ts.
         arg d ''thought'' (Some []) as_str (\<lambda>t. Inr (TaskTrackingAction c ts t))))))
      else if ty = ''loop_recovery'' then Some (\<lambda>d. kwargs [''option''] d
        (arg d ''option'' (Some 1) as_int (\<lambda>n. Inr (LoopRecoveryAction n))))
      else None)"

text \<open>\<open>handle_action_deprecated_args\<close>; \<open>lit\<close> is \<open>ast.literal_eval\<close>, \<open>None\<close> where it raises.\<close>

definition handle_action_deprecated_args :: "(string \<Rightarrow> dict option) \<Rightarrow> dict \<Rightarrow> dict" where
  "handle_action_deprecated_args lit args =
     (let args = d_del ''task_completed'' (d_del ''keep_prompt'' args) in
      case d_get args ''translated_ipython_code'' of
        None \<Rightarrow> args
      | Some code \<Rightarrow>
          let args = d_del ''translated_ipython_code'' args;
              prefix = ''print(file_editor(**'';
              args = (case code of
                        JStr s \<Rightarrow>
                          if py_startswith s prefix \<and> py_endswith s ''))''
                          then (case lit (py_slice (int (length prefix)) (-2) s) of
                                  Some file_args \<Rightarrow> d_update args file_args
                                | None \<Rightarrow> args)
                          else args
                      | _ \<Rightarrow> args)
          in if d_get args ''command'' = Some (JStr ''view'') then d_del ''command'' args else args)"

text \<open>\<open>ActionSecurityRisk(v)\<close>: a lookup by equality, so \<open>True\<close> and \<open>1.0\<close> find the member of value 1.\<close>

definition risk_of_json :: "json \<Rightarrow> security_risk option" where
  "risk_of_json j =
     (case j of
        JInt i \<Rightarrow> risk_of i
      | JBool b \<Rightarrow> risk_of (if b then 1 else 0)
      | JFloat q \<Rightarrow> (if q = of_int \<lfloor>q\<rfloor> then risk_of \<lfloor>q\<rfloor> else None)
      | _ \<Rightarrow> None)"

definition compat_args :: "(string \<Rightarrow> dict option) \<Rightarrow> dict \<Rightarrow> dict" where
  \<comment> \<open>the rewrites of \<open>args\<close> after \<open>timestamp\<close> has been popped\<close>
  "compat_args lit args =
     (let args = (case d_get args ''is_confirmed'' of
                    None \<Rightarrow> args
                  | Some j \<Rightarrow> (if j = JNull then d_del ''is_confirmed'' args
                              else d_set ''confirmation_state'' j (d_del ''is_confirmed'' args)));
          args = (case d_get args ''images_urls'' of
                    None \<Rightarrow> args
                  | Some j \<Rightarrow> d_set ''image_urls'' j (d_del ''images_urls'' args));
          args = (case d_get args ''security_risk'' of
                    None \<Rightarrow> args
                  | Some j \<Rightarrow>
                      if j = JNull then args
                      else (case risk_of_json j of
                              Some r \<Rightarrow> d_set ''security_risk'' (JInt (risk_value r)) args
                            | None \<Rightarrow> d_del ''security_risk'' args))
      in handle_action_deprecated_args lit args)"

definition malformed :: "'a res \<Rightarrow> 'a res" where
  \<comment> \<open>\<open>except TypeError as e: raise LLMMalformedActionError\<close>\<close>
  "malformed r = (case r of Inl (TypeError m) \<Rightarrow> Inl (LLMMalformedActionError (''wrong arguments: '' @ m)) | _ \<Rightarrow> r)"

definition action_from_dict :: "(string \<Rightarrow> dict option) \<Rightarrow> dict \<Rightarrow> event res" where
  "action_from_dict lit d =
     (case d_get d ''action'' of
        None \<Rightarrow> Inl (LLMMalformedActionError ''action key is not found'')
      | Some (JStr ty) \<Rightarrow>
          (case action_class ty of
             None \<Rightarrow> Inl (LLMMalformedActionError (ty @ '' is not defined''))
           | Some mk \<Rightarrow>
               (case (case d_get d ''args'' of None \<Rightarrow> JObj [] | Some j \<Rightarrow> j) of
                  JObj args0 \<Rightarrow>
                    let timestamp = d_get args0 ''timestamp'';
                        args = compat_args lit (d_del ''timestamp'' args0)
                    in malformed (bind_res (mk args) (\<lambda>a.
                         let e = new_action a in
                         bind_res (case d_get d ''timeout'' of
                                     None \<Rightarrow> Inr e
                                   | Some j \<Rightarrow>
                                       bind_res (as_opt as_float j) (\<lambda>v.
                                       arg args ''blocking'' (Some False) as_bool (\<lambda>b. Inr (set_hard_timeout v b e))))
                           (\<lambda>e. case timestamp of
                                  Some (JStr (x # s)) \<Rightarrow> Inr (e\<lparr>ev_timestamp := Some (x # s)\<rparr>)
                                | _ \<Rightarrow> Inr e)))
                | _ \<Rightarrow> Inl ill_typed))
      | Some _ \<Rightarrow> Inl (LLMMalformedActionError ''action is not a string''))"

section \<open>Observations\<close>

text \<open>A pydantic model ignores keys it does not declare.\<close>

definition dec_metadata :: "dict \<Rightarrow> cmd_output_metadata res" where
  "dec_metadata d =
     arg d ''exit_code'' (Some (-1)) as_int (\<lambda>ec. arg d ''pid'' (Some (-1)) as_int (\<lambda>pid.
     arg d ''username'' (Some None) (as_opt as_str) (\<lambda>u. arg d ''hostname'' (Some None) (as_opt as_str) (\<lambda>h.
     arg d ''working_dir'' (Some None) (as_opt as_str) (\<lambda>w.
     arg d ''py_interpreter_path'' (Some None) (as_opt as_str) (\<lambda>py.
     arg d ''prefix'' (Some []) as_str (\<lambda>p. arg d ''suffix'' (Some []) as_str (\<lambda>sf.
       Inr \<lparr>cm_exit_code = ec, cm_pid = pid, cm_username = u, cm_hostname = h, cm_working_dir = w,
            cm_py_interpreter_path = py, cm_prefix = p, cm_suffix = sf\<rparr>))))))))"

definition dec_knowledge :: "json \<Rightarrow> microagent_knowledge res" where
  "dec_knowledge j = bind_res (as_dict j) (\<lambda>d. kwargs [''name'', ''trigger'', ''content''] d
     (arg d ''name'' None as_str (\<lambda>n. arg d ''trigger'' None as_str (\<lambda>t. arg d ''content'' None as_str (\<lambda>c.
        Inr \<lparr>mk_name = n, mk_trigger = t, mk_content = c\<rparr>)))))"

definition recall_type_member :: "string \<Rightarrow> recall_type res" where
  \<comment> \<open>\<open>RecallType(s)\<close>\<close>
  "recall_type_member s = (case recall_type_of s of OtherRecallType t \<Rightarrow> Inl (ValueError t) | k \<Rightarrow> Inr k)"

text \<open>\<open>CmdOutputObservation\<close> accepts any further keyword.\<close>

definition dec_cmd_output :: "string \<Rightarrow> dict \<Rightarrow> observation res" where
  "dec_cmd_output content d =
     bind_res (case d_get d ''metadata'' of Some (JObj m) \<Rightarrow> dec_metadata m | _ \<Rightarrow> Inr default_metadata) (\<lambda>md.
     arg d ''command'' None as_str (\<lambda>c. arg d ''hidden'' (Some False) as_bool (\<lambda>h.
       Inr (CmdOutputObservation (new_cmd_output content c md h None None)))))"

definition dec_browser :: "string \<Rightarrow> dict \<Rightarrow> observation res" where
  "dec_browser content d = kwargs [''url'', ''trigger_by_action'', ''screenshot'', ''screenshot_path'', ''set_of_marks'', ''error'',
       ''goal_image_urls'', ''open_pages_urls'', ''active_page_index'', ''dom_object'', ''axtree_object'',
       ''extra_element_properties'', ''last_browser_action'', ''last_browser_action_error'', ''focused_element_bid'',
       ''filter_visible_only''] d
     (arg d ''url'' None as_str (\<lambda>u. arg d ''trigger_by_action'' None as_str (\<lambda>t.
      arg d ''screenshot'' (Some []) as_str (\<lambda>sc. arg d ''screenshot_path'' (Some None) (as_opt as_str) (\<lambda>sp.
      arg d ''set_of_marks'' (Some []) as_str (\<lambda>sm. arg d ''error'' (Some False) as_bool (\<lambda>er.
      arg d ''goal_image_urls'' (Some []) (as_list as_str) (\<lambda>gi. arg d ''open_pages_urls'' (Some []) (as_list as_str) (\<lambda>op.
      arg d ''active_page_index'' (Some (-1)) as_int (\<lambda>ai. arg d ''dom_object'' (Some []) as_dict (\<lambda>dom.
      arg d ''axtree_object'' (Some []) as_dict (\<lambda>ax. arg d ''extra_element_properties'' (Some []) as_dict (\<lambda>ex.
      arg d ''last_browser_action'' (Some []) as_str (\<lambda>la. arg d ''last_browser_action_error'' (Some []) as_str (\<lambda>le.
      arg d ''focused_element_bid'' (Some []) as_str (\<lambda>fb. arg d ''filter_visible_only'' (Some False) as_bool (\<lambda>fv.
      Inr (BrowserOutputObservation
        \<lparr>bo_content = content, bo_url = u, bo_trigger_by_action = t, bo_screenshot = sc, bo_screenshot_path = sp,
         bo_set_of_marks = sm, bo_error = er, bo_goal_image_urls = gi, bo_open_pages_urls = op,
         bo_active_page_index = ai, bo_dom_object = dom, bo_axtree_object = ax, bo_extra_element_properties = ex,
         bo_last_browser_action = la, bo_last_browser_action_error = le, bo_focused_element_bid = fb,
         bo_filter_visible_only = fv\<rparr>))))))))))))))))))"

definition dec_file_edit_obs :: "string \<Rightarrow> dict \<Rightarrow> observation res" where
  "dec_file_edit_obs content d = kwargs [''path'', ''prev_exist'', ''old_content'', ''new_content'', ''impl_source'', ''diff'', ''_diff_cache''] d
     (arg d ''path'' (Some []) as_str (\<lambda>p. arg d ''prev_exist'' (Some False) as_bool (\<lambda>pe.
      arg d ''old_content'' (Some None) (as_opt as_str) (\<lambda>oc. arg d ''new_content'' (Some None) (as_opt as_str) (\<lambda>nc.
      arg d ''impl_source'' (Some LLM_BASED_EDIT) (as_enum edit_source_of) (\<lambda>src.
      arg d ''diff'' (Some None) (as_opt as_str) (\<lambda>df. arg d ''_diff_cache'' (Some None) (as_opt as_str) (\<lambda>dc.
      Inr (FileEditObservation
        \<lparr>fo_content = content, fo_path = p, fo_prev_exist = pe, fo_old_content = oc, fo_new_content = nc,
         fo_impl_source = src, fo_diff = df, fo_diff_cache = dc\<rparr>)))))))))"

definition dec_recall_obs :: "string \<Rightarrow> dict \<Rightarrow> observation res" where
  "dec_recall_obs content d = kwargs [''recall_type'', ''repo_name'', ''repo_directory'', ''repo_branch'', ''repo_instructions'',
       ''runtime_hosts'', ''additional_agent_instructions'', ''date'', ''custom_secrets_descriptions'',
       ''conversation_instructions'', ''working_dir'', ''microagent_knowledge''] d
     (arg d ''recall_type'' None (\<lambda>j. bind_res (as_str j) recall_type_member) (\<lambda>k.
      arg d ''repo_name'' (Some []) as_str (\<lambda>rn. arg d ''repo_directory'' (Some []) as_str (\<lambda>rd.
      arg d ''repo_branch'' (Some []) as_str (\<lambda>rb. arg d ''repo_instructions'' (Some []) as_str (\<lambda>ri.
      arg d ''runtime_hosts'' (Some []) (as_map as_int) (\<lambda>rh.
      arg d ''additional_agent_instructions'' (Some []) as_str (\<lambda>ai. arg d ''date'' (Some []) as_str (\<lambda>dt.
      arg d ''custom_secrets_descriptions'' (Some []) (as_map as_str) (\<lambda>cs.
      arg d ''conversation_instructions'' (Some []) as_str (\<lambda>ci. arg d ''working_dir'' (Some []) as_str (\<lambda>wd.
      arg d ''microagent_knowledge'' (Some []) (as_list dec_knowledge) (\<lambda>mk.
      Inr (RecallObservation
        \<lparr>ro_content = content, ro_recall_type = k, ro_repo_name = rn, ro_repo_directory = rd, ro_repo_branch = rb,
         ro_repo_instructions = ri, ro_runtime_hosts = rh, ro_additional_agent_instructions = ai, ro_date = dt,
         ro_custom_secrets_descriptions = cs, ro_conversation_instructions = ci, ro_working_dir = wd,
         ro_microagent_knowledge = mk\<rparr>))))))))))))))"

text \<open>\<open>OBSERVATION_TYPE_TO_CLASS\<close> with the constructors, which take the content and the extras.\<close>

definition observation_class :: "string \<Rightarrow> (string \<Rightarrow> dict \<Rightarrow> observation res) option" where
  "observation_class ty =
     (if ty = ''null'' then Some (\<lambda>c d. kwargs [] d (Inr (NullObservation c)))
      else if ty = ''run'' then Some dec_cmd_output
      else if ty = ''run_ipython'' then Some (\<lambda>c d. kwargs [''code'', ''image_urls''] d
        (arg d ''code'' None as_str (\<lambda>co. arg d ''image_urls'' (Some None) (as_opt (as_list as_str)) (\<lambda>iu.
         Inr (IPythonRunCellObservation \<lparr>io_content = c, io_code = co, io_image_urls = iu\<rparr>)))))
      else if ty = ''browse'' then Some dec_browser
      else if ty = ''read'' then Some (\<lambda>c d. kwargs [''path'', ''impl_source''] d
        (arg d ''path'' None as_str (\<lambda>p. arg d ''impl_source'' (Some READ_DEFAULT) (as_enum read_source_of) (\<lambda>s.
         Inr (FileReadObservation c p s)))))
      else if ty = ''write'' then Some (\<lambda>c d. kwargs [''path''] d
        (arg d ''path'' None as_str (\<lambda>p. Inr (FileWriteObservation c p))))
      else if ty = ''edit'' then Some dec_file_edit_obs
      else if ty = ''delegate'' then Some (\<lambda>c d. kwargs [''outputs''] d
        (arg d ''outputs'' None as_dict (\<lambda>outs. Inr (AgentDelegateObservation c outs))))
      else if ty = ''success'' then Some (\<lambda>c d. kwargs [] d (Inr (SuccessObservation c)))
      else if ty = ''error'' then Some (\<lambda>c d. kwargs [''error_id''] d
        (arg d ''error_id'' (Some []) as_str (\<lambda>i. Inr (ErrorObservation c i))))
      else if ty = ''agent_state_changed'' then Some (\<lambda>c d. kwargs [''agent_state'', ''reason''] d
        (arg d ''agent_state'' None (as_enum agent_state_of) (\<lambda>s. arg d ''reason'' (Some []) as_str (\<lambda>r.
         Inr (AgentStateChangedObservation c s r)))))
      else if ty = ''user_rejected'' then Some (\<lambda>c d. kwargs [] d (Inr (UserRejectObservation c)))
      else if ty = ''condense'' then Some (\<lambda>c d. kwargs [] d (Inr (AgentCondensationObservation c)))
      else if ty = ''think'' then Some (\<lambda>c d. kwargs [] d (Inr (AgentThinkObservation c)))
      else if ty = ''recall'' then Some dec_recall_obs
      else if ty = ''mcp'' then Some (\<lambda>c d. kwargs [''name'', ''arguments''] d
        (arg d ''name'' (Some []) as_str (\<lambda>n. arg d ''arguments'' (Some []) as_dict (\<lambda>a. Inr (MCPObservation c n a)))))
      else if ty = ''download'' then Some (\<lambda>c d. kwargs [''file_path''] d
        (arg d ''file_path'' None as_str (\<lambda>p. Inr (FileDownloadObservation c p))))
      else if ty = ''task_tracking'' then Some (\<lambda>c d. kwargs [''command'', ''task_list''] d
        (arg d ''command'' (Some []) as_str (\<lambda>m. arg d ''task_list'' (Some []) (as_list as_json) (\<lambda>ts.
         Inr (TaskTrackingObservation c m ts)))))
      else if ty = ''loop_detection'' then Some (\<lambda>c d. kwargs [] d (Inr (LoopDetectionObservation c)))
      else None)"

text \<open>\<open>_update_cmd_output_metadata\<close> with one keyword: a missing or null metadata becomes a new object.\<close>

definition update_cmd_output_metadata :: "json option \<Rightarrow> string \<Rightarrow> json \<Rightarrow> json" where
  "update_cmd_output_metadata md k v =
     (case md of
        Some (JObj m) \<Rightarrow> JObj (d_set k v m)
      | Some JNull \<Rightarrow> JObj [(k, v)]
      | Some j \<Rightarrow> j
      | None \<Rightarrow> JObj [(k, v)])"

definition handle_observation_deprecated_extras :: "dict \<Rightarrow> dict" where
  "handle_observation_deprecated_extras d =
     (let d = (case d_get d ''exit_code'' of None \<Rightarrow> d
                | Some v \<Rightarrow> d_set ''metadata'' (update_cmd_output_metadata (d_get d ''metadata'') ''exit_code'' v)
                             (d_del ''exit_code'' d));
          d = (case d_get d ''command_id'' of None \<Rightarrow> d
                | Some v \<Rightarrow> d_set ''metadata'' (update_cmd_output_metadata (d_get d ''metadata'') ''pid'' v)
                             (d_del ''command_id'' d))
      in d_del ''formatted_output_and_error'' d)"

definition observation_from_dict :: "dict \<Rightarrow> event res" where
  "observation_from_dict d =
     (case d_get d ''observation'' of
        None \<Rightarrow> Inl (KeyError ''observation'')
      | Some (JStr ty) \<Rightarrow>
          (case observation_class ty of
             None \<Rightarrow> Inl (KeyError ty)
           | Some mk \<Rightarrow>
               bind_res (case d_get d ''content'' of None \<Rightarrow> Inr [] | Some j \<Rightarrow> as_str j) (\<lambda>content.
               bind_res (case d_get d ''extras'' of None \<Rightarrow> Inr [] | Some j \<Rightarrow> as_dict j) (\<lambda>extras.
               bind_res (mk content (handle_observation_deprecated_extras extras)) (\<lambda>ob. Inr (new_obs ob)))))
      | Some _ \<Rightarrow> Inl (KeyError ''observation''))"

section \<open>Events\<close>

definition dec_cost :: "json \<Rightarrow> cost_entry res" where
  \<comment> \<open>a missing timestamp is the time of the call in Python; stored entries have one\<close>
  "dec_cost j = bind_res (as_dict j) (\<lambda>d.
     arg d ''model'' None as_str (\<lambda>m. arg d ''cost'' None as_float (\<lambda>c. arg d ''timestamp'' None as_float (\<lambda>t.
       Inr \<lparr>c_model = m, c_cost = c, c_timestamp = t\<rparr>))))"

definition dec_latency :: "json \<Rightarrow> response_latency res" where
  "dec_latency j = bind_res (as_dict j) (\<lambda>d.
     arg d ''model'' None as_str (\<lambda>m. arg d ''latency'' None as_float (\<lambda>l. arg d ''response_id'' None as_str (\<lambda>i.
       Inr \<lparr>rl_model = m, rl_latency = l, rl_response_id = i\<rparr>))))"

definition dec_usage :: "json \<Rightarrow> token_usage res" where
  "dec_usage j = bind_res (as_dict j) (\<lambda>d.
     arg d ''model'' (Some []) as_str (\<lambda>m. arg d ''prompt_tokens'' (Some 0) as_int (\<lambda>p.
     arg d ''completion_tokens'' (Some 0) as_int (\<lambda>c. arg d ''cache_read_tokens'' (Some 0) as_int (\<lambda>cr.
     arg d ''cache_write_tokens'' (Some 0) as_int (\<lambda>cw. arg d ''context_window'' (Some 0) as_int (\<lambda>w.
     arg d ''per_turn_token'' (Some 0) as_int (\<lambda>pt. arg d ''response_id'' (Some []) as_str (\<lambda>i.
       Inr \<lparr>tu_model = m, tu_prompt_tokens = p, tu_completion_tokens = c, tu_cache_read_tokens = cr,
            tu_cache_write_tokens = cw, tu_context_window = w, tu_per_turn_token = pt, tu_response_id = i\<rparr>)))))))))"

definition dec_metrics :: "json \<Rightarrow> metrics res" where
  "dec_metrics j =
     (let m = new_metrics ''default'' in
      case j of
        JObj d \<Rightarrow>
          arg d ''accumulated_cost'' (Some 0) as_float (\<lambda>c. bind_res (set_accumulated_cost c m) (\<lambda>m.
          arg d ''max_budget_per_task'' (Some None) (as_opt as_float) (\<lambda>b.
          arg d ''costs'' (Some []) (as_list dec_cost) (\<lambda>cs.
          arg d ''response_latencies'' (Some []) (as_list dec_latency) (\<lambda>ls.
          arg d ''token_usages'' (Some []) (as_list dec_usage) (\<lambda>us.
          arg d ''accumulated_token_usage'' (Some (accumulated_token_usage m)) dec_usage (\<lambda>u.
            Inr (m\<lparr>max_budget_per_task := b, costs := cs, response_latencies := ls, token_usages := us,
                   accumulated_token_usage := u\<rparr>))))))))
      | _ \<Rightarrow> Inr m)"

definition dec_tool_call :: "json \<Rightarrow> tool_call_metadata res" where
  "dec_tool_call j = bind_res (as_dict j) (\<lambda>d.
     arg d ''function_name'' None as_str (\<lambda>f. arg d ''tool_call_id'' None as_str (\<lambda>i.
     arg d ''model_response'' None as_json (\<lambda>r. arg d ''total_calls_in_response'' None as_int (\<lambda>n.
       Inr \<lparr>tc_function_name = f, tc_tool_call_id = i, tc_model_response = r, tc_total_calls_in_response = n\<rparr>)))))"

text \<open>
  One underscore key: set where present. Where a key is absent the attribute keeps the value the
  constructor left (\<open>timestamp\<close> may come from the arguments).
\<close>

definition under :: "dict \<Rightarrow> string \<Rightarrow> (json \<Rightarrow> 'a res) \<Rightarrow> 'a \<Rightarrow> ('a \<Rightarrow> 'b res) \<Rightarrow> 'b res" where
  "under d k conv old f = arg d k (Some old) conv f"

definition event_from_dict :: "(string \<Rightarrow> dict option) \<Rightarrow> dict \<Rightarrow> event res" where
  "event_from_dict lit d =
     bind_res (if d_has d ''action'' then action_from_dict lit d
               else if d_has d ''observation'' then observation_from_dict d
               else Inl (ValueError ''Unknown event type''))
       (\<lambda>e. under d ''id'' (as_opt as_int) (ev_id e) (\<lambda>i.
            under d ''timestamp'' (as_opt as_str) (ev_timestamp e) (\<lambda>ts.
            under d ''source'' (\<lambda>j. bind_res (as_str j) (\<lambda>s. bind_res (source_of s) (\<lambda>s. Inr (Some s)))) (ev_source e) (\<lambda>s.
            under d ''cause'' (as_opt as_int) (ev_cause e) (\<lambda>c.
            under d ''tool_call_metadata'' (\<lambda>j. bind_res (dec_tool_call j) (\<lambda>t. Inr (Some t))) (ev_tool_call_metadata e) (\<lambda>t.
            under d ''llm_metrics'' (\<lambda>j. bind_res (dec_metrics j) (\<lambda>m. Inr (Some m))) (ev_llm_metrics e) (\<lambda>m.
              Inr (e\<lparr>ev_id := i, ev_timestamp := ts, ev_source := s, ev_cause := c,
                     ev_tool_call_metadata := t, ev_llm_metrics := m\<rparr>))))))))"

section \<open>Trajectories\<close>

definition DELETE_FROM_TRAJECTORY_EXTRAS :: "string list" where
  "DELETE_FROM_TRAJECTORY_EXTRAS = [''dom_object'', ''axtree_object'', ''active_page_index'', ''last_browser_action'',
     ''last_browser_action_error'', ''focused_element_bid'', ''extra_element_properties'']"

definition DELETE_FROM_TRAJECTORY_EXTRAS_AND_SCREENSHOTS :: "string list" where
  "DELETE_FROM_TRAJECTORY_EXTRAS_AND_SCREENSHOTS = DELETE_FROM_TRAJECTORY_EXTRAS @ [''screenshot'', ''set_of_marks'']"

lemma size_dict_member: "(k, v) \<in> set d \<Longrightarrow> size v < size (JObj d)"
  by (induction d) auto

text \<open>\<open>remove_fields\<close>: the named keys go at every depth, through lists and dictionaries.\<close>

function remove_fields :: "string list \<Rightarrow> json \<Rightarrow> json" where
  "remove_fields fs (JObj d) = JObj (map (\<lambda>(k, v). (k, remove_fields fs v)) (filter (\<lambda>(k, v). k \<notin> set fs) d))"
| "remove_fields fs (JList js) = JList (map (remove_fields fs) js)"
| "remove_fields fs JNull = JNull"
| "remove_fields fs (JBool b) = JBool b"
| "remove_fields fs (JInt i) = JInt i"
| "remove_fields fs (JFloat q) = JFloat q"
| "remove_fields fs (JStr s) = JStr s"
  by pat_completeness auto
termination
proof (relation "measure (\<lambda>(fs, j). size j)")
  fix fs :: "string list" and d :: dict and z x v
  assume "z \<in> set (filter (\<lambda>(k, v). k \<notin> set fs) d)" and "(x, v) = z"
  then have "(x, v) \<in> set d" by auto
  then show "((fs, v), (fs, JObj d)) \<in> measure (\<lambda>(fs, j). size j)"
    using size_dict_member by auto
next
  fix fs :: "string list" and js :: "json list" and z
  assume "z \<in> set js"
  then show "((fs, z), (fs, JList js)) \<in> measure (\<lambda>(fs, j). size j)"
    using size_list_estimation' [of z js "size z" size] by simp
qed simp

definition event_to_trajectory :: "bool \<Rightarrow> event \<Rightarrow> dict res" where
  "event_to_trajectory include_screenshots e =
     bind_res (event_to_dict e) (\<lambda>d.
       Inr (case d_get d ''extras'' of
              None \<Rightarrow> d
            | Some x \<Rightarrow> d_set ''extras''
                (remove_fields (if include_screenshots then DELETE_FROM_TRAJECTORY_EXTRAS
                                else DELETE_FROM_TRAJECTORY_EXTRAS_AND_SCREENSHOTS) x) d))"

definition truncate_content :: "string \<Rightarrow> int option \<Rightarrow> string" where
  "truncate_content content max_chars =
     (case max_chars of
        None \<Rightarrow> content
      | Some n \<Rightarrow> if int (length content) \<le> n \<or> n < 0 then content
                  else truncate_middle (nat (n div 2)) content)"

end
