(* ===== verification/EventStore.thy ===== *)
theory EventStore
  imports EventFilter Deserialization FileStore
begin

text \<open>
  The stored list of events of a conversation (\<open>openhands/events/event_store.py\<close>): the next id computed
  from the file names, lookup by id, and the search that reads aligned pages of the cache where they
  exist and single files elsewhere.

  The operations take the file store they call as arguments (\<open>rd\<close>, \<open>ls\<close>), as the Python object holds
  one; a file's contents is its parsed document. \<open>cont\<close> is \<open>should_continue()\<close>, the process-wide
  shutdown flag, at the moment an index is visited.
\<close>

record 's event_store =
  es_sid :: string
  es_user_id :: "string option"
  es_cache_size :: int
  es_cur_id :: "int option"
  es_files :: 's

section \<open>Ids and names\<close>

definition get_filename_for_id :: "('s, 'm) event_store_scheme \<Rightarrow> int \<Rightarrow> string" where
  "get_filename_for_id st i = get_conversation_event_filename (es_sid st) i (es_user_id st)"

definition get_filename_for_cache :: "('s, 'm) event_store_scheme \<Rightarrow> int \<Rightarrow> int \<Rightarrow> string" where
  "get_filename_for_cache st a b = event_cache_filename (es_sid st) (es_user_id st) a b"

definition get_id_from_filename :: "string \<Rightarrow> int" where
  "get_id_from_filename nm =
     (case py_int (hd (py_split (CHR ''.'') (last (py_split (CHR ''/'') nm)))) of Some i \<Rightarrow> i | None \<Rightarrow> -1)"

definition max_event_id :: "string list \<Rightarrow> int" where
  "max_event_id names = foldl (\<lambda>m nm. let i = get_id_from_filename nm in if m \<le> i then i else m) (-1) names"

definition calculate_cur_id :: "('s \<Rightarrow> string \<Rightarrow> string list res) \<Rightarrow> ('s, 'm) event_store_scheme \<Rightarrow> int res" where
  "calculate_cur_id ls st =
     (case ls (es_files st) (get_conversation_events_dir (es_sid st) (es_user_id st)) of
        Inl FileNotFoundError \<Rightarrow> Inr 0
      | Inl e \<Rightarrow> Inl e
      | Inr [] \<Rightarrow> Inr 0
      | Inr (nm # names) \<Rightarrow> Inr (max_event_id (nm # names) + 1))"

text \<open>The property \<open>cur_id\<close> computes its value once and keeps it.\<close>

definition cur_id :: "('s \<Rightarrow> string \<Rightarrow> string list res) \<Rightarrow> ('s, 'm) event_store_scheme \<Rightarrow> (('s, 'm) event_store_scheme \<times> int) res" where
  "cur_id ls st =
     (case es_cur_id st of
        Some i \<Rightarrow> Inr (st, i)
      | None \<Rightarrow> bind_res (calculate_cur_id ls st) (\<lambda>i. Inr (st\<lparr>es_cur_id := Some i\<rparr>, i)))"

section \<open>Reading\<close>

definition get_event ::
  "('s \<Rightarrow> string \<Rightarrow> json res) \<Rightarrow> (string \<Rightarrow> dict option) \<Rightarrow> ('s, 'm) event_store_scheme \<Rightarrow> int \<Rightarrow> event res" where
  "get_event rd lit st i =
     bind_res (rd (es_files st) (get_filename_for_id st i)) (\<lambda>j. bind_res (as_dict j) (event_from_dict lit))"

record cache_page =
  cp_events :: "json list option"
  cp_start :: int
  cp_end :: int

definition DUMMY_PAGE :: cache_page where
  "DUMMY_PAGE = \<lparr>cp_events = None, cp_start = 1, cp_end = -1\<rparr>"

definition covers :: "cache_page \<Rightarrow> int \<Rightarrow> bool" where
  "covers p i = (if i < cp_start p then False else if cp_end p \<le> i then False else True)"

definition page_get_event :: "(string \<Rightarrow> dict option) \<Rightarrow> cache_page \<Rightarrow> int \<Rightarrow> event option res" where
  "page_get_event lit p i =
     (case given (cp_events p) of
        None \<Rightarrow> Inr None
      | Some es \<Rightarrow>
          bind_res (py_get es (i - cp_start p)) (\<lambda>j.
          bind_res (as_dict j) (\<lambda>d. bind_res (event_from_dict lit d) (\<lambda>e. Inr (Some e)))))"

definition load_cache_page ::
  "('s \<Rightarrow> string \<Rightarrow> json res) \<Rightarrow> ('s, 'm) event_store_scheme \<Rightarrow> int \<Rightarrow> int \<Rightarrow> cache_page res" where
  "load_cache_page rd st a b =
     (case rd (es_files st) (get_filename_for_cache st a b) of
        Inl FileNotFoundError \<Rightarrow> Inr \<lparr>cp_events = None, cp_start = a, cp_end = b\<rparr>
      | Inl e \<Rightarrow> Inl e
      | Inr (JList es) \<Rightarrow> Inr \<lparr>cp_events = Some es, cp_start = a, cp_end = b\<rparr>
      | Inr _ \<Rightarrow> Inl ill_typed)"

definition load_cache_page_for_index ::
  "('s \<Rightarrow> string \<Rightarrow> json res) \<Rightarrow> ('s, 'm) event_store_scheme \<Rightarrow> int \<Rightarrow> cache_page res" where
  "load_cache_page_for_index rd st i =
     (let offset = i mod es_cache_size st; i = i - offset in load_cache_page rd st i (i + es_cache_size st))"

section \<open>Searching\<close>

definition range_up :: "int \<Rightarrow> int \<Rightarrow> int list" where "range_up a b = [a..b - 1]"
definition range_down :: "int \<Rightarrow> int \<Rightarrow> int list" where "range_down a b = rev [b + 1..a]"

text \<open>The events the generator yields before it ends, and the exception it ends with, if any.\<close>

type_synonym yielded = "event list \<times> py_error option"

definition yield_event :: "event \<Rightarrow> yielded \<Rightarrow> yielded" where
  "yield_event e y = (e # fst y, snd y)"

definition filter_truth :: "event_filter option \<Rightarrow> event \<Rightarrow> bool res" where
  "filter_truth f e = (case f of None \<Rightarrow> Inr True | Some f \<Rightarrow> filter_include f e)"

definition limit_reached :: "int option \<Rightarrow> int \<Rightarrow> bool" where
  \<comment> \<open>\<open>limit and limit <= num_results\<close>\<close>
  "limit_reached limit n = (case limit of None \<Rightarrow> False | Some l \<Rightarrow> l \<noteq> 0 \<and> l \<le> n)"

definition event_at_index ::
  "('s \<Rightarrow> string \<Rightarrow> json res) \<Rightarrow> (string \<Rightarrow> dict option) \<Rightarrow> ('s, 'm) event_store_scheme \<Rightarrow> cache_page \<Rightarrow> int \<Rightarrow> event option res" where
  "event_at_index rd lit st page i =
     bind_res (page_get_event lit page i) (\<lambda>cached.
       case cached of
         Some e \<Rightarrow> Inr (Some e)
       | None \<Rightarrow> (case get_event rd lit st i of
                    Inl FileNotFoundError \<Rightarrow> Inr None
                  | Inl err \<Rightarrow> Inl err
                  | Inr e \<Rightarrow> Inr (Some e)))"

fun search_loop ::
  "('s \<Rightarrow> string \<Rightarrow> json res) \<Rightarrow> (string \<Rightarrow> dict option) \<Rightarrow> (int \<Rightarrow> bool) \<Rightarrow> ('s, 'm) event_store_scheme
     \<Rightarrow> event_filter option \<Rightarrow> int option \<Rightarrow> int list \<Rightarrow> cache_page \<Rightarrow> int \<Rightarrow> yielded" where
  "search_loop rd lit cont st filt limit [] page n = ([], None)"
| "search_loop rd lit cont st filt limit (i # is) page n =
     (if \<not> cont i then ([], None) else
      case (if covers page i then Inr page else load_cache_page_for_index rd st i) of
        Inl err \<Rightarrow> ([], Some err)
      | Inr page \<Rightarrow>
          (case event_at_index rd lit st page i of
             Inl err \<Rightarrow> ([], Some err)
           | Inr None \<Rightarrow> search_loop rd lit cont st filt limit is page n
           | Inr (Some e) \<Rightarrow>
               (case filter_truth filt e of
                  Inl err \<Rightarrow> ([], Some err)
                | Inr False \<Rightarrow> search_loop rd lit cont st filt limit is page n
                | Inr True \<Rightarrow> yield_event e
                    (if limit_reached limit (n + 1) then ([], None)
                     else search_loop rd lit cont st filt limit is page (n + 1)))))"

definition search_events ::
  "('s \<Rightarrow> string \<Rightarrow> json res) \<Rightarrow> ('s \<Rightarrow> string \<Rightarrow> string list res) \<Rightarrow> (string \<Rightarrow> dict option) \<Rightarrow> (int \<Rightarrow> bool)
     \<Rightarrow> int \<Rightarrow> int option \<Rightarrow> bool \<Rightarrow> event_filter option \<Rightarrow> int option
     \<Rightarrow> ('s, 'm) event_store_scheme \<Rightarrow> ('s, 'm) event_store_scheme \<times> yielded" where
  "search_events rd ls lit cont start_id end_id reverse filt limit st =
     (case (case end_id of None \<Rightarrow> cur_id ls st | Some e \<Rightarrow> Inr (st, e + 1)) of
        Inl err \<Rightarrow> (st, [], Some err)
      | Inr (st, end_id) \<Rightarrow>
          let indices = (if reverse then range_down (end_id - 1) (start_id - 1) else range_up start_id end_id)
          in (st, search_loop rd lit cont st filt limit indices DUMMY_PAGE 0))"

definition get_latest_event ::
  "('s \<Rightarrow> string \<Rightarrow> json res) \<Rightarrow> ('s \<Rightarrow> string \<Rightarrow> string list res) \<Rightarrow> (string \<Rightarrow> dict option)
     \<Rightarrow> ('s, 'm) event_store_scheme \<Rightarrow> ('s, 'm) event_store_scheme \<times> event res" where
  "get_latest_event rd ls lit st =
     (case cur_id ls st of Inl err \<Rightarrow> (st, Inl err) | Inr (st, i) \<Rightarrow> (st, get_event rd lit st (i - 1)))"

definition get_latest_event_id ::
  "('s \<Rightarrow> string \<Rightarrow> string list res) \<Rightarrow> ('s, 'm) event_store_scheme \<Rightarrow> (('s, 'm) event_store_scheme \<times> int) res" where
  "get_latest_event_id ls st = bind_res (cur_id ls st) (\<lambda>(st, i). Inr (st, i - 1))"

definition filtered_events_by_source ::
  "('s \<Rightarrow> string \<Rightarrow> json res) \<Rightarrow> ('s \<Rightarrow> string \<Rightarrow> string list res) \<Rightarrow> (string \<Rightarrow> dict option) \<Rightarrow> (int \<Rightarrow> bool)
     \<Rightarrow> event_source \<Rightarrow> ('s, 'm) event_store_scheme \<Rightarrow> ('s, 'm) event_store_scheme \<times> yielded" where
  "filtered_events_by_source rd ls lit cont source st =
     (case search_events rd ls lit cont 0 None False None None st of
        (st, es, err) \<Rightarrow> (st, filter (\<lambda>e. ev_source e = Some source) es, err))"

text \<open>\<open>get_matching_events\<close> of the abstract class: \<open>islice\<close> stops the generator at the limit.\<close>

definition get_matching_events ::
  "('s \<Rightarrow> string \<Rightarrow> json res) \<Rightarrow> ('s \<Rightarrow> string \<Rightarrow> string list res) \<Rightarrow> (string \<Rightarrow> dict option) \<Rightarrow> (int \<Rightarrow> bool)
     \<Rightarrow> string option \<Rightarrow> (body \<Rightarrow> bool) list option \<Rightarrow> string option \<Rightarrow> string option \<Rightarrow> string option
     \<Rightarrow> int \<Rightarrow> int \<Rightarrow> bool \<Rightarrow> ('s, 'm) event_store_scheme \<Rightarrow> ('s, 'm) event_store_scheme \<times> event list res" where
  "get_matching_events rd ls lit cont query event_types source start_date end_date start_id limit reverse st =
     (if limit < 1 \<or> 100 < limit then (st, Inl (ValueError ''Limit must be between 1 and 100''))
      else let f = \<lparr>ef_exclude_hidden = False, ef_query = query, ef_include_types = event_types,
                    ef_exclude_types = None, ef_source = source, ef_start_date = start_date, ef_end_date = end_date\<rparr>
           in (case search_events rd ls lit cont start_id None reverse (Some f) None st of
                 (st, es, err) \<Rightarrow>
                   (st, if limit \<le> int (length es) then Inr (take (nat limit) es)
                        else (case err of None \<Rightarrow> Inr es | Some err \<Rightarrow> Inl err))))"

section \<open>The abstract log\<close>

text \<open>
  What a store holds, abstractly, is a partial map from ids to events. A store is well formed where every event file parses to
  an event of its own id and every aligned cache page that exists holds the documents of exactly its
  indices; whatever else lies in the directories is not looked at.
\<close>

definition stored ::
  "('s \<Rightarrow> string \<Rightarrow> json res) \<Rightarrow> (string \<Rightarrow> dict option) \<Rightarrow> ('s, 'm) event_store_scheme \<Rightarrow> int \<Rightarrow> event option" where
  "stored rd lit st i = (case get_event rd lit st i of Inl _ \<Rightarrow> None | Inr e \<Rightarrow> Some e)"

definition files_ok :: "('s \<Rightarrow> string \<Rightarrow> json res) \<Rightarrow> (string \<Rightarrow> dict option) \<Rightarrow> ('s, 'm) event_store_scheme \<Rightarrow> bool" where
  "files_ok rd lit st \<longleftrightarrow>
     (\<forall>i j. rd (es_files st) (get_filename_for_id st i) = Inr j \<longrightarrow>
        (\<exists>d e. j = JObj d \<and> event_from_dict lit d = Inr e \<and> event_id e = i))"

definition pages_ok :: "('s \<Rightarrow> string \<Rightarrow> json res) \<Rightarrow> ('s, 'm) event_store_scheme \<Rightarrow> bool" where
  "pages_ok rd st \<longleftrightarrow>
     (\<forall>a j. a mod es_cache_size st = 0 \<longrightarrow> rd (es_files st) (get_filename_for_cache st a (a + es_cache_size st)) = Inr j \<longrightarrow>
        (\<exists>ds. j = JList (map JObj ds) \<and> int (length ds) = es_cache_size st
           \<and> (\<forall>k < length ds. rd (es_files st) (get_filename_for_id st (a + int k)) = Inr (JObj (ds ! k)))))"

lemma files_okD:
  assumes "files_ok rd lit st" and "rd (es_files st) (get_filename_for_id st i) = Inr j"
  obtains d e where "j = JObj d" and "event_from_dict lit d = Inr e" and "event_id e = i"
  using assms unfolding files_ok_def by blast

lemma pages_okD:
  assumes "pages_ok rd st" and "a mod es_cache_size st = 0"
    and "rd (es_files st) (get_filename_for_cache st a (a + es_cache_size st)) = Inr j"
  obtains ds where "j = JList (map JObj ds)" and "int (length ds) = es_cache_size st"
    and "\<And>k. k < length ds \<Longrightarrow> rd (es_files st) (get_filename_for_id st (a + int k)) = Inr (JObj (ds ! k))"
  using assms(1)[unfolded pages_ok_def, rule_format, OF assms(2,3)] that by blast

definition store_ok :: "('s \<Rightarrow> string \<Rightarrow> json res) \<Rightarrow> (string \<Rightarrow> dict option) \<Rightarrow> ('s, 'm) event_store_scheme \<Rightarrow> bool" where
  "store_ok rd lit st \<longleftrightarrow> 0 < es_cache_size st \<and> files_ok rd lit st \<and> pages_ok rd st"

text \<open>The search over a plain list of events: what the paged search is meant to compute.\<close>

fun select_events :: "event_filter option \<Rightarrow> int option \<Rightarrow> int \<Rightarrow> event list \<Rightarrow> yielded" where
  "select_events filt limit n [] = ([], None)"
| "select_events filt limit n (e # es) =
     (case filter_truth filt e of
        Inl err \<Rightarrow> ([], Some err)
      | Inr False \<Rightarrow> select_events filt limit n es
      | Inr True \<Rightarrow> yield_event e
          (if limit_reached limit (n + 1) then ([], None) else select_events filt limit (n + 1) es))"

lemma select_all: "(\<And>e. e \<in> set es \<Longrightarrow> filter_truth filt e = Inr (p e)) \<Longrightarrow> limit = None \<or> limit = Some 0
    \<Longrightarrow> select_events filt limit n es = (filter p es, None)"
  by (induction es arbitrary: n) (auto simp: yield_event_def limit_reached_def)

lemma select_limit:
  assumes "\<And>e. e \<in> set es \<Longrightarrow> filter_truth filt e = Inr (p e)" and "0 \<le> n" and "n < l"
  shows "select_events filt (Some l) n es = (take (nat (l - n)) (filter p es), None)"
  using assms
proof (induction es arbitrary: n)
  case (Cons e es)
  have nat: "nat (l - n) = Suc (nat (l - (n + 1)))" using Cons.prems by simp
  show ?case
  proof (cases "l \<le> n + 1")
    case True
    then have "nat (l - (n + 1)) = 0" by simp
    with Cons True nat show ?thesis
      by (auto simp: yield_event_def limit_reached_def)
  next
    case False
    with Cons nat show ?thesis
      by (auto simp: yield_event_def limit_reached_def)
  qed
qed simp

locale event_files = file_store wr rd ls
  for wr :: "string \<Rightarrow> json \<Rightarrow> 's \<Rightarrow> 's" and rd :: "'s \<Rightarrow> string \<Rightarrow> json res" and ls :: "'s \<Rightarrow> string \<Rightarrow> string list res" +
  fixes lit :: "string \<Rightarrow> dict option"
begin

lemma get_event_missing:
  assumes "files_ok rd lit st" and "get_event rd lit st i = Inl err"
  shows "err = FileNotFoundError"
proof (cases "rd (es_files st) (get_filename_for_id st i)")
  case (Inl e)
  with assms read_missing [OF Inl] show ?thesis by (simp add: get_event_def)
next
  case (Inr j)
  from files_okD [OF assms(1) this] obtain d e where "j = JObj d" "event_from_dict lit d = Inr e" by blast
  with assms(2) Inr show ?thesis by (simp add: get_event_def as_dict_def)
qed

lemma get_event_stored:
  assumes "files_ok rd lit st"
  shows "(case get_event rd lit st i of Inl FileNotFoundError \<Rightarrow> Inr None | Inl err \<Rightarrow> Inl err | Inr e \<Rightarrow> Inr (Some e))
    = (Inr (stored rd lit st i) :: event option res)"
proof (cases "get_event rd lit st i")
  case (Inl e)
  with get_event_missing [OF assms Inl] show ?thesis by (simp add: stored_def)
qed (simp add: stored_def)

lemma stored_id: "files_ok rd lit st \<Longrightarrow> stored rd lit st i = Some e \<Longrightarrow> event_id e = i"
proof -
  assume ok: "files_ok rd lit st" and e: "stored rd lit st i = Some e"
  then obtain j where j: "rd (es_files st) (get_filename_for_id st i) = Inr j"
    by (auto simp: stored_def get_event_def bind_res_def split: sum.splits)
  from files_okD [OF ok j] obtain d e' where "j = JObj d" "event_from_dict lit d = Inr e'" "event_id e' = i" by blast
  with e j show "event_id e = i" by (simp add: stored_def get_event_def as_dict_def)
qed

text \<open>A page is faithful where an index it covers gives the stored event, or no page was there.\<close>

definition page_ok :: "('s, 'm) event_store_scheme \<Rightarrow> cache_page \<Rightarrow> bool" where
  "page_ok st p \<longleftrightarrow> (\<forall>i. covers p i \<longrightarrow>
     page_get_event lit p i = Inr None
     \<or> (\<exists>e. page_get_event lit p i = Inr (Some e) \<and> stored rd lit st i = Some e))"

lemma dummy_page_ok: "page_ok st DUMMY_PAGE"
  by (simp add: page_ok_def covers_def DUMMY_PAGE_def)

lemma load_page_ok:
  assumes "store_ok rd lit st"
  shows "\<exists>p. load_cache_page_for_index rd st i = Inr p \<and> page_ok st p \<and> covers p i"
proof -
  let ?n = "es_cache_size st"
  let ?a = "i - i mod ?n"
  have n: "0 < ?n" and fok: "files_ok rd lit st" and pok: "pages_ok rd st" using assms by (simp_all add: store_ok_def)
  have cov: "?a \<le> i" "i < ?a + ?n" using n by (simp_all add: pos_mod_sign pos_mod_bound)
  have al: "?a mod ?n = 0" by (simp add: mod_diff_left_eq)
  show ?thesis
  proof (cases "rd (es_files st) (get_filename_for_cache st ?a (?a + ?n))")
    case (Inl e)
    with read_missing [OF Inl] cov show ?thesis
      by (simp add: load_cache_page_for_index_def load_cache_page_def Let_def page_ok_def page_get_event_def given_def covers_def)
  next
    case (Inr j)
    from pages_okD [OF pok al Inr] obtain ds where ds: "j = JList (map JObj ds)" "int (length ds) = ?n"
      "\<And>k. k < length ds \<Longrightarrow> rd (es_files st) (get_filename_for_id st (?a + int k)) = Inr (JObj (ds ! k))"
      by blast
    let ?p = "\<lparr>cp_events = Some (map JObj ds), cp_start = ?a, cp_end = ?a + ?n\<rparr>"
    have ne: "ds \<noteq> []" using n ds(2) by auto
    have "page_ok st ?p"
      unfolding page_ok_def
    proof (intro allI impI disjI2)
      fix k assume "covers ?p k"
      then have k: "?a \<le> k" "k < ?a + ?n" by (simp_all add: covers_def split: if_splits)
      let ?k = "nat (k - ?a)"
      have kl: "?k < length ds" using k ds(2) by linarith
      have fl: "rd (es_files st) (get_filename_for_id st k) = Inr (JObj (ds ! ?k))"
        using ds(3) [OF kl] k(1) by simp
      from files_okD [OF fok fl] obtain e where e: "event_from_dict lit (ds ! ?k) = Inr e" by blast
      have "given (Some (map JObj ds)) = Some (map JObj ds)" using ne by (cases ds) (simp_all add: given_def)
      moreover have "py_get (map JObj ds) (k - ?a) = Inr (JObj (ds ! ?k))"
        using k ds(2) kl by (simp add: py_get_def py_clamp_def)
      ultimately have "page_get_event lit ?p k = Inr (Some e)"
        using e by (simp add: page_get_event_def as_dict_def)
      moreover have "stored rd lit st k = Some e"
        using fl e by (simp add: stored_def get_event_def as_dict_def)
      ultimately show "\<exists>e. page_get_event lit ?p k = Inr (Some e) \<and> stored rd lit st k = Some e" by blast
    qed
    with Inr ds(1) cov show ?thesis
      by (simp add: load_cache_page_for_index_def load_cache_page_def Let_def covers_def)
  qed
qed

lemma event_at_index_stored:
  assumes "files_ok rd lit st" and "page_ok st p" and "covers p i"
  shows "event_at_index rd lit st p i = Inr (stored rd lit st i)"
  using assms(2,3) get_event_stored [OF assms(1), of i]
  by (fastforce simp: event_at_index_def page_ok_def)

text \<open>The paged search computes the search over the stored events, page or no page.\<close>

lemma search_loop_select:
  assumes "store_ok rd lit st" and "page_ok st p" and "\<And>i. cont i"
  shows "search_loop rd lit cont st filt limit is p n
    = select_events filt limit n (List.map_filter (stored rd lit st) is)"
  using assms(2)
proof (induction "is" arbitrary: p n)
  case Nil
  then show ?case by (simp add: map_filter_simps)
next
  case (Cons i "is")
  have fok: "files_ok rd lit st" using assms(1) by (simp add: store_ok_def)
  obtain q where q: "(if covers p i then Inr p else load_cache_page_for_index rd st i) = Inr q"
      "page_ok st q" "covers q i"
    using load_page_ok [OF assms(1), of i] Cons.prems by (cases "covers p i") auto
  have at: "event_at_index rd lit st q i = Inr (stored rd lit st i)"
    by (rule event_at_index_stored [OF fok q(2,3)])
  show ?case
  proof (cases "stored rd lit st i")
    case None
    with q at assms(3) Cons.IH [OF q(2)] show ?thesis by (simp add: map_filter_simps)
  next
    case (Some e)
    with q at assms(3) Cons.IH [OF q(2)] show ?thesis
      by (simp add: map_filter_simps split: sum.split bool.split)
  qed
qed

lemma search_events_select:
  assumes "store_ok rd lit st" and "\<And>i. cont i" and "cur_id ls st = Inr (st', n)" and "end_id = None \<and> b = n - 1 \<or> end_id = Some b"
  shows "snd (search_events rd ls lit cont a end_id reverse filt limit st)
    = select_events filt limit 0 (List.map_filter (stored rd lit st) (if reverse then rev [a..b] else [a..b]))"
proof -
  have st': "es_files st' = es_files st \<and> es_sid st' = es_sid st \<and> es_user_id st' = es_user_id st \<and> es_cache_size st' = es_cache_size st"
    using assms(3) by (auto simp: cur_id_def bind_res_Inr split: option.splits)
  have same: "store_ok rd lit st' = store_ok rd lit st" "stored rd lit st' = stored rd lit st"
    using st' by (auto simp: store_ok_def files_ok_def pages_ok_def stored_def get_event_def fun_eq_iff
        get_filename_for_id_def get_filename_for_cache_def)
  note loop = search_loop_select [OF _ dummy_page_ok assms(2)]
  from assms(4) show ?thesis
  proof
    assume "end_id = None \<and> b = n - 1"
    with assms(1,3) same loop [of st'] show ?thesis
      by (simp add: search_events_def Let_def range_up_def range_down_def)
  next
    assume "end_id = Some b"
    with assms(1) loop [of st] show ?thesis
      by (simp add: search_events_def Let_def range_up_def range_down_def)
  qed
qed

end

section \<open>The next id\<close>

lemma last_py_split: "c \<notin> set w \<Longrightarrow> last (py_split c (s @ c # w)) = w"
proof (induction s)
  case Nil
  then show ?case by (simp add: py_split_single)
next
  case (Cons x s)
  obtain v vs where "py_split c (s @ c # w) = v # vs" by (cases "py_split c (s @ c # w)") auto
  moreover have "vs \<noteq> []"
  proof
    assume "vs = []"
    with calculation have "py_join [c] [v] = s @ c # w" using py_join_split [of c "s @ c # w"] by simp
    moreover have "c \<notin> set v" using \<open>vs = []\<close> calculation py_split_no_sep [of v c "s @ c # w"] \<open>py_split c (s @ c # w) = v # vs\<close> by simp
    ultimately show False by auto
  qed
  ultimately show ?case using Cons by (auto split: list.splits)
qed

lemma events_dir_slash: "get_conversation_events_dir sid u = (get_conversation_dir sid u @ ''events'') @ ''/''"
  by (simp add: get_conversation_events_dir_def)

lemma hd_py_split: "c \<notin> set w \<Longrightarrow> hd (py_split c (w @ c # s)) = w"
  by (simp add: py_split_append)

text \<open>The id in a file name is the id it was made from.\<close>

lemma get_id_from_event_filename: "get_id_from_filename (get_filename_for_id st i) = i"
proof -
  have "CHR ''/'' \<notin> set (str_of_int i @ ''.json'')"
    using str_of_int_notin [of "CHR ''/''" i] by simp
  from last_py_split [OF this, of "get_conversation_dir (es_sid st) (es_user_id st) @ ''events''"]
  have "last (py_split (CHR ''/'') (get_filename_for_id st i)) = str_of_int i @ CHR ''.'' # ''json''"
    by (simp add: get_filename_for_id_def get_conversation_event_filename_def get_conversation_events_dir_def)
  moreover have "CHR ''.'' \<notin> set (str_of_int i)" using str_of_int_notin [of "CHR ''.''" i] by simp
  ultimately show ?thesis by (simp add: get_id_from_filename_def hd_py_split)
qed

lemma get_id_of_dir: "py_endswith nm ''/'' \<Longrightarrow> get_id_from_filename nm = -1"
proof -
  assume "py_endswith nm ''/''"
  then obtain s where nm: "nm = s @ ''/''"
    by (auto simp: py_endswith_def) (metis append_take_drop_id)
  then have "last (py_split (CHR ''/'') nm) = []" using last_py_split [of "CHR ''/''" "[]" s] by simp
  then show ?thesis by (simp add: get_id_from_filename_def py_int_def py_strip_def)
qed

lemma max_event_id_fold:
  "foldl (\<lambda>m nm. let i = get_id_from_filename nm in if m \<le> i then i else m) m names
     = Max (insert m (get_id_from_filename ` set names))"
proof (induction names arbitrary: m)
  case (Cons nm names)
  let ?i = "get_id_from_filename nm"
  let ?S = "get_id_from_filename ` set names"
  have "Max (insert (if m \<le> ?i then ?i else m) ?S) = Max (insert m (insert ?i ?S))"
  proof (cases "?S = {}")
    case False
    then show ?thesis by (simp add: max_def)
  qed (simp add: max_def)
  with Cons show ?case by (simp add: Let_def)
qed simp

text \<open>Every file in the events directory is the file of an id.\<close>

definition dir_ok :: "('s \<Rightarrow> string \<Rightarrow> json res) \<Rightarrow> ('s, 'm) event_store_scheme \<Rightarrow> bool" where
  "dir_ok rd st \<longleftrightarrow>
     (\<forall>f c. rd (es_files st) (get_conversation_events_dir (es_sid st) (es_user_id st) @ f) = Inr c \<longrightarrow>
        (\<exists>i \<ge> 0. get_conversation_events_dir (es_sid st) (es_user_id st) @ f = get_filename_for_id st i))"

context event_files
begin

lemma calculate_cur_id_next:
  assumes "dir_ok rd st"
  shows "\<exists>n \<ge> 0. calculate_cur_id ls st = Inr n
     \<and> (\<forall>i. n \<le> i \<longrightarrow> rd (es_files st) (get_filename_for_id st i) = Inl FileNotFoundError)
     \<and> (n = 0 \<or> (\<exists>c. rd (es_files st) (get_filename_for_id st (n - 1)) = Inr c))"
proof -
  let ?d = "get_conversation_dir (es_sid st) (es_user_id st) @ ''events''"
  have dir: "get_conversation_events_dir (es_sid st) (es_user_id st) = ?d @ ''/''" by (rule events_dir_slash)
  have nm: "get_filename_for_id st i = ?d @ ''/'' @ (str_of_int i @ ''.json'')" for i
    by (simp add: get_filename_for_id_def get_conversation_event_filename_def get_conversation_events_dir_def)
  have "rd (es_files st) (?d @ ''/'') = Inl FileNotFoundError"
  proof (cases "rd (es_files st) (?d @ ''/'')")
    case (Inl e)
    with read_missing [OF Inl] show ?thesis by simp
  next
    case (Inr c)
    with assms dir have "\<exists>i. ?d @ ''/'' = get_filename_for_id st i"
      unfolding dir_ok_def by (metis append_Nil2)
    with nm show ?thesis by simp
  qed
  from list_total [OF this] consider (none) "ls (es_files st) (?d @ ''/'') = Inl FileNotFoundError"
    | (some) names where "ls (es_files st) (?d @ ''/'') = Inr names" by blast
  then show ?thesis
  proof cases
    case none
    from list_missing [OF none] none dir nm show ?thesis
      by (intro exI [of _ 0]) (simp add: calculate_cur_id_def)
  next
    case some
    let ?I = "insert (-1) (get_id_from_filename ` set names)"
    let ?n = "Max ?I + 1"
    have n: "calculate_cur_id ls st = Inr ?n"
      using some dir by (cases names) (simp_all add: calculate_cur_id_def max_event_id_def max_event_id_fold)
    have "-1 \<le> Max ?I" by (intro Max_ge) simp_all
    then have "0 \<le> ?n" by linarith
    moreover have "rd (es_files st) (get_filename_for_id st i) = Inl FileNotFoundError" if "?n \<le> i" for i
    proof (cases "rd (es_files st) (get_filename_for_id st i)")
      case (Inl e)
      with read_missing [OF Inl] show ?thesis by simp
    next
      case (Inr c)
      have "CHR ''/'' \<notin> set (str_of_int i @ ''.json'')" using str_of_int_notin [of "CHR ''/''" i] by simp
      with list_complete [OF some] Inr nm [of i] have "get_filename_for_id st i \<in> set names" by simp
      then have "i \<in> ?I" using get_id_from_event_filename [of st i] by (metis imageI insertCI)
      then have "i \<le> Max ?I" by (intro Max_ge) simp_all
      with that show ?thesis by simp
    qed
    moreover have "?n = 0 \<or> (\<exists>c. rd (es_files st) (get_filename_for_id st (?n - 1)) = Inr c)"
    proof -
      have "Max ?I \<in> ?I" by (intro Max_in) simp_all
      then consider "Max ?I = -1" | x where "x \<in> set names" "Max ?I = get_id_from_filename x" by auto
      then show ?thesis
      proof cases
        case 2
        from list_sound [OF some 2(1)] show ?thesis
        proof
          assume "\<exists>f c. x = ?d @ ''/'' @ f \<and> rd (es_files st) x = Inr c"
          then obtain f c where x: "x = (?d @ ''/'') @ f" "rd (es_files st) x = Inr c" by auto
          with assms dir obtain i where "x = get_filename_for_id st i" unfolding dir_ok_def by metis
          then have "x = get_filename_for_id st (Max ?I)"
            using 2(2) get_id_from_event_filename [of st i] by metis
          with x(2) have "rd (es_files st) (get_filename_for_id st (?n - 1)) = Inr c" by simp
          then show ?thesis by blast
        next
          assume "py_endswith x ''/''"
          with 2 get_id_of_dir show ?thesis by simp
        qed
      qed simp
    qed
    ultimately show ?thesis using n by blast
  qed
qed

end

interpretation mem_events: event_files mem_write mem_read mem_list lit for lit ..

section \<open>Properties\<close>

text \<open>
  C2. Over a well-formed store, and as long as no shutdown is signalled, the paged, lazy search returns exactly the stored
  events of the requested range that pass the filter, in increasing or decreasing order of id, cut at
  the limit, whatever pages the cache holds.
\<close>

theorem search_events_exact:
  assumes "store_ok mem_read lit st" and "\<And>i. cont i" and "cur_id mem_list st = Inr (st', n)"
    and "end_id = None \<and> b = n - 1 \<or> end_id = Some b"
    and "\<And>e. filter_truth filt e = Inr (p e)"
    and "limit = None \<or> (\<exists>l > 0. limit = Some l)"
  shows "snd (search_events mem_read mem_list lit cont a end_id reverse filt limit st)
    = ((case limit of None \<Rightarrow> id | Some l \<Rightarrow> take (nat l))
        (filter p (List.map_filter (stored mem_read lit st) (if reverse then rev [a..b] else [a..b]))), None)"
proof -
  have sel: "snd (search_events mem_read mem_list lit cont a end_id reverse filt limit st)
    = select_events filt limit 0 (List.map_filter (stored mem_read lit st) (if reverse then rev [a..b] else [a..b]))"
    by (rule mem_events.search_events_select [OF assms(1-4)])
  show ?thesis
  proof (cases limit)
    case None
    then show ?thesis using sel assms(5) by (simp add: select_all [where p = p])
  next
    case (Some l)
    with assms(6) have "0 < l" by simp
    with Some show ?thesis using sel assms(5) by (simp add: select_limit [where p = p])
  qed
qed

text \<open>
  The next id a store computes from its file names is free, as are all later ones, and the id before it
  is taken unless the store is empty.
\<close>

theorem cur_id_is_next:
  assumes "dir_ok mem_read st" and "es_cur_id st = None"
  shows "\<exists>n \<ge> 0. cur_id mem_list st = Inr (st\<lparr>es_cur_id := Some n\<rparr>, n)
     \<and> (\<forall>i \<ge> n. get_event mem_read lit st i = Inl FileNotFoundError)
     \<and> (n = 0 \<or> (\<exists>c. mem_read (es_files st) (get_filename_for_id st (n - 1)) = Inr c))"
  using mem_events.calculate_cur_id_next [OF assms(1)] assms(2)
  by (auto simp: cur_id_def get_event_def)

end
