(* ===== verification/Roundtrip.thy ===== *)
theory Roundtrip
  imports Deserialization
begin

text \<open>
  Serialising an event and reading it back. \<open>delivered\<close> is the object a reader of the store gets for an
  event that was written: the attributes that the serialiser has no key for are gone (the response id,
  a confirmation state the class does not declare, the timeout of an observation, the model name of the metrics), a missing security
  risk has become \<open>UNKNOWN\<close>, and everything else is as it was. \<open>event_ok\<close> is what the constructors
  and the loop of the program establish.
\<close>

section \<open>What is delivered\<close>

definition delivered_action :: "action \<Rightarrow> action" where
  "delivered_action a = (if action_risk a = Some None then set_action_risk RISK_UNKNOWN a else a)"

definition delivered_body :: "body \<Rightarrow> body" where
  "delivered_body b = (case b of Act a \<Rightarrow> Act (delivered_action a) | Obs ob \<Rightarrow> Obs ob)"

definition delivered :: "event \<Rightarrow> event" where
  "delivered e =
     \<lparr>ev_body = delivered_body (ev_body e),
      ev_id = (if event_id e = INVALID_ID then None else ev_id e),
      ev_timestamp = ev_timestamp e, ev_source = ev_source e, ev_cause = ev_cause e,
      ev_timeout = (case ev_body e of Act _ \<Rightarrow> ev_timeout e | Obs _ \<Rightarrow> None),
      ev_llm_metrics = map_option (\<lambda>m. m\<lparr>model_name := ''default''\<rparr>) (ev_llm_metrics e),
      ev_tool_call_metadata = ev_tool_call_metadata e,
      ev_response_id = None, ev_extra_confirmation = None\<rparr>"

section \<open>Well-formed events\<close>

text \<open>A string enumeration that is not a proper member holds a string that names none.\<close>

definition conf_ok :: "confirmation_status \<Rightarrow> bool" where
  "conf_ok c = (confirmation_of (confirmation_value c) = c)"

definition read_source_ok :: "file_read_source \<Rightarrow> bool" where
  "read_source_ok s = (read_source_of (read_source_value s) = s)"

definition edit_source_ok :: "file_edit_source \<Rightarrow> bool" where
  "edit_source_ok s = (edit_source_of (edit_source_value s) = s)"

definition agent_state_ok :: "agent_state \<Rightarrow> bool" where
  "agent_state_ok s = (agent_state_of (agent_state_value s) = s)"

definition recall_ok :: "recall_type \<Rightarrow> bool" where
  "recall_ok k = (recall_type_of (recall_type_value k) = k)"

lemmas enum_ok_defs = conf_ok_def read_source_ok_def edit_source_ok_def agent_state_ok_def recall_ok_def

fun action_ok :: "action \<Rightarrow> bool" where
  "action_ok (CmdRunAction r) = conf_ok (cr_confirmation_state r)"
| "action_ok (IPythonRunCellAction r) = conf_ok (ip_confirmation_state r)"
| "action_ok (FileReadAction r) = read_source_ok (fr_impl_source r)"
| "action_ok (FileEditAction r) = edit_source_ok (fe_impl_source r)"
| "action_ok (AgentRejectAction outs t) =
     (case d_get outs ''reason'' of None \<Rightarrow> True | Some (JStr _) \<Rightarrow> True | Some _ \<Rightarrow> False)"
| "action_ok (RecallAction k q t) = recall_ok k"
| "action_ok (ChangeAgentStateAction s t) = agent_state_ok s"
| "action_ok (CondensationAction c) = valid_condensation c"
| "action_ok _ = True"

fun obs_ok :: "observation \<Rightarrow> bool" where
  "obs_ok (CmdOutputObservation r) =
     (co_hidden r \<or> maybe_truncate MAX_CMD_OUTPUT_SIZE (co_content r) = co_content r)"
| "obs_ok (FileReadObservation c p s) = read_source_ok s"
| "obs_ok (FileEditObservation r) = edit_source_ok (fo_impl_source r)"
| "obs_ok (AgentStateChangedObservation c s t) = agent_state_ok s"
| "obs_ok (RecallObservation r) = (ro_recall_type r = WORKSPACE_CONTEXT \<or> ro_recall_type r = KNOWLEDGE)"
| "obs_ok _ = True"

definition event_ok :: "event \<Rightarrow> bool" where
  "event_ok e =
     ((case ev_body e of Act a \<Rightarrow> action_ok a | Obs ob \<Rightarrow> obs_ok ob)
      \<and> (case ev_llm_metrics e of None \<Rightarrow> True | Some m \<Rightarrow> 0 \<le> accumulated_cost m))"

text \<open>The constructor of command output establishes its condition.\<close>

lemma new_cmd_output_ok: "obs_ok (CmdOutputObservation (new_cmd_output c m md h ec pid))"
  by (simp add: new_cmd_output_def Let_def maybe_truncate_idem MAX_CMD_OUTPUT_SIZE_def)

section \<open>Arguments\<close>

lemma map_res_as_str [simp]: "map_res as_str (map JStr ss) = Inr ss"
  by (rule map_res_Inr_map) (simp add: as_str_def)

lemma map_res_as_int [simp]: "map_res as_int (map JInt is) = Inr is"
  by (rule map_res_Inr_map) (simp add: as_int_def)

lemma map_res_as_json [simp]: "map_res as_json js = Inr js"
  using map_res_Inr_map [of js as_json id] by (simp add: as_json_def)

lemma map_res_pairs: "(\<And>v. f (g v) = Inr v) \<Longrightarrow>
    map_res (\<lambda>(k, v). bind_res (f v) (\<lambda>w. Inr (k, w))) (map (map_prod id g) d) = Inr d"
  by (rule map_res_Inr_map) (auto simp: map_prod_def)

lemma map_res_metadata_ints [simp]:
  "map_res (\<lambda>(k, v). bind_res (as_int v) (\<lambda>w. Inr (k, w))) (map (map_prod id JInt) d) = Inr d"
  by (rule map_res_pairs) (simp add: as_int_def)

lemma map_res_metadata_strs [simp]:
  "map_res (\<lambda>(k, v). bind_res (as_str v) (\<lambda>w. Inr (k, w))) (map (map_prod id JStr) d) = Inr d"
  by (rule map_res_pairs) (simp add: as_str_def)

lemma dec_knowledge_to_dict [simp]: "dec_knowledge (knowledge_to_dict k) = Inr k"
  by (cases k) (simp add: dec_knowledge_def knowledge_to_dict_def as_dict_def kwargs_def d_keys_def arg_def as_str_def)

lemma map_res_knowledge [simp]: "map_res dec_knowledge (map knowledge_to_dict ks) = Inr ks"
  by (rule map_res_Inr_map) simp

lemma as_risk_value [simp]: "as_risk (JInt (risk_value r)) = Inr r"
  by (simp add: as_risk_def as_int_def)

lemmas as_simps = as_str_def as_bool_def as_int_def as_float_def as_dict_def as_list_def
  as_opt_def as_enum_def as_map_def j_opt_def j_strs_def

lemmas dec_simps = arg_def kwargs_def d_keys_def as_simps j_risk_def d_opt_def

section \<open>Reading the arguments back\<close>

lemma dec_cmd_run_args:
  assumes "conf_ok (cr_confirmation_state r)"
  shows "dec_cmd_run (action_args (CmdRunAction r)) = Inr (delivered_action (CmdRunAction r))"
  using assms
  by (cases r; cases "cr_security_risk r")
     (simp_all add: dec_cmd_run_def dec_simps delivered_action_def conf_ok_def split: option.split)

lemma dec_ipython_args:
  assumes "conf_ok (ip_confirmation_state r)"
  shows "dec_ipython (action_args (IPythonRunCellAction r)) = Inr (delivered_action (IPythonRunCellAction r))"
  using assms
  by (cases r; cases "ip_security_risk r")
     (simp_all add: dec_ipython_def dec_simps delivered_action_def conf_ok_def)

lemma dec_browse_url_args:
  "dec_browse_url (action_args (BrowseURLAction r)) = Inr (delivered_action (BrowseURLAction r))"
  by (cases r; cases "bu_security_risk r")
     (simp_all add: dec_browse_url_def dec_simps delivered_action_def)

lemma dec_browse_interactive_args:
  "dec_browse_interactive (action_args (BrowseInteractiveAction r)) = Inr (delivered_action (BrowseInteractiveAction r))"
  by (cases r; cases "bi_security_risk r")
     (simp_all add: dec_browse_interactive_def dec_simps delivered_action_def)

lemma dec_file_read_args:
  assumes "read_source_ok (fr_impl_source r)"
  shows "dec_file_read (action_args (FileReadAction r)) = Inr (delivered_action (FileReadAction r))"
  using assms
  by (cases r; cases "fr_security_risk r")
     (simp_all add: dec_file_read_def dec_simps delivered_action_def read_source_ok_def split: option.split)

lemma dec_file_write_args:
  "dec_file_write (action_args (FileWriteAction r)) = Inr (delivered_action (FileWriteAction r))"
  by (cases r; cases "fw_security_risk r")
     (simp_all add: dec_file_write_def dec_simps delivered_action_def)

lemma dec_file_edit_args:
  assumes "edit_source_ok (fe_impl_source r)"
  shows "dec_file_edit (action_args (FileEditAction r)) = Inr (delivered_action (FileEditAction r))"
  using assms
  by (cases r; cases "fe_security_risk r")
     (simp_all add: dec_file_edit_def dec_simps delivered_action_def edit_source_ok_def split: option.split)

lemma dec_message_args:
  "dec_message (action_args (MessageAction r)) = Inr (delivered_action (MessageAction r))"
  by (cases r; cases "ma_security_risk r")
     (simp_all add: dec_message_def dec_simps delivered_action_def split: option.split)

lemma dec_system_args:
  "dec_system (action_args (SystemMessageAction r)) = Inr (delivered_action (SystemMessageAction r))"
  by (cases r) (simp add: dec_system_def dec_simps delivered_action_def split: option.split)

lemma dec_mcp_args:
  "dec_mcp (action_args (MCPAction r)) = Inr (delivered_action (MCPAction r))"
  by (cases r; cases "mc_security_risk r")
     (simp_all add: dec_mcp_def dec_simps delivered_action_def)

lemma mk_condensation_sel: "valid_condensation c \<Longrightarrow>
  mk_condensation (ca_forgotten_event_ids c) (ca_forgotten_events_start_id c) (ca_forgotten_events_end_id c)
    (ca_summary c) (ca_summary_offset c) = Inr c"
  by (cases c) (simp add: mk_condensation_def)

lemma dec_condensation_args:
  assumes "valid_condensation c"
  shows "dec_condensation (action_args (CondensationAction c)) = Inr (delivered_action (CondensationAction c))"
proof -
  have "as_opt (as_list as_int) (j_opt (\<lambda>is. JList (map JInt is)) x) = Inr x" for x
    by (simp add: as_simps split: option.split)
  moreover have "as_opt as_int (j_opt JInt x) = Inr x" for x
    by (simp add: as_simps split: option.split)
  moreover have "as_opt as_str (j_opt JStr x) = Inr x" for x
    by (simp add: as_simps split: option.split)
  ultimately show ?thesis
    using mk_condensation_sel [OF assms]
    by (simp add: dec_condensation_def arg_def kwargs_def d_keys_def delivered_action_def)
qed

text \<open>The constructor registered for the class of an action reads the arguments the action writes.\<close>

lemma action_class_args:
  assumes "action_ok a"
  shows "\<exists>mk. action_class (action_type a) = Some mk \<and> mk (action_args a) = Inr (delivered_action a)"
  using assms
proof (cases a)
  case (CmdRunAction r)
  with assms dec_cmd_run_args [of r] show ?thesis by (simp add: action_class_def)
next
  case (IPythonRunCellAction r)
  with assms dec_ipython_args [of r] show ?thesis by (simp add: action_class_def)
next
  case (BrowseURLAction r)
  with dec_browse_url_args [of r] show ?thesis by (simp add: action_class_def)
next
  case (BrowseInteractiveAction r)
  with dec_browse_interactive_args [of r] show ?thesis by (simp add: action_class_def)
next
  case (FileReadAction r)
  with assms dec_file_read_args [of r] show ?thesis by (simp add: action_class_def)
next
  case (FileWriteAction r)
  with dec_file_write_args [of r] show ?thesis by (simp add: action_class_def)
next
  case (FileEditAction r)
  with assms dec_file_edit_args [of r] show ?thesis by (simp add: action_class_def)
next
  case (MessageAction r)
  with dec_message_args [of r] show ?thesis by (simp add: action_class_def)
next
  case (SystemMessageAction r)
  with dec_system_args [of r] show ?thesis by (simp add: action_class_def)
next
  case (CondensationAction r)
  with assms dec_condensation_args [of r] show ?thesis by (simp add: action_class_def)
next
  case (MCPAction r)
  with dec_mcp_args [of r] show ?thesis by (simp add: action_class_def)
qed (simp_all add: action_class_def dec_simps delivered_action_def recall_ok_def agent_state_ok_def)

lemma dec_metadata_to_dict: "dec_metadata (metadata_to_dict m) = Inr m"
  by (cases m) (simp add: dec_metadata_def metadata_to_dict_def dec_simps split: option.split)

lemma dec_cmd_output_extras:
  assumes "obs_ok (CmdOutputObservation r)"
  shows "dec_cmd_output (co_content r) (obs_extras (CmdOutputObservation r)) = Inr (CmdOutputObservation r)"
  using assms
  by (cases r) (auto simp: dec_cmd_output_def dec_simps dec_metadata_to_dict new_cmd_output_def Let_def)

lemma dec_browser_extras:
  "dec_browser (bo_content r) (obs_extras (BrowserOutputObservation r)) = Inr (BrowserOutputObservation r)"
  by (cases r) (simp add: dec_browser_def dec_simps split: option.split)

lemma dec_file_edit_extras:
  assumes "edit_source_ok (fo_impl_source r)"
  shows "dec_file_edit_obs (fo_content r) (obs_extras (FileEditObservation r)) = Inr (FileEditObservation r)"
  using assms
  by (cases r) (simp add: dec_file_edit_obs_def dec_simps edit_source_ok_def split: option.split)

lemma dec_recall_extras:
  assumes "ro_recall_type r = WORKSPACE_CONTEXT \<or> ro_recall_type r = KNOWLEDGE"
  shows "dec_recall_obs (ro_content r) (obs_extras (RecallObservation r)) = Inr (RecallObservation r)"
proof -
  have "as_str (JStr s) = Inr s" for s by (simp add: as_str_def)
  moreover have "as_map as_int (JObj (map (map_prod id JInt) d)) = Inr d" for d
    by (simp add: as_map_def as_dict_def)
  moreover have "as_map as_str (JObj (map (map_prod id JStr) d)) = Inr d" for d
    by (simp add: as_map_def as_dict_def)
  moreover have "as_list dec_knowledge (JList (map knowledge_to_dict ks)) = Inr ks" for ks
    by (simp add: as_list_def)
  ultimately show ?thesis
    using assms
    by (cases r) (auto simp: dec_recall_obs_def arg_def kwargs_def d_keys_def
        recall_type_member_def recall_type_value_def recall_type_of_def)
qed

lemma observation_class_extras:
  assumes "obs_ok ob"
  shows "\<exists>mk. observation_class (observation_type ob) = Some mk \<and> mk (obs_content ob) (obs_extras ob) = Inr ob"
  using assms
proof (cases ob)
  case (CmdOutputObservation r)
  with assms dec_cmd_output_extras [of r] show ?thesis by (simp add: observation_class_def)
next
  case (BrowserOutputObservation r)
  with dec_browser_extras [of r] show ?thesis by (simp add: observation_class_def)
next
  case (FileEditObservation r)
  with assms dec_file_edit_extras [of r] show ?thesis by (simp add: observation_class_def)
next
  case (RecallObservation r)
  with assms dec_recall_extras [of r] show ?thesis by (simp add: observation_class_def)
next
  case (IPythonRunCellObservation r)
  then show ?thesis
    by (cases r) (simp add: observation_class_def dec_simps split: option.split)
qed (simp_all add: observation_class_def dec_simps read_source_ok_def agent_state_ok_def)

section \<open>Metadata\<close>

lemma dec_cost_to_dict [simp]: "dec_cost (cost_to_dict c) = Inr c"
  by (cases c) (simp add: dec_cost_def cost_to_dict_def dec_simps)

lemma dec_latency_to_dict [simp]: "dec_latency (latency_to_dict c) = Inr c"
  by (cases c) (simp add: dec_latency_def latency_to_dict_def dec_simps)

lemma dec_usage_to_dict [simp]: "dec_usage (usage_to_dict c) = Inr c"
  by (cases c) (simp add: dec_usage_def usage_to_dict_def dec_simps)

lemma dec_metrics_get:
  assumes "0 \<le> accumulated_cost m"
  shows "dec_metrics (JObj (metrics_get m)) = Inr (m\<lparr>model_name := ''default''\<rparr>)"
proof -
  have "map_res dec_cost (map cost_to_dict cs) = Inr cs" for cs by (rule map_res_Inr_map) simp
  moreover have "map_res dec_latency (map latency_to_dict ls) = Inr ls" for ls by (rule map_res_Inr_map) simp
  moreover have "map_res dec_usage (map usage_to_dict us) = Inr us" for us by (rule map_res_Inr_map) simp
  ultimately show ?thesis
    using assms
    by (cases m) (simp add: dec_metrics_def metrics_get_def arg_def as_float_def as_list_def as_opt_def
        set_accumulated_cost_def new_metrics_def split: option.split)
qed

lemma dec_tool_call_to_dict [simp]: "dec_tool_call (tool_call_to_dict t) = Inr t"
  by (cases t) (simp add: dec_tool_call_def tool_call_to_dict_def dec_simps as_json_def)

section \<open>Lookups in the dictionaries that are written\<close>

lemma d_get_append: "d_get (d @ d') k = (case d_get d k of None \<Rightarrow> d_get d' k | Some v \<Rightarrow> Some v)"
  by (induction d) auto

lemma d_get_opt: "d_get (d_opt k f x) k' = (if k' = k then map_option f x else None)"
  by (cases x) (auto simp: d_opt_def)

lemma d_get_risk: "d_get (j_risk x) k' = (if k' = ''security_risk'' then map_option (JInt \<circ> risk_value) x else None)"
  by (simp add: j_risk_def d_get_opt)

lemma d_keys_opt: "d_keys (d_opt k f x) = (case x of None \<Rightarrow> [] | Some _ \<Rightarrow> [k])"
  by (simp add: d_keys_def d_opt_def split: option.split)

lemma d_keys_simps: "d_keys [] = []" "d_keys ((k, v) # d) = k # d_keys d" "d_keys (d @ d') = d_keys d @ d_keys d'"
  by (simp_all add: d_keys_def)

lemma d_get_success: "k \<noteq> ''success'' \<Longrightarrow> d_get (obs_success ob) k = None"
  by (cases ob) simp_all

lemmas get_simps = d_get_append d_get_opt d_get_risk d_get_success

section \<open>Compatibility rewrites\<close>

text \<open>The rewrites of deprecated arguments do not touch what the program writes today.\<close>

lemma d_set_same: "map_of d k = Some v \<Longrightarrow> d_set k v d = d"
  by (induction d) (auto simp: d_set_def)

lemma compat_args_id:
  assumes "d_get args ''is_confirmed'' = None" and "d_get args ''images_urls'' = None"
    and "d_get args ''keep_prompt'' = None" and "d_get args ''task_completed'' = None"
    and "d_get args ''translated_ipython_code'' = None"
    and risk: "d_get args ''security_risk'' = map_option (JInt \<circ> risk_value) x"
  shows "compat_args lit args = args"
proof -
  have "handle_action_deprecated_args lit args = args"
    using assms by (simp add: handle_action_deprecated_args_def d_del_notin d_has_def)
  with assms show ?thesis
    by (cases x) (simp_all add: compat_args_def Let_def risk_of_json_def d_set_same)
qed

lemma action_args_is_confirmed: "d_get (action_args a) ''is_confirmed'' = None"
  by (cases a) (simp_all add: get_simps del: map_of_append)

lemma action_args_images_urls: "d_get (action_args a) ''images_urls'' = None"
  by (cases a) (simp_all add: get_simps del: map_of_append)

lemma action_args_keep_prompt: "d_get (action_args a) ''keep_prompt'' = None"
  by (cases a) (simp_all add: get_simps del: map_of_append)

lemma action_args_task_completed: "d_get (action_args a) ''task_completed'' = None"
  by (cases a) (simp_all add: get_simps del: map_of_append)

lemma action_args_translated: "d_get (action_args a) ''translated_ipython_code'' = None"
  by (cases a) (simp_all add: get_simps del: map_of_append)

lemma action_args_timestamp: "d_get (action_args a) ''timestamp'' = None"
  by (cases a) (simp_all add: get_simps del: map_of_append)

lemma action_args_risk:
  "d_get (action_args a) ''security_risk'' = map_option (JInt \<circ> risk_value) (case action_risk a of None \<Rightarrow> None | Some x \<Rightarrow> x)"
  by (cases a) (simp_all add: get_simps del: map_of_append split: option.split)

lemma compat_action_args: "compat_args lit (action_args a) = action_args a"
  by (rule compat_args_id [OF action_args_is_confirmed action_args_images_urls action_args_keep_prompt
        action_args_task_completed action_args_translated action_args_risk])

section \<open>Whole events\<close>

lemma message_ok: "action_ok a \<Longrightarrow> \<exists>m. action_message a = Inr m"
proof (cases a)
  case (CondensationAction c)
  assume "action_ok a"
  with CondensationAction obtain ids where ids: "forgotten c = Inr ids" using forgotten_valid by auto
  show ?thesis
  proof (cases "ca_summary c")
    case (Some s)
    with CondensationAction ids show ?thesis by (cases s) simp_all
  qed (simp add: CondensationAction ids)
next
  case (AgentRejectAction outs t)
  assume "action_ok a"
  with AgentRejectAction show ?thesis by (simp split: option.splits json.splits)
qed simp_all

text \<open>The dictionary of an action and of an observation, with the lookups the reader makes.\<close>

lemma event_to_dict_action:
  assumes "ev_body e = Act a" and "action_message a = Inr msg"
  shows "\<exists>d. event_to_dict e = Inr d
    \<and> d_get d ''action'' = Some (JStr (action_type a)) \<and> d_get d ''args'' = Some (JObj (action_args a))
    \<and> d_get d ''timeout'' = map_option JFloat (ev_timeout e)
    \<and> d_get d ''id'' = (if event_id e = INVALID_ID then None else Some (JInt (event_id e)))
    \<and> d_get d ''timestamp'' = map_option JStr (ev_timestamp e)
    \<and> d_get d ''source'' = map_option (JStr \<circ> source_value) (ev_source e)
    \<and> d_get d ''cause'' = map_option JInt (ev_cause e)
    \<and> d_get d ''tool_call_metadata'' = map_option tool_call_to_dict (ev_tool_call_metadata e)
    \<and> d_get d ''llm_metrics'' = map_option (JObj \<circ> metrics_get) (ev_llm_metrics e)"
  using assms
  by (simp add: event_to_dict_def Let_def get_simps del: map_of_append split: option.split)

lemma event_to_dict_obs:
  assumes "ev_body e = Obs ob"
  shows "\<exists>d. event_to_dict e = Inr d
    \<and> d_get d ''action'' = None \<and> d_get d ''observation'' = Some (JStr (observation_type ob))
    \<and> d_get d ''content'' = Some (JStr (obs_content ob)) \<and> d_get d ''extras'' = Some (JObj (obs_extras ob))
    \<and> d_get d ''id'' = (if event_id e = INVALID_ID then None else Some (JInt (event_id e)))
    \<and> d_get d ''timestamp'' = map_option JStr (ev_timestamp e)
    \<and> d_get d ''source'' = map_option (JStr \<circ> source_value) (ev_source e)
    \<and> d_get d ''cause'' = map_option JInt (ev_cause e)
    \<and> d_get d ''tool_call_metadata'' = map_option tool_call_to_dict (ev_tool_call_metadata e)
    \<and> d_get d ''llm_metrics'' = map_option (JObj \<circ> metrics_get) (ev_llm_metrics e)"
  using assms
  by (simp add: event_to_dict_def Let_def get_simps del: map_of_append split: option.split)

lemma under_id: "d_get d k = map_option g x \<Longrightarrow> (\<And>v. x = Some v \<Longrightarrow> conv (g v) = Inr (Some (h v)))
    \<Longrightarrow> under d k conv None f = f (map_option h x)"
  by (cases x) (simp_all add: under_def arg_def)

lemma blocking_args:
  "arg (action_args a) ''blocking'' (Some False) as_bool (\<lambda>b. Inr (set_hard_timeout v b (new_action (delivered_action a))))
     = Inr ((new_action (delivered_action a))\<lparr>ev_timeout := v\<rparr>)"
proof (cases a)
  case (CmdRunAction r)
  then show ?thesis
    by (cases r)
       (auto simp: arg_def as_bool_def set_hard_timeout_def new_action_def fresh_def delivered_action_def)
qed (simp_all add: arg_def get_simps set_hard_timeout_def new_action_def delivered_action_def del: map_of_append)

lemma action_from_dict_args:
  assumes "action_ok a" and "d_get d ''action'' = Some (JStr (action_type a))"
    and "d_get d ''args'' = Some (JObj (action_args a))" and "d_get d ''timeout'' = map_option JFloat t"
  shows "action_from_dict lit d = Inr ((new_action (delivered_action a))\<lparr>ev_timeout := t\<rparr>)"
proof -
  obtain mk where mk: "action_class (action_type a) = Some mk" "mk (action_args a) = Inr (delivered_action a)"
    using action_class_args [OF assms(1)] by blast
  have del: "d_del ''timestamp'' (action_args a) = action_args a"
    by (simp add: d_del_notin d_has_def action_args_timestamp)
  have old: "(new_action (delivered_action a))\<lparr>ev_timeout := None\<rparr> = new_action (delivered_action a)"
    by (simp add: new_action_def fresh_def)
  show ?thesis
    using assms mk old
    by (cases t) (simp_all add: action_from_dict_def Let_def del compat_action_args action_args_timestamp
        blocking_args as_opt_def as_float_def malformed_def)
qed

lemma observation_from_dict_extras:
  assumes "obs_ok ob" and "d_get d ''observation'' = Some (JStr (observation_type ob))"
    and "d_get d ''content'' = Some (JStr (obs_content ob))" and "d_get d ''extras'' = Some (JObj (obs_extras ob))"
  shows "observation_from_dict d = Inr (new_obs ob)"
proof -
  obtain mk where mk: "observation_class (observation_type ob) = Some mk" "mk (obs_content ob) (obs_extras ob) = Inr ob"
    using observation_class_extras [OF assms(1)] by blast
  have "handle_observation_deprecated_extras (obs_extras ob) = obs_extras ob"
    by (cases ob) (simp_all add: handle_observation_deprecated_extras_def)
  with assms mk show ?thesis
    by (simp add: observation_from_dict_def as_str_def as_dict_def)
qed

text \<open>The underscore attributes are read back one by one over a fresh object.\<close>

lemma event_from_dict_fields:
  assumes obj: "(if d_has d ''action'' then action_from_dict lit d
               else if d_has d ''observation'' then observation_from_dict d
               else Inl (ValueError ''Unknown event type'')) = Inr ((fresh b)\<lparr>ev_timeout := t\<rparr>)"
    and id: "d_get d ''id'' = (if event_id e = INVALID_ID then None else Some (JInt (event_id e)))"
    and ts: "d_get d ''timestamp'' = map_option JStr (ev_timestamp e)"
    and src: "d_get d ''source'' = map_option (JStr \<circ> source_value) (ev_source e)"
    and cause: "d_get d ''cause'' = map_option JInt (ev_cause e)"
    and tool: "d_get d ''tool_call_metadata'' = map_option tool_call_to_dict (ev_tool_call_metadata e)"
    and met: "d_get d ''llm_metrics'' = map_option (JObj \<circ> metrics_get) (ev_llm_metrics e)"
    and cost: "case ev_llm_metrics e of None \<Rightarrow> True | Some m \<Rightarrow> 0 \<le> accumulated_cost m"
  shows "event_from_dict lit d = Inr \<lparr>ev_body = b,
      ev_id = (if event_id e = INVALID_ID then None else ev_id e),
      ev_timestamp = ev_timestamp e, ev_source = ev_source e, ev_cause = ev_cause e, ev_timeout = t,
      ev_llm_metrics = map_option (\<lambda>m. m\<lparr>model_name := ''default''\<rparr>) (ev_llm_metrics e),
      ev_tool_call_metadata = ev_tool_call_metadata e, ev_response_id = None, ev_extra_confirmation = None\<rparr>"
proof -
  have 1: "under d ''id'' (as_opt as_int) None f = f (if event_id e = INVALID_ID then None else ev_id e)" for f :: "int option \<Rightarrow> event res"
    using id by (cases "ev_id e") (auto simp: under_def arg_def as_opt_def as_int_def event_id_def)
  have 2: "under d ''timestamp'' (as_opt as_str) None f = f (map_option (\<lambda>x. x) (ev_timestamp e))" for f :: "string option \<Rightarrow> event res"
    by (rule under_id [OF ts]) (simp add: as_opt_def as_str_def)
  have 3: "under d ''source'' (\<lambda>j. bind_res (as_str j) (\<lambda>s. bind_res (source_of s) (\<lambda>s. Inr (Some s)))) None f
      = f (map_option (\<lambda>x. x) (ev_source e))" for f :: "event_source option \<Rightarrow> event res"
    by (rule under_id [OF src]) (simp add: as_str_def)
  have 4: "under d ''cause'' (as_opt as_int) None f = f (map_option (\<lambda>x. x) (ev_cause e))" for f :: "int option \<Rightarrow> event res"
    by (rule under_id [OF cause]) (simp add: as_opt_def as_int_def)
  have 5: "under d ''tool_call_metadata'' (\<lambda>j. bind_res (dec_tool_call j) (\<lambda>t. Inr (Some t))) None f
      = f (map_option (\<lambda>x. x) (ev_tool_call_metadata e))" for f :: "tool_call_metadata option \<Rightarrow> event res"
    by (rule under_id [OF tool]) simp
  have 6: "under d ''llm_metrics'' (\<lambda>j. bind_res (dec_metrics j) (\<lambda>m. Inr (Some m))) None f
      = f (map_option (\<lambda>m. m\<lparr>model_name := ''default''\<rparr>) (ev_llm_metrics e))" for f :: "metrics option \<Rightarrow> event res"
    by (rule under_id [OF met]) (use cost in \<open>simp add: dec_metrics_get\<close>)
  show ?thesis
    by (simp add: event_from_dict_def obj 1 2 3 4 5 6 option.map_ident fresh_def)
qed

lemma event_roundtrip_lemma:
  assumes "event_ok e"
  shows "bind_res (event_to_dict e) (event_from_dict lit) = Inr (delivered e)"
proof (cases "ev_body e")
  case (Act a)
  with assms have ok: "action_ok a" by (simp add: event_ok_def)
  then obtain msg where msg: "action_message a = Inr msg" using message_ok by blast
  obtain d where d: "event_to_dict e = Inr d"
    and act: "d_get d ''action'' = Some (JStr (action_type a))" "d_get d ''args'' = Some (JObj (action_args a))"
      "d_get d ''timeout'' = map_option JFloat (ev_timeout e)"
    and rest: "d_get d ''id'' = (if event_id e = INVALID_ID then None else Some (JInt (event_id e)))"
      "d_get d ''timestamp'' = map_option JStr (ev_timestamp e)"
      "d_get d ''source'' = map_option (JStr \<circ> source_value) (ev_source e)"
      "d_get d ''cause'' = map_option JInt (ev_cause e)"
      "d_get d ''tool_call_metadata'' = map_option tool_call_to_dict (ev_tool_call_metadata e)"
      "d_get d ''llm_metrics'' = map_option (JObj \<circ> metrics_get) (ev_llm_metrics e)"
    using event_to_dict_action [OF Act msg] by blast
  have "action_from_dict lit d = Inr ((fresh (Act (delivered_action a)))\<lparr>ev_timeout := ev_timeout e\<rparr>)"
    using action_from_dict_args [OF ok act] by (simp add: new_action_def)
  with act(1) have obj: "(if d_has d ''action'' then action_from_dict lit d
      else if d_has d ''observation'' then observation_from_dict d
      else Inl (ValueError ''Unknown event type'')) = Inr ((fresh (Act (delivered_action a)))\<lparr>ev_timeout := ev_timeout e\<rparr>)"
    by (simp add: d_has_def)
  from event_from_dict_fields [OF obj rest] assms d Act show ?thesis
    by (simp add: event_ok_def delivered_def delivered_body_def)
next
  case (Obs ob)
  with assms have ok: "obs_ok ob" by (simp add: event_ok_def)
  obtain d where d: "event_to_dict e = Inr d" and none: "d_get d ''action'' = None"
    and obs: "d_get d ''observation'' = Some (JStr (observation_type ob))" "d_get d ''content'' = Some (JStr (obs_content ob))"
      "d_get d ''extras'' = Some (JObj (obs_extras ob))"
    and rest: "d_get d ''id'' = (if event_id e = INVALID_ID then None else Some (JInt (event_id e)))"
      "d_get d ''timestamp'' = map_option JStr (ev_timestamp e)"
      "d_get d ''source'' = map_option (JStr \<circ> source_value) (ev_source e)"
      "d_get d ''cause'' = map_option JInt (ev_cause e)"
      "d_get d ''tool_call_metadata'' = map_option tool_call_to_dict (ev_tool_call_metadata e)"
      "d_get d ''llm_metrics'' = map_option (JObj \<circ> metrics_get) (ev_llm_metrics e)"
    using event_to_dict_obs [OF Obs] by blast
  have "observation_from_dict d = Inr ((fresh (Obs ob))\<lparr>ev_timeout := None\<rparr>)"
    using observation_from_dict_extras [OF ok obs] by (simp add: new_obs_def fresh_def)
  with none obs(1) have obj: "(if d_has d ''action'' then action_from_dict lit d
      else if d_has d ''observation'' then observation_from_dict d
      else Inl (ValueError ''Unknown event type'')) = Inr ((fresh (Obs ob))\<lparr>ev_timeout := None\<rparr>)"
    by (simp add: d_has_def)
  from event_from_dict_fields [OF obj rest] assms d Obs show ?thesis
    by (simp add: event_ok_def delivered_def delivered_body_def)
qed

lemma delivered_ok: "event_ok e \<Longrightarrow> event_ok (delivered e)"
proof -
  have "action_ok a \<Longrightarrow> action_ok (delivered_action a)" for a
    by (cases a) (auto simp: delivered_action_def)
  then show "event_ok e \<Longrightarrow> event_ok (delivered e)"
    by (auto simp: event_ok_def delivered_def delivered_body_def split: body.splits option.splits)
qed

lemma delivered_action_idem: "delivered_action (delivered_action a) = delivered_action a"
  by (cases a) (simp_all add: delivered_action_def)

lemma delivered_idem: "delivered (delivered e) = delivered e"
  by (auto simp: delivered_def delivered_body_def delivered_action_idem event_id_def INVALID_ID_def option.map_comp comp_def
      split: body.split option.split)

lemma delivered_sel [simp]:
  "ev_timestamp (delivered e) = ev_timestamp e" "ev_source (delivered e) = ev_source e"
  "ev_cause (delivered e) = ev_cause e" "event_id (delivered e) = event_id e"
  by (simp_all add: delivered_def event_id_def split: option.split)

text \<open>
  C5. Storing an event and reading it back gives the delivered event for each of the 40 classes of actions and
  observations, with its id, timestamp, source, cause, tool call metadata and metrics; a second trip changes nothing more.
\<close>

theorem event_roundtrip:
  assumes "event_ok e"
  shows "bind_res (event_to_dict e) (event_from_dict lit) = Inr (delivered e)
    \<and> bind_res (event_to_dict (delivered e)) (event_from_dict lit) = Inr (delivered e)"
  using event_roundtrip_lemma [OF assms] event_roundtrip_lemma [OF delivered_ok [OF assms]]
  by (simp add: delivered_idem)

definition sample_cmd :: event where
  "sample_cmd = (new_action (CmdRunAction
     \<lparr>cr_command = ''ls'', cr_is_input = False, cr_thought = [], cr_blocking = True, cr_is_static = False, cr_cwd = None,
      cr_hidden = False, cr_confirmation_state = AWAITING_CONFIRMATION, cr_security_risk = None\<rparr>))
     \<lparr>ev_id := Some 4, ev_source := Some AGENT, ev_response_id := Some ''r''\<rparr>"

theorem event_roundtrip_witness:
  "event_ok sample_cmd
    \<and> bind_res (event_to_dict sample_cmd) (event_from_dict (\<lambda>_. None)) = Inr (delivered sample_cmd)
    \<and> ev_response_id (delivered sample_cmd) = None"
proof -
  have ok: "event_ok sample_cmd"
    by (simp add: sample_cmd_def event_ok_def new_action_def fresh_def conf_ok_def confirmation_of_def confirmation_value_def)
  from event_roundtrip [OF ok, of "\<lambda>_. None"] ok show ?thesis by (simp add: delivered_def)
qed

end
