(* ===== verification/EventStream.thy ===== *)
theory EventStream
  imports EventStore Roundtrip
begin

text \<open>
  The event stream (\<open>openhands/events/stream.py\<close>): an event store that assigns ids, masks secrets,
  writes each event and each full page of the cache, and hands the events to its subscribers.

  \<open>add_event\<close> is modelled in its two parts, the critical section under the lock (\<open>add_reserve\<close>) and the
  writing after it (\<open>add_persist\<close>), so that calls from several threads can interleave between them. The
  page objects that \<open>_write_page_cache\<close> has ever pointed to are kept in a list, because a thread
  in its second part looks at the page of its first part, which other threads may have filled in the meantime.
  The time of day is the argument \<open>now\<close>. The callbacks are values of an arbitrary type: handing an event to one
  (\<open>pool.submit\<close>) is a record of the event beside the callback.
\<close>

record ('s, 'k) event_stream = "'s event_store" +
  st_secrets :: "(string \<times> string) list"
  st_queue :: "event list"
  st_pages :: "dict list list"
  st_subscribers :: "(string \<times> (string \<times> 'k) list) list"

definition new_stream :: "string \<Rightarrow> 's \<Rightarrow> string option \<Rightarrow> ('s, 'k) event_stream" where
  "new_stream sid files user_id =
     \<lparr>es_sid = sid, es_user_id = user_id, es_cache_size = 25, es_cur_id = None, es_files = files,
      st_secrets = [], st_queue = [], st_pages = [[]], st_subscribers = []\<rparr>"

section \<open>Secrets\<close>

definition set_secrets :: "(string \<times> string) list \<Rightarrow> ('s, 'k) event_stream \<Rightarrow> ('s, 'k) event_stream" where
  "set_secrets secrets st = st\<lparr>st_secrets := secrets\<rparr>"

definition update_secrets :: "(string \<times> string) list \<Rightarrow> ('s, 'k) event_stream \<Rightarrow> ('s, 'k) event_stream" where
  "update_secrets secrets st = st\<lparr>st_secrets := d_update (st_secrets st) secrets\<rparr>"

definition TOP_LEVEL_PROTECTED_FIELDS :: "string list" where
  "TOP_LEVEL_PROTECTED_FIELDS =
     [''timestamp'', ''id'', ''source'', ''cause'', ''action'', ''observation'', ''message'']"

definition hide_secrets :: "string list \<Rightarrow> string \<Rightarrow> string" where
  "hide_secrets secrets s = foldl (\<lambda>s secret. py_replace s secret ''<secret_hidden>'') s secrets"

text \<open>A value below the top level: dictionaries are entered, strings are masked, lists are left alone.\<close>

primrec mask_value :: "string list \<Rightarrow> json \<Rightarrow> json" where
  "mask_value secrets (JObj d) = JObj (map (map_prod id (mask_value secrets)) d)"
| "mask_value secrets (JStr s) = JStr (hide_secrets secrets s)"
| "mask_value secrets (JList js) = JList js"
| "mask_value secrets JNull = JNull"
| "mask_value secrets (JBool b) = JBool b"
| "mask_value secrets (JInt i) = JInt i"
| "mask_value secrets (JFloat q) = JFloat q"

definition replace_secrets :: "string list \<Rightarrow> dict \<Rightarrow> dict" where
  "replace_secrets secrets data =
     map (\<lambda>(k, v). if k \<in> set TOP_LEVEL_PROTECTED_FIELDS then (k, v) else (k, mask_value secrets v)) data"

section \<open>Adding events\<close>

text \<open>What a thread carries from the critical section to the writing: the copy to queue, its document, its page.\<close>

record reservation =
  rs_event :: event
  rs_data :: dict
  rs_page :: nat

text \<open>The caller's object is changed in place: it is the second component, whatever happens afterwards.\<close>

definition add_reserve ::
  "('s \<Rightarrow> string \<Rightarrow> string list res) \<Rightarrow> (string \<Rightarrow> dict option) \<Rightarrow> string \<Rightarrow> event \<Rightarrow> event_source
     \<Rightarrow> ('s, 'k) event_stream \<Rightarrow> ('s, 'k) event_stream \<times> event \<times> reservation res" where
  "add_reserve ls lit now e source st =
     (if event_id e \<noteq> INVALID_ID then (st, e, Inl (ValueError (''Event already has an ID:'' @ str_of_int (event_id e))))
      else let e = e\<lparr>ev_timestamp := Some now, ev_source := Some source\<rparr> in
        case cur_id ls st of
          Inl err \<Rightarrow> (st, e, Inl err)
        | Inr (st, i) \<Rightarrow>
            let e = e\<lparr>ev_id := Some i\<rparr>; st = st\<lparr>es_cur_id := Some (i + 1)\<rparr>; p = length (st_pages st) - 1 in
            case event_to_dict e of
              Inl err \<Rightarrow> (st, e, Inl err)
            | Inr data \<Rightarrow>
                let data = replace_secrets (map snd (st_secrets st)) data in
                (case event_from_dict lit data of
                   Inl err \<Rightarrow> (st, e, Inl err)
                 | Inr copy \<Rightarrow>
                     let page = st_pages st ! p @ [data];
                         pages = (st_pages st)[p := page];
                         pages = (if int (length page) = es_cache_size st then pages @ [[]] else pages)
                     in (st\<lparr>st_pages := pages\<rparr>, e, Inr \<lparr>rs_event = copy, rs_data = data, rs_page = p\<rparr>)))"

definition store_cache_page ::
  "(string \<Rightarrow> json \<Rightarrow> 's \<Rightarrow> 's) \<Rightarrow> dict list \<Rightarrow> ('s, 'k) event_stream \<Rightarrow> ('s, 'k) event_stream res" where
  "store_cache_page wr page st =
     (if int (length page) < es_cache_size st then Inr st
      else case page of
        [] \<Rightarrow> Inl IndexError
      | d # _ \<Rightarrow>
          (case d_get d ''id'' of
             Some (JInt a) \<Rightarrow>
               Inr (st\<lparr>es_files := wr (get_filename_for_cache st a (a + es_cache_size st)) (JList (map JObj page)) (es_files st)\<rparr>)
           | Some _ \<Rightarrow> Inl ill_typed
           | None \<Rightarrow> Inl (KeyError ''id'')))"

definition add_persist ::
  "(string \<Rightarrow> json \<Rightarrow> 's \<Rightarrow> 's) \<Rightarrow> reservation \<Rightarrow> ('s, 'k) event_stream \<Rightarrow> ('s, 'k) event_stream \<times> unit res" where
  "add_persist wr r st =
     (let st = st\<lparr>es_files := wr (get_filename_for_id st (event_id (rs_event r))) (JObj (rs_data r)) (es_files st)\<rparr>
      in case store_cache_page wr (st_pages st ! rs_page r) st of
           Inl err \<Rightarrow> (st, Inl err)
         | Inr st \<Rightarrow> (st\<lparr>st_queue := st_queue st @ [rs_event r]\<rparr>, Inr ()))"

definition add_event ::
  "(string \<Rightarrow> json \<Rightarrow> 's \<Rightarrow> 's) \<Rightarrow> ('s \<Rightarrow> string \<Rightarrow> string list res) \<Rightarrow> (string \<Rightarrow> dict option) \<Rightarrow> string \<Rightarrow> event \<Rightarrow> event_source
     \<Rightarrow> ('s, 'k) event_stream \<Rightarrow> ('s, 'k) event_stream \<times> event \<times> unit res" where
  "add_event wr ls lit now e source st =
     (case add_reserve ls lit now e source st of
        (st, e, Inl err) \<Rightarrow> (st, e, Inl err)
      | (st, e, Inr r) \<Rightarrow> (case add_persist wr r st of (st, x) \<Rightarrow> (st, e, x)))"

section \<open>Subscribers\<close>

definition callbacks_of :: "string \<Rightarrow> ('s, 'k) event_stream \<Rightarrow> (string \<times> 'k) list" where
  "callbacks_of sub st = (case map_of (st_subscribers st) sub of None \<Rightarrow> [] | Some cs \<Rightarrow> cs)"

definition subscribe :: "string \<Rightarrow> 'k \<Rightarrow> string \<Rightarrow> ('s, 'k) event_stream \<Rightarrow> ('s, 'k) event_stream \<times> unit res" where
  "subscribe sub callback cid st =
     (let st = (if d_has (st_subscribers st) sub then st else st\<lparr>st_subscribers := st_subscribers st @ [(sub, [])]\<rparr>)
      in if d_has (callbacks_of sub st) cid
         then (st, Inl (ValueError (''Callback ID on subscriber '' @ sub @ '' already exists: '' @ cid)))
         else (st\<lparr>st_subscribers := d_set sub (d_set cid callback (callbacks_of sub st)) (st_subscribers st)\<rparr>, Inr ()))"

definition clean_up_subscriber :: "string \<Rightarrow> string \<Rightarrow> ('s, 'k) event_stream \<Rightarrow> ('s, 'k) event_stream" where
  "clean_up_subscriber sub cid st =
     (if \<not> d_has (st_subscribers st) sub then st
      else if \<not> d_has (callbacks_of sub st) cid then st
      else st\<lparr>st_subscribers := d_set sub (d_del cid (callbacks_of sub st)) (st_subscribers st)\<rparr>)"

definition unsubscribe :: "string \<Rightarrow> string \<Rightarrow> ('s, 'k) event_stream \<Rightarrow> ('s, 'k) event_stream" where
  "unsubscribe sub cid st =
     (if \<not> d_has (st_subscribers st) sub then st
      else if \<not> d_has (callbacks_of sub st) cid then st
      else clean_up_subscriber sub cid st)"

definition close_stream :: "('s, 'k) event_stream \<Rightarrow> ('s, 'k) event_stream" where
  "close_stream st =
     (let st = fold (\<lambda>sub st. fold (\<lambda>cid st. clean_up_subscriber sub cid st) (d_keys (callbacks_of sub st)) st)
                    (d_keys (st_subscribers st)) st
      in st\<lparr>st_queue := []\<rparr>)"

text \<open>One turn of \<open>_process_queue\<close>: the oldest event goes to every callback, subscribers in sorted order.\<close>

definition deliveries :: "('s, 'k) event_stream \<Rightarrow> event \<Rightarrow> (string \<times> string \<times> 'k \<times> event) list" where
  "deliveries st e =
     concat (map (\<lambda>sub. map (\<lambda>(cid, callback). (sub, cid, callback, e)) (callbacks_of sub st))
       (sort (d_keys (st_subscribers st))))"

definition process_next :: "('s, 'k) event_stream \<Rightarrow> ('s, 'k) event_stream \<times> (string \<times> string \<times> 'k \<times> event) list" where
  "process_next st =
     (case st_queue st of
        [] \<Rightarrow> (st, [])
      | e # q \<Rightarrow> (st\<lparr>st_queue := q\<rparr>, deliveries st e))"

section \<open>What masking does\<close>

lemma mask_value_Nil [simp]: "mask_value [] v = v"
proof (induction v)
  case (JObj d)
  have "map (map_prod id (mask_value [])) d = map id d"
    using JObj by (intro map_cong) (auto simp: snds.simps)
  then show ?case by simp
qed (simp_all add: hide_secrets_def)

lemma replace_secrets_Nil [simp]: "replace_secrets [] d = d"
  by (simp add: replace_secrets_def map_idI split_beta)

lemma d_keys_replace_secrets: "d_keys (replace_secrets s d) = d_keys d"
  by (induction d) (auto simp: replace_secrets_def d_keys_def)

lemma d_get_replace_secrets:
  "d_get (replace_secrets s d) k =
     (if k \<in> set TOP_LEVEL_PROTECTED_FIELDS then d_get d k else map_option (mask_value s) (d_get d k))"
  by (induction d) (auto simp: replace_secrets_def)

text \<open>Where a string has the text to replace at all, the first occurrence is replaced and the rest is treated the same way.\<close>

lemma py_contains_sublist: "py_contains s p \<longleftrightarrow> sublist p s"
  by (induction s) (auto simp: py_startswith_def sublist_Cons_right prefix_def append_eq_conv_conj, metis append_eq_conv_conj)

lemma py_startswith_prefix: "py_startswith s p \<longleftrightarrow> prefix p s"
  by (auto simp: py_startswith_def prefix_def) (metis append_take_drop_id)

lemma py_replace_aux_skip: "k \<le> length s \<Longrightarrow> py_replace_aux k old new s = py_replace_aux 0 old new (drop k s)"
proof (induction k old new s rule: py_replace_aux.induct)
  case (2 k old new c s)
  then show ?case by simp
qed auto

lemma py_replace_aux_none: "\<not> sublist old s \<Longrightarrow> old \<noteq> [] \<Longrightarrow> py_replace_aux 0 old new s = s"
  by (induction s) (auto simp: py_startswith_prefix sublist_Cons_right)

lemma py_replace_aux_first:
  assumes "sublist old s" and "old \<noteq> []"
  shows "\<exists>a b. s = a @ old @ b \<and> \<not> sublist old (a @ butlast old)
     \<and> py_replace_aux 0 old new s = a @ new @ py_replace_aux 0 old new b"
  using assms(1)
proof (induction s)
  case Nil
  with assms(2) show ?case by simp
next
  case (Cons c s)
  show ?case
  proof (cases "prefix old (c # s)")
    case True
    then obtain b where b: "c # s = old @ b" by (auto simp: prefix_def)
    obtain o1 os where os: "old = o1 # os" using assms(2) by (cases old) auto
    have "py_replace_aux (length old - 1) old new s = py_replace_aux 0 old new b"
      using b os py_replace_aux_skip [of "length os" s old new] by simp
    moreover have "\<not> sublist old (butlast old)"
      using assms(2) sublist_length_le [of old "butlast old"] by (cases old rule: rev_cases) auto
    moreover have "py_replace_aux 0 old new (c # s) = new @ py_replace_aux (length old - 1) old new s"
      using True by (simp add: py_startswith_prefix)
    ultimately have "c # s = [] @ old @ b \<and> \<not> sublist old ([] @ butlast old)
        \<and> py_replace_aux 0 old new (c # s) = [] @ new @ py_replace_aux 0 old new b"
      using b by simp
    then show ?thesis by blast
  next
    case False
    with Cons.prems have "sublist old s" by (simp add: sublist_Cons_right)
    from Cons.IH [OF this] obtain a b where ab: "s = a @ old @ b" "\<not> sublist old (a @ butlast old)"
      "py_replace_aux 0 old new s = a @ new @ py_replace_aux 0 old new b" by blast
    have "\<not> prefix old (c # a @ butlast old)"
    proof
      assume "prefix old (c # a @ butlast old)"
      then have "prefix old ((c # a @ butlast old) @ (last old # b))" by (rule prefix_prefix)
      moreover have "(c # a @ butlast old) @ (last old # b) = c # s"
        using ab(1) append_butlast_last_id [OF assms(2)] by (metis append.assoc append_Cons append_Nil)
      ultimately show False using False by simp
    qed
    with ab False show ?thesis
      by (intro exI [of _ "c # a"] exI [of _ b]) (auto simp: sublist_Cons_right py_startswith_prefix)
  qed
qed

text \<open>
  A secret that cannot be mistaken for a part of the placeholder: it is not empty, has no angle bracket and does not
  occur inside the word.
\<close>

definition secret_ok :: "string \<Rightarrow> bool" where
  "secret_ok x \<longleftrightarrow> x \<noteq> [] \<and> CHR 0x3C \<notin> set x \<and> CHR 0x3E \<notin> set x \<and> \<not> py_contains ''secret_hidden'' x"

lemma sublist_placeholder:
  assumes "secret_ok y" and "sublist y (a @ ''<secret_hidden>'' @ b)"
  shows "sublist y a \<or> sublist y b"
proof -
  let ?m = "''secret_hidden''"
  have ph: "''<secret_hidden>'' = [CHR 0x3C] @ ?m @ [CHR 0x3E]" by simp
  have no: "\<not> sublist y ?m" "y \<noteq> []" "CHR 0x3C \<notin> set y" "CHR 0x3E \<notin> set y"
    using assms(1) py_contains_sublist [of ?m y] by (simp_all add: secret_ok_def)
  have left: "sublist y (u @ [c] @ v) \<Longrightarrow> c \<notin> set y \<Longrightarrow> sublist y u \<or> sublist y v" for u v c
  proof -
    assume y: "sublist y (u @ [c] @ v)" "c \<notin> set y"
    then obtain p q where pq: "u @ [c] @ v = p @ y @ q" by (auto simp: sublist_def)
    from pq [symmetric] obtain us where "p = u @ us \<and> us @ y @ q = [c] @ v \<or> p @ us = u \<and> y @ q = us @ [c] @ v"
      by (auto simp: append_eq_append_conv2)
    then show ?thesis
    proof
      assume "p = u @ us \<and> us @ y @ q = [c] @ v"
      then have "us @ y @ q = c # v" by simp
      with y(2) no(2) have "\<exists>us'. v = us' @ y @ q" by (cases us) (auto simp: Cons_eq_append_conv neq_Nil_conv)
      then show ?thesis by (auto simp: sublist_def)
    next
      assume h: "p @ us = u \<and> y @ q = us @ [c] @ v"
      then obtain ws where "y = us @ ws \<and> ws @ q = [c] @ v \<or> y @ ws = us \<and> q = ws @ [c] @ v"
        by (auto simp: append_eq_append_conv2)
      then show ?thesis
      proof
        assume "y = us @ ws \<and> ws @ q = [c] @ v"
        with y(2) have "ws = []" by (cases ws) auto
        with \<open>y = us @ ws \<and> ws @ q = [c] @ v\<close> h have "u = p @ y @ []" by simp
        then show ?thesis unfolding sublist_def by blast
      next
        assume "y @ ws = us \<and> q = ws @ [c] @ v"
        with h show ?thesis by (auto simp: sublist_def)
      qed
    qed
  qed
  have "sublist y (a @ [CHR 0x3C] @ (?m @ [CHR 0x3E] @ b))" using assms(2) by simp
  from left [OF this no(3)] left [of ?m "CHR 0x3E" b] no show ?thesis by blast
qed

lemma replace_keeps_absent:
  assumes "secret_ok y" and "x \<noteq> []" and "\<not> sublist y s"
  shows "\<not> sublist y (py_replace_aux 0 x ''<secret_hidden>'' s)"
  using assms(3)
proof (induction s rule: length_induct)
  case (1 s)
  show ?case
  proof (cases "sublist x s")
    case False
    with 1 assms(2) show ?thesis by (simp add: py_replace_aux_none)
  next
    case True
    from py_replace_aux_first [OF True assms(2)] obtain a b where ab: "s = a @ x @ b"
      "py_replace_aux 0 x ''<secret_hidden>'' s = a @ ''<secret_hidden>'' @ py_replace_aux 0 x ''<secret_hidden>'' b" by blast
    have "length b < length s" using ab(1) assms(2) by simp
    moreover have "\<not> sublist y b" "\<not> sublist y a" using 1(2) ab(1) by (auto simp: sublist_append)
    ultimately have "\<not> sublist y (py_replace_aux 0 x ''<secret_hidden>'' b)" using 1(1) by blast
    with ab(2) \<open>\<not> sublist y a\<close> sublist_placeholder [OF assms(1)] show ?thesis by metis
  qed
qed

lemma replace_removes:
  assumes "secret_ok x"
  shows "\<not> sublist x (py_replace_aux 0 x ''<secret_hidden>'' s)"
proof (induction s rule: length_induct)
  case (1 s)
  have x: "x \<noteq> []" using assms by (simp add: secret_ok_def)
  show ?case
  proof (cases "sublist x s")
    case False
    with x show ?thesis by (simp add: py_replace_aux_none)
  next
    case True
    from py_replace_aux_first [OF True x] obtain a b where ab: "s = a @ x @ b" "\<not> sublist x (a @ butlast x)"
      "py_replace_aux 0 x ''<secret_hidden>'' s = a @ ''<secret_hidden>'' @ py_replace_aux 0 x ''<secret_hidden>'' b" by blast
    have "length b < length s" using ab(1) x by simp
    with 1 have "\<not> sublist x (py_replace_aux 0 x ''<secret_hidden>'' b)" by blast
    moreover have "\<not> sublist x a" using ab(2) by (auto simp: sublist_append)
    ultimately show ?thesis using ab(3) sublist_placeholder [OF assms] by metis
  qed
qed

lemma hide_secrets_absent:
  assumes "\<forall>x \<in> set xs. secret_ok x" and "x \<in> set xs \<or> \<not> sublist x s" and "secret_ok x"
  shows "\<not> sublist x (hide_secrets xs s)"
  using assms
proof (induction xs arbitrary: s)
  case Nil
  then show ?case by (simp add: hide_secrets_def)
next
  case (Cons z xs)
  have z: "z \<noteq> []" "secret_ok z" using Cons.prems(1) by (simp_all add: secret_ok_def)
  have "x \<in> set xs \<or> \<not> sublist x (py_replace s z ''<secret_hidden>'')"
    using Cons.prems(2,3) z replace_removes [of z s] replace_keeps_absent [of x z s] by (auto simp: py_replace_def)
  with Cons.IH [of "py_replace s z ''<secret_hidden>''"] Cons.prems show ?case by (simp add: hide_secrets_def)
qed

primrec free_of :: "string \<Rightarrow> json \<Rightarrow> bool" where
  \<comment> \<open>no string outside lists contains the secret; the keys of dictionaries do not count\<close>
  "free_of x (JObj d) = list_all snd (map (map_prod id (free_of x)) d)"
| "free_of x (JStr s) = (\<not> py_contains s x)"
| "free_of x (JList js) = True"
| "free_of x JNull = True"
| "free_of x (JBool b) = True"
| "free_of x (JInt i) = True"
| "free_of x (JFloat q) = True"

lemma free_of_mask:
  assumes "\<forall>x \<in> set xs. secret_ok x" and "x \<in> set xs"
  shows "free_of x (mask_value xs v)"
proof (induction v)
  case (JStr s)
  with assms show ?case by (simp add: hide_secrets_absent py_contains_sublist)
next
  case (JObj d)
  then show ?case by (force simp: list_all_iff snds.simps)
qed simp_all

lemma hide_secrets_none:
  assumes "\<forall>x \<in> set xs. secret_ok x \<and> \<not> py_contains s x"
  shows "hide_secrets xs s = s"
  using assms
proof (induction xs)
  case (Cons x xs)
  then have "py_replace s x ''<secret_hidden>'' = s"
    by (simp add: py_replace_def py_replace_aux_none py_contains_sublist secret_ok_def)
  with Cons show ?case by (simp add: hide_secrets_def)
qed (simp add: hide_secrets_def)

lemma mask_free:
  assumes "\<forall>x \<in> set xs. secret_ok x \<and> free_of x v"
  shows "mask_value xs v = v"
  using assms
proof (induction v)
  case (JStr s)
  then show ?case by (simp add: hide_secrets_none)
next
  case (JObj d)
  have "mask_value xs w = w" if "(k, w) \<in> set d" for k w
    using JObj.IH [of "(k, w)" w] JObj.prems that by (fastforce simp: list_all_iff snds.simps)
  then show ?case by (auto intro!: map_idI)
qed simp_all

section \<open>The invariant of a stream\<close>

text \<open>
  \<open>next_id\<close> is the id the next event gets. In a well-formed stream no file of that id or a later one
  exists, and the current write page holds the documents of the last ids, one after the other.
\<close>

definition next_id :: "('s \<Rightarrow> string \<Rightarrow> string list res) \<Rightarrow> ('s, 'k) event_stream \<Rightarrow> int res" where
  "next_id ls st = (case es_cur_id st of Some i \<Rightarrow> Inr i | None \<Rightarrow> calculate_cur_id ls st)"

definition write_page_ok :: "('s \<Rightarrow> string \<Rightarrow> json res) \<Rightarrow> int \<Rightarrow> ('s, 'k) event_stream \<Rightarrow> bool" where
  "write_page_ok rd n st \<longleftrightarrow>
     st_pages st \<noteq> [] \<and> int (length (last (st_pages st))) < es_cache_size st
     \<and> (\<forall>k < length (last (st_pages st)).
          let i = n - int (length (last (st_pages st))) + int k; d = last (st_pages st) ! k in
          d_get d ''id'' = Some (JInt i) \<and> rd (es_files st) (get_filename_for_id st i) = Inr (JObj d))"

lemma write_page_okD:
  assumes "write_page_ok rd n st" and "k < length (last (st_pages st))"
  shows "d_get (last (st_pages st) ! k) ''id'' = Some (JInt (n - int (length (last (st_pages st))) + int k))"
    and "rd (es_files st) (get_filename_for_id st (n - int (length (last (st_pages st))) + int k))
      = Inr (JObj (last (st_pages st) ! k))"
  using assms by (simp_all add: write_page_ok_def Let_def)

definition stream_ok ::
  "('s \<Rightarrow> string \<Rightarrow> json res) \<Rightarrow> ('s \<Rightarrow> string \<Rightarrow> string list res) \<Rightarrow> (string \<Rightarrow> dict option) \<Rightarrow> ('s, 'k) event_stream \<Rightarrow> bool" where
  "stream_ok rd ls lit st \<longleftrightarrow>
     store_ok rd lit st
     \<and> (\<exists>n \<ge> 0. next_id ls st = Inr n
          \<and> (\<forall>i \<ge> n. rd (es_files st) (get_filename_for_id st i) = Inl FileNotFoundError)
          \<and> write_page_ok rd n st)"

text \<open>The pieces of a reservation that went through.\<close>

lemma add_reserve_ok:
  assumes "add_reserve ls lit now e source st = (st', e', Inr r)" and "next_id ls st = Inr n"
  shows "event_id e = INVALID_ID"
    and "e' = e\<lparr>ev_timestamp := Some now, ev_source := Some source, ev_id := Some n\<rparr>"
    and "\<exists>d. event_to_dict e' = Inr d \<and> rs_data r = replace_secrets (map snd (st_secrets st)) d"
    and "event_from_dict lit (rs_data r) = Inr (rs_event r)"
    and "rs_page r = length (st_pages st) - 1"
    and "\<exists>pages. st' = st\<lparr>es_cur_id := Some (n + 1), st_pages := pages\<rparr>
       \<and> pages = (let page = st_pages st ! rs_page r @ [rs_data r]; ps = (st_pages st)[rs_page r := page]
                  in if int (length page) = es_cache_size st then ps @ [[]] else ps)"
proof -
  have cid: "cur_id ls st = Inr (st\<lparr>es_cur_id := Some n\<rparr>, n)"
    using assms(2) by (auto simp: cur_id_def next_id_def split: option.splits)
  show "event_id e = INVALID_ID" using assms(1) by (auto simp: add_reserve_def split: if_splits)
  then show "e' = e\<lparr>ev_timestamp := Some now, ev_source := Some source, ev_id := Some n\<rparr>"
    and "\<exists>d. event_to_dict e' = Inr d \<and> rs_data r = replace_secrets (map snd (st_secrets st)) d"
    and "event_from_dict lit (rs_data r) = Inr (rs_event r)"
    and "rs_page r = length (st_pages st) - 1"
    and "\<exists>pages. st' = st\<lparr>es_cur_id := Some (n + 1), st_pages := pages\<rparr>
       \<and> pages = (let page = st_pages st ! rs_page r @ [rs_data r]; ps = (st_pages st)[rs_page r := page]
                  in if int (length page) = es_cache_size st then ps @ [[]] else ps)"
    using assms(1) cid
    by (auto simp: add_reserve_def Let_def split: sum.splits)
qed

text \<open>The document of an event carries its id at the top level, where masking does not reach.\<close>

lemma event_to_dict_id:
  assumes "event_to_dict e = Inr d" and "event_id e \<noteq> INVALID_ID"
  shows "d_get d ''id'' = Some (JInt (event_id e))"
proof (cases "ev_body e")
  case (Act a)
  from assms(1) Act obtain msg where "action_message a = Inr msg"
    by (auto simp: event_to_dict_def bind_res_def split: sum.splits)
  from event_to_dict_action [OF Act this] assms show ?thesis by auto
next
  case (Obs ob)
  from event_to_dict_obs [OF Obs] assms show ?thesis by auto
qed

lemma under_Inr:
  "under d k conv old f = Inr b \<longleftrightarrow>
     (\<exists>v. (case d_get d k of Some j \<Rightarrow> conv j = Inr v | None \<Rightarrow> v = old) \<and> f v = Inr b)"
  by (auto simp: under_def arg_def bind_res_Inr split: option.split)

lemma event_from_dict_id:
  assumes "event_from_dict lit d = Inr e" and "d_get d ''id'' = Some (JInt i)"
  shows "ev_id e = Some i"
proof -
  from assms(1) obtain e0 where "under d ''id'' (as_opt as_int) (ev_id e0) (\<lambda>i.
            under d ''timestamp'' (as_opt as_str) (ev_timestamp e0) (\<lambda>ts.
            under d ''source'' (\<lambda>j. bind_res (as_str j) (\<lambda>s. bind_res (source_of s) (\<lambda>s. Inr (Some s)))) (ev_source e0) (\<lambda>s.
            under d ''cause'' (as_opt as_int) (ev_cause e0) (\<lambda>c.
            under d ''tool_call_metadata'' (\<lambda>j. bind_res (dec_tool_call j) (\<lambda>t. Inr (Some t))) (ev_tool_call_metadata e0) (\<lambda>t.
            under d ''llm_metrics'' (\<lambda>j. bind_res (dec_metrics j) (\<lambda>m. Inr (Some m))) (ev_llm_metrics e0) (\<lambda>m.
              Inr (e0\<lparr>ev_id := i, ev_timestamp := ts, ev_source := s, ev_cause := c,
                     ev_tool_call_metadata := t, ev_llm_metrics := m\<rparr>))))))) = Inr e"
    unfolding event_from_dict_def bind_res_Inr by (elim exE conjE)
  then obtain v ts s c t m where v: "case d_get d ''id'' of Some j \<Rightarrow> as_opt as_int j = Inr v | None \<Rightarrow> v = ev_id e0"
    and e: "e0\<lparr>ev_id := v, ev_timestamp := ts, ev_source := s, ev_cause := c,
                     ev_tool_call_metadata := t, ev_llm_metrics := m\<rparr> = e"
    unfolding under_Inr sum.inject by (elim exE conjE)
  with assms(2) show ?thesis by (auto simp: as_opt_def as_int_def)
qed

section \<open>Adding one event\<close>

text \<open>The state a completed call leaves, spelled out over the state before it.\<close>

definition added ::
  "(string \<Rightarrow> json \<Rightarrow> 's \<Rightarrow> 's) \<Rightarrow> int \<Rightarrow> dict \<Rightarrow> event \<Rightarrow> ('s, 'k) event_stream \<Rightarrow> ('s, 'k) event_stream" where
  "added wr n data copy st =
     (let page = last (st_pages st) @ [data];
          full = (int (length page) = es_cache_size st);
          fs = wr (get_filename_for_id st n) (JObj data) (es_files st);
          a = n - int (length (last (st_pages st)));
          fs = (if full then wr (get_filename_for_cache st a (a + es_cache_size st)) (JList (map JObj page)) fs else fs)
      in st\<lparr>es_cur_id := Some (n + 1), es_files := fs,
            st_pages := butlast (st_pages st) @ (if full then [page, []] else [page]),
            st_queue := st_queue st @ [copy]\<rparr>)"

lemma store_cache_page_short: "int (length page) < es_cache_size st \<Longrightarrow> store_cache_page wr page st = Inr st"
  by (simp add: store_cache_page_def)

lemma store_cache_page_full:
  "\<not> int (length page) < es_cache_size st \<Longrightarrow> page \<noteq> [] \<Longrightarrow> d_get (hd page) ''id'' = Some (JInt a) \<Longrightarrow>
     store_cache_page wr page st =
       Inr (st\<lparr>es_files := wr (get_filename_for_cache st a (a + es_cache_size st)) (JList (map JObj page)) (es_files st)\<rparr>)"
  by (cases page) (simp_all add: store_cache_page_def)

lemma pages_update: "ps \<noteq> [] \<Longrightarrow> ps[length ps - 1 := x] = butlast ps @ [x]"
  by (cases ps rule: rev_cases) simp_all

lemma filename_update [simp]:
  "get_filename_for_id (st\<lparr>es_cur_id := c\<rparr>) i = get_filename_for_id st i"
  "get_filename_for_id (st\<lparr>es_files := f\<rparr>) i = get_filename_for_id st i"
  "get_filename_for_id (st\<lparr>st_pages := p\<rparr>) i = get_filename_for_id st i"
  "get_filename_for_id (st\<lparr>st_queue := q\<rparr>) i = get_filename_for_id st i"
  "get_filename_for_cache (st\<lparr>es_cur_id := c\<rparr>) a b = get_filename_for_cache st a b"
  "get_filename_for_cache (st\<lparr>es_files := f\<rparr>) a b = get_filename_for_cache st a b"
  "get_filename_for_cache (st\<lparr>st_pages := p\<rparr>) a b = get_filename_for_cache st a b"
  "get_filename_for_cache (st\<lparr>st_queue := q\<rparr>) a b = get_filename_for_cache st a b"
  by (simp_all add: get_filename_for_id_def get_filename_for_cache_def)

context event_files
begin

lemma reserve_persist:
  assumes ok: "stream_ok rd ls lit st" and nx: "next_id ls st = Inr n"
    and r: "add_reserve ls lit now e source st = (st1, e', Inr r)"
  shows "d_get (rs_data r) ''id'' = Some (JInt n)" and "event_id (rs_event r) = n"
    and "add_persist wr r st1 = (added wr n (rs_data r) (rs_event r) st, Inr ())"
proof -
  note res = add_reserve_ok [OF r nx]
  from ok nx have n: "0 \<le> n" and wp: "write_page_ok rd n st" by (auto simp: stream_ok_def)
  obtain d where d: "event_to_dict e' = Inr d" "rs_data r = replace_secrets (map snd (st_secrets st)) d"
    using res(3) by blast
  have "event_id e' = n" using res(2) by (simp add: event_id_def)
  then have "d_get d ''id'' = Some (JInt n)" using event_to_dict_id [OF d(1)] n by (simp add: INVALID_ID_def)
  then have id: "d_get (rs_data r) ''id'' = Some (JInt n)"
    using d(2) by (simp add: d_get_replace_secrets TOP_LEVEL_PROTECTED_FIELDS_def)
  then have cid: "event_id (rs_event r) = n"
    using event_from_dict_id [OF res(4)] by (simp add: event_id_def)
  let ?w = "last (st_pages st)"
  let ?page = "?w @ [rs_data r]"
  let ?full = "int (length ?page) = es_cache_size st"
  from wp have ne: "st_pages st \<noteq> []" and short: "int (length ?w) < es_cache_size st"
    by (simp_all add: write_page_ok_def)
  have last: "st_pages st ! rs_page r = ?w" using res(5) ne by (simp add: last_conv_nth)
  have st1: "st1 = st\<lparr>es_cur_id := Some (n + 1), st_pages := butlast (st_pages st) @ (if ?full then [?page, []] else [?page])\<rparr>"
    using res(6) last res(5) pages_update [OF ne] by (auto simp: Let_def)
  have mine: "st_pages st1 ! rs_page r = ?page"
    using st1 res(5) ne by (simp add: nth_append)
  have hd: "d_get (hd ?page) ''id'' = Some (JInt (n - int (length ?w)))"
  proof (cases ?w)
    case Nil
    then show ?thesis using id by simp
  next
    case (Cons x xs)
    from write_page_okD [OF wp, of 0] Cons show ?thesis by simp
  qed
  have persist: "add_persist wr r st1 = (case store_cache_page wr ?page
        (st1\<lparr>es_files := wr (get_filename_for_id st n) (JObj (rs_data r)) (es_files st)\<rparr>) of
      Inl err \<Rightarrow> (st1\<lparr>es_files := wr (get_filename_for_id st n) (JObj (rs_data r)) (es_files st)\<rparr>, Inl err)
    | Inr st2 \<Rightarrow> (st2\<lparr>st_queue := st_queue st2 @ [rs_event r]\<rparr>, Inr ()))"
  proof -
    have "es_files st1 = es_files st" "get_filename_for_id st1 n = get_filename_for_id st n"
      by (simp_all add: st1)
    with mine cid show ?thesis by (simp add: add_persist_def Let_def)
  qed
  show "add_persist wr r st1 = (added wr n (rs_data r) (rs_event r) st, Inr ())"
  proof (cases ?full)
    case True
    have sc: "store_cache_page wr ?page (st1\<lparr>es_files := f\<rparr>) = Inr (st1\<lparr>es_files :=
        wr (get_filename_for_cache st (n - int (length ?w)) (n - int (length ?w) + es_cache_size st)) (JList (map JObj ?page)) f\<rparr>)" for f
      using True by (subst store_cache_page_full [OF _ _ hd]) (simp_all add: st1)
    show ?thesis unfolding persist sc by (simp add: added_def Let_def True [simplified] st1)
  next
    case False
    with short have sc: "store_cache_page wr ?page (st1\<lparr>es_files := f\<rparr>) = Inr (st1\<lparr>es_files := f\<rparr>)" for f
      by (intro store_cache_page_short) (simp add: st1)
    show ?thesis unfolding persist sc by (simp add: added_def Let_def False [simplified] st1)
  qed
  show "d_get (rs_data r) ''id'' = Some (JInt n)" "event_id (rs_event r) = n" by (rule id, rule cid)
qed

lemma add_event_added:
  assumes ok: "stream_ok rd ls lit st" and nx: "next_id ls st = Inr n"
    and add: "add_event wr ls lit now e source st = (st', e', Inr ())"
  shows "\<exists>d copy. event_to_dict e' = Inr d
     \<and> event_from_dict lit (replace_secrets (map snd (st_secrets st)) d) = Inr copy \<and> event_id copy = n
     \<and> d_get (replace_secrets (map snd (st_secrets st)) d) ''id'' = Some (JInt n)
     \<and> st' = added wr n (replace_secrets (map snd (st_secrets st)) d) copy st"
proof -
  from add obtain st1 r where r: "add_reserve ls lit now e source st = (st1, e', Inr r)"
    and p: "add_persist wr r st1 = (st', Inr ())"
    by (auto simp: add_event_def split: prod.splits sum.splits)
  from add_reserve_ok(3,4) [OF r nx] reserve_persist [OF ok nx r] p show ?thesis by auto
qed

text \<open>The invariant is kept, the log grows by exactly the new event, and the event is queued last.\<close>

lemma added_ok:
  assumes ok: "stream_ok rd ls lit st" and nx: "next_id ls st = Inr n"
    and parse: "event_from_dict lit data = Inr copy" and cid: "event_id copy = n"
    and id: "d_get data ''id'' = Some (JInt n)"
  defines "st' \<equiv> added wr n data copy st"
  shows "stream_ok rd ls lit st'" and "next_id ls st' = Inr (n + 1)"
    and "stored rd lit st' = (stored rd lit st)(n \<mapsto> copy)"
proof -
  from ok nx have n: "0 \<le> n" and free: "\<And>i. n \<le> i \<Longrightarrow> rd (es_files st) (get_filename_for_id st i) = Inl FileNotFoundError"
    and wp: "write_page_ok rd n st" and so: "store_ok rd lit st" by (auto simp: stream_ok_def)
  let ?w = "last (st_pages st)"
  let ?page = "?w @ [data]"
  let ?a = "n - int (length ?w)"
  let ?full = "int (length ?page) = es_cache_size st"
  from wp have ne: "st_pages st \<noteq> []" and short: "int (length ?w) < es_cache_size st"
    and old: "\<And>k. k < length ?w \<Longrightarrow> d_get (?w ! k) ''id'' = Some (JInt (?a + int k))
      \<and> rd (es_files st) (get_filename_for_id st (?a + int k)) = Inr (JObj (?w ! k))"
    unfolding write_page_ok_def Let_def by blast+
  from so have size: "0 < es_cache_size st" and fok: "files_ok rd lit st" and pok: "pages_ok rd st"
    by (simp_all add: store_ok_def)
  have same: "es_cache_size st' = es_cache_size st" "get_filename_for_id st' = get_filename_for_id st"
    "get_filename_for_cache st' = get_filename_for_cache st"
    by (simp_all add: st'_def added_def Let_def fun_eq_iff get_filename_for_id_def get_filename_for_cache_def)
  have fl: "rd (es_files st') (get_filename_for_id st i)
      = (if i = n then Inr (JObj data) else rd (es_files st) (get_filename_for_id st i))" for i
    by (simp add: st'_def added_def Let_def get_filename_for_id_def get_filename_for_cache_def read_write)
  have pg: "rd (es_files st') (get_filename_for_cache st a b)
      = (if ?full \<and> a = ?a \<and> b = ?a + es_cache_size st then Inr (JList (map JObj ?page))
         else rd (es_files st) (get_filename_for_cache st a b))" for a b
    by (auto simp: st'_def added_def Let_def get_filename_for_id_def get_filename_for_cache_def read_write
        event_filename_not_cache [symmetric])
  have page: "rd (es_files st') (get_filename_for_id st (?a + int k)) = Inr (JObj (?page ! k))"
    "d_get (?page ! k) ''id'' = Some (JInt (?a + int k))" if "k < length ?page" for k
    using that old [of k] id by (auto simp: fl nth_append less_Suc_eq)
  have "files_ok rd lit st'"
    unfolding files_ok_def same
  proof (intro allI impI)
    fix i j assume j: "rd (es_files st') (get_filename_for_id st i) = Inr j"
    show "\<exists>d e. j = JObj d \<and> event_from_dict lit d = Inr e \<and> event_id e = i"
    proof (cases "i = n")
      case False
      with j have "rd (es_files st) (get_filename_for_id st i) = Inr j" by (simp add: fl)
      from files_okD [OF fok this] show ?thesis by blast
    qed (use j fl parse cid in auto)
  qed
  moreover have "pages_ok rd st'"
    unfolding pages_ok_def same
  proof (intro allI impI)
    fix a j assume al: "a mod es_cache_size st = 0"
      and j: "rd (es_files st') (get_filename_for_cache st a (a + es_cache_size st)) = Inr j"
    show "\<exists>ds. j = JList (map JObj ds) \<and> int (length ds) = es_cache_size st
        \<and> (\<forall>k<length ds. rd (es_files st') (get_filename_for_id st (a + int k)) = Inr (JObj (ds ! k)))"
    proof (cases "?full \<and> a = ?a")
      case True
      with j page(1) show ?thesis by (intro exI [of _ ?page]) (auto simp: pg)
    next
      case False
      with j have "rd (es_files st) (get_filename_for_cache st a (a + es_cache_size st)) = Inr j"
        by (auto simp: pg split: if_splits)
      from pages_okD [OF pok al this] obtain ds where ds: "j = JList (map JObj ds)" "int (length ds) = es_cache_size st"
        "\<And>k. k < length ds \<Longrightarrow> rd (es_files st) (get_filename_for_id st (a + int k)) = Inr (JObj (ds ! k))" by blast
      have "a + int k \<noteq> n" if "k < length ds" for k using ds(3) [OF that] free [of n] by auto
      with ds show ?thesis by (intro exI [of _ ds]) (simp add: fl)
    qed
  qed
  moreover have "write_page_ok rd (n + 1) st'"
  proof (cases ?full)
    case True
    then have "last (st_pages st') = []" "st_pages st' \<noteq> []" by (simp_all add: st'_def added_def Let_def)
    with size show ?thesis by (simp add: write_page_ok_def same)
  next
    case False
    then have l: "last (st_pages st') = ?page" "st_pages st' \<noteq> []" by (simp_all add: st'_def added_def Let_def)
    have "n + 1 - int (length ?page) + int k = ?a + int k" for k by simp
    moreover have "int (length ?page) < es_cache_size st" using False short by simp
    ultimately show ?thesis
      using page l(2) unfolding write_page_ok_def same l(1) Let_def by presburger
  qed
  moreover have nx': "next_id ls st' = Inr (n + 1)"
    by (simp add: next_id_def st'_def added_def Let_def)
  moreover have "rd (es_files st') (get_filename_for_id st i) = Inl FileNotFoundError" if "n + 1 \<le> i" for i
    using that free [of i] by (simp add: fl)
  ultimately show "stream_ok rd ls lit st'"
    unfolding stream_ok_def store_ok_def same using size n by auto
  show "next_id ls st' = Inr (n + 1)" by (rule nx')
  show "stored rd lit st' = (stored rd lit st)(n \<mapsto> copy)"
    by (rule ext) (simp add: stored_def get_event_def same fl parse as_dict_def)
qed

end

section \<open>Many events\<close>

text \<open>A sequence of calls from one thread, each with its time of day; it stops at the first exception.\<close>

fun add_events ::
  "(string \<Rightarrow> json \<Rightarrow> 's \<Rightarrow> 's) \<Rightarrow> ('s \<Rightarrow> string \<Rightarrow> string list res) \<Rightarrow> (string \<Rightarrow> dict option)
     \<Rightarrow> (string \<times> event \<times> event_source) list \<Rightarrow> ('s, 'k) event_stream \<Rightarrow> ('s, 'k) event_stream \<times> unit res" where
  "add_events wr ls lit [] st = (st, Inr ())"
| "add_events wr ls lit ((now, e, src) # es) st =
     (case add_event wr ls lit now e src st of
        (st, _, Inl err) \<Rightarrow> (st, Inl err)
      | (st, _, Inr _) \<Rightarrow> add_events wr ls lit es st)"

text \<open>The event that is read back for the call number \<open>k\<close>: stamped, given its id, serialised and deserialised.\<close>

definition stamped :: "int \<Rightarrow> string \<times> event \<times> event_source \<Rightarrow> event" where
  "stamped i x = (case x of (now, e, src) \<Rightarrow> delivered (e\<lparr>ev_timestamp := Some now, ev_source := Some src, ev_id := Some i\<rparr>))"

context event_files
begin

text \<open>Without secrets, adding a well-formed event succeeds, and what is stored is what is delivered.\<close>

lemma add_event_succeeds:
  assumes ok: "stream_ok rd ls lit st" and nx: "next_id ls st = Inr n"
    and e: "event_ok e" "event_id e = INVALID_ID" and sec: "st_secrets st = []"
  shows "\<exists>e' data. add_event wr ls lit now e src st = (added wr n data (stamped n (now, e, src)) st, e', Inr ())
    \<and> event_from_dict lit data = Inr (stamped n (now, e, src)) \<and> d_get data ''id'' = Some (JInt n)"
proof -
  let ?e = "e\<lparr>ev_timestamp := Some now, ev_source := Some src, ev_id := Some n\<rparr>"
  have "event_ok ?e" using e(1) by (simp add: event_ok_def)
  from event_roundtrip_lemma [OF this, of lit] obtain d where
    d: "event_to_dict ?e = Inr d" "event_from_dict lit d = Inr (delivered ?e)"
    by (auto simp: bind_res_Inr)
  have cid: "cur_id ls st = Inr (st\<lparr>es_cur_id := Some n\<rparr>, n)"
    using nx by (auto simp: cur_id_def next_id_def split: option.splits)
  have "\<exists>st1 r. add_reserve ls lit now e src st = (st1, ?e, Inr r)"
    using e(2) cid d sec by (simp add: add_reserve_def Let_def)
  then obtain st1 r where r: "add_reserve ls lit now e src st = (st1, ?e, Inr r)" by blast
  have add: "add_event wr ls lit now e src st = (added wr n (rs_data r) (rs_event r) st, ?e, Inr ())"
    using r reserve_persist(3) [OF ok nx r] by (simp add: add_event_def)
  from add_event_added [OF ok nx add] d sec add show ?thesis
    by (auto simp: stamped_def)
qed

lemma stamped_id: "0 \<le> n \<Longrightarrow> event_id (stamped n x) = n"
  by (cases x) (simp add: stamped_def, simp add: event_id_def)

lemma added_secrets [simp]: "st_secrets (added wr n data copy st) = st_secrets st"
  "st_queue (added wr n data copy st) = st_queue st @ [copy]"
  "st_subscribers (added wr n data copy st) = st_subscribers st"
  by (simp_all add: added_def Let_def)

lemma add_events_log:
  assumes "stream_ok rd ls lit st" and "next_id ls st = Inr n" and "st_secrets st = []"
    and "\<forall>(now, e, src) \<in> set es. event_ok e \<and> event_id e = INVALID_ID"
  shows "\<exists>st'. add_events wr ls lit es st = (st', Inr ()) \<and> stream_ok rd ls lit st'
    \<and> next_id ls st' = Inr (n + int (length es))
    \<and> (\<forall>i. stored rd lit st' i = (if n \<le> i \<and> i < n + int (length es) then Some (stamped i (es ! nat (i - n))) else stored rd lit st i))
    \<and> st_queue st' = st_queue st @ map (\<lambda>k. stamped (n + int k) (es ! k)) [0..<length es]"
  using assms
proof (induction es arbitrary: st n)
  case Nil
  then show ?case by auto
next
  case (Cons x es)
  obtain now e src where x: "x = (now, e, src)" by (cases x)
  from Cons.prems x have e: "event_ok e" "event_id e = INVALID_ID" by auto
  from add_event_succeeds [OF Cons.prems(1,2) e Cons.prems(3), of now src] obtain e' data where
    add: "add_event wr ls lit now e src st = (added wr n data (stamped n (now, e, src)) st, e', Inr ())"
    and parse: "event_from_dict lit data = Inr (stamped n (now, e, src))" "d_get data ''id'' = Some (JInt n)" by blast
  let ?st = "added wr n data (stamped n (now, e, src)) st"
  from Cons.prems(1,2) have n: "0 \<le> n" by (auto simp: stream_ok_def)
  note ok = added_ok [OF Cons.prems(1,2) parse(1) stamped_id [OF n] parse(2)]
  from Cons.IH [OF ok(1,2)] Cons.prems(3,4) obtain st' where
    st': "add_events wr ls lit es ?st = (st', Inr ())" "stream_ok rd ls lit st'"
      "next_id ls st' = Inr (n + 1 + int (length es))"
      "\<And>i. stored rd lit st' i = (if n + 1 \<le> i \<and> i < n + 1 + int (length es)
          then Some (stamped i (es ! nat (i - (n + 1)))) else stored rd lit ?st i)"
      "st_queue st' = st_queue ?st @ map (\<lambda>k. stamped (n + 1 + int k) (es ! k)) [0..<length es]"
    by auto
  have "stored rd lit st' i = (if n \<le> i \<and> i < n + int (length (x # es))
      then Some (stamped i ((x # es) ! nat (i - n))) else stored rd lit st i)" for i
  proof (cases "i = n")
    case False
    then have "n \<le> i \<Longrightarrow> nat (i - n) = Suc (nat (i - (n + 1)))" by linarith
    with False show ?thesis by (auto simp: st'(4) ok(3))
  qed (simp add: st'(4) ok(3) x)
  moreover have "[0..<length (x # es)] = 0 # map Suc [0..<length es]"
    by (simp add: upt_conv_Cons map_Suc_upt del: upt_Suc)
  then have "st_queue st' = st_queue st @ map (\<lambda>k. stamped (n + int k) ((x # es) ! k)) [0..<length (x # es)]"
    by (simp add: st'(5) x comp_def add.assoc del: upt_Suc)
  moreover have "n + 1 + int (length es) = n + int (length (x # es))" by simp
  ultimately show ?case using st'(1-3) add x by simp
qed

end

section \<open>Properties\<close>

lemma calculate_cur_id_empty: "calculate_cur_id mem_list (new_stream sid [] u) = Inr 0"
  by (simp add: calculate_cur_id_def new_stream_def mem_list_def)

lemma new_stream_ok: "stream_ok mem_read mem_list lit (new_stream sid [] u)"
proof -
  have "mem_read [] p = Inl FileNotFoundError" for p by (simp add: mem_read_def)
  moreover have "next_id mem_list (new_stream sid [] u) = Inr 0"
    using calculate_cur_id_empty by (simp add: next_id_def new_stream_def)
  ultimately show ?thesis
    by (auto simp: stream_ok_def store_ok_def files_ok_def pages_ok_def write_page_ok_def new_stream_def)
qed

text \<open>
  A call of \<open>add_event\<close> that returns keeps the invariant of the stream: the event gets the next free
  id and the given source, the log grows by exactly one event of that id, the copy that is stored is
  the copy that is queued, and the next id is one higher, whether or not the call completed a page of the cache.
\<close>

theorem add_event_extends_log:
  assumes "stream_ok mem_read mem_list lit st" and "next_id mem_list st = Inr n"
    and "add_event mem_write mem_list lit now e source st = (st', e', Inr ())"
  shows "stream_ok mem_read mem_list lit st' \<and> next_id mem_list st' = Inr (n + 1)
    \<and> event_id e' = n \<and> ev_source e' = Some source
    \<and> (\<exists>copy. event_id copy = n \<and> stored mem_read lit st' = (stored mem_read lit st)(n \<mapsto> copy)
         \<and> st_queue st' = st_queue st @ [copy])"
proof -
  from mem_events.add_event_added [OF assms] obtain d copy where
    d: "event_to_dict e' = Inr d"
      "event_from_dict lit (replace_secrets (map snd (st_secrets st)) d) = Inr copy" "event_id copy = n"
      "d_get (replace_secrets (map snd (st_secrets st)) d) ''id'' = Some (JInt n)"
    and st': "st' = added mem_write n (replace_secrets (map snd (st_secrets st)) d) copy st" by blast
  note ok = mem_events.added_ok [OF assms(1,2) d(2-4)]
  from assms(3) obtain st1 r where "add_reserve mem_list lit now e source st = (st1, e', Inr r)"
    by (auto simp: add_event_def split: prod.splits sum.splits)
  from add_reserve_ok(2) [OF this assms(2)] have "event_id e' = n" "ev_source e' = Some source"
    by (simp_all add: event_id_def)
  with ok d(3) show ?thesis unfolding st' by (auto simp: added_def Let_def)
qed

definition null_event :: event where "null_event = new_action NullAction"

definition add_in_memory :: "event \<Rightarrow> (json mem_store, 'k) event_stream \<Rightarrow> (json mem_store, 'k) event_stream" where
  "add_in_memory e st = fst (add_event mem_write mem_list (\<lambda>_. None) ''t'' e USER st)"

theorem add_event_extends_log_witness:
  "\<exists>e'. let st = (new_stream ''s'' [] None :: (json mem_store, unit) event_stream); st' = add_in_memory null_event st in
     add_event mem_write mem_list (\<lambda>_. None) ''t'' null_event USER st = (st', e', Inr ())
     \<and> stream_ok mem_read mem_list (\<lambda>_. None) st' \<and> event_id e' = 0"
proof -
  let ?st = "new_stream ''s'' [] None :: (json mem_store, unit) event_stream"
  let ?r = "add_event mem_write mem_list (\<lambda>_. None) ''t'' null_event USER ?st"
  have nx: "next_id mem_list ?st = Inr 0"
    using calculate_cur_id_empty by (simp add: next_id_def new_stream_def)
  have "snd (snd ?r) = Inr ()" by code_simp
  then have r: "?r = (add_in_memory null_event ?st, fst (snd ?r), Inr ())"
    by (simp add: add_in_memory_def prod_eq_iff)
  from add_event_extends_log [OF new_stream_ok nx r] r show ?thesis by (auto simp: Let_def)
qed

text \<open>
  C1. From a new stream without secrets, any sequence of well-formed events is stored under the ids
  \<open>0, 1, 2, \<dots>\<close>; a search returns exactly these events in order, read through the cache pages or
  not, and the queue holds the same events in the same order for the subscribers.
\<close>

theorem stored_is_delivered:
  assumes "\<forall>(now, e, src) \<in> set es. event_ok e \<and> event_id e = INVALID_ID" and "\<And>i. cont i"
  shows "\<exists>st' log. add_events mem_write mem_list lit es (new_stream sid [] u) = (st', Inr ())
    \<and> log = map (\<lambda>k. stamped (int k) (es ! k)) [0..<length es]
    \<and> st_queue st' = log
    \<and> snd (search_events mem_read mem_list lit cont 0 None False None None st') = (log, None)"
proof -
  let ?st = "new_stream sid [] u :: (json mem_store, 'a) event_stream"
  have nx: "next_id mem_list ?st = Inr 0"
    using calculate_cur_id_empty by (simp add: next_id_def new_stream_def)
  have fresh: "st_secrets ?st = []" "st_queue ?st = []" by (simp_all add: new_stream_def)
  from mem_events.add_events_log [OF new_stream_ok nx fresh(1) assms(1), of lit] obtain st' where
    raw: "add_events mem_write mem_list lit es ?st = (st', Inr ()) \<and> stream_ok mem_read mem_list lit st'
      \<and> next_id mem_list st' = Inr (0 + int (length es))
      \<and> (\<forall>i. stored mem_read lit st' i = (if 0 \<le> i \<and> i < 0 + int (length es)
           then Some (stamped i (es ! nat (i - 0))) else stored mem_read lit ?st i))
      \<and> st_queue st' = st_queue ?st @ map (\<lambda>k. stamped (0 + int k) (es ! k)) [0..<length es]"
    by blast
  from raw have st': "add_events mem_write mem_list lit es ?st = (st', Inr ())" "stream_ok mem_read mem_list lit st'"
      "next_id mem_list st' = Inr (int (length es))"
      "\<And>i. stored mem_read lit st' i = (if 0 \<le> i \<and> i < int (length es) then Some (stamped i (es ! nat i))
         else stored mem_read lit ?st i)"
      "st_queue st' = map (\<lambda>k. stamped (int k) (es ! k)) [0..<length es]"
    using fresh(2) by simp_all
  let ?log = "map (\<lambda>k. stamped (int k) (es ! k)) [0..<length es]"
  have cid: "\<exists>st2. cur_id mem_list st' = Inr (st2, int (length es))"
    using st'(3) by (auto simp: cur_id_def next_id_def split: option.splits)
  then obtain st2 where cid: "cur_id mem_list st' = Inr (st2, int (length es))" by blast
  have range: "[0..int n - 1] = map int [0..<n]" for n
  proof (induction n)
    case (Suc n)
    have "[0..int (Suc n) - 1] = [0..int n - 1] @ [int n]" using upto_rec2 [of 0 "int n"] by simp
    with Suc show ?case by simp
  qed simp
  have "List.map_filter (stored mem_read lit st') [0..int (length es) - 1] = ?log"
    by (auto simp: range map_filter_def comp_def st'(4))
  moreover have "store_ok mem_read lit st'" using st'(2) by (auto simp: stream_ok_def)
  ultimately have "snd (search_events mem_read mem_list lit cont 0 None False None None st')
      = select_events None None 0 ?log"
    using mem_events.search_events_select [OF _ assms(2) cid, where end_id = None and b = "int (length es) - 1"] by simp
  also have "\<dots> = (?log, None)" by (subst select_all [where p = "\<lambda>_. True"]) (simp_all add: filter_truth_def)
  finally show ?thesis using st' by blast
qed

theorem stored_is_delivered_witness:
  "\<exists>st' log. add_events mem_write mem_list (\<lambda>_. None) [(''t0'', null_event, USER), (''t1'', sample_cmd\<lparr>ev_id := None\<rparr>, AGENT)]
      (new_stream ''s'' [] None :: (json mem_store, unit) event_stream) = (st', Inr ())
    \<and> length log = 2 \<and> st_queue st' = log
    \<and> snd (search_events mem_read mem_list (\<lambda>_. None) (\<lambda>_. True) 0 None False None None st') = (log, None)"
proof -
  let ?es = "[(''t0'', null_event, USER), (''t1'', sample_cmd\<lparr>ev_id := None\<rparr>, AGENT)]"
  have "\<forall>(now, e, src) \<in> set ?es. event_ok e \<and> event_id e = INVALID_ID"
    by (simp add: null_event_def sample_cmd_def event_ok_def new_action_def fresh_def conf_ok_def
        confirmation_of_def confirmation_value_def event_id_def)
  from stored_is_delivered [OF this, of "\<lambda>_. True" "\<lambda>_. None" "''s''" None, where ?'a = unit] show ?thesis
    by (fastforce simp: upt_conv_Cons)
qed

text \<open>
  C16. Masking of strings that are values: once \<open>add_event\<close> has returned, no such string of the stored document outside its protected
  top-level fields and outside lists contains any of the stream's secrets, what contains none is stored as it was, and so are the ids,
  sources, causes and class names. This holds for secrets that cannot be confused with the placeholder: not empty, without an angle
  bracket, and no piece of the words in it. The keys of dictionaries are never masked, and strings in lists are not (see below).
\<close>

theorem stored_document_masked:
  assumes "stream_ok mem_read mem_list lit st" and "next_id mem_list st = Inr n"
    and "add_event mem_write mem_list lit now e source st = (st', e', Inr ())"
    and "\<forall>x \<in> set (map snd (st_secrets st)). secret_ok x"
  shows "\<exists>d data. event_to_dict e' = Inr d \<and> mem_read (es_files st') (get_filename_for_id st' n) = Inr (JObj data)
    \<and> d_keys data = d_keys d
    \<and> (\<forall>k \<in> set TOP_LEVEL_PROTECTED_FIELDS. d_get data k = d_get d k)
    \<and> (\<forall>(k, v) \<in> set data. k \<notin> set TOP_LEVEL_PROTECTED_FIELDS \<longrightarrow> (\<forall>x \<in> set (map snd (st_secrets st)). free_of x v))
    \<and> (\<forall>k v. d_get d k = Some v \<and> (\<forall>x \<in> set (map snd (st_secrets st)). free_of x v) \<longrightarrow> d_get data k = Some v)"
proof -
  let ?s = "map snd (st_secrets st)"
  from mem_events.add_event_added [OF assms(1-3)] obtain d copy where
    d: "event_to_dict e' = Inr d" and st': "st' = added mem_write n (replace_secrets ?s d) copy st" by blast
  have "mem_read (es_files st') (get_filename_for_id st' n) = Inr (JObj (replace_secrets ?s d))"
    unfolding st' by (simp add: added_def Let_def mem_read_write get_filename_for_id_def get_filename_for_cache_def)
  moreover have "\<forall>(k, v) \<in> set (replace_secrets ?s d). k \<notin> set TOP_LEVEL_PROTECTED_FIELDS \<longrightarrow> (\<forall>x \<in> set ?s. free_of x v)"
  proof (intro ballI, clarify)
    fix k v x assume kv: "(k, v) \<in> set (replace_secrets ?s d)" "k \<notin> set TOP_LEVEL_PROTECTED_FIELDS" "x \<in> set ?s"
    then obtain v' where "v = mask_value ?s v'" by (auto simp: replace_secrets_def split: if_splits)
    with free_of_mask [OF assms(4) kv(3)] show "free_of x v" by simp
  qed
  moreover have "d_get (replace_secrets ?s d) k = Some v" if "d_get d k = Some v" "\<forall>x \<in> set ?s. free_of x v" for k v
    using that assms(4) mask_free [of ?s v] by (simp add: d_get_replace_secrets)
  ultimately show ?thesis
    using d d_keys_replace_secrets [of ?s d] d_get_replace_secrets [of ?s d] by auto
qed

definition secret_stream :: "(json mem_store, unit) event_stream" where
  "secret_stream = set_secrets [(''TOKEN'', ''k3y'')] (new_stream ''s'' [] None)"

definition secret_message :: event where
  "secret_message = new_action (MessageAction \<lparr>ma_content = ''use k3y'', ma_file_urls = Some [''http://k3y''],
     ma_image_urls = None, ma_wait_for_response = False, ma_security_risk = None\<rparr>)"

lemma stream_ok_set_secrets: "stream_ok rd ls lit (set_secrets x st) = stream_ok rd ls lit st"
proof -
  have nm: "get_filename_for_id (set_secrets x st) = get_filename_for_id st"
    "get_filename_for_cache (set_secrets x st) = get_filename_for_cache st"
    by (simp_all add: fun_eq_iff set_secrets_def get_filename_for_id_def get_filename_for_cache_def)
  have "next_id ls (set_secrets x st) = next_id ls st"
    by (simp add: next_id_def calculate_cur_id_def set_secrets_def split: option.split)
  moreover have "write_page_ok rd n (set_secrets x st) = write_page_ok rd n st" for n
    unfolding write_page_ok_def nm by (simp add: set_secrets_def)
  moreover have "store_ok rd lit (set_secrets x st) = store_ok rd lit st"
    unfolding store_ok_def files_ok_def pages_ok_def nm by (simp add: set_secrets_def)
  moreover have "es_files (set_secrets x st) = es_files st" by (simp add: set_secrets_def)
  ultimately show ?thesis by (simp add: stream_ok_def nm)
qed

lemma secret_stream_ok: "stream_ok mem_read mem_list lit secret_stream"
  by (simp add: secret_stream_def stream_ok_set_secrets new_stream_ok)

theorem stored_document_masked_witness:
  "\<exists>d data. mem_read (es_files (add_in_memory secret_message secret_stream)) ''sessions/s/events/0.json'' = Inr (JObj data)
    \<and> (\<forall>(k, v) \<in> set data. k \<notin> set TOP_LEVEL_PROTECTED_FIELDS \<longrightarrow> free_of ''k3y'' v)"
proof -
  let ?r = "add_event mem_write mem_list (\<lambda>_. None) ''t'' secret_message USER secret_stream"
  have nx: "next_id mem_list secret_stream = Inr 0" by code_simp
  have "snd (snd ?r) = Inr ()" by code_simp
  then have r: "?r = (add_in_memory secret_message secret_stream, fst (snd ?r), Inr ())"
    by (simp add: add_in_memory_def prod_eq_iff)
  have sec: "map snd (st_secrets secret_stream) = [''k3y'']" by (simp add: secret_stream_def set_secrets_def)
  have "secret_ok ''k3y''" by code_simp
  then have ok: "\<forall>x \<in> set (map snd (st_secrets secret_stream)). secret_ok x" by (simp add: sec)
  have nm: "get_filename_for_id (add_in_memory secret_message secret_stream) 0 = ''sessions/s/events/0.json''"
    by code_simp
  from stored_document_masked [OF secret_stream_ok nx r ok] nm sec show ?thesis by fastforce
qed

text \<open>
  Masking is not complete: the protected top-level \<open>message\<close> of a message action repeats its content with
  the secret in it, and strings inside lists are stored as they are, so the stored file shows the secret twice.
\<close>

theorem secret_in_message_and_lists:
  "\<exists>data args. mem_read (es_files (add_in_memory secret_message secret_stream)) ''sessions/s/events/0.json'' = Inr (JObj data)
    \<and> d_get data ''message'' = Some (JStr ''use k3y'')
    \<and> d_get data ''args'' = Some (JObj args)
    \<and> d_get args ''content'' = Some (JStr ''use <secret_hidden>'')
    \<and> d_get args ''file_urls'' = Some (JList [JStr ''http://k3y''])"
proof -
  let ?f = "mem_read (es_files (add_in_memory secret_message secret_stream)) ''sessions/s/events/0.json''"
  let ?data = "case ?f of Inr (JObj d) \<Rightarrow> d | _ \<Rightarrow> []"
  let ?args = "case d_get ?data ''args'' of Some (JObj d) \<Rightarrow> d | _ \<Rightarrow> []"
  have "?f = Inr (JObj ?data)" by code_simp
  moreover have "d_get ?data ''message'' = Some (JStr ''use k3y'')" by code_simp
  moreover have "d_get ?data ''args'' = Some (JObj ?args)" by code_simp
  moreover have "d_get ?args ''content'' = Some (JStr ''use <secret_hidden>'')" by code_simp
  moreover have "d_get ?args ''file_urls'' = Some (JList [JStr ''http://k3y''])" by code_simp
  ultimately show ?thesis by blast
qed

text \<open>
  A key is stored as it is, with the secret in it, also where a string would be masked.
\<close>

definition secret_key :: event where
  "secret_key = new_action (AgentDelegateAction ''B'' [(''k3y'', JStr ''k3y'')] [])"

lemma secret_as_a_key_is_stored:
  "\<exists>data args. mem_read (es_files (add_in_memory secret_key secret_stream)) ''sessions/s/events/0.json'' = Inr (JObj data)
    \<and> d_get data ''args'' = Some (JObj args) \<and> d_get args ''inputs'' = Some (JObj [(''k3y'', JStr ''<secret_hidden>'')])"
proof -
  let ?f = "mem_read (es_files (add_in_memory secret_key secret_stream)) ''sessions/s/events/0.json''"
  let ?data = "case ?f of Inr (JObj d) \<Rightarrow> d | _ \<Rightarrow> []"
  let ?args = "case d_get ?data ''args'' of Some (JObj d) \<Rightarrow> d | _ \<Rightarrow> []"
  have "?f = Inr (JObj ?data)" by code_simp
  moreover have "d_get ?data ''args'' = Some (JObj ?args)" by code_simp
  moreover have "d_get ?args ''inputs'' = Some (JObj [(''k3y'', JStr ''<secret_hidden>'')])" by code_simp
  ultimately show ?thesis by blast
qed

definition reject_event :: event where
  "reject_event = new_action (AgentRejectAction [(''reason'', JInt 5)] [])"

definition gap_stream :: "(json mem_store, unit) event_stream" where
  "gap_stream = add_in_memory null_event (add_in_memory reject_event (add_in_memory null_event
     ((new_stream ''s'' [] None)\<lparr>es_cache_size := 2\<rparr>)))"

text \<open>
  A call that raises after the id was taken (here the message of a rejection whose reason is not a
  string) leaves a gap, and the write page that is completed later is stored under consecutive indices that its
  events do not have: with pages of two events, the search then returns the event of id 2 twice, although
  the files hold it once.
\<close>

theorem failed_add_shifts_cache_page:
  "map event_id (fst (snd (search_events mem_read mem_list (\<lambda>_. None) (\<lambda>_. True) 0 None False None None gap_stream))) = [0, 2, 2]
    \<and> get_event mem_read (\<lambda>_. None) gap_stream 1 = Inl FileNotFoundError
    \<and> \<not> stream_ok mem_read mem_list (\<lambda>_. None) gap_stream"
proof -
  have s: "map event_id (fst (snd (search_events mem_read mem_list (\<lambda>_. None) (\<lambda>_. True) 0 None False None None gap_stream))) = [0, 2, 2]"
    by code_simp
  have missing: "get_event mem_read (\<lambda>_. None) gap_stream 1 = Inl FileNotFoundError" by code_simp
  have "\<not> pages_ok mem_read gap_stream"
  proof
    assume pok: "pages_ok mem_read gap_stream"
    have size: "es_cache_size gap_stream = 2" by code_simp
    have page: "\<exists>j. mem_read (es_files gap_stream) (get_filename_for_cache gap_stream 0 (0 + 2)) = Inr j"
    proof -
      have "is_ok (mem_read (es_files gap_stream) (get_filename_for_cache gap_stream 0 (0 + 2)))" by code_simp
      then show ?thesis by (auto simp: is_ok_def split: sum.splits)
    qed
    then obtain j where j: "mem_read (es_files gap_stream) (get_filename_for_cache gap_stream 0 (0 + 2)) = Inr j" by blast
    from pages_okD [OF pok, of 0 j] j size obtain ds where "int (length ds) = 2"
      "\<And>k. k < length ds \<Longrightarrow> mem_read (es_files gap_stream) (get_filename_for_id gap_stream (0 + int k)) = Inr (JObj (ds ! k))"
      by auto
    from this(2) [of 1] this(1) have "is_ok (mem_read (es_files gap_stream) (get_filename_for_id gap_stream 1))" by simp
    moreover have "\<not> is_ok (mem_read (es_files gap_stream) (get_filename_for_id gap_stream 1))" by code_simp
    ultimately show False by simp
  qed
  then have "\<not> stream_ok mem_read mem_list (\<lambda>_. None) gap_stream" by (simp add: stream_ok_def store_ok_def)
  with s missing show ?thesis by blast
qed

section \<open>Witnesses of the store's properties\<close>

lemma new_stream_size_ok:
  assumes "0 < k"
  shows "stream_ok mem_read mem_list lit ((new_stream sid [] u)\<lparr>es_cache_size := k\<rparr>)"
proof -
  have "mem_read [] p = Inl FileNotFoundError" for p by (simp add: mem_read_def)
  moreover have "next_id mem_list ((new_stream sid [] u)\<lparr>es_cache_size := k\<rparr>) = Inr 0"
    by (simp add: next_id_def new_stream_def calculate_cur_id_def mem_list_def)
  ultimately show ?thesis using assms
    by (auto simp: stream_ok_def store_ok_def files_ok_def pages_ok_def write_page_ok_def new_stream_def)
qed

lemma add_in_memory_ok:
  assumes ok: "stream_ok mem_read mem_list (\<lambda>_. None) st" and nx: "next_id mem_list st = Inr n"
    and sec: "st_secrets st = []"
  shows "stream_ok mem_read mem_list (\<lambda>_. None) (add_in_memory null_event st)"
    and "next_id mem_list (add_in_memory null_event st) = Inr (n + 1)"
    and "st_secrets (add_in_memory null_event st) = []"
proof -
  have e: "event_ok null_event" "event_id null_event = INVALID_ID"
    by (simp_all add: null_event_def event_ok_def new_action_def INVALID_ID_def fresh_def event_id_def)
  from mem_events.add_event_succeeds [OF ok nx e sec, of "''t''" USER] obtain e' data where
    add: "add_event mem_write mem_list (\<lambda>_. None) ''t'' null_event USER st
      = (added mem_write n data (stamped n (''t'', null_event, USER)) st, e', Inr ())"
    and parse: "event_from_dict (\<lambda>_. None) data = Inr (stamped n (''t'', null_event, USER))" "d_get data ''id'' = Some (JInt n)"
    by blast
  from ok nx have n: "0 \<le> n" by (auto simp: stream_ok_def)
  have st: "add_in_memory null_event st = added mem_write n data (stamped n (''t'', null_event, USER)) st"
    by (simp add: add_in_memory_def add)
  note ok' = mem_events.added_ok [OF ok nx parse(1) mem_events.stamped_id [OF n] parse(2)]
  show "stream_ok mem_read mem_list (\<lambda>_. None) (add_in_memory null_event st)"
    "next_id mem_list (add_in_memory null_event st) = Inr (n + 1)"
    "st_secrets (add_in_memory null_event st) = []"
    unfolding st using ok' sec by simp_all
qed

text \<open>A stream with pages of two events that holds three: one page file and three event files.\<close>

definition paged_stream :: "(json mem_store, unit) event_stream" where
  "paged_stream = add_in_memory null_event (add_in_memory null_event (add_in_memory null_event
     ((new_stream ''s'' [] None)\<lparr>es_cache_size := 2\<rparr>)))"

lemma paged_stream_ok: "stream_ok mem_read mem_list (\<lambda>_. None) paged_stream" "next_id mem_list paged_stream = Inr 3"
proof -
  let ?st = "(new_stream ''s'' [] None :: (json mem_store, unit) event_stream)\<lparr>es_cache_size := 2\<rparr>"
  have 0: "stream_ok mem_read mem_list (\<lambda>_. None) ?st" by (rule new_stream_size_ok) simp
  have n: "next_id mem_list ?st = Inr 0" by code_simp
  have s: "st_secrets ?st = []" by (simp add: new_stream_def)
  note 1 = add_in_memory_ok [OF 0 n s]
  note 2 = add_in_memory_ok [OF 1]
  note 3 = add_in_memory_ok [OF 2]
  from 3(1,2) show "stream_ok mem_read mem_list (\<lambda>_. None) paged_stream" "next_id mem_list paged_stream = Inr 3"
    by (simp_all add: paged_stream_def)
qed

theorem search_events_exact_witness:
  "snd (search_events mem_read mem_list (\<lambda>_. None) (\<lambda>_. True) 0 None True None (Some 2) paged_stream)
    = (take 2 (List.map_filter (stored mem_read (\<lambda>_. None) paged_stream) [2, 1, 0]), None)
   \<and> is_ok (mem_read (es_files paged_stream) ''sessions/s/event_cache/0-2.json'')"
proof -
  have store: "store_ok mem_read (\<lambda>_. None) paged_stream" using paged_stream_ok(1) by (simp add: stream_ok_def)
  obtain st' where cid: "cur_id mem_list paged_stream = Inr (st', 3)"
    using paged_stream_ok(2) by (auto simp: cur_id_def next_id_def split: option.splits)
  have "[0..2::int] = [0, 1, 2]" by (simp add: upto_rec1)
  with search_events_exact [OF store _ cid, where cont = "\<lambda>_. True" and p = "\<lambda>_. True" and end_id = None
      and b = 2 and filt = None and limit = "Some 2" and reverse = True and a = 0]
  have "snd (search_events mem_read mem_list (\<lambda>_. None) (\<lambda>_. True) 0 None True None (Some 2) paged_stream)
    = (take 2 (List.map_filter (stored mem_read (\<lambda>_. None) paged_stream) [2, 1, 0]), None)"
    by (simp add: filter_truth_def)
  moreover have "is_ok (mem_read (es_files paged_stream) ''sessions/s/event_cache/0-2.json'')" by code_simp
  ultimately show ?thesis by blast
qed

theorem cur_id_is_next_witness:
  "\<exists>n. cur_id mem_list \<lparr>es_sid = ''s'', es_user_id = None, es_cache_size = 25, es_cur_id = None,
        es_files = [(''sessions/s/events/7.json'', JObj [])]\<rparr>
      = Inr (\<lparr>es_sid = ''s'', es_user_id = None, es_cache_size = 25, es_cur_id = Some n,
        es_files = [(''sessions/s/events/7.json'', JObj [])]\<rparr>, n) \<and> n \<noteq> 0"
proof -
  let ?st = "\<lparr>es_sid = ''s'', es_user_id = None, es_cache_size = 25, es_cur_id = None,
        es_files = [(''sessions/s/events/7.json'', JObj [])]\<rparr>"
  have nm: "get_filename_for_id ?st 7 = ''sessions/s/events/7.json''" by code_simp
  have "dir_ok mem_read ?st"
    unfolding dir_ok_def
  proof (intro allI impI)
    fix f c assume "mem_read (es_files ?st) (get_conversation_events_dir (es_sid ?st) (es_user_id ?st) @ f) = Inr c"
    then have "get_conversation_events_dir (es_sid ?st) (es_user_id ?st) @ f = get_filename_for_id ?st 7"
      unfolding nm by (simp add: mem_read_def split: if_splits)
    then show "\<exists>i \<ge> 0. get_conversation_events_dir (es_sid ?st) (es_user_id ?st) @ f = get_filename_for_id ?st i"
      by (intro exI [of _ 7]) simp
  qed
  from cur_id_is_next [OF this, of "\<lambda>_. None"] obtain n where
    n: "cur_id mem_list ?st = Inr (?st\<lparr>es_cur_id := Some n\<rparr>, n)"
      "\<forall>i \<ge> n. get_event mem_read (\<lambda>_. None) ?st i = Inl FileNotFoundError" by auto
  have "is_ok (mem_read (es_files ?st) (get_filename_for_id ?st 7))" by code_simp
  moreover have "get_event mem_read (\<lambda>_. None) ?st 7 \<noteq> Inl FileNotFoundError" by code_simp
  ultimately have "n \<noteq> 0" using n(2) by auto
  with n(1) show ?thesis by auto
qed

section \<open>Subscription laws\<close>

lemma callbacks_subscribe:
  assumes "subscribe sub cb cid st = (st', Inr ())"
  shows "callbacks_of sub' st' = (if sub' = sub then d_set cid cb (callbacks_of sub st) else callbacks_of sub' st)"
    and "\<not> d_has (callbacks_of sub st) cid"
proof -
  have old: "callbacks_of sub (st\<lparr>st_subscribers := st_subscribers st @ [(sub, [])]\<rparr>) = callbacks_of sub st"
    if "\<not> d_has (st_subscribers st) sub"
    using that by (simp add: callbacks_of_def d_has_def map_add_def)
  show "callbacks_of sub' st' = (if sub' = sub then d_set cid cb (callbacks_of sub st) else callbacks_of sub' st)"
    using assms old
    by (auto simp: subscribe_def Let_def callbacks_of_def d_has_def map_add_def split: if_splits option.splits)
  show "\<not> d_has (callbacks_of sub st) cid"
    using assms old by (auto simp: subscribe_def Let_def split: if_splits)
qed

lemma callbacks_clean_up:
  "callbacks_of sub' (clean_up_subscriber sub cid st) =
     (if sub' = sub then d_del cid (callbacks_of sub st) else callbacks_of sub' st)"
  by (auto simp: clean_up_subscriber_def callbacks_of_def d_del_notin d_has_def split: option.splits)

end
