(* ===== verification/StateTracker.thy ===== *)
theory StateTracker
  imports State EventStream "HOL-Library.Product_Lexorder"
begin

text \<open>
  The state tracker (\<open>openhands/controller/state/state_tracker.py\<close>): it creates or adopts the state of a controller,
  loads its history from the event stream, and runs the control flags.

  The operations on a state are functions of the state, its shared part and the stream; the tracker's
  own fields are the session id, the user and whether there is a file store.
\<close>

section \<open>The initial state\<close>

definition agent_history_filter :: event_filter where
  "agent_history_filter = no_filter\<lparr>ef_exclude_hidden := True,
     ef_exclude_types := Some [is_null_action, is_null_obs, is_change_state, is_state_changed]\<rparr>"

definition set_initial_state ::
  "string \<Rightarrow> string option \<Rightarrow> (state \<times> shared) option \<Rightarrow> conversation_stats \<Rightarrow> int \<Rightarrow> rat option \<Rightarrow> bool \<Rightarrow> state \<times> shared" where
  "set_initial_state cid user_id initial stats max_iterations max_budget confirmation_mode =
     (case initial of
        None \<Rightarrow>
          ((new_state (py_removesuffix cid ''-delegate'') user_id)\<lparr>s_confirmation_mode := confirmation_mode, s_start_id := 0\<rparr>,
           \<lparr>sh_iteration_flag = new_flag max_iterations 0 max_iterations,
            sh_budget_flag = (case max_budget of None \<Rightarrow> None
               | Some b \<Rightarrow> if b = 0 then None else Some (new_flag b 0 b)),
            sh_conversation_stats = Some stats, sh_metrics = new_metrics ''default''\<rparr>)
      | Some (s, sh) \<Rightarrow>
          (if s_start_id s \<le> -1 then s\<lparr>s_start_id := 0\<rparr> else s, sh\<lparr>sh_conversation_stats := Some stats\<rparr>))"

section \<open>History\<close>

text \<open>The pairs of a delegate action's id and the id of its observation; the stack holds unmatched actions.\<close>

fun delegate_ranges :: "event list \<Rightarrow> int list \<Rightarrow> (int \<times> int) list" where
  "delegate_ranges [] stack = []"
| "delegate_ranges (e # es) stack =
     (if is_delegate_action (ev_body e) then delegate_ranges es (event_id e # stack)
      else if is_delegate_obs (ev_body e) then
        (case stack of
           [] \<Rightarrow> delegate_ranges es []
         | a # stack \<Rightarrow> (a, event_id e) # delegate_ranges es stack)
      else delegate_ranges es stack)"

text \<open>One turn of the loop over the sorted ranges, on the filtered events and \<open>current_idx\<close>.\<close>

definition range_turn :: "event list \<Rightarrow> event list \<times> nat \<Rightarrow> int \<times> int \<Rightarrow> event list \<times> nat" where
  "range_turn events acc r =
     (case acc of (filtered, current_idx) \<Rightarrow> case r of (start_id, end_id) \<Rightarrow>
        (filtered @ filter (\<lambda>e. event_id e < start_id) (drop current_idx events)
                  @ filter (\<lambda>e. event_id e = start_id \<or> event_id e = end_id) events,
         case find_index (\<lambda>e. end_id < event_id e) events of None \<Rightarrow> length events | Some i \<Rightarrow> i))"

definition collapse :: "(int \<times> int) list \<Rightarrow> event list \<Rightarrow> event list" where
  "collapse ranges events =
     (case foldl (range_turn events) ([], 0) ranges of (filtered, current_idx) \<Rightarrow> filtered @ drop current_idx events)"

definition history_range ::
  "('s \<Rightarrow> string \<Rightarrow> string list res) \<Rightarrow> ('s, 'k) event_stream \<Rightarrow> state \<Rightarrow> (('s, 'k) event_stream \<times> int \<times> int) res" where
  "history_range ls stream s =
     (let start_id = (if 0 \<le> s_start_id s then s_start_id s else 0) in
      if 0 \<le> s_end_id s then Inr (stream, start_id, s_end_id s)
      else bind_res (get_latest_event_id ls stream) (\<lambda>(stream, i). Inr (stream, start_id, i)))"

definition search_history ::
  "('s \<Rightarrow> string \<Rightarrow> json res) \<Rightarrow> ('s \<Rightarrow> string \<Rightarrow> string list res) \<Rightarrow> (string \<Rightarrow> dict option) \<Rightarrow> (int \<Rightarrow> bool)
     \<Rightarrow> int \<Rightarrow> int \<Rightarrow> ('s, 'k) event_stream \<Rightarrow> ('s, 'k) event_stream \<times> event list res" where
  "search_history rd ls lit cont start_id end_id stream =
     (case search_events rd ls lit cont start_id (Some end_id) False (Some agent_history_filter) None stream of
        (stream, es, None) \<Rightarrow> (stream, Inr es)
      | (stream, es, Some err) \<Rightarrow> (stream, Inl err))"

text \<open>
  \<open>_init_history\<close>. The loop over the ranges assigns the local variables \<open>start_id\<close> and \<open>end_id\<close>, so the
  last line stores the start of the last range, where there is one.
\<close>

definition init_history ::
  "('s \<Rightarrow> string \<Rightarrow> json res) \<Rightarrow> ('s \<Rightarrow> string \<Rightarrow> string list res) \<Rightarrow> (string \<Rightarrow> dict option) \<Rightarrow> (int \<Rightarrow> bool)
     \<Rightarrow> ('s, 'k) event_stream \<Rightarrow> state \<Rightarrow> ('s, 'k) event_stream \<times> state res" where
  "init_history rd ls lit cont stream s =
     (case history_range ls stream s of
        Inl err \<Rightarrow> (stream, Inl err)
      | Inr (stream, start_id, end_id) \<Rightarrow>
          if end_id + 1 < start_id then (stream, Inr (s\<lparr>s_history := []\<rparr>))
          else (case search_history rd ls lit cont start_id end_id stream of
                  (stream, Inl err) \<Rightarrow> (stream, Inl err)
                | (stream, Inr events) \<Rightarrow>
                    let ranges = sort (delegate_ranges events []) in
                    (stream, Inr (s\<lparr>s_history := collapse ranges events,
                       s_start_id := if ranges = [] then start_id else fst (last ranges)\<rparr>))))"

definition close_tracker ::
  "('s \<Rightarrow> string \<Rightarrow> json res) \<Rightarrow> ('s \<Rightarrow> string \<Rightarrow> string list res) \<Rightarrow> (string \<Rightarrow> dict option) \<Rightarrow> (int \<Rightarrow> bool)
     \<Rightarrow> ('s, 'k) event_stream \<Rightarrow> state \<Rightarrow> ('s, 'k) event_stream \<times> state res" where
  "close_tracker rd ls lit cont stream s =
     (case history_range ls stream s of
        Inl err \<Rightarrow> (stream, Inl err)
      | Inr (stream, start_id, end_id) \<Rightarrow>
          (case search_history rd ls lit cont start_id end_id stream of
             (stream, r) \<Rightarrow> (stream, bind_res r (\<lambda>events. Inr (s\<lparr>s_history := events\<rparr>)))))"

definition add_history :: "event \<Rightarrow> state \<Rightarrow> state" where
  "add_history e s =
     (case filter_include agent_history_filter e of
        Inr True \<Rightarrow> s\<lparr>s_history := s_history s @ [e]\<rparr>
      | _ \<Rightarrow> s)"

section \<open>Flags\<close>

definition maybe_increase_control_flags_limits :: "bool \<Rightarrow> shared \<Rightarrow> shared" where
  "maybe_increase_control_flags_limits headless_mode sh =
     sh\<lparr>sh_iteration_flag := iter_increase_limit headless_mode (sh_iteration_flag sh),
        sh_budget_flag := map_option (budget_increase_limit headless_mode) (sh_budget_flag sh)\<rparr>"

definition run_control_flags :: "shared \<Rightarrow> shared \<times> unit res" where
  "run_control_flags sh =
     (case iter_step (sh_iteration_flag sh) of
        (f, Inl err) \<Rightarrow> (sh\<lparr>sh_iteration_flag := f\<rparr>, Inl err)
      | (f, Inr _) \<Rightarrow>
          let sh = sh\<lparr>sh_iteration_flag := f\<rparr> in
          (case sh_budget_flag sh of
             None \<Rightarrow> (sh, Inr ())
           | Some b \<Rightarrow> (case budget_step b of (b, r) \<Rightarrow> (sh\<lparr>sh_budget_flag := Some b\<rparr>, r))))"

definition sync_budget_flag_with_metrics :: "shared \<Rightarrow> shared" where
  "sync_budget_flag_with_metrics sh =
     (case (sh_budget_flag sh, sh_conversation_stats sh) of
        (Some b, Some stats) \<Rightarrow>
          sh\<lparr>sh_budget_flag := Some (b\<lparr>current_value := accumulated_cost (get_combined_metrics stats)\<rparr>)\<rparr>
      | _ \<Rightarrow> sh)"

definition get_metrics_snapshot :: "shared \<Rightarrow> metrics" where
  "get_metrics_snapshot sh = sh_metrics sh"

text \<open>\<open>save_state\<close>, for a tracker with a session id and a file store; the statistics are saved by their own object.\<close>

definition save_state ::
  "(string \<Rightarrow> saved_state \<Rightarrow> 'p \<Rightarrow> 'p) \<Rightarrow> (string \<Rightarrow> 'p \<Rightarrow> 'p) \<Rightarrow> string option \<Rightarrow> bool \<Rightarrow> string option \<Rightarrow> state \<Rightarrow> shared \<Rightarrow> 'p \<Rightarrow> 'p" where
  "save_state wr del sid has_store user_id s sh files =
     (case sid of
        Some (c # cs) \<Rightarrow> (if has_store then save_to_session wr del (c # cs) user_id s sh files else files)
      | _ \<Rightarrow> files)"

end
