(* ===== verification/HistoryLaws.thy ===== *)
theory HistoryLaws
  imports StateTracker
begin

text \<open>
  What a controller's history shows of the event log after \<open>_init_history\<close>: the delegations it hides, and where
  the loop over the delegate ranges goes wrong.
\<close>

section \<open>What the history shows of delegations\<close>

lemma in_history: "filter_include agent_history_filter e = Inr (filter_attributes agent_history_filter e)"
  by (rule filter_no_query) (simp add: agent_history_filter_def no_filter_def given_def)

definition kept_in_history :: "event \<Rightarrow> bool" where
  "kept_in_history e \<longleftrightarrow> \<not> hidden e \<and> \<not> is_null_action (ev_body e) \<and> \<not> is_null_obs (ev_body e)
     \<and> \<not> is_change_state (ev_body e) \<and> \<not> is_state_changed (ev_body e)"

lemma filter_attributes_history: "filter_attributes agent_history_filter e = kept_in_history e"
  by (auto simp: filter_attributes_def agent_history_filter_def no_filter_def given_def isinstance_def kept_in_history_def)

lemma add_history_eq: "add_history e s = (if kept_in_history e then s\<lparr>s_history := s_history s @ [e]\<rparr> else s)"
  by (simp add: add_history_def in_history filter_attributes_history)

text \<open>Inside a range, without its ends.\<close>

definition inside :: "(int \<times> int) list \<Rightarrow> event \<Rightarrow> bool" where
  "inside ranges e \<longleftrightarrow> (\<exists>(a, b) \<in> set ranges. a < event_id e \<and> event_id e < b)"

definition ids_increase :: "event list \<Rightarrow> bool" where
  "ids_increase es \<longleftrightarrow> sorted_wrt (\<lambda>x y. event_id x < event_id y) es"

lemma ids_increase_append:
  "ids_increase (xs @ ys) \<longleftrightarrow> ids_increase xs \<and> ids_increase ys \<and> (\<forall>x \<in> set xs. \<forall>y \<in> set ys. event_id x < event_id y)"
  by (auto simp: ids_increase_def sorted_wrt_append)

text \<open>Ranges one after the other, with both ends among the events.\<close>

fun chained :: "int \<Rightarrow> event list \<Rightarrow> (int \<times> int) list \<Rightarrow> bool" where
  "chained m es [] = True"
| "chained m es ((a, b) # rs) = (m < a \<and> a < b \<and> a \<in> event_id ` set es \<and> b \<in> event_id ` set es \<and> chained b es rs)"

lemma find_index_append_skip:
  "\<forall>x \<in> set xs. \<not> p x \<Longrightarrow> find_index p (xs @ ys) = map_option (\<lambda>i. length xs + i) (find_index p ys)"
  by (induction xs; cases "find_index p ys") simp_all

lemma split_at_id:
  assumes "ids_increase ys" and "y \<in> set ys"
  obtains l r where "ys = l @ y # r" and "\<forall>x \<in> set l. event_id x < event_id y" and "\<forall>x \<in> set r. event_id y < event_id x"
proof -
  obtain l r where lr: "ys = l @ y # r" using assms(2) by (meson split_list)
  have "ids_increase (l @ [y] @ r)" using assms(1) lr by simp
  then have "\<forall>x \<in> set l. event_id x < event_id y" "\<forall>x \<in> set r. event_id y < event_id x"
    unfolding ids_increase_append by auto
  with lr that show ?thesis by blast
qed

lemma range_turn_chained:
  assumes inc: "ids_increase (xs @ ys)" and below: "\<forall>x \<in> set xs. event_id x \<le> m"
    and r: "m < a" "a < b" "a \<in> event_id ` set (xs @ ys)" "b \<in> event_id ` set (xs @ ys)"
  obtains l mid rest ea eb where "ys = l @ ea # mid @ eb # rest" and "event_id ea = a" and "event_id eb = b"
    and "\<forall>x \<in> set l. event_id x < a" and "\<forall>x \<in> set mid. a < event_id x \<and> event_id x < b" and "\<forall>x \<in> set rest. b < event_id x"
    and "range_turn (xs @ ys) (acc, length xs) (a, b) = (acc @ l @ [ea, eb], length (xs @ l @ ea # mid @ [eb]))"
proof -
  have inc2: "ids_increase ys" using inc by (simp add: ids_increase_append)
  obtain ea where ea: "ea \<in> set ys" "event_id ea = a" using r below by fastforce
  obtain eb where eb: "eb \<in> set ys" "event_id eb = b" using r below by fastforce
  obtain l r' where l: "ys = l @ ea # r'" "\<forall>x \<in> set l. event_id x < a" "\<forall>x \<in> set r'. a < event_id x"
    using split_at_id [OF inc2 ea(1)] ea(2) by metis
  have "eb \<in> set r'" using eb ea l r(2) by auto
  moreover have "ids_increase r'" using inc2 l(1) by (simp add: ids_increase_def sorted_wrt_append)
  ultimately obtain mid rest where m: "r' = mid @ eb # rest" "\<forall>x \<in> set mid. event_id x < b" "\<forall>x \<in> set rest. b < event_id x"
    using split_at_id [of r' eb] eb(2) by metis
  have ys: "ys = l @ ea # mid @ eb # rest" using l(1) m(1) by simp
  have xs: "\<forall>x \<in> set xs. event_id x < a" using below r(1) by auto
  have after: "\<not> event_id x < a" if "x \<in> set (ea # r')" for x using that l(3) ea(2) by auto
  have f1: "filter (\<lambda>e. event_id e < a) ys = l"
    using l(2) after unfolding l(1) by (auto simp: filter_empty_conv filter_id_conv)
  have mid: "\<forall>x \<in> set mid. a < event_id x \<and> event_id x < b" using l(3) m(1,2) by auto
  have "\<not> (event_id x = a \<or> event_id x = b)" if "x \<in> set xs \<or> x \<in> set l \<or> x \<in> set mid \<or> x \<in> set rest" for x
    using that
  proof (elim disjE)
    assume "x \<in> set xs" with bspec [OF xs this] r(2) show ?thesis by linarith
  next
    assume "x \<in> set l" with bspec [OF l(2) this] r(2) show ?thesis by linarith
  next
    assume "x \<in> set mid" with bspec [OF mid this] show ?thesis by linarith
  next
    assume "x \<in> set rest" with bspec [OF m(3) this] r(2) show ?thesis by linarith
  qed
  then have none: "filter (\<lambda>e. event_id e = a \<or> event_id e = b) zs = []" if "zs \<in> {xs, l, mid, rest}" for zs
    using that by (auto simp: filter_empty_conv)
  have f2: "filter (\<lambda>e. event_id e = a \<or> event_id e = b) (xs @ ys) = [ea, eb]"
    using none [of xs] none [of l] none [of mid] none [of rest] ea(2) eb(2) by (simp add: ys)
  have pre: "\<forall>x \<in> set (xs @ l @ ea # mid @ [eb]). \<not> b < event_id x"
    using xs l(2) mid ea(2) eb(2) r(2) by fastforce
  have "find_index (\<lambda>e. b < event_id e) ((xs @ l @ ea # mid @ [eb]) @ rest)
      = map_option (\<lambda>i. length (xs @ l @ ea # mid @ [eb]) + i) (find_index (\<lambda>e. b < event_id e) rest)"
    by (rule find_index_append_skip [OF pre])
  moreover have "find_index (\<lambda>e. b < event_id e) rest = (if rest = [] then None else Some 0)"
    using m(3) by (cases rest) auto
  ultimately have idx: "(case find_index (\<lambda>e. b < event_id e) (xs @ ys) of None \<Rightarrow> length (xs @ ys) | Some i \<Rightarrow> i)
      = length (xs @ l @ ea # mid @ [eb])"
    by (simp add: ys)
  have "range_turn (xs @ ys) (acc, length xs) (a, b) = (acc @ l @ [ea, eb], length (xs @ l @ ea # mid @ [eb]))"
    using f1 f2 idx by (simp add: range_turn_def)
  from that [OF ys ea(2) eb(2) l(2) mid m(3) this] show ?thesis .
qed

lemma chained_after: "chained m es rs \<Longrightarrow> (a, b) \<in> set rs \<Longrightarrow> m < a"
  by (induction m es rs rule: chained.induct) auto

lemma chained_ends: "chained m es rs \<Longrightarrow> (a, b) \<in> set rs \<Longrightarrow> a \<in> event_id ` set es \<and> b \<in> event_id ` set es"
  by (induction m es rs rule: chained.induct) auto

lemma fold_ranges:
  assumes "ids_increase (xs @ ys)" and "\<forall>x \<in> set xs. event_id x \<le> m" and "chained m (xs @ ys) rs"
  shows "(case foldl (range_turn (xs @ ys)) (acc, length xs) rs of (filtered, i) \<Rightarrow> filtered @ drop i (xs @ ys))
    = acc @ filter (\<lambda>e. \<not> inside rs e) ys"
  using assms
proof (induction rs arbitrary: m xs ys acc)
  case Nil
  then show ?case by (simp add: inside_def)
next
  case (Cons r rs)
  obtain a b where r: "r = (a, b)" by (cases r)
  with Cons.prems have ab: "m < a" "a < b" "a \<in> event_id ` set (xs @ ys)" "b \<in> event_id ` set (xs @ ys)"
    and ch: "chained b (xs @ ys) rs" by simp_all
  obtain l mid rest ea eb where split: "ys = l @ ea # mid @ eb # rest" "event_id ea = a" "event_id eb = b"
    "\<forall>x \<in> set l. event_id x < a" "\<forall>x \<in> set mid. a < event_id x \<and> event_id x < b" "\<forall>x \<in> set rest. b < event_id x"
    and turn: "range_turn (xs @ ys) (acc, length xs) (a, b) = (acc @ l @ [ea, eb], length (xs @ l @ ea # mid @ [eb]))"
    by (rule range_turn_chained [OF Cons.prems(1,2) ab, of acc])
  let ?xs = "xs @ l @ ea # mid @ [eb]"
  have all: "?xs @ rest = xs @ ys" by (simp add: split(1))
  have "event_id x \<le> b" if "x \<in> set xs" for x using bspec [OF Cons.prems(2) that] ab(1,2) by linarith
  moreover have "event_id x \<le> b" if "x \<in> set l" for x using bspec [OF split(4) that] ab(2) by linarith
  moreover have "event_id x \<le> b" if "x \<in> set mid" for x using bspec [OF split(5) that] by linarith
  ultimately have below: "\<forall>x \<in> set ?xs. event_id x \<le> b" using split(2,3) ab(2) by auto
  have IH: "(case foldl (range_turn (?xs @ rest)) (acc @ l @ [ea, eb], length ?xs) rs of (filtered, i) \<Rightarrow> filtered @ drop i (?xs @ rest))
    = (acc @ l @ [ea, eb]) @ filter (\<lambda>e. \<not> inside rs e) rest"
    by (rule Cons.IH [OF _ below]) (use Cons.prems(1) ch all in simp_all)
  have out: "\<not> inside rs e" if "event_id e \<le> b" for e
    using that chained_after [OF ch] by (force simp: inside_def)
  have cons: "inside (r # rs) e \<longleftrightarrow> a < event_id e \<and> event_id e < b \<or> inside rs e" for e
    by (auto simp: inside_def r)
  have "\<not> inside (r # rs) x" if "x \<in> set l" for x
    using bspec [OF split(4) that] out [of x] ab(2) cons by auto
  then have "filter (\<lambda>e. \<not> inside (r # rs) e) l = l" by (simp add: filter_id_conv)
  moreover have "filter (\<lambda>e. \<not> inside (r # rs) e) mid = []" using split(5) cons by (simp add: filter_empty_conv)
  moreover have "\<not> inside (r # rs) ea" "\<not> inside (r # rs) eb" using out split(2,3) ab(2) cons by auto
  moreover have "filter (\<lambda>e. \<not> inside (r # rs) e) rest = filter (\<lambda>e. \<not> inside rs e) rest"
    using split(6) cons by (intro filter_cong) auto
  ultimately have "filter (\<lambda>e. \<not> inside (r # rs) e) ys = l @ [ea, eb] @ filter (\<lambda>e. \<not> inside rs e) rest"
    by (simp add: split(1))
  with IH [unfolded all] show ?case unfolding r foldl.simps turn by simp
qed

lemma collapse_chained:
  assumes "ids_increase es" and "chained m es rs"
  shows "collapse rs es = filter (\<lambda>e. \<not> inside rs e) es"
  using fold_ranges [of "[]" es m rs "[]"] assms by (simp add: collapse_def)

section \<open>The history of a log\<close>

text \<open>No delegate is started while another runs, and no result comes without a delegate.\<close>

fun one_at_a_time :: "bool \<Rightarrow> event list \<Rightarrow> bool" where
  "one_at_a_time active [] = True"
| "one_at_a_time active (e # es) =
     (if is_delegate_action (ev_body e) then \<not> active \<and> one_at_a_time True es
      else if is_delegate_obs (ev_body e) then active \<and> one_at_a_time False es
      else one_at_a_time active es)"

lemma delegate_ranges_chained:
  "ids_increase es \<Longrightarrow> set es \<subseteq> set all \<Longrightarrow> (\<forall>e \<in> set es. m < event_id e) \<Longrightarrow>
     (one_at_a_time False es \<longrightarrow> chained m all (delegate_ranges es []))
     \<and> (one_at_a_time True es \<longrightarrow> (\<forall>a. k < a \<and> a \<le> m \<and> a \<in> event_id ` set all \<longrightarrow> chained k all (delegate_ranges es [a])))"
proof (induction es arbitrary: m k)
  case (Cons e es)
  have inc: "ids_increase es" and later: "\<forall>x \<in> set es. event_id e < event_id x"
    using Cons.prems(1) ids_increase_append [of "[e]" es] by auto
  have e: "m < event_id e" "event_id e \<in> event_id ` set all" "set es \<subseteq> set all" using Cons.prems by auto
  note IH = Cons.IH [OF inc e(3) later]
  have later_m: "\<forall>x \<in> set es. m < event_id x" using later e(1) by auto
  note IHm = Cons.IH [OF inc e(3) later_m]
  have not_both: "is_delegate_action b \<Longrightarrow> \<not> is_delegate_obs b" for b by (auto simp: isinst split: body.splits)
  show ?case
  proof (cases "is_delegate_action (ev_body e)")
    case True
    then show ?thesis using IH [of m] e by simp
  next
    case False
    show ?thesis
    proof (cases "is_delegate_obs (ev_body e)")
      case True
      then show ?thesis using IH [of m] e False by auto
    next
      case False2: False
      then show ?thesis using IHm False by simp
    qed
  qed
qed simp

text \<open>
  What lies in a delegation, said without ranges: between a delegate action and the next delegate observation after it.
\<close>

definition in_delegation :: "event list \<Rightarrow> event \<Rightarrow> bool" where
  "in_delegation es e \<longleftrightarrow> (\<exists>d \<in> set es. \<exists>r \<in> set es. is_delegate_action (ev_body d) \<and> is_delegate_obs (ev_body r)
     \<and> event_id d < event_id e \<and> event_id e < event_id r
     \<and> (\<forall>x \<in> set es. event_id d < event_id x \<and> event_id x < event_id r \<longrightarrow> \<not> is_delegate_obs (ev_body x)))"

definition delegation_pairs :: "event list \<Rightarrow> (int \<times> int) set" where
  "delegation_pairs es = {(event_id d, event_id r) | d r. d \<in> set es \<and> r \<in> set es \<and> is_delegate_action (ev_body d) \<and> is_delegate_obs (ev_body r)
     \<and> event_id d < event_id r \<and> (\<forall>x \<in> set es. event_id d < event_id x \<and> event_id x < event_id r \<longrightarrow> \<not> is_delegate_obs (ev_body x))}"

definition first_result :: "int \<Rightarrow> event list \<Rightarrow> (int \<times> int) set" where
  \<comment> \<open>the first delegate observation, if there is one\<close>
  "first_result a es = {(a, event_id r) | r. r \<in> set es \<and> is_delegate_obs (ev_body r)
     \<and> (\<forall>x \<in> set es. event_id x < event_id r \<longrightarrow> \<not> is_delegate_obs (ev_body x))}"

lemma delegation_pairs_Cons:
  assumes "\<forall>x \<in> set es. event_id e < event_id x"
  shows "delegation_pairs (e # es) = (if is_delegate_action (ev_body e) then first_result (event_id e) es \<union> delegation_pairs es else delegation_pairs es)"
proof -
  have before: "event_id d < event_id x \<Longrightarrow> x \<noteq> e" if "d \<in> set es" for d x using assms that by fastforce
  have no: "\<not> is_delegate_obs (ev_body e)" if "is_delegate_action (ev_body e)" using that by (auto simp: isinst split: body.splits)
  have "(a, b) \<in> delegation_pairs (e # es) \<longleftrightarrow> (a, b) \<in> (if is_delegate_action (ev_body e) then first_result (event_id e) es \<union> delegation_pairs es else delegation_pairs es)" for a b
  proof
    assume "(a, b) \<in> delegation_pairs (e # es)"
    then obtain d r where dr: "a = event_id d" "b = event_id r" "d \<in> set (e # es)" "r \<in> set (e # es)" "is_delegate_action (ev_body d)"
      "is_delegate_obs (ev_body r)" "event_id d < event_id r"
      and quiet: "\<forall>x \<in> set (e # es). event_id d < event_id x \<and> event_id x < event_id r \<longrightarrow> \<not> is_delegate_obs (ev_body x)"
      by (auto simp: delegation_pairs_def)
    have "r \<noteq> e" using dr(3,7) assms by fastforce
    then have "r \<in> set es" using dr(4) by simp
    show "(a, b) \<in> (if is_delegate_action (ev_body e) then first_result (event_id e) es \<union> delegation_pairs es else delegation_pairs es)"
    proof (cases "d = e")
      case True
      then have "(a, b) \<in> first_result (event_id e) es" using dr quiet \<open>r \<in> set es\<close> assms by (auto simp: first_result_def)
      then show ?thesis using dr(5) True by simp
    next
      case False
      then have "(a, b) \<in> delegation_pairs es" using dr quiet \<open>r \<in> set es\<close> by (auto simp: delegation_pairs_def)
      then show ?thesis by simp
    qed
  next
    assume r: "(a, b) \<in> (if is_delegate_action (ev_body e) then first_result (event_id e) es \<union> delegation_pairs es else delegation_pairs es)"
    then consider "is_delegate_action (ev_body e)" "(a, b) \<in> first_result (event_id e) es" | "(a, b) \<in> delegation_pairs es" by (auto split: if_splits)
    then show "(a, b) \<in> delegation_pairs (e # es)"
    proof cases
      case 1
      then obtain r where r: "a = event_id e" "b = event_id r" "r \<in> set es" "is_delegate_obs (ev_body r)"
        "\<forall>x \<in> set es. event_id x < event_id r \<longrightarrow> \<not> is_delegate_obs (ev_body x)" by (auto simp: first_result_def)
      have "e \<in> set (e # es) \<and> r \<in> set (e # es) \<and> event_id e < event_id r
        \<and> (\<forall>x \<in> set (e # es). event_id e < event_id x \<and> event_id x < event_id r \<longrightarrow> \<not> is_delegate_obs (ev_body x))"
        using assms r(3,5) by simp
      then show ?thesis using 1(1) r(1,2,4) unfolding delegation_pairs_def by blast
    next
      case 2
      then obtain d r where dr: "a = event_id d" "b = event_id r" "d \<in> set es" "r \<in> set es" "is_delegate_action (ev_body d)"
        "is_delegate_obs (ev_body r)" "event_id d < event_id r"
        "\<forall>x \<in> set es. event_id d < event_id x \<and> event_id x < event_id r \<longrightarrow> \<not> is_delegate_obs (ev_body x)" by (auto simp: delegation_pairs_def)
      moreover have "\<not> event_id d < event_id e" using assms dr(3) by fastforce
      ultimately show ?thesis unfolding delegation_pairs_def by auto
    qed
  qed
  then show ?thesis by auto
qed

lemma first_result_Cons:
  assumes "\<forall>x \<in> set es. event_id e < event_id x"
  shows "first_result a (e # es) = (if is_delegate_obs (ev_body e) then {(a, event_id e)} else first_result a es)"
proof (cases "is_delegate_obs (ev_body e)")
  case True
  have "\<not> event_id x < event_id e" if "x \<in> set (e # es)" for x using assms that by fastforce
  then have "(a, event_id e) \<in> first_result a (e # es)" using True list.set_intros(1) [of e es] unfolding first_result_def by blast
  moreover have "r = e" if "r \<in> set (e # es)" "\<forall>x \<in> set (e # es). event_id x < event_id r \<longrightarrow> \<not> is_delegate_obs (ev_body x)" for r
    using that True assms by auto
  ultimately have "first_result a (e # es) = {(a, event_id e)}" unfolding first_result_def by blast
  then show ?thesis using True by simp
next
  case False
  then show ?thesis by (simp add: first_result_def) (rule arg_cong [of _ _ Collect], rule ext, auto)
qed

lemma delegate_ranges_pairs:
  "ids_increase es \<Longrightarrow> (one_at_a_time False es \<longrightarrow> set (delegate_ranges es []) = delegation_pairs es)
     \<and> (one_at_a_time True es \<longrightarrow> set (delegate_ranges es [a]) = first_result a es \<union> delegation_pairs es)"
proof (induction es arbitrary: a)
  case Nil
  show ?case by (simp add: delegation_pairs_def first_result_def)
next
  case (Cons e es)
  have inc: "ids_increase es" and later: "\<forall>x \<in> set es. event_id e < event_id x"
    using Cons.prems(1) ids_increase_append [of "[e]" es] by auto
  have "\<not> (is_delegate_action b \<and> is_delegate_obs b)" for b by (auto simp: isinst split: body.splits)
  then show ?case using Cons.IH [OF inc] by (auto simp: delegation_pairs_Cons [OF later] first_result_Cons [OF later])
qed

lemma inside_in_delegation:
  assumes "ids_increase es" and "one_at_a_time False es"
  shows "inside (delegate_ranges es []) e \<longleftrightarrow> in_delegation es e"
proof -
  have "set (delegate_ranges es []) = delegation_pairs es" using delegate_ranges_pairs [OF assms(1)] assms(2) by blast
  then have "inside (delegate_ranges es []) e \<longleftrightarrow> (\<exists>a b. (a, b) \<in> delegation_pairs es \<and> a < event_id e \<and> event_id e < b)"
    by (auto simp: inside_def)
  also have "\<dots> \<longleftrightarrow> in_delegation es e" unfolding delegation_pairs_def in_delegation_def by (blast intro: less_trans)
  finally show ?thesis .
qed

lemma chained_sorted: "chained m es rs \<Longrightarrow> sorted rs"
proof (induction m es rs rule: chained.induct)
  case (2 m es a b rs)
  then have ch: "chained b es rs" "a < b" by simp_all
  then have "(a, b) \<le> r" if "r \<in> set rs" for r
    using chained_after [OF ch(1)] that by (cases r) (force simp: less_eq_prod_def)
  with 2 ch show ?case by simp
qed simp

lemma set_range_turn: "set (fst (range_turn es acc r)) \<subseteq> set (fst acc) \<union> set es"
  by (auto simp: range_turn_def split: prod.splits dest: in_set_dropD)

lemma set_collapse: "set (collapse rs es) \<subseteq> set es"
proof -
  have "set (fst (foldl (range_turn es) acc rs)) \<subseteq> set (fst acc) \<union> set es" for acc
    by (induction rs arbitrary: acc) (use set_range_turn in fastforce)+
  then have "set (fst (foldl (range_turn es) ([], 0) rs)) \<subseteq> set es" by fastforce
  then show ?thesis
    by (cases "foldl (range_turn es) ([], 0) rs") (auto simp: collapse_def dest: in_set_dropD)
qed

text \<open>The events of a range of the log that the filter lets through.\<close>

definition log_events :: "(string \<Rightarrow> dict option) \<Rightarrow> (json mem_store, 'k) event_stream \<Rightarrow> int \<Rightarrow> int \<Rightarrow> event list" where
  "log_events lit stream a b = filter kept_in_history (List.map_filter (stored mem_read lit stream) [a..b])"

lemma map_filter_stored_ids:
  assumes "files_ok mem_read lit stream" and "sorted_wrt (<) is"
  shows "ids_increase (List.map_filter (stored mem_read lit stream) is) \<and>
    (\<forall>e \<in> set (List.map_filter (stored mem_read lit stream) is). event_id e \<in> set is)"
  using assms(2)
proof (induction "is")
  case (Cons i "is")
  then have IH: "ids_increase (List.map_filter (stored mem_read lit stream) is)"
    "\<forall>e \<in> set (List.map_filter (stored mem_read lit stream) is). event_id e \<in> set is" by auto
  show ?case
  proof (cases "stored mem_read lit stream i")
    case (Some e)
    then have "event_id e = i" using mem_events.stored_id [OF assms(1)] by blast
    with Cons.prems IH Some show ?thesis
      by (auto simp: map_filter_simps ids_increase_def)
  qed (use IH in \<open>simp add: map_filter_simps\<close>)
qed (simp add: map_filter_simps ids_increase_def)

lemma log_events_ids:
  assumes "files_ok mem_read lit stream"
  shows "ids_increase (log_events lit stream a b)" "e \<in> set (log_events lit stream a b) \<Longrightarrow> a \<le> event_id e"
proof -
  have "sorted_wrt (<) [a..b]" by (simp add: sorted_wrt_iff_nth_less)
  note ids = map_filter_stored_ids [OF assms this]
  show "ids_increase (log_events lit stream a b)"
    using ids by (auto simp: log_events_def ids_increase_def intro: sorted_wrt_filter)
  show "e \<in> set (log_events lit stream a b) \<Longrightarrow> a \<le> event_id e"
    using ids by (auto simp: log_events_def)
qed

lemma log_events_upper: "files_ok mem_read lit stream \<Longrightarrow> e \<in> set (log_events lit stream a b) \<Longrightarrow> event_id e \<le> b"
proof -
  assume files: "files_ok mem_read lit stream" and e: "e \<in> set (log_events lit stream a b)"
  have "sorted_wrt (<) [a..b]" by (simp add: sorted_wrt_iff_nth_less)
  from map_filter_stored_ids [OF files this] e show ?thesis by (auto simp: log_events_def)
qed

lemma search_history_log:
  assumes "store_ok mem_read lit stream" and "cur_id mem_list stream = Inr (stream', n)"
  shows "search_history mem_read mem_list lit (\<lambda>_. True) a b stream = (stream, Inr (log_events lit stream a b))"
proof -
  have "snd (search_events mem_read mem_list lit (\<lambda>_. True) a (Some b) False (Some agent_history_filter) None stream)
      = select_events (Some agent_history_filter) None 0 (List.map_filter (stored mem_read lit stream) [a..b])"
    using mem_events.search_events_select [OF assms(1) _ assms(2)] by simp
  also have "\<dots> = (log_events lit stream a b, None)"
    by (subst select_all [where p = kept_in_history])
      (simp_all add: filter_truth_def in_history filter_attributes_history log_events_def)
  finally show ?thesis by (simp add: search_history_def search_events_def)
qed

lemma cur_id_idem: "cur_id ls stream = Inr (stream', n) \<Longrightarrow> cur_id ls stream' = Inr (stream', n)"
  by (auto simp: cur_id_def bind_res_Inr split: option.splits)

lemma cur_id_same_files:
  assumes "cur_id ls stream = Inr (stream', n)"
  shows "store_ok rd lit stream' = store_ok rd lit stream" and "stored rd lit stream' = stored rd lit stream"
proof -
  have "es_files stream' = es_files stream \<and> es_sid stream' = es_sid stream \<and> es_user_id stream' = es_user_id stream
      \<and> es_cache_size stream' = es_cache_size stream"
    using assms by (auto simp: cur_id_def bind_res_Inr split: option.splits)
  then show "store_ok rd lit stream' = store_ok rd lit stream" "stored rd lit stream' = stored rd lit stream"
    by (auto simp: store_ok_def files_ok_def pages_ok_def stored_def get_event_def fun_eq_iff
        get_filename_for_id_def get_filename_for_cache_def)
qed

lemma init_history_log:
  assumes "store_ok mem_read lit stream" and "cur_id mem_list stream = Inr (stream', n)"
    and "s_end_id s < 0" and "0 \<le> s_start_id s" and "s_start_id s \<le> n"
  defines "events \<equiv> log_events lit stream (s_start_id s) (n - 1)"
  shows "init_history mem_read mem_list lit (\<lambda>_. True) stream s =
    (stream', Inr (s\<lparr>s_history := collapse (sort (delegate_ranges events [])) events,
       s_start_id := if delegate_ranges events [] = [] then s_start_id s else fst (last (sort (delegate_ranges events [])))\<rparr>))"
proof -
  have range: "history_range mem_list stream s = Inr (stream', s_start_id s, n - 1)"
    using assms(2-4) by (simp add: history_range_def Let_def get_latest_event_id_def)
  have "search_history mem_read mem_list lit (\<lambda>_. True) (s_start_id s) (n - 1) stream' = (stream', Inr events)"
    using search_history_log [of lit stream' stream' n] assms(1) cur_id_idem [OF assms(2)]
    by (simp add: cur_id_same_files [OF assms(2)] events_def log_events_def)
  with range assms(5) show ?thesis
    by (simp add: init_history_def Let_def) (metis set_empty2 set_sort)
qed

text \<open>
  C17. When no delegate starts while another runs, the loaded history is the log of the range without
  filtered events and without what lies in a delegation: strictly between a delegate action and the first delegate
  observation after it.
\<close>

theorem history_hides_delegates:
  assumes "store_ok mem_read lit stream" and "cur_id mem_list stream = Inr (stream', n)"
    and "s_end_id s < 0" and "0 \<le> s_start_id s" and "s_start_id s \<le> n"
    and "one_at_a_time False (log_events lit stream (s_start_id s) (n - 1))"
  shows "\<exists>s'. init_history mem_read mem_list lit (\<lambda>_. True) stream s = (stream', Inr s') \<and>
    s_history s' = filter (\<lambda>e. \<not> in_delegation (log_events lit stream (s_start_id s) (n - 1)) e)
      (log_events lit stream (s_start_id s) (n - 1))"
proof -
  let ?es = "log_events lit stream (s_start_id s) (n - 1)"
  have files: "files_ok mem_read lit stream" using assms(1) by (simp add: store_ok_def)
  have inc: "ids_increase ?es" by (rule log_events_ids(1) [OF files])
  have "\<forall>e \<in> set ?es. s_start_id s - 1 < event_id e" using log_events_ids(2) [OF files] by fastforce
  then have ch: "chained (s_start_id s - 1) ?es (delegate_ranges ?es [])"
    using delegate_ranges_chained [OF inc subset_refl] assms(6) by blast
  then have "sort (delegate_ranges ?es []) = delegate_ranges ?es []"
    by (simp add: sorted_sort_id chained_sorted)
  with init_history_log [OF assms(1-5)] collapse_chained [OF inc ch] inside_in_delegation [OF inc assms(6)] show ?thesis by simp
qed

text \<open>
  The loop over the delegate ranges overwrites the local \<open>start_id\<close>, which is then stored: after one
  completed delegation the state starts at the last delegate action, and the next time the saved
  state is loaded the history has lost every event before it.
\<close>

theorem second_load_loses_history:
  assumes "store_ok mem_read lit stream" and "cur_id mem_list stream = Inr (stream', n)"
    and "s_end_id s < 0" and "0 \<le> s_start_id s" and "s_start_id s \<le> n"
    and "delegate_ranges (log_events lit stream (s_start_id s) (n - 1)) [] \<noteq> []"
    and "one_at_a_time False (log_events lit stream (s_start_id s) (n - 1))"
  shows "\<exists>a b s1 s2. (a, b) \<in> set (delegate_ranges (log_events lit stream (s_start_id s) (n - 1)) []) \<and>
    init_history mem_read mem_list lit (\<lambda>_. True) stream s = (stream', Inr s1) \<and>
    init_history mem_read mem_list lit (\<lambda>_. True) stream' (getstate s1) = (stream', Inr s2) \<and>
    s_start_id s1 = a \<and> (\<forall>e \<in> set (s_history s2). a \<le> event_id e)"
proof -
  let ?es = "log_events lit stream (s_start_id s) (n - 1)"
  let ?a = "fst (last (sort (delegate_ranges ?es [])))" and ?b = "snd (last (sort (delegate_ranges ?es [])))"
  obtain s1 where s1: "init_history mem_read mem_list lit (\<lambda>_. True) stream s = (stream', Inr s1)"
    "s_start_id s1 = ?a" "s_end_id s1 = s_end_id s"
    using init_history_log [OF assms(1-5)] assms(6) by simp
  have "last (sort (delegate_ranges ?es [])) \<in> set (sort (delegate_ranges ?es []))"
    using assms(6) by (metis last_in_set set_empty2 set_sort)
  then have ab: "(?a, ?b) \<in> set (delegate_ranges ?es [])" by simp
  have files: "files_ok mem_read lit stream" using assms(1) by (simp add: store_ok_def)
  have inc: "ids_increase ?es" by (rule log_events_ids(1) [OF files])
  have "\<forall>e \<in> set ?es. s_start_id s - 1 < event_id e" using log_events_ids(2) [OF files] by fastforce
  then have ch: "chained (s_start_id s - 1) ?es (delegate_ranges ?es [])"
    using delegate_ranges_chained [OF inc subset_refl] assms(7) by blast
  from chained_after [OF ch ab] have a0: "s_start_id s \<le> ?a" by simp
  have "?a \<in> event_id ` set ?es" using chained_ends [OF ch ab] by blast
  then have an: "?a \<le> n" using log_events_upper [OF files] by fastforce
  obtain s2 rs where s2: "init_history mem_read mem_list lit (\<lambda>_. True) stream' (getstate s1) = (stream', Inr s2)"
    "s_history s2 = collapse rs (log_events lit stream' ?a (n - 1))"
    using init_history_log [of lit stream' stream' n "getstate s1"] cur_id_idem [OF assms(2)] assms s1 a0 an
    by (simp add: getstate_def cur_id_same_files [OF assms(2)])
  have files': "files_ok mem_read lit stream'"
    using assms(1) cur_id_same_files(1) [OF assms(2), of mem_read lit] unfolding store_ok_def by blast
  have "?a \<le> event_id e" if "e \<in> set (s_history s2)" for e
    using that set_collapse log_events_ids(2) [OF files'] unfolding s2(2) by blast
  with s1 s2(1) ab show ?thesis by blast
qed

definition nested_log :: "event list" where
  "nested_log = map (\<lambda>(i, b). (fresh b)\<lparr>ev_id := Some i\<rparr>)
     [(0, Act (AgentThinkAction [])), (1, Act (AgentDelegateAction ''B'' [] [])), (2, Act (AgentDelegateAction ''C'' [] [])),
      (3, Obs (AgentDelegateObservation [] [])), (4, Obs (AgentDelegateObservation [] [])), (5, Act (AgentThinkAction []))]"

text \<open>
  With a delegate inside a delegate the loaded history is neither ordered nor free of duplicates: the events
  of the inner range are put after those of the outer one, and the outer observation comes twice.
\<close>

theorem nested_delegates_reorder_history:
  "map event_id (collapse (sort (delegate_ranges nested_log [])) nested_log) = [0, 1, 4, 2, 3, 4, 5]"
  by code_simp

section \<open>Examples\<close>

definition delegation_calls :: "(string \<times> event \<times> event_source) list" where
  "delegation_calls =
     [(''t'', new_action (AgentThinkAction []), AGENT),
      (''t'', new_action (AgentDelegateAction ''B'' [] []), AGENT),
      (''t'', new_action (AgentThinkAction []), AGENT),
      (''t'', new_obs (AgentDelegateObservation [] []), AGENT)]"

lemma delegation_stream:
  obtains st st' :: "(json mem_store, unit) event_stream" where "store_ok mem_read (\<lambda>_. None) st" and "cur_id mem_list st = Inr (st', 4)"
    and "log_events (\<lambda>_. None) st 0 3 = map (\<lambda>k. stamped (int k) (delegation_calls ! k)) [0..<4]"
proof -
  let ?new = "new_stream ''s'' [] None :: (json mem_store, unit) event_stream"
  have nx: "next_id mem_list ?new = Inr 0" using calculate_cur_id_empty by (simp add: next_id_def new_stream_def)
  have sec: "st_secrets ?new = []" by (simp add: new_stream_def)
  have ok: "\<forall>(now, e, src) \<in> set delegation_calls. event_ok e \<and> event_id e = INVALID_ID"
    by (simp add: delegation_calls_def event_ok_def new_action_def new_obs_def INVALID_ID_def)
  obtain st :: "(json mem_store, unit) event_stream" where st: "stream_ok mem_read mem_list (\<lambda>_. None) st" "next_id mem_list st = Inr (0 + int (length delegation_calls))"
    "\<And>i. stored mem_read (\<lambda>_. None) st i = (if 0 \<le> i \<and> i < 0 + int (length delegation_calls)
       then Some (stamped i (delegation_calls ! nat (i - 0))) else stored mem_read (\<lambda>_. None) ?new i)"
    using mem_events.add_events_log [OF new_stream_ok nx sec ok, of "\<lambda>_. None"] by blast
  have len: "length delegation_calls = 4" by (simp add: delegation_calls_def)
  then obtain st' where cid: "cur_id mem_list st = Inr (st', 4)"
    using st(2) by (auto simp: cur_id_def next_id_def split: option.splits)
  have store: "store_ok mem_read (\<lambda>_. None) st" using st(1) by (simp add: stream_ok_def)
  have "[0..3::int] = [0, 1, 2, 3]" by (simp add: upto_rec1)
  moreover have "[0..<4] = [0, 1, 2, 3 :: nat]" by code_simp
  ultimately have "log_events (\<lambda>_. None) st 0 3
      = filter kept_in_history (map (\<lambda>k. stamped (int k) (delegation_calls ! k)) [0..<4])"
    by (simp add: log_events_def map_filter_simps st(3) len)
  moreover have "filter kept_in_history (map (\<lambda>k. stamped (int k) (delegation_calls ! k)) [0..<4])
      = map (\<lambda>k. stamped (int k) (delegation_calls ! k)) [0..<4]" by code_simp
  ultimately show ?thesis using that cid store by simp
qed

theorem history_hides_delegates_witness:
  "\<exists>st :: (json mem_store, unit) event_stream. \<exists>st' s'. init_history mem_read mem_list (\<lambda>_. None) (\<lambda>_. True) st
      ((new_state ''s'' None)\<lparr>s_start_id := 0\<rparr>) = (st', Inr s') \<and> map event_id (s_history s') = [0, 1, 3]"
proof -
  let ?s = "(new_state ''s'' None)\<lparr>s_start_id := 0\<rparr>"
  obtain st st' :: "(json mem_store, unit) event_stream" where st: "store_ok mem_read (\<lambda>_. None) st" "cur_id mem_list st = Inr (st', 4)"
    "log_events (\<lambda>_. None) st 0 3 = map (\<lambda>k. stamped (int k) (delegation_calls ! k)) [0..<4]"
    by (rule delegation_stream)
  have s: "s_end_id ?s < 0" "0 \<le> s_start_id ?s" "s_start_id ?s \<le> 4" by (simp_all add: new_state_def)
  have log: "log_events (\<lambda>_. None) st (s_start_id ?s) (4 - 1) = map (\<lambda>k. stamped (int k) (delegation_calls ! k)) [0..<4]"
    using st(3) by (simp add: new_state_def)
  have "one_at_a_time False (map (\<lambda>k. stamped (int k) (delegation_calls ! k)) [0..<4])" by code_simp
  then have one: "one_at_a_time False (log_events (\<lambda>_. None) st (s_start_id ?s) (4 - 1))" unfolding log .
  have "map event_id (filter (\<lambda>e. \<not> in_delegation (map (\<lambda>k. stamped (int k) (delegation_calls ! k)) [0..<4]) e)
      (map (\<lambda>k. stamped (int k) (delegation_calls ! k)) [0..<4])) = [0, 1, 3]" by code_simp
  with history_hides_delegates [OF st(1,2) s one] log show ?thesis by metis
qed

theorem second_load_loses_history_witness:
  "\<exists>st :: (json mem_store, unit) event_stream. \<exists>st' s1 s2.
     init_history mem_read mem_list (\<lambda>_. None) (\<lambda>_. True) st ((new_state ''s'' None)\<lparr>s_start_id := 0\<rparr>) = (st', Inr s1)
     \<and> init_history mem_read mem_list (\<lambda>_. None) (\<lambda>_. True) st' (getstate s1) = (st', Inr s2)
     \<and> s_start_id s1 = 1 \<and> (\<forall>e \<in> set (s_history s2). event_id e \<noteq> 0)"
proof -
  let ?s = "(new_state ''s'' None)\<lparr>s_start_id := 0\<rparr>"
  obtain st st' :: "(json mem_store, unit) event_stream" where st: "store_ok mem_read (\<lambda>_. None) st" "cur_id mem_list st = Inr (st', 4)"
    "log_events (\<lambda>_. None) st 0 3 = map (\<lambda>k. stamped (int k) (delegation_calls ! k)) [0..<4]"
    by (rule delegation_stream)
  have s: "s_end_id ?s < 0" "0 \<le> s_start_id ?s" "s_start_id ?s \<le> 4" by (simp_all add: new_state_def)
  have log: "log_events (\<lambda>_. None) st (s_start_id ?s) (4 - 1) = map (\<lambda>k. stamped (int k) (delegation_calls ! k)) [0..<4]"
    using st(3) by (simp add: new_state_def)
  have "one_at_a_time False (map (\<lambda>k. stamped (int k) (delegation_calls ! k)) [0..<4])" by code_simp
  then have one: "one_at_a_time False (log_events (\<lambda>_. None) st (s_start_id ?s) (4 - 1))" unfolding log .
  have rs: "delegate_ranges (map (\<lambda>k. stamped (int k) (delegation_calls ! k)) [0..<4]) [] = [(1, 3)]" by code_simp
  then have ne: "delegate_ranges (log_events (\<lambda>_. None) st (s_start_id ?s) (4 - 1)) [] \<noteq> []" unfolding log by simp
  from second_load_loses_history [OF st(1,2) s ne one] obtain a b s1 s2 where
    "(a, b) \<in> set [(1 :: int, 3 :: int)]" and "init_history mem_read mem_list (\<lambda>_. None) (\<lambda>_. True) st ?s = (st', Inr s1)"
    "init_history mem_read mem_list (\<lambda>_. None) (\<lambda>_. True) st' (getstate s1) = (st', Inr s2)"
    "s_start_id s1 = a" "\<forall>e \<in> set (s_history s2). a \<le> event_id e"
    unfolding log rs by blast
  then show ?thesis by fastforce
qed

end
