(* ===== verification/Messages.thy ===== *)
theory Messages
  imports Deserialization
begin

text \<open>
  Messages for a language model (\<open>openhands/core/message.py\<close>) with their two serialisations, and what the
  code reads of the objects of the LiteLLM library: a response with its choices, and the tool calls of a message.
\<close>

section \<open>Contents and messages\<close>

datatype role = R_user | R_system | R_assistant | R_tool

definition role_value :: "role \<Rightarrow> string" where
  "role_value r = (case r of R_user \<Rightarrow> ''user'' | R_system \<Rightarrow> ''system'' | R_assistant \<Rightarrow> ''assistant'' | R_tool \<Rightarrow> ''tool'')"

definition role_of :: "string \<Rightarrow> role res" where
  \<comment> \<open>the validation of the literal type of the field\<close>
  "role_of s =
     (if s = ''user'' then Inr R_user else if s = ''system'' then Inr R_system
      else if s = ''assistant'' then Inr R_assistant else if s = ''tool'' then Inr R_tool
      else Inl (OtherError ''ValidationError'' ''role''))"

datatype content_item =
    TextContent (text_of: string) (cache_prompt: bool)
  | ImageContent (image_urls_of: "string list") (cache_prompt: bool)

record tool_call =
  tl_id :: string
  tl_name :: string
  tl_arguments :: string

record msg =
  mg_role :: role
  mg_content :: "content_item list"
  mg_cache_enabled :: bool
  mg_vision_enabled :: bool
  mg_function_calling_enabled :: bool
  mg_tool_calls :: "tool_call list option"
  mg_tool_call_id :: "string option"
  mg_name :: "string option"
  mg_force_string_serializer :: bool

definition new_msg :: "role \<Rightarrow> content_item list \<Rightarrow> msg" where
  "new_msg r content =
     \<lparr>mg_role = r, mg_content = content, mg_cache_enabled = False, mg_vision_enabled = False,
      mg_function_calling_enabled = False, mg_tool_calls = None, mg_tool_call_id = None, mg_name = None,
      mg_force_string_serializer = False\<rparr>"

definition text_item :: "string \<Rightarrow> content_item" where "text_item s = TextContent s False"
definition image_item :: "string list \<Rightarrow> content_item" where "image_item urls = ImageContent urls False"

definition is_text :: "content_item \<Rightarrow> bool" where
  "is_text c = (case c of TextContent _ _ \<Rightarrow> True | ImageContent _ _ \<Rightarrow> False)"

definition contains_image :: "msg \<Rightarrow> bool" where
  "contains_image m = list_ex (\<lambda>c. \<not> is_text c) (mg_content m)"

section \<open>Serialisation\<close>

definition ephemeral :: "string \<times> json" where
  "ephemeral = (''cache_control'', JObj [(''type'', JStr ''ephemeral'')])"

definition text_dict :: "string \<Rightarrow> bool \<Rightarrow> dict" where
  "text_dict s cached = [(''type'', JStr ''text''), (''text'', JStr s)] @ (if cached then [ephemeral] else [])"

definition image_dicts :: "string list \<Rightarrow> bool \<Rightarrow> dict list" where
  "image_dicts urls cached =
     (let images = map (\<lambda>u. [(''type'', JStr ''image_url''), (''image_url'', JObj [(''url'', JStr u)])]) urls in
      if cached \<and> images \<noteq> [] then butlast images @ [last images @ [ephemeral]] else images)"

definition add_tool_call_keys :: "msg \<Rightarrow> dict \<Rightarrow> dict res" where
  "add_tool_call_keys m d =
     (let d = (case mg_tool_calls m of
                 None \<Rightarrow> d
               | Some tcs \<Rightarrow> d_set ''tool_calls'' (JList (map (\<lambda>tc. JObj
                   [(''id'', JStr (tl_id tc)), (''type'', JStr ''function''),
                    (''function'', JObj [(''name'', JStr (tl_name tc)), (''arguments'', JStr (tl_arguments tc))])]) tcs)) d)
      in case mg_tool_call_id m of
           None \<Rightarrow> Inr d
         | Some i \<Rightarrow>
             (case mg_name m of
                None \<Rightarrow> Inl AssertionError
              | Some nm \<Rightarrow> Inr (d_set ''name'' (JStr nm) (d_set ''tool_call_id'' (JStr i) d))))"

definition string_serializer :: "msg \<Rightarrow> dict res" where
  "string_serializer m = add_tool_call_keys m
     [(''content'', JStr (py_join [nl] (map text_of (filter is_text (mg_content m))))), (''role'', JStr (role_value (mg_role m)))]"

definition item_dicts :: "role \<Rightarrow> bool \<Rightarrow> content_item \<Rightarrow> dict list" where
  \<comment> \<open>what an item adds to the list of contents; the cache mark of a tool message goes to the message\<close>
  "item_dicts r vision c =
     (case c of
        TextContent s cached \<Rightarrow> [text_dict s (cached \<and> r \<noteq> R_tool)]
      | ImageContent urls cached \<Rightarrow> if vision then image_dicts urls (cached \<and> r \<noteq> R_tool) else [])"

definition list_serializer :: "msg \<Rightarrow> dict res" where
  "list_serializer m = add_tool_call_keys m
     ([(''content'', JList (map JObj (concat (map (item_dicts (mg_role m) (mg_vision_enabled m)) (mg_content m))))),
       (''role'', JStr (role_value (mg_role m)))]
      @ (if mg_role m = R_tool \<and> list_ex cache_prompt (mg_content m) then [ephemeral] else []))"

definition serialize_model :: "msg \<Rightarrow> dict res" where
  "serialize_model m =
     (if \<not> mg_force_string_serializer m \<and> (mg_cache_enabled m \<or> mg_vision_enabled m \<or> mg_function_calling_enabled m)
      then list_serializer m else string_serializer m)"

section \<open>Responses of the model\<close>

text \<open>
  The attributes the code reads of a \<open>ModelResponse\<close>: its id, and of each choice the message, whose content is a
  string, a list of parts or nothing.
\<close>

record assistant_message =
  am_role :: string
  am_content :: json
  am_tool_calls :: "tool_call list option"

record model_response =
  mr_id :: string
  mr_choices :: "assistant_message list"

end
