(* ===== verification/FunctionCalling.thy ===== *)
theory FunctionCalling
  imports Messages
begin

text \<open>
  From the response of the model to actions (\<open>openhands/agenthub/codeact_agent/function_calling.py\<close>): one action for
  each call of a tool, with the metadata of the call.

  The record \<open>calls_env\<close> holds what comes from outside: \<open>json.loads\<close> and \<open>float\<close> on strings, the dump of a response
  that the metadata keeps, and the text \<open>str\<close> gives for the set of the editor's parameters, whose order Python
  leaves open. A dataclass does not check the types of its fields; the typed fields of the model cannot hold a value
  of another type, and such a call is the error \<open>ill_typed\<close>.
\<close>

record calls_env =
  fe_loads :: "string \<Rightarrow> json option"
  fe_float :: "string \<Rightarrow> rat option"
  fe_dump :: "model_response \<Rightarrow> json"
  fe_valid_params_text :: string

section \<open>Arguments\<close>

text \<open>\<open>k in arguments\<close>, \<open>arguments.get(k, v)\<close> and \<open>arguments[k]\<close> for whatever the model wrote\<close>

definition a_in :: "string \<Rightarrow> json \<Rightarrow> bool res" where
  "a_in k j = (case j of
       JObj d \<Rightarrow> Inr (d_has d k)
     | JList xs \<Rightarrow> Inr (JStr k \<in> set xs)
     | JStr s \<Rightarrow> Inr (py_contains s k)
     | _ \<Rightarrow> Inl (TypeError ''argument is not iterable''))"

definition a_get :: "string \<Rightarrow> json \<Rightarrow> json \<Rightarrow> json res" where
  "a_get k v j = (case j of
       JObj d \<Rightarrow> Inr (case d_get d k of Some x \<Rightarrow> x | None \<Rightarrow> v)
     | _ \<Rightarrow> Inl (AttributeError ''get''))"

definition a_item :: "string \<Rightarrow> json \<Rightarrow> json res" where
  "a_item k j = (case j of
       JObj d \<Rightarrow> (case d_get d k of Some x \<Rightarrow> Inr x | None \<Rightarrow> Inl (KeyError k))
     | _ \<Rightarrow> Inl (TypeError ''indices must be integers''))"

definition quoted :: "string \<Rightarrow> string" where "quoted s = CHR 0x22 # s @ [CHR 0x22]"

definition need :: "string \<Rightarrow> string \<Rightarrow> json \<Rightarrow> 'a res \<Rightarrow> 'a res" where
  \<comment> \<open>the check for a required argument of a tool\<close>
  "need tool k j r = bind_res (a_in k j) (\<lambda>present.
     if present then r
     else Inl (FunctionCallValidationError (''Missing required argument '' @ quoted k @ '' in tool call '' @ tool)))"

definition py_type :: "json \<Rightarrow> string" where
  "py_type j = ''<class '' @ py_repr_str (case j of JNull \<Rightarrow> ''NoneType'' | JBool _ \<Rightarrow> ''bool'' | JInt _ \<Rightarrow> ''int''
     | JFloat _ \<Rightarrow> ''float'' | JStr _ \<Rightarrow> ''str'' | JList _ \<Rightarrow> ''list'' | JObj _ \<Rightarrow> ''dict'') @ ''>''"

definition py_float :: "calls_env \<Rightarrow> json \<Rightarrow> rat res" where
  "py_float E j = (case j of
       JInt i \<Rightarrow> Inr (of_int i)
     | JFloat q \<Rightarrow> Inr q
     | JBool b \<Rightarrow> Inr (if b then 1 else 0)
     | JStr s \<Rightarrow> (case fe_float E s of Some q \<Rightarrow> Inr q | None \<Rightarrow> Inl (ValueError ''could not convert string to float''))
     | _ \<Rightarrow> Inl (TypeError ''float() argument must be a string or a real number''))"

definition py_truthy :: "json \<Rightarrow> bool" where
  "py_truthy j = (case j of JNull \<Rightarrow> False | JBool b \<Rightarrow> b | JInt i \<Rightarrow> i \<noteq> 0 | JFloat q \<Rightarrow> q \<noteq> 0
     | JStr s \<Rightarrow> s \<noteq> [] | JList xs \<Rightarrow> xs \<noteq> [] | JObj d \<Rightarrow> d \<noteq> [])"

definition RISK_LEVELS :: "string list" where "RISK_LEVELS = [''LOW'', ''MEDIUM'', ''HIGH'']"

definition risk_named :: "json \<Rightarrow> security_risk option" where
  "risk_named j = (if j = JStr ''LOW'' then Some RISK_LOW else if j = JStr ''MEDIUM'' then Some RISK_MEDIUM
     else if j = JStr ''HIGH'' then Some RISK_HIGH else None)"

definition set_security_risk :: "json \<Rightarrow> action \<Rightarrow> action res" where
  "set_security_risk arguments a = bind_res (a_in ''security_risk'' arguments) (\<lambda>present.
     if present then bind_res (a_item ''security_risk'' arguments) (\<lambda>j.
       Inr (case risk_named j of Some r \<Rightarrow> set_action_risk r a | None \<Rightarrow> a))
     else Inr a)"

section \<open>Thoughts\<close>

fun action_thought :: "action \<Rightarrow> string option" where
  "action_thought (CmdRunAction r) = Some (cr_thought r)"
| "action_thought (IPythonRunCellAction r) = Some (ip_thought r)"
| "action_thought (BrowseURLAction r) = Some (bu_thought r)"
| "action_thought (BrowseInteractiveAction r) = Some (bi_thought r)"
| "action_thought (FileReadAction r) = Some (fr_thought r)"
| "action_thought (FileWriteAction r) = Some (fw_thought r)"
| "action_thought (FileEditAction r) = Some (fe_thought r)"
| "action_thought (MCPAction r) = Some (mc_thought r)"
| "action_thought (AgentThinkAction t) = Some t"
| "action_thought (AgentFinishAction f outs t) = Some t"
| "action_thought (AgentRejectAction outs t) = Some t"
| "action_thought (AgentDelegateAction a ins t) = Some t"
| "action_thought (RecallAction k q t) = Some t"
| "action_thought (ChangeAgentStateAction s t) = Some t"
| "action_thought (TaskTrackingAction c ts t) = Some t"
| "action_thought _ = None"

fun with_thought :: "string \<Rightarrow> action \<Rightarrow> action" where
  "with_thought t (CmdRunAction r) = CmdRunAction (r\<lparr>cr_thought := t\<rparr>)"
| "with_thought t (IPythonRunCellAction r) = IPythonRunCellAction (r\<lparr>ip_thought := t\<rparr>)"
| "with_thought t (BrowseURLAction r) = BrowseURLAction (r\<lparr>bu_thought := t\<rparr>)"
| "with_thought t (BrowseInteractiveAction r) = BrowseInteractiveAction (r\<lparr>bi_thought := t\<rparr>)"
| "with_thought t (FileReadAction r) = FileReadAction (r\<lparr>fr_thought := t\<rparr>)"
| "with_thought t (FileWriteAction r) = FileWriteAction (r\<lparr>fw_thought := t\<rparr>)"
| "with_thought t (FileEditAction r) = FileEditAction (r\<lparr>fe_thought := t\<rparr>)"
| "with_thought t (MCPAction r) = MCPAction (r\<lparr>mc_thought := t\<rparr>)"
| "with_thought t (AgentThinkAction s) = AgentThinkAction t"
| "with_thought t (AgentFinishAction f outs s) = AgentFinishAction f outs t"
| "with_thought t (AgentRejectAction outs s) = AgentRejectAction outs t"
| "with_thought t (AgentDelegateAction a ins s) = AgentDelegateAction a ins t"
| "with_thought t (RecallAction k q s) = RecallAction k q t"
| "with_thought t (ChangeAgentStateAction st s) = ChangeAgentStateAction st t"
| "with_thought t (TaskTrackingAction c ts s) = TaskTrackingAction c ts t"
| "with_thought t a = a"

definition combine_thought :: "string \<Rightarrow> action \<Rightarrow> action" where
  "combine_thought thought a =
     (case action_thought a of
        None \<Rightarrow> a
      | Some old \<Rightarrow> if thought \<noteq> [] \<and> old \<noteq> [] then with_thought (thought @ nl # old) a
                    else if thought \<noteq> [] then with_thought thought a else a)"

fun text_parts :: "json list \<Rightarrow> string res" where
  \<comment> \<open>the texts of a content that is a list of parts\<close>
  "text_parts [] = Inr []"
| "text_parts (p # ps) = bind_res (a_item ''type'' p) (\<lambda>ty.
     if ty = JStr ''text'' then bind_res (a_item ''text'' p) (\<lambda>t.
       case t of JStr t \<Rightarrow> bind_res (text_parts ps) (\<lambda>ts. Inr (t @ ts))
               | _ \<Rightarrow> Inl (TypeError ''can only concatenate str to str''))
     else text_parts ps)"

definition response_thought :: "json \<Rightarrow> string res" where
  "response_thought content = (case content of JStr s \<Rightarrow> Inr s | JList ps \<Rightarrow> text_parts ps | _ \<Rightarrow> Inr [])"

section \<open>One call\<close>

definition cmd_run_call :: "calls_env \<Rightarrow> string \<Rightarrow> json \<Rightarrow> event res" where
  "cmd_run_call E tool j = need tool ''command'' j
     (bind_res (a_get ''is_input'' (JStr ''false'') j) (\<lambda>is_input. bind_res (a_item ''command'' j) (\<lambda>command.
      bind_res (dec_cmd_run [(''command'', command), (''is_input'', JBool (is_input = JStr ''true''))]) (\<lambda>a.
      bind_res (a_in ''timeout'' j) (\<lambda>has_timeout.
      bind_res (if has_timeout then bind_res (a_item ''timeout'' j) (\<lambda>v.
           case py_float E v of
             Inr q \<Rightarrow> Inr (set_hard_timeout (Some q) True (new_action a))
           | Inl (ValueError _) \<Rightarrow> Inl (FunctionCallValidationError (''Invalid float passed to 'timeout' argument: '' @ py_str v))
           | Inl err \<Rightarrow> Inl err)
         else Inr (new_action a)) (\<lambda>e.
      case ev_body e of
        Act a \<Rightarrow> bind_res (set_security_risk j a) (\<lambda>a. Inr (e\<lparr>ev_body := Act a\<rparr>))
      | Obs _ \<Rightarrow> Inr e))))))"

definition risky_call :: "json \<Rightarrow> action res \<Rightarrow> event res" where
  \<comment> \<open>the branches that end with \<open>set_security_risk\<close>\<close>
  "risky_call j r = bind_res r (\<lambda>a. bind_res (set_security_risk j a) (\<lambda>a. Inr (new_action a)))"

definition plain_call :: "action res \<Rightarrow> event res" where
  "plain_call r = bind_res r (\<lambda>a. Inr (new_action a))"

definition edit_file_call :: "string \<Rightarrow> json \<Rightarrow> action res" where
  "edit_file_call tool j = need tool ''path'' j (need tool ''content'' j
     (bind_res (a_item ''path'' j) (\<lambda>path. bind_res (a_item ''content'' j) (\<lambda>content.
      bind_res (a_get ''start'' (JInt 1) j) (\<lambda>start. bind_res (a_get ''end'' (JInt (-1)) j) (\<lambda>stop.
      bind_res (a_get ''impl_source'' (JStr (edit_source_value LLM_BASED_EDIT)) j) (\<lambda>src.
        dec_file_edit [(''path'', path), (''content'', content), (''start'', start), (''end'', stop), (''impl_source'', src)])))))))"

definition editor_params :: "string list" where
  "editor_params = [''command'', ''path'', ''file_text'', ''old_str'', ''new_str'', ''insert_line'', ''view_range'', ''security_risk'']"

fun editor_kwargs :: "calls_env \<Rightarrow> string \<Rightarrow> dict \<Rightarrow> dict res" where
  \<comment> \<open>\<open>valid_kwargs_for_editor\<close>\<close>
  "editor_kwargs E tool [] = Inr []"
| "editor_kwargs E tool ((k, v) # d) =
     (if k \<notin> set editor_params
      then Inl (FunctionCallValidationError (''Unexpected argument '' @ k @ '' in tool call '' @ tool
        @ ''. Allowed arguments are: '' @ fe_valid_params_text E))
      else bind_res (editor_kwargs E tool d) (\<lambda>d. Inr (if k = ''security_risk'' then d else (k, v) # d)))"

definition editor_call :: "calls_env \<Rightarrow> string \<Rightarrow> json \<Rightarrow> action res" where
  "editor_call E tool j = need tool ''command'' j (need tool ''path'' j
     (bind_res (a_item ''path'' j) (\<lambda>path. bind_res (a_item ''command'' j) (\<lambda>command. bind_res (as_dict j) (\<lambda>d.
      let other_kwargs = d_del ''path'' (d_del ''command'' d) in
      if command = JStr ''view''
      then dec_file_read [(''path'', path), (''impl_source'', JStr (read_source_value READ_OH_ACI)),
             (''view_range'', case d_get other_kwargs ''view_range'' of Some v \<Rightarrow> v | None \<Rightarrow> JNull)]
      else bind_res (editor_kwargs E tool (d_del ''view_range'' other_kwargs)) (\<lambda>valid.
             dec_file_edit ([(''path'', path), (''command'', command), (''impl_source'', JStr (edit_source_value EDIT_OH_ACI))]
               @ valid)))))))"

definition or_default :: "dict \<Rightarrow> string \<Rightarrow> string \<Rightarrow> string \<times> json" where
  "or_default d k v = (k, case d_get d k of Some x \<Rightarrow> x | None \<Rightarrow> JStr v)"

fun normalized_tasks :: "nat \<Rightarrow> json list \<Rightarrow> json list res" where
  "normalized_tasks i [] = Inr []"
| "normalized_tasks i (t # ts) =
     (case t of
        JObj d \<Rightarrow> bind_res (normalized_tasks (i + 1) ts) (\<lambda>rest.
          Inr (JObj [or_default d ''id'' (''task-'' @ str_of_nat (i + 1)), or_default d ''title'' ''Untitled task'',
                     or_default d ''status'' ''todo'', or_default d ''notes'' []] # rest))
      | _ \<Rightarrow> Inl (FunctionCallValidationError (''Unexpected task format in task_list: '' @ py_type t
               @ ''. Each task should be a dictionary.'')))"

definition task_call :: "string \<Rightarrow> json \<Rightarrow> (action \<times> nat option) res" where
  \<comment> \<open>beside the action the value the loop over the tasks leaves in the variable \<open>i\<close>\<close>
  "task_call tool j = need tool ''command'' j
     (bind_res (a_item ''command'' j) (\<lambda>command. bind_res (a_in ''task_list'' j) (\<lambda>listed.
      if command = JStr ''plan'' \<and> \<not> listed
      then Inl (FunctionCallValidationError (''Missing required argument '' @ quoted ''task_list'' @ '' for '' @ quoted ''plan''
        @ '' command in tool call '' @ tool))
      else bind_res (a_get ''task_list'' (JList []) j) (\<lambda>raw.
        case raw of
          JList tasks \<Rightarrow> bind_res (normalized_tasks 0 tasks) (\<lambda>ts. bind_res (as_str command) (\<lambda>c.
            Inr (TaskTrackingAction c ts [], if tasks = [] then None else Some (length tasks - 1))))
        | _ \<Rightarrow> Inl (FunctionCallValidationError (''Invalid format for '' @ quoted ''task_list''
                 @ ''. Expected a list but got '' @ py_type raw @ ''.''))))))"

section \<open>All calls\<close>

text \<open>The name of the tool decides; the second value is the one a loop of the branch leaves in the variable \<open>i\<close>.\<close>

definition tool_to_action :: "calls_env \<Rightarrow> string list \<Rightarrow> string \<Rightarrow> json \<Rightarrow> (event \<times> nat option) res" where
  "tool_to_action E mcp_tool_names tool j =
     (let alone = (\<lambda>r. bind_res r (\<lambda>e. Inr (e, None))) in
      if tool = ''execute_bash'' then alone (cmd_run_call E tool j)
      else if tool = ''execute_ipython_cell''
      then alone (need tool ''code'' j (risky_call j (bind_res (a_item ''code'' j) (\<lambda>c. dec_ipython [(''code'', c)]))))
      else if tool = ''delegate_to_browsing_agent''
      then alone (plain_call (bind_res (as_dict j) (\<lambda>d. Inr (AgentDelegateAction ''BrowsingAgent'' d []))))
      else if tool = ''finish''
      then alone (plain_call (bind_res (a_get ''message'' (JStr []) j) (\<lambda>m. bind_res (as_str m) (\<lambda>m. Inr (AgentFinishAction m [] [])))))
      else if tool = ''edit_file'' then alone (plain_call (edit_file_call tool j))
      else if tool = ''str_replace_editor'' then alone (risky_call j (editor_call E tool j))
      else if tool = ''think''
      then alone (plain_call (bind_res (a_get ''thought'' (JStr []) j) (\<lambda>t. bind_res (as_str t) (\<lambda>t. Inr (AgentThinkAction t)))))
      else if tool = ''request_condensation'' then alone (plain_call (Inr CondensationRequestAction))
      else if tool = ''browser''
      then alone (need tool ''code'' j (risky_call j
             (bind_res (a_item ''code'' j) (\<lambda>c. dec_browse_interactive [(''browser_actions'', c)]))))
      else if tool = ''task_tracker'' then bind_res (task_call tool j) (\<lambda>(a, i). Inr (new_action a, i))
      else if tool \<in> set mcp_tool_names
      then alone (plain_call (bind_res (as_dict j) (\<lambda>d. dec_mcp [(''name'', JStr tool), (''arguments'', JObj d)])))
      else Inl (FunctionCallNotExistsError (''Tool '' @ tool @ '' is not registered. (arguments: '' @ py_str j
             @ ''). Please check the tool name and retry with an existing tool.'')))"

definition call_metadata :: "calls_env \<Rightarrow> model_response \<Rightarrow> tool_call list \<Rightarrow> tool_call \<Rightarrow> tool_call_metadata" where
  "call_metadata E response tool_calls tc =
     \<lparr>tc_function_name = tl_name tc, tc_tool_call_id = tl_id tc, tc_model_response = fe_dump E response,
      tc_total_calls_in_response = int (length tool_calls)\<rparr>"

definition parsed_arguments :: "calls_env \<Rightarrow> tool_call \<Rightarrow> json res" where
  "parsed_arguments E tc =
     (case fe_loads E (tl_arguments tc) of
        None \<Rightarrow> Inl (FunctionCallValidationError (''Failed to parse tool call arguments: '' @ tl_arguments tc))
      | Some j \<Rightarrow> Inr j)"

definition combine_event :: "string \<Rightarrow> event \<Rightarrow> event" where
  "combine_event thought e = (case ev_body e of Act a \<Rightarrow> e\<lparr>ev_body := Act (combine_thought thought a)\<rparr> | Obs _ \<Rightarrow> e)"

text \<open>
  The loop over the calls, for the parser of the arguments and the table of the tools of an agent. An inner loop may have
  changed \<open>i\<close> when the thought is added.
\<close>

fun call_loop ::
  "(tool_call \<Rightarrow> json res) \<Rightarrow> (string \<Rightarrow> json \<Rightarrow> (event \<times> nat option) res) \<Rightarrow> string \<Rightarrow> (tool_call \<Rightarrow> tool_call_metadata)
     \<Rightarrow> nat \<Rightarrow> tool_call list \<Rightarrow> event list res" where
  "call_loop parse tool thought metadata i [] = Inr []"
| "call_loop parse tool thought metadata i (tc # tcs) =
     bind_res (parse tc) (\<lambda>j.
     bind_res (tool (tl_name tc) j) (\<lambda>(e, inner).
       let i' = (case inner of Some n \<Rightarrow> n | None \<Rightarrow> i);
           e = (if i' = 0 then combine_event thought e else e);
           e = e\<lparr>ev_tool_call_metadata := Some (metadata tc)\<rparr>
       in bind_res (call_loop parse tool thought metadata (i + 1) tcs) (\<lambda>es. Inr (e # es))))"

definition reply_message :: "json \<Rightarrow> event" where
  \<comment> \<open>the message for a response without calls\<close>
  "reply_message content = new_action (MessageAction
     \<lparr>ma_content = (if py_truthy content then py_str content else []), ma_file_urls = None, ma_image_urls = None,
      ma_wait_for_response = True, ma_security_risk = Some RISK_UNKNOWN\<rparr>)"

definition actions_of_response ::
  "calls_env \<Rightarrow> (tool_call \<Rightarrow> json res) \<Rightarrow> (string \<Rightarrow> json \<Rightarrow> (event \<times> nat option) res) \<Rightarrow> model_response \<Rightarrow> event list res" where
  "actions_of_response E parse tool response =
     (case mr_choices response of
        [am] \<Rightarrow>
          bind_res
            (case am_tool_calls am of
               Some (tc # tcs) \<Rightarrow>
                 bind_res (response_thought (am_content am)) (\<lambda>thought.
                   call_loop parse tool thought (call_metadata E response (tc # tcs)) 0 (tc # tcs))
             | _ \<Rightarrow> Inr [reply_message (am_content am)])
            (\<lambda>es. Inr (map (\<lambda>e. e\<lparr>ev_response_id := Some (mr_id response)\<rparr>) es))
      | _ \<Rightarrow> Inl AssertionError)"

definition response_to_actions :: "calls_env \<Rightarrow> string list \<Rightarrow> model_response \<Rightarrow> event list res" where
  "response_to_actions E mcp_tool_names = actions_of_response E (parsed_arguments E) (tool_to_action E mcp_tool_names)"

end
