(* ===== verification/ConversationMemory.thy ===== *)
theory ConversationMemory
  imports Messages
begin

text \<open>
  From the condensed history to the messages for the model (\<open>openhands/memory/conversation_memory.py\<close>).

  The record \<open>memory_env\<close> holds the configuration and what is not code of this class: the attributes of the LiteLLM
  response in the metadata of a tool call, the templates of the prompt manager and the text \<open>str\<close> gives for
  an event. A finished action loses its metadata on the way, which changes the event itself: the operations
  return the events beside the messages.
\<close>

record repository_info =
  ri_repo_name :: string
  ri_repo_directory :: string
  ri_branch_name :: "string option"

record runtime_info =
  rn_date :: string
  rn_available_hosts :: "(string \<times> int) list"
  rn_additional_agent_instructions :: string
  rn_custom_secrets_descriptions :: "(string \<times> string) list"
  rn_working_dir :: string

record memory_env =
  me_response :: "json \<Rightarrow> model_response"
  me_str :: "event \<Rightarrow> string"
  me_version :: string
  me_system_prompt :: "bool \<Rightarrow> string"
  me_workspace_context :: "repository_info option \<Rightarrow> runtime_info \<Rightarrow> string option \<Rightarrow> string \<Rightarrow> string"
  me_microagent_info :: "microagent_knowledge list \<Rightarrow> string"
  me_cli_mode :: bool
  me_enable_prompt_extensions :: bool
  me_disabled_microagents :: "string list"
  me_enable_som_visual_browsing :: bool

section \<open>Actions\<close>

definition assistant_message_of :: "memory_env \<Rightarrow> tool_call_metadata \<Rightarrow> assistant_message res" where
  "assistant_message_of M t = py_get (mr_choices (me_response M (tc_model_response t))) 0"

text \<open>\<open>content and content.strip()\<close>, as the list of contents it gives\<close>

definition assistant_content :: "json \<Rightarrow> content_item list res" where
  "assistant_content c =
     (case c of
        JNull \<Rightarrow> Inr []
      | JStr s \<Rightarrow> Inr (if s \<noteq> [] \<and> py_strip s \<noteq> [] then [text_item s] else [])
      | JList [] \<Rightarrow> Inr []
      | _ \<Rightarrow> Inl (AttributeError ''strip''))"

definition tool_based :: "event \<Rightarrow> action \<Rightarrow> bool" where
  "tool_based e a =
     (case a of
        AgentDelegateAction _ _ _ \<Rightarrow> True | AgentThinkAction _ \<Rightarrow> True | IPythonRunCellAction _ \<Rightarrow> True
      | FileEditAction _ \<Rightarrow> True | FileReadAction _ \<Rightarrow> True | BrowseInteractiveAction _ \<Rightarrow> True
      | BrowseURLAction _ \<Rightarrow> True | MCPAction _ \<Rightarrow> True | TaskTrackingAction _ _ _ \<Rightarrow> True
      | CmdRunAction _ \<Rightarrow> ev_source e = Some AGENT
      | _ \<Rightarrow> False)"

text \<open>The table of the messages that wait for their results, by the id of their response.\<close>

type_synonym waiting = "(string \<times> msg) list"

definition wait_for_tools :: "memory_env \<Rightarrow> tool_call_metadata \<Rightarrow> waiting \<Rightarrow> waiting res" where
  "wait_for_tools M t pending =
     bind_res (assistant_message_of M t) (\<lambda>am. bind_res (assistant_content (am_content am)) (\<lambda>content.
     bind_res (role_of (am_role am)) (\<lambda>r.
       Inr (d_set (mr_id (me_response M (tc_model_response t)))
         ((new_msg r content)\<lparr>mg_tool_calls := am_tool_calls am\<rparr>) pending))))"

definition settled_thought :: "memory_env \<Rightarrow> tool_call_metadata option \<Rightarrow> string \<Rightarrow> string res" where
  \<comment> \<open>the thought of a finish action with the content of its response\<close>
  "settled_thought M t thought =
     (case t of
        None \<Rightarrow> Inr thought
      | Some t \<Rightarrow> bind_res (assistant_message_of M t) (\<lambda>am.
          bind_res (case am_content am of JNull \<Rightarrow> Inr [] | JList [] \<Rightarrow> Inr [] | c \<Rightarrow> as_str c) (\<lambda>content.
            Inr (if thought = [] then content else if thought \<noteq> content then thought @ nl # content else thought))))"

fun image_contents :: "bool \<Rightarrow> nat \<Rightarrow> string list \<Rightarrow> content_item list" where
  "image_contents vision i [] = []"
| "image_contents vision i (u # us) =
     (if vision then [text_item (''Image '' @ str_of_nat (i + 1) @ '':'')] else [])
     @ image_item [u] # image_contents vision (i + 1) us"

definition message_msg :: "bool \<Rightarrow> event \<Rightarrow> message_action \<Rightarrow> msg" where
  "message_msg vision e r =
     (let role = (if ev_source e = Some USER then R_user else R_assistant);
          images = (case ma_image_urls r of None \<Rightarrow> [] | Some us \<Rightarrow> us)
      in new_msg role (text_item (ma_content r) #
           (if images = [] then [] else if role = R_user then image_contents vision 0 images else [image_item images])))"

definition process_action ::
  "memory_env \<Rightarrow> bool \<Rightarrow> waiting \<Rightarrow> event \<Rightarrow> action \<Rightarrow> (event \<times> waiting \<times> msg list) res" where
  "process_action M vision pending e a =
     (if tool_based e a then
        (case ev_tool_call_metadata e of
           None \<Rightarrow>
             if ev_source e = Some USER
             then Inr (e, pending, [new_msg R_user [text_item (''User requested to read file: '' @ me_str M e)]])
             else Inl AssertionError
         | Some t \<Rightarrow> bind_res (wait_for_tools M t pending) (\<lambda>pending. Inr (e, pending, [])))
      else case a of
        AgentFinishAction final_thought outputs thought \<Rightarrow>
          bind_res (settled_thought M (ev_tool_call_metadata e) thought) (\<lambda>thought.
            Inr (e\<lparr>ev_body := Act (AgentFinishAction final_thought outputs thought), ev_tool_call_metadata := None\<rparr>, pending,
              [new_msg (if ev_source e = Some USER then R_user else R_assistant) [text_item thought]]))
      | MessageAction r \<Rightarrow> Inr (e, pending, [message_msg vision e r])
      | CmdRunAction r \<Rightarrow>
          Inr (e, pending,
            if ev_source e = Some USER
            then [new_msg R_user [text_item (''User executed the command:'' @ nl # cr_command r)]] else [])
      | SystemMessageAction r \<Rightarrow> Inr (e, pending, [new_msg R_system [text_item (sm_content r)]])
      | _ \<Rightarrow> Inr (e, pending, []))"

section \<open>Observations\<close>

definition user_text :: "string \<Rightarrow> msg" where "user_text s = new_msg R_user [text_item s]"

definition is_valid_image_url :: "string \<Rightarrow> bool" where
  "is_valid_image_url url = (url \<noteq> [] \<and> py_strip url \<noteq> [])"

definition image_marker :: string where "image_marker = ''![image](data:image/png;base64,''"

definition without_images :: "string \<Rightarrow> string" where
  "without_images text = py_join [nl] (map (\<lambda>line.
     if py_contains line image_marker then image_marker @ '' ...) already displayed to user'' else line) (py_split nl text))"

definition ipython_msg :: "int option \<Rightarrow> bool \<Rightarrow> ipython_observation \<Rightarrow> msg" where
  "ipython_msg max_chars vision r =
     (let text = truncate_content (without_images (io_content r)) max_chars;
          urls = (case io_image_urls r of None \<Rightarrow> [] | Some us \<Rightarrow> us);
          valid = filter is_valid_image_url urls;
          invalid_count = length urls - length valid
      in if urls = [] then user_text text
         else if valid \<noteq> []
         then new_msg R_user
           [text_item (text @ (if vision \<and> 0 < invalid_count
              then [nl, nl] @ ''Note: '' @ str_of_nat invalid_count @ '' invalid or empty image(s) were filtered from this output. ''
                   @ ''The agent may need to use alternative methods to access visual information.''
              else [])),
            image_item valid]
         else user_text (text @ (if vision
              then [nl, nl] @ ''Note: All '' @ str_of_nat (length urls) @ '' image(s) in this output were invalid or empty and ''
                   @ ''have been filtered. The agent should use alternative methods to access visual information.''
              else [])))"

definition browser_msg :: "bool \<Rightarrow> bool \<Rightarrow> browser_output_observation \<Rightarrow> msg" where
  "browser_msg vision som r =
     (if bo_trigger_by_action r = ''browse_interactive'' \<and> som then
        let text = bo_content r @ (if vision
              then ''Image: Current webpage screenshot (Note that only visible portion of webpage is present in the ''
                   @ ''screenshot. However, the Accessibility tree contains information from the entire webpage.)'' @ [nl]
              else []);
            (image_url, image_type) =
              (if bo_set_of_marks r \<noteq> [] then (bo_set_of_marks r, ''set of marks'') else (bo_screenshot r, ''screenshot''))
        in if is_valid_image_url image_url then new_msg R_user [text_item text, image_item [image_url]]
           else if vision \<and> image_url \<noteq> []
           then user_text (text @ [nl, nl] @ ''Note: The '' @ image_type @ '' for this webpage was invalid or empty and has been ''
             @ ''filtered. The agent should use alternative methods to access visual information about the webpage.'')
           else if vision
           then user_text (text @ [nl, nl] @ ''Note: No visual information (screenshot or set of marks) is available for this ''
             @ ''webpage. The agent should rely on the text content above.'')
           else user_text text
      else user_text (bo_content r))"

definition delegate_text :: "string \<Rightarrow> dict \<Rightarrow> string res" where
  "delegate_text content outputs = (case d_get outputs ''content'' of None \<Rightarrow> Inr content | Some j \<Rightarrow> as_str j)"

subsection \<open>Recalled knowledge\<close>

definition knowledge_of :: "event \<Rightarrow> microagent_knowledge list" where
  "knowledge_of e = (case ev_body e of Obs (RecallObservation r) \<Rightarrow> ro_microagent_knowledge r | _ \<Rightarrow> [])"

definition has_agent_in_earlier_events :: "string \<Rightarrow> event list \<Rightarrow> bool" where
  \<comment> \<open>the list is the part of the events before the current one\<close>
  "has_agent_in_earlier_events nm earlier = list_ex (\<lambda>e. list_ex (\<lambda>k. mk_name k = nm) (knowledge_of e)) earlier"

definition filter_agents_in_microagent_obs :: "recall_observation \<Rightarrow> event list \<Rightarrow> microagent_knowledge list" where
  "filter_agents_in_microagent_obs r earlier =
     (if ro_recall_type r \<noteq> KNOWLEDGE then ro_microagent_knowledge r
      else filter (\<lambda>k. \<not> has_agent_in_earlier_events (mk_name k) earlier) (ro_microagent_knowledge r))"

definition enabled_agents :: "memory_env \<Rightarrow> microagent_knowledge list \<Rightarrow> microagent_knowledge list" where
  "enabled_agents M ks = filter (\<lambda>k. mk_name k \<notin> set (me_disabled_microagents M)) ks"

definition workspace_contents :: "memory_env \<Rightarrow> recall_observation \<Rightarrow> content_item list" where
  \<comment> \<open>the contents for a recall of the workspace\<close>
  "workspace_contents M r =
     (let repo_info = (if ro_repo_name r \<noteq> [] \<or> ro_repo_directory r \<noteq> []
            then Some \<lparr>ri_repo_name = ro_repo_name r, ri_repo_directory = ro_repo_directory r,
                       ri_branch_name = (if ro_repo_branch r = [] then None else Some (ro_repo_branch r))\<rparr>
            else None);
          full = (ro_runtime_hosts r \<noteq> [] \<or> ro_additional_agent_instructions r \<noteq> []);
          runtime_info = \<lparr>rn_date = ro_date r, rn_available_hosts = (if full then ro_runtime_hosts r else []),
            rn_additional_agent_instructions = (if full then ro_additional_agent_instructions r else []),
            rn_custom_secrets_descriptions = ro_custom_secrets_descriptions r, rn_working_dir = ro_working_dir r\<rparr>;
          conversation_instructions =
            (if ro_conversation_instructions r = [] then None else Some (ro_conversation_instructions r));
          has_context = (repo_info \<noteq> None \<or> rn_date runtime_info \<noteq> [] \<or> rn_custom_secrets_descriptions runtime_info \<noteq> []
            \<or> py_strip (ro_repo_instructions r) \<noteq> [] \<or> conversation_instructions \<noteq> None);
          agents = enabled_agents M (ro_microagent_knowledge r)
      in (if has_context
          then [text_item (me_workspace_context M repo_info runtime_info conversation_instructions (ro_repo_instructions r))]
          else [])
         @ (if agents \<noteq> [] then [text_item (me_microagent_info M agents)] else []))"

text \<open>
  What becomes of an observation: a message that may still turn into the response of a tool, or the final list.
\<close>

datatype observed = Message msg | Final "msg list"

definition recall_observed :: "memory_env \<Rightarrow> event list \<Rightarrow> recall_observation \<Rightarrow> observed res" where
  "recall_observed M earlier r =
     (if \<not> me_enable_prompt_extensions M then Inr (Final [])
      else case ro_recall_type r of
        WORKSPACE_CONTEXT \<Rightarrow>
          (let content = workspace_contents M r in Inr (if content = [] then Final [] else Message (new_msg R_user content)))
      | KNOWLEDGE \<Rightarrow>
          (let agents = enabled_agents M (filter_agents_in_microagent_obs r earlier)
           in Inr (Final (if agents = [] then [] else [user_text (me_microagent_info M agents)])))
      | OtherRecallType _ \<Rightarrow> Inl (OtherError ''UnboundLocalError'' ''message''))"

definition observed_as ::
  "memory_env \<Rightarrow> int option \<Rightarrow> bool \<Rightarrow> event list \<Rightarrow> event \<Rightarrow> observation \<Rightarrow> observed res" where
  "observed_as M max_chars vision earlier e ob =
     (let short = (\<lambda>s. truncate_content s max_chars) in
      case ob of
        CmdOutputObservation r \<Rightarrow>
          Inr (Message (user_text (short
            (if ev_tool_call_metadata e = None
             then nl # ''Observed result of command executed by user:'' @ nl # to_agent_observation r
             else to_agent_observation r))))
      | MCPObservation c _ _ \<Rightarrow> Inr (Message (user_text (short c)))
      | IPythonRunCellObservation r \<Rightarrow> Inr (Message (ipython_msg max_chars vision r))
      | FileEditObservation _ \<Rightarrow> Inr (Message (user_text (short (me_str M e))))
      | FileReadObservation c _ _ \<Rightarrow> Inr (Message (user_text c))
      | BrowserOutputObservation r \<Rightarrow> Inr (Message (browser_msg vision (me_enable_som_visual_browsing M) r))
      | AgentDelegateObservation c outputs \<Rightarrow> bind_res (delegate_text c outputs) (\<lambda>s. Inr (Message (user_text (short s))))
      | AgentThinkObservation c \<Rightarrow> Inr (Message (user_text (short c)))
      | TaskTrackingObservation c _ _ \<Rightarrow> Inr (Message (user_text (short c)))
      | ErrorObservation c _ \<Rightarrow> Inr (Message (user_text (short c @ nl # ''[Error occurred in processing last action]'')))
      | UserRejectObservation c \<Rightarrow> Inr (Message (user_text
          (''OBSERVATION:'' @ nl # short c @ nl # ''[Last action has been rejected by the user]'')))
      | AgentCondensationObservation c \<Rightarrow> Inr (Message (user_text (short c)))
      | FileDownloadObservation c _ \<Rightarrow> Inr (Message (user_text (short c)))
      | LoopDetectionObservation _ \<Rightarrow> Inr (Final [])
      | RecallObservation r \<Rightarrow> recall_observed M earlier r
      | _ \<Rightarrow> Inl (ValueError ''Unknown observation type''))"

text \<open>The table of the responses that wait for the other calls of their message, by the id of the call.\<close>

type_synonym responses = "(string \<times> msg) list"

definition tool_msg :: "tool_call_metadata \<Rightarrow> msg \<Rightarrow> msg" where
  "tool_msg t m = (new_msg R_tool (mg_content m))\<lparr>mg_tool_call_id := Some (tc_tool_call_id t), mg_name := Some (tc_function_name t)\<rparr>"

definition process_observation ::
  "memory_env \<Rightarrow> int option \<Rightarrow> bool \<Rightarrow> event list \<Rightarrow> responses \<Rightarrow> event \<Rightarrow> observation \<Rightarrow> (responses \<times> msg list) res" where
  "process_observation M max_chars vision earlier tools e ob =
     bind_res (observed_as M max_chars vision earlier e ob) (\<lambda>r.
       Inr (case r of
              Final ms \<Rightarrow> (tools, ms)
            | Message m \<Rightarrow>
                (case ev_tool_call_metadata e of
                   None \<Rightarrow> (tools, [m])
                 | Some t \<Rightarrow> (d_set (tc_tool_call_id t) (tool_msg t m) tools, []))))"

section \<open>All events\<close>

fun take_results :: "tool_call list \<Rightarrow> responses \<Rightarrow> (msg list \<times> responses) res" where
  "take_results [] tools = Inr ([], tools)"
| "take_results (tc # tcs) tools =
     (case d_get tools (tl_id tc) of
        None \<Rightarrow> Inl (KeyError (tl_id tc))
      | Some m \<Rightarrow> bind_res (take_results tcs (d_del (tl_id tc) tools)) (\<lambda>(ms, tools). Inr (m # ms, tools)))"

fun complete_calls :: "waiting \<Rightarrow> responses \<Rightarrow> (waiting \<times> msg list \<times> responses) res" where
  \<comment> \<open>the pass over the waiting messages after each event\<close>
  "complete_calls [] tools = Inr ([], [], tools)"
| "complete_calls ((response_id, m) # pending) tools =
     (case mg_tool_calls m of
        None \<Rightarrow> Inl AssertionError
      | Some tcs \<Rightarrow>
          if list_all (\<lambda>tc. d_has tools (tl_id tc)) tcs
          then bind_res (take_results tcs tools) (\<lambda>(results, tools).
               bind_res (complete_calls pending tools) (\<lambda>(pending, ms, tools). Inr (pending, m # results @ ms, tools)))
          else bind_res (complete_calls pending tools) (\<lambda>(pending, ms, tools). Inr ((response_id, m) # pending, ms, tools)))"

definition process_event ::
  "memory_env \<Rightarrow> int option \<Rightarrow> bool \<Rightarrow> event list \<Rightarrow> waiting \<Rightarrow> responses \<Rightarrow> event
     \<Rightarrow> (event \<times> waiting \<times> responses \<times> msg list) res" where
  "process_event M max_chars vision earlier pending tools e =
     (case ev_body e of
        Act a \<Rightarrow> bind_res (process_action M vision pending e a) (\<lambda>(e, pending, ms). Inr (e, pending, tools, ms))
      | Obs ob \<Rightarrow> bind_res (process_observation M max_chars vision earlier tools e ob) (\<lambda>(tools, ms). Inr (e, pending, tools, ms)))"

fun process_loop ::
  "memory_env \<Rightarrow> int option \<Rightarrow> bool \<Rightarrow> event list \<Rightarrow> waiting \<Rightarrow> responses \<Rightarrow> event list \<Rightarrow> event list \<times> msg list res" where
  "process_loop M max_chars vision earlier pending tools [] = ([], Inr [])"
| "process_loop M max_chars vision earlier pending tools (e # es) =
     (case process_event M max_chars vision earlier pending tools e of
        Inl err \<Rightarrow> (e # es, Inl err)
      | Inr (e, pending, tools, ms) \<Rightarrow>
          (case complete_calls pending tools of
             Inl err \<Rightarrow> (e # es, Inl err)
           | Inr (pending, completed, tools) \<Rightarrow>
               (case process_loop M max_chars vision (earlier @ [e]) pending tools es of
                  (es, r) \<Rightarrow> (e # es, bind_res r (\<lambda>rest. Inr (ms @ completed @ rest))))))"

section \<open>The final passes\<close>

definition calls_of :: "msg \<Rightarrow> string list" where
  "calls_of m = (if mg_role m = R_assistant
     then (case mg_tool_calls m of None \<Rightarrow> [] | Some tcs \<Rightarrow> filter (\<lambda>i. i \<noteq> []) (map tl_id tcs)) else [])"

definition answers_of :: "msg \<Rightarrow> string list" where
  "answers_of m = (if mg_role m = R_tool
     then (case mg_tool_call_id m of None \<Rightarrow> [] | Some i \<Rightarrow> if i = [] then [] else [i]) else [])"

definition call_ids :: "msg list \<Rightarrow> string list" where
  \<comment> \<open>\<open>tool_call_ids\<close>\<close>
  "call_ids ms = concat (map calls_of ms)"

definition response_ids :: "msg list \<Rightarrow> string list" where
  \<comment> \<open>\<open>tool_response_ids\<close>\<close>
  "response_ids ms = concat (map answers_of ms)"

definition keep_matched :: "string list \<Rightarrow> string list \<Rightarrow> msg \<Rightarrow> msg list" where
  "keep_matched calls answers m =
     (if mg_role m = R_tool \<and> mg_tool_call_id m \<noteq> None \<and> mg_tool_call_id m \<noteq> Some []
      then if the (mg_tool_call_id m) \<in> set calls then [m] else []
      else if mg_role m = R_assistant \<and> mg_tool_calls m \<noteq> None \<and> mg_tool_calls m \<noteq> Some []
      then let tcs = the (mg_tool_calls m); matched = filter (\<lambda>tc. tl_id tc \<in> set answers) tcs in
           if list_all (\<lambda>tc. tl_id tc \<in> set answers) tcs then [m]
           else if matched \<noteq> [] then [m\<lparr>mg_tool_calls := Some matched\<rparr>] else []
      else [m])"

definition filter_unmatched_tool_calls :: "msg list \<Rightarrow> msg list" where
  "filter_unmatched_tool_calls ms = concat (map (keep_matched (call_ids ms) (response_ids ms)) ms)"

fun separate_text :: "content_item list \<Rightarrow> content_item list" where
  \<comment> \<open>two newlines before the first text\<close>
  "separate_text [] = []"
| "separate_text (TextContent s c # cs) = TextContent ([nl, nl] @ s) c # cs"
| "separate_text (ImageContent us c # cs) = ImageContent us c # separate_text cs"

fun apply_user_message_formatting :: "role option \<Rightarrow> msg list \<Rightarrow> msg list" where
  "apply_user_message_formatting prev [] = []"
| "apply_user_message_formatting prev (m # ms) =
     (if mg_role m = R_user \<and> prev = Some R_user then m\<lparr>mg_content := separate_text (mg_content m)\<rparr> else m)
     # apply_user_message_formatting (Some (mg_role m)) ms"

definition ensure_system_message :: "memory_env \<Rightarrow> event list \<Rightarrow> event list" where
  "ensure_system_message M events =
     (if list_ex (is_system_message \<circ> ev_body) events then events
      else let prompt = me_system_prompt M (me_cli_mode M) in
           if prompt = [] then events
           else new_action (SystemMessageAction
             \<lparr>sm_content = prompt, sm_tools = None, sm_openhands_version = Some (me_version M), sm_agent_class = None\<rparr>) # events)"

definition ensure_initial_user_message :: "event \<Rightarrow> event list \<Rightarrow> event list" where
  "ensure_initial_user_message initial events =
     (case events of
        [] \<Rightarrow> []
      | [e] \<Rightarrow> [e, initial]
      | e # e' # es \<Rightarrow> if is_user_message e' then events else e # initial # e' # es)"

definition process_events ::
  "memory_env \<Rightarrow> event list \<Rightarrow> event \<Rightarrow> int option \<Rightarrow> bool \<Rightarrow> event list \<times> msg list res" where
  "process_events M history initial max_chars vision =
     (let events = ensure_initial_user_message initial (ensure_system_message M history) in
      case process_loop M max_chars vision [] [] [] events of
        (events, r) \<Rightarrow>
          (events, bind_res r (\<lambda>ms. Inr (apply_user_message_formatting None (filter_unmatched_tool_calls ms)))))"

section \<open>Marks for the prompt cache\<close>

fun mark_last :: "content_item list \<Rightarrow> content_item list res" where
  "mark_last [] = Inl IndexError"
| "mark_last [TextContent s _] = Inr [TextContent s True]"
| "mark_last [ImageContent us _] = Inr [ImageContent us True]"
| "mark_last (c # cs) = bind_res (mark_last cs) (\<lambda>cs. Inr (c # cs))"

definition mark_message :: "msg \<Rightarrow> msg res" where
  "mark_message m = bind_res (mark_last (mg_content m)) (\<lambda>cs. Inr (m\<lparr>mg_content := cs\<rparr>))"

fun mark_first_request :: "msg list \<Rightarrow> msg list res" where
  \<comment> \<open>over the reversed messages\<close>
  "mark_first_request [] = Inr []"
| "mark_first_request (m # ms) =
     (if mg_role m = R_user \<or> mg_role m = R_tool then bind_res (mark_message m) (\<lambda>m. Inr (m # ms))
      else bind_res (mark_first_request ms) (\<lambda>ms. Inr (m # ms)))"

definition apply_prompt_caching :: "msg list \<Rightarrow> msg list res" where
  "apply_prompt_caching ms =
     bind_res (case ms of
         m # rest \<Rightarrow> if mg_role m = R_system then bind_res (mark_message m) (\<lambda>m. Inr (m # rest)) else Inr ms
       | [] \<Rightarrow> Inr []) (\<lambda>ms.
     bind_res (mark_first_request (rev ms)) (\<lambda>ms. Inr (rev ms)))"

end
