(* ===== verification/MemoryLaws.thy ===== *)
theory MemoryLaws
  imports ConversationMemory
begin

text \<open>
  What the model is sent: every call of a tool is followed at once by its results, the prompt starts with the system
  message and a message of the user, and a history without gaps always gives a prompt.
\<close>

section \<open>Matching calls and results\<close>

definition calling :: "msg \<Rightarrow> bool" where
  "calling m = (mg_role m = R_assistant \<and> mg_tool_calls m \<noteq> None \<and> mg_tool_calls m \<noteq> Some [])"

definition answering :: "msg \<Rightarrow> bool" where
  "answering m = (mg_role m = R_tool \<and> mg_tool_call_id m \<noteq> None \<and> mg_tool_call_id m \<noteq> Some [])"

lemma keep_matched_cases:
  "answering m \<Longrightarrow> keep_matched c a m = (if the (mg_tool_call_id m) \<in> set c then [m] else [])"
  "calling m \<Longrightarrow> keep_matched c a m =
     (let matched = filter (\<lambda>tc. tl_id tc \<in> set a) (the (mg_tool_calls m)) in
      if matched = [] then [] else [m\<lparr>mg_tool_calls := Some matched\<rparr>])"
  "\<not> answering m \<Longrightarrow> \<not> calling m \<Longrightarrow> keep_matched c a m = [m]"
proof -
  show "calling m \<Longrightarrow> keep_matched c a m =
     (let matched = filter (\<lambda>tc. tl_id tc \<in> set a) (the (mg_tool_calls m)) in
      if matched = [] then [] else [m\<lparr>mg_tool_calls := Some matched\<rparr>])"
    by (cases m) (auto simp: keep_matched_def calling_def Let_def list_all_iff cong: filter_cong)
qed (auto simp: keep_matched_def answering_def calling_def)

lemma calls_of_simps:
  "calling m \<Longrightarrow> calls_of m = filter (\<lambda>i. i \<noteq> []) (map tl_id (the (mg_tool_calls m)))"
  "\<not> calling m \<Longrightarrow> calls_of m = []"
  by (auto simp: calling_def calls_of_def split: option.split)

lemma answers_of_simps:
  "answering m \<Longrightarrow> answers_of m = [the (mg_tool_call_id m)]"
  "\<not> answering m \<Longrightarrow> answers_of m = []"
  by (auto simp: answering_def answers_of_def split: option.split)

lemma one_kind: "calling m \<Longrightarrow> \<not> answering m"
  by (simp add: calling_def answering_def)

lemma calls_of_kept:
  assumes "[] \<notin> set a"
  shows "call_ids (keep_matched c a m) = filter (\<lambda>i. i \<in> set a) (calls_of m)"
proof (cases "calling m")
  case True
  have one: "filter (\<lambda>i. i \<in> set a) (filter (\<lambda>i. i \<noteq> []) (map tl_id tcs)) = map tl_id (filter (\<lambda>tc. tl_id tc \<in> set a) tcs)"
    and two: "filter (\<lambda>i. i \<noteq> []) (map tl_id (filter (\<lambda>tc. tl_id tc \<in> set a) tcs)) = map tl_id (filter (\<lambda>tc. tl_id tc \<in> set a) tcs)" for tcs
    using assms by (induction tcs) auto
  have "calls_of (m\<lparr>mg_tool_calls := Some tcs\<rparr>) = filter (\<lambda>i. i \<noteq> []) (map tl_id tcs)" for tcs
    using True by (simp add: calls_of_def calling_def)
  then show ?thesis
    unfolding calls_of_simps(1) [OF True] one keep_matched_cases(2) [OF True] call_ids_def Let_def by (simp add: two)
next
  case False
  then show ?thesis
    by (cases "answering m") (simp_all add: keep_matched_cases calls_of_simps call_ids_def)
qed

lemma answers_of_kept: "response_ids (keep_matched c a m) = filter (\<lambda>i. i \<in> set c) (answers_of m)"
proof (cases "calling m")
  case True
  then show ?thesis
    by (simp add: keep_matched_cases(2) one_kind answers_of_simps response_ids_def Let_def)
      (simp add: answers_of_def calling_def)
next
  case False
  then show ?thesis
    by (cases "answering m") (simp_all add: keep_matched_cases answers_of_simps response_ids_def)
qed

lemma ids_concat:
  "call_ids (concat (map f ms)) = concat (map (\<lambda>m. call_ids (f m)) ms)"
  "response_ids (concat (map f ms)) = concat (map (\<lambda>m. response_ids (f m)) ms)"
  by (induction ms) (simp_all add: call_ids_def response_ids_def)

lemma response_ids_named: "[] \<notin> set (response_ids ms)"
  by (auto simp: response_ids_def answers_of_def split: option.splits if_splits)

lemma concat_map_filter: "concat (map (\<lambda>m. filter P (f m)) ms) = filter P (concat (map f ms))"
  by (induction ms) simp_all

lemma ids_filtered:
  "call_ids (filter_unmatched_tool_calls ms) = filter (\<lambda>i. i \<in> set (response_ids ms)) (call_ids ms)"
  "response_ids (filter_unmatched_tool_calls ms) = filter (\<lambda>i. i \<in> set (call_ids ms)) (response_ids ms)"
  unfolding filter_unmatched_tool_calls_def ids_concat calls_of_kept [OF response_ids_named] answers_of_kept concat_map_filter
  by (simp_all add: call_ids_def response_ids_def)

text \<open>A message is kept as it is when its calls are answered and its answer is asked for.\<close>

definition answered_by :: "string list \<Rightarrow> msg \<Rightarrow> bool" where
  "answered_by a m = (calling m \<longrightarrow> (\<forall>tc \<in> set (the (mg_tool_calls m)). tl_id tc \<in> set a))"

lemma keep_matched_all:
  assumes "answered_by a m" and "set (answers_of m) \<subseteq> set c"
  shows "keep_matched c a m = [m]"
proof (cases "calling m")
  case True
  then obtain tcs where tcs: "mg_tool_calls m = Some tcs" "tcs \<noteq> []" by (auto simp: calling_def)
  with True assms(1) have "filter (\<lambda>tc. tl_id tc \<in> set a) tcs = tcs" by (simp add: answered_by_def)
  with tcs True show ?thesis by (cases m) (simp add: keep_matched_cases(2))
next
  case False
  with assms(2) show ?thesis
    by (cases "answering m") (simp_all add: keep_matched_cases answers_of_simps)
qed

lemma kept_answered:
  assumes "m' \<in> set (keep_matched c a m)"
  shows "answered_by a m'"
proof (cases "calling m")
  case True
  with assms show ?thesis by (auto simp: keep_matched_cases(2) answered_by_def Let_def split: if_splits)
next
  case False
  with assms show ?thesis by (cases "answering m") (auto simp: keep_matched_cases answered_by_def split: if_splits)
qed

lemma concat_map_self: "(\<And>m. m \<in> set ms \<Longrightarrow> f m = [m]) \<Longrightarrow> concat (map f ms) = ms"
  by (induction ms) simp_all

text \<open>
  Whatever the messages are, after the filter the ids of the calls are those of the answers: the ones that were both
  called and answered before. A second pass changes nothing.
\<close>

theorem calls_and_answers_match:
  "set (call_ids (filter_unmatched_tool_calls ms)) = set (response_ids (filter_unmatched_tool_calls ms))
   \<and> set (call_ids (filter_unmatched_tool_calls ms)) = set (call_ids ms) \<inter> set (response_ids ms)
   \<and> filter_unmatched_tool_calls (filter_unmatched_tool_calls ms) = filter_unmatched_tool_calls ms"
proof -
  let ?out = "filter_unmatched_tool_calls ms"
  have sets: "set (call_ids ?out) = set (call_ids ms) \<inter> set (response_ids ms)"
    "set (response_ids ?out) = set (call_ids ms) \<inter> set (response_ids ms)"
    unfolding ids_filtered by auto
  have "keep_matched (call_ids ?out) (response_ids ?out) m = [m]" if m: "m \<in> set ?out" for m
  proof (rule keep_matched_all)
    obtain m0 where "m \<in> set (keep_matched (call_ids ms) (response_ids ms) m0)"
      using m unfolding filter_unmatched_tool_calls_def by auto
    then have by_ms: "answered_by (response_ids ms) m" by (rule kept_answered)
    have mine: "set (calls_of m) \<subseteq> set (call_ids ?out)" "set (answers_of m) \<subseteq> set (response_ids ?out)"
      using m by (auto simp: call_ids_def response_ids_def)
    then show "set (answers_of m) \<subseteq> set (call_ids ?out)" using sets by simp
    show "answered_by (response_ids ?out) m"
      unfolding answered_by_def
    proof (intro impI ballI)
      fix tc assume tc: "calling m" "tc \<in> set (the (mg_tool_calls m))"
      with by_ms have "tl_id tc \<in> set (response_ids ms)" by (simp add: answered_by_def)
      then have "tl_id tc \<noteq> []" using response_ids_named by metis
      with tc have "tl_id tc \<in> set (calls_of m)" by (simp add: calls_of_simps)
      with mine(1) sets show "tl_id tc \<in> set (response_ids ?out)" by blast
    qed
  qed
  then have "concat (map (keep_matched (call_ids ?out) (response_ids ?out)) ?out) = ?out" by (rule concat_map_self)
  then show ?thesis using sets unfolding filter_unmatched_tool_calls_def [of ?out] by simp
qed

section \<open>Results right after their calls\<close>

text \<open>
  What the interface of the models asks for: a message that calls tools is followed by the results of its calls, one for
  each call and in their order, and there is no other result.
\<close>

definition result_of :: "tool_call \<Rightarrow> msg \<Rightarrow> bool" where
  "result_of tc m = (mg_role m = R_tool \<and> mg_tool_call_id m = Some (tl_id tc) \<and> mg_tool_calls m = None)"

definition calls :: "msg \<Rightarrow> tool_call list" where
  "calls m = (case mg_tool_calls m of None \<Rightarrow> [] | Some tcs \<Rightarrow> tcs)"

function paired :: "msg list \<Rightarrow> bool" where
  "paired [] = True"
| "paired (m # ms) =
     (mg_role m \<noteq> R_tool \<and> list_all2 result_of (calls m) (take (length (calls m)) ms) \<and> paired (drop (length (calls m)) ms))"
  by pat_completeness auto
termination paired by (relation "measure length") auto

lemma paired_append: "paired ms \<Longrightarrow> paired ns \<Longrightarrow> paired (ms @ ns)"
proof (induction ms rule: paired.induct)
  case (2 m ms)
  then have "length (calls m) \<le> length ms" by (auto dest: list_all2_lengthD)
  with 2 show ?case by simp
qed simp

lemma paired_results:
  assumes "mg_role m \<noteq> R_tool" and "list_all2 result_of (calls m) rs" and "paired ns"
  shows "paired (m # rs @ ns)"
  using assms list_all2_lengthD [OF assms(2)] by simp

definition plain :: "msg \<Rightarrow> bool" where
  "plain m = (mg_role m \<noteq> R_tool \<and> mg_tool_calls m = None)"

lemma paired_plain: "list_all plain ms \<Longrightarrow> paired ms"
  by (induction ms) (simp_all add: plain_def calls_def)

definition well_called :: "msg \<Rightarrow> bool" where
  "well_called m = (calls m \<noteq> [] \<longrightarrow> mg_role m = R_assistant \<and> (\<forall>tc \<in> set (calls m). tl_id tc \<noteq> []))"

lemma plain_called: "list_all plain ms \<Longrightarrow> list_all well_called ms"
  by (auto simp: list_all_iff plain_def well_called_def calls_def)

lemma results_called: "list_all2 result_of tcs rs \<Longrightarrow> list_all well_called rs"
  by (induction rule: list_all2_induct) (simp_all add: result_of_def well_called_def calls_def)

lemma plain_simps [simp]: "plain (new_msg r c) = (r \<noteq> R_tool)" "plain (user_text s)"
  by (simp_all add: plain_def new_msg_def user_text_def)

text \<open>The tables of the loop.\<close>

lemma set_d_del: "set (d_del k d) \<subseteq> set d"
  by (induction d) (simp_all add: split_paired_all subset_insertI2, blast)

lemma set_d_set: "set (d_set k v d) \<subseteq> insert (k, v) (set d)"
  unfolding d_set_def by (induction d) (simp_all add: split_paired_all, blast)

definition results_ok :: "responses \<Rightarrow> bool" where
  "results_ok tools = (\<forall>(i, m) \<in> set tools. mg_role m = R_tool \<and> mg_tool_call_id m = Some i \<and> mg_tool_calls m = None)"

definition waiting_ok :: "waiting \<Rightarrow> bool" where
  "waiting_ok pending = (\<forall>(i, m) \<in> set pending. mg_role m = R_assistant \<and> (\<forall>tc \<in> set (calls m). tl_id tc \<noteq> []))"

lemma take_results_of:
  "take_results tcs tools = Inr (rs, tools') \<Longrightarrow> results_ok tools \<Longrightarrow> list_all2 result_of tcs rs \<and> results_ok tools'"
proof (induction tcs tools arbitrary: rs tools' rule: take_results.induct)
  case (2 tc tcs tools)
  then obtain m ms where "d_get tools (tl_id tc) = Some m"
    and rest: "take_results tcs (d_del (tl_id tc) tools) = Inr (ms, tools')" and rs: "rs = m # ms"
    by (auto split: option.splits simp: bind_res_Inr)
  moreover from this have "result_of tc m" using 2(3) by (auto dest!: map_of_SomeD simp: results_ok_def result_of_def)
  moreover have "results_ok (d_del (tl_id tc) tools)" using 2(3) unfolding results_ok_def by (blast dest: subsetD [OF set_d_del])
  ultimately show ?case using 2(1) by simp
qed simp

lemma complete_calls_paired:
  "complete_calls pending tools = Inr (pending', ms, tools') \<Longrightarrow> results_ok tools \<Longrightarrow> waiting_ok pending
   \<Longrightarrow> paired ms \<and> list_all well_called ms \<and> results_ok tools' \<and> waiting_ok pending'"
proof (induction pending tools arbitrary: pending' ms tools' rule: complete_calls.induct)
  case (2 response_id m pending tools)
  from 2(5) have ok: "mg_role m = R_assistant" "well_called m" "waiting_ok pending" by (auto simp: waiting_ok_def well_called_def)
  from 2(3) obtain tcs where tcs: "mg_tool_calls m = Some tcs" by (cases "mg_tool_calls m") auto
  show ?case
  proof (cases "list_all (\<lambda>tc. d_has tools (tl_id tc)) tcs")
    case True
    with 2(3) tcs obtain rs tools1 ns where rs: "take_results tcs tools = Inr (rs, tools1)"
      and ns: "complete_calls pending tools1 = Inr (pending', ns, tools')" and ms: "ms = m # rs @ ns"
      by (auto simp: bind_res_Inr)
    have rs_ok: "list_all2 result_of (calls m) rs" "results_ok tools1"
      using take_results_of [OF rs 2(4)] tcs by (simp_all add: calls_def)
    have "paired ns \<and> list_all well_called ns \<and> results_ok tools' \<and> waiting_ok pending'"
      by (rule 2(1) [OF tcs True ns rs_ok(2) ok(3)])
    then show ?thesis
      unfolding ms using ok rs_ok(1) by (simp add: results_called paired_results del: paired.simps)
  next
    case False
    with 2(3) tcs obtain pending1 where "complete_calls pending tools = Inr (pending1, ms, tools')" and "pending' = (response_id, m) # pending1"
      by (auto simp: bind_res_Inr)
    with 2(2,4,5) False ok tcs show ?thesis by (auto simp: waiting_ok_def)
  qed
qed simp

text \<open>What the responses of a model are taken to be: messages of the assistant whose calls have ids.\<close>

definition responses_named :: "memory_env \<Rightarrow> bool" where
  "responses_named M = (\<forall>j. \<forall>am \<in> set (mr_choices (me_response M j)). am_role am = ''assistant''
     \<and> (\<forall>tc \<in> set (case am_tool_calls am of None \<Rightarrow> [] | Some tcs \<Rightarrow> tcs). tl_id tc \<noteq> []))"

lemma waiting_ok_set: "waiting_ok pending \<Longrightarrow> mg_role m = R_assistant \<Longrightarrow> (\<forall>tc \<in> set (calls m). tl_id tc \<noteq> [])
    \<Longrightarrow> waiting_ok (d_set i m pending)"
  unfolding waiting_ok_def by (auto dest!: subsetD [OF set_d_set])

lemma results_ok_set: "results_ok tools \<Longrightarrow> results_ok (d_set (tc_tool_call_id t) (tool_msg t m) tools)"
  unfolding results_ok_def by (auto dest!: subsetD [OF set_d_set] simp: tool_msg_def new_msg_def)

lemma assistant_message_in: "assistant_message_of M t = Inr am \<Longrightarrow> am \<in> set (mr_choices (me_response M (tc_model_response t)))"
  by (auto simp: assistant_message_of_def py_get_def py_clamp_def split: if_splits)

lemma wait_for_tools_ok:
  assumes "wait_for_tools M t pending = Inr pending'" and "responses_named M" and "waiting_ok pending"
  shows "waiting_ok pending'"
proof -
  from assms(1) obtain am r content where am: "assistant_message_of M t = Inr am" "role_of (am_role am) = Inr r"
    and p: "pending' = d_set (mr_id (me_response M (tc_model_response t))) ((new_msg r content)\<lparr>mg_tool_calls := am_tool_calls am\<rparr>) pending"
    by (auto simp: wait_for_tools_def bind_res_Inr)
  from assistant_message_in [OF am(1)] assms(2) have "am_role am = ''assistant''"
    "\<forall>tc \<in> set (case am_tool_calls am of None \<Rightarrow> [] | Some tcs \<Rightarrow> tcs). tl_id tc \<noteq> []"
    by (simp_all add: responses_named_def)
  with am(2) show ?thesis unfolding p by (intro waiting_ok_set [OF assms(3)]) (auto simp: role_of_def new_msg_def calls_def)
qed

fun plain_observed :: "observed \<Rightarrow> bool" where
  "plain_observed (Message m) = plain m"
| "plain_observed (Final ms) = list_all plain ms"

lemma plain_msgs: "plain (browser_msg v som r)" "plain (ipython_msg mc v i)" "plain (message_msg v e m)"
  unfolding browser_msg_def ipython_msg_def message_msg_def Let_def
  by (simp_all del: append.simps add: split_beta)

lemma plain_recall: "recall_observed M earlier r = Inr ob \<Longrightarrow> plain_observed ob"
  unfolding recall_observed_def Let_def by (cases "ro_recall_type r") (auto split: if_splits)

lemma observed_plain: "observed_as M mc v earlier e ob = Inr r \<Longrightarrow> plain_observed r"
  unfolding observed_as_def Let_def
  by (cases ob) (auto simp: plain_msgs plain_recall bind_res_Inr simp del: append.simps)

lemma process_action_ok:
  assumes "process_action M v pending e a = Inr (e', pending', ms)" and "responses_named M" and "waiting_ok pending"
  shows "list_all plain ms \<and> waiting_ok pending'"
proof (cases "tool_based e a")
  case True
  with assms show ?thesis
    by (auto simp: process_action_def bind_res_Inr wait_for_tools_ok split: option.splits if_splits)
next
  case False
  with assms(1,3) show ?thesis
    by (cases a) (auto simp: process_action_def plain_msgs bind_res_Inr simp del: append.simps)
qed

lemma process_event_ok:
  assumes "process_event M mc v earlier pending tools e = Inr (e', pending', tools', ms)"
    and "responses_named M" and "waiting_ok pending" and "results_ok tools"
  shows "list_all plain ms \<and> waiting_ok pending' \<and> results_ok tools'"
proof (cases "ev_body e")
  case (Act a)
  with assms process_action_ok [OF _ assms(2,3)] show ?thesis by (auto simp: process_event_def bind_res_Inr)
next
  case (Obs ob)
  with assms(1) obtain r where r: "observed_as M mc v earlier e ob = Inr r"
    and out: "pending' = pending" "(case r of Final ms \<Rightarrow> (tools, ms)
          | Message m \<Rightarrow> (case ev_tool_call_metadata e of None \<Rightarrow> (tools, [m])
              | Some t \<Rightarrow> (d_set (tc_tool_call_id t) (tool_msg t m) tools, []))) = (tools', ms)"
    by (auto simp: process_event_def process_observation_def bind_res_Inr)
  from observed_plain [OF r] out assms(3,4) show ?thesis
    by (cases r; cases "ev_tool_call_metadata e") (auto simp: results_ok_set)
qed

lemma process_loop_paired:
  "process_loop M mc v earlier pending tools es = (es', Inr ms) \<Longrightarrow> responses_named M \<Longrightarrow> waiting_ok pending \<Longrightarrow> results_ok tools
   \<Longrightarrow> paired ms \<and> list_all well_called ms"
proof (induction es arbitrary: earlier pending tools es' ms)
  case (Cons e es)
  from Cons.prems(1) obtain e1 pending1 tools1 ms1 where ev: "process_event M mc v earlier pending tools e = Inr (e1, pending1, tools1, ms1)"
    by (cases "process_event M mc v earlier pending tools e") auto
  with Cons.prems(1) obtain pending2 ms2 tools2 where fin: "complete_calls pending1 tools1 = Inr (pending2, ms2, tools2)"
    by (cases "complete_calls pending1 tools1") auto
  obtain es1 r where loop: "process_loop M mc v (earlier @ [e1]) pending2 tools2 es = (es1, r)" by force
  with Cons.prems(1) ev fin obtain rest where r: "r = Inr rest" and ms: "ms = ms1 @ ms2 @ rest"
    by (auto simp: bind_res_Inr)
  note ok1 = process_event_ok [OF ev Cons.prems(2-4)]
  then have ok2: "paired ms2 \<and> list_all well_called ms2" "results_ok tools2" "waiting_ok pending2"
    using complete_calls_paired [OF fin] by simp_all
  from Cons.IH [OF loop [unfolded r] Cons.prems(2) ok2(3,2)] ok1 ok2 show ?case
    unfolding ms by (simp add: paired_append paired_plain plain_called)
qed simp

text \<open>The passes at the end keep this: the filter has nothing to remove, and the formatting changes texts only.\<close>

lemma results_ids:
  "list_all2 result_of tcs rs \<Longrightarrow> \<forall>tc \<in> set tcs. tl_id tc \<noteq> [] \<Longrightarrow> call_ids rs = [] \<and> response_ids rs = map tl_id tcs"
  by (induction rule: list_all2_induct) (simp_all add: call_ids_def response_ids_def result_of_def calls_of_def answers_of_def)

lemma ids_append:
  "call_ids (ms @ ns) = call_ids ms @ call_ids ns" "response_ids (ms @ ns) = response_ids ms @ response_ids ns"
  "call_ids (m # ms) = calls_of m @ call_ids ms" "response_ids (m # ms) = answers_of m @ response_ids ms"
  by (simp_all add: call_ids_def response_ids_def)

lemma called_ids: "well_called m \<Longrightarrow> calls_of m = map tl_id (calls m)"
  by (cases "mg_tool_calls m") (auto simp: well_called_def calls_of_def calls_def)

lemma paired_ids: "paired ms \<Longrightarrow> list_all well_called ms \<Longrightarrow> call_ids ms = response_ids ms"
proof (induction ms rule: paired.induct)
  case (2 m ms)
  let ?n = "length (calls m)"
  have called: "well_called m" "list_all well_called (drop ?n ms)"
    using 2(3) by (auto simp: list_all_iff dest: in_set_dropD)
  then have named: "\<forall>tc \<in> set (calls m). tl_id tc \<noteq> []" unfolding well_called_def by (cases "calls m") auto
  have "call_ids (take ?n ms) = [] \<and> response_ids (take ?n ms) = map tl_id (calls m)"
    using 2(2) named by (intro results_ids) simp_all
  moreover have "call_ids (drop ?n ms) = response_ids (drop ?n ms)" using 2(1,2) called(2) by simp
  moreover have "answers_of m = []" using 2(2) by (simp add: answers_of_def)
  ultimately have "call_ids (m # take ?n ms @ drop ?n ms) = response_ids (m # take ?n ms @ drop ?n ms)"
    unfolding ids_append called_ids [OF called(1)] by simp
  then show ?case by simp
qed (simp add: call_ids_def response_ids_def)

lemma paired_unfiltered:
  assumes "paired ms" and "list_all well_called ms"
  shows "filter_unmatched_tool_calls ms = ms"
  unfolding filter_unmatched_tool_calls_def
proof (rule concat_map_self, rule keep_matched_all)
  fix m assume m: "m \<in> set ms"
  with assms(2) have "well_called m" by (simp add: list_all_iff)
  with m have "set (map tl_id (calls m)) \<subseteq> set (call_ids ms)" by (auto simp: call_ids_def called_ids)
  then show "answered_by (response_ids ms) m"
    unfolding paired_ids [OF assms] by (auto simp: answered_by_def calling_def calls_def)
  from m show "set (answers_of m) \<subseteq> set (call_ids ms)"
    unfolding paired_ids [OF assms] by (auto simp: response_ids_def)
qed

definition outline :: "msg \<Rightarrow> role \<times> tool_call list option \<times> string option" where
  "outline m = (mg_role m, mg_tool_calls m, mg_tool_call_id m)"

lemma outline_formatted: "map outline (apply_user_message_formatting p ms) = map outline ms"
  by (induction p ms rule: apply_user_message_formatting.induct) (simp_all add: outline_def)

lemma results_outline:
  "list_all2 result_of tcs ms = list_all2 (\<lambda>tc (r, cs, i). r = R_tool \<and> i = Some (tl_id tc) \<and> cs = None) tcs (map outline ms)"
proof -
  have "(\<lambda>tc m. case outline m of (r, cs, i) \<Rightarrow> r = R_tool \<and> i = Some (tl_id tc) \<and> cs = None) = result_of"
    by (auto simp: fun_eq_iff result_of_def outline_def)
  then show ?thesis by (simp add: list_all2_map2)
qed

lemma paired_outline: "map outline ms = map outline ns \<Longrightarrow> paired ms = paired ns"
proof (induction ms arbitrary: ns rule: paired.induct)
  case (2 m ms)
  then obtain n ns' where ns: "ns = n # ns'" and m: "outline m = outline n" and rest: "map outline ms = map outline ns'" by auto
  then have "calls m = calls n" "mg_role m = mg_role n" by (simp_all add: outline_def calls_def)
  moreover have "list_all2 result_of (calls m) (take (length (calls m)) ms) = list_all2 result_of (calls m) (take (length (calls m)) ns')"
    unfolding results_outline take_map [symmetric] rest by (rule refl)
  moreover have "paired (drop (length (calls m)) ms) = paired (drop (length (calls m)) ns')"
    by (rule 2(1)) (simp only: drop_map [symmetric] rest)
  ultimately show ?case unfolding ns by simp
qed auto

lemma prompts_paired:
  assumes "process_events M history initial max_chars vision = (events, Inr ms)" and "responses_named M"
  shows "paired ms"
proof -
  obtain events' r where loop: "process_loop M max_chars vision [] [] []
      (ensure_initial_user_message initial (ensure_system_message M history)) = (events', r)" by force
  with assms(1) have "bind_res r (\<lambda>ns. Inr (apply_user_message_formatting None (filter_unmatched_tool_calls ns))) = Inr ms"
    unfolding process_events_def Let_def by simp
  then obtain ns where r: "r = Inr ns"
    and ms: "ms = apply_user_message_formatting None (filter_unmatched_tool_calls ns)"
    unfolding bind_res_Inr by blast
  have ns: "paired ns" "list_all well_called ns"
    using process_loop_paired [OF loop [unfolded r] assms(2)] by (simp_all add: waiting_ok_def results_ok_def)
  show ?thesis
    unfolding ms paired_unfiltered [OF ns] using ns(1) paired_outline [OF outline_formatted] by blast
qed

text \<open>
  C11. In the prompt every message that calls tools is followed at once by the results of its calls, one for each and in
  their order, and no result stands anywhere else, whatever the history: calls whose results are missing and results
  whose calls are missing are left out.
\<close>

theorem calls_are_answered_at_once:
  assumes "process_events M history initial max_chars vision = (events, Inr ms)" and "responses_named M"
  shows "paired ms"
  by (rule prompts_paired [OF assms])

section \<open>The start of the prompt\<close>

lemma process_first:
  assumes "process_event M mc v earlier [] [] e = Inr (e1, [], [], [m])"
  shows "process_loop M mc v earlier [] [] (e # es) =
    (case process_loop M mc v (earlier @ [e1]) [] [] es of (es, r) \<Rightarrow> (e1 # es, bind_res r (\<lambda>rest. Inr (m # rest))))"
  by (simp add: assms)

lemma process_system: "is_system_message (ev_body e) \<Longrightarrow>
    \<exists>s. process_event M mc v earlier [] [] e = Inr (e, [], [], [s]) \<and> mg_role s = R_system \<and> mg_tool_calls s = None"
  by (cases "ev_body e" rule: body.exhaust)
    (auto simp: is_system_message_def process_event_def process_action_def tool_based_def new_msg_def split: action.splits)

lemma process_user: "is_user_message e \<Longrightarrow>
    \<exists>u. process_event M mc v earlier [] [] e = Inr (e, [], [], [u]) \<and> mg_role u = R_user \<and> mg_tool_calls u = None"
  by (cases "ev_body e" rule: body.exhaust)
    (auto simp: is_user_message_def is_message_def process_event_def process_action_def tool_based_def message_msg_def new_msg_def Let_def
      split: action.splits)

lemma ensured_start:
  assumes "is_user_message initial" and "me_system_prompt M (me_cli_mode M) \<noteq> []"
    and "list_ex (is_system_message \<circ> ev_body) history \<longrightarrow> is_system_message (ev_body (hd history))"
  shows "\<exists>e0 e1 es. ensure_initial_user_message initial (ensure_system_message M history) = e0 # e1 # es
    \<and> is_system_message (ev_body e0) \<and> is_user_message e1"
proof -
  obtain e0 es where es: "ensure_system_message M history = e0 # es" and e0: "is_system_message (ev_body e0)"
  proof (cases "list_ex (is_system_message \<circ> ev_body) history")
    case True
    with assms(3) that show ?thesis by (cases history) (auto simp: ensure_system_message_def)
  next
    case False
    with assms(2) that show ?thesis by (auto simp: ensure_system_message_def Let_def is_system_message_def new_action_def)
  qed
  then show ?thesis
    using assms(1) by (cases es) (auto simp: ensure_initial_user_message_def)
qed

text \<open>
  The prompt begins with the system message and a message of the user, also when the condenser has dropped them from
  the history: the missing ones are put in front.
\<close>

theorem prompt_starts_with_system_and_user:
  assumes "process_events M history initial max_chars vision = (events, Inr ms)"
    and "is_user_message initial" and "me_system_prompt M (me_cli_mode M) \<noteq> []"
    and "list_ex (is_system_message \<circ> ev_body) history \<longrightarrow> is_system_message (ev_body (hd history))"
  shows "\<exists>s u rest. ms = s # u # rest \<and> mg_role s = R_system \<and> mg_role u = R_user"
proof -
  obtain e0 e1 es where es: "ensure_initial_user_message initial (ensure_system_message M history) = e0 # e1 # es"
    and kind: "is_system_message (ev_body e0)" "is_user_message e1"
    using ensured_start [OF assms(2-4)] by blast
  obtain s where s: "process_event M max_chars vision [] [] [] e0 = Inr (e0, [], [], [s])" "mg_role s = R_system" "mg_tool_calls s = None"
    using process_system [OF kind(1)] by blast
  obtain u where u: "process_event M max_chars vision ([] @ [e0]) [] [] e1 = Inr (e1, [], [], [u])" "mg_role u = R_user" "mg_tool_calls u = None"
    using process_user [OF kind(2)] by blast
  have "snd (process_events M history initial max_chars vision) = Inr ms" using assms(1) by simp
  then obtain ns where ms: "ms = apply_user_message_formatting None (filter_unmatched_tool_calls (s # u # ns))"
    unfolding process_events_def Let_def es process_first [OF s(1)] process_first [OF u(1)]
    by (auto simp: bind_res_Inr split: prod.splits)
  have "keep_matched c a s = [s]" "keep_matched c a u = [u]" for c a
    using s u by (simp_all add: keep_matched_def)
  then have "\<exists>rest. filter_unmatched_tool_calls (s # u # ns) = s # u # rest" by (simp add: filter_unmatched_tool_calls_def)
  with ms s(2) u(2) show ?thesis by auto
qed

section \<open>Histories that give a prompt\<close>

text \<open>
  What a history has to be: every action of a tool has the metadata of its call, unless the user asked for it, the
  responses have a message with calls of different ids, and the observations are of the classes that are shown.
\<close>

definition text_content :: "json \<Rightarrow> bool" where
  "text_content c = (case c of JNull \<Rightarrow> True | JStr _ \<Rightarrow> True | _ \<Rightarrow> False)"

definition response_fits :: "memory_env \<Rightarrow> tool_call_metadata \<Rightarrow> bool" where
  "response_fits M t = (case mr_choices (me_response M (tc_model_response t)) of
       [] \<Rightarrow> False
     | am # _ \<Rightarrow> am_role am = ''assistant'' \<and> text_content (am_content am)
         \<and> (case am_tool_calls am of None \<Rightarrow> False | Some tcs \<Rightarrow> distinct (map tl_id tcs)))"

definition action_fits :: "memory_env \<Rightarrow> event \<Rightarrow> action \<Rightarrow> bool" where
  "action_fits M e a = (case ev_tool_call_metadata e of
       None \<Rightarrow> tool_based e a \<longrightarrow> ev_source e = Some USER
     | Some t \<Rightarrow> response_fits M t)"

definition observation_fits :: "observation \<Rightarrow> bool" where
  "observation_fits ob = (case ob of
       NullObservation _ \<Rightarrow> False | SuccessObservation _ \<Rightarrow> False | FileWriteObservation _ _ \<Rightarrow> False
     | AgentStateChangedObservation _ _ _ \<Rightarrow> False
     | AgentDelegateObservation c outputs \<Rightarrow> is_ok (delegate_text c outputs)
     | RecallObservation r \<Rightarrow> ro_recall_type r \<in> {WORKSPACE_CONTEXT, KNOWLEDGE}
     | _ \<Rightarrow> True)"

definition event_fits :: "memory_env \<Rightarrow> event \<Rightarrow> bool" where
  "event_fits M e = (case ev_body e of Act a \<Rightarrow> action_fits M e a | Obs ob \<Rightarrow> observation_fits ob)"

definition waiting_fits :: "waiting \<Rightarrow> bool" where
  "waiting_fits pending = (\<forall>(i, m) \<in> set pending. \<exists>tcs. mg_tool_calls m = Some tcs \<and> distinct (map tl_id tcs))"

lemma take_results_returns:
  "distinct (map tl_id tcs) \<Longrightarrow> list_all (\<lambda>tc. d_has tools (tl_id tc)) tcs \<Longrightarrow> \<exists>rs tools'. take_results tcs tools = Inr (rs, tools')"
proof (induction tcs tools rule: take_results.induct)
  case (2 tc tcs tools)
  then obtain m where m: "d_get tools (tl_id tc) = Some m" by (auto simp: d_has_def)
  have "list_all (\<lambda>tc'. d_has (d_del (tl_id tc) tools) (tl_id tc')) tcs"
    using 2(2,3) by (fastforce simp: list_all_iff d_has_def image_iff)
  then obtain rs tools' where "take_results tcs (d_del (tl_id tc) tools) = Inr (rs, tools')"
    using 2(1) [OF m] 2(2) by auto
  with m show ?case by simp
qed simp

lemma complete_calls_returns:
  "waiting_fits pending \<Longrightarrow> \<exists>pending' ms tools'. complete_calls pending tools = Inr (pending', ms, tools') \<and> waiting_fits pending'"
proof (induction pending arbitrary: tools)
  case (Cons p pending)
  obtain response_id m tcs where p: "p = (response_id, m)" and tcs: "mg_tool_calls m = Some tcs" "distinct (map tl_id tcs)"
    and rest: "waiting_fits pending"
    using Cons.prems by (cases p) (auto simp: waiting_fits_def)
  show ?case
  proof (cases "list_all (\<lambda>tc. d_has tools (tl_id tc)) tcs")
    case True
    obtain rs tools1 where "take_results tcs tools = Inr (rs, tools1)" using take_results_returns [OF tcs(2) True] by blast
    with True tcs(1) Cons.IH [OF rest, of tools1] show ?thesis unfolding p by auto
  next
    case False
    with tcs Cons.IH [OF rest, of tools] show ?thesis unfolding p by (auto simp: waiting_fits_def)
  qed
qed (simp add: waiting_fits_def)

lemma wait_for_tools_returns:
  assumes "response_fits M t" and "waiting_fits pending"
  shows "\<exists>pending'. wait_for_tools M t pending = Inr pending' \<and> waiting_fits pending'"
proof -
  from assms(1) obtain am ams tcs where am: "mr_choices (me_response M (tc_model_response t)) = am # ams" "am_role am = ''assistant''"
    "text_content (am_content am)" "am_tool_calls am = Some tcs" "distinct (map tl_id tcs)"
    unfolding response_fits_def by (auto split: list.splits option.splits)
  moreover from am(3) obtain content where "assistant_content (am_content am) = Inr content"
    by (cases "am_content am") (simp_all add: text_content_def assistant_content_def)
  ultimately show ?thesis using assms(2)
    by (auto simp: wait_for_tools_def assistant_message_of_def py_get_def py_clamp_def role_of_def waiting_fits_def dest!: subsetD [OF set_d_set])
qed

lemma settled_thought_returns: "response_fits M t \<Longrightarrow> \<exists>s. settled_thought M (Some t) thought = Inr s"
  by (auto simp: response_fits_def settled_thought_def assistant_message_of_def py_get_def py_clamp_def text_content_def as_str_def
      split: list.splits json.splits)

lemma process_action_returns:
  assumes "action_fits M e a" and "waiting_fits pending"
  shows "\<exists>e' pending' ms. process_action M v pending e a = Inr (e', pending', ms) \<and> waiting_fits pending'"
proof (cases "tool_based e a")
  case True
  show ?thesis
  proof (cases "ev_tool_call_metadata e")
    case (Some t)
    with assms wait_for_tools_returns [of M t pending] obtain pending' where "wait_for_tools M t pending = Inr pending'" "waiting_fits pending'"
      by (auto simp: action_fits_def)
    with True Some show ?thesis by (simp add: process_action_def)
  qed (use True assms in \<open>simp add: action_fits_def process_action_def\<close>)
next
  case False
  have "\<exists>s. settled_thought M (ev_tool_call_metadata e) thought = Inr s" for thought
    using assms(1) settled_thought_returns
    by (cases "ev_tool_call_metadata e") (simp_all add: action_fits_def settled_thought_def)
  then obtain s where "settled_thought M (ev_tool_call_metadata e) (finish_thought a) = Inr s" by blast
  with False assms(2) show ?thesis by (cases a) (simp_all add: process_action_def)
qed

lemma observed_returns: "observation_fits ob \<Longrightarrow> \<exists>r. observed_as M mc v earlier e ob = Inr r"
  unfolding observed_as_def Let_def
  by (cases ob) (auto simp: observation_fits_def recall_observed_def Let_def is_ok_def split: sum.splits)

lemma process_event_returns:
  assumes "event_fits M e" and "waiting_fits pending"
  shows "\<exists>e' pending' tools' ms. process_event M mc v earlier pending tools e = Inr (e', pending', tools', ms) \<and> waiting_fits pending'"
proof (cases "ev_body e")
  case (Act a)
  with assms process_action_returns [of M e a pending v] show ?thesis
    by (auto simp: event_fits_def process_event_def)
next
  case (Obs ob)
  with assms(1) obtain r where "observed_as M mc v earlier e ob = Inr r"
    using observed_returns [of ob M mc v earlier e] by (auto simp: event_fits_def)
  with Obs assms(2) show ?thesis
    by (auto simp: process_event_def process_observation_def split: prod.split)
qed

lemma process_loop_returns:
  "list_all (event_fits M) es \<Longrightarrow> waiting_fits pending \<Longrightarrow> \<exists>ms. snd (process_loop M mc v earlier pending tools es) = Inr ms"
proof (induction es arbitrary: earlier pending tools)
  case (Cons e es)
  obtain e1 pending1 tools1 ms1 where ev: "process_event M mc v earlier pending tools e = Inr (e1, pending1, tools1, ms1)"
    and fits: "waiting_fits pending1"
    using process_event_returns [of M e pending mc v earlier tools] Cons.prems by auto
  obtain pending2 ms2 tools2 where fin: "complete_calls pending1 tools1 = Inr (pending2, ms2, tools2)" and fits2: "waiting_fits pending2"
    using complete_calls_returns [OF fits] by blast
  obtain ms where "snd (process_loop M mc v (earlier @ [e1]) pending2 tools2 es) = Inr ms"
    using Cons.IH [OF _ fits2] Cons.prems(1) by auto
  with ev fin show ?case by (auto split: prod.split)
qed simp

text \<open>
  A history whose events fit always gives a prompt: no call is answered twice and no lookup of an answer fails,
  whatever the order of the events is, which of them the condenser has dropped, and whether calls are still open.
\<close>

theorem fitting_history_gives_prompt:
  assumes "list_all (event_fits M) history" and "is_user_message initial" and "ev_tool_call_metadata initial = None"
  shows "\<exists>ms. snd (process_events M history initial max_chars vision) = Inr ms"
proof -
  have initial: "event_fits M initial"
    using assms(2,3) by (auto simp: is_user_message_def is_message_def event_fits_def action_fits_def tool_based_def split: body.splits action.splits)
  have "list_all (event_fits M) (ensure_system_message M history)"
    using assms(1) by (simp add: ensure_system_message_def Let_def event_fits_def action_fits_def new_action_def tool_based_def)
  then have "list_all (event_fits M) (ensure_initial_user_message initial (ensure_system_message M history))"
    using initial by (auto simp: ensure_initial_user_message_def split: list.split)
  then obtain ms where "snd (process_loop M max_chars vision [] [] []
      (ensure_initial_user_message initial (ensure_system_message M history))) = Inr ms"
    using process_loop_returns [of M _ "[]" max_chars vision "[]" "[]"] by (auto simp: waiting_fits_def)
  then show ?thesis unfolding process_events_def Let_def by (simp add: split_beta)
qed

end
