(* ===== verification/MemoryExamples.thy ===== *)
theory MemoryExamples
  imports MemoryLaws
begin

text \<open>
  A condensed history on which the laws of the memory are applied: the model has called two tools in one response, the
  result of a third call has been forgotten, and the condenser has dropped the system message.
\<close>

definition called :: "string \<Rightarrow> string \<Rightarrow> tool_call" where
  "called i nm = \<lparr>tl_id = i, tl_name = nm, tl_arguments = ''{}''\<rparr>"

definition sample_response :: "json \<Rightarrow> model_response" where
  \<comment> \<open>the first response calls two tools, the others one\<close>
  "sample_response j =
     (if j = JStr ''r1''
      then \<lparr>mr_id = ''r1'', mr_choices = [\<lparr>am_role = ''assistant'', am_content = JStr ''let me look'',
              am_tool_calls = Some [called ''c1'' ''think'', called ''c2'' ''think'']\<rparr>]\<rparr>
      else \<lparr>mr_id = ''r2'', mr_choices = [\<lparr>am_role = ''assistant'', am_content = JNull,
              am_tool_calls = Some [called ''c3'' ''think'']\<rparr>]\<rparr>)"

definition sample_memory :: memory_env where
  "sample_memory = \<lparr>me_response = sample_response, me_str = (\<lambda>_. ''event''), me_version = ''1.0'',
     me_system_prompt = (\<lambda>_. ''be helpful''), me_workspace_context = (\<lambda>_ _ _ _. ''context''),
     me_microagent_info = (\<lambda>_. ''knowledge''), me_cli_mode = False, me_enable_prompt_extensions = True,
     me_disabled_microagents = [], me_enable_som_visual_browsing = False\<rparr>"

definition by_call :: "string \<Rightarrow> string \<Rightarrow> int \<Rightarrow> event \<Rightarrow> event" where
  "by_call r i n e = e\<lparr>ev_tool_call_metadata := Some \<lparr>tc_function_name = ''think'', tc_tool_call_id = i,
     tc_model_response = JStr r, tc_total_calls_in_response = n\<rparr>\<rparr>"

definition sample_request :: event where
  "sample_request = (new_action (MessageAction \<lparr>ma_content = ''hello'', ma_file_urls = None, ma_image_urls = None,
     ma_wait_for_response = False, ma_security_risk = None\<rparr>))\<lparr>ev_source := Some USER\<rparr>"

definition sample_past :: "event list" where
  "sample_past =
     [sample_request,
      by_call ''r1'' ''c1'' 2 (new_action (AgentThinkAction ''one'')), by_call ''r1'' ''c2'' 2 (new_action (AgentThinkAction ''two'')),
      by_call ''r2'' ''c3'' 1 (new_action (AgentThinkAction ''three'')),
      by_call ''r1'' ''c2'' 2 (new_obs (AgentThinkObservation ''noted two'')),
      by_call ''r1'' ''c1'' 2 (new_obs (AgentThinkObservation ''noted one''))]"

lemmas sample_memory_defs = sample_memory_def sample_response_def called_def by_call_def sample_request_def sample_past_def
  new_action_def new_obs_def fresh_def

definition sample_prompt :: "event list \<times> msg list res" where
  "sample_prompt = process_events sample_memory sample_past sample_request None False"

lemma sample_prompt_returns:
  "\<exists>events ms. process_events sample_memory sample_past sample_request None False = (events, Inr ms)
     \<and> map mg_role ms = [R_system, R_user, R_assistant, R_tool, R_tool]"
proof -
  have "map mg_role (projr (snd sample_prompt)) = [R_system, R_user, R_assistant, R_tool, R_tool]" "\<not> isl (snd sample_prompt)"
    by code_simp+
  then show ?thesis by (metis prod.collapse sample_prompt_def sum.collapse(2))
qed

lemma sample_responses_named: "responses_named sample_memory"
  by (simp add: responses_named_def sample_memory_def sample_response_def called_def)

lemma sample_user: "is_user_message sample_request" "ev_tool_call_metadata sample_request = None"
  by (simp_all add: sample_request_def new_action_def is_user_message_def is_message_def)

theorem calls_are_answered_at_once_witness:
  "\<exists>ms. snd (process_events sample_memory sample_past sample_request None False) = Inr ms \<and> length ms = 5 \<and> paired ms"
proof -
  obtain events ms where run: "process_events sample_memory sample_past sample_request None False = (events, Inr ms)"
    and roles: "map mg_role ms = [R_system, R_user, R_assistant, R_tool, R_tool]"
    using sample_prompt_returns by (elim exE conjE)
  have "length ms = 5" using arg_cong [OF roles, of length] by simp
  then show ?thesis using calls_are_answered_at_once [OF run sample_responses_named] run by simp
qed

theorem prompt_starts_with_system_and_user_witness:
  "\<exists>ms. snd (process_events sample_memory sample_past sample_request None False) = Inr ms
     \<and> mg_role (hd ms) = R_system \<and> mg_role (ms ! 1) = R_user"
proof -
  obtain events ms where run: "process_events sample_memory sample_past sample_request None False = (events, Inr ms)"
    using sample_prompt_returns by (elim exE conjE)
  have "me_system_prompt sample_memory (me_cli_mode sample_memory) \<noteq> []"
    "list_ex (is_system_message \<circ> ev_body) sample_past \<longrightarrow> is_system_message (ev_body (hd sample_past))"
    by (simp_all add: sample_memory_defs is_system_message_def)
  from prompt_starts_with_system_and_user [OF run sample_user(1) this] run show ?thesis by auto
qed

theorem fitting_history_gives_prompt_witness:
  "\<exists>ms. snd (process_events sample_memory sample_past sample_request (Some 10) True) = Inr ms"
proof (rule fitting_history_gives_prompt)
  show "list_all (event_fits sample_memory) sample_past"
    by (simp add: sample_memory_defs event_fits_def action_fits_def observation_fits_def response_fits_def tool_based_def text_content_def)
qed (simp_all add: sample_user)

end
