(* ===== verification/CallLaws.thy ===== *)
theory CallLaws
  imports FunctionCalling MemoryExamples
begin

text \<open>
  The actions of a response: one for each call, with its metadata, such that the memory can show them to the model
  again; and where the thought of the response goes.
\<close>

section \<open>Results that satisfy a condition\<close>

definition ensures :: "('a \<Rightarrow> bool) \<Rightarrow> 'a res \<Rightarrow> bool" where
  "ensures P r = (case r of Inl _ \<Rightarrow> True | Inr x \<Rightarrow> P x)"

lemma ensures_simps [simp]: "ensures P (Inl e)" "ensures P (Inr x) = P x"
  by (simp_all add: ensures_def)

lemma ensuresD: "ensures P r \<Longrightarrow> r = Inr x \<Longrightarrow> P x"
  by simp

lemma ensures_bind_any: "(\<And>x. ensures P (f x)) \<Longrightarrow> ensures P (bind_res r f)"
  by (cases r) simp_all

lemma ensures_bind: "ensures Q r \<Longrightarrow> (\<And>x. Q x \<Longrightarrow> ensures P (f x)) \<Longrightarrow> ensures P (bind_res r f)"
  by (cases r) simp_all

lemma ensures_if: "(b \<Longrightarrow> ensures P r) \<Longrightarrow> (\<not> b \<Longrightarrow> ensures P s) \<Longrightarrow> ensures P (if b then r else s)"
  by simp

section \<open>The branches\<close>

text \<open>An event that an agent has made and nobody has stored: an action without metadata.\<close>

definition made :: "event \<Rightarrow> bool" where
  "made e = (is_action (ev_body e) \<and> ev_tool_call_metadata e = None)"

lemma made_new_action [simp]: "made (new_action a)"
  by (simp add: made_def new_action_def)

lemma made_body [simp]: "made (e\<lparr>ev_body := Act a\<rparr>) = (ev_tool_call_metadata e = None)"
  by (simp add: made_def)

lemma made_timeout: "made e \<Longrightarrow> made (set_hard_timeout v b e)"
proof -
  assume e: "made e"
  then obtain a where a: "ev_body e = Act a" by (cases "ev_body e") (auto simp: made_def)
  show ?thesis using e a by (cases a) (simp_all add: set_hard_timeout_def made_def)
qed

lemma ensures_need: "ensures P r \<Longrightarrow> ensures P (need tool k j r)"
  by (cases "a_in k j") (simp_all add: need_def)

lemma need_Inr: "need tool k j r = Inr x \<Longrightarrow> r = Inr x"
  by (cases "a_in k j") (auto simp: need_def split: if_splits)

lemma risky_call_made: "ensures made (risky_call j r)"
  by (cases r, simp add: risky_call_def) (auto simp: risky_call_def intro: ensures_bind_any)

lemma plain_call_made: "ensures made (plain_call r)"
  by (cases r) (simp_all add: plain_call_def)

lemma cmd_run_call_made: "ensures made (cmd_run_call E tool j)"
  unfolding cmd_run_call_def
proof (rule ensures_need, rule ensures_bind_any, rule ensures_bind_any, rule ensures_bind_any, rule ensures_bind_any,
    rule ensures_bind [where Q = made], goal_cases)
  case (1 is_input command a has_timeout)
  show ?case
    by (intro ensures_if ensures_bind_any) (auto split: sum.split py_error.split simp: made_timeout)
next
  case (2 is_input command a has_timeout e)
  then show ?case
    by (cases "ev_body e") (auto intro!: ensures_bind_any simp: made_def)
qed

lemma tool_to_action_made: "ensures (\<lambda>(e, i). made e) (tool_to_action E mcp tool j)"
  unfolding tool_to_action_def Let_def
  by (intro ensures_if ensures_bind [OF cmd_run_call_made] ensures_bind [OF plain_call_made]
      ensures_bind [OF ensures_need [OF risky_call_made]] ensures_bind [OF risky_call_made] ensures_bind_any) auto

lemma combine_event_made [simp]: "made (combine_event t e) = made e"
  by (cases "ev_body e") (simp_all add: made_def combine_event_def)

section \<open>The loop over the calls\<close>

lemma call_loop_nth:
  "call_loop parse tool thought md i tcs = Inr es \<Longrightarrow> length es = length tcs \<and>
     (\<forall>k < length tcs. \<exists>j e inner. parse (tcs ! k) = Inr j
        \<and> tool (tl_name (tcs ! k)) j = Inr (e, inner)
        \<and> es ! k = (if (case inner of Some n \<Rightarrow> n | None \<Rightarrow> i + k) = 0 then combine_event thought e else e)
             \<lparr>ev_tool_call_metadata := Some (md (tcs ! k))\<rparr>)"
proof (induction tcs arbitrary: i es)
  case (Cons tc tcs)
  from Cons.prems obtain j e inner rest where j: "parse tc = Inr j"
    and made: "tool (tl_name tc) j = Inr (e, inner)"
    and rest: "call_loop parse tool thought md (i + 1) tcs = Inr rest"
    and es: "es = (if (case inner of Some n \<Rightarrow> n | None \<Rightarrow> i) = 0 then combine_event thought e else e)
               \<lparr>ev_tool_call_metadata := Some (md tc)\<rparr> # rest"
    by (auto simp: bind_res_Inr Let_def)
  note IH = Cons.IH [OF rest, unfolded add.assoc plus_1_eq_Suc]
  show ?case
  proof (intro conjI allI impI)
    show "length es = length (tc # tcs)" using IH es by simp
    fix k assume k: "k < length (tc # tcs)"
    show "\<exists>j e inner. parse ((tc # tcs) ! k) = Inr j
        \<and> tool (tl_name ((tc # tcs) ! k)) j = Inr (e, inner)
        \<and> es ! k = (if (case inner of Some n \<Rightarrow> n | None \<Rightarrow> i + k) = 0 then combine_event thought e else e)
             \<lparr>ev_tool_call_metadata := Some (md ((tc # tcs) ! k))\<rparr>"
    proof (cases k)
      case 0
      show ?thesis unfolding 0 add_0_right using j made es by (intro exI [of _ j] exI [of _ e] exI [of _ inner]) simp
    next
      case (Suc n)
      with k IH obtain j' e' inner' where "parse (tcs ! n) = Inr j'"
        "tool (tl_name (tcs ! n)) j' = Inr (e', inner')"
        "rest ! n = (if (case inner' of Some n \<Rightarrow> n | None \<Rightarrow> i + Suc n) = 0 then combine_event thought e' else e')
             \<lparr>ev_tool_call_metadata := Some (md (tcs ! n))\<rparr>"
        by auto
      then show ?thesis unfolding Suc es by (intro exI [of _ j'] exI [of _ e'] exI [of _ inner']) simp
    qed
  qed
qed simp

lemma metadata_action [simp]: "is_action (ev_body (e\<lparr>ev_tool_call_metadata := m\<rparr>)) = is_action (ev_body e)"
  by simp

lemma call_loop_calls:
  assumes "call_loop parse tool thought md i tcs = Inr es" and made: "\<And>nm j. ensures (\<lambda>(e, i). made e) (tool nm j)"
  shows "list_all2 (\<lambda>tc e. is_action (ev_body e) \<and> ev_tool_call_metadata e = Some (md tc)) tcs es"
proof (rule list_all2_all_nthI)
  show "length tcs = length es" using call_loop_nth [OF assms(1)] by simp
  fix k assume "k < length tcs"
  with call_loop_nth [OF assms(1)] obtain j e inner where run: "tool (tl_name (tcs ! k)) j = Inr (e, inner)"
    and es: "es ! k = (if (case inner of Some n \<Rightarrow> n | None \<Rightarrow> i + k) = 0 then combine_event thought e else e)
               \<lparr>ev_tool_call_metadata := Some (md (tcs ! k))\<rparr>"
    by blast
  have "made e" using ensuresD [OF made run] by simp
  then have "made (combine_event thought e)" by simp
  with \<open>made e\<close> show "is_action (ev_body (es ! k)) \<and> ev_tool_call_metadata (es ! k) = Some (md (tcs ! k))"
    by (simp add: es made_def)
qed

definition calls_of_choice :: "assistant_message \<Rightarrow> tool_call list" where
  "calls_of_choice am = (case am_tool_calls am of None \<Rightarrow> [] | Some tcs \<Rightarrow> tcs)"

lemma actions_of_response_cases:
  assumes "actions_of_response E parse tool r = Inr es"
  obtains (calls) am tcs thought events where "mr_choices r = [am]" "am_tool_calls am = Some tcs" "tcs \<noteq> []"
      "response_thought (am_content am) = Inr thought"
      "call_loop parse tool thought (call_metadata E r tcs) 0 tcs = Inr events"
      "es = map (\<lambda>e. e\<lparr>ev_response_id := Some (mr_id r)\<rparr>) events"
    | (reply) am m where "mr_choices r = [am]" "calls_of_choice am = []" "es = [(new_action (MessageAction m))\<lparr>ev_response_id := Some (mr_id r)\<rparr>]"
      "ma_wait_for_response m"
proof -
  obtain am where am: "mr_choices r = [am]"
    using assms by (auto simp: actions_of_response_def reply_message_def split: list.splits)
  show thesis
  proof (cases "calls_of_choice am")
    case Nil
    with assms am show thesis
      by (intro reply [OF am Nil]) (auto simp: actions_of_response_def reply_message_def calls_of_choice_def split: option.splits)
  next
    case (Cons tc tcs)
    with assms am show thesis
      by (auto simp: actions_of_response_def reply_message_def calls_of_choice_def bind_res_Inr split: option.splits intro!: calls)
  qed
qed

lemma list_all2_map_id: "list_all2 P xs ys \<Longrightarrow> (\<And>x y. P x y \<Longrightarrow> Q x (f y)) \<Longrightarrow> list_all2 Q xs (map f ys)"
  by (simp add: list_all2_map2 list_all2_mono)

section \<open>The contract of a table of tools\<close>

text \<open>
  What the loop asks of the table of the tools: that each tool makes a new action. The laws hold for every agent that
  gives such a table.
\<close>

locale tool_table =
  fixes E :: calls_env
    and parse :: "tool_call \<Rightarrow> json res"
    and tool :: "string \<Rightarrow> json \<Rightarrow> (event \<times> nat option) res"
  assumes tool_made: "ensures (\<lambda>(e, i). made e) (tool nm j)"
begin

lemma one_action:
  assumes "actions_of_response E parse tool r = Inr es"
  shows "\<exists>am. mr_choices r = [am] \<and> list_all (\<lambda>e. ev_response_id e = Some (mr_id r)) es
     \<and> (if calls_of_choice am = []
        then \<exists>m. map ev_body es = [Act (MessageAction m)] \<and> ma_wait_for_response m
        else list_all2 (\<lambda>tc e. is_action (ev_body e)
               \<and> ev_tool_call_metadata e = Some (call_metadata E r (calls_of_choice am) tc)) (calls_of_choice am) es)"
  using assms
proof (cases rule: actions_of_response_cases)
  case (calls am tcs thought events)
  have "list_all2 (\<lambda>tc e. is_action (ev_body e) \<and> ev_tool_call_metadata e = Some (call_metadata E r tcs tc)) tcs es"
    unfolding calls(6) by (rule list_all2_map_id [OF call_loop_calls [OF calls(5) tool_made]]) simp
  moreover have "calls_of_choice am = tcs" using calls(2) by (simp add: calls_of_choice_def)
  ultimately show ?thesis
    using calls(1,3,6) by (intro exI [of _ am]) (simp add: list_all_iff)
next
  case (reply am m)
  then show ?thesis by (intro exI [of _ am]) (simp add: new_action_def)
qed

lemma actions_fit:
  assumes "actions_of_response E parse tool r = Inr es" and "me_response M (fe_dump E r) = r"
    and "\<And>am. am \<in> set (mr_choices r) \<Longrightarrow> am_role am = ''assistant'' \<and> text_content (am_content am)
           \<and> distinct (map tl_id (calls_of_choice am))"
  shows "list_all (event_fits M) es"
  using assms(1)
proof (cases rule: actions_of_response_cases)
  case (calls am tcs thought events)
  have fits: "response_fits M (call_metadata E r tcs tc)" for tc
    using assms(3) [of am] calls(1,2) by (simp add: response_fits_def call_metadata_def assms(2) calls_of_choice_def)
  have "list_all2 (\<lambda>tc e. event_fits M e) tcs es"
    unfolding calls(6)
  proof (rule list_all2_map_id [OF call_loop_calls [OF calls(5) tool_made]], elim conjE)
    fix tc and e :: event assume "is_action (ev_body e)" "ev_tool_call_metadata e = Some (call_metadata E r tcs tc)"
    then show "event_fits M (e\<lparr>ev_response_id := Some (mr_id r)\<rparr>)"
      using fits by (cases "ev_body e") (simp_all add: event_fits_def action_fits_def)
  qed
  then show ?thesis by (auto simp: list_all2_conv_all_nth list_all_length)
next
  case (reply am m)
  then show ?thesis by (simp add: new_action_def event_fits_def action_fits_def tool_based_def)
qed

end

interpretation codeact_tools: tool_table E "parsed_arguments E" "tool_to_action E mcp" for E mcp
  by unfold_locales (rule tool_to_action_made)

lemmas codeact_one_action = codeact_tools.one_action [folded response_to_actions_def]
lemmas codeact_fit = codeact_tools.actions_fit [folded response_to_actions_def]

section \<open>The laws of the CodeAct agent\<close>

text \<open>
  C15. A response that parses gives one action for each of its calls, in their order, which carries the id and the name of
  its call and the number of calls; a response without calls gives one message that waits for the user. All of them
  carry the id of the response.
\<close>

theorem one_action_for_each_call:
  assumes "response_to_actions E mcp r = Inr es"
  shows "\<exists>am. mr_choices r = [am] \<and> list_all (\<lambda>e. ev_response_id e = Some (mr_id r)) es
     \<and> (if calls_of_choice am = []
        then \<exists>m. map ev_body es = [Act (MessageAction m)] \<and> ma_wait_for_response m
        else list_all2 (\<lambda>tc e. is_action (ev_body e)
               \<and> ev_tool_call_metadata e = Some (call_metadata E r (calls_of_choice am) tc)) (calls_of_choice am) es)"
  by (rule codeact_one_action [OF assms])

text \<open>
  The actions the agent takes from a response are of the kind from which the memory makes a prompt, as long as the
  ids of the calls differ and the metadata gives the response back.
\<close>

theorem actions_fit_the_memory:
  assumes "response_to_actions E mcp r = Inr es" and "me_response M (fe_dump E r) = r"
    and "\<And>am. am \<in> set (mr_choices r) \<Longrightarrow> am_role am = ''assistant'' \<and> text_content (am_content am)
           \<and> distinct (map tl_id (calls_of_choice am))"
  shows "list_all (event_fits M) es"
  by (rule codeact_fit [OF assms])

lemma task_call_shape:
  assumes "task_call tool (JObj d) = Inr (a, i)" and "d_get d ''task_list'' = Some (JList ts)" and "ts \<noteq> []"
  shows "i = Some (length ts - 1) \<and> (\<exists>c ts'. a = TaskTrackingAction c ts' [])"
  using need_Inr [OF assms(1) [unfolded task_call_def]] assms(2,3)
  by (auto simp: bind_res_Inr a_get_def split: if_splits)

text \<open>
  The thought of a response follows a loop variable that the task list overwrites: a call of the task tracker gets the
  thought exactly when its list has one task, whatever its place is, and loses it when it is the first call with two tasks
  or more.
\<close>

theorem task_list_takes_the_thought:
  assumes "response_to_actions E mcp r = Inr es" and "mr_choices r = [am]" and "am_tool_calls am = Some tcs"
    and "k < length tcs" and "tl_name (tcs ! k) = ''task_tracker''" and "fe_loads E (tl_arguments (tcs ! k)) = Some (JObj d)"
    and "d_get d ''task_list'' = Some (JList ts)" and "ts \<noteq> []" and "response_thought (am_content am) = Inr thought"
  shows "\<exists>c ts'. ev_body (es ! k) = Act (TaskTrackingAction c ts' (if length ts = 1 then thought else []))"
  using assms(1) [unfolded response_to_actions_def]
proof (cases rule: actions_of_response_cases)
  case (calls am' tcs' thought' events)
  then have same: "tcs' = tcs" "thought' = thought" using assms(2,3,9) by simp_all
  from call_loop_nth [OF calls(5)] obtain j e inner where j: "parsed_arguments E (tcs ! k) = Inr j"
    and tool: "tool_to_action E mcp (tl_name (tcs ! k)) j = Inr (e, inner)"
    and ev: "events ! k = (if (case inner of Some n \<Rightarrow> n | None \<Rightarrow> 0 + k) = 0 then combine_event thought e else e)
               \<lparr>ev_tool_call_metadata := Some (call_metadata E r tcs (tcs ! k))\<rparr>"
    and len: "length events = length tcs"
    using assms(4) unfolding same by blast
  have "j = JObj d" using j assms(6) by (simp add: parsed_arguments_def)
  with tool obtain a where task: "task_call ''task_tracker'' (JObj d) = Inr (a, inner)" and e: "e = new_action a"
    unfolding assms(5) by (auto simp: tool_to_action_def bind_res_Inr)
  from task_call_shape [OF task assms(7,8)] obtain c ts' where inner: "inner = Some (length ts - 1)"
    and a: "a = TaskTrackingAction c ts' []" by blast
  have "(length ts - 1 = 0) = (length ts = 1)" using assms(8) by (cases ts) auto
  then show ?thesis
    using calls(6) assms(4) len ev inner a e by (auto simp: combine_event_def combine_thought_def new_action_def)
next
  case (reply am' m)
  with assms(2-4) show ?thesis by (simp add: calls_of_choice_def)
qed

section \<open>A response with two calls\<close>

text \<open>
  The model runs a command and plans two tasks; the parser of the arguments knows the two texts it needs.
\<close>

definition sample_calls_env :: calls_env where
  "sample_calls_env = \<lparr>fe_loads = (\<lambda>s. if s = ''run'' then Some (JObj [(''command'', JStr ''ls''), (''timeout'', JInt 5), (''security_risk'', JStr ''LOW'')])
       else if s = ''plan'' then Some (JObj [(''command'', JStr ''plan''), (''task_list'', JList [JObj [], JObj [(''title'', JStr ''test'')]])])
       else None),
     fe_float = (\<lambda>_. None), fe_dump = (\<lambda>r. JStr (mr_id r)), fe_valid_params_text = []\<rparr>"

definition run_and_plan :: model_response where
  "run_and_plan = \<lparr>mr_id = ''r'', mr_choices = [\<lparr>am_role = ''assistant'', am_content = JStr ''first look'',
     am_tool_calls = Some [\<lparr>tl_id = ''a'', tl_name = ''execute_bash'', tl_arguments = ''run''\<rparr>,
                           \<lparr>tl_id = ''b'', tl_name = ''task_tracker'', tl_arguments = ''plan''\<rparr>]\<rparr>]\<rparr>"

definition plan_first :: model_response where
  "plan_first = \<lparr>mr_id = ''r'', mr_choices = [\<lparr>am_role = ''assistant'', am_content = JStr ''first look'',
     am_tool_calls = Some [\<lparr>tl_id = ''b'', tl_name = ''task_tracker'', tl_arguments = ''plan''\<rparr>]\<rparr>]\<rparr>"

definition memory_of :: "model_response \<Rightarrow> memory_env" where
  "memory_of r = sample_memory\<lparr>me_response := (\<lambda>_. r)\<rparr>"

lemma sample_actions:
  "\<exists>es. response_to_actions sample_calls_env [] run_and_plan = Inr es"
  "\<exists>es. response_to_actions sample_calls_env [] plan_first = Inr es"
proof -
  have "\<not> isl (response_to_actions sample_calls_env [] run_and_plan)" "\<not> isl (response_to_actions sample_calls_env [] plan_first)"
    by code_simp+
  then show "\<exists>es. response_to_actions sample_calls_env [] run_and_plan = Inr es"
    "\<exists>es. response_to_actions sample_calls_env [] plan_first = Inr es"
    by (metis sum.collapse(2))+
qed

theorem one_action_for_each_call_witness:
  "\<exists>es. response_to_actions sample_calls_env [] run_and_plan = Inr es \<and> length es = 2
     \<and> list_all (\<lambda>e. ev_response_id e = Some ''r'') es"
proof -
  obtain es where es: "response_to_actions sample_calls_env [] run_and_plan = Inr es" using sample_actions(1) by (elim exE)
  from one_action_for_each_call [OF es] es show ?thesis
    by (auto simp: run_and_plan_def calls_of_choice_def dest: list_all2_lengthD)
qed

theorem actions_fit_the_memory_witness:
  "\<exists>es. response_to_actions sample_calls_env [] run_and_plan = Inr es \<and> list_all (event_fits (memory_of run_and_plan)) es"
proof -
  obtain es where es: "response_to_actions sample_calls_env [] run_and_plan = Inr es" using sample_actions(1) by (elim exE)
  have "list_all (event_fits (memory_of run_and_plan)) es"
    by (rule actions_fit_the_memory [OF es])
      (auto simp: memory_of_def run_and_plan_def calls_of_choice_def text_content_def)
  with es show ?thesis by simp
qed

theorem task_list_takes_the_thought_witness:
  "\<exists>es c ts. response_to_actions sample_calls_env [] plan_first = Inr es \<and> ev_body (es ! 0) = Act (TaskTrackingAction c ts [])"
proof -
  obtain es where es: "response_to_actions sample_calls_env [] plan_first = Inr es" using sample_actions(2) by (elim exE)
  have "\<exists>c ts'. ev_body (es ! 0) = Act (TaskTrackingAction c ts'
      (if length [JObj [], JObj [(''title'', JStr ''test'')]] = 1 then ''first look'' else []))"
    by (rule task_list_takes_the_thought [OF es, where am = "hd (mr_choices plan_first)" and
        tcs = "the (am_tool_calls (hd (mr_choices plan_first)))"]) (simp add: plan_first_def sample_calls_env_def response_thought_def)+
  with es show ?thesis by simp
qed

end
