(* ===== verification/ReaderCalls.thy ===== *)
theory ReaderCalls
  imports CallLaws
begin

text \<open>
  The tool calls of the two agents that only read: the read-only agent
  (\<open>openhands/agenthub/readonly_agent/function_calling.py\<close>) with its search commands, and the agent that locates code
  (\<open>openhands/agenthub/loc_agent/function_calling.py\<close>). Both share the loop over the calls with the CodeAct agent. The
  quoting of \<open>shlex.quote\<close> is stated against a scanner of the shell's words.
\<close>

section \<open>Quoting for the shell\<close>

definition single :: char where "single = CHR 0x27"
definition double :: char where "double = CHR 0x22"
definition backslash :: char where "backslash = CHR 0x5C"

definition sh_safe :: "char \<Rightarrow> bool" where
  "sh_safe c = (c \<in> set ''ABCDEFGHIJKLMNOPQRSTUVWXYZabcdefghijklmnopqrstuvwxyz0123456789_@%+=:,./-'')"

definition sh_quote :: "string \<Rightarrow> string" where
  \<comment> \<open>\<open>shlex.quote\<close>\<close>
  "sh_quote s = (if s = [] then [single, single]
     else if list_all sh_safe s then s
     else single # concat (map (\<lambda>c. if c = single then [single, double, single, double, single] else [c]) s) @ [single])"

definition quote_json :: "json \<Rightarrow> string res" where
  "quote_json j = (if \<not> py_truthy j then Inr (sh_quote [])
     else case j of JStr s \<Rightarrow> Inr (sh_quote s) | _ \<Rightarrow> Inl (TypeError ''expected string or bytes-like object''))"

section \<open>Search commands\<close>

definition grep_command :: "string \<Rightarrow> string option \<Rightarrow> string \<Rightarrow> string" where
  \<comment> \<open>the arguments are quoted\<close>
  "grep_command pattern glob path =
     (let rg_cmd = ''rg -li '' @ pattern @ '' --sortr=modified'' @ (case glob of None \<Rightarrow> [] | Some g \<Rightarrow> '' --glob '' @ g)
      in rg_cmd @ '' '' @ path @ '' | head -n 100'')"

definition announced :: "string \<Rightarrow> string \<Rightarrow> string" where
  \<comment> \<open>the command behind the header that shows it\<close>
  "announced kind complete_cmd =
     ''echo '' @ double # ''Below are the execution results of the '' @ kind @ '' command: '' @ complete_cmd @ nl # double # ''; ''
     @ complete_cmd"

definition grep_to_cmdrun :: "json \<Rightarrow> json \<Rightarrow> json \<Rightarrow> string res" where
  "grep_to_cmdrun pattern path incl =
     bind_res (quote_json pattern) (\<lambda>quoted_pattern.
     bind_res (if py_truthy path then quote_json path else Inr ''.'') (\<lambda>path_arg.
     bind_res (if py_truthy incl then bind_res (quote_json incl) (\<lambda>g. Inr (Some g)) else Inr None) (\<lambda>glob.
       Inr (announced ''search'' (grep_command quoted_pattern glob path_arg)))))"

definition glob_command :: "string \<Rightarrow> string \<Rightarrow> string" where
  "glob_command pattern path = ''rg --files '' @ path @ '' -g '' @ pattern @ '' --sortr=modified'' @ '' | head -n 100''"

definition glob_to_cmdrun :: "json \<Rightarrow> json \<Rightarrow> string res" where
  "glob_to_cmdrun pattern path =
     bind_res (quote_json path) (\<lambda>quoted_path. bind_res (quote_json pattern) (\<lambda>quoted_pattern.
       Inr (announced ''glob'' (glob_command quoted_pattern quoted_path))))"

section \<open>The tools of the read-only agent\<close>

definition run_command :: "string \<Rightarrow> action res" where
  "run_command command = dec_cmd_run [(''command'', JStr command), (''is_input'', JBool False)]"

definition readonly_tool :: "string list \<Rightarrow> string \<Rightarrow> json \<Rightarrow> (event \<times> nat option) res" where
  "readonly_tool mcp_tool_names tool j =
     (let alone = (\<lambda>r. bind_res (plain_call r) (\<lambda>e. Inr (e, None))) in
      if tool = ''finish''
      then alone (bind_res (a_get ''message'' (JStr []) j) (\<lambda>m. bind_res (as_str m) (\<lambda>m. Inr (AgentFinishAction m [] []))))
      else if tool = ''view''
      then alone (need tool ''path'' j (bind_res (a_item ''path'' j) (\<lambda>path. bind_res (a_get ''view_range'' JNull j) (\<lambda>range.
             dec_file_read [(''path'', path), (''impl_source'', JStr (read_source_value READ_OH_ACI)), (''view_range'', range)]))))
      else if tool = ''think''
      then alone (bind_res (a_get ''thought'' (JStr []) j) (\<lambda>t. bind_res (as_str t) (\<lambda>t. Inr (AgentThinkAction t))))
      else if tool = ''grep''
      then alone (need tool ''pattern'' j (bind_res (a_item ''pattern'' j) (\<lambda>pattern. bind_res (a_get ''path'' JNull j) (\<lambda>path.
             bind_res (a_get ''include'' JNull j) (\<lambda>incl. bind_res (grep_to_cmdrun pattern path incl) run_command)))))
      else if tool = ''glob''
      then alone (need tool ''pattern'' j (bind_res (a_item ''pattern'' j) (\<lambda>pattern. bind_res (a_get ''path'' (JStr ''.'') j) (\<lambda>path.
             bind_res (glob_to_cmdrun pattern path) run_command))))
      else if tool \<in> set mcp_tool_names
      then alone (bind_res (as_dict j) (\<lambda>d. dec_mcp [(''name'', JStr tool), (''arguments'', JObj d)]))
      else Inl (FunctionCallNotExistsError (''Tool '' @ tool @ '' is not registered. (arguments: '' @ py_str j
             @ ''). Please check the tool name and retry with an existing tool.'')))"

definition readonly_response_to_actions :: "calls_env \<Rightarrow> string list \<Rightarrow> model_response \<Rightarrow> event list res" where
  "readonly_response_to_actions E mcp_tool_names = actions_of_response E (parsed_arguments E) (readonly_tool mcp_tool_names)"

section \<open>The tools of the locating agent\<close>

definition loc_parsed_arguments :: "calls_env \<Rightarrow> tool_call \<Rightarrow> json res" where
  "loc_parsed_arguments E tc =
     (case fe_loads E (tl_arguments tc) of
        None \<Rightarrow> Inl (RuntimeError (''Failed to parse tool call arguments: '' @ tl_arguments tc))
      | Some j \<Rightarrow> Inr j)"

definition loc_tool :: "string \<Rightarrow> json \<Rightarrow> (event \<times> nat option) res" where
  "loc_tool tool j =
     (let alone = (\<lambda>r. bind_res (plain_call r) (\<lambda>e. Inr (e, None))) in
      if tool \<in> {''explore_tree_structure'', ''search_code_snippets'', ''get_entity_contents''}
      then alone (dec_ipython [(''code'', JStr (''print('' @ tool @ ''(**'' @ py_str j @ ''))''))])
      else if tool = ''finish''
      then alone (bind_res (a_get ''message'' (JStr []) j) (\<lambda>m. bind_res (as_str m) (\<lambda>m. Inr (AgentFinishAction m [] []))))
      else Inl (FunctionCallNotExistsError (''Tool '' @ tool @ '' is not registered. (arguments: '' @ py_str j
             @ ''). Please check the tool name and retry with an existing tool.'')))"

definition loc_response_to_actions :: "calls_env \<Rightarrow> model_response \<Rightarrow> event list res" where
  "loc_response_to_actions E = actions_of_response E (loc_parsed_arguments E) loc_tool"

lemma readonly_tool_made: "ensures (\<lambda>(e, i). made e) (readonly_tool mcp tool j)"
  unfolding readonly_tool_def Let_def by (intro ensures_if ensures_bind [OF plain_call_made]) auto

lemma loc_tool_made: "ensures (\<lambda>(e, i). made e) (loc_tool tool j)"
  unfolding loc_tool_def Let_def by (intro ensures_if ensures_bind [OF plain_call_made]) auto

interpretation readonly_tools: tool_table E "parsed_arguments E" "readonly_tool mcp" for E mcp
  by unfold_locales (rule readonly_tool_made)

interpretation loc_tools: tool_table E "loc_parsed_arguments E" loc_tool for E
  by unfold_locales (rule loc_tool_made)

lemmas readonly_one_action = readonly_tools.one_action [folded readonly_response_to_actions_def]
lemmas readonly_fit = readonly_tools.actions_fit [folded readonly_response_to_actions_def]
lemmas loc_one_action = loc_tools.one_action [folded loc_response_to_actions_def]
lemmas loc_fit = loc_tools.actions_fit [folded loc_response_to_actions_def]

section \<open>The shell\<close>

text \<open>
  A scanner for one word of a POSIX shell: quotes are removed, a blank or an operator ends the word. It fails
  where the shell would expand something, and on a quote that is not closed.
\<close>

datatype quoting = Bare | Single | Double

definition ends_word :: "char \<Rightarrow> bool" where
  "ends_word c = (c \<in> set '' |&;<>()'' \<or> c = nl \<or> c = CHR 0x09)"

definition expands :: "char \<Rightarrow> bool" where
  "expands c = (c = CHR 0x24 \<or> c = CHR 0x60)"

definition globs :: "char \<Rightarrow> bool" where
  \<comment> \<open>file name, brace, tilde and history expansion, comments\<close>
  "globs c = (c \<in> set ''*?[]{}~!#'')"

fun sh_word :: "quoting \<Rightarrow> string \<Rightarrow> (string \<times> string) option" where
  "sh_word Bare [] = Some ([], [])"
| "sh_word q [] = None"
| "sh_word q (c # cs) =
     (let add = (\<lambda>q c. map_option (\<lambda>(w, rest). (c # w, rest)) (sh_word q cs)) in
      case q of
        Single \<Rightarrow> if c = single then sh_word Bare cs else add Single c
      | Double \<Rightarrow> if c = double then sh_word Bare cs else if expands c \<or> c = backslash then None else add Double c
      | Bare \<Rightarrow> if ends_word c then Some ([], c # cs)
                else if c = single then sh_word Single cs
                else if c = double then sh_word Double cs
                else if expands c \<or> globs c \<or> c = backslash then None
                else add Bare c)"

text \<open>Whether the shell expands a variable or a command anywhere in a line\<close>

fun sh_active :: "quoting \<Rightarrow> string \<Rightarrow> bool" where
  "sh_active q [] = False"
| "sh_active Single (c # cs) = (if c = single then sh_active Bare cs else sh_active Single cs)"
| "sh_active Bare [c] = expands c"
| "sh_active Double [c] = expands c"
| "sh_active Bare (c # d # cs) =
     (if c = backslash then sh_active Bare cs
      else if c = single then sh_active Single (d # cs)
      else if c = double then sh_active Double (d # cs)
      else expands c \<or> sh_active Bare (d # cs))"
| "sh_active Double (c # d # cs) =
     (if c = backslash then sh_active Double cs
      else if c = double then sh_active Bare (d # cs)
      else expands c \<or> sh_active Double (d # cs))"

lemmas sh_chars = single_def double_def backslash_def

lemma safe_char:
  assumes "sh_safe c"
  shows "\<not> ends_word c" "c \<noteq> single" "c \<noteq> double" "c \<noteq> backslash" "\<not> expands c" "\<not> globs c"
  using assms by (auto simp: sh_safe_def ends_word_def expands_def globs_def sh_chars nl_def)

lemma sh_char_facts: "\<not> ends_word single" "\<not> ends_word double" "\<not> expands single" "\<not> expands double" "single \<noteq> double" "double \<noteq> single"
    "single \<noteq> backslash" "double \<noteq> backslash"
  by (auto simp: ends_word_def expands_def sh_chars nl_def)

lemma sh_word_safe: "list_all sh_safe s \<Longrightarrow>
    sh_word Bare (s @ rest) = map_option (\<lambda>(w, r). (s @ w, r)) (sh_word Bare rest)"
  by (cases "sh_word Bare rest"; induction s) (auto simp: safe_char)

lemma sh_word_single:
  "sh_word Single (concat (map (\<lambda>c. if c = single then [single, double, single, double, single] else [c]) s) @ single # rest)
     = map_option (\<lambda>(w, r). (s @ w, r)) (sh_word Bare rest)"
  by (cases "sh_word Bare rest"; induction s) (auto simp: sh_char_facts)

lemma sh_word_end: "rest = [] \<or> ends_word (hd rest) \<Longrightarrow> sh_word Bare rest = Some ([], rest)"
  by (cases rest) auto

lemma sh_quote_word:
  assumes "rest = [] \<or> ends_word (hd rest)"
  shows "sh_word Bare (sh_quote s @ rest) = Some (s, rest)"
proof -
  show ?thesis
    using sh_word_single [of s rest] sh_word_single [of "[]" rest] sh_word_end [OF assms] sh_word_safe [of s rest]
    by (auto simp: sh_quote_def sh_char_facts)
qed

section \<open>What the shell makes of the search commands\<close>

primrec sh_take :: "nat \<Rightarrow> string \<Rightarrow> (string list \<times> string) option" where
  \<comment> \<open>the first words of a line\<close>
  "sh_take 0 s = Some ([], s)"
| "sh_take (Suc n) s = (case sh_word Bare (dropWhile (\<lambda>c. c = CHR 0x20) s) of
       None \<Rightarrow> None
     | Some (w, rest) \<Rightarrow> map_option (\<lambda>(ws, rest). (w # ws, rest)) (sh_take n rest))"

lemma sh_take_word:
  assumes "list_all sh_safe w" and "w \<noteq> []" and "rest = [] \<or> ends_word (hd rest)"
  shows "sh_take (Suc n) (w @ rest) = map_option (\<lambda>(ws, rest). (w # ws, rest)) (sh_take n rest)"
proof -
  have "\<not> sh_safe CHR 0x20" by (simp add: sh_safe_def)
  then have "dropWhile (\<lambda>c. c = CHR 0x20) (w @ rest) = w @ rest" using assms(1,2) by (cases w) auto
  then show ?thesis using sh_word_safe [OF assms(1), of rest] sh_word_end [OF assms(3)] by simp
qed

lemma sh_quote_start: "\<exists>c cs. sh_quote s = c # cs \<and> c \<noteq> CHR 0x20"
  by (cases s) (auto simp: sh_quote_def sh_chars sh_safe_def)

lemma sh_take_quoted:
  assumes "rest = [] \<or> ends_word (hd rest)"
  shows "sh_take (Suc n) (sh_quote s @ rest) = map_option (\<lambda>(ws, rest). (s # ws, rest)) (sh_take n rest)"
proof -
  have "dropWhile (\<lambda>c. c = CHR 0x20) (sh_quote s @ rest) = sh_quote s @ rest" using sh_quote_start [of s] by auto
  then show ?thesis using sh_quote_word [OF assms, of s] by simp
qed

lemma sh_take_blank: "sh_take (Suc n) (CHR 0x20 # s) = sh_take (Suc n) s"
  by simp

lemma sh_take_literal:
  "list_all sh_safe w \<Longrightarrow> w \<noteq> [] \<Longrightarrow> sh_take (Suc n) (w @ CHR 0x20 # rest) = map_option (\<lambda>(ws, rest). (w # ws, rest)) (sh_take n (CHR 0x20 # rest))"
  by (rule sh_take_word) (simp_all add: ends_word_def)

definition to_head :: string where "to_head = '' | head -n 100''"

lemma to_head_ends: "ends_word (hd to_head)"
  by (simp add: to_head_def ends_word_def)

lemma command_words:
  "grep_command pattern (Some g) path = ''rg'' @ CHR 0x20 # ''-li'' @ CHR 0x20 # pattern @ CHR 0x20 # ''--sortr=modified''
     @ CHR 0x20 # ''--glob'' @ CHR 0x20 # g @ CHR 0x20 # path @ to_head"
  "grep_command pattern None path = ''rg'' @ CHR 0x20 # ''-li'' @ CHR 0x20 # pattern @ CHR 0x20 # ''--sortr=modified''
     @ CHR 0x20 # path @ to_head"
  "glob_command pattern path = ''rg'' @ CHR 0x20 # ''--files'' @ CHR 0x20 # path @ CHR 0x20 # ''-g'' @ CHR 0x20 # pattern
     @ CHR 0x20 # ''--sortr=modified'' @ to_head"
  by (simp_all add: grep_command_def glob_command_def to_head_def)

lemma safe_words: "list_all sh_safe ''rg''" "list_all sh_safe ''-li''" "list_all sh_safe ''--sortr=modified''"
    "list_all sh_safe ''--glob''" "list_all sh_safe ''--files''" "list_all sh_safe ''-g''"
  by (simp_all add: sh_safe_def)

lemma sh_take_quoted_blank:
  "sh_take (Suc n) (sh_quote s @ CHR 0x20 # rest) = map_option (\<lambda>(ws, rest). (s # ws, rest)) (sh_take n (CHR 0x20 # rest))"
  by (rule sh_take_quoted) (simp add: ends_word_def)

lemma sh_take_head:
  "sh_take (Suc n) (sh_quote s @ to_head) = map_option (\<lambda>(ws, rest). (s # ws, rest)) (sh_take n to_head)"
  "sh_take (Suc n) (''--sortr=modified'' @ to_head) = map_option (\<lambda>(ws, rest). (''--sortr=modified'' # ws, rest)) (sh_take n to_head)"
  by (rule sh_take_quoted, simp add: to_head_ends) (rule sh_take_word, rule safe_words, simp, simp add: to_head_ends)

lemmas sh_take_laws = command_words sh_take_blank sh_take_literal [OF safe_words(1)] sh_take_literal [OF safe_words(2)]
  sh_take_literal [OF safe_words(3)] sh_take_literal [OF safe_words(4)] sh_take_literal [OF safe_words(5)]
  sh_take_literal [OF safe_words(6)] sh_take_quoted_blank sh_take_head sh_take.simps(1) list.distinct not_False_eq_True
  option.map prod.case

text \<open>
  Whatever the pattern, the file filter and the path are, the shell splits the search command into exactly the
  program, its options and these three as they were given.
\<close>

theorem search_arguments_arrive:
  "sh_take 7 (grep_command (sh_quote pattern) (Some (sh_quote incl)) (sh_quote path))
     = Some ([''rg'', ''-li'', pattern, ''--sortr=modified'', ''--glob'', incl, path], '' | head -n 100'')
   \<and> sh_take 5 (grep_command (sh_quote pattern) None (sh_quote path))
     = Some ([''rg'', ''-li'', pattern, ''--sortr=modified'', path], '' | head -n 100'')
   \<and> sh_take 6 (glob_command (sh_quote pattern) (sh_quote path))
     = Some ([''rg'', ''--files'', path, ''-g'', pattern, ''--sortr=modified''], '' | head -n 100'')"
proof -
  have n: "(7::nat) = Suc (Suc (Suc (Suc (Suc (Suc (Suc 0))))))" "(6::nat) = Suc (Suc (Suc (Suc (Suc (Suc 0)))))"
    "(5::nat) = Suc (Suc (Suc (Suc (Suc 0))))" by simp_all
  show ?thesis unfolding to_head_def [symmetric] n by (simp only: sh_take_laws)
qed

section \<open>The header of the search commands\<close>

lemma sh_active_single [simp]: "sh_active Bare (single # s) = sh_active Single s"
  by (cases s) (auto simp: expands_def sh_chars)

lemma sh_active_Cons:
  "c \<noteq> backslash \<Longrightarrow> c \<noteq> single \<Longrightarrow> c \<noteq> double \<Longrightarrow> sh_active Bare (c # s) = (expands c \<or> sh_active Bare s)"
  "c \<noteq> backslash \<Longrightarrow> c \<noteq> double \<Longrightarrow> sh_active Double (c # s) = (expands c \<or> sh_active Double s)"
  "sh_active Bare (double # s) = sh_active Double s"
  "sh_active Double (double # s) = sh_active Bare s"
  by (cases s; auto simp: sh_char_facts)+

lemma sh_active_safe: "list_all sh_safe s \<Longrightarrow> sh_active Bare (s @ rest) = sh_active Bare rest"
  by (induction s) (simp_all add: sh_active_Cons safe_char)

lemma sh_active_quoted:
  "sh_active Single (concat (map (\<lambda>c. if c = single then [single, double, single, double, single] else [c]) s) @ single # rest)
     = sh_active Bare rest"
  by (induction s) (simp_all add: sh_active_Cons sh_char_facts)

lemma sh_quote_inert: "sh_active Bare (sh_quote s @ rest) = sh_active Bare rest"
  using sh_active_quoted [of s rest] sh_active_quoted [of "[]" rest] sh_active_safe [of s rest]
  by (auto simp: sh_quote_def)

definition unquoting :: "char \<Rightarrow> bool" where
  "unquoting c = (c = single \<or> c = double \<or> c = backslash)"

lemma sh_active_in_double:
  "\<not> list_ex unquoting s \<Longrightarrow> sh_active Double (s @ rest) = (list_ex expands s \<or> sh_active Double rest)"
  by (induction s) (auto simp: sh_active_Cons unquoting_def)

lemma sh_quote_in_double:
  assumes "\<not> list_ex unquoting s"
  shows "sh_active Double (sh_quote s @ rest) = (list_ex expands s \<or> sh_active Double rest)"
proof -
  have "concat (map (\<lambda>c. if c = single then [single, double, single, double, single] else [c]) s) = s"
    using assms by (induction s) (auto simp: unquoting_def)
  then show ?thesis
    using sh_active_in_double [OF assms, of rest] sh_active_in_double [OF assms, of "single # rest"]
    by (simp add: sh_quote_def sh_active_Cons sh_char_facts)
qed

lemma blank_inert: "sh_active Bare (CHR 0x20 # s) = sh_active Bare s" "sh_active Double (CHR 0x20 # s) = sh_active Double s"
  by (simp_all add: sh_active_Cons expands_def sh_chars)

lemma head_inert: "sh_active Bare to_head = False"
  by (simp add: to_head_def sh_active_Cons expands_def sh_chars)

lemmas commands_inert = command_words blank_inert sh_active_safe [OF safe_words(1)] sh_active_safe [OF safe_words(2)]
  sh_active_safe [OF safe_words(3)] sh_active_safe [OF safe_words(4)] sh_active_safe [OF safe_words(5)]
  sh_active_safe [OF safe_words(6)] sh_quote_inert head_inert

lemma plain_text:
  "sh_active Double (''Below are the execution results of the search command: '' @ s) = sh_active Double s"
  "sh_active Double (''Below are the execution results of the glob command: '' @ s) = sh_active Double s"
  "sh_active Double (''rg'' @ s) = sh_active Double s" "sh_active Double (''-li'' @ s) = sh_active Double s"
  by (simp_all add: sh_active_Cons expands_def sh_chars)

text \<open>
  The header that announces the search puts the quoted pattern between double quotes, where its quotes mean nothing: a
  pattern with a dollar sign or a backquote, which the search itself never expands, is expanded by the header. A pattern
  like a command in backquotes is run by the agent that only reads.
\<close>

theorem header_expands_the_pattern:
  assumes "\<not> list_ex unquoting pattern" and "list_ex expands pattern"
  shows "\<exists>command. grep_to_cmdrun (JStr pattern) JNull JNull = Inr command \<and> sh_active Bare command
     \<and> \<not> sh_active Bare (grep_command (sh_quote pattern) None (sh_quote ''.''))"
proof -
  have "pattern \<noteq> []" using assms(2) by (cases pattern) auto
  then have "grep_to_cmdrun (JStr pattern) JNull JNull = Inr (announced ''search'' (grep_command (sh_quote pattern) None ''.''))"
    by (simp add: grep_to_cmdrun_def quote_json_def py_truthy_def)
  moreover have "sh_active Bare (announced ''search'' (grep_command (sh_quote pattern) None ''.''))"
  proof -
    obtain rest where "announced ''search'' (grep_command (sh_quote pattern) None ''.'') = ''echo'' @ CHR 0x20 # double #
        ''Below are the execution results of the search command: '' @ ''rg'' @ CHR 0x20 # ''-li'' @ CHR 0x20 # sh_quote pattern @ rest"
      by (simp add: announced_def grep_command_def)
    moreover have "list_all sh_safe ''echo''" by (simp add: sh_safe_def)
    ultimately show ?thesis
      by (simp only: sh_active_safe blank_inert sh_active_Cons(3) plain_text sh_quote_in_double [OF assms(1)] assms(2) simp_thms)
  qed
  moreover have "\<not> sh_active Bare (grep_command (sh_quote pattern) None (sh_quote ''.''))" by (simp only: commands_inert not_False_eq_True)
  ultimately show ?thesis by blast
qed

theorem header_expands_the_pattern_witness:
  "\<exists>command. grep_to_cmdrun (JStr (CHR 0x60 # ''id'' @ [CHR 0x60])) JNull JNull = Inr command \<and> sh_active Bare command"
proof -
  have "\<not> list_ex unquoting (CHR 0x60 # ''id'' @ [CHR 0x60])" "list_ex expands (CHR 0x60 # ''id'' @ [CHR 0x60])"
    by (simp_all add: unquoting_def expands_def sh_chars)
  from header_expands_the_pattern [OF this] show ?thesis by (elim exE conjE, intro exI conjI)
qed

text \<open>The locating agent reports arguments that do not parse with an exception the controller does not turn into an observation.\<close>

lemma loc_arguments_fail:
  assumes "mr_choices r = [am]" and "am_tool_calls am = Some (tc # tcs)" and "fe_loads E (tl_arguments tc) = None"
    and "response_thought (am_content am) = Inr thought"
  shows "loc_response_to_actions E r = Inl (RuntimeError (''Failed to parse tool call arguments: '' @ tl_arguments tc))"
    and "response_to_actions E mcp r = Inl (FunctionCallValidationError (''Failed to parse tool call arguments: '' @ tl_arguments tc))"
  using assms by (simp_all add: loc_response_to_actions_def response_to_actions_def actions_of_response_def
    loc_parsed_arguments_def parsed_arguments_def)

end
