(* ===== verification/Replay.thy ===== *)
theory Replay
  imports Deserialization
begin

text \<open>
  The replay of a recorded trajectory (\<open>openhands/controller/replay.py\<close>): the manager keeps the events of the
  trajectory that the user or the agent issued, and hands out their actions one after the other in place of the agent.

  The loop of \<open>should_replay\<close> is the recursive function \<open>next_action_index\<close>.\<close>

record replay =
  rp_events :: "event list"
  rp_mode :: bool
  rp_index :: nat

definition from_environment :: "event \<Rightarrow> bool" where
  "from_environment e = (ev_source e = Some ENVIRONMENT)"

definition without_wait :: "event \<Rightarrow> event" where
  \<comment> \<open>\<open>event.wait_for_response = False\<close>, for a message\<close>
  "without_wait e =
     (case ev_body e of
        Act (MessageAction r) \<Rightarrow> e\<lparr>ev_body := Act (MessageAction (r\<lparr>ma_wait_for_response := False\<rparr>))\<rparr>
      | _ \<Rightarrow> e)"

definition waits :: "event \<Rightarrow> bool" where
  "waits e = (case ev_body e of Act (MessageAction r) \<Rightarrow> ma_wait_for_response r | _ \<Rightarrow> False)"

definition kept_for_replay :: "event list \<Rightarrow> event list" where
  "kept_for_replay es = filter (\<lambda>e. \<not> from_environment e \<and> \<not> is_null_obs (ev_body e)) es"

definition new_replay :: "event list option \<Rightarrow> replay" where
  "new_replay events =
     (let kept = kept_for_replay (case events of None \<Rightarrow> [] | Some es \<Rightarrow> es);
          replay_events = map (\<lambda>e. if waits e then without_wait e else e) (butlast kept) @ drop (length kept - 1) kept
      in \<lparr>rp_events = replay_events, rp_mode = (replay_events \<noteq> []), rp_index = 0\<rparr>)"

definition replayable_at :: "event list \<Rightarrow> nat \<Rightarrow> bool" where
  "replayable_at es i = (i < length es \<and> is_action (ev_body (es ! i)))"

definition replayable :: "replay \<Rightarrow> bool" where
  "replayable rp = replayable_at (rp_events rp) (rp_index rp)"

function next_action_index :: "event list \<Rightarrow> nat \<Rightarrow> nat" where
  "next_action_index es i =
     (if i < length es \<and> \<not> replayable_at es i then next_action_index es (i + 1) else i)"
  by auto
termination by (relation "measure (\<lambda>(es, i). length es - i)") auto

declare next_action_index.simps [simp del]

definition should_replay :: "replay \<Rightarrow> replay \<times> bool" where
  "should_replay rp =
     (if \<not> rp_mode rp then (rp, False)
      else let rp = rp\<lparr>rp_index := next_action_index (rp_events rp) (rp_index rp)\<rparr> in (rp, replayable rp))"

definition replay_step :: "replay \<Rightarrow> replay \<times> event res" where
  "replay_step rp =
     (if length (rp_events rp) \<le> rp_index rp then (rp, Inl IndexError)
      else let e = rp_events rp ! rp_index rp in
        if \<not> is_action (ev_body e) then (rp, Inl AssertionError)
        else (rp\<lparr>rp_index := rp_index rp + 1\<rparr>, Inr e))"

fun replay_items :: "(string \<Rightarrow> dict option) \<Rightarrow> json list \<Rightarrow> event list res" where
  "replay_items lit [] = Inr []"
| "replay_items lit (item # items) =
     bind_res (as_dict item) (\<lambda>d. bind_res (event_from_dict lit d) (\<lambda>e.
       bind_res (replay_items lit items) (\<lambda>es.
         Inr (if from_environment e then es else e\<lparr>ev_id := None\<rparr> # es))))"

definition json_type_name :: "json \<Rightarrow> string" where
  "json_type_name j =
     (case j of JNull \<Rightarrow> ''NoneType'' | JBool _ \<Rightarrow> ''bool'' | JInt _ \<Rightarrow> ''int'' | JFloat _ \<Rightarrow> ''float''
      | JStr _ \<Rightarrow> ''str'' | JList _ \<Rightarrow> ''list'' | JObj _ \<Rightarrow> ''dict'')"

definition get_replay_events :: "(string \<Rightarrow> dict option) \<Rightarrow> json \<Rightarrow> event list res" where
  "get_replay_events lit trajectory =
     (case trajectory of
        JList items \<Rightarrow> replay_items lit items
      | _ \<Rightarrow> Inl (ValueError (''Expected a list in '' @ py_str trajectory @ '', got '' @ json_type_name trajectory)))"

section \<open>Replaying to the end\<close>

lemma next_action_index_bounds: "i \<le> next_action_index es i" "next_action_index es i \<le> max i (length es)"
  by (induction es i rule: next_action_index.induct; subst next_action_index.simps; force)+

lemma next_action_index_stops:
  "next_action_index es i < length es \<Longrightarrow> replayable_at es (next_action_index es i)"
proof (induction es i rule: next_action_index.induct)
  case (1 es i)
  then show ?case by (subst (asm) next_action_index.simps, subst next_action_index.simps) (auto split: if_splits)
qed

lemma next_action_index_skips:
  "filter (is_action \<circ> ev_body) (drop i es) = filter (is_action \<circ> ev_body) (drop (next_action_index es i) es)"
proof (induction es i rule: next_action_index.induct)
  case (1 es i)
  show ?case
  proof (cases "i < length es \<and> \<not> replayable_at es i")
    case True
    then have "drop i es = es ! i # drop (i + 1) es" by (simp add: Cons_nth_drop_Suc)
    with True 1 show ?thesis by (simp add: replayable_at_def next_action_index.simps [of es i])
  next
    case False
    then have "next_action_index es i = i" by (subst next_action_index.simps) auto
    then show ?thesis by simp
  qed
qed

text \<open>The controller's use of the manager: as long as something is to be replayed, take it.\<close>

function replay_all :: "replay \<Rightarrow> event list \<times> replay" where
  "replay_all rp =
     (case should_replay rp of
        (rp, False) \<Rightarrow> ([], rp)
      | (rp, True) \<Rightarrow>
          (case replay_step rp of
             (rp, Inl err) \<Rightarrow> ([], rp)
           | (rp, Inr e) \<Rightarrow> (case replay_all rp of (es, rp) \<Rightarrow> (e # es, rp))))"
  by auto

lemma replay_advances:
  assumes "should_replay rp = (rp1, True)" and "replay_step rp1 = (rp2, Inr e)"
  shows "rp_events rp2 = rp_events rp" "rp_index rp < rp_index rp2" "rp_index rp2 \<le> length (rp_events rp)"
  using assms next_action_index_bounds(1) [of "rp_index rp" "rp_events rp"]
  by (auto simp: should_replay_def replay_step_def Let_def split: if_splits)

lemma replay_measure:
  assumes "(rp1, True) = should_replay rp" and "(rp2, Inr e) = replay_step rp1"
  shows "length (rp_events rp2) - rp_index rp2 < length (rp_events rp) - rp_index rp"
  using replay_advances [OF assms [symmetric]] by simp

termination replay_all
  by (relation "measure (\<lambda>rp. length (rp_events rp) - rp_index rp)") (auto intro: replay_measure)

declare replay_all.simps [simp del]

lemma replay_all_actions:
  assumes "rp_mode rp"
  shows "\<exists>rp'. replay_all rp = (filter (is_action \<circ> ev_body) (drop (rp_index rp) (rp_events rp)), rp')
    \<and> \<not> snd (should_replay rp')"
  using assms
proof (induction rp rule: replay_all.induct)
  case (1 rp)
  let ?es = "rp_events rp" and ?i = "rp_index rp"
  let ?j = "next_action_index ?es ?i"
  have should: "should_replay rp = (rp\<lparr>rp_index := ?j\<rparr>, replayable_at ?es ?j)"
    using "1.prems" by (simp add: should_replay_def replayable_def)
  show ?case
  proof (cases "replayable_at ?es ?j")
    case True
    then have lt: "?j < length ?es" and act: "is_action (ev_body (?es ! ?j))" by (simp_all add: replayable_at_def)
    let ?rp = "rp\<lparr>rp_index := ?j + 1\<rparr>"
    have step: "replay_step (rp\<lparr>rp_index := ?j\<rparr>) = (?rp, Inr (?es ! ?j))"
      using lt act by (simp add: replay_step_def Let_def)
    obtain rp' where rp': "replay_all ?rp = (filter (is_action \<circ> ev_body) (drop (?j + 1) ?es), rp')" "\<not> snd (should_replay rp')"
      using "1.IH" [of "rp\<lparr>rp_index := ?j\<rparr>" True ?rp "Inr (?es ! ?j)" "?es ! ?j"] "1.prems" True should step
      by (simp add: comp_def) blast
    have "drop ?j ?es = ?es ! ?j # drop (?j + 1) ?es" using lt by (simp add: Cons_nth_drop_Suc)
    with rp' act show ?thesis
      by (subst replay_all.simps) (simp add: should True step next_action_index_skips [of ?i ?es])
  next
    case False
    have "drop ?j ?es = []"
      using False next_action_index_stops [of ?es ?i] by (cases "?j < length ?es") simp_all
    moreover have "next_action_index ?es ?j = ?j"
      using calculation by (subst next_action_index.simps) simp
    ultimately show ?thesis using False "1.prems"
      by (subst replay_all.simps)
         (simp add: should next_action_index_skips [of ?i ?es] should_replay_def replayable_def)
  qed
qed

lemma without_wait_simps [simp]:
  "is_action (ev_body (without_wait e)) = is_action (ev_body e)" "\<not> waits (without_wait e)"
  "without_wait (without_wait e) = without_wait e"
  by (auto simp: without_wait_def waits_def split: body.splits action.splits)

definition answered :: "event \<Rightarrow> event" where
  \<comment> \<open>what \<open>new_replay\<close> makes of an event that is not the last\<close>
  "answered e = (if waits e then without_wait e else e)"

lemma answered_simps [simp]:
  "is_action (ev_body (answered e)) = is_action (ev_body e)" "\<not> waits (answered e)"
  "without_wait (answered e) = without_wait e"
  by (simp_all add: answered_def)

lemma new_replay_events:
  "kept_for_replay es \<noteq> [] \<Longrightarrow> new_replay (Some es) =
     \<lparr>rp_events = map answered (butlast (kept_for_replay es)) @ [last (kept_for_replay es)], rp_mode = True, rp_index = 0\<rparr>"
  by (cases "kept_for_replay es" rule: rev_cases) (auto simp: new_replay_def answered_def [abs_def])

text \<open>
  Replaying a trajectory ends, and takes the place of the agent with exactly the actions of the trajectory that the
  environment did not issue, in their order; only the last of them may still wait for an answer of the user. Afterwards
  nothing is replayed any more.
\<close>

theorem replay_plays_actions:
  "case replay_all (new_replay (Some es)) of (played, rp) \<Rightarrow>
     map without_wait played = map without_wait (filter (\<lambda>e. is_action (ev_body e) \<and> \<not> from_environment e) es)
     \<and> list_all (\<lambda>e. \<not> waits e) (butlast played) \<and> \<not> snd (should_replay rp)"
proof (cases "kept_for_replay es = []")
  case True
  then have "filter (\<lambda>e. is_action (ev_body e) \<and> \<not> from_environment e) es = []"
    by (simp add: kept_for_replay_def filter_empty_conv) (metis is_class_kind(3) is_observation_iff)
  moreover have "new_replay (Some es) = \<lparr>rp_events = [], rp_mode = False, rp_index = 0\<rparr>"
    using True by (simp add: new_replay_def)
  moreover have "replay_all \<lparr>rp_events = [], rp_mode = False, rp_index = 0\<rparr> =
      ([], \<lparr>rp_events = [], rp_mode = False, rp_index = 0\<rparr>)"
    by (subst replay_all.simps) (simp add: should_replay_def)
  ultimately show ?thesis by (simp add: should_replay_def)
next
  case False
  let ?kept = "kept_for_replay es"
  let ?played = "filter (is_action \<circ> ev_body) (map answered (butlast ?kept) @ [last ?kept])"
  have acts: "filter (is_action \<circ> ev_body) ?kept = filter (\<lambda>e. is_action (ev_body e) \<and> \<not> from_environment e) es"
    by (auto simp: kept_for_replay_def intro!: filter_cong dest: is_class_kind(3))
  have "map without_wait ?played = map without_wait (filter (is_action \<circ> ev_body) (butlast ?kept @ [last ?kept]))"
    by (simp add: filter_map comp_def)
  then have "map without_wait ?played = map without_wait (filter (is_action \<circ> ev_body) ?kept)"
    using False by simp
  moreover have "list_all (\<lambda>e. \<not> waits e) (butlast ?played)"
    by (cases "is_action (ev_body (last ?kept))") (auto simp: list_all_iff dest!: in_set_butlastD)
  moreover obtain rp where "replay_all (new_replay (Some es)) = (?played, rp)" "\<not> snd (should_replay rp)"
    using replay_all_actions [of "new_replay (Some es)"] by (auto simp: new_replay_events [OF False])
  ultimately show ?thesis by (simp only: acts prod.case simp_thms)
qed

end
