(* ===== verification/Effects.thy ===== *)
theory Effects
  imports Prelude
begin

text \<open>
  Computations that change a state and may raise, for the parts of the program that thread both through many
  calls, and invariants of them. An exception carries what a handler can ask of it: the name and the text, the
  classes among those that handlers test it belongs to, and the attributes \<open>retry_attempt\<close> and \<open>max_retries\<close>.
\<close>

section \<open>Exceptions with their classes\<close>

datatype tested_class =
    C_Timeout | C_APIError | C_APIConnectionError | C_AuthenticationError | C_BadRequestError
  | C_ContentPolicyViolationError | C_ContextWindowExceededError | C_InternalServerError | C_NotFoundError
  | C_OpenAIError | C_RateLimitError | C_ServiceUnavailableError
  | C_LLMMalformedActionError | C_LLMNoActionError | C_LLMResponseError
  | C_FunctionCallValidationError | C_FunctionCallNotExistsError | C_LLMContextWindowExceedError

record exc =
  ex_name :: string
  ex_str :: string
  ex_classes :: "tested_class list"
  ex_retry :: "(int \<times> int) option"

definition isinstance_exc :: "exc \<Rightarrow> tested_class list \<Rightarrow> bool" where
  "isinstance_exc e cs = list_ex (\<lambda>c. c \<in> set (ex_classes e)) cs"

definition plain_exc :: "string \<Rightarrow> string \<Rightarrow> tested_class list \<Rightarrow> exc" where
  "plain_exc nm s cs = \<lparr>ex_name = nm, ex_str = s, ex_classes = cs, ex_retry = None\<rparr>"

text \<open>
  The exceptions of the modelled code. The texts of those that the interpreter raises are not modelled: no handler
  reads them.
\<close>

fun exc_of :: "py_error \<Rightarrow> exc" where
  "exc_of FileNotFoundError = plain_exc ''FileNotFoundError'' [] []"
| "exc_of (ValueError s) = plain_exc ''ValueError'' s []"
| "exc_of (KeyError s) = plain_exc ''KeyError'' s []"
| "exc_of (TypeError s) = plain_exc ''TypeError'' s []"
| "exc_of IndexError = plain_exc ''IndexError'' [] []"
| "exc_of AssertionError = plain_exc ''AssertionError'' [] []"
| "exc_of (AttributeError s) = plain_exc ''AttributeError'' s []"
| "exc_of (RuntimeError s) = plain_exc ''RuntimeError'' s []"
| "exc_of (LLMMalformedActionError s) = plain_exc ''LLMMalformedActionError'' s [C_LLMMalformedActionError]"
| "exc_of (LLMNoActionError s) = plain_exc ''LLMNoActionError'' s [C_LLMNoActionError]"
| "exc_of (LLMResponseError s) = plain_exc ''LLMResponseError'' s [C_LLMResponseError]"
| "exc_of (FunctionCallValidationError s) = plain_exc ''FunctionCallValidationError'' s [C_FunctionCallValidationError]"
| "exc_of (FunctionCallNotExistsError s) = plain_exc ''FunctionCallNotExistsError'' s [C_FunctionCallNotExistsError]"
| "exc_of (LLMContextWindowExceedError s) = plain_exc ''LLMContextWindowExceedError'' s [C_LLMContextWindowExceedError]"
| "exc_of (AgentStuckInLoopError s) = plain_exc ''AgentStuckInLoopError'' s []"
| "exc_of (OtherError nm s) = plain_exc nm s []"

section \<open>Computations\<close>

type_synonym ('w, 'a) eff = "'w \<Rightarrow> 'w \<times> (exc + 'a)"

definition ret :: "'a \<Rightarrow> ('w, 'a) eff" where
  "ret a = (\<lambda>w. (w, Inr a))"

definition raise :: "exc \<Rightarrow> ('w, 'a) eff" where
  "raise e = (\<lambda>w. (w, Inl e))"

definition and_then :: "('w, 'a) eff \<Rightarrow> ('a \<Rightarrow> ('w, 'b) eff) \<Rightarrow> ('w, 'b) eff" where
  "and_then m f = (\<lambda>w. case m w of (w, Inl e) \<Rightarrow> (w, Inl e) | (w, Inr a) \<Rightarrow> f a w)"

definition seqm :: "('w, 'a) eff \<Rightarrow> ('w, 'b) eff \<Rightarrow> ('w, 'b) eff" where
  "seqm m n = and_then m (\<lambda>_. n)"

fun block :: "('w, unit) eff list \<Rightarrow> ('w, unit) eff" where
  \<comment> \<open>statements one after the other\<close>
  "block [] = ret ()"
| "block [m] = m"
| "block (m # n # ms) = seqm m (block (n # ms))"

definition try_except :: "('w, 'a) eff \<Rightarrow> (exc \<Rightarrow> ('w, 'a) eff) \<Rightarrow> ('w, 'a) eff" where
  "try_except m h = (\<lambda>w. case m w of (w, Inl e) \<Rightarrow> h e w | (w, Inr a) \<Rightarrow> (w, Inr a))"

definition asks_for :: "('w \<Rightarrow> 'a) \<Rightarrow> ('w, 'a) eff" where
  "asks_for f = (\<lambda>w. (w, Inr (f w)))"

definition reading :: "('w \<Rightarrow> 'a) \<Rightarrow> ('a \<Rightarrow> ('w, 'b) eff) \<Rightarrow> ('w, 'b) eff" where
  "reading f m = (\<lambda>w. m (f w) w)"

definition change :: "('w \<Rightarrow> 'w) \<Rightarrow> ('w, unit) eff" where
  "change f = (\<lambda>w. (f w, Inr ()))"

definition whenm :: "bool \<Rightarrow> ('w, unit) eff \<Rightarrow> ('w, unit) eff" where
  "whenm b m = (if b then m else ret ())"

definition of_res :: "'a res \<Rightarrow> ('w, 'a) eff" where
  "of_res r = (\<lambda>w. (w, case r of Inl err \<Rightarrow> Inl (exc_of err) | Inr a \<Rightarrow> Inr a))"

named_theorems eff_defs \<open>definitions of the combinators, to run a computation\<close>

lemmas [eff_defs] = ret_def raise_def and_then_def seqm_def try_except_def asks_for_def reading_def change_def
  whenm_def of_res_def

lemma ret_then [simp]: "and_then (ret a) f = f a"
  by (simp add: eff_defs)

lemma raise_then [simp]: "and_then (raise e) f = raise e"
  by (simp add: eff_defs fun_eq_iff)

lemma and_then_assoc: "and_then (and_then m f) g = and_then m (\<lambda>a. and_then (f a) g)"
  by (simp add: eff_defs fun_eq_iff split: prod.splits sum.splits)

lemma and_then_Inr: "and_then m f w = (w', Inr b) \<longleftrightarrow> (\<exists>w1 a. m w = (w1, Inr a) \<and> f a w1 = (w', Inr b))"
  by (auto simp: eff_defs split: prod.splits sum.splits)

lemma seqm_Inr: "seqm m n w = (w', Inr b) \<longleftrightarrow> (\<exists>w1 a. m w = (w1, Inr a) \<and> n w1 = (w', Inr b))"
  by (simp add: seqm_def and_then_Inr)

lemma run_simps [simp]:
  "reading f m w = m (f w) w" "change g w = (g w, Inr ())" "ret a w = (w, Inr a)" "raise e w = (w, Inl e)"
  "whenm True n = n" "whenm False n = ret ()" "seqm (change g) l w = l (g w)"
  by (simp_all add: eff_defs)

section \<open>Invariants\<close>

text \<open>An invariant that holds whether the computation returns or raises.\<close>

definition keeps :: "('w \<Rightarrow> bool) \<Rightarrow> ('w, 'a) eff \<Rightarrow> bool" where
  "keeps I m \<longleftrightarrow> (\<forall>w. I w \<longrightarrow> I (fst (m w)))"

named_theorems keep \<open>computations that keep an invariant\<close>

lemma keepsD: "keeps I m \<Longrightarrow> I w \<Longrightarrow> I (fst (m w))"
  by (simp add: keeps_def)

lemma keeps_ret [keep, intro]: "keeps I (ret a)"
  by (simp add: keeps_def eff_defs)

lemma keeps_raise [keep, intro]: "keeps I (raise e)"
  by (simp add: keeps_def eff_defs)

lemma keeps_and_then [keep, intro]: "keeps I m \<Longrightarrow> (\<And>a. keeps I (f a)) \<Longrightarrow> keeps I (and_then m f)"
  by (fastforce simp: keeps_def eff_defs split: prod.splits sum.splits)

lemma keeps_seqm [keep, intro]: "keeps I m \<Longrightarrow> keeps I n \<Longrightarrow> keeps I (seqm m n)"
  by (simp add: seqm_def keeps_and_then)

lemma keeps_block [keep, intro]: "list_all (keeps I) ms \<Longrightarrow> keeps I (block ms)"
  by (induction ms rule: block.induct) (auto simp: keeps_ret keeps_seqm)

lemma list_all_intros [keep]: "list_all P []" "P x \<Longrightarrow> list_all P xs \<Longrightarrow> list_all P (x # xs)"
  by simp_all

lemma keeps_try [keep, intro]: "keeps I m \<Longrightarrow> (\<And>e. keeps I (h e)) \<Longrightarrow> keeps I (try_except m h)"
  by (fastforce simp: keeps_def eff_defs split: prod.splits sum.splits)

lemma keeps_asks [keep, intro]: "keeps I (asks_for f)"
  by (simp add: keeps_def eff_defs)

lemma keeps_reading [keep]: "(\<And>a. keeps I (m a)) \<Longrightarrow> keeps I (reading f m)"
  by (simp add: keeps_def eff_defs)

lemma keeps_whenm [keep, intro]: "(b \<Longrightarrow> keeps I m) \<Longrightarrow> keeps I (whenm b m)"
  by (simp add: keeps_def eff_defs)

lemma keeps_of_res [keep, intro]: "keeps I (of_res r)"
  by (simp add: keeps_def eff_defs)

lemma keeps_change: "(\<And>w. I w \<Longrightarrow> I (f w)) \<Longrightarrow> keeps I (change f)"
  by (simp add: keeps_def eff_defs)

lemma keeps_if [keep, intro]: "(b \<Longrightarrow> keeps I m) \<Longrightarrow> (\<not> b \<Longrightarrow> keeps I n) \<Longrightarrow> keeps I (if b then m else n)"
  by simp

lemma keeps_option [keep, intro]:
  "(x = None \<Longrightarrow> keeps I m) \<Longrightarrow> (\<And>y. x = Some y \<Longrightarrow> keeps I (f y)) \<Longrightarrow>
     keeps I (case x of None \<Rightarrow> m | Some y \<Rightarrow> f y)"
  by (cases x) simp_all

lemma keeps_pair [keep]: "(\<And>a b. x = (a, b) \<Longrightarrow> keeps I (f a b)) \<Longrightarrow> keeps I (case x of (a, b) \<Rightarrow> f a b)"
  by (cases x) simp

lemma keeps_Let [keep]: "keeps I (f x) \<Longrightarrow> keeps I (Let x f)"
  by (simp add: Let_def)

end
