(* ===== verification/Controller.thy ===== *)
theory Controller
  imports StateTracker Replay Effects
begin

text \<open>
  The agent controller (\<open>openhands/controller/agent_controller.py\<close>): it hears the events of the stream, keeps the history,
  moves the agent between its states, lets the agent act one action at a time, and runs delegates.

  The state \<open>world\<close> holds the event stream, the flags and metrics that a delegate shares with its parent, and the
  chain of controllers: the root is at index 0 and the delegate of the controller at index \<open>i\<close> is at index \<open>i + 1\<close>.
  An operation of a controller takes its index. It is a computation of \<open>Effects\<close>: the world after it, and its result or
  the exception it raised. Coroutines run to their end before the next event is handled.

  What is not in the repository or not code of the controller is an argument, collected in the record
  \<open>env\<close>: the file stores, the clock, the agents' own \<open>step\<close>, \<open>reset\<close>, system message and configuration, the registry
  of agent classes and the security analyzer. The pending action is the object that was added to the stream, so
  adding it writes its id and time into the field. Logging and usage tracking are left out.
\<close>

section \<open>The state of the controllers\<close>

record agent_config =
  ac_enable_stuck_detection :: bool
  ac_enable_history_truncation :: bool
  ac_cli_mode :: bool

record 'g ctrl =
  c_id :: string
  c_user_id :: "string option"
  c_sid :: "string option"
  c_has_store :: bool
  c_agent :: 'g
  c_headless_mode :: bool
  c_is_delegate :: bool
  c_state :: state
  c_agent_configs :: "(string \<times> agent_config) list"
  c_initial_max_iterations :: int
  c_initial_max_budget :: "rat option"
  c_has_callback :: bool
  c_replay :: replay
  c_confirmation_mode :: bool
  c_pending :: "event option"
  c_closed :: bool
  c_cached_first_user_message :: "event option"
  c_analysis :: "stuck_analysis option"

record ('s, 'k, 'p, 'g) world =
  w_stream :: "('s, 'k) event_stream"
  w_shared :: shared
  w_ctrls :: "'g ctrl list"
  w_sessions :: 'p
  w_clock :: nat
  w_status :: "(string \<times> string \<times> string) list"

record ('s, 'k, 'p, 'g) env =
  en_wr :: "string \<Rightarrow> json \<Rightarrow> 's \<Rightarrow> 's"
  en_rd :: "'s \<Rightarrow> string \<Rightarrow> json res"
  en_ls :: "'s \<Rightarrow> string \<Rightarrow> string list res"
  en_lit :: "string \<Rightarrow> dict option"
  en_cont :: "int \<Rightarrow> bool"
  en_now :: "nat \<Rightarrow> string"
  en_callback :: 'k
  en_save :: "string \<Rightarrow> saved_state \<Rightarrow> 'p \<Rightarrow> 'p"
  en_delete :: "string \<Rightarrow> 'p \<Rightarrow> 'p"
  en_step :: "'g \<Rightarrow> state \<Rightarrow> shared \<Rightarrow> 'g \<times> state \<times> shared \<times> (exc + event option)"
  en_reset :: "'g \<Rightarrow> 'g"
  en_system_message :: "'g \<Rightarrow> event option"
  en_name :: "'g \<Rightarrow> string"
  en_config :: "'g \<Rightarrow> agent_config"
  en_make_agent :: "string \<Rightarrow> agent_config \<Rightarrow> 'g \<Rightarrow> 'g res"
  en_analyzer :: "(event \<Rightarrow> exc + security_risk) option"

definition cur :: "nat \<Rightarrow> ('s, 'k, 'p, 'g) world \<Rightarrow> 'g ctrl" where
  "cur i w = w_ctrls w ! i"

definition upd :: "nat \<Rightarrow> ('g ctrl \<Rightarrow> 'g ctrl) \<Rightarrow> ('s, 'k, 'p, 'g) world \<Rightarrow> ('s, 'k, 'p, 'g) world" where
  "upd i f w = w\<lparr>w_ctrls := (w_ctrls w)[i := f (w_ctrls w ! i)]\<rparr>"

definition get_agent_state :: "nat \<Rightarrow> ('s, 'k, 'p, 'g) world \<Rightarrow> agent_state" where
  "get_agent_state i w = s_agent_state (c_state (cur i w))"

definition change_ctrl :: "nat \<Rightarrow> ('g ctrl \<Rightarrow> 'g ctrl) \<Rightarrow> (('s, 'k, 'p, 'g) world, unit) eff" where
  "change_ctrl i f = change (upd i f)"

definition change_state :: "nat \<Rightarrow> (state \<Rightarrow> state) \<Rightarrow> (('s, 'k, 'p, 'g) world, unit) eff" where
  "change_state i f = change_ctrl i (\<lambda>c. c\<lparr>c_state := f (c_state c)\<rparr>)"

definition set_pending :: "nat \<Rightarrow> event option \<Rightarrow> (('s, 'k, 'p, 'g) world, unit) eff" where
  "set_pending i p = change_ctrl i (\<lambda>c. c\<lparr>c_pending := p\<rparr>)"

section \<open>Events of the controller\<close>

definition publish :: "('s, 'k, 'p, 'g) env \<Rightarrow> event \<Rightarrow> event_source \<Rightarrow> (('s, 'k, 'p, 'g) world, unit) eff" where
  \<comment> \<open>\<open>self.event_stream.add_event(e, source)\<close> for an object that is not used any more\<close>
  "publish E e source = (\<lambda>w.
     case add_event (en_wr E) (en_ls E) (en_lit E) (en_now E (w_clock w)) e source (w_stream w) of (st, _, r) \<Rightarrow>
       (w\<lparr>w_stream := st, w_clock := w_clock w + 1\<rparr>, case r of Inl err \<Rightarrow> Inl (exc_of err) | Inr _ \<Rightarrow> Inr ()))"

definition publish_pending :: "('s, 'k, 'p, 'g) env \<Rightarrow> nat \<Rightarrow> event_source \<Rightarrow> (('s, 'k, 'p, 'g) world, unit) eff" where
  \<comment> \<open>\<open>add_event\<close> of the pending action, which it changes in place\<close>
  "publish_pending E i source = (\<lambda>w.
     case c_pending (cur i w) of
       None \<Rightarrow> (w, Inr ())
     | Some e \<Rightarrow>
         (case add_event (en_wr E) (en_ls E) (en_lit E) (en_now E (w_clock w)) e source (w_stream w) of (st, e', r) \<Rightarrow>
            (upd i (\<lambda>c. c\<lparr>c_pending := Some e'\<rparr>) (w\<lparr>w_stream := st, w_clock := w_clock w + 1\<rparr>),
             case r of Inl err \<Rightarrow> Inl (exc_of err) | Inr _ \<Rightarrow> Inr ())))"

text \<open>The first event of the stream from \<open>start_id\<close> on that has the property; the search reads no further.\<close>

definition first_in_stream ::
  "('s, 'k, 'p, 'g) env \<Rightarrow> bool \<Rightarrow> int \<Rightarrow> (event \<Rightarrow> bool) \<Rightarrow> (('s, 'k, 'p, 'g) world, event option) eff" where
  "first_in_stream E reverse start_id p = (\<lambda>w.
     case search_events (en_rd E) (en_ls E) (en_lit E) (en_cont E) start_id None reverse None None (w_stream w) of
       (st, es, err) \<Rightarrow>
         (w\<lparr>w_stream := st\<rparr>,
          case find p es of
            Some e \<Rightarrow> Inr (Some e)
          | None \<Rightarrow> (case err of None \<Rightarrow> Inr None | Some x \<Rightarrow> Inl (exc_of x))))"

definition new_message :: "string \<Rightarrow> event" where
  "new_message content = new_action (MessageAction \<lparr>ma_content = content, ma_file_urls = None, ma_image_urls = None,
     ma_wait_for_response = False, ma_security_risk = Some RISK_UNKNOWN\<rparr>)"

section \<open>States of the agent\<close>

definition ERROR_ACTION_NOT_EXECUTED_STOPPED_ID :: string where
  "ERROR_ACTION_NOT_EXECUTED_STOPPED_ID = ''AGENT_ERROR$ERROR_ACTION_NOT_EXECUTED_STOPPED''"

definition ERROR_ACTION_NOT_EXECUTED_ERROR_ID :: string where
  "ERROR_ACTION_NOT_EXECUTED_ERROR_ID = ''AGENT_ERROR$ERROR_ACTION_NOT_EXECUTED_ERROR''"

definition ERROR_ACTION_NOT_EXECUTED_STOPPED :: string where
  "ERROR_ACTION_NOT_EXECUTED_STOPPED = ''Stop button pressed. The action has not been executed.''"

definition ERROR_ACTION_NOT_EXECUTED_ERROR :: string where
  "ERROR_ACTION_NOT_EXECUTED_ERROR =
     ''The action has not been executed due to a runtime error. The runtime system may have crashed and restarted due ''
     @ ''to resource constraints. Any previously established system state, dependencies, or environment variables may ''
     @ ''have been lost.''"

definition same_metadata :: "tool_call_metadata option \<Rightarrow> tool_call_metadata option \<Rightarrow> bool" where
  "same_metadata a b =
     (case (a, b) of
        (None, None) \<Rightarrow> True
      | (Some x, Some y) \<Rightarrow>
          tc_function_name x = tc_function_name y \<and> tc_tool_call_id x = tc_tool_call_id y
          \<and> py_eq (tc_model_response x) (tc_model_response y)
          \<and> tc_total_calls_in_response x = tc_total_calls_in_response y
      | _ \<Rightarrow> False)"

definition has_observation_for :: "event list \<Rightarrow> event \<Rightarrow> bool" where
  "has_observation_for history p =
     list_ex (\<lambda>e. is_observation (ev_body e) \<and> same_metadata (ev_tool_call_metadata e) (ev_tool_call_metadata p)) history"

definition not_executed :: "agent_state \<Rightarrow> event \<Rightarrow> event" where
  "not_executed s p =
     (new_obs (if s = STOPPED
               then ErrorObservation ERROR_ACTION_NOT_EXECUTED_STOPPED ERROR_ACTION_NOT_EXECUTED_STOPPED_ID
               else ErrorObservation ERROR_ACTION_NOT_EXECUTED_ERROR ERROR_ACTION_NOT_EXECUTED_ERROR_ID))
       \<lparr>ev_tool_call_metadata := ev_tool_call_metadata p, ev_cause := Some (event_id p)\<rparr>"

definition reset_agent :: "('s, 'k, 'p, 'g) env \<Rightarrow> nat \<Rightarrow> (('s, 'k, 'p, 'g) world, unit) eff" where
  "reset_agent E i = block
     [reading (cur i) (\<lambda>c. case c_pending c of
        None \<Rightarrow> ret ()
      | Some p \<Rightarrow> whenm (\<not> has_observation_for (s_history (c_state c)) p)
                    (publish E (not_executed (s_agent_state (c_state c)) p) AGENT)),
      set_pending i None,
      change_ctrl i (\<lambda>c. c\<lparr>c_agent := en_reset E (c_agent c)\<rparr>)]"

definition controller_save_state :: "('s, 'k, 'p, 'g) env \<Rightarrow> nat \<Rightarrow> (('s, 'k, 'p, 'g) world, unit) eff" where
  "controller_save_state E i = change (\<lambda>w. let c = cur i w in
     w\<lparr>w_sessions := save_state (en_save E) (en_delete E) (c_sid c) (c_has_store c) (c_user_id c) (c_state c) (w_shared w)
         (w_sessions w)\<rparr>)"

definition confirmed_as :: "agent_state \<Rightarrow> event \<Rightarrow> event" where
  \<comment> \<open>what becomes of the pending action when the user has answered\<close>
  "confirmed_as s e =
     (set_event_confirmation (if s = USER_CONFIRMED then CONFIRMED else CONF_REJECTED)
        (case ev_body e of Act a \<Rightarrow> e\<lparr>ev_body := Act (set_thought_empty a)\<rparr> | Obs _ \<Rightarrow> e))\<lparr>ev_id := None\<rparr>"

definition answer_pending :: "('s, 'k, 'p, 'g) env \<Rightarrow> nat \<Rightarrow> agent_state \<Rightarrow> (('s, 'k, 'p, 'g) world, unit) eff" where
  "answer_pending E i s = reading (cur i) (\<lambda>c. case c_pending c of
       None \<Rightarrow> ret ()
     | Some p \<Rightarrow> seqm (set_pending i (Some (confirmed_as s p))) (publish_pending E i AGENT))"

definition set_agent_state_to ::
  "('s, 'k, 'p, 'g) env \<Rightarrow> nat \<Rightarrow> agent_state \<Rightarrow> (('s, 'k, 'p, 'g) world, unit) eff" where
  "set_agent_state_to E i s = reading (get_agent_state i) (\<lambda>old_state.
     if s = old_state then ret () else block
      [change_state i (\<lambda>st. st\<lparr>s_agent_state := s\<rparr>),
       whenm (s = STOPPED \<or> s = ERROR) (reset_agent E i),
       whenm (old_state = ERROR \<and> s = RUNNING) (change (\<lambda>w.
         w\<lparr>w_shared := maybe_increase_control_flags_limits (c_headless_mode (cur i w)) (w_shared w)\<rparr>)),
       whenm (s = USER_CONFIRMED \<or> s = USER_REJECTED) (answer_pending E i s),
       reading (\<lambda>w. c_state (cur i w)) (\<lambda>st. publish E
         (new_obs (AgentStateChangedObservation [] (s_agent_state st) (if s = ERROR then s_last_error st else []))) ENVIRONMENT),
       controller_save_state E i])"

section \<open>Exceptions\<close>

definition STATUS_ERROR :: string where "STATUS_ERROR = ''STATUS$ERROR''"

definition llm_status :: "exc \<Rightarrow> string option" where
  "llm_status x =
     (if isinstance_exc x [C_AuthenticationError] then Some ''STATUS$ERROR_LLM_AUTHENTICATION''
      else if isinstance_exc x [C_ServiceUnavailableError, C_APIConnectionError, C_APIError]
      then Some ''STATUS$ERROR_LLM_SERVICE_UNAVAILABLE''
      else if isinstance_exc x [C_InternalServerError] then Some ''STATUS$ERROR_LLM_INTERNAL_SERVER_ERROR''
      else if isinstance_exc x [C_BadRequestError] \<and> py_contains (ex_str x) ''ExceededBudget''
      then Some ''STATUS$ERROR_LLM_OUT_OF_CREDITS''
      else if isinstance_exc x [C_ContentPolicyViolationError]
        \<or> isinstance_exc x [C_BadRequestError] \<and> py_contains (ex_str x) ''ContentPolicyViolationError''
      then Some ''STATUS$ERROR_LLM_CONTENT_POLICY_VIOLATION''
      else None)"

definition retries_exhausted :: "exc \<Rightarrow> bool" where
  "retries_exhausted x = (case ex_retry x of None \<Rightarrow> False | Some (attempt, max_retries) \<Rightarrow> max_retries \<le> attempt)"

definition set_last_error :: "nat \<Rightarrow> string \<Rightarrow> (('s, 'k, 'p, 'g) world, unit) eff" where
  "set_last_error i s = change_state i (\<lambda>st. st\<lparr>s_last_error := s\<rparr>)"

definition report_status :: "string \<Rightarrow> string \<Rightarrow> (('s, 'k, 'p, 'g) world, unit) eff" where
  \<comment> \<open>\<open>self.status_callback('error', status, text)\<close>\<close>
  "report_status status text = change (\<lambda>w. w\<lparr>w_status := w_status w @ [(''error'', status, text)]\<rparr>)"

definition react_to_exception :: "('s, 'k, 'p, 'g) env \<Rightarrow> nat \<Rightarrow> exc \<Rightarrow> (('s, 'k, 'p, 'g) world, unit) eff" where
  "react_to_exception E i x =
     (let text = ex_name x @ '': '' @ ex_str x in
      seqm (set_last_error i text) (reading (cur i) (\<lambda>c.
        if \<not> c_has_callback c then set_agent_state_to E i ERROR
        else case llm_status x of
          Some status \<Rightarrow> block [set_last_error i status, report_status status status, set_agent_state_to E i ERROR]
        | None \<Rightarrow>
            if isinstance_exc x [C_RateLimitError]
            then if retries_exhausted x
                 then seqm (set_last_error i ''CHAT_INTERFACE$AGENT_RATE_LIMITED_STOPPED_MESSAGE'') (set_agent_state_to E i ERROR)
                 else set_agent_state_to E i RATE_LIMITED
            else seqm (report_status STATUS_ERROR text) (set_agent_state_to E i ERROR))))"

definition reported :: "exc \<Rightarrow> exc" where
  "reported x =
     (if isinstance_exc x [C_Timeout, C_APIError, C_BadRequestError, C_NotFoundError, C_InternalServerError,
        C_AuthenticationError, C_RateLimitError, C_ContentPolicyViolationError, C_LLMContextWindowExceedError]
      then x
      else exc_of (RuntimeError (''There was an unexpected error while running the agent: '' @ ex_name x
             @ ''. You can refresh the page or ask the agent to try again.'')))"

section \<open>Steps\<close>

fun stuck_chain :: "'g ctrl list \<Rightarrow> bool \<times> 'g ctrl list" where
  \<comment> \<open>\<open>_is_stuck\<close> of the first controller of the list: its delegates come first\<close>
  "stuck_chain [] = (False, [])"
| "stuck_chain (c # ds) =
     (case stuck_chain ds of
        (True, ds) \<Rightarrow> (True, c # ds)
      | (False, ds) \<Rightarrow>
          (case is_stuck (c_headless_mode c) (s_history (c_state c)) (c_analysis c) of
             (stuck, a) \<Rightarrow> (stuck, c\<lparr>c_analysis := a\<rparr> # ds)))"

definition is_stuck_at :: "nat \<Rightarrow> (('s, 'k, 'p, 'g) world, bool) eff" where
  "is_stuck_at i = (\<lambda>w. case stuck_chain (drop i (w_ctrls w)) of
     (stuck, cs) \<Rightarrow> (w\<lparr>w_ctrls := take i (w_ctrls w) @ cs\<rparr>, Inr stuck))"

definition context_window_text :: "string \<Rightarrow> bool" where
  "context_window_text s =
     (py_contains s ''contextwindowexceedederror''
      \<or> py_contains s ''prompt is too long''
      \<or> py_contains s ''input length and `max_tokens` exceed context limit''
      \<or> py_contains s ''please reduce the length of''
      \<or> py_contains s ''the request exceeds the available context size''
      \<or> py_contains s ''context length exceeded''
      \<or> py_contains s ''sambanovaexception'' \<and> py_contains s ''maximum context length'')"

definition context_window_message :: string where
  "context_window_message =
     ''Conversation history longer than LLM context window limit. Consider turning on enable_history_truncation config''
     @ '' to avoid this error''"

text \<open>What \<open>_step\<close> does with an exception of the agent; the result \<open>None\<close> stands for its early return.\<close>

definition agent_failed ::
  "('s, 'k, 'p, 'g) env \<Rightarrow> nat \<Rightarrow> exc \<Rightarrow> (('s, 'k, 'p, 'g) world, event option) eff" where
  "agent_failed E i x =
     (if isinstance_exc x [C_LLMMalformedActionError, C_LLMNoActionError, C_LLMResponseError,
           C_FunctionCallValidationError, C_FunctionCallNotExistsError]
      then seqm (publish E (new_obs (ErrorObservation (ex_str x) [])) AGENT) (ret None)
      else if isinstance_exc x [C_ContextWindowExceededError, C_BadRequestError, C_OpenAIError]
      then if context_window_text (py_lower (ex_str x)) \<or> isinstance_exc x [C_ContextWindowExceededError]
           then reading (cur i) (\<lambda>c.
             if ac_enable_history_truncation (en_config E (c_agent c))
             then seqm (publish E (new_action CondensationRequestAction) AGENT) (ret None)
             else raise (exc_of (LLMContextWindowExceedError context_window_message)))
           else raise x
      else raise x)"

definition ask_agent :: "('s, 'k, 'p, 'g) env \<Rightarrow> nat \<Rightarrow> (('s, 'k, 'p, 'g) world, event option) eff" where
  "ask_agent E i = (\<lambda>w.
     case en_step E (c_agent (cur i w)) (c_state (cur i w)) (w_shared w) of (g, s, sh, r) \<Rightarrow>
       let w = upd i (\<lambda>c. c\<lparr>c_agent := g, c_state := s\<rparr>) (w\<lparr>w_shared := sh\<rparr>) in
       case r of
         Inl x \<Rightarrow> agent_failed E i x w
       | Inr None \<Rightarrow> agent_failed E i (exc_of (LLMNoActionError ''No action was returned'')) w
       | Inr (Some e) \<Rightarrow> (w, Inr (Some (e\<lparr>ev_source := Some AGENT\<rparr>))))"

definition take_replayed :: "nat \<Rightarrow> (('s, 'k, 'p, 'g) world, event option) eff" where
  "take_replayed i = reading (cur i) (\<lambda>c. case replay_step (c_replay c) of (rp, r) \<Rightarrow>
     seqm (change_ctrl i (\<lambda>c. c\<lparr>c_replay := rp\<rparr>)) (and_then (of_res r) (\<lambda>e. ret (Some e))))"

definition next_action :: "('s, 'k, 'p, 'g) env \<Rightarrow> nat \<Rightarrow> (('s, 'k, 'p, 'g) world, event option) eff" where
  "next_action E i = reading (cur i) (\<lambda>c. case should_replay (c_replay c) of (rp, replay) \<Rightarrow>
     seqm (change_ctrl i (\<lambda>c. c\<lparr>c_replay := rp\<rparr>)) (if replay then take_replayed i else ask_agent E i))"

definition analyzed :: "('s, 'k, 'p, 'g) env \<Rightarrow> event \<Rightarrow> event" where
  \<comment> \<open>\<open>_handle_security_analyzer\<close>\<close>
  "analyzed E e =
     (case ev_body e of
        Act a \<Rightarrow>
          (if action_risk a = None then e
           else e\<lparr>ev_body := Act (set_action_risk
                  (case en_analyzer E of
                     Some f \<Rightarrow> (case f e of Inr r \<Rightarrow> r | Inl _ \<Rightarrow> RISK_UNKNOWN)
                   | None \<Rightarrow> RISK_UNKNOWN) a)\<rparr>)
      | Obs _ \<Rightarrow> e)"

definition guarded_class :: "action \<Rightarrow> bool" where
  "guarded_class a =
     (case a of CmdRunAction _ \<Rightarrow> True | IPythonRunCellAction _ \<Rightarrow> True | BrowseInteractiveAction _ \<Rightarrow> True
      | FileEditAction _ \<Rightarrow> True | FileReadAction _ \<Rightarrow> True | _ \<Rightarrow> False)"

definition risk_of_event :: "event \<Rightarrow> security_risk option" where
  \<comment> \<open>\<open>getattr(action, 'security_risk', UNKNOWN)\<close>\<close>
  "risk_of_event e = (case ev_body e of
       Act a \<Rightarrow> (case action_risk a of None \<Rightarrow> Some RISK_UNKNOWN | Some r \<Rightarrow> r)
     | Obs _ \<Rightarrow> Some RISK_UNKNOWN)"

definition confirmation_gate :: "('s, 'k, 'p, 'g) env \<Rightarrow> 'g ctrl \<Rightarrow> action \<Rightarrow> event \<Rightarrow> event" where
  "confirmation_gate E c a e =
     (if s_confirmation_mode (c_state c) \<and> guarded_class a
      then let e = analyzed E e;
               is_high = (risk_of_event e = Some RISK_HIGH);
               is_ask_for_every_action = (risk_of_event e = Some RISK_UNKNOWN \<and> en_analyzer E = None)
           in if ac_cli_mode (en_config E (c_agent c)) then set_event_confirmation AWAITING_CONFIRMATION e
              else if (is_high \<or> is_ask_for_every_action) \<and> c_confirmation_mode c
              then set_event_confirmation AWAITING_CONFIRMATION e
              else e
      else e)"

definition stats_of :: "shared \<Rightarrow> conversation_stats" where
  "stats_of sh = (case sh_conversation_stats sh of Some stats \<Rightarrow> stats
     | None \<Rightarrow> \<lparr>service_to_metrics = [], restored_metrics = []\<rparr>)"

definition frontend_metrics :: "shared \<Rightarrow> metrics res" where
  \<comment> \<open>\<open>_prepare_metrics_for_frontend\<close>\<close>
  "frontend_metrics sh =
     (let m = get_combined_metrics (stats_of sh) in
      bind_res (set_accumulated_cost (accumulated_cost m) (new_metrics ''default'')) (\<lambda>clean.
        Inr (clean\<lparr>accumulated_token_usage := accumulated_token_usage m,
               max_budget_per_task := (case sh_budget_flag sh of Some f \<Rightarrow> Some (max_value f)
                  | None \<Rightarrow> max_budget_per_task clean)\<rparr>)))"

definition send_action ::
  "('s, 'k, 'p, 'g) env \<Rightarrow> nat \<Rightarrow> bool \<Rightarrow> event \<Rightarrow> (('s, 'k, 'p, 'g) world, unit) eff" where
  \<comment> \<open>the flag says that the action is also the pending one\<close>
  "send_action E i is_pending e =
     seqm (whenm (event_confirmation e = Some AWAITING_CONFIRMATION) (set_agent_state_to E i AWAITING_USER_CONFIRMATION))
      (reading w_shared (\<lambda>sh. and_then (of_res (frontend_metrics sh)) (\<lambda>m.
        let e = e\<lparr>ev_llm_metrics := Some m\<rparr> in
        seqm (whenm is_pending (set_pending i (Some e)))
          (case ev_source e of
             None \<Rightarrow> raise (exc_of (AttributeError ''_source''))
           | Some source \<Rightarrow> if is_pending then publish_pending E i source else publish E e source))))"

definition perform_action :: "('s, 'k, 'p, 'g) env \<Rightarrow> nat \<Rightarrow> event \<Rightarrow> (('s, 'k, 'p, 'g) world, unit) eff" where
  "perform_action E i e =
     (case ev_body e of
        Obs _ \<Rightarrow> raise (exc_of (AttributeError ''runnable''))
      | Act a \<Rightarrow> reading (cur i) (\<lambda>c.
          let e = (if runnable a then confirmation_gate E c a e else e) in
          seqm (whenm (runnable a) (set_pending i (Some e)))
               (whenm (\<not> is_null_action (ev_body e)) (send_action E i (runnable a) e))))"

definition run_flags :: "(('s, 'k, 'p, 'g) world, exc option) eff" where
  \<comment> \<open>the exception of \<open>run_control_flags\<close>, if it raised one\<close>
  "run_flags = (\<lambda>w. case run_control_flags (w_shared w) of (sh, r) \<Rightarrow>
     (w\<lparr>w_shared := sh\<rparr>, Inr (case r of Inl err \<Rightarrow> Some (exc_of err) | Inr _ \<Rightarrow> None)))"

definition check_stuck :: "('s, 'k, 'p, 'g) env \<Rightarrow> nat \<Rightarrow> (('s, 'k, 'p, 'g) world, bool) eff" where
  "check_stuck E i = reading (cur i) (\<lambda>c.
     if ac_enable_stuck_detection (en_config E (c_agent c)) then is_stuck_at i else ret False)"

definition step :: "('s, 'k, 'p, 'g) env \<Rightarrow> nat \<Rightarrow> (('s, 'k, 'p, 'g) world, unit) eff" where
  "step E i = reading (cur i) (\<lambda>c.
     if s_agent_state (c_state c) \<noteq> RUNNING then ret ()
     else if c_pending c \<noteq> None then ret ()
     else seqm (change (\<lambda>w. w\<lparr>w_shared := sync_budget_flag_with_metrics (w_shared w)\<rparr>))
       (and_then (check_stuck E i) (\<lambda>stuck.
         if stuck then react_to_exception E i (exc_of (AgentStuckInLoopError ''Agent got stuck in a loop''))
         else and_then run_flags (\<lambda>limit. case limit of
             Some x \<Rightarrow> react_to_exception E i x
           | None \<Rightarrow> and_then (next_action E i) (\<lambda>a. case a of None \<Rightarrow> ret () | Some e \<Rightarrow> perform_action E i e)))))"

definition step_with_exception_handling :: "('s, 'k, 'p, 'g) env \<Rightarrow> nat \<Rightarrow> (('s, 'k, 'p, 'g) world, unit) eff" where
  "step_with_exception_handling E i = try_except (step E i) (\<lambda>x. react_to_exception E i (reported x))"

definition should_step :: "nat \<Rightarrow> event \<Rightarrow> ('s, 'k, 'p, 'g) world \<Rightarrow> bool" where
  "should_step i e w =
     (if i + 1 < length (w_ctrls w) then False
      else case ev_body e of
        Act a \<Rightarrow>
          (if is_user_message e then True
           else if is_message (ev_body e) \<and> get_agent_state i w \<noteq> AWAITING_USER_INPUT then True
           else is_delegate_action (ev_body e) \<or> is_condensation_action (ev_body e) \<or> is_condensation_request (ev_body e))
      | Obs ob \<Rightarrow>
          (if is_null_obs (ev_body e) \<and> (case ev_cause e of None \<Rightarrow> False | Some n \<Rightarrow> 0 < n) then True
           else if is_state_changed (ev_body e) \<or> is_null_obs (ev_body e) then False
           else True))"

section \<open>Observations and messages\<close>

definition handle_observation :: "('s, 'k, 'p, 'g) env \<Rightarrow> nat \<Rightarrow> event \<Rightarrow> (('s, 'k, 'p, 'g) world, unit) eff" where
  "handle_observation E i e = reading (cur i) (\<lambda>c. case c_pending c of
       None \<Rightarrow> ret ()
     | Some p \<Rightarrow>
         if ev_cause e \<noteq> Some (event_id p) then ret ()
         else if s_agent_state (c_state c) = AWAITING_USER_CONFIRMATION then ret ()
         else block
          [set_pending i None,
           reading (get_agent_state i) (\<lambda>s. whenm (s = USER_CONFIRMED) (set_agent_state_to E i RUNNING)),
           reading (get_agent_state i) (\<lambda>s. whenm (s = USER_REJECTED) (set_agent_state_to E i AWAITING_USER_INPUT))])"

definition first_user_message ::
  "('s, 'k, 'p, 'g) env \<Rightarrow> nat \<Rightarrow> (('s, 'k, 'p, 'g) world, event option) eff" where
  "first_user_message E i = reading (cur i) (\<lambda>c. case c_cached_first_user_message c of
       Some m \<Rightarrow> ret (Some m)
     | None \<Rightarrow> and_then (first_in_stream E False (s_start_id (c_state c)) is_user_message) (\<lambda>m.
         seqm (change_ctrl i (\<lambda>c. c\<lparr>c_cached_first_user_message := m\<rparr>)) (ret m)))"

definition handle_message_action ::
  "('s, 'k, 'p, 'g) env \<Rightarrow> nat \<Rightarrow> message_action \<Rightarrow> event \<Rightarrow> (('s, 'k, 'p, 'g) world, unit) eff" where
  "handle_message_action E i r e =
     (if ev_source e = Some USER
      then and_then (first_user_message E i) (\<lambda>first.
        let is_first = (case first of None \<Rightarrow> False | Some m \<Rightarrow> event_id e = event_id m);
            kind = (if is_first then WORKSPACE_CONTEXT else KNOWLEDGE)
        in block
          [set_pending i (Some (new_action (RecallAction kind (ma_content r) []))),
           publish_pending E i USER,
           reading (get_agent_state i) (\<lambda>s. whenm (s \<noteq> RUNNING) (set_agent_state_to E i RUNNING))])
      else whenm (ev_source e = Some AGENT \<and> ma_wait_for_response r) (set_agent_state_to E i AWAITING_USER_INPUT))"

section \<open>Recovery from a loop\<close>

definition check_mark :: string where
  \<comment> \<open>the UTF-8 bytes of the sign\<close>
  "check_mark = [CHR 0xE2, CHR 0x9C, CHR 0x85]"

definition warning_sign :: string where
  "warning_sign = [CHR 0xE2, CHR 0x9A, CHR 0xA0, CHR 0xEF, CHR 0xB8, CHR 0x8F]"

definition truncate_memory_to_point :: "nat \<Rightarrow> int \<Rightarrow> (('s, 'k, 'p, 'g) world, unit) eff" where
  "truncate_memory_to_point i recovery_point = reading (cur i) (\<lambda>c.
     let all_events = s_history (c_state c) in
     if int (length all_events) \<le> recovery_point then ret ()
     else let events_to_keep = py_take recovery_point all_events in block
       [change_state i (\<lambda>st. st\<lparr>s_history := events_to_keep,
          s_end_id := (if events_to_keep = [] then -1 else event_id (last events_to_keep))\<rparr>),
        change_ctrl i (\<lambda>c. c\<lparr>c_cached_first_user_message := None\<rparr>)])"

definition perform_loop_recovery :: "('s, 'k, 'p, 'g) env \<Rightarrow> nat \<Rightarrow> stuck_analysis \<Rightarrow> (('s, 'k, 'p, 'g) world, unit) eff" where
  "perform_loop_recovery E i a = block
     [truncate_memory_to_point i (loop_start_idx a),
      set_agent_state_to E i AWAITING_USER_INPUT,
      publish E (new_obs (LoopDetectionObservation
        (check_mark @ '' Loop recovery completed. Agent has been reset to before the loop.'' @ [nl]
         @ ''You can now provide new instructions to continue.'' @ [nl]))) ENVIRONMENT]"

definition restart_with_last_user_message ::
  "('s, 'k, 'p, 'g) env \<Rightarrow> nat \<Rightarrow> stuck_analysis \<Rightarrow> (('s, 'k, 'p, 'g) world, unit) eff" where
  "restart_with_last_user_message E i a = reading (cur i) (\<lambda>c.
     case find_last is_user_message (s_history (c_state c)) of
       None \<Rightarrow> perform_loop_recovery E i a
     | Some m \<Rightarrow>
         let content = (case ev_body m of Act (MessageAction r) \<Rightarrow> ma_content r | _ \<Rightarrow> []) in block
          [truncate_memory_to_point i (loop_start_idx a),
           set_agent_state_to E i RUNNING,
           publish E (new_obs (LoopDetectionObservation
             (nl # check_mark @ '' Restarting with your last instruction: '' @ content @ [nl]
              @ ''Agent is now continuing with the same task...'' @ [nl]))) ENVIRONMENT,
           \<comment> \<open>\<open>_handle_action\<close> of a new message of the user\<close>
           handle_message_action E i
             \<lparr>ma_content = content, ma_file_urls = None, ma_image_urls = None, ma_wait_for_response = False,
              ma_security_risk = Some RISK_UNKNOWN\<rparr>
             ((new_message content)\<lparr>ev_source := Some USER\<rparr>)])"

definition handle_loop_recovery_action :: "('s, 'k, 'p, 'g) env \<Rightarrow> nat \<Rightarrow> int \<Rightarrow> (('s, 'k, 'p, 'g) world, unit) eff" where
  "handle_loop_recovery_action E i option = reading (cur i) (\<lambda>c. case c_analysis c of
       None \<Rightarrow> ret ()
     | Some a \<Rightarrow>
         if option = 1 then perform_loop_recovery E i a
         else if option = 2 then restart_with_last_user_message E i a
         else whenm (option = 3) (set_agent_state_to E i STOPPED))"

definition attempt_loop_recovery :: "('s, 'k, 'p, 'g) env \<Rightarrow> nat \<Rightarrow> (('s, 'k, 'p, 'g) world, bool) eff" where
  "attempt_loop_recovery E i = reading (\<lambda>w. (cur i w, w_shared w)) (\<lambda>(c, sh). case c_analysis c of
       None \<Rightarrow> ret False
     | Some a \<Rightarrow> seqm (block
         [publish E (new_obs (LoopDetectionObservation
            (warning_sign @ ''  Agent detected in a loop!'' @ [nl]
             @ ''Loop type: '' @ loop_type a @ [nl]
             @ ''Loop detected at iteration '' @ str_of_int (current_value (sh_iteration_flag sh)) @ [nl, nl]
             @ ''Recovery options:'' @ [nl]
             @ ''/resume 1. Restart from before loop (preserves '' @ str_of_int (loop_start_idx a) @ '' events)'' @ [nl]
             @ ''/resume 2. Restart with last user message (reuses your most recent instruction)'' @ [nl]
             @ ''/exit. Quit directly'' @ [nl, nl]
             @ ''The agent has been paused. Type '' @ py_repr_str ''/resume 1'' @ '', '' @ py_repr_str ''/resume 2''
             @ '', or '' @ py_repr_str ''/exit'' @ '' to choose an option.'' @ [nl]))) ENVIRONMENT,
          publish E (new_action (ChangeAgentStateAction PAUSED [])) ENVIRONMENT]) (ret True))"

section \<open>Delegates\<close>

definition add_system_message :: "('s, 'k, 'p, 'g) env \<Rightarrow> 'g \<Rightarrow> state \<Rightarrow> (('s, 'k, 'p, 'g) world, unit) eff" where
  "add_system_message E g s =
     and_then (first_in_stream E False (s_start_id s) (\<lambda>e. is_user_message e \<or> is_system_message (ev_body e))) (\<lambda>found.
       case found of
         Some _ \<Rightarrow> ret ()
       | None \<Rightarrow>
           (case en_system_message E g of
              None \<Rightarrow> ret ()
            | Some m \<Rightarrow> whenm (case ev_body m of Act (SystemMessageAction r) \<Rightarrow> sm_content r \<noteq> [] | _ \<Rightarrow> False) (publish E m AGENT)))"

definition load_history :: "('s, 'k, 'p, 'g) env \<Rightarrow> state \<Rightarrow> (('s, 'k, 'p, 'g) world, state) eff" where
  "load_history E s = (\<lambda>w.
     case init_history (en_rd E) (en_ls E) (en_lit E) (en_cont E) (w_stream w) s of (st, r) \<Rightarrow>
       (w\<lparr>w_stream := st\<rparr>, case r of Inl err \<Rightarrow> Inl (exc_of err) | Inr s \<Rightarrow> Inr s))"

definition latest_event_id :: "('s, 'k, 'p, 'g) env \<Rightarrow> (('s, 'k, 'p, 'g) world, int) eff" where
  "latest_event_id E = (\<lambda>w. case get_latest_event_id (en_ls E) (w_stream w) of
     Inl err \<Rightarrow> (w, Inl (exc_of err)) | Inr (st, n) \<Rightarrow> (w\<lparr>w_stream := st\<rparr>, Inr n))"

definition delegate_state :: "'g ctrl \<Rightarrow> shared \<Rightarrow> dict \<Rightarrow> int \<Rightarrow> state" where
  "delegate_state c sh inputs last_id =
     (new_state (py_removesuffix (c_id c) ''-delegate'') (c_user_id c))
       \<lparr>s_inputs := inputs, s_delegate_level := s_delegate_level (c_state c) + 1, s_start_id := last_id + 1,
        s_parent_metrics_snapshot := Some (get_metrics_snapshot sh),
        s_parent_iteration := current_value (sh_iteration_flag sh)\<rparr>"

definition delegate_ctrl :: "'g ctrl \<Rightarrow> 'g \<Rightarrow> state \<Rightarrow> 'g ctrl" where
  \<comment> \<open>the constructor call in \<open>start_delegate\<close>\<close>
  "delegate_ctrl c g s =
     \<lparr>c_id = c_id c @ ''-delegate'', c_user_id = c_user_id c, c_sid = Some (c_id c @ ''-delegate''),
      c_has_store = c_has_store c, c_agent = g, c_headless_mode = c_headless_mode c, c_is_delegate = True,
      c_state = s, c_agent_configs = c_agent_configs c, c_initial_max_iterations = c_initial_max_iterations c,
      c_initial_max_budget = c_initial_max_budget c, c_has_callback = False, c_replay = new_replay None,
      c_confirmation_mode = False, c_pending = None, c_closed = False, c_cached_first_user_message = None,
      c_analysis = None\<rparr>"

definition start_delegate ::
  "('s, 'k, 'p, 'g) env \<Rightarrow> nat \<Rightarrow> string \<Rightarrow> dict \<Rightarrow> (('s, 'k, 'p, 'g) world, unit) eff" where
  "start_delegate E i agent_name inputs = reading (cur i) (\<lambda>c.
     let cfg = (case map_of (c_agent_configs c) agent_name of Some cfg \<Rightarrow> cfg | None \<Rightarrow> en_config E (c_agent c)) in
     and_then (of_res (en_make_agent E agent_name cfg (c_agent c))) (\<lambda>g.
     and_then (latest_event_id E) (\<lambda>last_id.
     reading w_shared (\<lambda>sh.
       case set_initial_state (c_id c @ ''-delegate'') (c_user_id c) (Some (delegate_state c sh inputs last_id, sh))
              (stats_of sh) (c_initial_max_iterations c) (c_initial_max_budget c) False of (s, sh) \<Rightarrow>
         seqm (change (\<lambda>w. w\<lparr>w_shared := sh\<rparr>))
           (and_then (load_history E s) (\<lambda>s.
             seqm (add_system_message E g s)
               (change (\<lambda>w. w\<lparr>w_ctrls := take (i + 1) (w_ctrls w) @ [delegate_ctrl c g s]\<rparr>))))))))"

definition close_controller :: "('s, 'k, 'p, 'g) env \<Rightarrow> nat \<Rightarrow> bool \<Rightarrow> (('s, 'k, 'p, 'g) world, unit) eff" where
  "close_controller E i set_stop_state = block
     [whenm set_stop_state (set_agent_state_to E i STOPPED),
      (\<lambda>w. case close_tracker (en_rd E) (en_ls E) (en_lit E) (en_cont E) (w_stream w) (c_state (cur i w)) of
         (st, Inl err) \<Rightarrow> (w\<lparr>w_stream := st\<rparr>, Inl (exc_of err))
       | (st, Inr s) \<Rightarrow> (upd i (\<lambda>c. c\<lparr>c_state := s\<rparr>) (w\<lparr>w_stream := st\<rparr>), Inr ())),
      reading (cur i) (\<lambda>c. whenm (\<not> c_is_delegate c)
        (change (\<lambda>w. w\<lparr>w_stream := unsubscribe ''agent_controller'' (c_id c) (w_stream w)\<rparr>))),
      change_ctrl i (\<lambda>c. c\<lparr>c_closed := True\<rparr>)]"

definition formatted_outputs :: "dict \<Rightarrow> string" where
  "formatted_outputs outputs =
     py_join '', '' (map (\<lambda>(k, v). k @ '': '' @ py_str v) (filter (\<lambda>(k, v). k \<noteq> ''metrics'') outputs))"

definition delegate_result :: "string \<Rightarrow> agent_state \<Rightarrow> dict \<Rightarrow> event" where
  "delegate_result agent_name s outputs =
     (let content = (if s = FINISHED \<or> s = REJECTED then agent_name @ '' finishes task with '' @ formatted_outputs outputs
                     else agent_name @ '' encountered an error during execution.'')
      in new_obs (AgentDelegateObservation (''Delegated agent finished with result:'' @ [nl, nl] @ content) outputs))"

text \<open>The shared iteration flag makes the assignment of its value from the delegate's state superfluous.\<close>

definition end_delegate :: "('s, 'k, 'p, 'g) env \<Rightarrow> nat \<Rightarrow> (('s, 'k, 'p, 'g) world, unit) eff" where
  "end_delegate E i = reading (\<lambda>w. (length (w_ctrls w), get_agent_state (i + 1) w)) (\<lambda>(n, s).
     if n \<le> i + 1 then ret ()
     else seqm (close_controller E (i + 1) True)
       (reading (\<lambda>w. (cur i w, cur (i + 1) w)) (\<lambda>(c, d).
         let obs = delegate_result (en_name E (c_agent d)) s (s_outputs (c_state d));
             obs = (case find_last (\<lambda>e. is_delegate_action (ev_body e)) (s_history (c_state c)) of
                      Some e \<Rightarrow> obs\<lparr>ev_tool_call_metadata := ev_tool_call_metadata e\<rparr>
                    | None \<Rightarrow> obs)
         in seqm (publish E obs AGENT) (change (\<lambda>w. w\<lparr>w_ctrls := take (i + 1) (w_ctrls w)\<rparr>)))))"

section \<open>Events of the stream\<close>

definition handle_delegate_action ::
  "('s, 'k, 'p, 'g) env \<Rightarrow> nat \<Rightarrow> string \<Rightarrow> dict \<Rightarrow> (('s, 'k, 'p, 'g) world, unit) eff" where
  "handle_delegate_action E i agent_name inputs = seqm (start_delegate E i agent_name inputs)
     (case map_of inputs ''task'' of
        None \<Rightarrow> ret ()
      | Some (JStr task) \<Rightarrow>
          seqm (publish E (new_message (''TASK: '' @ task)) USER) (set_agent_state_to E (i + 1) RUNNING)
      | Some _ \<Rightarrow> raise (exc_of (TypeError ''can only concatenate str to str'')))"

definition handle_action :: "('s, 'k, 'p, 'g) env \<Rightarrow> nat \<Rightarrow> action \<Rightarrow> event \<Rightarrow> (('s, 'k, 'p, 'g) world, unit) eff" where
  "handle_action E i a e =
     (case a of
        ChangeAgentStateAction s _ \<Rightarrow> set_agent_state_to E i s
      | MessageAction r \<Rightarrow> handle_message_action E i r e
      | AgentDelegateAction agent_name inputs _ \<Rightarrow> handle_delegate_action E i agent_name inputs
      | AgentFinishAction _ outputs _ \<Rightarrow>
          seqm (change_state i (\<lambda>s. s\<lparr>s_outputs := outputs\<rparr>)) (set_agent_state_to E i FINISHED)
      | AgentRejectAction outputs _ \<Rightarrow>
          seqm (change_state i (\<lambda>s. s\<lparr>s_outputs := outputs\<rparr>)) (set_agent_state_to E i REJECTED)
      | LoopRecoveryAction option \<Rightarrow> handle_loop_recovery_action E i option
      | _ \<Rightarrow> ret ())"

definition dispatch :: "('s, 'k, 'p, 'g) env \<Rightarrow> nat \<Rightarrow> event \<Rightarrow> (('s, 'k, 'p, 'g) world, unit) eff" where
  "dispatch E i e = (case ev_body e of Act a \<Rightarrow> handle_action E i a e | Obs _ \<Rightarrow> handle_observation E i e)"

definition handle_event :: "('s, 'k, 'p, 'g) env \<Rightarrow> nat \<Rightarrow> event \<Rightarrow> (('s, 'k, 'p, 'g) world, unit) eff" where
  \<comment> \<open>\<open>_on_event\<close>\<close>
  "handle_event E i e =
     (if hidden e then ret ()
      else block
       [change_state i (add_history e),
        dispatch E i e,
        reading (should_step i e) (\<lambda>yes. whenm yes (step_with_exception_handling E i))])"

definition delegate_goes_on :: "state \<Rightarrow> bool" where
  "delegate_goes_on s =
     (s_agent_state s \<notin> {FINISHED, ERROR, REJECTED}
      \<or> py_contains (s_last_error s) ''RuntimeError: Agent reached maximum iteration.''
      \<or> py_contains (s_last_error s) ''RuntimeError:Agent reached maximum budget for conversation'')"

definition on_event :: "('s, 'k, 'p, 'g) env \<Rightarrow> event \<Rightarrow> (('s, 'k, 'p, 'g) world, unit) eff" where
  \<comment> \<open>of the root controller, the only one that subscribes\<close>
  "on_event E e = reading w_ctrls (\<lambda>cs.
     if 1 < length cs
     then if delegate_goes_on (c_state (cs ! 1)) then handle_event E 1 e else end_delegate E 0
     else handle_event E 0 e)"

definition is_awaiting_observation :: "('s, 'k, 'p, 'g) env \<Rightarrow> (('s, 'k, 'p, 'g) world, bool) eff" where
  "is_awaiting_observation E = and_then (first_in_stream E True 0 (\<lambda>e. is_state_changed (ev_body e))) (\<lambda>found.
     ret (case found of
            Some e \<Rightarrow> (case ev_body e of Obs (AgentStateChangedObservation _ s _) \<Rightarrow> s = RUNNING | _ \<Rightarrow> False)
          | None \<Rightarrow> False))"

section \<open>The root controller\<close>

definition root_ctrl ::
  "string \<Rightarrow> string option \<Rightarrow> string option \<Rightarrow> bool \<Rightarrow> 'g \<Rightarrow> bool \<Rightarrow> state \<Rightarrow> (string \<times> agent_config) list \<Rightarrow> int \<Rightarrow> rat option
     \<Rightarrow> bool \<Rightarrow> event list option \<Rightarrow> bool \<Rightarrow> 'g ctrl" where
  "root_ctrl cid user_id sid has_store g headless s configs iterations budget has_callback replay_events confirmation_mode =
     \<lparr>c_id = cid, c_user_id = user_id, c_sid = sid, c_has_store = has_store, c_agent = g, c_headless_mode = headless,
      c_is_delegate = False, c_state = s, c_agent_configs = configs, c_initial_max_iterations = iterations,
      c_initial_max_budget = budget, c_has_callback = has_callback, c_replay = new_replay replay_events,
      c_confirmation_mode = confirmation_mode, c_pending = None, c_closed = False,
      c_cached_first_user_message = None, c_analysis = None\<rparr>"

text \<open>The constructor of a root controller: the world after it, whose chain is empty when it raised.\<close>

definition start_controller ::
  "('s, 'k, 'p, 'g) env \<Rightarrow> string option \<Rightarrow> string option \<Rightarrow> bool \<Rightarrow> 'g \<Rightarrow> bool \<Rightarrow> (string \<times> agent_config) list \<Rightarrow> int
     \<Rightarrow> rat option \<Rightarrow> bool \<Rightarrow> event list option \<Rightarrow> bool \<Rightarrow> saved_state option \<Rightarrow> conversation_stats
     \<Rightarrow> ('s, 'k) event_stream \<Rightarrow> 'p \<Rightarrow> ('s, 'k, 'p, 'g) world \<times> (exc + unit)" where
  "start_controller E sid user_id has_store g headless configs iterations budget has_callback replay_events
     confirmation_mode initial stats stream sessions =
     (let cid = (if truthy sid then the sid else es_sid stream) in
      case set_initial_state cid user_id initial stats iterations budget confirmation_mode of (s, sh) \<Rightarrow>
      case subscribe ''agent_controller'' (en_callback E) cid stream of (st, r) \<Rightarrow>
      and_then (of_res r) (\<lambda>_. and_then (load_history E s) (\<lambda>s. seqm (add_system_message E g s)
        (change (\<lambda>w. w\<lparr>w_ctrls := [root_ctrl cid user_id sid has_store g headless s configs iterations budget
             has_callback replay_events confirmation_mode]\<rparr>))))
       \<lparr>w_stream = st, w_shared = sh, w_ctrls = [], w_sessions = sessions, w_clock = 0, w_status = []\<rparr>)"

end
