(* ===== verification/CodeAct.thy ===== *)
theory CodeAct
  imports ReaderCalls Condensers Controller
begin

text \<open>
  The CodeAct agent (\<open>openhands/agenthub/codeact_agent/codeact_agent.py\<close>), which the read-only and the locating agent
  extend: from the state to the next action, by way of the condenser, the conversation memory, the model and the parser of
  its response. The actions of one response wait in a queue.

  The record \<open>codeact_env\<close> holds the collaborators of the agent: the memory, the method
  \<open>response_to_actions\<close> that a subclass overrides, the condenser's strategy and the client of the model. The client and
  the condenser share a state of their own and the metrics. Logging is left out.

  The events of the history, of the view and of the prompt are the same objects: what the memory changes in a finished
  action is written back to the history and to the cached view.
\<close>

section \<open>The agent and its collaborators\<close>

record 'l codeact =
  ct_pending_actions :: "event list"
  ct_complete :: bool
  ct_llm :: 'l

record 'l codeact_env =
  ce_memory :: memory_env
  ce_response_to_actions :: "model_response \<Rightarrow> event list res"
  ce_condense :: "view \<Rightarrow> 'l \<times> shared \<Rightarrow> ('l \<times> shared) \<times> dict \<times> (exc + condensed)"
  ce_same_view :: bool
  ce_completion :: "msg list \<Rightarrow> dict \<Rightarrow> 'l \<times> shared \<Rightarrow> ('l \<times> shared) \<times> (exc + model_response)"
  ce_max_message_chars :: "int option"
  ce_vision_is_active :: bool
  ce_caching_prompt :: bool
  ce_tools :: "json list"
  ce_name :: string
  ce_model :: string
  ce_web_host :: string

record 'l turn =
  tn_agent :: "'l codeact"
  tn_state :: state
  tn_shared :: shared

section \<open>Metadata for the model\<close>

definition to_llm_metadata :: "string \<Rightarrow> string \<Rightarrow> string \<Rightarrow> string \<Rightarrow> state \<Rightarrow> dict" where
  "to_llm_metadata version web_host model agent s =
     [(''session_id'', JStr (s_session_id s)), (''trace_version'', JStr version),
      (''trace_user_id'', case s_user_id s of None \<Rightarrow> JNull | Some u \<Rightarrow> JStr u),
      (''tags'', JList [JStr (''model:'' @ model), JStr (''agent:'' @ agent), JStr (''web_host:'' @ web_host),
                        JStr (''openhands_version:'' @ version)])]"

section \<open>Condensing\<close>

definition CONDENSER_METADATA_KEY :: string where "CONDENSER_METADATA_KEY = ''condenser_meta''"

definition get_condensation_metadata :: "state \<Rightarrow> json" where
  "get_condensation_metadata s = (case d_get (s_extra_data s) CONDENSER_METADATA_KEY of Some j \<Rightarrow> j | None \<Rightarrow> JList [])"

definition write_metadata :: "dict \<Rightarrow> state \<Rightarrow> state res" where
  "write_metadata batch s =
     (let d = (if d_has (s_extra_data s) CONDENSER_METADATA_KEY then s_extra_data s
               else d_set CONDENSER_METADATA_KEY (JList []) (s_extra_data s))
      in if batch = [] then Inr (s\<lparr>s_extra_data := d\<rparr>)
         else case d_get d CONDENSER_METADATA_KEY of
                Some (JList batches) \<Rightarrow> Inr (s\<lparr>s_extra_data := d_set CONDENSER_METADATA_KEY (JList (batches @ [JObj batch])) d\<rparr>)
              | _ \<Rightarrow> Inl (AttributeError ''append''))"

definition run_condenser :: "'l codeact_env \<Rightarrow> 'l turn \<Rightarrow> 'l turn \<times> dict \<times> (exc + condensed)" where
  \<comment> \<open>\<open>self.condense(state.view)\<close>\<close>
  "run_condenser E t =
     (case state_view (tn_state t) of
        (s, Inl err) \<Rightarrow> (t\<lparr>tn_state := s\<rparr>, [], Inl (exc_of err))
      | (s, Inr v) \<Rightarrow>
          (case ce_condense E v (ct_llm (tn_agent t), tn_shared t) of ((l, sh), batch, r) \<Rightarrow>
             (t\<lparr>tn_agent := (tn_agent t)\<lparr>ct_llm := l\<rparr>, tn_state := s, tn_shared := sh\<rparr>, batch, r)))"

definition condensed_history :: "'l codeact_env \<Rightarrow> ('l turn, condensed) eff" where
  \<comment> \<open>the metadata is written whether the condenser returns or raises\<close>
  "condensed_history E = (\<lambda>t.
     case run_condenser E t of (t, batch, r) \<Rightarrow>
       (case write_metadata batch (tn_state t) of
          Inl err \<Rightarrow> (t, Inl (exc_of err))
        | Inr s \<Rightarrow> (t\<lparr>tn_state := s\<rparr>, r)))"

section \<open>The prompt\<close>

definition get_initial_user_message :: "event list \<Rightarrow> event res" where
  "get_initial_user_message history = (case find is_user_message history of
       Some e \<Rightarrow> Inr e
     | None \<Rightarrow> Inl (ValueError ''Initial user message not found in history. Please report this issue.''))"

definition settled :: "event list \<Rightarrow> event list \<Rightarrow> event list" where
  \<comment> \<open>the finished actions of a history as the memory has left them\<close>
  "settled shown history = map (\<lambda>e.
     if is_finish (ev_body e)
     then (case find (\<lambda>x. event_id x = event_id e \<and> is_finish (ev_body x)) shown of Some x \<Rightarrow> x | None \<Rightarrow> e)
     else e) history"

definition settle :: "bool \<Rightarrow> event list \<Rightarrow> state \<Rightarrow> state" where
  \<comment> \<open>a view the condenser has handed on also gets the messages that were put in front\<close>
  "settle same_view shown s =
     s\<lparr>s_history := settled shown (s_history s),
       s_view := (s_view s)\<lparr>vw_events := if same_view then shown else settled shown (vw_events (s_view s))\<rparr>\<rparr>"

definition get_messages :: "'l codeact_env \<Rightarrow> event list \<Rightarrow> event \<Rightarrow> ('l turn, msg list) eff" where
  "get_messages E events initial_user_message =
     (case process_events (ce_memory E) events initial_user_message (ce_max_message_chars E) (ce_vision_is_active E) of
        (shown, r) \<Rightarrow>
          seqm (change (\<lambda>t. t\<lparr>tn_state := settle (ce_same_view E) shown (tn_state t)\<rparr>))
            (and_then (of_res r) (\<lambda>messages.
               of_res (if ce_caching_prompt E then apply_prompt_caching messages else Inr messages))))"

section \<open>The step\<close>

definition complete_prompt :: "'l codeact_env \<Rightarrow> msg list \<Rightarrow> ('l turn, model_response) eff" where
  "complete_prompt E messages = (\<lambda>t.
     case ce_completion E messages
        (to_llm_metadata (me_version (ce_memory E)) (ce_web_host E) (ce_model E) (ce_name E) (tn_state t))
        (ct_llm (tn_agent t), tn_shared t) of ((l, sh), r) \<Rightarrow>
       (t\<lparr>tn_agent := (tn_agent t)\<lparr>ct_llm := l\<rparr>, tn_shared := sh\<rparr>, r))"

definition enqueue :: "event list \<Rightarrow> 'l turn \<Rightarrow> 'l turn" where
  "enqueue es t = t\<lparr>tn_agent := (tn_agent t)\<lparr>ct_pending_actions := ct_pending_actions (tn_agent t) @ es\<rparr>\<rparr>"

definition pop_action :: "('l turn, event) eff" where
  \<comment> \<open>\<open>self.pending_actions.popleft()\<close>\<close>
  "pop_action = reading (\<lambda>t. ct_pending_actions (tn_agent t)) (\<lambda>q. case q of
       [] \<Rightarrow> raise (exc_of IndexError)
     | e # es \<Rightarrow> seqm (change (\<lambda>t. t\<lparr>tn_agent := (tn_agent t)\<lparr>ct_pending_actions := es\<rparr>\<rparr>)) (ret e))"

definition ask_model :: "'l codeact_env \<Rightarrow> event list \<Rightarrow> ('l turn, event) eff" where
  "ask_model E condensed =
     reading (\<lambda>t. s_history (tn_state t)) (\<lambda>history.
     and_then (of_res (get_initial_user_message history)) (\<lambda>initial.
     and_then (get_messages E condensed initial) (\<lambda>messages.
     and_then (complete_prompt E messages) (\<lambda>response.
     and_then (of_res (ce_response_to_actions E response)) (\<lambda>actions.
     seqm (change (enqueue actions)) pop_action)))))"

definition last_user_message :: "('l turn, event option) eff" where
  "last_user_message = (\<lambda>t. case get_last_user_message (tn_state t) of (s, r) \<Rightarrow> of_res r (t\<lparr>tn_state := s\<rparr>))"

definition asks_to_exit :: "event option \<Rightarrow> bool" where
  "asks_to_exit m = (case m of
       Some e \<Rightarrow> (case ev_body e of Act (MessageAction r) \<Rightarrow> py_strip (ma_content r) = ''/exit'' | _ \<Rightarrow> False)
     | None \<Rightarrow> False)"

definition codeact_step :: "'l codeact_env \<Rightarrow> ('l turn, event) eff" where
  "codeact_step E = reading (\<lambda>t. ct_pending_actions (tn_agent t)) (\<lambda>pending.
     if pending \<noteq> [] then pop_action
     else and_then last_user_message (\<lambda>m.
       if asks_to_exit m then ret (new_action (AgentFinishAction [] [] []))
       else and_then (condensed_history E) (\<lambda>c. case c of
         Condensed a \<Rightarrow> ret (new_action (CondensationAction a))
       | Viewed v \<Rightarrow> ask_model E (vw_events v))))"

section \<open>The other methods of an agent\<close>

definition codeact_reset :: "'l codeact \<Rightarrow> 'l codeact" where
  "codeact_reset g = g\<lparr>ct_complete := False, ct_pending_actions := []\<rparr>"

definition new_codeact :: "'l \<Rightarrow> 'l codeact" where
  "new_codeact l = \<lparr>ct_pending_actions = [], ct_complete = False, ct_llm = l\<rparr>"

definition get_system_message :: "'l codeact_env \<Rightarrow> event option" where
  "get_system_message E = Some ((new_action (SystemMessageAction
     \<lparr>sm_content = me_system_prompt (ce_memory E) (me_cli_mode (ce_memory E)), sm_tools = Some (ce_tools E),
      sm_openhands_version = Some (me_version (ce_memory E)), sm_agent_class = Some (ce_name E)\<rparr>))\<lparr>ev_source := Some AGENT\<rparr>)"

text \<open>The step as the controller calls it\<close>

definition agent_step :: "'l codeact_env \<Rightarrow> 'l codeact \<Rightarrow> state \<Rightarrow> shared
    \<Rightarrow> 'l codeact \<times> state \<times> shared \<times> (exc + event option)" where
  "agent_step E g s sh =
     (case codeact_step E \<lparr>tn_agent = g, tn_state = s, tn_shared = sh\<rparr> of
        (t, r) \<Rightarrow> (tn_agent t, tn_state t, tn_shared t, map_sum id Some r))"

definition with_codeact :: "'l codeact_env \<Rightarrow> ('s, 'k, 'p, 'l codeact) env \<Rightarrow> ('s, 'k, 'p, 'l codeact) env" where
  "with_codeact A E = E\<lparr>en_step := agent_step A, en_reset := codeact_reset, en_system_message := (\<lambda>_. get_system_message A),
     en_name := (\<lambda>_. ce_name A)\<rparr>"

end
