(* ===== verification/ControllerLaws.thy ===== *)
theory ControllerLaws
  imports Controller HistoryLaws
begin

text \<open>
  Properties of the agent controller: what every operation keeps of the chain of controllers, when an agent acts, what
  stops it, and what becomes of actions that wait for a confirmation.

  \<open>shape\<close> are the fields of the controllers that no operation changes; it determines who may ask for a confirmation
  and who reports to the user. Lemmas of the form \<open>keeps I m\<close> say that a computation keeps \<open>I\<close> whether it returns or raises.
\<close>

section \<open>Reading and updating the chain\<close>

lemma upd_simps [simp]:
  "w_stream (upd i f w) = w_stream w" "w_shared (upd i f w) = w_shared w" "w_sessions (upd i f w) = w_sessions w"
  "w_clock (upd i f w) = w_clock w" "w_status (upd i f w) = w_status w"
  "length (w_ctrls (upd i f w)) = length (w_ctrls w)"
  "i < length (w_ctrls w) \<Longrightarrow> cur i (upd i f w) = f (cur i w)"
  "i \<noteq> j \<Longrightarrow> cur j (upd i f w) = cur j w"
  by (simp_all add: upd_def cur_def)

lemma cur_simps [simp]:
  "cur i (w\<lparr>w_stream := st\<rparr>) = cur i w" "cur i (w\<lparr>w_shared := sh\<rparr>) = cur i w"
  "cur i (w\<lparr>w_clock := n\<rparr>) = cur i w" "cur i (w\<lparr>w_sessions := p\<rparr>) = cur i w" "cur i (w\<lparr>w_status := l\<rparr>) = cur i w"
  by (simp_all add: cur_def)

text \<open>The parts of an agent's interface that the operations below do not consult.\<close>

definition with_step ::
  "('g \<Rightarrow> state \<Rightarrow> shared \<Rightarrow> 'g \<times> state \<times> shared \<times> (exc + event option)) \<Rightarrow> ('s, 'k, 'p, 'g) env \<Rightarrow> ('s, 'k, 'p, 'g) env" where
  "with_step f E = E\<lparr>en_step := f\<rparr>"

named_theorems unasked \<open>operations that do not ask an agent for an action\<close>

lemma with_step_sel [unasked]:
  "en_wr (with_step f E) = en_wr E" "en_rd (with_step f E) = en_rd E" "en_ls (with_step f E) = en_ls E"
  "en_lit (with_step f E) = en_lit E" "en_cont (with_step f E) = en_cont E" "en_now (with_step f E) = en_now E"
  "en_callback (with_step f E) = en_callback E" "en_save (with_step f E) = en_save E"
  "en_delete (with_step f E) = en_delete E" "en_reset (with_step f E) = en_reset E"
  "en_system_message (with_step f E) = en_system_message E" "en_name (with_step f E) = en_name E"
  "en_config (with_step f E) = en_config E" "en_make_agent (with_step f E) = en_make_agent E"
  "en_analyzer (with_step f E) = en_analyzer E"
  by (simp_all add: with_step_def)

lemma publish_unasked [unasked]: "publish (with_step f E) = publish E"
  by (intro ext) (unfold publish_def unasked, rule refl)

lemma publish_pending_unasked [unasked]: "publish_pending (with_step f E) = publish_pending E"
  by (intro ext) (unfold publish_pending_def unasked, rule refl)

lemma first_in_stream_unasked [unasked]: "first_in_stream (with_step f E) = first_in_stream E"
  by (intro ext) (unfold first_in_stream_def unasked, rule refl)

lemma reset_agent_unasked [unasked]: "reset_agent (with_step f E) = reset_agent E"
  by (intro ext) (unfold reset_agent_def unasked, rule refl)

lemma controller_save_state_unasked [unasked]: "controller_save_state (with_step f E) = controller_save_state E"
  by (intro ext) (unfold controller_save_state_def unasked, rule refl)

lemma answer_pending_unasked [unasked]: "answer_pending (with_step f E) = answer_pending E"
  by (intro ext) (unfold answer_pending_def unasked, rule refl)

lemma set_agent_state_to_unasked [unasked]: "set_agent_state_to (with_step f E) = set_agent_state_to E"
  by (intro ext) (unfold set_agent_state_to_def unasked, rule refl)

lemma react_to_exception_unasked [unasked]: "react_to_exception (with_step f E) = react_to_exception E"
  by (intro ext) (unfold react_to_exception_def unasked, rule refl)

lemma handle_observation_unasked [unasked]: "handle_observation (with_step f E) = handle_observation E"
  by (intro ext) (unfold handle_observation_def unasked, rule refl)

lemma first_user_message_unasked [unasked]: "first_user_message (with_step f E) = first_user_message E"
  by (intro ext) (unfold first_user_message_def unasked, rule refl)

lemma handle_message_action_unasked [unasked]: "handle_message_action (with_step f E) = handle_message_action E"
  by (intro ext) (unfold handle_message_action_def unasked, rule refl)

lemma perform_loop_recovery_unasked [unasked]: "perform_loop_recovery (with_step f E) = perform_loop_recovery E"
  by (intro ext) (unfold perform_loop_recovery_def unasked, rule refl)

lemma restart_with_last_user_message_unasked [unasked]: "restart_with_last_user_message (with_step f E) = restart_with_last_user_message E"
  by (intro ext) (unfold restart_with_last_user_message_def unasked, rule refl)

lemma handle_loop_recovery_action_unasked [unasked]: "handle_loop_recovery_action (with_step f E) = handle_loop_recovery_action E"
  by (intro ext) (unfold handle_loop_recovery_action_def unasked, rule refl)

lemma add_system_message_unasked [unasked]: "add_system_message (with_step f E) = add_system_message E"
  by (intro ext) (unfold add_system_message_def unasked, rule refl)

lemma load_history_unasked [unasked]: "load_history (with_step f E) = load_history E"
  by (intro ext) (unfold load_history_def unasked, rule refl)

lemma latest_event_id_unasked [unasked]: "latest_event_id (with_step f E) = latest_event_id E"
  by (intro ext) (unfold latest_event_id_def unasked, rule refl)

lemma start_delegate_unasked [unasked]: "start_delegate (with_step f E) = start_delegate E"
  by (intro ext) (unfold start_delegate_def unasked, rule refl)

lemma close_controller_unasked [unasked]: "close_controller (with_step f E) = close_controller E"
  by (intro ext) (unfold close_controller_def unasked, rule refl)

lemma end_delegate_unasked [unasked]: "end_delegate (with_step f E) = end_delegate E"
  by (intro ext) (unfold end_delegate_def unasked, rule refl)

lemma handle_delegate_action_unasked [unasked]: "handle_delegate_action (with_step f E) = handle_delegate_action E"
  by (intro ext) (unfold handle_delegate_action_def unasked, rule refl)

lemma handle_action_unasked [unasked]: "handle_action (with_step f E) = handle_action E"
  by (intro ext) (unfold handle_action_def unasked, rule refl)

lemma dispatch_unasked [unasked]: "dispatch (with_step f E) = dispatch E"
  by (intro ext) (unfold dispatch_def unasked, rule refl)

lemma check_stuck_unasked [unasked]: "check_stuck (with_step f E) = check_stuck E"
  by (intro ext) (unfold check_stuck_def unasked, rule refl)

section \<open>What no operation changes\<close>

definition static :: "'g ctrl \<Rightarrow> string \<times> string option \<times> string option \<times> bool \<times> bool \<times> bool \<times> bool \<times> bool" where
  "static c = (c_id c, c_user_id c, c_sid c, c_has_store c, c_headless_mode c, c_is_delegate c, c_has_callback c,
     c_confirmation_mode c)"

definition shape :: "('s, 'k, 'p, 'g) world \<Rightarrow> (string \<times> string option \<times> string option \<times> bool \<times> bool \<times> bool \<times> bool \<times> bool) list" where
  "shape w = map static (w_ctrls w)"

lemma shape_simps [simp]:
  "shape (w\<lparr>w_stream := st\<rparr>) = shape w" "shape (w\<lparr>w_shared := sh\<rparr>) = shape w" "shape (w\<lparr>w_clock := n\<rparr>) = shape w"
  "shape (w\<lparr>w_sessions := p\<rparr>) = shape w" "shape (w\<lparr>w_status := l\<rparr>) = shape w"
  by (simp_all add: shape_def)

lemma shape_upd [simp]: "(\<And>c. static (f c) = static c) \<Longrightarrow> shape (upd i f w) = shape w"
  by (cases "i < length (w_ctrls w)") (simp_all add: shape_def upd_def map_update list_update_beyond list_update_same_conv)

lemma static_simps [simp]:
  "static (c\<lparr>c_state := s\<rparr>) = static c" "static (c\<lparr>c_pending := p\<rparr>) = static c" "static (c\<lparr>c_agent := g\<rparr>) = static c"
  "static (c\<lparr>c_replay := rp\<rparr>) = static c" "static (c\<lparr>c_analysis := a\<rparr>) = static c" "static (c\<lparr>c_closed := b\<rparr>) = static c"
  "static (c\<lparr>c_cached_first_user_message := m\<rparr>) = static c"
  by (simp_all add: static_def)

text \<open>The operations that leave the chain itself alone.\<close>

abbreviation same_shape :: "(string \<times> string option \<times> string option \<times> bool \<times> bool \<times> bool \<times> bool \<times> bool) list
    \<Rightarrow> (('s, 'k, 'p, 'g) world, 'a) eff \<Rightarrow> bool" where
  "same_shape S m \<equiv> keeps (\<lambda>w. shape w = S) m"

lemma keeps_change_ctrl [keep]: "(\<And>c. static (f c) = static c) \<Longrightarrow> same_shape S (change_ctrl i f)"
  by (simp add: change_ctrl_def keeps_def eff_defs)

lemma keeps_change_state [keep]: "same_shape S (change_state i f)"
  by (simp add: change_state_def keep)

lemma keeps_set_pending [keep]: "same_shape S (set_pending i p)"
  by (simp add: set_pending_def keep)

lemma keeps_publish [keep]: "same_shape S (publish E e source)"
  by (auto simp: keeps_def publish_def split: prod.splits)

lemma keeps_publish_pending [keep]: "same_shape S (publish_pending E i source)"
  by (auto simp: keeps_def publish_pending_def split: prod.splits option.splits)

lemma keeps_first_in_stream [keep]: "same_shape S (first_in_stream E reverse a p)"
  by (auto simp: keeps_def first_in_stream_def split: prod.splits)

lemma keeps_save [keep]: "same_shape S (controller_save_state E i)"
  by (simp add: controller_save_state_def keeps_def eff_defs Let_def)

lemma keeps_change_shared [keep]: "same_shape S (change (\<lambda>w. w\<lparr>w_shared := f w\<rparr>))"
  by (simp add: keeps_def eff_defs)

lemma keeps_set_agent_state [keep]: "same_shape S (set_agent_state_to E i s)"
  unfolding set_agent_state_to_def reset_agent_def answer_pending_def by (intro keep) simp

lemma keeps_react [keep]: "same_shape S (react_to_exception E i x)"
  unfolding react_to_exception_def set_last_error_def report_status_def by (intro keep keeps_change) simp_all

lemma keeps_handle_observation [keep]: "same_shape S (handle_observation E i e)"
  unfolding handle_observation_def by (intro keep)

lemma keeps_handle_message [keep]: "same_shape S (handle_message_action E i r e)"
  unfolding handle_message_action_def first_user_message_def by (intro keep) simp

lemma keeps_truncate [keep]: "same_shape S (truncate_memory_to_point i n)"
  unfolding truncate_memory_to_point_def by (intro keep) simp

lemma keeps_loop_recovery [keep]: "same_shape S (handle_loop_recovery_action E i n)"
  unfolding handle_loop_recovery_action_def perform_loop_recovery_def restart_with_last_user_message_def by (intro keep)

lemma keeps_attempt_recovery [keep]: "same_shape S (attempt_loop_recovery E i)"
  unfolding attempt_loop_recovery_def by (intro keep)

lemma keeps_close [keep]: "same_shape S (close_controller E i b)"
proof -
  have "same_shape S (\<lambda>w. case close_tracker (en_rd E) (en_ls E) (en_lit E) (en_cont E) (w_stream w) (c_state (cur i w)) of
         (st, Inl err) \<Rightarrow> (w\<lparr>w_stream := st\<rparr>, Inl (exc_of err) :: exc + unit)
       | (st, Inr s) \<Rightarrow> (upd i (\<lambda>c. c\<lparr>c_state := s\<rparr>) (w\<lparr>w_stream := st\<rparr>), Inr ()))"
    by (auto simp: keeps_def split: prod.splits sum.splits)
  then show ?thesis
    unfolding close_controller_def by (intro keep keeps_change) simp_all
qed

lemma shape_stuck_chain: "map static (snd (stuck_chain cs)) = map static cs"
  by (induction cs rule: stuck_chain.induct) (auto split: prod.splits bool.splits)

lemma keeps_check_stuck [keep]: "same_shape S (check_stuck (E :: ('a, 'b, 'c, 'd) env) i)"
proof -
  have "shape (fst (is_stuck_at i w)) = shape w" for w :: "('a, 'b, 'c, 'd) world"
    using shape_stuck_chain [of "drop i (w_ctrls w)"]
    by (cases "stuck_chain (drop i (w_ctrls w))") (simp add: is_stuck_at_def shape_def, metis append_take_drop_id map_append)
  then have "same_shape S (is_stuck_at i :: (('a, 'b, 'c, 'd) world, bool) eff)" by (simp add: keeps_def)
  then show ?thesis unfolding check_stuck_def by (intro keep)
qed

lemma keeps_agent_failed [keep]: "same_shape S (agent_failed E i x)"
  unfolding agent_failed_def by (intro keep)

lemma keeps_next_action [keep]: "same_shape S (next_action E i)"
proof -
  have "same_shape S (ask_agent E i)"
    using keepsD [OF keeps_agent_failed [of S E i]]
    by (auto simp: keeps_def ask_agent_def Let_def split: prod.splits sum.splits option.splits)
  then show ?thesis
    unfolding next_action_def take_replayed_def by (intro keep) simp_all
qed

lemma keeps_send_action [keep]: "same_shape S (send_action E i b e)"
  unfolding send_action_def by (intro keep)

lemma keeps_perform_action [keep]: "same_shape S (perform_action E i e)"
  by (cases "ev_body e") (auto simp: perform_action_def intro!: keep)

lemma keeps_step [keep]: "same_shape S (step_with_exception_handling E i)"
proof -
  have "same_shape S run_flags"
    by (auto simp: keeps_def run_flags_def split: prod.splits)
  then show ?thesis
    unfolding step_with_exception_handling_def step_def by (intro keep)
qed

section \<open>The chain of delegates\<close>

text \<open>What the constructor call of \<open>start_delegate\<close> makes of the unchanging fields.\<close>

fun child_of :: "string \<times> string option \<times> string option \<times> bool \<times> bool \<times> bool \<times> bool \<times> bool
    \<Rightarrow> string \<times> string option \<times> string option \<times> bool \<times> bool \<times> bool \<times> bool \<times> bool" where
  "child_of (cid, user_id, sid, has_store, headless, is_delegate, has_callback, confirmation_mode) =
     (cid @ ''-delegate'', user_id, Some (cid @ ''-delegate''), has_store, headless, True, False, False)"

definition chain_at :: "string \<times> string option \<times> string option \<times> bool \<times> bool \<times> bool \<times> bool \<times> bool \<Rightarrow> nat
    \<Rightarrow> ('s, 'k, 'p, 'g) world \<Rightarrow> bool" where
  \<comment> \<open>the chain starts with the root and reaches the index\<close>
  "chain_at r i w \<longleftrightarrow> i < length (w_ctrls w) \<and> (\<forall>k < length (w_ctrls w). static (w_ctrls w ! k) = (child_of ^^ k) r)"

lemma static_delegate [simp]: "static (delegate_ctrl c g s) = child_of (static c)"
  by (simp add: static_def delegate_ctrl_def)

lemma chain_at_mono: "chain_at r i w \<Longrightarrow> j \<le> i \<Longrightarrow> chain_at r j w"
  by (simp add: chain_at_def)

lemma chain_at_static: "chain_at r i w \<Longrightarrow> static (cur i w) = (child_of ^^ i) r"
  by (simp add: chain_at_def cur_def)

lemma shape_nth:
  assumes "shape w' = shape w"
  shows "length (w_ctrls w') = length (w_ctrls w)" "k < length (w_ctrls w) \<Longrightarrow> static (w_ctrls w' ! k) = static (w_ctrls w ! k)"
proof -
  show len: "length (w_ctrls w') = length (w_ctrls w)" using arg_cong [OF assms, of length] by (simp add: shape_def)
  show "k < length (w_ctrls w) \<Longrightarrow> static (w_ctrls w' ! k) = static (w_ctrls w ! k)"
    using arg_cong [OF assms, of "\<lambda>xs. xs ! k"] len by (simp add: shape_def)
qed

lemma same_shape_chain:
  fixes m :: "(('s, 'k, 'p, 'g) world, 'a) eff"
  assumes "\<And>S. same_shape S m"
  shows "keeps (chain_at r i) m"
  unfolding keeps_def
proof (intro allI impI)
  fix w :: "('s, 'k, 'p, 'g) world"
  assume w: "chain_at r i w"
  have "shape (fst (m w)) = shape w" by (rule keepsD [OF assms refl])
  from shape_nth [OF this] w show "chain_at r i (fst (m w))" by (simp add: chain_at_def)
qed

lemmas chain_leaves [keep] = keeps_change_state [THEN same_shape_chain] keeps_publish [THEN same_shape_chain]
  keeps_set_agent_state [THEN same_shape_chain] keeps_handle_observation [THEN same_shape_chain]
  keeps_handle_message [THEN same_shape_chain] keeps_loop_recovery [THEN same_shape_chain]
  keeps_close [THEN same_shape_chain] keeps_step [THEN same_shape_chain] keeps_attempt_recovery [THEN same_shape_chain]
  keeps_save [THEN same_shape_chain]

lemma chain_truncated: "chain_at r i w \<Longrightarrow> chain_at r i (w\<lparr>w_ctrls := take (i + 1) (w_ctrls w)\<rparr>)"
  by (simp add: chain_at_def)

lemma chain_extended:
  assumes "chain_at r i w" and "static d = child_of ((child_of ^^ i) r)"
  shows "chain_at r (i + 1) (w\<lparr>w_ctrls := take (i + 1) (w_ctrls w) @ [d]\<rparr>)"
proof -
  have "i + 1 \<le> length (w_ctrls w)" using assms(1) by (simp add: chain_at_def)
  then have "length (take (i + 1) (w_ctrls w)) = i + 1" by simp
  with assms show ?thesis by (auto simp: chain_at_def nth_append less_Suc_eq)
qed

lemma keeps_reading_at: "(\<And>w. I w \<Longrightarrow> keeps I (m (f w))) \<Longrightarrow> keeps I (reading f m)"
  by (simp add: keeps_def eff_defs)

lemma keeps_start_delegate: "keeps (chain_at r i) (start_delegate E i nm inputs)"
proof -
  have load: "same_shape S (load_history E s)" for S s
    by (auto simp: keeps_def load_history_def split: prod.splits)
  have latest: "same_shape S (latest_event_id E)" for S
    by (auto simp: keeps_def latest_event_id_def split: sum.splits prod.splits)
  have sys: "same_shape S (add_system_message E g s)" for S g s
    unfolding add_system_message_def by (intro keep)
  have last: "keeps (chain_at r i) (change (\<lambda>w. w\<lparr>w_ctrls := take (i + 1) (w_ctrls w) @ [delegate_ctrl c g s]\<rparr>))"
    if "static c = (child_of ^^ i) r" for c g s
    by (rule keeps_change, rule chain_at_mono [OF chain_extended]) (simp_all add: that)
  have shared: "same_shape S (change (\<lambda>w. w\<lparr>w_shared := sh\<rparr>))" for S sh
    by (rule keeps_change) simp
  note leaves = load [THEN same_shape_chain] latest [THEN same_shape_chain] sys [THEN same_shape_chain]
    shared [THEN same_shape_chain]
  show ?thesis
    unfolding start_delegate_def
    by (rule keeps_reading_at, intro keep leaves last) (simp add: chain_at_static)
qed

lemma keeps_handle_event: "keeps (chain_at r i) (handle_event E i e)"
proof -
  have "keeps (chain_at r i) (handle_delegate_action E i nm inputs)" for nm inputs
    unfolding handle_delegate_action_def
    by (auto split: option.split json.split intro!: keeps_start_delegate keep)
  then have "keeps (chain_at r i) (handle_action E i a e)" for a
    by (cases a) (auto simp: handle_action_def intro!: keep)
  then show ?thesis
    unfolding handle_event_def dispatch_def by (cases "ev_body e") (auto intro!: keep)
qed

lemma keeps_end_delegate: "keeps (chain_at r i) (end_delegate E i)"
  unfolding end_delegate_def
  by (intro keep keeps_change) (rule chain_truncated)

lemma keeps_on_event: "keeps (chain_at r 0) (on_event E e)"
  unfolding keeps_def
proof (intro allI impI)
  fix w :: "('a, 'b, 'c, 'd) world"
  assume w: "chain_at r 0 w"
  consider "1 < length (w_ctrls w)" "delegate_goes_on (c_state (w_ctrls w ! 1))"
    | "1 < length (w_ctrls w)" "\<not> delegate_goes_on (c_state (w_ctrls w ! 1))" | "\<not> 1 < length (w_ctrls w)" by blast
  then show "chain_at r 0 (fst (on_event E e w))"
  proof cases
    case 1
    with w have "chain_at r 1 w" by (simp add: chain_at_def)
    have "chain_at r 0 (fst (handle_event E 1 e w))"
      by (rule chain_at_mono [OF keepsD [OF keeps_handle_event \<open>chain_at r 1 w\<close>]]) simp
    with 1 show ?thesis by (simp add: on_event_def reading_def)
  qed (use w keepsD [OF keeps_end_delegate w] keepsD [OF keeps_handle_event w] in \<open>simp_all add: on_event_def reading_def\<close>)
qed

section \<open>Reachable worlds\<close>

text \<open>
  What happens to a conversation's controllers: events of the stream are handed to the root, the session asks it for a
  state, a step, a recovery, to be saved or closed, and between two of these others add events to the stream, spend
  money or save other sessions.
\<close>

inductive controller_step :: "('s, 'k, 'p, 'g) env \<Rightarrow> ('s, 'k, 'p, 'g) world \<Rightarrow> ('s, 'k, 'p, 'g) world \<Rightarrow> bool" for E where
  event: "controller_step E w (fst (on_event E e w))"
| set_state: "controller_step E w (fst (set_agent_state_to E 0 s w))"
| take_step: "controller_step E w (fst (step_with_exception_handling E 0 w))"
| recovery: "controller_step E w (fst (attempt_loop_recovery E 0 w))"
| save: "controller_step E w (fst (controller_save_state E 0 w))"
| close: "controller_step E w (fst (close_controller E 0 b w))"
| others: "controller_step E w (w\<lparr>w_stream := st, w_shared := sh, w_sessions := p, w_clock := n\<rparr>)"

inductive reachable :: "('s, 'k, 'p, 'g) env \<Rightarrow> ('s, 'k, 'p, 'g) world \<Rightarrow> ('s, 'k, 'p, 'g) world \<Rightarrow> bool" for E w0 where
  start: "reachable E w0 w0"
| next_step: "reachable E w0 w \<Longrightarrow> controller_step E w w' \<Longrightarrow> reachable E w0 w'"

lemma controller_step_chain: "controller_step E w w' \<Longrightarrow> chain_at r 0 w \<Longrightarrow> chain_at r 0 w'"
proof (induction rule: controller_step.induct)
  case (others w st sh p n)
  then show ?case by (simp add: chain_at_def)
qed (auto elim!: keepsD [rotated] intro!: keep keeps_on_event)

lemma start_world:
  assumes "start_controller E sid u st g hl cfgs it bu cb rep confirm initial stats stream sessions = (w0, Inr ())"
  shows "\<exists>cid s. w_ctrls w0 = [root_ctrl cid u sid st g hl s cfgs it bu cb rep confirm]"
  using assms by (auto simp: start_controller_def eff_defs Let_def split: prod.splits sum.splits) blast+

lemma child_power:
  "(child_of ^^ Suc i) (cid, u, sid, st, hl, d, cb, cm) =
     (cid @ concat (replicate (Suc i) ''-delegate''), u, Some (cid @ concat (replicate (Suc i) ''-delegate'')), st, hl, True, False, False)"
proof (induction i)
  case (Suc i)
  have comm: "concat (replicate n x) @ x = x @ concat (replicate n x)" for n and x :: string
    by (induction n) simp_all
  have "concat (replicate (Suc (Suc i)) ''-delegate'') = concat (replicate (Suc i) ''-delegate'') @ ''-delegate''"
    unfolding replicate.simps concat.simps append_assoc comm by (rule refl)
  then show ?case
    unfolding funpow.simps(2) [of "Suc i"] comp_apply Suc child_of.simps by (simp only: append_assoc)
qed simp

text \<open>
  C10. In every world that a conversation reaches the first controller is the root and the only one that is no
  delegate, and each delegate has its parent's id with the suffix, user and mode. Whatever the root was told, no
  delegate asks for a confirmation of its own actions or reports a status.
\<close>

theorem delegates_never_ask_for_confirmation:
  assumes "start_controller E sid u st g hl cfgs it bu cb rep confirm initial stats stream sessions = (w0, Inr ())"
    and "reachable E w0 w"
  shows "w_ctrls w \<noteq> [] \<and> (\<forall>i < length (w_ctrls w). c_is_delegate (w_ctrls w ! i) = (0 < i)
     \<and> c_user_id (w_ctrls w ! i) = u \<and> c_headless_mode (w_ctrls w ! i) = hl \<and> c_has_store (w_ctrls w ! i) = st
     \<and> c_id (w_ctrls w ! i) = c_id (w_ctrls w0 ! 0) @ concat (replicate i ''-delegate'')
     \<and> c_confirmation_mode (w_ctrls w ! i) = (if i = 0 then confirm else False)
     \<and> c_has_callback (w_ctrls w ! i) = (if i = 0 then cb else False))"
proof -
  from start_world [OF assms(1)] obtain cid s
    where w0: "w_ctrls w0 = [root_ctrl cid u sid st g hl s cfgs it bu cb rep confirm]" by blast
  let ?r = "(cid, u, sid, st, hl, False, cb, confirm)"
  have "chain_at ?r 0 w0" by (simp add: chain_at_def w0 root_ctrl_def static_def)
  with assms(2) have "chain_at ?r 0 w"
    by (induction rule: reachable.induct) (auto dest: controller_step_chain)
  then have w: "w_ctrls w \<noteq> []" "\<And>i. i < length (w_ctrls w) \<Longrightarrow> static (w_ctrls w ! i) = (child_of ^^ i) ?r"
    by (auto simp: chain_at_def)
  show ?thesis
  proof (intro conjI allI impI)
    fix i assume "i < length (w_ctrls w)"
    from w(2) [OF this] child_power [of "i - 1" cid u sid st hl False cb confirm]
    have "static (w_ctrls w ! i) = (if i = 0 then ?r else (cid @ concat (replicate i ''-delegate''), u,
        Some (cid @ concat (replicate i ''-delegate'')), st, hl, True, False, False))"
      by (cases i) simp_all
    then show "c_is_delegate (w_ctrls w ! i) = (0 < i)" "c_user_id (w_ctrls w ! i) = u"
      "c_headless_mode (w_ctrls w ! i) = hl" "c_has_store (w_ctrls w ! i) = st"
      "c_id (w_ctrls w ! i) = c_id (w_ctrls w0 ! 0) @ concat (replicate i ''-delegate'')"
      "c_confirmation_mode (w_ctrls w ! i) = (if i = 0 then confirm else False)"
      "c_has_callback (w_ctrls w ! i) = (if i = 0 then cb else False)"
      by (auto simp: static_def w0 root_ctrl_def split: if_splits)
  qed (rule w(1))
qed

section \<open>The state of the agent\<close>

text \<open>Apart from the operations that say so, nothing touches the state of a controller.\<close>

definition state_is :: "nat \<Rightarrow> state \<Rightarrow> ('s, 'k, 'p, 'g) world \<Rightarrow> bool" where
  "state_is i s w \<longleftrightarrow> i < length (w_ctrls w) \<and> c_state (cur i w) = s"

lemma state_is_simps [simp]:
  "state_is i s (w\<lparr>w_stream := st\<rparr>) = state_is i s w" "state_is i s (w\<lparr>w_shared := sh\<rparr>) = state_is i s w"
  "state_is i s (w\<lparr>w_clock := n\<rparr>) = state_is i s w" "state_is i s (w\<lparr>w_sessions := p\<rparr>) = state_is i s w"
  "state_is i s (w\<lparr>w_status := l\<rparr>) = state_is i s w"
  by (simp_all add: state_is_def)

lemma state_is_upd: "(\<And>c. c_state (f c) = c_state c) \<Longrightarrow> state_is i s w \<Longrightarrow> state_is i s (upd j f w)"
  by (cases "i = j") (auto simp: state_is_def)

lemma state_is_set_pending [keep]: "keeps (state_is i s) (set_pending j p)"
  by (auto simp: set_pending_def change_ctrl_def intro!: keeps_change state_is_upd)

lemma state_is_publish [keep]: "keeps (state_is i s) (publish E e src)"
  by (auto simp: keeps_def publish_def split: prod.splits)

lemma state_is_publish_pending [keep]: "keeps (state_is i s) (publish_pending E j src)"
  by (auto simp: keeps_def publish_pending_def intro: state_is_upd split: prod.splits option.splits)

lemma state_is_save [keep]: "keeps (state_is i s) (controller_save_state E j)"
  unfolding controller_save_state_def by (rule keeps_change) (simp add: Let_def)

lemma state_is_reset [keep]: "keeps (state_is i s) (reset_agent E j)"
  unfolding reset_agent_def change_ctrl_def by (intro keep keeps_change state_is_upd) simp_all

lemma state_is_answer [keep]: "keeps (state_is i s) (answer_pending E j t)"
  unfolding answer_pending_def by (intro keep)

lemma seqm_change: "fst (seqm (change f) m w) = fst (m (f w))" "snd (seqm (change f) m w) = snd (m (f w))"
  by (simp_all add: eff_defs)

lemma set_agent_state_state:
  assumes "i < length (w_ctrls w)"
  shows "state_is i ((c_state (cur i w))\<lparr>s_agent_state := s\<rparr>) (fst (set_agent_state_to E i s w))"
proof (cases "s = get_agent_state i w")
  case True
  with assms show ?thesis by (simp add: set_agent_state_to_def eff_defs state_is_def get_agent_state_def)
next
  case False
  let ?s = "(c_state (cur i w))\<lparr>s_agent_state := s\<rparr>" and ?w = "upd i (\<lambda>c. c\<lparr>c_state := (c_state c)\<lparr>s_agent_state := s\<rparr>\<rparr>) w"
  let ?rest = "block
      [whenm (s = STOPPED \<or> s = ERROR) (reset_agent E i),
       whenm (get_agent_state i w = ERROR \<and> s = RUNNING) (change (\<lambda>w.
         w\<lparr>w_shared := maybe_increase_control_flags_limits (c_headless_mode (cur i w)) (w_shared w)\<rparr>)),
       whenm (s = USER_CONFIRMED \<or> s = USER_REJECTED) (answer_pending E i s),
       reading (\<lambda>w. c_state (cur i w)) (\<lambda>st. publish E
         (new_obs (AgentStateChangedObservation [] (s_agent_state st) (if s = ERROR then s_last_error st else []))) ENVIRONMENT),
       controller_save_state E i]"
  have run: "set_agent_state_to E i s w = ?rest ?w"
    using False by (simp add: set_agent_state_to_def reading_def change_state_def change_ctrl_def seqm_def and_then_def change_def)
  have "keeps (state_is i ?s) ?rest" by (intro keep keeps_change) simp
  moreover have "state_is i ?s ?w" using assms by (simp add: state_is_def)
  ultimately show ?thesis unfolding run by (rule keepsD)
qed

lemma react_state:
  assumes "i < length (w_ctrls w)" and "ex_classes x = []"
  shows "state_is i ((c_state (cur i w))\<lparr>s_last_error := ex_name x @ '': '' @ ex_str x, s_agent_state := ERROR\<rparr>)
    (fst (react_to_exception E i x w))"
proof -
  let ?t = "ex_name x @ '': '' @ ex_str x"
  let ?w = "upd i (\<lambda>c. c\<lparr>c_state := (c_state c)\<lparr>s_last_error := ?t\<rparr>\<rparr>) w"
  let ?w' = "if c_has_callback (cur i w) then ?w\<lparr>w_status := w_status ?w @ [(''error'', STATUS_ERROR, ?t)]\<rparr> else ?w"
  have "llm_status x = None" using assms(2) by (simp add: llm_status_def isinstance_exc_def)
  then have "react_to_exception E i x w = set_agent_state_to E i ERROR ?w'"
    using assms by (simp add: react_to_exception_def Let_def set_last_error_def report_status_def change_state_def
        change_ctrl_def isinstance_exc_def eff_defs)
  moreover have "i < length (w_ctrls ?w')" "c_state (cur i ?w') = (c_state (cur i w))\<lparr>s_last_error := ?t\<rparr>"
    using assms by (simp_all)
  ultimately show ?thesis using set_agent_state_state [of i ?w' ERROR E] by simp
qed

section \<open>When the agent acts\<close>

text \<open>
  C7. While an action is pending, an observation that does not answer it is only remembered: nothing is
  published, no state changes, and the agent is not asked.
\<close>

theorem one_action_in_flight:
  assumes "i < length (w_ctrls w)" and "c_pending (cur i w) = Some p"
    and "ev_body e = Obs ob" and "ev_cause e \<noteq> Some (event_id p)" and "\<not> hidden e"
  shows "handle_event E i e w = (upd i (\<lambda>c. c\<lparr>c_state := add_history e (c_state c)\<rparr>) w, Inr ())"
proof -
  let ?w = "upd i (\<lambda>c. c\<lparr>c_state := add_history e (c_state c)\<rparr>) w"
  have p: "c_pending (cur i ?w) = Some p" using assms by simp
  then have "step E i ?w = (?w, Inr ())" by (simp add: step_def eff_defs)
  moreover have "handle_observation E i e ?w = (?w, Inr ())"
    using p assms(4) by (simp add: handle_observation_def eff_defs)
  ultimately show ?thesis
    using assms(3,5) by (simp add: handle_event_def dispatch_def step_with_exception_handling_def change_state_def change_ctrl_def eff_defs)
qed

definition limit_text :: "shared \<Rightarrow> string option" where
  \<comment> \<open>the text of the first limit that is reached\<close>
  "limit_text sh =
     (let f = sh_iteration_flag sh in
      if max_value f \<le> current_value f then Some (iter_limit_msg f)
      else case sh_budget_flag sh of
             None \<Rightarrow> None
           | Some b \<Rightarrow> if max_value b \<le> current_value b then Some (budget_limit_msg b) else None)"

lemma limit_text_hit: "iter_limit_msg (f\<lparr>hit_limit := b\<rparr>) = iter_limit_msg f" "budget_limit_msg (g\<lparr>hit_limit := b\<rparr>) = budget_limit_msg g"
  by (simp_all add: iter_limit_msg_def budget_limit_msg_def)

lemma run_control_flags_limit:
  "snd (run_control_flags sh) = (case limit_text sh of Some t \<Rightarrow> Inl (RuntimeError t) | None \<Rightarrow> Inr ())"
  by (simp add: run_control_flags_def iter_step_def iter_reached_limit_def budget_step_def budget_reached_limit_def
      limit_text_def limit_text_hit Let_def split: option.splits)

lemma stuck_chain_analysis:
  "stuck_chain cs = (b, ds) \<Longrightarrow> list_all2 (\<lambda>c d. \<exists>a. d = c\<lparr>c_analysis := a\<rparr>) cs ds"
proof (induction cs arbitrary: b ds)
  case (Cons c cs)
  obtain b' ds' where r: "stuck_chain cs = (b', ds')" by (cases "stuck_chain cs")
  have "\<exists>a. c = c\<lparr>c_analysis := a\<rparr>" by (rule exI [of _ "c_analysis c"]) simp
  with Cons.IH [OF r] Cons.prems r show ?case
    by (cases b') (auto split: prod.splits)
qed simp

lemma check_stuck_run:
  assumes "i < length (w_ctrls w)"
  shows "\<exists>cs a. fst (check_stuck E i w) = w\<lparr>w_ctrls := cs\<rparr> \<and> length cs = length (w_ctrls w)
    \<and> cs ! i = (w_ctrls w ! i)\<lparr>c_analysis := a\<rparr>"
proof (cases "ac_enable_stuck_detection (en_config E (c_agent (cur i w)))")
  case True
  obtain b ds where r: "stuck_chain (drop i (w_ctrls w)) = (b, ds)" by (cases "stuck_chain (drop i (w_ctrls w))")
  note l = stuck_chain_analysis [OF r]
  from list_all2_lengthD [OF l] have len: "length ds = length (w_ctrls w) - i" by simp
  with list_all2_nthD [OF l, of 0] assms obtain a where "ds ! 0 = (w_ctrls w ! i)\<lparr>c_analysis := a\<rparr>" by auto
  with len assms True r show ?thesis
    by (intro exI [of _ "take i (w_ctrls w) @ ds"] exI [of _ a]) (simp add: check_stuck_def is_stuck_at_def reading_def nth_append)
next
  case False
  then show ?thesis
    by (intro exI [of _ "w_ctrls w"] exI [of _ "c_analysis (w_ctrls w ! i)"]) (simp add: check_stuck_def eff_defs)
qed

lemma check_stuck_shared:
  "snd (check_stuck E i (w\<lparr>w_shared := sh\<rparr>)) = snd (check_stuck E i w)"
  by (simp add: check_stuck_def is_stuck_at_def eff_defs split: prod.splits)

text \<open>
  C9. A running agent that has used up its iterations, or whose conversation has spent its budget, is not asked for an
  action: the step ends in the state ERROR, and the last error names the limit. It does so whatever the exceptions of the
  stream are.
\<close>

theorem limit_stops_the_agent:
  assumes "i < length (w_ctrls w)" and "get_agent_state i w = RUNNING" and "c_pending (cur i w) = None"
    and "snd (check_stuck E i w) = Inr False"
    and "limit_text (sync_budget_flag_with_metrics (w_shared w)) = Some t"
  shows "step (with_step ask E) i w = step E i w
    \<and> c_state (cur i (fst (step E i w))) = (c_state (cur i w))\<lparr>s_last_error := ''RuntimeError: '' @ t, s_agent_state := ERROR\<rparr>"
proof -
  let ?sh = "sync_budget_flag_with_metrics (w_shared w)"
  let ?w1 = "w\<lparr>w_shared := ?sh\<rparr>"
  obtain cs a where cs: "fst (check_stuck E i ?w1) = ?w1\<lparr>w_ctrls := cs\<rparr>" "length cs = length (w_ctrls w)"
    "cs ! i = (w_ctrls w ! i)\<lparr>c_analysis := a\<rparr>"
    using check_stuck_run [of i ?w1 E] assms(1) by auto
  then have stuck: "check_stuck E i ?w1 = (?w1\<lparr>w_ctrls := cs\<rparr>, Inr False)"
    using assms(4) check_stuck_shared [of E i ?sh w] by (metis prod.collapse)
  obtain sh' where flags: "run_control_flags ?sh = (sh', Inl (RuntimeError t))"
    using run_control_flags_limit [of ?sh] assms(5) by (cases "run_control_flags ?sh") simp
  let ?w2 = "w\<lparr>w_ctrls := cs, w_shared := sh'\<rparr>" and ?x = "exc_of (RuntimeError t)"
  have run: "step E i w = react_to_exception E i ?x ?w2" if "check_stuck E i ?w1 = (?w1\<lparr>w_ctrls := cs\<rparr>, Inr False)" for E
    using assms(2,3) that flags
    by (simp add: step_def reading_def seqm_def and_then_def change_def run_flags_def get_agent_state_def)
  have "i < length (w_ctrls ?w2)" "c_state (cur i ?w2) = c_state (cur i w)"
    using assms(1) cs by (simp_all add: cur_def)
  then have "c_state (cur i (fst (react_to_exception E i ?x ?w2)))
      = (c_state (cur i w))\<lparr>s_last_error := ''RuntimeError: '' @ t, s_agent_state := ERROR\<rparr>"
    using react_state [of i ?w2 ?x E] by (simp add: state_is_def plain_exc_def)
  then show ?thesis
    using run [OF stuck] run [of "with_step ask E"] stuck by (simp add: unasked)
qed

section \<open>Stopping\<close>

lemma add_event_parts:
  assumes "add_event wr ls lit now e src st = (st', e', Inr ())"
  obtains st1 r n where "add_reserve ls lit now e src st = (st1, e', Inr r)" "add_persist wr r st1 = (st', Inr ())"
    "next_id ls st = Inr n" "e' = e\<lparr>ev_timestamp := Some now, ev_source := Some src, ev_id := Some n\<rparr>"
proof -
  from assms obtain st1 r where r: "add_reserve ls lit now e src st = (st1, e', Inr r)"
    and p: "add_persist wr r st1 = (st', Inr ())"
    by (auto simp: add_event_def split: prod.splits sum.splits)
  obtain n where n: "next_id ls st = Inr n"
    using r by (cases "next_id ls st")
      (auto simp: add_reserve_def cur_id_def next_id_def Let_def split: option.splits if_splits)
  from that [OF r p n add_reserve_ok(2) [OF r n]] show thesis .
qed

lemma add_event_queued:
  assumes add: "add_event wr ls lit now e src st = (st', e', Inr ())" and sec: "st_secrets st = []" and ok: "event_ok e"
  shows "\<exists>n. e' = e\<lparr>ev_timestamp := Some now, ev_source := Some src, ev_id := Some n\<rparr>
    \<and> st_queue st' = st_queue st @ [delivered e'] \<and> st_secrets st' = []"
proof -
  from add obtain st1 r n where r: "add_reserve ls lit now e src st = (st1, e', Inr r)"
    and p: "add_persist wr r st1 = (st', Inr ())" and n: "next_id ls st = Inr n"
    by (rule add_event_parts)
  note res = add_reserve_ok [OF r n]
  have "event_ok e'" using ok res(2) by (simp add: event_ok_def)
  then have "rs_event r = delivered e'"
    using event_roundtrip_lemma [of e' lit] res(3,4) sec by auto
  moreover have "st_queue st1 = st_queue st" "st_secrets st1 = []" using res(6) sec by auto
  ultimately have "st_queue st' = st_queue st @ [delivered e'] \<and> st_secrets st' = []"
    using p by (auto simp: add_persist_def store_cache_page_def Let_def split: sum.splits if_splits list.splits option.splits json.splits)
  with res(2) show ?thesis by blast
qed

text \<open>What an observer of the queue sees of an event, apart from its id and time.\<close>

definition gist :: "event \<Rightarrow> body \<times> event_source option \<times> int option \<times> tool_call_metadata option" where
  "gist e = (ev_body e, ev_source e, ev_cause e, ev_tool_call_metadata e)"

lemma publish_gist:
  assumes "publish E e src w = (w', Inr ())" and "st_secrets (w_stream w) = []" and "event_ok e" and "ev_body e = Obs ob"
  shows "map gist (st_queue (w_stream w')) = map gist (st_queue (w_stream w)) @ [(Obs ob, Some src, ev_cause e, ev_tool_call_metadata e)]
    \<and> st_secrets (w_stream w') = [] \<and> w_ctrls w' = w_ctrls w"
proof -
  obtain st e' where add: "add_event (en_wr E) (en_ls E) (en_lit E) (en_now E (w_clock w)) e src (w_stream w) = (st, e', Inr ())"
    and w': "w' = w\<lparr>w_stream := st, w_clock := w_clock w + 1\<rparr>"
    using assms(1) by (auto simp: publish_def split: prod.splits sum.splits)
  from add_event_queued [OF add assms(2,3)] assms(4) show ?thesis
    by (auto simp: w' gist_def delivered_def delivered_body_def)
qed

lemma reset_gist:
  assumes "reset_agent E i w = (w', Inr ())" and "i < length (w_ctrls w)" and "c_pending (cur i w) = Some p"
    and "st_secrets (w_stream w) = []"
  shows "map gist (st_queue (w_stream w')) = map gist (st_queue (w_stream w))
       @ (if has_observation_for (s_history (c_state (cur i w))) p then []
          else [(ev_body (not_executed (get_agent_state i w) p), Some AGENT, Some (event_id p), ev_tool_call_metadata p)])
    \<and> st_secrets (w_stream w') = [] \<and> length (w_ctrls w') = length (w_ctrls w)
    \<and> c_pending (cur i w') = None \<and> c_state (cur i w') = c_state (cur i w)"
proof -
  let ?has = "has_observation_for (s_history (c_state (cur i w))) p" and ?e = "not_executed (get_agent_state i w) p"
  obtain w1 where w1: "whenm (\<not> ?has) (publish E ?e AGENT) w = (w1, Inr ())"
    and w': "w' = upd i (\<lambda>c. c\<lparr>c_agent := en_reset E (c_agent c)\<rparr>) (upd i (\<lambda>c. c\<lparr>c_pending := None\<rparr>) w1)"
    using assms(1,3) by (auto simp: reset_agent_def seqm_Inr set_pending_def change_ctrl_def get_agent_state_def)
  have e: "\<exists>ob. ev_body ?e = Obs ob" "event_ok ?e" "ev_cause ?e = Some (event_id p)"
    "ev_tool_call_metadata ?e = ev_tool_call_metadata p"
    by (simp_all add: not_executed_def new_obs_def event_ok_def)
  have "map gist (st_queue (w_stream w1)) = map gist (st_queue (w_stream w))
       @ (if ?has then [] else [(ev_body ?e, Some AGENT, Some (event_id p), ev_tool_call_metadata p)])
     \<and> st_secrets (w_stream w1) = [] \<and> w_ctrls w1 = w_ctrls w"
  proof (cases ?has)
    case False
    from e(1) obtain ob where "ev_body ?e = Obs ob" by blast
    with publish_gist [of E ?e AGENT w w1 ob] w1 e assms(4) False show ?thesis by simp
  qed (use w1 assms(4) in simp)
  moreover from this have "cur i w1 = cur i w" "length (w_ctrls w1) = length (w_ctrls w)" by (simp_all add: cur_def)
  ultimately show ?thesis using assms(2) by (simp add: w')
qed

text \<open>
  C8. Stopping an agent, or an error, while an action is pending: the action is no longer pending, and the model is
  told once that it was not executed, by an observation with the action's tool call and cause, unless the history
  already has an observation of that tool call. For an action without a tool call, such as the recall of a new message,
  any observation without one counts.
\<close>

theorem stopping_answers_pending_action:
  assumes "i < length (w_ctrls w)" and "c_pending (cur i w) = Some p" and "s \<in> {STOPPED, ERROR}" and "get_agent_state i w \<noteq> s"
    and "st_secrets (w_stream w) = []" and "set_agent_state_to E i s w = (w', Inr ())"
  shows "c_pending (cur i w') = None
    \<and> map gist (st_queue (w_stream w')) = map gist (st_queue (w_stream w))
       @ (if has_observation_for (s_history (c_state (cur i w))) p then []
          else [(ev_body (not_executed s p), Some AGENT, Some (event_id p), ev_tool_call_metadata p)])
       @ [(Obs (AgentStateChangedObservation [] s (if s = ERROR then s_last_error (c_state (cur i w)) else [])),
           Some ENVIRONMENT, None, None)]"
proof -
  let ?w = "upd i (\<lambda>c. c\<lparr>c_state := (c_state c)\<lparr>s_agent_state := s\<rparr>\<rparr>) w"
  let ?obs = "\<lambda>st. new_obs (AgentStateChangedObservation [] (s_agent_state st) (if s = ERROR then s_last_error st else []))"
  obtain w1 w2 where w1: "reset_agent E i ?w = (w1, Inr ())"
    and w2: "publish E (?obs (c_state (cur i w1))) ENVIRONMENT w1 = (w2, Inr ())"
    and w': "controller_save_state E i w2 = (w', Inr ())"
    using assms(3,4,6)
    by (auto simp: set_agent_state_to_def change_state_def change_ctrl_def seqm_Inr)
  have r: "reset_agent E i ?w = (w1, Inr ())" "i < length (w_ctrls ?w)" "c_pending (cur i ?w) = Some p"
    "st_secrets (w_stream ?w) = []" using w1 assms by simp_all
  from reset_gist [OF r] assms(1) have q: "map gist (st_queue (w_stream w1)) = map gist (st_queue (w_stream w))
       @ (if has_observation_for (s_history (c_state (cur i w))) p then []
          else [(ev_body (not_executed s p), Some AGENT, Some (event_id p), ev_tool_call_metadata p)])"
    "st_secrets (w_stream w1) = []" "c_pending (cur i w1) = None"
    "c_state (cur i w1) = (c_state (cur i w))\<lparr>s_agent_state := s\<rparr>"
    by (auto simp: get_agent_state_def)
  have "event_ok (?obs (c_state (cur i w1)))" using assms(3) q(4) by (auto simp: event_ok_def new_obs_def agent_state_ok_def agent_state_of_def agent_state_value_def)
  from publish_gist [OF w2 q(2) this] q have "map gist (st_queue (w_stream w2)) = map gist (st_queue (w_stream w1))
       @ [(Obs (AgentStateChangedObservation [] s (if s = ERROR then s_last_error (c_state (cur i w)) else [])), Some ENVIRONMENT, None, None)]"
    "c_pending (cur i w2) = None"
    by (simp_all add: new_obs_def cur_def)
  with w' q(1) show ?thesis by (auto simp: controller_save_state_def Let_def)
qed

section \<open>Confirmation\<close>

lemma risk_declared [simp]: "action_risk (set_declared_confirmation c a) = action_risk a"
  by (cases a) simp_all

lemma risk_of_confirmed [simp]: "risk_of_event (set_event_confirmation c e) = risk_of_event e"
  by (simp add: risk_of_event_def set_event_confirmation_def split: body.split)

lemma declared_risk [simp]: "declared_confirmation (set_action_risk k a) = declared_confirmation a"
  by (cases a) simp_all

lemma guarded_has_risk: "guarded_class a \<Longrightarrow> action_risk a \<noteq> None" "guarded_class a \<Longrightarrow> runnable a"
  "guarded_class a \<Longrightarrow> a \<noteq> NullAction"
  by (cases a; simp add: guarded_class_def)+

definition risk_found :: "('s, 'k, 'p, 'g) env \<Rightarrow> event \<Rightarrow> security_risk" where
  \<comment> \<open>the risk the controller works with\<close>
  "risk_found E e = (case en_analyzer E of
       None \<Rightarrow> RISK_UNKNOWN
     | Some f \<Rightarrow> (case f e of Inr r \<Rightarrow> r | Inl _ \<Rightarrow> RISK_UNKNOWN))"

definition user_is_asked :: "('s, 'k, 'p, 'g) env \<Rightarrow> event \<Rightarrow> bool" where
  "user_is_asked E e = (en_analyzer E = None \<or> risk_found E e = RISK_HIGH)"

lemma analyzed_guarded:
  assumes "ev_body e = Act a" and "guarded_class a"
  shows "analyzed E e = e\<lparr>ev_body := Act (set_action_risk (risk_found E e) a)\<rparr>"
    and "risk_of_event (analyzed E e) = Some (risk_found E e)" and "event_confirmation (analyzed E e) = event_confirmation e"
proof -
  show a: "analyzed E e = e\<lparr>ev_body := Act (set_action_risk (risk_found E e) a)\<rparr>"
    using assms guarded_has_risk(1) [OF assms(2)] by (auto simp: analyzed_def risk_found_def)
  have "action_risk (set_action_risk k a) = Some (Some k)" for k
    using guarded_has_risk(1) [OF assms(2)] by (cases a) simp_all
  then show "risk_of_event (analyzed E e) = Some (risk_found E e)" by (simp add: a risk_of_event_def)
  show "event_confirmation (analyzed E e) = event_confirmation e"
    using assms(1) by (simp add: a event_confirmation_def split: option.split)
qed

lemma set_confirmation_sel [simp]:
  "ev_source (set_event_confirmation c e) = ev_source e" "ev_id (set_event_confirmation c e) = ev_id e"
  by (simp_all add: set_event_confirmation_def split: body.split)

lemma not_null [simp]: "set_declared_confirmation c a = NullAction \<longleftrightarrow> a = NullAction" "set_action_risk k a = NullAction \<longleftrightarrow> a = NullAction"
  by (cases a; simp)+

lemma null_action_iff: "is_null_action b \<longleftrightarrow> b = Act NullAction"
  by (simp add: is_null_action_def split: body.split action.split)

lemma confirmation_gate_class:
  assumes "ev_body e = Act a" and "guarded_class a"
  shows "\<not> is_null_action (ev_body (confirmation_gate E c a e))"
  using assms guarded_has_risk(3) [OF assms(2)]
  by (simp add: confirmation_gate_def Let_def set_event_confirmation_def analyzed_guarded(1) null_action_iff)

lemma confirmation_gate_guarded:
  assumes "ev_body e = Act a" and "guarded_class a" and "s_confirmation_mode (c_state c)" and "c_confirmation_mode c"
    and "\<not> ac_cli_mode (en_config E (c_agent c))"
  shows "risk_of_event (confirmation_gate E c a e) = Some (risk_found E e)"
    and "event_confirmation (confirmation_gate E c a e) =
      (if user_is_asked E e then Some AWAITING_CONFIRMATION else event_confirmation e)"
proof -
  let ?e = "analyzed E e"
  have asked: "risk_of_event ?e = Some RISK_HIGH \<or> risk_of_event ?e = Some RISK_UNKNOWN \<and> en_analyzer E = None
      \<longleftrightarrow> user_is_asked E e"
    using analyzed_guarded(2) [OF assms(1,2), of E] by (auto simp: user_is_asked_def risk_found_def)
  then have g: "confirmation_gate E c a e = (if user_is_asked E e then set_event_confirmation AWAITING_CONFIRMATION ?e else ?e)"
    using assms by (simp add: confirmation_gate_def Let_def)
  show "risk_of_event (confirmation_gate E c a e) = Some (risk_found E e)"
    using analyzed_guarded(2) [OF assms(1,2), of E] by (simp add: g)
  show "event_confirmation (confirmation_gate E c a e) =
      (if user_is_asked E e then Some AWAITING_CONFIRMATION else event_confirmation e)"
    using analyzed_guarded(3) [OF assms(1,2), of E] by (simp add: g)
qed

lemma pending_published:
  assumes "publish_pending E i src w = (w', Inr ())" and "c_pending (cur i w) = Some e" and "i < length (w_ctrls w)"
  shows "\<exists>t n. c_pending (cur i w') = Some (e\<lparr>ev_timestamp := Some t, ev_source := Some src, ev_id := Some n\<rparr>)"
proof -
  obtain st e' where add: "add_event (en_wr E) (en_ls E) (en_lit E) (en_now E (w_clock w)) e src (w_stream w) = (st, e', Inr ())"
    and w': "w' = upd i (\<lambda>c. c\<lparr>c_pending := Some e'\<rparr>) (w\<lparr>w_stream := st, w_clock := w_clock w + 1\<rparr>)"
    using assms(1,2) by (auto simp: publish_pending_def split: prod.splits sum.splits)
  from add_event_parts [OF add] obtain n
    where "e' = e\<lparr>ev_timestamp := Some (en_now E (w_clock w)), ev_source := Some src, ev_id := Some n\<rparr>" by metis
  with assms(3) show ?thesis by (auto simp: w')
qed

lemma same_sel [simp]:
  "event_confirmation (e\<lparr>ev_timestamp := t, ev_source := src, ev_id := n\<rparr>) = event_confirmation e"
  "event_confirmation (e\<lparr>ev_llm_metrics := m\<rparr>) = event_confirmation e"
  "risk_of_event (e\<lparr>ev_timestamp := t, ev_source := src, ev_id := n\<rparr>) = risk_of_event e"
  "risk_of_event (e\<lparr>ev_llm_metrics := m\<rparr>) = risk_of_event e"
  by (simp_all add: event_confirmation_def risk_of_event_def split: body.split option.split)

text \<open>The action that is sent becomes the pending one; the agent waits for the user if it carries the mark.\<close>

lemma send_action_pending:
  assumes "send_action E i True e w = (w', Inr ())" and "i < length (w_ctrls w)"
  shows "(\<exists>p. c_pending (cur i w') = Some p \<and> event_confirmation p = event_confirmation e \<and> risk_of_event p = risk_of_event e)
    \<and> get_agent_state i w' = (if event_confirmation e = Some AWAITING_CONFIRMATION then AWAITING_USER_CONFIRMATION
         else get_agent_state i w)"
proof -
  let ?asked = "event_confirmation e = Some AWAITING_CONFIRMATION"
  let ?s = "if ?asked then (c_state (cur i w))\<lparr>s_agent_state := AWAITING_USER_CONFIRMATION\<rparr> else c_state (cur i w)"
  obtain w1 m src where w1: "whenm ?asked (set_agent_state_to E i AWAITING_USER_CONFIRMATION) w = (w1, Inr ())"
    and w': "publish_pending E i src (upd i (\<lambda>c. c\<lparr>c_pending := Some (e\<lparr>ev_llm_metrics := Some m\<rparr>)\<rparr>) w1) = (w', Inr ())"
    using assms(1) by (auto simp: send_action_def seqm_Inr and_then_Inr of_res_def set_pending_def change_ctrl_def Let_def
        split: option.splits sum.splits)
  have s: "state_is i ?s w1"
    using w1 assms(2) set_agent_state_state [OF assms(2), of AWAITING_USER_CONFIRMATION E]
    by (cases ?asked) (auto simp: state_is_def)
  let ?w2 = "upd i (\<lambda>c. c\<lparr>c_pending := Some (e\<lparr>ev_llm_metrics := Some m\<rparr>)\<rparr>) w1"
  have "state_is i ?s ?w2" using s by (intro state_is_upd) simp_all
  from keepsD [OF state_is_publish_pending this] have "state_is i ?s (fst (publish_pending E i src ?w2))" .
  then have "get_agent_state i w' = s_agent_state ?s" using w' by (simp add: state_is_def get_agent_state_def)
  moreover from pending_published [OF w'] s have "\<exists>t n. c_pending (cur i w') =
      Some (e\<lparr>ev_llm_metrics := Some m, ev_timestamp := Some t, ev_source := Some src, ev_id := Some n\<rparr>)"
    by (simp add: state_is_def)
  ultimately show ?thesis by (auto simp: get_agent_state_def)
qed

lemma perform_guarded:
  assumes "perform_action E i e w = (w', Inr ())" and "i < length (w_ctrls w)" and "get_agent_state i w = RUNNING"
    and "ev_body e = Act a" and "guarded_class a" and "event_confirmation e \<noteq> Some AWAITING_CONFIRMATION"
    and "s_confirmation_mode (c_state (cur i w))" and "c_confirmation_mode (cur i w)"
    and "\<not> ac_cli_mode (en_config E (c_agent (cur i w)))"
  shows "get_agent_state i w' = (if user_is_asked E e then AWAITING_USER_CONFIRMATION else RUNNING)
    \<and> (\<exists>p. c_pending (cur i w') = Some p \<and> risk_of_event p = Some (risk_found E e)
         \<and> (event_confirmation p = Some AWAITING_CONFIRMATION) = user_is_asked E e)"
proof -
  let ?e = "confirmation_gate E (cur i w) a e"
  note gate = confirmation_gate_guarded [OF assms(4,5,7,8,9)]
  have "\<not> is_null_action (ev_body ?e)" using confirmation_gate_class [OF assms(4,5)] .
  then have "send_action E i True ?e (upd i (\<lambda>c. c\<lparr>c_pending := Some ?e\<rparr>) w) = (w', Inr ())"
    using assms(1,4) guarded_has_risk(2) [OF assms(5)]
    by (simp add: perform_action_def set_pending_def change_ctrl_def Let_def)
  from send_action_pending [OF this] assms(2,3,6) gate show ?thesis
    by (auto simp: get_agent_state_def)
qed

text \<open>
  C3. In confirmation mode, outside the command line interface, the agent waits for the user exactly when no security
  analyzer is configured or the analyzer finds the risk high, for the five guarded classes of actions; the
  pending action then carries the mark, and in any case the risk that was found.
\<close>

theorem confirmation_exactly_when_asked:
  assumes "perform_action E i e w = (w', Inr ())" and "i < length (w_ctrls w)" and "get_agent_state i w = RUNNING"
    and "ev_body e = Act a" and "guarded_class a" and "event_confirmation e \<noteq> Some AWAITING_CONFIRMATION"
    and "s_confirmation_mode (c_state (cur i w))" and "c_confirmation_mode (cur i w)"
    and "\<not> ac_cli_mode (en_config E (c_agent (cur i w)))"
  shows "get_agent_state i w' = (if en_analyzer E = None \<or> risk_found E e = RISK_HIGH then AWAITING_USER_CONFIRMATION else RUNNING)
    \<and> (\<exists>p. c_pending (cur i w') = Some p \<and> risk_of_event p = Some (risk_found E e)
         \<and> (event_confirmation p = Some AWAITING_CONFIRMATION) = (en_analyzer E = None \<or> risk_found E e = RISK_HIGH))"
  using perform_guarded [OF assms] unfolding user_is_asked_def .

text \<open>
  A configured analyzer that fails lets the action through: the risk is UNKNOWN, and an action of unknown risk is
  shown to the user only when there is no analyzer at all.
\<close>

theorem failing_analyzer_waives_confirmation:
  assumes "perform_action E i e w = (w', Inr ())" and "i < length (w_ctrls w)" and "get_agent_state i w = RUNNING"
    and "ev_body e = Act a" and "guarded_class a" and "event_confirmation e \<noteq> Some AWAITING_CONFIRMATION"
    and "s_confirmation_mode (c_state (cur i w))" and "c_confirmation_mode (cur i w)"
    and "\<not> ac_cli_mode (en_config E (c_agent (cur i w)))"
    and "en_analyzer E = Some f" and "f e = Inl x"
  shows "get_agent_state i w' = RUNNING
    \<and> (\<exists>p. c_pending (cur i w') = Some p \<and> risk_of_event p = Some RISK_UNKNOWN
         \<and> event_confirmation p \<noteq> Some AWAITING_CONFIRMATION)"
  using perform_guarded [OF assms(1-9)] assms(10,11) by (simp add: user_is_asked_def risk_found_def)

end
