(* ===== verification/AgentContract.thy ===== *)
theory AgentContract
  imports ControllerLaws
begin

text \<open>
  The contract between the controller and its agents: what a step of an agent may do to the state it is given. From
  the contract it follows what a step of the controller can lead to.
\<close>

section \<open>The part of the state that is not the agent's\<close>

definition frame :: "state \<Rightarrow> state" where
  \<comment> \<open>without the objects of the history, the cached view and the notes of the condenser\<close>
  "frame s = s\<lparr>s_history := [], s_extra_data := [], s_history_checksum := 0, s_view := empty_view\<rparr>"

definition same_frame :: "state \<Rightarrow> state \<Rightarrow> bool" where
  "same_frame s s' \<longleftrightarrow> frame s' = frame s \<and> map event_id (s_history s') = map event_id (s_history s)"

lemma same_frame_refl [simp]: "same_frame s s"
  by (simp add: same_frame_def)

lemma same_frame_trans: "same_frame s s' \<Longrightarrow> same_frame s' s'' \<Longrightarrow> same_frame s s''"
  by (simp add: same_frame_def)

lemma same_frame_notes [simp]:
  "same_frame s (s'\<lparr>s_extra_data := d\<rparr>) = same_frame s s'" "same_frame s (s'\<lparr>s_history_checksum := n\<rparr>) = same_frame s s'"
  "same_frame s (s'\<lparr>s_view := v\<rparr>) = same_frame s s'"
  by (simp_all add: same_frame_def frame_def)

lemma same_frame_history:
  "map event_id h = map event_id (s_history s') \<Longrightarrow> same_frame s (s'\<lparr>s_history := h\<rparr>) = same_frame s s'"
  by (simp add: same_frame_def frame_def)

lemma same_frame_agent_state: "same_frame s s' \<Longrightarrow> s_agent_state s' = s_agent_state s"
proof -
  assume "same_frame s s'"
  then have "s_agent_state (frame s') = s_agent_state (frame s)" by (simp add: same_frame_def)
  then show ?thesis by (simp add: frame_def)
qed

lemma same_frame_view: "same_frame s (fst (state_view s)) "
  by (auto simp: state_view_def Let_def split: sum.split)

section \<open>Where a step of the controller can lead\<close>

text \<open>The state of the agent is one of a set, and the history has the same events as at the start.\<close>

definition conforms :: "nat \<Rightarrow> agent_state set \<Rightarrow> state \<Rightarrow> ('s, 'k, 'p, 'g) world \<Rightarrow> bool" where
  "conforms i S s w \<longleftrightarrow> i < length (w_ctrls w) \<and> get_agent_state i w \<in> S
     \<and> map event_id (s_history (c_state (cur i w))) = map event_id (s_history s)"

lemma keeps_conforms:
  fixes m :: "(('s, 'k, 'p, 'g) world, 'e) eff"
  assumes "\<And>s. keeps (state_is i s) m"
  shows "keeps (conforms i S s) m"
  unfolding keeps_def
proof (intro allI impI)
  fix w :: "('s, 'k, 'p, 'g) world" assume w: "conforms i S s w"
  then have "state_is i (c_state (cur i w)) w" by (simp add: conforms_def state_is_def)
  with assms have "state_is i (c_state (cur i w)) (fst (m w))" by (simp add: keeps_def)
  with w show "conforms i S s (fst (m w))" by (auto simp: conforms_def state_is_def get_agent_state_def)
qed

lemma conforms_simps [simp]:
  "conforms i S s (w\<lparr>w_stream := st\<rparr>) = conforms i S s w" "conforms i S s (w\<lparr>w_shared := sh\<rparr>) = conforms i S s w"
  "conforms i S s (w\<lparr>w_status := l\<rparr>) = conforms i S s w"
  by (simp_all add: conforms_def get_agent_state_def)

lemma conforms_set_state [keep]:
  assumes "a \<in> S"
  shows "keeps (conforms i S s) (set_agent_state_to E i a)"
proof (unfold keeps_def, intro allI impI)
  fix w :: "('a, 'b, 'c, 'd) world" assume w: "conforms i S s w"
  then have "i < length (w_ctrls w)" by (simp add: conforms_def)
  from set_agent_state_state [OF this, of a E] w assms show "conforms i S s (fst (set_agent_state_to E i a w))"
    by (auto simp: conforms_def state_is_def get_agent_state_def)
qed

lemma conforms_last_error [keep]: "keeps (conforms i S s) (set_last_error i t)"
  unfolding set_last_error_def change_state_def change_ctrl_def
  by (rule keeps_change) (auto simp: conforms_def get_agent_state_def)

lemma conforms_status [keep]: "keeps (conforms i S s) (report_status a t)"
  unfolding report_status_def by (rule keeps_change) simp

lemma conforms_react [keep]:
  "ERROR \<in> S \<Longrightarrow> RATE_LIMITED \<in> S \<Longrightarrow> keeps (conforms i S s) (react_to_exception E i x)"
  unfolding react_to_exception_def Let_def by (intro keep)

lemma conforms_basic [keep]:
  "keeps (conforms i S s) (publish E e src)" "keeps (conforms i S s) (publish_pending E i src)"
  "keeps (conforms i S s) (set_pending i p)"
  by (rule keeps_conforms, rule keep)+

lemma conforms_send [keep]: "AWAITING_USER_CONFIRMATION \<in> S \<Longrightarrow> keeps (conforms i S s) (send_action E i b e)"
  unfolding send_action_def Let_def by (intro keep)

lemma conforms_perform [keep]: "AWAITING_USER_CONFIRMATION \<in> S \<Longrightarrow> keeps (conforms i S s) (perform_action E i e)"
  by (cases "ev_body e") (auto simp: perform_action_def Let_def intro!: keep)

lemma conforms_run_flags [keep]: "keeps (conforms i S s) run_flags"
  by (auto simp: run_flags_def keeps_def split: prod.split)

lemma stuck_chain_states: "map c_state (snd (stuck_chain cs)) = map c_state cs"
  by (induction cs) (auto split: prod.splits bool.splits)

lemma conforms_check_stuck [keep]: "keeps (conforms i S s) (check_stuck (E :: ('s, 'k, 'p, 'g) env) i)"
proof -
  have "keeps (conforms i S s) (is_stuck_at i :: (('s, 'k, 'p, 'g) world, bool) eff)"
    unfolding keeps_def
  proof (intro allI impI)
    fix w :: "('s, 'k, 'p, 'g) world" assume w: "conforms i S s w"
    obtain b cs where run: "stuck_chain (drop i (w_ctrls w)) = (b, cs)" by force
    have states: "map c_state cs = map c_state (drop i (w_ctrls w))"
      using stuck_chain_states [of "drop i (w_ctrls w)"] by (simp add: run)
    have len: "length cs = length (w_ctrls w) - i" using arg_cong [OF states, of length] by simp
    have i: "i < length (w_ctrls w)" using w by (simp add: conforms_def)
    have "c_state (cs ! 0) = c_state (drop i (w_ctrls w) ! 0)"
      using states i len by (metis length_drop nth_map zero_less_diff)
    then show "conforms i S s (fst (is_stuck_at i w))"
      using w i len by (simp add: is_stuck_at_def run conforms_def get_agent_state_def cur_def nth_append)
  qed
  then show ?thesis unfolding check_stuck_def by (intro keep)
qed

section \<open>The contract\<close>

locale lawful_agent =
  fixes act :: "'g \<Rightarrow> state \<Rightarrow> shared \<Rightarrow> 'g \<times> state \<times> shared \<times> (exc + event option)"
  assumes act_frame: "act g s sh = (g', s', sh', r) \<Longrightarrow> same_frame s s'"
begin

lemma conforms_ask:
  fixes E :: "('s, 'k, 'p, 'g) env"
  assumes "en_step E = act"
  shows "keeps (conforms i S s) (ask_agent E i)"
  unfolding keeps_def
proof (intro allI impI)
  fix w :: "('s, 'k, 'p, 'g) world" assume w: "conforms i S s w"
  obtain g st sh r where run: "act (c_agent (cur i w)) (c_state (cur i w)) (w_shared w) = (g, st, sh, r)"
    by (metis prod_cases4)
  let ?w = "upd i (\<lambda>c. c\<lparr>c_agent := g, c_state := st\<rparr>) (w\<lparr>w_shared := sh\<rparr>)"
  note frame = act_frame [OF run]
  have "s_agent_state st = s_agent_state (c_state (cur i w))" by (rule same_frame_agent_state [OF frame])
  moreover have "map event_id (s_history st) = map event_id (s_history (c_state (cur i w)))"
    using frame by (simp add: same_frame_def)
  ultimately have w': "conforms i S s ?w"
    using w by (simp add: conforms_def get_agent_state_def)
  have failed: "keeps (conforms i S s) (agent_failed E i x)" for x
    unfolding agent_failed_def by (intro keep)
  show "conforms i S s (fst (ask_agent E i w))"
    using w' keepsD [OF failed w'] by (simp add: ask_agent_def assms run Let_def split: sum.split option.split)
qed

lemma conforms_step:
  assumes "en_step E = act" and "{ERROR, RATE_LIMITED, AWAITING_USER_CONFIRMATION} \<subseteq> S"
  shows "keeps (conforms i S s) (step_with_exception_handling E i)"
proof -
  have "keeps (conforms i S s) (next_action E i)"
    unfolding next_action_def take_replayed_def change_ctrl_def
    by (intro keep conforms_ask [OF assms(1)] keeps_change) (auto simp: conforms_def get_agent_state_def)
  then show ?thesis
    using assms(2) unfolding step_with_exception_handling_def step_def
    by (intro keep keeps_change) auto
qed

text \<open>A step of the controller changes the state of a running agent in three ways only, and no event enters its history.\<close>

lemma step_outcomes:
  assumes "en_step E = act" and "i < length (w_ctrls w)" and "get_agent_state i w = RUNNING"
  shows "get_agent_state i (fst (step_with_exception_handling E i w)) \<in> {RUNNING, AWAITING_USER_CONFIRMATION, ERROR, RATE_LIMITED}
     \<and> map event_id (s_history (c_state (cur i (fst (step_with_exception_handling E i w))))) = map event_id (s_history (c_state (cur i w)))"
proof -
  let ?S = "{RUNNING, AWAITING_USER_CONFIRMATION, ERROR, RATE_LIMITED}"
  have "conforms i ?S (c_state (cur i w)) w" using assms(2,3) by (simp add: conforms_def)
  then have "conforms i ?S (c_state (cur i w)) (fst (step_with_exception_handling E i w))"
    using keepsD [OF conforms_step [OF assms(1)], of ?S i "c_state (cur i w)" w] by simp
  then show ?thesis by (simp add: conforms_def)
qed

end

end
