(* ===== verification/CodeActLaws.thy ===== *)
theory CodeActLaws
  imports CodeAct AgentContract
begin

text \<open>
  The laws of the CodeAct agent: a response is played to its end before the model is asked again, the model is only asked
  with prompts in which calls and results are paired, and a step changes nothing of the state but the agent's own notes.
\<close>

section \<open>The queue of actions\<close>

fun play :: "'l codeact_env \<Rightarrow> nat \<Rightarrow> ('l turn, event list) eff" where
  \<comment> \<open>the results of so many steps\<close>
  "play E 0 = ret []"
| "play E (Suc n) = and_then (codeact_step E) (\<lambda>e. and_then (play E n) (\<lambda>es. ret (e # es)))"

definition with_queue :: "event list \<Rightarrow> 'l turn \<Rightarrow> 'l turn" where
  "with_queue q t = t\<lparr>tn_agent := (tn_agent t)\<lparr>ct_pending_actions := q\<rparr>\<rparr>"

lemma with_queue_simps [simp]:
  "ct_pending_actions (tn_agent (with_queue q t)) = q" "tn_state (with_queue q t) = tn_state t"
  "with_queue p (with_queue q t) = with_queue p t" "with_queue (ct_pending_actions (tn_agent t)) t = t"
  "enqueue es t = with_queue (ct_pending_actions (tn_agent t) @ es) t"
  by (simp_all add: with_queue_def enqueue_def)

lemma pop_action_run: "pop_action t = (case ct_pending_actions (tn_agent t) of
    [] \<Rightarrow> (t, Inl (exc_of IndexError)) | e # es \<Rightarrow> (with_queue es t, Inr e))"
  by (simp add: pop_action_def with_queue_def eff_defs split: list.split)

lemma step_pops: "codeact_step E (with_queue (e # es) t) = (with_queue es t, Inr e)"
  by (simp add: codeact_step_def pop_action_run)

lemma play_queue: "play E (length es) (with_queue es t) = (with_queue [] t, Inr es)"
proof (induction es)
  case (Cons e es)
  then show ?case by (simp add: eff_defs step_pops)
qed simp

lemma queue_kept:
  "last_user_message t = (t', r) \<Longrightarrow> ct_pending_actions (tn_agent t') = ct_pending_actions (tn_agent t)"
  "condensed_history E t = (t', c) \<Longrightarrow> ct_pending_actions (tn_agent t') = ct_pending_actions (tn_agent t)"
  "get_messages E es i t = (t', m) \<Longrightarrow> ct_pending_actions (tn_agent t') = ct_pending_actions (tn_agent t)"
  "complete_prompt E ms t = (t', p) \<Longrightarrow> ct_pending_actions (tn_agent t') = ct_pending_actions (tn_agent t)"
  by (auto simp: last_user_message_def condensed_history_def run_condenser_def get_messages_def complete_prompt_def eff_defs
      split: prod.splits sum.splits)

lemma of_res_Inr: "of_res r w = (w', Inr a) \<longleftrightarrow> w' = w \<and> r = Inr a"
  by (cases r) (auto simp: of_res_def)

lemma ask_model_Inr:
  assumes "ask_model E condensed t = (t', Inr e)" and "ct_pending_actions (tn_agent t) = []"
  obtains r es where "ce_response_to_actions E r = Inr es" "es = e # ct_pending_actions (tn_agent t')"
proof -
  from assms(1) obtain initial t1 ms t2 r es where
    "get_messages E condensed initial t = (t1, Inr ms)" "complete_prompt E ms t1 = (t2, Inr r)"
    and es: "ce_response_to_actions E r = Inr es" and pop: "pop_action (enqueue es t2) = (t', Inr e)"
    unfolding ask_model_def by (auto simp: and_then_Inr of_res_Inr)
  then have "ct_pending_actions (tn_agent t2) = []" using queue_kept(3,4) assms(2) by metis
  then have "es = e # ct_pending_actions (tn_agent t')" using pop by (auto simp: pop_action_run split: list.splits)
  with es that show thesis by blast
qed

text \<open>
  C12. When the queue is empty, a step that returns either ends the conversation or condenses the history, or it takes the
  actions of one response of the model: then the steps that follow play the rest of them in order, and ask neither the
  condenser nor the model.
\<close>

theorem response_is_played_in_order:
  assumes "ct_pending_actions (tn_agent t) = []" and "codeact_step E t = (t', Inr e)"
  shows "(\<exists>r es. ce_response_to_actions E r = Inr es \<and> play E (length es) t = (with_queue [] t', Inr es))
     \<or> ct_pending_actions (tn_agent t') = [] \<and> (is_finish (ev_body e) \<or> is_condensation_action (ev_body e))"
proof -
  from assms obtain t1 m where m: "last_user_message t = (t1, Inr m)"
    and rest: "(if asks_to_exit m then ret (new_action (AgentFinishAction [] [] []))
       else and_then (condensed_history E) (\<lambda>c. case c of
         Condensed a \<Rightarrow> ret (new_action (CondensationAction a))
       | Viewed v \<Rightarrow> ask_model E (vw_events v))) t1 = (t', Inr e)"
    unfolding codeact_step_def by (auto simp: and_then_Inr)
  have q1: "ct_pending_actions (tn_agent t1) = []" using queue_kept(1) [OF m] assms(1) by simp
  show ?thesis
  proof (cases "asks_to_exit m")
    case True
    with rest q1 show ?thesis by (auto simp: new_action_def is_finish_def)
  next
    case False
    with rest obtain t2 c where c: "condensed_history E t1 = (t2, Inr c)"
      and next_: "(case c of Condensed a \<Rightarrow> ret (new_action (CondensationAction a)) | Viewed v \<Rightarrow> ask_model E (vw_events v)) t2 = (t', Inr e)"
      by (auto simp: and_then_Inr)
    have q2: "ct_pending_actions (tn_agent t2) = []" using queue_kept(2) [OF c] q1 by simp
    show ?thesis
    proof (cases c)
      case (Condensed a)
      with next_ q2 show ?thesis by (auto simp: new_action_def is_condensation_action_def)
    next
      case (Viewed v)
      with next_ have "ask_model E (vw_events v) t2 = (t', Inr e)" by simp
      then obtain r es where es: "ce_response_to_actions E r = Inr es" "es = e # ct_pending_actions (tn_agent t')"
        by (rule ask_model_Inr [OF _ q2])
      have "play E (length (ct_pending_actions (tn_agent t'))) t' = (with_queue [] t', Inr (ct_pending_actions (tn_agent t')))"
        using play_queue [of E "ct_pending_actions (tn_agent t')" t'] by simp
      then have "play E (length es) t = (with_queue [] t', Inr es)"
        using assms(2) by (simp add: es(2) eff_defs)
      with es(1) show ?thesis by blast
    qed
  qed
qed

section \<open>Prompts\<close>

lemma mark_message_outline: "mark_message m = Inr m' \<Longrightarrow> outline m' = outline m"
  by (auto simp: mark_message_def bind_res_Inr outline_def)

lemma mark_first_outline: "mark_first_request ms = Inr ms' \<Longrightarrow> map outline ms' = map outline ms"
proof (induction ms arbitrary: ms')
  case (Cons m ms)
  then show ?case by (auto simp: bind_res_Inr mark_message_outline split: if_splits)
qed simp

lemma caching_outline:
  assumes "apply_prompt_caching ms = Inr ms'"
  shows "map outline ms' = map outline ms"
proof -
  from assms obtain m1 m2 where first: "(case ms of m # rest \<Rightarrow> if mg_role m = R_system
      then bind_res (mark_message m) (\<lambda>m. Inr (m # rest)) else Inr ms | [] \<Rightarrow> Inr []) = Inr m1"
    and second: "mark_first_request (rev m1) = Inr m2" and ms': "ms' = rev m2"
    by (auto simp: apply_prompt_caching_def bind_res_Inr)
  have "map outline m1 = map outline ms"
    using first by (auto simp: bind_res_Inr mark_message_outline split: list.splits if_splits)
  moreover have "map outline ms' = map outline m1"
    using mark_first_outline [OF second] by (simp add: ms' rev_map [symmetric])
  ultimately show ?thesis by simp
qed

lemma prompt_paired:
  assumes "get_messages E events initial t = (t', Inr ms)" and "responses_named (ce_memory E)"
  shows "paired ms"
proof -
  obtain shown r where run: "process_events (ce_memory E) events initial (ce_max_message_chars E) (ce_vision_is_active E) = (shown, r)"
    by force
  with assms(1) obtain plain where plain: "r = Inr plain"
    and ms: "(if ce_caching_prompt E then apply_prompt_caching plain else Inr plain) = Inr ms"
    by (auto simp: get_messages_def and_then_Inr of_res_Inr)
  have "map outline ms = map outline plain" using ms caching_outline by (auto split: if_splits)
  then show ?thesis using prompts_paired [OF run [unfolded plain] assms(2)] paired_outline by blast
qed

text \<open>
  The model only ever sees prompts in which the results follow their calls: a client that behaves differently on any
  other prompt gives the same agent.
\<close>

theorem model_sees_paired_prompts:
  assumes "responses_named (ce_memory E)"
    and "\<And>ms metadata x. paired ms \<Longrightarrow> other ms metadata x = ce_completion E ms metadata x"
  shows "codeact_step (E\<lparr>ce_completion := other\<rparr>) = codeact_step E"
proof -
  let ?F = "E\<lparr>ce_completion := other\<rparr>"
  have same: "get_messages ?F = get_messages E" "condensed_history ?F = condensed_history E"
    by (simp_all add: fun_eq_iff get_messages_def condensed_history_def run_condenser_def)
  have complete_same: "complete_prompt ?F ms = complete_prompt E ms" if "paired ms" for ms
    using assms(2) [OF that] by (simp add: complete_prompt_def fun_eq_iff)
  have prompts: "and_then (get_messages E events i) (\<lambda>ms. and_then (complete_prompt ?F ms) k)
      = and_then (get_messages E events i) (\<lambda>ms. and_then (complete_prompt E ms) k)" for events i k
  proof (rule ext)
    fix t :: "'a turn"
    obtain t' r where run: "get_messages E events i t = (t', r)" by force
    show "and_then (get_messages E events i) (\<lambda>ms. and_then (complete_prompt ?F ms) k) t
      = and_then (get_messages E events i) (\<lambda>ms. and_then (complete_prompt E ms) k) t"
    proof (cases r)
      case (Inr ms)
      with run complete_same [OF prompt_paired [OF _ assms(1)]] show ?thesis by (simp add: and_then_def)
    qed (simp add: and_then_def run)
  qed
  have ask: "ask_model ?F = ask_model E" by (intro ext) (simp add: ask_model_def same prompts)
  show ?thesis by (unfold codeact_step_def same ask) (rule refl)
qed

section \<open>The contract with the controller\<close>

lemma settled_ids: "map event_id (settled shown history) = map event_id history"
proof -
  have "event_id (if is_finish (ev_body e)
      then (case find (\<lambda>x. event_id x = event_id e \<and> is_finish (ev_body x)) shown of Some x \<Rightarrow> x | None \<Rightarrow> e) else e) = event_id e" for e
    by (auto dest: find_SomeD split: option.split)
  then show ?thesis by (simp add: settled_def)
qed

abbreviation framed :: "state \<Rightarrow> 'l turn \<Rightarrow> bool" where
  "framed s t \<equiv> same_frame s (tn_state t)"

lemma frame_settle: "same_frame s (settle b shown s') = same_frame s s'"
  by (simp add: settle_def same_frame_history settled_ids)

lemma frame_state_view: "same_frame s s' \<Longrightarrow> state_view s' = (s'', v) \<Longrightarrow> same_frame s s''"
  using same_frame_trans [OF _ same_frame_view [of s']] by simp

lemma frame_get_messages [keep]: "keeps (framed s) (get_messages E events i)"
  unfolding get_messages_def by (intro keep keeps_change) (simp_all add: frame_settle)

lemma frame_complete [keep]: "keeps (framed s) (complete_prompt E ms)"
  by (auto simp: keeps_def complete_prompt_def split: prod.split)

lemma frame_pop [keep]: "keeps (framed s) pop_action"
  by (simp add: keeps_def pop_action_run split: list.split)

lemma frame_ask [keep]: "keeps (framed s) (ask_model E events)"
  unfolding ask_model_def by (intro keep keeps_change) simp

lemma frame_last_message [keep]: "keeps (framed s) last_user_message"
  by (auto simp: keeps_def last_user_message_def get_last_user_message_def of_res_def
      split: prod.splits dest: frame_state_view)

lemma frame_written: "write_metadata batch s' = Inr s'' \<Longrightarrow> same_frame s s'' = same_frame s s'"
  by (auto simp: write_metadata_def Let_def split: if_splits option.splits json.splits)

lemma frame_condensed [keep]: "keeps (framed s) (condensed_history (E :: 'l codeact_env))"
  unfolding keeps_def
proof (intro allI impI)
  fix t :: "'l turn" assume t: "framed s t"
  obtain t' batch r where run: "run_condenser E t = (t', batch, r)" by (metis prod_cases3)
  then have "framed s t'"
    using t frame_state_view by (auto simp: run_condenser_def split: prod.splits sum.splits)
  then show "framed s (fst (condensed_history E t))"
    using frame_written by (auto simp: condensed_history_def run split: sum.split)
qed

lemma frame_step: "keeps (framed s) (codeact_step E)"
  unfolding codeact_step_def by (intro keep) (auto intro: keep split: condensed.split)

interpretation codeact_lawful: lawful_agent "agent_step A" for A :: "'l codeact_env"
proof
  fix g s sh g' s' sh' r assume "agent_step A g s sh = (g', s', sh', r)"
  then show "same_frame s s'"
    using keepsD [OF frame_step, of s "\<lparr>tn_agent = g, tn_state = s, tn_shared = sh\<rparr>" A] by (auto simp: agent_step_def split: prod.splits)
qed

text \<open>
  A controller that steps a running CodeAct agent leaves it running, waiting for a confirmation, rate limited or failed,
  and no event enters the history: whatever the memory, the condenser and the model do.
\<close>

theorem codeact_step_outcomes:
  assumes "i < length (w_ctrls w)" and "get_agent_state i w = RUNNING"
  shows "get_agent_state i (fst (step_with_exception_handling (with_codeact A E) i w))
       \<in> {RUNNING, AWAITING_USER_CONFIRMATION, ERROR, RATE_LIMITED}
     \<and> map event_id (s_history (c_state (cur i (fst (step_with_exception_handling (with_codeact A E) i w)))))
       = map event_id (s_history (c_state (cur i w)))"
  by (rule codeact_lawful.step_outcomes [OF _ assms]) (simp add: with_codeact_def)

section \<open>Stopping\<close>

definition queue_empty :: "nat \<Rightarrow> ('s, 'k, 'p, 'l codeact) world \<Rightarrow> bool" where
  "queue_empty i w \<longleftrightarrow> i < length (w_ctrls w) \<and> ct_pending_actions (c_agent (cur i w)) = []"

lemma queue_empty_simps [simp]:
  "queue_empty i (w\<lparr>w_stream := st\<rparr>) = queue_empty i w" "queue_empty i (w\<lparr>w_shared := sh\<rparr>) = queue_empty i w"
  "queue_empty i (w\<lparr>w_clock := n\<rparr>) = queue_empty i w" "queue_empty i (w\<lparr>w_sessions := p\<rparr>) = queue_empty i w"
  by (simp_all add: queue_empty_def)

lemma queue_empty_upd: "(\<And>c. c_agent (f c) = c_agent c) \<Longrightarrow> queue_empty i w \<Longrightarrow> queue_empty i (upd j f w)"
  by (cases "i = j") (auto simp: queue_empty_def)

lemma queue_empty_publish [keep]: "keeps (queue_empty i) (publish E e src)"
  by (auto simp: keeps_def publish_def split: prod.splits)

lemma queue_empty_answer [keep]: "keeps (queue_empty i) (answer_pending E j s)"
  unfolding answer_pending_def set_pending_def change_ctrl_def
  by (intro keep keeps_change) (auto simp: keeps_def publish_pending_def intro: queue_empty_upd split: prod.splits option.splits)

lemma queue_empty_save [keep]: "keeps (queue_empty i) (controller_save_state E j)"
  unfolding controller_save_state_def by (rule keeps_change) (simp add: Let_def)

lemma reset_empties:
  assumes "reset_agent (with_codeact A E) i w = (w', Inr ())" and "i < length (w_ctrls w)"
  shows "queue_empty i w'"
proof -
  let ?asked = "reading (cur i) (\<lambda>c. case c_pending c of
        None \<Rightarrow> ret ()
      | Some p \<Rightarrow> whenm (\<not> has_observation_for (s_history (c_state c)) p)
                    (publish (with_codeact A E) (not_executed (s_agent_state (c_state c)) p) AGENT))"
  from assms(1) obtain w1 w2 where w1: "?asked w = (w1, Inr ())" and w2: "set_pending i None w1 = (w2, Inr ())"
    and w': "change_ctrl i (\<lambda>c. c\<lparr>c_agent := en_reset (with_codeact A E) (c_agent c)\<rparr>) w2 = (w', Inr ())"
    by (auto simp: reset_agent_def seqm_Inr simp del: run_simps)
  have "keeps (state_is i (c_state (cur i w))) (seqm ?asked (set_pending i None))" by (intro keep)
  then have "state_is i (c_state (cur i w)) w2"
    using assms(2) w1 w2 by (auto simp: keeps_def state_is_def seqm_def and_then_def dest!: spec [of _ w])
  then show ?thesis
    using w' by (auto simp: state_is_def change_ctrl_def change_def queue_empty_def with_codeact_def codeact_reset_def)
qed

text \<open>
  A CodeAct agent that is stopped or fails forgets the calls of the last response it has not played: they are not
  executed when the agent runs again.
\<close>

theorem stopped_agent_forgets_its_queue:
  assumes "set_agent_state_to (with_codeact A E) i s w = (w', Inr ())" and "s = STOPPED \<or> s = ERROR"
    and "get_agent_state i w \<noteq> s" and "i < length (w_ctrls w)"
  shows "ct_pending_actions (c_agent (cur i w')) = []"
proof -
  let ?w = "upd i (\<lambda>c. c\<lparr>c_state := (c_state c)\<lparr>s_agent_state := s\<rparr>\<rparr>) w"
  let ?rest = "block
      [whenm (get_agent_state i w = ERROR \<and> s = RUNNING) (change (\<lambda>w.
         w\<lparr>w_shared := maybe_increase_control_flags_limits (c_headless_mode (cur i w)) (w_shared w)\<rparr>)),
       whenm (s = USER_CONFIRMED \<or> s = USER_REJECTED) (answer_pending (with_codeact A E) i s),
       reading (\<lambda>w. c_state (cur i w)) (\<lambda>st. publish (with_codeact A E)
         (new_obs (AgentStateChangedObservation [] (s_agent_state st) (if s = ERROR then s_last_error st else []))) ENVIRONMENT),
       controller_save_state (with_codeact A E) i]"
  have "set_agent_state_to (with_codeact A E) i s w = seqm (reset_agent (with_codeact A E) i) ?rest ?w"
    using assms(2,3) by (auto simp: set_agent_state_to_def change_state_def change_ctrl_def)
  with assms(1) obtain w1 where w1: "reset_agent (with_codeact A E) i ?w = (w1, Inr ())" and w': "?rest w1 = (w', Inr ())"
    by (auto simp: seqm_Inr)
  have "queue_empty i w1" using reset_empties [OF w1] assms(4) by simp
  moreover have "keeps (queue_empty i) ?rest" by (intro keep keeps_change) simp
  ultimately have "queue_empty i w'" using keepsD [of "queue_empty i" ?rest w1] w' by simp
  then show ?thesis by (simp add: queue_empty_def)
qed

end
