(* ===== verification/DelegateLaws.thy ===== *)
theory DelegateLaws
  imports ControllerLaws
begin

text \<open>
  Properties of the controller that concern delegates, recovery from a loop, and the way of a user's message to the agent.
\<close>

section \<open>Delegates\<close>

lemma fmt_2f_notin: "CHR ''R'' \<notin> set (fmt_2f x)"
  using str_of_int_notin [of "CHR ''R''"] by (auto simp: fmt_2f_def Let_def)

lemma contains_at_start:
  assumes "c \<notin> set s" and "p = c # q"
  shows "py_contains (c # s) p = py_startswith (c # s) p"
proof -
  have "\<not> py_contains s p"
  proof
    assume "py_contains s p"
    then have "sublist p s" by (simp add: py_contains_sublist)
    from set_mono_sublist [OF this] assms show False by auto
  qed
  then show ?thesis by simp
qed

definition with_delegate_error :: "string \<Rightarrow> ('s, 'k, 'p, 'g) world \<Rightarrow> ('s, 'k, 'p, 'g) world" where
  "with_delegate_error t w = upd 1 (\<lambda>c. c\<lparr>c_state := (c_state c)\<lparr>s_last_error := t, s_agent_state := ERROR\<rparr>\<rparr>) w"

lemma delegate_error_goes_on:
  "delegate_goes_on (s\<lparr>s_last_error := ''RuntimeError: '' @ iter_limit_msg f, s_agent_state := ERROR\<rparr>)"
  "\<not> delegate_goes_on (s\<lparr>s_last_error := ''RuntimeError: '' @ budget_limit_msg b, s_agent_state := ERROR\<rparr>)"
proof -
  have "py_startswith t p \<Longrightarrow> py_contains t p" for t p by (cases t) (auto simp: py_startswith_def)
  moreover have "py_startswith (''RuntimeError: '' @ iter_limit_msg f) ''RuntimeError: Agent reached maximum iteration.''"
    by (simp add: py_startswith_def iter_limit_msg_def)
  ultimately show "delegate_goes_on (s\<lparr>s_last_error := ''RuntimeError: '' @ iter_limit_msg f, s_agent_state := ERROR\<rparr>)"
    by (simp add: delegate_goes_on_def)
  let ?t = "''untimeError: '' @ budget_limit_msg b"
  have "CHR ''R'' \<notin> set ?t"
    using fmt_2f_notin by (simp add: budget_limit_msg_def)
  note at = contains_at_start [OF this refl]
  show "\<not> delegate_goes_on (s\<lparr>s_last_error := ''RuntimeError: '' @ budget_limit_msg b, s_agent_state := ERROR\<rparr>)"
    using at [of "''untimeError: Agent reached maximum iteration.''"]
      at [of "''untimeError:Agent reached maximum budget for conversation''"]
    by (simp add: delegate_goes_on_def py_startswith_def budget_limit_msg_def)
qed

lemma on_event_delegate_error:
  assumes "1 < length (w_ctrls w)"
  shows "on_event E e (with_delegate_error t w) =
    (if delegate_goes_on ((c_state (w_ctrls w ! 1))\<lparr>s_last_error := t, s_agent_state := ERROR\<rparr>)
     then handle_event E 1 e (with_delegate_error t w) else end_delegate E 0 (with_delegate_error t w))"
  using assms by (simp add: on_event_def with_delegate_error_def upd_def)

lemma delegate_error_forwarded:
  "1 < length (w_ctrls w) \<Longrightarrow> (\<And>s. delegate_goes_on (s\<lparr>s_last_error := t, s_agent_state := ERROR\<rparr>)) \<Longrightarrow>
     on_event E e (with_delegate_error t w) = handle_event E 1 e (with_delegate_error t w)"
  "1 < length (w_ctrls w) \<Longrightarrow> (\<And>s. \<not> delegate_goes_on (s\<lparr>s_last_error := t, s_agent_state := ERROR\<rparr>)) \<Longrightarrow>
     on_event E e (with_delegate_error t w) = end_delegate E 0 (with_delegate_error t w)"
  by (subst on_event_delegate_error; simp)+

text \<open>
  A delegate that reached the iteration limit keeps receiving the events, so that the user can let it go on; a
  delegate that reached the budget is ended by the next event, because the text that the root looks for lacks the space that
  the error message has.
\<close>

theorem budget_error_ends_delegate:
  assumes "1 < length (w_ctrls w)"
  shows "on_event E e (with_delegate_error (''RuntimeError: '' @ iter_limit_msg f) w)
      = handle_event E 1 e (with_delegate_error (''RuntimeError: '' @ iter_limit_msg f) w)
    \<and> on_event E e (with_delegate_error (''RuntimeError: '' @ budget_limit_msg b) w)
      = end_delegate E 0 (with_delegate_error (''RuntimeError: '' @ budget_limit_msg b) w)"
proof (rule conjI)
  show "on_event E e (with_delegate_error (''RuntimeError: '' @ iter_limit_msg f) w)
      = handle_event E 1 e (with_delegate_error (''RuntimeError: '' @ iter_limit_msg f) w)"
    by (rule delegate_error_forwarded(1) [OF assms]) (rule delegate_error_goes_on(1))
  show "on_event E e (with_delegate_error (''RuntimeError: '' @ budget_limit_msg b) w)
      = end_delegate E 0 (with_delegate_error (''RuntimeError: '' @ budget_limit_msg b) w)"
    by (rule delegate_error_forwarded(2) [OF assms]) (rule delegate_error_goes_on(2))
qed

lemma keeps_length:
  assumes "\<And>S. same_shape S (m :: (('s, 'k, 'p, 'g) world, 'a) eff)"
  shows "keeps (\<lambda>w. n < length (w_ctrls w)) m"
  unfolding keeps_def
proof (intro allI impI)
  fix w :: "('s, 'k, 'p, 'g) world"
  assume "n < length (w_ctrls w)"
  moreover have "length (w_ctrls (fst (m w))) = length (w_ctrls w)"
    by (rule shape_nth(1), rule keepsD [OF assms refl])
  ultimately show "n < length (w_ctrls (fst (m w)))" by simp
qed

lemma length_start_delegate: "keeps (\<lambda>w. Suc i < length (w_ctrls w)) (start_delegate E i nm inputs)"
proof -
  have load: "same_shape S (load_history E s)" for S s
    by (auto simp: keeps_def load_history_def split: prod.splits)
  have latest: "same_shape S (latest_event_id E)" for S
    by (auto simp: keeps_def latest_event_id_def split: sum.splits prod.splits)
  have sys: "same_shape S (add_system_message E g s)" for S g s
    unfolding add_system_message_def by (intro keep)
  have last: "keeps (\<lambda>w. Suc i < length (w_ctrls w)) (change (\<lambda>w. w\<lparr>w_ctrls := take (i + 1) (w_ctrls w) @ [d]\<rparr>))" for d :: "'d ctrl"
    by (rule keeps_change) simp
  show ?thesis
    unfolding start_delegate_def
    by (intro keep load [THEN keeps_length] latest [THEN keeps_length] sys [THEN keeps_length] keeps_change_shared [THEN keeps_length] last)
qed

lemma length_handle_action: "keeps (\<lambda>w. Suc i < length (w_ctrls w)) (handle_action E i a e)"
proof -
  note leaf = keeps_length [OF keeps_set_agent_state] keeps_length [OF keeps_change_state] keeps_length [OF keeps_handle_message]
    keeps_length [OF keeps_loop_recovery] keeps_length [OF keeps_publish]
  have "keeps (\<lambda>w. Suc i < length (w_ctrls w)) (handle_delegate_action E i nm inputs)" for nm inputs
    unfolding handle_delegate_action_def
    by (auto split: option.split json.split intro!: length_start_delegate keep leaf)
  then show ?thesis
    by (cases a) (auto simp: handle_action_def intro!: keep leaf)
qed

text \<open>
  Events reach the root's delegate only. As long as that delegate has a delegate of its own no event makes any
  of the agents act: the sub-delegate is never stepped, and its parent waits for it.
\<close>

theorem nested_delegates_never_act:
  assumes "2 < length (w_ctrls w)"
  shows "on_event (with_step ask E) e w = on_event E e w"
proof (cases "delegate_goes_on (c_state (w_ctrls w ! 1))")
  case False
  with assms show ?thesis by (simp add: on_event_def unasked)
next
  case True
  let ?w = "upd 1 (\<lambda>c. c\<lparr>c_state := add_history e (c_state c)\<rparr>) w"
  have "keeps (\<lambda>w. Suc 1 < length (w_ctrls w)) (dispatch E 1 e)"
    using length_handle_action [of 1 E _ e] keeps_length [OF keeps_handle_observation, of "Suc 1" E 1 e]
    by (cases "ev_body e") (auto simp: dispatch_def)
  from keepsD [OF this, of ?w] assms have len: "2 < length (w_ctrls (fst (dispatch E 1 e ?w)))" by simp
  have run: "handle_event F 1 e w = (if hidden e then (w, Inr ()) else dispatch E 1 e ?w)" if "dispatch F = dispatch E" for F
  proof (cases "dispatch E 1 e ?w")
    case (Pair w' r)
    then have "\<not> should_step 1 e w'" using len by (simp add: should_step_def)
    with Pair that show ?thesis
      by (cases r) (simp_all add: handle_event_def change_state_def change_ctrl_def seqm_def and_then_def)
  qed
  from run [of E] run [of "with_step ask E"] True assms show ?thesis by (simp add: on_event_def unasked)
qed

section \<open>A user's message\<close>

definition pending_is :: "nat \<Rightarrow> event option \<Rightarrow> ('s, 'k, 'p, 'g) world \<Rightarrow> bool" where
  "pending_is i p w \<longleftrightarrow> i < length (w_ctrls w) \<and> c_pending (cur i w) = p"

lemma pending_is_change_state [keep]: "keeps (pending_is i p) (change_state i f)"
  unfolding change_state_def change_ctrl_def by (rule keeps_change) (simp add: pending_is_def)

lemma pending_is_publish [keep]: "keeps (pending_is i p) (publish E e src)"
  by (auto simp: keeps_def publish_def pending_is_def split: prod.splits)

lemma pending_is_save [keep]: "keeps (pending_is i p) (controller_save_state E i)"
  unfolding controller_save_state_def by (rule keeps_change) (simp add: pending_is_def Let_def)

lemma pending_is_shared [keep]: "keeps (pending_is i p) (change (\<lambda>w. w\<lparr>w_shared := f w\<rparr>))"
  by (rule keeps_change) (simp add: pending_is_def)

lemma pending_is_running: "keeps (pending_is i p) (set_agent_state_to E i RUNNING)"
  unfolding set_agent_state_to_def by (intro keep) simp_all

text \<open>A message of the user is handled: the root runs, and its pending action is the recall.\<close>

lemma user_message_asks_recall:
  assumes "length (w_ctrls w) = 1" and "is_user_message e" and "on_event E e w = (w1, Inr ())" and "c_pending (cur 0 w1) = Some p"
  shows "length (w_ctrls w1) = 1" "get_agent_state 0 w1 = RUNNING"
    "\<exists>kind content. kind \<in> {WORKSPACE_CONTEXT, KNOWLEDGE} \<and> ev_body p = Act (RecallAction kind content []) \<and> ev_source p = Some USER"
proof -
  from assms(2) obtain m where m: "ev_body e = Act (MessageAction m)" and user: "ev_source e = Some USER"
    by (auto simp: is_user_message_def is_message_def split: body.splits action.splits)
  let ?w = "upd 0 (\<lambda>c. c\<lparr>c_state := add_history e (c_state c)\<rparr>) w"
  have "\<not> hidden e" using m by (simp add: hidden_def)
  then obtain w2 where w2: "handle_message_action E 0 m e ?w = (w2, Inr ())"
    and w1: "whenm (should_step 0 e w2) (step_with_exception_handling E 0) w2 = (w1, Inr ())"
    using assms(1,3) m by (auto simp: on_event_def handle_event_def dispatch_def handle_action_def seqm_Inr change_state_def change_ctrl_def)
  obtain wa first where wa: "first_user_message E 0 ?w = (wa, Inr first)" using w2 user
    by (auto simp: handle_message_action_def and_then_Inr)
  define kind where "kind = (if (case first of None \<Rightarrow> False | Some m \<Rightarrow> event_id e = event_id m) then WORKSPACE_CONTEXT else KNOWLEDGE)"
  then have kind: "kind \<in> {WORKSPACE_CONTEXT, KNOWLEDGE}" by simp
  obtain wb where wb: "publish_pending E 0 USER
      (upd 0 (\<lambda>c. c\<lparr>c_pending := Some (new_action (RecallAction kind (ma_content m) []))\<rparr>) wa) = (wb, Inr ())"
    and set: "whenm (get_agent_state 0 wb \<noteq> RUNNING) (set_agent_state_to E 0 RUNNING) wb = (w2, Inr ())"
    using w2 user wa by (auto simp: handle_message_action_def and_then_def seqm_Inr Let_def set_pending_def change_ctrl_def
        kind_def [symmetric])
  have "same_shape S (first_user_message E 0)" for S unfolding first_user_message_def by (intro keep) simp
  from shape_nth(1) [OF keepsD [OF this refl], of ?w] wa assms(1) have la: "length (w_ctrls wa) = 1" by simp
  from pending_published [OF wb] la obtain t n where "c_pending (cur 0 wb) =
      Some ((new_action (RecallAction kind (ma_content m) []))\<lparr>ev_timestamp := Some t, ev_source := Some USER, ev_id := Some n\<rparr>)"
    by auto
  moreover have lb: "length (w_ctrls wb) = 1"
    using shape_nth(1) [OF keepsD [OF keeps_publish_pending refl, of E 0 USER]] wb la by (metis fst_conv upd_simps(6))
  ultimately have pb: "pending_is 0 (Some ((new_action (RecallAction kind (ma_content m) []))\<lparr>ev_timestamp := Some t, ev_source := Some USER, ev_id := Some n\<rparr>)) wb"
    by (simp add: pending_is_def)
  have "pending_is 0 (c_pending (cur 0 wb)) w2 \<and> get_agent_state 0 w2 = RUNNING"
  proof (cases "get_agent_state 0 wb = RUNNING")
    case False
    with set have "set_agent_state_to E 0 RUNNING wb = (w2, Inr ())" by simp
    moreover have "pending_is 0 (c_pending (cur 0 wb)) wb" using lb by (simp add: pending_is_def)
    ultimately show ?thesis
      using keepsD [OF pending_is_running, of 0 "c_pending (cur 0 wb)" wb E] set_agent_state_state [of 0 wb RUNNING E] lb
      by (simp add: state_is_def get_agent_state_def)
  qed (use set lb in \<open>simp add: pending_is_def\<close>)
  then have p2: "pending_is 0 (c_pending (cur 0 wb)) w2" and run: "get_agent_state 0 w2 = RUNNING" by simp_all
  then have "step_with_exception_handling E 0 w2 = (w2, Inr ())"
    using pb by (simp add: step_with_exception_handling_def step_def try_except_def pending_is_def)
  then have eq: "w1 = w2" using w1 by (cases "should_step 0 e w2") simp_all
  have len: "length (w_ctrls w1) = 1" 
    using shape_nth(1) [OF keepsD [OF keeps_set_agent_state refl, of E 0 RUNNING wb]] set lb eq
    by (cases "get_agent_state 0 wb = RUNNING"; simp)
  then show "length (w_ctrls w1) = 1" .
  show "get_agent_state 0 w1 = RUNNING" using run eq by simp
  show "\<exists>kind content. kind \<in> {WORKSPACE_CONTEXT, KNOWLEDGE} \<and> ev_body p = Act (RecallAction kind content []) \<and> ev_source p = Some USER"
    using assms(4) p2 pb eq kind by (auto simp: pending_is_def new_action_def)
qed

text \<open>The answer to the recall, an observation or a null observation that names the recall, lets the agent take its step.\<close>

lemma answer_clears_the_way:
  assumes "length (w_ctrls w1) = 1" and "get_agent_state 0 w1 = RUNNING" and "c_pending (cur 0 w1) = Some p"
    and "ev_body ob = Obs (RecallObservation r) \<or> ev_body ob = Obs (NullObservation s) \<and> 0 < event_id p"
    and "ev_cause ob = Some (event_id p)"
  defines "w2 \<equiv> upd 0 (\<lambda>c. c\<lparr>c_state := add_history ob (c_state c), c_pending := None\<rparr>) w1"
  shows "get_agent_state 0 w2 = RUNNING" "c_pending (cur 0 w2) = None" "length (w_ctrls w2) = 1"
    "on_event E ob w1 = step_with_exception_handling E 0 w2"
proof -
  let ?w1 = "upd 0 (\<lambda>c. c\<lparr>c_state := add_history ob (c_state c)\<rparr>) w1"
  have len: "0 < length (w_ctrls w1)" "length (w_ctrls w1) = 1" using assms(1) by simp_all
  have shown: "\<not> hidden ob" "\<exists>x. ev_body ob = Obs x" using assms(4) by (auto simp: hidden_def)
  show st: "get_agent_state 0 w2 = RUNNING" "c_pending (cur 0 w2) = None" "length (w_ctrls w2) = 1"
    using len assms(2) by (simp_all add: w2_def get_agent_state_def add_history_eq)
  have w2': "upd 0 (\<lambda>c. c\<lparr>c_pending := None\<rparr>) ?w1 = w2" by (simp add: upd_def len w2_def)
  have handled: "handle_observation E 0 ob ?w1 = (w2, Inr ())"
    using assms(3,5) len assms(2) st(1) w2'
    by (simp add: handle_observation_def set_pending_def change_ctrl_def get_agent_state_def add_history_eq seqm_def and_then_def)
  have "should_step 0 ob w2" using assms(4,5) st(3) by (auto simp: should_step_def is_class_defs)
  with handled shown len show "on_event E ob w1 = step_with_exception_handling E 0 w2"
    by (auto simp: on_event_def handle_event_def dispatch_def change_state_def change_ctrl_def seqm_def and_then_def)
qed

section \<open>Recovery from a loop\<close>

lemma truncated_state:
  assumes "i < length (w_ctrls w)" and "n < int (length (s_history (c_state (cur i w))))"
    and "py_take n (s_history (c_state (cur i w))) = kept" and "kept \<noteq> []"
    and "truncate_memory_to_point i n w = (w', Inr ())"
  shows "c_state (cur i w') = (c_state (cur i w))\<lparr>s_history := kept, s_end_id := event_id (last kept)\<rparr>"
  using assms by (auto simp: truncate_memory_to_point_def Let_def change_state_def change_ctrl_def)

text \<open>
  A conversation that recovered from a loop forgets when it is loaded again everything that happened after the
  recovery: the id of the last kept event stays in the saved state as the end of the history.
\<close>

theorem recovery_hides_later_events:
  assumes "i < length (w_ctrls w)" and "n < int (length (s_history (c_state (cur i w))))"
    and "py_take n (s_history (c_state (cur i w))) = kept" and "kept \<noteq> []" and "0 \<le> event_id (last kept)"
    and "truncate_memory_to_point i n w = (w', Inr ())"
    and "store_ok mem_read lit stream" and "cur_id mem_list stream = Inr (stream', m)"
    and "init_history mem_read mem_list lit (\<lambda>_. True) stream (getstate (c_state (cur i w'))) = (stream'', Inr s)"
  shows "\<forall>e \<in> set (s_history s). event_id e \<le> event_id (last kept)"
proof -
  let ?s = "getstate (c_state (cur i w'))" and ?b = "event_id (last kept)"
  have "s_end_id ?s = ?b" using truncated_state [OF assms(1-4,6)] by (simp add: getstate_def)
  then obtain a where range: "history_range mem_list stream ?s = Inr (stream, a, ?b)"
    using assms(5) by (simp add: history_range_def Let_def)
  have "set (s_history s) \<subseteq> set (log_events lit stream a ?b)"
    using assms(9)
    by (auto dest!: subsetD [OF set_collapse] simp: init_history_def range search_history_log [OF assms(7,8)] Let_def split: if_splits)
  moreover have "files_ok mem_read lit stream" using assms(7) by (simp add: store_ok_def)
  ultimately show ?thesis using log_events_upper by blast
qed

end
