(* ===== verification/Runtime.thy ===== *)
theory Runtime
  imports ControllerLaws
begin

text \<open>
  How the runtime takes an action from the stream (\<open>openhands/runtime/base.py\<close>, \<open>on_event\<close>, \<open>_handle_action\<close>
  and \<open>run_action\<close>): which actions it executes, which it leaves alone, and what observation it puts on the stream.

  Executing a command, a cell, a file operation or a tool happens in a sandbox: it is the argument \<open>rt_exec\<close> (and \<open>rt_exec_mcp\<close>)
  of the model, which gives an observation or the exception it ends with. The task list is kept in a text
  file, so its reading and writing are arguments too. Every runnable class of the model has a method of the runtime, so
  the two error observations for unknown types cannot occur.
\<close>

datatype failure =
    PermissionFailure string
  | DisconnectedFailure string string
  | OtherFailure string string

record 't runtime =
  rt_sid :: string
  rt_user_id :: "string option"
  rt_timeout :: rat
  rt_export_tokens :: "event \<Rightarrow> failure + unit"
  rt_exec :: "event \<Rightarrow> failure + observation"
  rt_exec_mcp :: "event \<Rightarrow> failure + observation"
  rt_write :: "string \<Rightarrow> string \<Rightarrow> 't \<Rightarrow> 't res"
  rt_read :: "'t \<Rightarrow> string \<Rightarrow> string res"

section \<open>The task list\<close>

definition task_icon :: "json \<Rightarrow> string res" where
  \<comment> \<open>the UTF-8 bytes of the signs; lists and dictionaries are no keys\<close>
  "task_icon status =
     (case status of
        JStr s \<Rightarrow> Inr (if s = ''in_progress'' then [CHR 0xF0, CHR 0x9F, CHR 0x94, CHR 0x84]
                      else if s = ''done'' then [CHR 0xE2, CHR 0x9C, CHR 0x85] else [CHR 0xE2, CHR 0x8F, CHR 0xB3])
      | JList _ \<Rightarrow> Inl (TypeError ''unhashable type'')
      | JObj _ \<Rightarrow> Inl (TypeError ''unhashable type'')
      | _ \<Rightarrow> Inr [CHR 0xE2, CHR 0x8F, CHR 0xB3])"

definition get_or :: "dict \<Rightarrow> string \<Rightarrow> json \<Rightarrow> json" where
  "get_or d k dflt = (case map_of d k of None \<Rightarrow> dflt | Some v \<Rightarrow> v)"

fun task_lines :: "int \<Rightarrow> json list \<Rightarrow> string res" where
  "task_lines i [] = Inr []"
| "task_lines i (JObj d # tasks) =
     bind_res (task_icon (get_or d ''status'' (JStr ''todo''))) (\<lambda>icon.
     bind_res (task_lines (i + 1) tasks) (\<lambda>rest.
       Inr (str_of_int i @ ''. '' @ icon @ '' '' @ py_str (get_or d ''title'' (JStr [])) @ [nl]
            @ py_str (get_or d ''notes'' (JStr [])) @ [nl] @ rest)))"
| "task_lines i (_ # tasks) = Inl (AttributeError ''get'')"

definition task_file_path :: "'t runtime \<Rightarrow> string" where
  "task_file_path R = get_conversation_dir (rt_sid R) (rt_user_id R) @ ''TASKS.md''"

definition err_text :: "py_error \<Rightarrow> string" where
  "err_text err = ex_str (exc_of err)"

definition run_task_tracking :: "'t runtime \<Rightarrow> string \<Rightarrow> json list \<Rightarrow> 't \<Rightarrow> 't \<times> (failure + observation)" where
  "run_task_tracking R command tasks files =
     (let path = task_file_path R in
      if command = ''plan'' then
        (case task_lines 1 tasks of
           Inl err \<Rightarrow> (files, Inl (OtherFailure (ex_name (exc_of err)) (err_text err)))
         | Inr body \<Rightarrow>
             (case rt_write R path (''# Task List'' @ [nl, nl] @ body) files of
                Inr files \<Rightarrow> (files, Inr (TaskTrackingObservation
                  (''Task list has been updated with '' @ str_of_int (int (length tasks))
                   @ '' items. Stored in session directory: '' @ path) command tasks))
              | Inl err \<Rightarrow> (files, Inr (ErrorObservation
                  (''Failed to write task list to session directory '' @ path @ '': '' @ err_text err) []))))
      else if command = ''view'' then
        (case rt_read R files path of
           Inr content \<Rightarrow> (files, Inr (TaskTrackingObservation content command []))
         | Inl FileNotFoundError \<Rightarrow> (files, Inr (TaskTrackingObservation
             (''No task list found. Use the '' @ [CHR 0x22] @ ''plan'' @ [CHR 0x22] @ '' command to create one.'') command []))
         | Inl err \<Rightarrow> (files, Inr (TaskTrackingObservation
             (''Failed to read the task list from session directory '' @ path @ ''. Error: '' @ err_text err) command [])))
      else (files, Inr (TaskTrackingObservation (''Unknown command: '' @ command) command [])))"

section \<open>Running an action\<close>

definition run_action :: "'t runtime \<Rightarrow> event \<Rightarrow> action \<Rightarrow> 't \<Rightarrow> 't \<times> (failure + observation)" where
  "run_action R e a files =
     (if \<not> runnable a then
        (case a of
           AgentThinkAction _ \<Rightarrow> (files, Inr (AgentThinkObservation ''Your thought has been logged.''))
         | TaskTrackingAction command tasks _ \<Rightarrow> run_task_tracking R command tasks files
         | _ \<Rightarrow> (files, Inr (NullObservation [])))
      else if event_confirmation e = Some AWAITING_CONFIRMATION then (files, Inr (NullObservation []))
      else if event_confirmation e = Some CONF_REJECTED
      then (files, Inr (UserRejectObservation ''Action has been rejected by the user! Waiting for further user input.''))
      else (files, rt_exec R e))"

text \<open>What comes of an action: nothing, an observation for the stream, or a status report.\<close>

datatype outcome = NoObservation | Observed event event_source | Reported string string

definition answer :: "event \<Rightarrow> observation \<Rightarrow> outcome" where
  "answer e ob =
     (if is_null_obs (Obs ob) then NoObservation
      else Observed ((new_obs ob)\<lparr>ev_cause := Some (event_id e), ev_tool_call_metadata := ev_tool_call_metadata e\<rparr>)
             (case ev_source e of Some src \<Rightarrow> src | None \<Rightarrow> AGENT))"

definition outcome_of :: "event \<Rightarrow> failure + observation \<Rightarrow> outcome" where
  "outcome_of e r =
     (case r of
        Inr ob \<Rightarrow> answer e ob
      | Inl (PermissionFailure s) \<Rightarrow> answer e (ErrorObservation s [])
      | Inl (DisconnectedFailure nm s) \<Rightarrow> Reported ''STATUS$ERROR_RUNTIME_DISCONNECTED'' (nm @ '': '' @ s)
      | Inl (OtherFailure nm s) \<Rightarrow> Reported ''STATUS$ERROR'' (nm @ '': '' @ s))"

definition with_timeout :: "'t runtime \<Rightarrow> event \<Rightarrow> event" where
  "with_timeout R e = (if ev_timeout e = None then set_hard_timeout (Some (rt_timeout R)) False e else e)"

definition runtime_handle_action :: "'t runtime \<Rightarrow> event \<Rightarrow> 't \<Rightarrow> 't \<times> outcome" where
  \<comment> \<open>\<open>on_event\<close> with \<open>_handle_action\<close>\<close>
  "runtime_handle_action R e files =
     (case ev_body e of
        Obs _ \<Rightarrow> (files, NoObservation)
      | Act _ \<Rightarrow>
          let e = with_timeout R e in
          (case rt_export_tokens R e of
             Inl f \<Rightarrow> (files, outcome_of e (Inl f))
           | Inr _ \<Rightarrow>
               (case ev_body e of
                  Act (MCPAction _) \<Rightarrow> (files, outcome_of e (rt_exec_mcp R e))
                | Act a \<Rightarrow> (case run_action R e a files of (files, r) \<Rightarrow> (files, outcome_of e r))
                | Obs _ \<Rightarrow> (files, NoObservation))))"

section \<open>Actions that wait for the user\<close>

lemma with_timeout_sel [simp]:
  "event_confirmation (with_timeout R e) = event_confirmation e" "event_id (with_timeout R e) = event_id e"
  "ev_source (with_timeout R e) = ev_source e"
  by (auto simp: with_timeout_def set_hard_timeout_def event_confirmation_def Let_def event_id_def split: body.splits action.splits)

lemma with_timeout_body:
  "ev_body e = Act a \<Longrightarrow> \<exists>b. ev_body (with_timeout R e) = Act b \<and> runnable b = runnable a \<and> (\<forall>r. b \<noteq> MCPAction r \<or> a = MCPAction r)"
  by (cases a) (simp_all add: with_timeout_def set_hard_timeout_def Let_def)

lemma run_guarded:
  assumes "ev_body e = Act a" and "guarded_class a \<or> declared_confirmation a \<noteq> None" and "\<And>x. rt_export_tokens R x = Inr ()"
  shows "runtime_handle_action R e files =
    (files, if event_confirmation e = Some AWAITING_CONFIRMATION then NoObservation
            else if event_confirmation e = Some CONF_REJECTED
            then answer (with_timeout R e) (UserRejectObservation ''Action has been rejected by the user! Waiting for further user input.'')
            else outcome_of (with_timeout R e) (rt_exec R (with_timeout R e)))"
proof -
  have a: "runnable a" "a \<noteq> MCPAction r" for r
    using assms(2) by (cases a; simp add: guarded_class_def)+
  obtain b where "ev_body (with_timeout R e) = Act b" "runnable b = runnable a" "\<forall>r. b \<noteq> MCPAction r \<or> a = MCPAction r"
    using with_timeout_body [OF assms(1), of R] by blast
  with assms(1,3) a show ?thesis
    by (auto simp: runtime_handle_action_def run_action_def outcome_of_def answer_def is_null_obs_def Let_def split: action.splits)
qed

text \<open>
  C4. A command or a cell that awaits confirmation is not executed when the runtime is handed it: whatever the sandbox
  would answer, no observation comes of the delivered action and no file changes.
\<close>

theorem awaiting_commands_are_not_run:
  assumes "ev_body e = Act a" and "declared_confirmation a = Some AWAITING_CONFIRMATION"
    and "\<And>x. rt_export_tokens R x = Inr ()"
  shows "runtime_handle_action R (delivered e) files = (files, NoObservation)"
proof -
  have b: "ev_body (delivered e) = Act (delivered_action a)"
    using assms(1) by (simp add: delivered_def delivered_body_def)
  have "declared_confirmation (delivered_action a) = Some AWAITING_CONFIRMATION"
    using assms(2) by (simp add: delivered_action_def)
  moreover from this have "event_confirmation (delivered e) = Some AWAITING_CONFIRMATION"
    by (simp add: event_confirmation_def b)
  ultimately show ?thesis using run_guarded [OF b _ assms(3)] by simp
qed

text \<open>
  C40. The mark is lost on the way for the other three guarded classes, whose documents have no field for it: an edit, a
  read or a browser action for which the controller waits for the user is executed by the runtime at once.
\<close>

theorem confirmation_lost_in_the_stream:
  assumes "ev_body e = Act a" and "guarded_class a" and "declared_confirmation a = None"
    and "s_confirmation_mode (c_state c)" and "c_confirmation_mode c"
    and "\<not> ac_cli_mode (en_config E (c_agent c))" and "user_is_asked E e"
    and "\<And>x. rt_export_tokens R x = Inr ()"
  shows "event_confirmation (confirmation_gate E c a e) = Some AWAITING_CONFIRMATION
    \<and> (let d = with_timeout R (delivered (confirmation_gate E c a e)) in
       runtime_handle_action R (delivered (confirmation_gate E c a e)) files = (files, outcome_of d (rt_exec R d)))"
proof -
  let ?e = "confirmation_gate E c a e" and ?a = "set_action_risk (risk_found E e) a"
  have body: "ev_body ?e = Act ?a"
    using assms(1-5) by (auto simp: confirmation_gate_def analyzed_guarded(1) [OF assms(1,2)] set_event_confirmation_def Let_def)
  have kind: "guarded_class ?a" "action_risk ?a \<noteq> Some None" using assms(2) by (cases a; simp add: guarded_class_def)+
  then have b: "ev_body (delivered ?e) = Act ?a"
    using kind(2) by (simp add: delivered_def delivered_body_def body delivered_action_def)
  have "event_confirmation (delivered ?e) = None"
    using assms(3) by (simp add: event_confirmation_def b) (simp add: delivered_def)
  with run_guarded [OF b _ assms(8)] kind(1) confirmation_gate_guarded(2) [OF assms(1,2,4-6)] assms(7) show ?thesis
    by (simp add: Let_def)
qed

end
