(* ===== verification/ControllerExamples.thy ===== *)
theory ControllerExamples
  imports DelegateLaws Runtime
begin

text \<open>
  A small conversation in memory, on which the properties of the controller and the runtime are applied: the agent edits a
  file at every step, there is no security analyzer, and the conversation is in confirmation mode.
\<close>

definition edit_action :: event where
  "edit_action = new_action (FileEditAction
     \<lparr>fe_path = ''f'', fe_command = [], fe_file_text = None, fe_old_str = None, fe_new_str = None, fe_insert_line = None,
      fe_content = ''x'', fe_start = 1, fe_end = -1, fe_thought = [], fe_security_risk = None, fe_impl_source = LLM_BASED_EDIT\<rparr>)"

definition demo_env :: "(json mem_store, unit, saved_state mem_store, nat) env" where
  "demo_env =
     \<lparr>en_wr = mem_write, en_rd = mem_read, en_ls = mem_list, en_lit = (\<lambda>_. None), en_cont = (\<lambda>_. True), en_now = (\<lambda>_. ''t''),
      en_callback = (), en_save = mem_write, en_delete = mem_delete,
      en_step = (\<lambda>g s sh. (g + 1, s, sh, Inr (Some edit_action))), en_reset = (\<lambda>g. g), en_system_message = (\<lambda>_. None),
      en_name = (\<lambda>_. ''Editor''),
      en_config = (\<lambda>_. \<lparr>ac_enable_stuck_detection = True, ac_enable_history_truncation = True, ac_cli_mode = False\<rparr>),
      en_make_agent = (\<lambda>_ _ g. Inr 0), en_analyzer = None\<rparr>"

definition no_stats :: conversation_stats where
  "no_stats = \<lparr>service_to_metrics = [], restored_metrics = []\<rparr>"

definition started :: "(json mem_store, unit, saved_state mem_store, nat) world \<times> (exc + unit)" where
  "started = start_controller demo_env None None False 0 False [] 10 None True None True None no_stats (new_stream ''s'' [] None) []"

definition heard :: "event \<Rightarrow> (json mem_store, unit, saved_state mem_store, nat) world \<Rightarrow> (json mem_store, unit, saved_state mem_store, nat) world" where
  "heard e w = fst (on_event demo_env e w)"

definition user_event :: "int \<Rightarrow> string \<Rightarrow> event" where
  "user_event i s = (new_message s)\<lparr>ev_id := Some i, ev_source := Some USER\<rparr>"

definition delegate_event :: event where
  "delegate_event = (new_action (AgentDelegateAction ''B'' [] []))\<lparr>ev_id := Some 5, ev_source := Some AGENT\<rparr>"

lemma started_ok: "started = (fst started, Inr ())"
  by code_simp

definition w_asked :: "(json mem_store, unit, saved_state mem_store, nat) world" where
  \<comment> \<open>the user has said hello, and the root waits for the recall\<close>
  "w_asked = heard (user_event 0 ''hello'') (fst started)"

definition w_delegated :: "(json mem_store, unit, saved_state mem_store, nat) world" where
  "w_delegated = heard delegate_event (fst started)"

definition w_nested :: "(json mem_store, unit, saved_state mem_store, nat) world" where
  "w_nested = heard delegate_event w_delegated"

definition pending_action :: "('s, 'k, 'p, 'g) world \<Rightarrow> event" where
  "pending_action w = the (c_pending (cur 0 w))"

definition recalled :: "int option \<Rightarrow> event" where
  "recalled cause = (new_obs (RecallObservation
     \<lparr>ro_content = ''Retrieved'', ro_recall_type = WORKSPACE_CONTEXT, ro_repo_name = [], ro_repo_directory = [], ro_repo_branch = [],
      ro_repo_instructions = [], ro_runtime_hosts = [], ro_additional_agent_instructions = [], ro_date = [],
      ro_custom_secrets_descriptions = [], ro_conversation_instructions = [], ro_working_dir = [], ro_microagent_knowledge = []\<rparr>))\<lparr>ev_cause := cause\<rparr>"

lemma w_asked_facts:
  "on_event demo_env (user_event 0 ''hello'') (fst started) = (w_asked, Inr ())"
  "get_agent_state 0 w_asked = RUNNING" "length (w_ctrls w_asked) = 1" "c_pending (cur 0 w_asked) = Some (pending_action w_asked)"
  "st_secrets (w_stream w_asked) = []"
proof -
  have "snd (on_event demo_env (user_event 0 ''hello'') (fst started)) = Inr ()" by code_simp
  then show "on_event demo_env (user_event 0 ''hello'') (fst started) = (w_asked, Inr ())"
    unfolding w_asked_def heard_def by (metis prod.collapse)
qed (code_simp+)

definition spent :: budget_flag where
  "spent = \<lparr>limit_increase_amount = 1, current_value = 2, max_value = 1, flag_headless_mode = False, hit_limit = True\<rparr>"

lemma w_delegated_length: "length (w_ctrls w_delegated) = 2" by code_simp
lemma w_nested_length: "length (w_ctrls w_nested) = 3" by code_simp

section \<open>The properties of the controller, applied\<close>

theorem delegates_never_ask_for_confirmation_witness:
  "c_confirmation_mode (w_ctrls w_nested ! 0) \<and> \<not> c_confirmation_mode (w_ctrls w_nested ! 2)
   \<and> c_id (w_ctrls w_nested ! 2) = ''s-delegate-delegate''"
proof -
  have "reachable demo_env (fst started) w_nested"
    unfolding w_nested_def w_delegated_def heard_def
    by (rule reachable.next_step [OF reachable.next_step [OF reachable.start controller_step.event] controller_step.event])
  note facts = conjunct2 [OF delegates_never_ask_for_confirmation [OF started_ok [unfolded started_def] this [unfolded started_def]],
    folded started_def, rule_format]
  have id: "c_id (w_ctrls (fst started) ! 0) = ''s''" by code_simp
  have len: "0 < length (w_ctrls w_nested)" "2 < length (w_ctrls w_nested)" unfolding w_nested_length by simp_all
  show ?thesis using facts [OF len(1)] facts [OF len(2)] unfolding id by (simp add: numeral_2_eq_2)
qed

theorem one_action_in_flight_witness:
  "handle_event demo_env 0 (recalled None) w_asked
   = (upd 0 (\<lambda>c. c\<lparr>c_state := add_history (recalled None) (c_state c)\<rparr>) w_asked, Inr ())"
  by (rule one_action_in_flight [OF _ w_asked_facts(4)]) (simp_all add: w_asked_facts recalled_def new_obs_def hidden_def is_class_defs)

theorem stopping_answers_pending_action_witness:
  "c_pending (cur 0 (fst (set_agent_state_to demo_env 0 STOPPED w_asked))) = None"
proof -
  have "snd (set_agent_state_to demo_env 0 STOPPED w_asked) = Inr ()" by code_simp
  then have "set_agent_state_to demo_env 0 STOPPED w_asked = (fst (set_agent_state_to demo_env 0 STOPPED w_asked), Inr ())"
    by (metis prod.collapse)
  from stopping_answers_pending_action [OF _ w_asked_facts(4) _ _ w_asked_facts(5) this] w_asked_facts(2,3)
  show ?thesis by simp
qed

theorem nested_delegates_never_act_witness:
  "on_event (with_step (\<lambda>g s sh. (g, s, sh, Inr None)) demo_env) (user_event 9 ''go on'') w_nested
   = on_event demo_env (user_event 9 ''go on'') w_nested"
  by (rule nested_delegates_never_act) (simp add: w_nested_length)

theorem budget_error_ends_delegate_witness:
  "on_event demo_env (user_event 9 ''go on'') (with_delegate_error (''RuntimeError: '' @ budget_limit_msg
       spent) w_delegated)
   = end_delegate demo_env 0 (with_delegate_error (''RuntimeError: '' @ budget_limit_msg
       spent) w_delegated)"
  using budget_error_ends_delegate [of w_delegated] w_delegated_length by simp

end
