(* ===== verification/GateExamples.thy ===== *)
theory GateExamples
  imports ControllerExamples
begin

text \<open>
  The confirmation gate, the limits and the recovery from a loop in the conversation of \<open>ControllerExamples\<close>, and a
  runtime that runs what it is handed.
\<close>

section \<open>The gate\<close>

definition edit_event :: event where
  "edit_event = edit_action\<lparr>ev_source := Some AGENT\<rparr>"

definition failing_env :: "(json mem_store, unit, saved_state mem_store, nat) env" where
  "failing_env = demo_env\<lparr>en_analyzer := Some (\<lambda>_. Inl (exc_of (ValueError ''offline'')))\<rparr>"

definition w_running :: "(json mem_store, unit, saved_state mem_store, nat) world" where
  "w_running = upd 0 (\<lambda>c. c\<lparr>c_state := (c_state c)\<lparr>s_agent_state := RUNNING\<rparr>\<rparr>) (fst started)"

lemma w_running_facts:
  "length (w_ctrls w_running) = 1" "get_agent_state 0 w_running = RUNNING" "s_confirmation_mode (c_state (cur 0 w_running))"
  "c_confirmation_mode (cur 0 w_running)" "c_agent (cur 0 w_running) = 0" "c_pending (cur 0 w_running) = None"
  by code_simp+

lemma edit_event_facts:
  "\<exists>a. ev_body edit_event = Act a \<and> guarded_class a \<and> declared_confirmation a = None"
  "event_confirmation edit_event \<noteq> Some AWAITING_CONFIRMATION"
  by (simp_all add: edit_event_def edit_action_def new_action_def guarded_class_def event_confirmation_def fresh_def)

theorem confirmation_exactly_when_asked_witness:
  "get_agent_state 0 (fst (perform_action demo_env 0 edit_event w_running)) = AWAITING_USER_CONFIRMATION"
proof -
  obtain a where a: "ev_body edit_event = Act a" "guarded_class a" using edit_event_facts(1) by blast
  have "snd (perform_action demo_env 0 edit_event w_running) = Inr ()" by code_simp
  then have "perform_action demo_env 0 edit_event w_running = (fst (perform_action demo_env 0 edit_event w_running), Inr ())"
    by (metis prod.collapse)
  from confirmation_exactly_when_asked [OF this _ w_running_facts(2) a edit_event_facts(2) w_running_facts(3,4)]
  show ?thesis by (simp add: w_running_facts demo_env_def)
qed

theorem failing_analyzer_waives_confirmation_witness:
  "get_agent_state 0 (fst (perform_action failing_env 0 edit_event w_running)) = RUNNING"
proof -
  obtain a where a: "ev_body edit_event = Act a" "guarded_class a" using edit_event_facts(1) by blast
  have "snd (perform_action failing_env 0 edit_event w_running) = Inr ()" by code_simp
  then have "perform_action failing_env 0 edit_event w_running = (fst (perform_action failing_env 0 edit_event w_running), Inr ())"
    by (metis prod.collapse)
  from failing_analyzer_waives_confirmation [OF this _ w_running_facts(2) a edit_event_facts(2) w_running_facts(3,4)]
  show ?thesis by (simp add: w_running_facts failing_env_def demo_env_def)
qed

section \<open>The runtime\<close>

definition obliging_runtime :: "unit runtime" where
  "obliging_runtime = \<lparr>rt_sid = ''s'', rt_user_id = None, rt_timeout = 120, rt_export_tokens = (\<lambda>_. Inr ()),
     rt_exec = (\<lambda>_. Inr (SuccessObservation ''done'')), rt_exec_mcp = (\<lambda>_. Inr (SuccessObservation ''done'')),
     rt_write = (\<lambda>_ _ t. Inr t), rt_read = (\<lambda>_ _. Inl FileNotFoundError)\<rparr>"

definition awaiting_command :: event where
  "awaiting_command = set_event_confirmation AWAITING_CONFIRMATION (new_action (CmdRunAction
     \<lparr>cr_command = ''rm -r .'', cr_is_input = False, cr_thought = [], cr_blocking = False, cr_is_static = False, cr_cwd = None,
      cr_hidden = False, cr_confirmation_state = CONFIRMED, cr_security_risk = Some RISK_UNKNOWN\<rparr>))"

theorem awaiting_commands_are_not_run_witness:
  "runtime_handle_action obliging_runtime (delivered awaiting_command) () = ((), NoObservation)"
  by (rule awaiting_commands_are_not_run, simp add: awaiting_command_def set_event_confirmation_def new_action_def, simp,
    simp add: obliging_runtime_def)

theorem confirmation_lost_in_the_stream_witness:
  "\<exists>a. ev_body edit_event = Act a
     \<and> event_confirmation (confirmation_gate demo_env (cur 0 w_running) a edit_event) = Some AWAITING_CONFIRMATION
     \<and> snd (runtime_handle_action obliging_runtime (delivered (confirmation_gate demo_env (cur 0 w_running) a edit_event)) ())
        \<noteq> NoObservation"
proof -
  obtain a where a: "ev_body edit_event = Act a" "guarded_class a" "declared_confirmation a = None" using edit_event_facts(1) by blast
  have "\<not> ac_cli_mode (en_config demo_env (c_agent (cur 0 w_running)))" "user_is_asked demo_env edit_event"
    "\<And>x. rt_export_tokens obliging_runtime x = Inr ()"
    by (simp_all add: demo_env_def user_is_asked_def obliging_runtime_def)
  from confirmation_lost_in_the_stream [OF a w_running_facts(3,4) this]
  show ?thesis using a(1) by (auto simp: Let_def obliging_runtime_def outcome_of_def answer_def is_null_obs_def)
qed

section \<open>The limits\<close>

definition w_used_up :: "(json mem_store, unit, saved_state mem_store, nat) world" where
  "w_used_up = w_running\<lparr>w_shared := (w_shared w_running)\<lparr>sh_iteration_flag := (sh_iteration_flag (w_shared w_running))\<lparr>current_value := 10\<rparr>\<rparr>\<rparr>"

theorem limit_stops_the_agent_witness:
  "get_agent_state 0 (fst (step demo_env 0 w_used_up)) = ERROR"
proof -
  have "snd (check_stuck demo_env 0 w_used_up) = Inr False" by code_simp
  moreover have "length (w_ctrls w_used_up) = 1" "get_agent_state 0 w_used_up = RUNNING" "c_pending (cur 0 w_used_up) = None" 
    "limit_text (sync_budget_flag_with_metrics (w_shared w_used_up)) \<noteq> None"
    by code_simp+
  ultimately show ?thesis using limit_stops_the_agent [of 0 w_used_up demo_env] by (auto simp: get_agent_state_def)
qed

section \<open>The recovery from a loop\<close>

definition w_looped :: "(json mem_store, unit, saved_state mem_store, nat) world" where
  "w_looped = upd 0 (\<lambda>c. c\<lparr>c_state := (c_state c)\<lparr>s_start_id := 0, s_history := [thinking 0, thinking 1]\<rparr>\<rparr>) (fst started)"

theorem recovery_hides_later_events_witness:
  "\<exists>(stream :: (json mem_store, unit) event_stream) stream'' s w'.
     truncate_memory_to_point 0 1 w_looped = (w', Inr ())
     \<and> init_history mem_read mem_list (\<lambda>_. None) (\<lambda>_. True) stream (getstate (c_state (cur 0 w'))) = (stream'', Inr s)
     \<and> (\<forall>e \<in> set (s_history s). event_id e \<le> 0)"
proof -
  let ?w = "fst (truncate_memory_to_point 0 1 w_looped)"
  have facts: "0 < length (w_ctrls w_looped)" "s_history (c_state (cur 0 w_looped)) = [thinking 0, thinking 1]"
    "s_start_id (c_state (cur 0 w_looped)) = 0"
    by (code_simp, code_simp, code_simp)
  have py: "py_take 1 [thinking 0, thinking 1] = [thinking 0]" by code_simp
  have "snd (truncate_memory_to_point 0 1 w_looped) = Inr ()" by code_simp
  then have t: "truncate_memory_to_point 0 1 w_looped = (?w, Inr ())" by (metis prod.collapse)
  obtain st st' :: "(json mem_store, unit) event_stream" where st: "store_ok mem_read (\<lambda>_. None) st" "cur_id mem_list st = Inr (st', 4)"
    by (rule delegation_stream)
  have last: "event_id (last [thinking 0]) = 0" by code_simp
  have ids: "s_end_id (getstate (c_state (cur 0 ?w))) = 0" "s_start_id (getstate (c_state (cur 0 ?w))) = 0" by code_simp+
  have "history_range mem_list st (getstate (c_state (cur 0 ?w))) = Inr (st, 0, 0)" by (simp add: history_range_def ids Let_def)
  then obtain st'' s where i: "init_history mem_read mem_list (\<lambda>_. None) (\<lambda>_. True) st (getstate (c_state (cur 0 ?w))) = (st'', Inr s)"
    by (simp add: init_history_def search_history_log [OF st] Let_def)
  show ?thesis
    using recovery_hides_later_events [OF facts(1) _ _ _ _ t st i, of "[thinking 0]"] t i facts(2) py last by fastforce
qed

end
