(* ===== verification/CodeActExamples.thy ===== *)
theory CodeActExamples
  imports CodeActLaws GateExamples
begin

text \<open>
  A CodeAct agent in the conversation of \<open>ControllerExamples\<close>: its model answers every prompt with the two calls of
  \<open>run_and_plan\<close>, and its state counts how often it was asked.
\<close>

definition eager_model :: "msg list \<Rightarrow> dict \<Rightarrow> nat \<times> shared \<Rightarrow> (nat \<times> shared) \<times> (exc + model_response)" where
  "eager_model ms metadata x = ((fst x + 1, snd x), Inr run_and_plan)"

definition demo_codeact :: "nat codeact_env" where
  "demo_codeact = \<lparr>ce_memory = memory_of run_and_plan, ce_response_to_actions = response_to_actions sample_calls_env [],
     ce_condense = (\<lambda>v x. (x, [], Inr (Viewed v))), ce_same_view = True, ce_completion = eager_model,
     ce_max_message_chars = None, ce_vision_is_active = False, ce_caching_prompt = True, ce_tools = [],
     ce_name = ''CodeActAgent'', ce_model = ''m'', ce_web_host = ''unspecified''\<rparr>"

definition chat_env :: "(json mem_store, unit, saved_state mem_store, nat codeact) env" where
  "chat_env = with_codeact demo_codeact
     \<lparr>en_wr = mem_write, en_rd = mem_read, en_ls = mem_list, en_lit = (\<lambda>_. None), en_cont = (\<lambda>_. True), en_now = (\<lambda>_. ''t''),
      en_callback = (), en_save = mem_write, en_delete = mem_delete,
      en_step = (\<lambda>g s sh. (g, s, sh, Inr None)), en_reset = (\<lambda>g. g), en_system_message = (\<lambda>_. None), en_name = (\<lambda>_. []),
      en_config = (\<lambda>_. \<lparr>ac_enable_stuck_detection = True, ac_enable_history_truncation = True, ac_cli_mode = False\<rparr>),
      en_make_agent = (\<lambda>_ _ g. Inr g), en_analyzer = None\<rparr>"

definition chat_started :: "(json mem_store, unit, saved_state mem_store, nat codeact) world" where
  "chat_started = fst (start_controller chat_env None None False (new_codeact 0) False [] 10 None True None False None no_stats
     (new_stream ''s'' [] None) [])"

definition chat_running :: "(json mem_store, unit, saved_state mem_store, nat codeact) world" where
  "chat_running = upd 0 (\<lambda>c. c\<lparr>c_state := (c_state c)\<lparr>s_agent_state := RUNNING, s_history := [sample_request\<lparr>ev_id := Some 0\<rparr>]\<rparr>\<rparr>) chat_started"

definition chat_stepped :: "(json mem_store, unit, saved_state mem_store, nat codeact) world" where
  "chat_stepped = fst (step_with_exception_handling chat_env 0 chat_running)"

lemma chat_facts:
  "length (w_ctrls chat_running) = 1" "get_agent_state 0 chat_running = RUNNING"
  "length (ct_pending_actions (c_agent (cur 0 chat_stepped))) = 1" "get_agent_state 0 chat_stepped = RUNNING"
  "length (w_ctrls chat_stepped) = 1"
  by code_simp+

theorem codeact_step_outcomes_witness:
  "get_agent_state 0 chat_stepped \<in> {RUNNING, AWAITING_USER_CONFIRMATION, ERROR, RATE_LIMITED}
   \<and> length (s_history (c_state (cur 0 chat_stepped))) = length (s_history (c_state (cur 0 chat_running)))"
  using codeact_step_outcomes [of 0 chat_running demo_codeact] chat_facts(1,2)
  unfolding chat_stepped_def chat_env_def by (metis length_map less_one)

theorem stopped_agent_forgets_its_queue_witness:
  "ct_pending_actions (c_agent (cur 0 chat_stepped)) \<noteq> []
   \<and> ct_pending_actions (c_agent (cur 0 (fst (set_agent_state_to chat_env 0 STOPPED chat_stepped)))) = []"
proof -
  have "snd (set_agent_state_to chat_env 0 STOPPED chat_stepped) = Inr ()" by code_simp
  then have "set_agent_state_to chat_env 0 STOPPED chat_stepped = (fst (set_agent_state_to chat_env 0 STOPPED chat_stepped), Inr ())"
    by (metis prod.collapse)
  from stopped_agent_forgets_its_queue [OF this [unfolded chat_env_def]] chat_facts
  show ?thesis by (auto simp: chat_env_def)
qed

definition first_turn :: "nat turn" where
  "first_turn = \<lparr>tn_agent = new_codeact 0, tn_state = c_state (cur 0 chat_running), tn_shared = w_shared chat_running\<rparr>"

theorem response_is_played_in_order_witness:
  "\<exists>t' e. codeact_step demo_codeact first_turn = (t', Inr e)
     \<and> ((\<exists>r es. ce_response_to_actions demo_codeact r = Inr es
            \<and> play demo_codeact (length es) first_turn = (with_queue [] t', Inr es))
        \<or> ct_pending_actions (tn_agent t') = [] \<and> (is_finish (ev_body e) \<or> is_condensation_action (ev_body e)))"
proof -
  have "\<not> isl (snd (codeact_step demo_codeact first_turn))" "ct_pending_actions (tn_agent first_turn) = []" by code_simp+
  moreover obtain t' e where "codeact_step demo_codeact first_turn = (t', Inr e)"
    using calculation(1) by (metis prod.collapse sum.collapse(2))
  ultimately show ?thesis using response_is_played_in_order by metis
qed

definition refusing :: "msg list \<Rightarrow> dict \<Rightarrow> nat \<times> shared \<Rightarrow> (nat \<times> shared) \<times> (exc + model_response)" where
  "refusing ms metadata x = (if paired ms then eager_model ms metadata x else (x, Inl (exc_of (ValueError ''unpaired''))))"

theorem model_sees_paired_prompts_witness:
  "codeact_step (demo_codeact\<lparr>ce_completion := refusing\<rparr>) = codeact_step demo_codeact"
proof (rule model_sees_paired_prompts)
  show "responses_named (ce_memory demo_codeact)"
    by (simp add: responses_named_def demo_codeact_def memory_of_def run_and_plan_def)
qed (simp add: refusing_def demo_codeact_def)

end
