(* ===== verification/Microagents.thy ===== *)
theory Microagents
  imports Deserialization
begin

text \<open>
  Microagents (\<open>openhands/microagent\<close>): pieces of knowledge in markdown files, which are always shown (repository), recalled by
  a trigger in a message (knowledge), or recalled by a command with inputs (task).

  A path is the list of its components. Parameters are the reader of the front matter (a third-party
  package: the metadata and the content of a file), what the configuration of MCP servers declares (whether there are SSE
  and stdio servers), and the file system. The texts of validation errors are left out.
\<close>

section \<open>Classes\<close>

datatype microagent_type = MT_KNOWLEDGE | MT_REPO | MT_TASK

definition microagent_type_of :: "string \<Rightarrow> microagent_type option" where
  "microagent_type_of s = (if s = ''knowledge'' then Some MT_KNOWLEDGE else if s = ''repo'' then Some MT_REPO
     else if s = ''task'' then Some MT_TASK else None)"

record microagent_metadata =
  md_name :: string
  md_type :: microagent_type
  md_version :: string
  md_agent :: string
  md_triggers :: "string list"
  md_inputs :: "(string \<times> string) list"
  md_mcp_tools :: "json option"

record microagent =
  mi_name :: string
  mi_content :: string
  mi_metadata :: microagent_metadata
  mi_source :: string
  mi_type :: microagent_type

definition default_microagent_metadata :: "string \<Rightarrow> microagent_metadata" where
  "default_microagent_metadata nm = \<lparr>md_name = nm, md_type = MT_REPO, md_version = ''1.0.0'', md_agent = ''CodeActAgent'',
     md_triggers = [], md_inputs = [], md_mcp_tools = None\<rparr>"

definition repo_microagent :: "string \<Rightarrow> string \<Rightarrow> string \<Rightarrow> microagent" where
  "repo_microagent nm content source = \<lparr>mi_name = nm, mi_content = content, mi_metadata = default_microagent_metadata nm,
     mi_source = source, mi_type = MT_REPO\<rparr>"

section \<open>Triggers\<close>

definition match_trigger :: "microagent \<Rightarrow> string \<Rightarrow> string option" where
  "match_trigger a s = find (\<lambda>t. py_contains (py_lower s) (py_lower t)) (md_triggers (mi_metadata a))"

section \<open>Variables of a task\<close>

definition ident_start :: "char \<Rightarrow> bool" where
  "ident_start c = (c \<in> set ''ABCDEFGHIJKLMNOPQRSTUVWXYZabcdefghijklmnopqrstuvwxyz_'')"

definition ident_char :: "char \<Rightarrow> bool" where
  "ident_char c = (ident_start c \<or> c \<in> set ''0123456789'')"

definition variable_at :: "string \<Rightarrow> (string \<times> string) option" where
  \<comment> \<open>a match of the pattern at the start of a text, and the rest\<close>
  "variable_at s = (case s of
       a # b # c # cs \<Rightarrow>
         let w = takeWhile ident_char (c # cs); rest = dropWhile ident_char (c # cs) in
         if a = CHR 0x24 \<and> b = CHR 0x7B \<and> ident_start c \<and> rest \<noteq> [] \<and> hd rest = CHR 0x7D then Some (w, tl rest) else None
     | _ \<Rightarrow> None)"

lemma variable_at_shorter: "variable_at s = Some (w, rest) \<Longrightarrow> length rest < length s"
proof -
  assume v: "variable_at s = Some (w, rest)"
  then obtain a b c cs where s: "s = a # b # c # cs"
    by (auto simp: variable_at_def split: list.splits)
  have "length (tl (dropWhile ident_char (c # cs))) \<le> length (c # cs)"
    by (metis length_dropWhile_le length_tl diff_le_self le_trans)
  with v show ?thesis by (auto simp: variable_at_def s Let_def split: if_splits)
qed

function extract_variables :: "string \<Rightarrow> string list" where
  "extract_variables s = (case s of
       [] \<Rightarrow> []
     | c # cs \<Rightarrow> (case variable_at s of Some (w, rest) \<Rightarrow> w # extract_variables rest | None \<Rightarrow> extract_variables cs))"
  by pat_completeness auto
termination by (relation "measure length") (auto dest: variable_at_shorter)

declare extract_variables.simps [simp del]

definition requires_user_input :: "microagent \<Rightarrow> bool" where
  "requires_user_input a = (extract_variables (mi_content a) \<noteq> [])"

definition missing_variables_prompt :: string where
  "missing_variables_prompt = [nl, nl] @ ''If the user didn't provide any of these variables, ask the user to provide them ''
     @ ''first before the agent can proceed with the task.''"

definition append_missing_variables_prompt :: "microagent \<Rightarrow> microagent" where
  "append_missing_variables_prompt a =
     (if \<not> requires_user_input a \<and> md_inputs (mi_metadata a) = [] then a
      else a\<lparr>mi_content := mi_content a @ missing_variables_prompt\<rparr>)"

section \<open>Loading\<close>

definition third_party_name :: "string \<Rightarrow> string option" where
  "third_party_name nm = (if py_lower nm = ''.cursorrules'' then Some ''cursorrules''
     else if py_lower nm = ''agents.md'' \<or> py_lower nm = ''agent.md'' then Some ''agents'' else None)"

definition without_suffix :: "string \<Rightarrow> string" where
  \<comment> \<open>\<open>path.with_suffix('')\<close> on the last component\<close>
  "without_suffix nm =
     (let ext = takeWhile (\<lambda>c. c \<noteq> CHR 0x2E) (rev nm); stem = rev (drop (length ext + 1) (rev nm))
      in if CHR 0x2E \<in> set nm \<and> ext \<noteq> [] \<and> stem \<noteq> [] then stem else nm)"

definition relative_name :: "string list \<Rightarrow> string list \<Rightarrow> string res" where
  \<comment> \<open>\<open>str(path.relative_to(microagent_dir).with_suffix(''))\<close>\<close>
  "relative_name dir path =
     (if take (length dir) path = dir \<and> length dir < length path
      then Inr (py_join ''/'' (butlast (drop (length dir) path) @ [without_suffix (last path)]))
      else Inl (ValueError ''is not in the subpath''))"

definition validation_error :: py_error where
  "validation_error = OtherError ''MicroagentValidationError'' []"

definition dec_input :: "json \<Rightarrow> (string \<times> string) res" where
  "dec_input j = bind_res (as_dict j) (\<lambda>d. arg d ''name'' None as_str (\<lambda>n. arg d ''description'' None as_str (\<lambda>t. Inr (n, t))))"

definition dec_type :: "json \<Rightarrow> microagent_type res" where
  "dec_type j = bind_res (as_str j) (\<lambda>s. case microagent_type_of s of Some t \<Rightarrow> Inr t | None \<Rightarrow> Inl ill_typed)"

definition mcp_fine :: "(json \<Rightarrow> (bool \<times> bool) option) \<Rightarrow> json option \<Rightarrow> bool" where
  \<comment> \<open>a configuration of MCP servers needs a stdio server; SSE servers only give a warning\<close>
  "mcp_fine mcp m = (case m of None \<Rightarrow> True | Some j \<Rightarrow> (case mcp j of Some (sse, stdio) \<Rightarrow> stdio | None \<Rightarrow> False))"

definition read_metadata :: "(json \<Rightarrow> (bool \<times> bool) option) \<Rightarrow> dict \<Rightarrow> microagent_metadata res" where
  "read_metadata mcp d =
     arg d ''name'' (Some ''default'') as_str (\<lambda>n. arg d ''type'' (Some MT_REPO) dec_type (\<lambda>ty.
     arg d ''version'' (Some ''1.0.0'') as_str (\<lambda>v. arg d ''agent'' (Some ''CodeActAgent'') as_str (\<lambda>a.
     arg d ''triggers'' (Some []) (as_list as_str) (\<lambda>ts. arg d ''inputs'' (Some []) (as_list dec_input) (\<lambda>ins.
     arg d ''mcp_tools'' (Some None) (as_opt as_json) (\<lambda>m.
       if mcp_fine mcp m
       then Inr \<lparr>md_name = n, md_type = ty, md_version = v, md_agent = a, md_triggers = ts, md_inputs = ins, md_mcp_tools = m\<rparr>
       else Inl ill_typed)))))))"

definition validated_metadata :: "(json \<Rightarrow> (bool \<times> bool) option) \<Rightarrow> dict \<Rightarrow> microagent_metadata res" where
  \<comment> \<open>the model of the metadata and the check of the MCP servers, with one error for both\<close>
  "validated_metadata mcp d = (case read_metadata mcp d of Inl _ \<Rightarrow> Inl validation_error | Inr m \<Rightarrow> Inr m)"

definition version_text :: "dict \<Rightarrow> dict" where
  "version_text d = (case d_get d ''version'' of
       Some (JStr _) \<Rightarrow> d | Some j \<Rightarrow> d_set ''version'' (JStr (py_str j)) d | None \<Rightarrow> d)"

definition inferred :: "microagent_metadata \<Rightarrow> microagent_type \<times> microagent_metadata" where
  "inferred m =
     (if md_inputs m \<noteq> []
      then let trigger = CHR 0x2F # md_name m in
           (MT_TASK, if trigger \<in> set (md_triggers m) then m else m\<lparr>md_triggers := md_triggers m @ [trigger]\<rparr>)
      else if md_triggers m \<noteq> [] then (MT_KNOWLEDGE, m)
      else (MT_REPO, m))"

definition typed_microagent :: "string option \<Rightarrow> string \<Rightarrow> string \<Rightarrow> microagent_metadata \<Rightarrow> microagent" where
  \<comment> \<open>the type is inferred from the metadata; a task gets its prompt when it is built\<close>
  "typed_microagent derived_name content source m =
     (case inferred m of (ty, m) \<Rightarrow>
        let a = \<lparr>mi_name = (case derived_name of Some n \<Rightarrow> n | None \<Rightarrow> md_name m), mi_content = content, mi_metadata = m,
                 mi_source = source, mi_type = ty\<rparr>
        in if ty = MT_TASK then append_missing_variables_prompt a else a)"

definition microagent_load ::
  "(string \<Rightarrow> (dict \<times> string) res) \<Rightarrow> (json \<Rightarrow> (bool \<times> bool) option) \<Rightarrow> string list \<Rightarrow> string list option \<Rightarrow> string
     \<Rightarrow> microagent res" where
  "microagent_load front_matter mcp path microagent_dir file_content =
     (let nm = last path; source = py_join ''/'' path in
      bind_res (case microagent_dir of
                  None \<Rightarrow> Inr None
                | Some dir \<Rightarrow> (case third_party_name nm of
                    Some t \<Rightarrow> Inr (Some t)
                  | None \<Rightarrow> bind_res (relative_name dir path) (\<lambda>r. Inr (Some r)))) (\<lambda>derived_name.
      if nm = ''.openhands_instructions'' then Inr (repo_microagent ''repo_legacy'' file_content source)
      else case third_party_name nm of
        Some t \<Rightarrow> Inr (repo_microagent t file_content source)
      | None \<Rightarrow>
          bind_res (front_matter file_content) (\<lambda>(d, content).
          bind_res (validated_metadata mcp (version_text d)) (\<lambda>m. Inr (typed_microagent derived_name content source m)))))"

text \<open>The files of a directory\<close>

definition special_files :: "(string list \<Rightarrow> bool) \<Rightarrow> string list \<Rightarrow> string list list" where
  "special_files exists_file base_dir =
     (if exists_file (base_dir @ [''.cursorrules'']) then [base_dir @ [''.cursorrules'']] else [])
     @ (case find (\<lambda>f. exists_file (base_dir @ [f])) [''AGENTS.md'', ''agents.md'', ''AGENT.md'', ''agent.md''] of
          Some f \<Rightarrow> [base_dir @ [f]] | None \<Rightarrow> [])"

type_synonym loaded = "(string \<times> microagent) list \<times> (string \<times> microagent) list"

definition load_error :: "py_error \<Rightarrow> py_error" where
  "load_error err = (if err = validation_error then validation_error else ValueError ''Error loading microagent'')"

fun load_files ::
  "(string list \<Rightarrow> microagent res) \<Rightarrow> string list list \<Rightarrow> loaded \<Rightarrow> loaded res" where
  \<comment> \<open>the loop over the files\<close>
  "load_files load [] acc = Inr acc"
| "load_files load (f # fs) (repo_agents, knowledge_agents) =
     (case load f of
        Inl err \<Rightarrow> Inl (load_error err)
      | Inr a \<Rightarrow> load_files load fs
          (if mi_type a = MT_REPO then (d_set (mi_name a) a repo_agents, knowledge_agents)
           else (repo_agents, d_set (mi_name a) a knowledge_agents)))"

definition load_microagents_from_dir ::
  "(string \<Rightarrow> (dict \<times> string) res) \<Rightarrow> (json \<Rightarrow> (bool \<times> bool) option) \<Rightarrow> (string list \<Rightarrow> bool) \<Rightarrow> (string list \<Rightarrow> string res)
     \<Rightarrow> string list list \<Rightarrow> string list \<Rightarrow> loaded res" where
  \<comment> \<open>\<open>md_files\<close> are the markdown files below the directory, in the order of the file system\<close>
  "load_microagents_from_dir front_matter mcp exists_file read md_files dir =
     load_files (\<lambda>f. bind_res (read f) (microagent_load front_matter mcp f (Some dir)))
       (special_files exists_file (butlast (butlast dir)) @ filter (\<lambda>f. last f \<noteq> ''README.md'') md_files) ([], [])"

section \<open>What loading gives\<close>

definition classified :: "microagent \<Rightarrow> bool" where
  "classified a = (mi_type a = MT_REPO \<or> md_triggers (mi_metadata a) \<noteq> [])"

lemma append_prompt_sel [simp]:
  "mi_name (append_missing_variables_prompt a) = mi_name a" "mi_metadata (append_missing_variables_prompt a) = mi_metadata a"
  "mi_type (append_missing_variables_prompt a) = mi_type a" "mi_source (append_missing_variables_prompt a) = mi_source a"
  by (simp_all add: append_missing_variables_prompt_def)

lemma inferred_task: "md_inputs m \<noteq> [] \<Longrightarrow> fst (inferred m) = MT_TASK \<and> (CHR 0x2F # md_name m) \<in> set (md_triggers (snd (inferred m)))"
  by (simp add: inferred_def Let_def)

lemma typed_sel:
  "mi_metadata (typed_microagent nm content source m) = snd (inferred m)"
  "mi_type (typed_microagent nm content source m) = fst (inferred m)"
  "mi_name (typed_microagent nm content source m) = (case nm of Some n \<Rightarrow> n | None \<Rightarrow> md_name (snd (inferred m)))"
  by (simp_all add: typed_microagent_def Let_def split_beta)

lemma typed_classified: "classified (typed_microagent nm content source m)"
  by (auto simp: classified_def typed_sel inferred_def Let_def)

lemma load_cases:
  assumes "microagent_load front_matter mcp path dir content = Inr a"
  obtains nm source where "a = repo_microagent nm content source"
  | d body m nm where "front_matter content = Inr (d, body)" "validated_metadata mcp (version_text d) = Inr m"
      "a = typed_microagent nm body (py_join ''/'' path) m" "dir = None \<Longrightarrow> nm = None"
      "\<And>dir'. dir = Some dir' \<Longrightarrow> \<exists>n. nm = Some n \<and> relative_name dir' path = Inr n"
  using assms unfolding microagent_load_def Let_def
  by (auto simp: bind_res_Inr split: if_splits option.splits prod.splits)

lemma load_classified:
  assumes "microagent_load front_matter mcp path dir content = Inr a"
  shows "classified a"
  using assms
proof (cases rule: load_cases)
  case (1 nm source)
  then show ?thesis by (simp add: classified_def repo_microagent_def)
qed (simp add: typed_classified)

end
