(* ===== verification/Recall.thy ===== *)
theory Recall
  imports Microagents ConversationMemory DelegateLaws
begin

text \<open>
  The memory of a conversation (\<open>openhands/memory/memory.py\<close>): it hears the recall actions of the stream and answers each
  with what it knows of the workspace and with the microagents that the query triggers.

  It shares the stream and the status callback with the controller, so its handler is a computation on the \<open>world\<close>
  of \<open>Controller\<close>. The strings of a cloned repository and of the runtime, and the date, are arguments of the setters.
\<close>

section \<open>The state of the memory\<close>

record memory =
  mm_repo_microagents :: "(string \<times> microagent) list"
  mm_knowledge_microagents :: "(string \<times> microagent) list"
  mm_repository_info :: "repository_info option"
  mm_runtime_info :: "runtime_info option"
  mm_conversation_instructions :: "string option"
  mm_has_callback :: bool

definition empty_memory :: "bool \<Rightarrow> memory" where
  "empty_memory callback = \<lparr>mm_repo_microagents = [], mm_knowledge_microagents = [], mm_repository_info = None,
     mm_runtime_info = None, mm_conversation_instructions = None, mm_has_callback = callback\<rparr>"

definition merge_loaded :: "loaded \<Rightarrow> memory \<Rightarrow> memory" where
  "merge_loaded l M = M\<lparr>mm_knowledge_microagents := d_update (mm_knowledge_microagents M) (snd l),
     mm_repo_microagents := d_update (mm_repo_microagents M) (fst l)\<rparr>"

definition load_global_microagents :: "loaded res \<Rightarrow> memory \<Rightarrow> memory res" where
  \<comment> \<open>the first argument is what loading the directory gave\<close>
  "load_global_microagents r M = bind_res r (\<lambda>l. Inr (merge_loaded l M))"

definition load_user_microagents :: "loaded res \<Rightarrow> memory \<Rightarrow> memory" where
  "load_user_microagents r M = (case r of Inl _ \<Rightarrow> M | Inr l \<Rightarrow> merge_loaded l M)"

definition new_memory :: "loaded res \<Rightarrow> loaded res \<Rightarrow> bool \<Rightarrow> memory res" where
  "new_memory global user callback =
     bind_res (load_global_microagents global (empty_memory callback)) (\<lambda>M. Inr (load_user_microagents user M))"

definition load_user_workspace_microagents :: "microagent list \<Rightarrow> memory \<Rightarrow> memory" where
  "load_user_workspace_microagents user_microagents M = fold (\<lambda>a M.
     if mi_type a = MT_REPO then M\<lparr>mm_repo_microagents := d_set (mi_name a) a (mm_repo_microagents M)\<rparr>
     else M\<lparr>mm_knowledge_microagents := d_set (mi_name a) a (mm_knowledge_microagents M)\<rparr>) user_microagents M"

definition get_microagent_mcp_tools :: "memory \<Rightarrow> json list" where
  "get_microagent_mcp_tools M = List.map_filter (\<lambda>(_, a). md_mcp_tools (mi_metadata a)) (mm_repo_microagents M)"

definition set_repository_info :: "string \<Rightarrow> string \<Rightarrow> string option \<Rightarrow> memory \<Rightarrow> memory" where
  "set_repository_info repo_name repo_directory branch_name M = M\<lparr>mm_repository_info :=
     (if repo_name \<noteq> [] \<or> repo_directory \<noteq> []
      then Some \<lparr>ri_repo_name = repo_name, ri_repo_directory = repo_directory, ri_branch_name = branch_name\<rparr>
      else None)\<rparr>"

definition set_runtime_info ::
  "string \<Rightarrow> (string \<times> int) list \<Rightarrow> string \<Rightarrow> (string \<times> string) list \<Rightarrow> string \<Rightarrow> memory \<Rightarrow> memory" where
  \<comment> \<open>the date, the web hosts and the additional instructions of the runtime, the secrets, the working directory\<close>
  "set_runtime_info date hosts instructions secrets_descriptions working_dir M = M\<lparr>mm_runtime_info := Some
     (if hosts \<noteq> [] \<or> instructions \<noteq> []
      then \<lparr>rn_date = date, rn_available_hosts = hosts, rn_additional_agent_instructions = instructions,
            rn_custom_secrets_descriptions = secrets_descriptions, rn_working_dir = working_dir\<rparr>
      else \<lparr>rn_date = date, rn_available_hosts = [], rn_additional_agent_instructions = [],
            rn_custom_secrets_descriptions = secrets_descriptions, rn_working_dir = working_dir\<rparr>)\<rparr>"

definition set_conversation_instructions :: "string option \<Rightarrow> memory \<Rightarrow> memory" where
  "set_conversation_instructions instructions M = M\<lparr>mm_conversation_instructions :=
     Some (case instructions of None \<Rightarrow> [] | Some s \<Rightarrow> s)\<rparr>"

section \<open>Recalls\<close>

definition triggered :: "string \<Rightarrow> microagent \<Rightarrow> microagent_knowledge option" where
  "triggered query a = (case match_trigger a query of
       None \<Rightarrow> None
     | Some t \<Rightarrow> if t = [] then None else Some \<lparr>mk_name = mi_name a, mk_trigger = t, mk_content = mi_content a\<rparr>)"

definition find_microagent_knowledge :: "memory \<Rightarrow> string \<Rightarrow> microagent_knowledge list" where
  "find_microagent_knowledge M query =
     (if query = [] then [] else List.map_filter (\<lambda>(_, a). triggered query a) (mm_knowledge_microagents M))"

definition repo_instructions :: "memory \<Rightarrow> string" where
  "repo_instructions M = foldl (\<lambda>s (_, a). (if s \<noteq> [] then s @ [nl, nl] else s) @ mi_content a) [] (mm_repo_microagents M)"

definition on_workspace_context_recall :: "memory \<Rightarrow> string \<Rightarrow> recall_observation option" where
  "on_workspace_context_recall M query =
     (let instructions = repo_instructions M; found = find_microagent_knowledge M query in
      if mm_repository_info M \<noteq> None \<or> mm_runtime_info M \<noteq> None \<or> instructions \<noteq> [] \<or> found \<noteq> []
         \<or> mm_conversation_instructions M \<noteq> None
      then Some
        \<lparr>ro_content = ''Added workspace context'', ro_recall_type = WORKSPACE_CONTEXT,
         ro_repo_name = (case mm_repository_info M of None \<Rightarrow> [] | Some i \<Rightarrow> ri_repo_name i),
         ro_repo_directory = (case mm_repository_info M of None \<Rightarrow> [] | Some i \<Rightarrow> ri_repo_directory i),
         ro_repo_branch = (case mm_repository_info M of None \<Rightarrow> []
            | Some i \<Rightarrow> (case ri_branch_name i of None \<Rightarrow> [] | Some b \<Rightarrow> b)),
         ro_repo_instructions = instructions,
         ro_runtime_hosts = (case mm_runtime_info M of None \<Rightarrow> [] | Some i \<Rightarrow> rn_available_hosts i),
         ro_additional_agent_instructions = (case mm_runtime_info M of None \<Rightarrow> [] | Some i \<Rightarrow> rn_additional_agent_instructions i),
         ro_date = (case mm_runtime_info M of None \<Rightarrow> [] | Some i \<Rightarrow> rn_date i),
         ro_custom_secrets_descriptions = (case mm_runtime_info M of None \<Rightarrow> [] | Some i \<Rightarrow> rn_custom_secrets_descriptions i),
         ro_conversation_instructions = (case mm_conversation_instructions M of None \<Rightarrow> [] | Some s \<Rightarrow> s),
         ro_working_dir = (case mm_runtime_info M of None \<Rightarrow> [] | Some i \<Rightarrow> rn_working_dir i),
         ro_microagent_knowledge = found\<rparr>
      else None)"

definition on_microagent_recall :: "memory \<Rightarrow> string \<Rightarrow> recall_observation option" where
  "on_microagent_recall M query =
     (case find_microagent_knowledge M query of
        [] \<Rightarrow> None
      | found \<Rightarrow> Some
        \<lparr>ro_content = ''Retrieved knowledge from microagents'', ro_recall_type = KNOWLEDGE, ro_repo_name = [],
         ro_repo_directory = [], ro_repo_branch = [], ro_repo_instructions = [], ro_runtime_hosts = [],
         ro_additional_agent_instructions = [], ro_date = [], ro_custom_secrets_descriptions = [],
         ro_conversation_instructions = [], ro_working_dir = [], ro_microagent_knowledge = found\<rparr>)"

definition answer_to :: "event \<Rightarrow> recall_observation option \<Rightarrow> event" where
  "answer_to e found =
     (new_obs (case found of None \<Rightarrow> NullObservation [] | Some r \<Rightarrow> RecallObservation r))\<lparr>ev_cause := Some (event_id e)\<rparr>"

definition ERROR_MEMORY :: string where "ERROR_MEMORY = ''STATUS$ERROR_MEMORY''"

definition memory_failed :: "memory \<Rightarrow> exc \<Rightarrow> (('s, 'k, 'p, 'g) world, unit) eff" where
  "memory_failed M x = whenm (mm_has_callback M) (report_status ERROR_MEMORY (''Error: '' @ ex_name x))"

definition memory_on_event :: "('s, 'k, 'p, 'g) env \<Rightarrow> memory \<Rightarrow> event \<Rightarrow> (('s, 'k, 'p, 'g) world, unit) eff" where
  "memory_on_event E M e = try_except
     (case ev_body e of
        Act (RecallAction kind query thought) \<Rightarrow>
          if ev_source e = Some USER \<and> kind = WORKSPACE_CONTEXT
          then publish E (answer_to e (on_workspace_context_recall M query)) ENVIRONMENT
          else if (ev_source e = Some USER \<or> ev_source e = Some AGENT) \<and> kind = KNOWLEDGE
          then publish E (answer_to e (on_microagent_recall M query)) ENVIRONMENT
          else ret ()
      | _ \<Rightarrow> ret ())
     (memory_failed M)"

section \<open>What is found\<close>

text \<open>The conditions of a loaded memory: the agents that are recalled have no empty trigger.\<close>

definition triggers_ok :: "memory \<Rightarrow> bool" where
  "triggers_ok M = list_all (\<lambda>(_, a). [] \<notin> set (md_triggers (mi_metadata a))) (mm_knowledge_microagents M)"

lemma triggered_iff:
  assumes "[] \<notin> set (md_triggers (mi_metadata a))"
  shows "(triggered query a \<noteq> None) = (\<exists>t \<in> set (md_triggers (mi_metadata a)). py_contains (py_lower query) (py_lower t))"
proof (cases "match_trigger a query")
  case None
  then have "\<forall>t \<in> set (md_triggers (mi_metadata a)). \<not> py_contains (py_lower query) (py_lower t)"
    by (auto simp: match_trigger_def find_None_iff)
  with None show ?thesis by (simp add: triggered_def)
next
  case (Some t)
  then have t: "t \<in> set (md_triggers (mi_metadata a))" "py_contains (py_lower query) (py_lower t)"
    by (auto simp: match_trigger_def find_Some_iff)
  with assms have "t \<noteq> []" by blast
  with Some t show ?thesis by (auto simp: triggered_def)
qed

lemma triggered_facts:
  assumes "triggered query a = Some k"
  shows "mk_name k = mi_name a" "mk_content k = mi_content a" "mk_trigger k \<noteq> []"
    "mk_trigger k \<in> set (md_triggers (mi_metadata a))" "py_contains (py_lower query) (py_lower (mk_trigger k))"
  using assms by (auto simp: triggered_def match_trigger_def find_Some_iff split: option.splits if_splits)

lemma names_map_filter:
  assumes "\<And>x. x \<in> set xs \<Longrightarrow> (f x \<noteq> None) = P x" and "\<And>x y. f x = Some y \<Longrightarrow> g y = h x"
  shows "map g (List.map_filter f xs) = map h (filter P xs)"
  using assms(1)
proof (induction xs)
  case (Cons x xs)
  from Cons.prems [of x] have "(f x \<noteq> None) = P x" by simp
  moreover have "map g (List.map_filter f xs) = map h (filter P xs)" using Cons by simp
  ultimately show ?case by (cases "f x") (simp_all add: List.map_filter_simps assms(2))
qed (simp add: List.map_filter_simps)

lemma map_filter_set: "y \<in> set (List.map_filter f xs) \<longleftrightarrow> (\<exists>x \<in> set xs. f x = Some y)"
  by (force simp: List.map_filter_def)

text \<open>
  When no trigger is empty, a query recalls exactly the knowledge of the microagents that have a trigger in it, in the
  order in which they were loaded, each with a trigger that the query contains and with the whole content of its file.
\<close>

theorem query_recalls_the_triggered:
  assumes "query \<noteq> []" and "triggers_ok M"
  defines "hit \<equiv> \<lambda>(_, a). \<exists>t \<in> set (md_triggers (mi_metadata a)). py_contains (py_lower query) (py_lower t)"
  shows "map (\<lambda>k. (mk_name k, mk_content k)) (find_microagent_knowledge M query)
      = map (\<lambda>(_, a). (mi_name a, mi_content a)) (filter hit (mm_knowledge_microagents M))
    \<and> (\<forall>k \<in> set (find_microagent_knowledge M query). mk_trigger k \<noteq> [] \<and> py_contains (py_lower query) (py_lower (mk_trigger k)))"
proof
  show "map (\<lambda>k. (mk_name k, mk_content k)) (find_microagent_knowledge M query)
      = map (\<lambda>(_, a). (mi_name a, mi_content a)) (filter hit (mm_knowledge_microagents M))"
    unfolding find_microagent_knowledge_def if_not_P [OF assms(1)]
  proof (rule names_map_filter)
    fix x assume "x \<in> set (mm_knowledge_microagents M)"
    with assms(2) have "[] \<notin> set (md_triggers (mi_metadata (snd x)))" by (auto simp: triggers_ok_def list_all_iff)
    from triggered_iff [OF this, of query] show "((case x of (_, a) \<Rightarrow> triggered query a) \<noteq> None) = hit x"
      by (cases x) (simp add: hit_def)
  qed (auto simp: triggered_facts(1,2))
  show "\<forall>k \<in> set (find_microagent_knowledge M query). mk_trigger k \<noteq> [] \<and> py_contains (py_lower query) (py_lower (mk_trigger k))"
    using assms(1) by (auto simp: find_microagent_knowledge_def map_filter_set triggered_facts(3,5))
qed

text \<open>
  A microagent whose first trigger is empty is never recalled, whatever its other triggers are: the empty text is in
  every query, so the search stops there, and its result counts as none.
\<close>

theorem empty_trigger_hides_the_others:
  "triggered query (a\<lparr>mi_metadata := (mi_metadata a)\<lparr>md_triggers := [] # ts\<rparr>\<rparr>) = None"
  by (cases "py_lower query") (simp_all add: triggered_def match_trigger_def py_startswith_def py_lower_def)

section \<open>What is loaded\<close>

definition shelves_ok :: "loaded \<Rightarrow> bool" where
  "shelves_ok l = (list_all (\<lambda>(n, a). n = mi_name a \<and> mi_type a = MT_REPO) (fst l)
     \<and> list_all (\<lambda>(n, a). n = mi_name a \<and> mi_type a \<noteq> MT_REPO \<and> md_triggers (mi_metadata a) \<noteq> []) (snd l)
     \<and> distinct (d_keys (fst l)) \<and> distinct (d_keys (snd l)))"

definition memory_ok :: "memory \<Rightarrow> bool" where
  "memory_ok M = shelves_ok (mm_repo_microagents M, mm_knowledge_microagents M)"

lemma list_all_d_set: "list_all P d \<Longrightarrow> P (k, v) \<Longrightarrow> list_all P (d_set k v d)"
  by (induction d) (auto simp: d_set_def)

lemma list_all_d_update: "list_all P d \<Longrightarrow> list_all P e \<Longrightarrow> list_all P (d_update d e)"
  by (induction e arbitrary: d) (auto simp: d_update_def list_all_d_set)

lemma distinct_d_update: "distinct (d_keys d) \<Longrightarrow> distinct (d_keys (d_update d e))"
  by (induction e arbitrary: d) (auto simp: d_update_def distinct_d_set)

lemma shelve:
  assumes "classified a" and "shelves_ok (r, k)"
  shows "shelves_ok (if mi_type a = MT_REPO then (d_set (mi_name a) a r, k) else (r, d_set (mi_name a) a k))"
  using assms by (auto simp: shelves_ok_def classified_def list_all_d_set distinct_d_set)

lemma load_files_ok:
  assumes "load_files load fs acc = Inr l" and "\<And>f a. load f = Inr a \<Longrightarrow> classified a" and "shelves_ok acc"
  shows "shelves_ok l"
  using assms(1,3)
proof (induction fs arbitrary: acc)
  case (Cons f fs)
  obtain r k where acc: "acc = (r, k)" by (cases acc)
  with Cons.prems obtain a where a: "load f = Inr a"
    and rest: "load_files load fs (if mi_type a = MT_REPO then (d_set (mi_name a) a r, k) else (r, d_set (mi_name a) a k)) = Inr l"
    by (auto split: sum.splits)
  from Cons.IH [OF rest shelve] Cons.prems(2) acc assms(2) [OF a] show ?case by simp
qed simp

lemma dir_shelves_ok:
  assumes "load_microagents_from_dir front_matter mcp exists_file read md_files dir = Inr l"
  shows "shelves_ok l"
proof (rule load_files_ok)
  show "load_files (\<lambda>f. bind_res (read f) (microagent_load front_matter mcp f (Some dir)))
      (special_files exists_file (butlast (butlast dir)) @ filter (\<lambda>f. last f \<noteq> ''README.md'') md_files) ([], []) = Inr l"
    using assms by (simp add: load_microagents_from_dir_def)
qed (auto simp: bind_res_Inr shelves_ok_def d_keys_def intro: load_classified)

lemma merge_ok: "memory_ok M \<Longrightarrow> shelves_ok l \<Longrightarrow> memory_ok (merge_loaded l M)"
  by (auto simp: memory_ok_def merge_loaded_def shelves_ok_def list_all_d_update distinct_d_update)

lemma workspace_ok: "list_all classified as \<Longrightarrow> memory_ok M \<Longrightarrow> memory_ok (load_user_workspace_microagents as M)"
proof (induction as arbitrary: M)
  case (Cons a as)
  from Cons.prems shelve [of a "mm_repo_microagents M" "mm_knowledge_microagents M"]
  have "memory_ok (load_user_workspace_microagents [a] M)"
    by (auto simp: memory_ok_def load_user_workspace_microagents_def split: if_splits)
  from Cons.IH [OF _ this] Cons.prems show ?case by (simp add: load_user_workspace_microagents_def)
qed (simp add: load_user_workspace_microagents_def)

text \<open>
  Whatever the files say, a memory that was built from directories of microagents and got the ones of a workspace has
  every microagent under its own name, and either among those that are always shown or with a trigger that can recall it.
\<close>

theorem memory_shelves_every_microagent:
  assumes "new_memory (load_microagents_from_dir fm mcp exists_file read global global_dir)
      (load_microagents_from_dir fm mcp exists_file read user user_dir) callback = Inr M"
    and "\<forall>a \<in> set workspace. \<exists>path dir content. microagent_load fm mcp path dir content = Inr a"
  shows "memory_ok (load_user_workspace_microagents workspace M)"
proof (rule workspace_ok)
  show "list_all classified workspace" using assms(2) load_classified by (fastforce simp: list_all_iff)
  have empty: "memory_ok (empty_memory callback)" by (simp add: memory_ok_def shelves_ok_def empty_memory_def d_keys_def)
  from assms(1) obtain l where l: "load_microagents_from_dir fm mcp exists_file read global global_dir = Inr l"
    and M: "M = load_user_microagents (load_microagents_from_dir fm mcp exists_file read user user_dir)
        (merge_loaded l (empty_memory callback))"
    by (auto simp: new_memory_def load_global_microagents_def bind_res_Inr)
  have "memory_ok (merge_loaded l (empty_memory callback))" by (rule merge_ok [OF empty dir_shelves_ok [OF l]])
  then show "memory_ok M" unfolding M
    by (cases "load_microagents_from_dir fm mcp exists_file read user user_dir")
       (simp_all add: load_user_microagents_def merge_ok dir_shelves_ok)
qed

lemma arg_Inr:
  "arg d k dflt conv f = Inr y \<longleftrightarrow> (\<exists>v. (case d_get d k of None \<Rightarrow> dflt = Some v | Some j \<Rightarrow> conv j = Inr v) \<and> f v = Inr y)"
  by (cases "d_get d k"; cases dflt) (auto simp: arg_def bind_res_Inr)

lemma validated_without_name:
  assumes "validated_metadata mcp d = Inr m"
  shows "d_get d ''name'' = None \<Longrightarrow> md_name m = ''default''" "d_get d ''triggers'' = None \<Longrightarrow> md_triggers m = []"
proof -
  from assms have "read_metadata mcp d = Inr m" by (simp add: validated_metadata_def split: sum.splits)
  then show "d_get d ''name'' = None \<Longrightarrow> md_name m = ''default''" "d_get d ''triggers'' = None \<Longrightarrow> md_triggers m = []"
    unfolding read_metadata_def arg_Inr by (auto split: if_splits)
qed

text \<open>
  A task that was loaded from a directory can be called by the name in its metadata only: the name of its file, by which
  the memory knows it, is not among its triggers when the metadata has no name, and \<open>/default\<close> is.
\<close>

theorem task_ignores_the_name_of_its_file:
  assumes "microagent_load front_matter mcp path (Some dir) content = Inr a" and "mi_type a = MT_TASK"
    and "front_matter content = Inr (d, body)" and "\<not> d_has d ''name''" and "\<not> d_has d ''triggers''"
  shows "Inr (mi_name a) = relative_name dir path \<and> md_triggers (mi_metadata a) = [''/default'']"
  using assms(1)
proof (cases rule: load_cases)
  case (1 nm source)
  with assms(2) show ?thesis by (simp add: repo_microagent_def)
next
  case (2 d' body' m nm)
  then have m: "validated_metadata mcp (version_text d) = Inr m" using assms(3) by simp
  have "d_get (version_text d) k = d_get d k" if "k \<noteq> ''version''" for k
    using that by (simp add: version_text_def split: option.split json.split)
  with m assms(4,5) have "md_name m = ''default''" "md_triggers m = []"
    using validated_without_name [OF m] by (simp_all add: d_has_def)
  moreover have "fst (inferred m) = MT_TASK" using assms(2) 2(3) by (simp add: typed_sel)
  ultimately show ?thesis using 2 by (auto simp: typed_sel inferred_def Let_def split: if_splits)
qed

section \<open>A recall is answered\<close>

lemma answer_ok:
  "event_ok (answer_to e (on_workspace_context_recall M q))" "event_ok (answer_to e (on_microagent_recall M q))"
  by (auto simp: answer_to_def event_ok_def new_obs_def fresh_def on_workspace_context_recall_def on_microagent_recall_def Let_def
      split: option.split list.split)

lemma publish_queued:
  assumes "publish E e src w = (w', Inr ())" and "st_secrets (w_stream w) = []" and "event_ok e"
  obtains n t where "w_ctrls w' = w_ctrls w" "w_status w' = w_status w"
    "st_queue (w_stream w') = st_queue (w_stream w) @ [delivered (e\<lparr>ev_timestamp := Some t, ev_source := Some src, ev_id := Some n\<rparr>)]"
proof -
  obtain st e' where add: "add_event (en_wr E) (en_ls E) (en_lit E) (en_now E (w_clock w)) e src (w_stream w) = (st, e', Inr ())"
    and w': "w' = w\<lparr>w_stream := st, w_clock := w_clock w + 1\<rparr>"
    using assms(1) by (auto simp: publish_def split: prod.splits sum.splits)
  from add_event_queued [OF add assms(2,3)] that w' show thesis by auto
qed

lemma publish_raised:
  assumes "publish E e src w = (w', Inl x)"
  shows "w_ctrls w' = w_ctrls w" "w_status w' = w_status w"
  using assms by (auto simp: publish_def split: prod.splits sum.splits)

lemma recall_is_answered:
  assumes "ev_body e = Act (RecallAction kind query thought)" and "ev_source e = Some USER" and "kind \<in> {WORKSPACE_CONTEXT, KNOWLEDGE}"
    and "st_secrets (w_stream w) = []" and "mm_has_callback M" and "memory_on_event E M e w = (w', r)"
  defines "found \<equiv> if kind = WORKSPACE_CONTEXT then on_workspace_context_recall M query else on_microagent_recall M query"
  shows "r = Inr () \<and> w_ctrls w' = w_ctrls w
    \<and> ((\<exists>ob. st_queue (w_stream w') = st_queue (w_stream w) @ [ob] \<and> ev_cause ob = Some (event_id e) \<and> ev_source ob = Some ENVIRONMENT
          \<and> ev_body ob = Obs (case found of None \<Rightarrow> NullObservation [] | Some ro \<Rightarrow> RecallObservation ro) \<and> w_status w' = w_status w)
        \<or> (\<exists>msg. w_status w' = w_status w @ [(''error'', ERROR_MEMORY, msg)]))"
proof -
  let ?ans = "answer_to e found"
  have run: "memory_on_event E M e w = try_except (publish E ?ans ENVIRONMENT) (memory_failed M) w"
    using assms(1-3) by (auto simp: memory_on_event_def found_def)
  have ok: "event_ok ?ans" using answer_ok by (simp add: found_def)
  obtain w1 x where pub: "publish E ?ans ENVIRONMENT w = (w1, x)" by fastforce
  show ?thesis
  proof (cases x)
    case (Inl err)
    with pub run assms(5,6) publish_raised [of E ?ans ENVIRONMENT w w1 err] show ?thesis
      by (auto simp: try_except_def memory_failed_def report_status_def)
  next
    case (Inr u)
    with pub have "publish E ?ans ENVIRONMENT w = (w1, Inr ())" by simp
    from publish_queued [OF this assms(4) ok] obtain n t where q: "w_ctrls w1 = w_ctrls w" "w_status w1 = w_status w"
      "st_queue (w_stream w1) = st_queue (w_stream w)
         @ [delivered (?ans\<lparr>ev_timestamp := Some t, ev_source := Some ENVIRONMENT, ev_id := Some n\<rparr>)]" by blast
    have "w' = w1" "r = Inr ()" using run pub Inr assms(6) by (simp_all add: try_except_def)
    with q show ?thesis
      by (auto simp: answer_to_def new_obs_def delivered_def delivered_body_def split: option.split)
  qed
qed

lemma delivered_recall: "ev_body e = Act (RecallAction k q t) \<Longrightarrow> ev_body (delivered e) = Act (RecallAction k q t)"
  by (simp add: delivered_def delivered_body_def delivered_action_def)

text \<open>
  C6. The way of a user's message through the controller and the memory: the controller that handles it runs and asks for a
  recall; the memory hears the recall and, unless it reports a failure, queues exactly one answer; with that answer the
  agent takes its step, with nothing pending, even when nothing was known.
\<close>

theorem user_message_reaches_the_agent:
  assumes "length (w_ctrls w) = 1" and "is_user_message e" and "on_event E e w = (w1, Inr ())"
    and "c_pending (cur 0 w1) = Some p" and "0 < event_id p" and "st_secrets (w_stream w1) = []"
    and "mm_has_callback M" and "memory_on_event E M (delivered p) w1 = (w2, r)" and "w_status w2 = w_status w1"
  shows "get_agent_state 0 w1 = RUNNING \<and> r = Inr ()
    \<and> (\<exists>ob. st_queue (w_stream w2) = st_queue (w_stream w1) @ [ob]
       \<and> (let w3 = upd 0 (\<lambda>c. c\<lparr>c_state := add_history ob (c_state c), c_pending := None\<rparr>) w2
          in get_agent_state 0 w3 = RUNNING \<and> c_pending (cur 0 w3) = None
             \<and> on_event E ob w2 = step_with_exception_handling E 0 w3))"
proof -
  note asked = user_message_asks_recall [OF assms(1-4)]
  then obtain kind content where kind: "kind \<in> {WORKSPACE_CONTEXT, KNOWLEDGE}"
    and p: "ev_body p = Act (RecallAction kind content [])" "ev_source p = Some USER" by blast
  let ?found = "if kind = WORKSPACE_CONTEXT then on_workspace_context_recall M content else on_microagent_recall M content"
  from recall_is_answered [OF delivered_recall [OF p(1)] _ kind assms(6-8)] p(2) assms(9) obtain ob where r: "r = Inr ()"
    and same: "w_ctrls w2 = w_ctrls w1" and q: "st_queue (w_stream w2) = st_queue (w_stream w1) @ [ob]"
    and ob: "ev_cause ob = Some (event_id p)" "ev_body ob = Obs (case ?found of None \<Rightarrow> NullObservation [] | Some ro \<Rightarrow> RecallObservation ro)"
    by auto
  have body: "ev_body ob = Obs (RecallObservation (the ?found)) \<or> ev_body ob = Obs (NullObservation []) \<and> 0 < event_id p"
    using ob(2) assms(5) by (auto split: option.splits)
  have "length (w_ctrls w2) = 1" "get_agent_state 0 w2 = RUNNING" "c_pending (cur 0 w2) = Some p"
    using asked(1,2) assms(4) same by (simp_all add: get_agent_state_def cur_def)
  from answer_clears_the_way [OF this body ob(1)] r q asked(2) show ?thesis by (auto simp: Let_def)
qed

end
