(* ===== verification/RecallExamples.thy ===== *)
theory RecallExamples
  imports Recall ControllerExamples
begin

text \<open>A memory with microagents from two files, on which the properties of \<open>Recall\<close> are applied.\<close>

definition task_front_matter :: dict where
  "task_front_matter = [(''inputs'', JList [JObj [(''name'', JStr ''pr''), (''description'', JStr ''number'')]])]"

definition demo_front_matter :: "string \<Rightarrow> (dict \<times> string) res" where
  \<comment> \<open>the first letter of a file chooses its metadata\<close>
  "demo_front_matter s =
     (if take 1 s = ''g'' then Inr ([(''triggers'', JList [JStr ''Git''])], s)
      else if take 1 s = ''t'' then Inr (task_front_matter, s)
      else Inr ([], s))"

definition demo_dir :: "string list" where "demo_dir = [''w'', ''.openhands'', ''microagents'']"

definition demo_load :: "string list list \<Rightarrow> loaded res" where
  "demo_load files = load_microagents_from_dir demo_front_matter (\<lambda>_. None) (\<lambda>_. False) (\<lambda>f. Inr (last f)) files demo_dir"

definition demo_memory :: memory where
  "demo_memory = (case new_memory (demo_load [demo_dir @ [''git.md''], demo_dir @ [''rust.md'']]) (demo_load []) True of
     Inr M \<Rightarrow> M | Inl _ \<Rightarrow> empty_memory True)"

lemma demo_built: "new_memory (demo_load [demo_dir @ [''git.md''], demo_dir @ [''rust.md'']]) (demo_load []) True = Inr demo_memory"
  by code_simp

definition demo_task :: microagent where
  "demo_task = (case microagent_load demo_front_matter (\<lambda>_. None) (demo_dir @ [''triage.md'']) (Some demo_dir) ''triage ${pr}'' of
     Inr a \<Rightarrow> a | Inl _ \<Rightarrow> repo_microagent [] [] [])"

theorem query_recalls_the_triggered_witness:
  "map mk_name (find_microagent_knowledge demo_memory ''push to GIT'') = [''git'']
   \<and> list_all (\<lambda>k. py_contains (py_lower ''push to GIT'') (py_lower (mk_trigger k))) (find_microagent_knowledge demo_memory ''push to GIT'')"
proof -
  have ok: "triggers_ok demo_memory" and names: "map mk_name (find_microagent_knowledge demo_memory ''push to GIT'') = [''git'']"
    by code_simp+
  from query_recalls_the_triggered [OF _ ok, of "''push to GIT''"] names show ?thesis by (simp add: list_all_iff)
qed

theorem memory_shelves_every_microagent_witness: "memory_ok (load_user_workspace_microagents [] demo_memory)"
  using memory_shelves_every_microagent [of demo_front_matter "\<lambda>_. None" "\<lambda>_. False" "\<lambda>f. Inr (last f)"
      "[demo_dir @ [''git.md''], demo_dir @ [''rust.md'']]" demo_dir "[]" demo_dir True demo_memory "[]"] demo_built
  by (simp add: demo_load_def)

theorem task_ignores_the_name_of_its_file_witness:
  "mi_name demo_task = ''triage'' \<and> md_triggers (mi_metadata demo_task) = [''/default'']"
proof -
  have a: "microagent_load demo_front_matter (\<lambda>_. None) (demo_dir @ [''triage.md'']) (Some demo_dir) ''triage ${pr}'' = Inr demo_task"
    and t: "mi_type demo_task = MT_TASK" and n: "relative_name demo_dir (demo_dir @ [''triage.md'']) = Inr ''triage''" by code_simp+
  have f: "demo_front_matter ''triage ${pr}'' = Inr (task_front_matter, ''triage ${pr}'')" by (simp add: demo_front_matter_def)
  have "\<not> d_has task_front_matter ''name''" "\<not> d_has task_front_matter ''triggers''" by code_simp+
  from task_ignores_the_name_of_its_file [OF a t f this] n show ?thesis by simp
qed

text \<open>The user asks for something that triggers a microagent; the message is in the stream before it is handled.\<close>

definition w_said :: "(json mem_store, unit, saved_state mem_store, nat) world" where
  "w_said = fst (publish demo_env (new_message ''use git'') USER (fst started))"

definition e_said :: event where "e_said = last (st_queue (w_stream w_said))"

definition w_heard :: "(json mem_store, unit, saved_state mem_store, nat) world" where
  "w_heard = heard e_said w_said"

definition w_answered :: "(json mem_store, unit, saved_state mem_store, nat) world" where
  "w_answered = fst (memory_on_event demo_env demo_memory (delivered (pending_action w_heard)) w_heard)"

text \<open>The run is evaluated once.\<close>

lemma demo_run:
  "case w_said of wa \<Rightarrow> length (w_ctrls wa) = 1 \<and> is_user_message (last (st_queue (w_stream wa)))
     \<and> (case on_event demo_env (last (st_queue (w_stream wa))) wa of (w, r) \<Rightarrow>
          r = Inr () \<and> c_pending (cur 0 w) \<noteq> None \<and> 0 < event_id (pending_action w) \<and> st_secrets (w_stream w) = []
          \<and> w_status (fst (memory_on_event demo_env demo_memory (delivered (pending_action w)) w)) = w_status w)"
  by code_simp

lemma w_heard_eq: "on_event demo_env e_said w_said = (w_heard, Inr ())"
  using demo_run by (auto simp: w_heard_def heard_def e_said_def split: prod.splits)

lemma w_heard_facts:
  "length (w_ctrls w_said) = 1" "is_user_message e_said" "c_pending (cur 0 w_heard) = Some (pending_action w_heard)"
  "0 < event_id (pending_action w_heard)" "st_secrets (w_stream w_heard) = []" "w_status w_answered = w_status w_heard"
  using demo_run w_heard_eq by (auto simp: e_said_def w_answered_def pending_action_def)

lemma demo_memory_callback: "mm_has_callback demo_memory" by code_simp

theorem user_message_reaches_the_agent_witness:
  "\<exists>ob. st_queue (w_stream w_answered) = st_queue (w_stream w_heard) @ [ob]
    \<and> on_event demo_env ob w_answered = step_with_exception_handling demo_env 0
        (upd 0 (\<lambda>c. c\<lparr>c_state := add_history ob (c_state c), c_pending := None\<rparr>) w_answered)"
proof -
  have "memory_on_event demo_env demo_memory (delivered (pending_action w_heard)) w_heard
      = (w_answered, snd (memory_on_event demo_env demo_memory (delivered (pending_action w_heard)) w_heard))"
    by (simp add: w_answered_def)
  from user_message_reaches_the_agent [OF w_heard_facts(1,2) w_heard_eq w_heard_facts(3-5) demo_memory_callback this w_heard_facts(6)]
  show ?thesis by (auto simp: Let_def)
qed

end
