(* ===== verification/Texts.thy ===== *)
theory Texts
  imports Prelude
begin

text \<open>
  Searching in texts: \<open>partition\<close>, \<open>lstrip\<close>, \<open>rstrip\<close> and \<open>splitlines\<close> of Python's strings, and where an occurrence of a
  pattern can start (\<open>quiet\<close>), which the parsers of texts in the components share.
\<close>

section \<open>Operations\<close>

fun py_partition :: "string \<Rightarrow> string \<Rightarrow> (string \<times> string) option" where
  \<comment> \<open>what is before and after the first occurrence\<close>
  "py_partition [] p = (if p = [] then Some ([], []) else None)"
| "py_partition (c # s) p =
     (if py_startswith (c # s) p then Some ([], drop (length p) (c # s))
      else map_option (map_prod (Cons c) id) (py_partition s p))"

definition py_lstrip :: "string \<Rightarrow> string" where "py_lstrip s = dropWhile py_isspace s"

definition py_rstrip :: "string \<Rightarrow> string" where "py_rstrip s = rev (dropWhile py_isspace (rev s))"

definition line_break :: "char \<Rightarrow> bool" where
  \<comment> \<open>the code points below 256 at which \<open>str.splitlines\<close> breaks\<close>
  "line_break c = (let n = of_char c :: nat in 10 \<le> n \<and> n \<le> 13 \<or> 28 \<le> n \<and> n \<le> 30 \<or> n = 133)"

fun py_splitlines_aux :: "string \<Rightarrow> string \<Rightarrow> string list" where
  \<comment> \<open>the first text is the line so far, reversed\<close>
  "py_splitlines_aux line [] = (if line = [] then [] else [rev line])"
| "py_splitlines_aux line [c] = (if line_break c then [rev line] else [rev (c # line)])"
| "py_splitlines_aux line (c # d # s) =
     (if c = CHR 0x0D \<and> d = nl then rev line # py_splitlines_aux [] s
      else if line_break c then rev line # py_splitlines_aux [] (d # s)
      else py_splitlines_aux (c # line) (d # s))"

definition py_splitlines :: "string \<Rightarrow> string list" where "py_splitlines s = py_splitlines_aux [] s"

lemma py_partition_eq: "py_partition s p = Some (a, b) \<Longrightarrow> s = a @ p @ b"
proof (induction s p arbitrary: a rule: py_partition.induct)
  case (2 c s p)
  show ?case
  proof (cases "py_startswith (c # s) p")
    case True
    then have "c # s = p @ drop (length p) (c # s)" by (metis append_take_drop_id py_startswith_def)
    with True "2.prems" show ?thesis by auto
  qed (use 2 in auto)
qed (simp split: if_splits)

lemma startswith_nonempty: "py_startswith s p \<Longrightarrow> p \<noteq> [] \<Longrightarrow> s \<noteq> []"
  by (auto simp: py_startswith_def)

section \<open>Where a pattern starts\<close>

text \<open>No occurrence of a pattern starts in the first text, when it is followed by the second.\<close>

fun quiet :: "string \<Rightarrow> string \<Rightarrow> string \<Rightarrow> bool" where
  "quiet p [] t = True"
| "quiet p (c # w) t = (\<not> py_startswith (c # w @ t) p \<and> quiet p w t)"

lemma quiet_append: "quiet p (u @ v) t = (quiet p u (v @ t) \<and> quiet p v t)"
  by (induction u) auto

lemma quiet_char: "hd p \<notin> set w \<Longrightarrow> p \<noteq> [] \<Longrightarrow> quiet p w t"
  by (induction w) (auto simp: py_startswith_def neq_Nil_conv)

lemma quiet_contains: "quiet p w [] \<Longrightarrow> p \<noteq> [] \<Longrightarrow> \<not> py_contains w p"
  by (induction w) auto

lemma startswith_append: "py_startswith (p @ s) p"
  by (simp add: py_startswith_def)

lemma quiet_free:
  assumes "p = c # q" and "t = [] \<or> hd t \<notin> set q" and "\<not> py_contains w p"
  shows "quiet p w t"
  using assms(3)
proof (induction w)
  case (Cons a w)
  have "\<not> py_startswith (a # w @ t) p"
  proof
    assume st: "py_startswith (a # w @ t) p"
    show False
    proof (cases "length p \<le> length (a # w)")
      case True
      with st take_append [of "length p" "a # w" t] have "py_startswith (a # w) p" by (simp add: py_startswith_def)
      with Cons.prems show False by simp
    next
      case False
      with st have eq: "p = (a # w) @ take (length p - length (a # w)) t"
        by (metis append_Cons nat_le_linear py_startswith_def take_all take_append)
      from False have ne: "take (length p - length (a # w)) t \<noteq> []"
        using eq by (metis append_Nil2 le_refl)
      then have "hd t \<in> set (take (length p - length (a # w)) t)" by (cases t) (auto simp: take_Cons')
      moreover have "set (take (length p - length (a # w)) t) \<subseteq> set q"
        using eq assms(1) by (metis append_Cons list.inject set_append Un_upper2)
      ultimately show False using assms(2) ne by auto
    qed
  qed
  with Cons show ?case by simp
qed simp

lemma partition_quiet: "quiet p w (p @ s) \<Longrightarrow> py_partition (w @ p @ s) p = Some (w, s)"
proof (induction w)
  case Nil
  have "take (length p) (p @ s) = p" "drop (length p) (p @ s) = s" by simp_all
  then show ?case by (cases "p @ s") (simp_all add: py_startswith_def)
qed simp

lemma partition_none: "\<not> py_contains s p \<Longrightarrow> py_partition s p = None"
  by (induction s) auto

lemma endswith_append: "py_endswith (s @ p) p"
  by (simp add: py_endswith_def)

lemma endswith_last: "py_endswith s p \<Longrightarrow> p \<noteq> [] \<Longrightarrow> last s = last p"
  by (metis append_take_drop_id last_appendR py_endswith_def)

end
