(* ===== verification/FnCallConverter.thy ===== *)
theory FnCallConverter
  imports FunctionCalling EventFilter Texts
begin

text \<open>
  Calls of tools as text, for models that cannot call functions (\<open>openhands/llm/fn_call_converter.py\<close>): a prompt with tool calls
  is turned into a prompt of plain texts, and the text that the model answers is parsed back into a call.

  Messages and their items are dictionaries, as the client of the model takes them; the descriptions of the tools are
  records with the keys the code reads. The record \<open>conv_env\<close> holds what comes from outside: \<open>json.loads\<close>, whether the
  platform is Windows, and the texts of the table of examples. Of the texts of a \<open>FunctionCallConversionError\<close> and of the sets
  that are printed in a validation error only the constant part is kept.
\<close>

record conv_env =
  ce_loads :: "string \<Rightarrow> json option"
  ce_windows :: bool
  ce_example :: "string \<Rightarrow> string \<Rightarrow> string"

record param_info =
  pi_type :: "string option"
  pi_description :: "string option"
  pi_enum :: "json list option"

record tool_params =
  tp_properties :: "(string \<times> param_info) list option"
  tp_required :: "string list option"

record tool_spec =
  td_type :: string
  td_name :: string
  td_description :: "string option"
  td_parameters :: "tool_params option"

section \<open>Texts\<close>

definition before :: "string \<Rightarrow> string \<Rightarrow> string" where
  \<comment> \<open>\<open>s.split(p)[0]\<close>\<close>
  "before s p = (case py_partition s p of None \<Rightarrow> s | Some (a, b) \<Rightarrow> a)"

definition remove_first :: "string \<Rightarrow> string \<Rightarrow> string" where
  \<comment> \<open>\<open>s.replace(p, '', 1)\<close>\<close>
  "remove_first s p = (case py_partition s p of None \<Rightarrow> s | Some (a, b) \<Rightarrow> a @ b)"

definition occurs_once :: "string \<Rightarrow> string \<Rightarrow> bool" where
  \<comment> \<open>\<open>p in s and s.count(p) == 1\<close>\<close>
  "occurs_once s p = (case py_partition s p of None \<Rightarrow> False | Some (a, b) \<Rightarrow> \<not> py_contains b p)"

definition text_lines :: "string list \<Rightarrow> string" where "text_lines = py_join [nl]"

definition conversion_error :: "string \<Rightarrow> py_error" where
  "conversion_error s = OtherError ''FunctionCallConversionError'' s"

definition SYSTEM_PROMPT_SUFFIX_TEMPLATE :: "string \<Rightarrow> string" where
  \<comment> \<open>as a function of the description\<close>
  "SYSTEM_PROMPT_SUFFIX_TEMPLATE description = text_lines
     [[], ''You have access to the following functions:'', [], description, [],
      ''If you choose to call a function ONLY reply in the following format with NO suffix:'', [],
      ''<function=example_function_name>'', ''<parameter=example_parameter_1>value_1</parameter>'',
      ''<parameter=example_parameter_2>'', ''This is the value for the second parameter'', ''that can span'', ''multiple lines'',
      ''</parameter>'', ''</function>'', [], ''<IMPORTANT>'', ''Reminder:'',
      ''- Function calls MUST follow the specified format, start with <function= and end with </function>'',
      ''- Required parameters MUST be specified'', ''- Only call one function at a time'',
      ''- You may provide optional reasoning for your function call in natural language BEFORE the function call, but NOT after.'',
      ''- If there is no function call available, answer the question like normal with your current knowledge ''
        @ ''and do not tell the user about function calls'',
      ''</IMPORTANT>'', []]"

definition STOP_WORDS :: "string list" where "STOP_WORDS = [''</function'']"

definition refine_prompt :: "conv_env \<Rightarrow> string \<Rightarrow> string" where
  "refine_prompt E prompt = (if ce_windows E then py_replace prompt ''bash'' ''powershell'' else prompt)"

section \<open>The example\<close>

definition has_tool :: "string \<Rightarrow> tool_spec list \<Rightarrow> bool" where
  "has_tool nm tools = list_ex (\<lambda>t. td_type t = ''function'' \<and> td_name t = nm) tools"

definition get_example_for_tools :: "conv_env \<Rightarrow> tool_spec list \<Rightarrow> string" where
  "get_example_for_tools E tools =
     (let bash = has_tool ''execute_bash'' tools; editor = has_tool ''str_replace_editor'' tools;
          browser = has_tool ''browser'' tools; finish = has_tool ''finish'' tools; edit = has_tool ''edit_file'' tools;
          piece = (\<lambda>b t n. if b then ce_example E t n else []) in
      if \<not> (bash \<or> editor \<or> browser \<or> finish \<or> edit) then []
      else refine_prompt E (py_lstrip
        (text_lines
          [''Here's a running example of how to perform a task with the provided tools.'', [],
           ''--------------------- START OF EXAMPLE ---------------------'', [],
           ''USER: Create a list of numbers from 1 to 10, and display them in a web page at port 5000.'', [], []]
         @ piece bash ''execute_bash'' ''check_dir''
         @ piece editor ''str_replace_editor'' ''create_file'' @ piece (\<not> editor \<and> edit) ''edit_file'' ''create_file''
         @ piece bash ''execute_bash'' ''run_server''
         @ piece browser ''browser'' ''view_page''
         @ piece bash ''execute_bash'' ''kill_server''
         @ piece editor ''str_replace_editor'' ''edit_file'' @ piece (\<not> editor \<and> edit) ''edit_file'' ''edit_file''
         @ piece bash ''execute_bash'' ''run_server_again''
         @ piece finish ''finish'' ''example''
         @ text_lines
          [[], ''--------------------- END OF EXAMPLE ---------------------'', [],
           ''Do NOT assume the environment is the same as in the example above.'', [],
           ''--------------------- NEW TASK DESCRIPTION ---------------------'', []])))"

definition IN_CONTEXT_LEARNING_EXAMPLE_SUFFIX :: string where
  "IN_CONTEXT_LEARNING_EXAMPLE_SUFFIX = text_lines
     [[], ''--------------------- END OF NEW TASK DESCRIPTION ---------------------'', [],
      ''PLEASE follow the format strictly! PLEASE EMIT ONE AND ONLY ONE FUNCTION CALL PER MESSAGE.'', []]"

section \<open>A call as text\<close>

definition shown_value :: "json \<Rightarrow> string" where
  "shown_value v = (case v of JList _ \<Rightarrow> json_dumps v | JObj _ \<Rightarrow> json_dumps v | _ \<Rightarrow> py_str v)"

definition multiline :: "json \<Rightarrow> bool" where
  "multiline v = (case v of JStr s \<Rightarrow> nl \<in> set s | _ \<Rightarrow> False)"

definition param_text :: "string \<times> json \<Rightarrow> string" where
  "param_text = (\<lambda>(param_name, param_value).
     let br = (if multiline param_value then [nl] else [])
     in ''<parameter='' @ param_name @ ''>'' @ br @ shown_value param_value @ br @ ''</parameter>'' @ [nl])"

definition call_text :: "string \<Rightarrow> dict \<Rightarrow> string" where
  "call_text nm args = ''<function='' @ nm @ ''>'' @ [nl] @ concat (map param_text args) @ ''</function>''"

definition convert_tool_call_to_string :: "conv_env \<Rightarrow> json \<Rightarrow> string res" where
  "convert_tool_call_to_string E tool_call =
     bind_res (a_in ''function'' tool_call) (\<lambda>f. if \<not> f then Inl (conversion_error ''Tool call must contain 'function' key.'') else
     bind_res (a_in ''id'' tool_call) (\<lambda>i. if \<not> i then Inl (conversion_error ''Tool call must contain 'id' key.'') else
     bind_res (a_in ''type'' tool_call) (\<lambda>t. if \<not> t then Inl (conversion_error ''Tool call must contain 'type' key.'') else
     bind_res (a_item ''type'' tool_call) (\<lambda>ty.
       if ty \<noteq> JStr ''function'' then Inl (conversion_error ''Tool call type must be 'function'.'') else
     bind_res (a_item ''function'' tool_call) (\<lambda>fn.
     bind_res (a_item ''name'' fn) (\<lambda>nm.
     bind_res (a_item ''arguments'' fn) (\<lambda>a. case a of
         JStr s \<Rightarrow> (case ce_loads E s of
             None \<Rightarrow> Inl (conversion_error ''Failed to parse arguments as JSON.'')
           | Some (JObj args) \<Rightarrow> Inr (call_text (py_str nm) args)
           | Some _ \<Rightarrow> Inl (AttributeError ''items''))
       | _ \<Rightarrow> Inl (TypeError ''the JSON object must be str, bytes or bytearray''))))))))"

section \<open>Descriptions of the tools\<close>

definition param_description :: "string list \<Rightarrow> nat \<times> string \<times> param_info \<Rightarrow> string" where
  "param_description required_params = (\<lambda>(j, param_name, info).
     let status = (if param_name \<in> set required_params then ''required'' else ''optional'');
         ty = (case pi_type info of None \<Rightarrow> ''string'' | Some t \<Rightarrow> t);
         desc = (case pi_description info of None \<Rightarrow> ''No description provided'' | Some s \<Rightarrow> s);
         desc = (case pi_enum info of None \<Rightarrow> desc
           | Some vs \<Rightarrow> desc @ [nl] @ ''Allowed values: ['' @ py_join '', '' (map (\<lambda>v. ''`'' @ py_str v @ ''`'') vs) @ '']'')
     in ''  ('' @ str_of_nat (j + 1) @ '') '' @ param_name @ '' ('' @ ty @ '', '' @ status @ ''): '' @ desc @ [nl])"

definition tool_description :: "nat \<times> tool_spec \<Rightarrow> string res" where
  "tool_description = (\<lambda>(i, t).
     if td_type t \<noteq> ''function'' then Inl AssertionError
     else case td_description t of
       None \<Rightarrow> Inl (KeyError ''description'')
     | Some d \<Rightarrow> Inr
        ((if 0 < i then [nl] else [])
         @ ''---- BEGIN FUNCTION #'' @ str_of_nat (i + 1) @ '': '' @ td_name t @ '' ----'' @ [nl]
         @ ''Description: '' @ d @ [nl]
         @ (case td_parameters t of
              None \<Rightarrow> ''No parameters are required for this function.'' @ [nl]
            | Some ps \<Rightarrow> ''Parameters:'' @ [nl]
                @ (let properties = (case tp_properties ps of None \<Rightarrow> [] | Some x \<Rightarrow> x)
                   in concat (map (param_description (case tp_required ps of None \<Rightarrow> [] | Some x \<Rightarrow> x))
                        (zip [0..<length properties] properties))))
         @ ''---- END FUNCTION #'' @ str_of_nat (i + 1) @ '' ----'' @ [nl]))"

definition convert_tools_to_description :: "tool_spec list \<Rightarrow> string res" where
  "convert_tools_to_description tools = bind_res (map_res tool_description (zip [0..<length tools] tools)) (\<lambda>ss. Inr (concat ss))"

section \<open>From calls to text\<close>

text \<open>The items of a content\<close>

definition text_json :: "string \<Rightarrow> json" where
  "text_json s = JObj [(''type'', JStr ''text''), (''text'', JStr s)]"

definition is_text_json :: "json \<Rightarrow> bool res" where
  \<comment> \<open>\<open>item['type'] == 'text'\<close>\<close>
  "is_text_json j = bind_res (a_item ''type'' j) (\<lambda>t. Inr (t = JStr ''text''))"

definition json_text :: "json \<Rightarrow> string res" where
  "json_text j = bind_res (a_item ''text'' j) as_str"

definition with_json_text :: "(string \<Rightarrow> string) \<Rightarrow> json \<Rightarrow> json res" where
  "with_json_text f j = bind_res (json_text j) (\<lambda>s. bind_res (as_dict j) (\<lambda>d. Inr (JObj (d_set ''text'' (JStr (f s)) d))))"

definition on_last_text :: "(string \<Rightarrow> string) \<Rightarrow> string \<Rightarrow> json list \<Rightarrow> json list res" where
  \<comment> \<open>the last item is changed when it is a text; otherwise a text is added\<close>
  "on_last_text f s xs =
     (if xs = [] then Inr [text_json s]
      else bind_res (is_text_json (last xs)) (\<lambda>b.
        if b then bind_res (with_json_text f (last xs)) (\<lambda>x. Inr (butlast xs @ [x]))
        else Inr (xs @ [text_json s])))"

fun on_first_text :: "(string \<Rightarrow> string) \<Rightarrow> json list \<Rightarrow> json list option res" where
  \<comment> \<open>the first item that is a text is changed; \<open>None\<close> when there is none\<close>
  "on_first_text f [] = Inr None"
| "on_first_text f (x # xs) = bind_res (is_text_json x) (\<lambda>b.
     if b then bind_res (with_json_text f x) (\<lambda>y. Inr (Some (y # xs)))
     else bind_res (on_first_text f xs) (\<lambda>r. Inr (map_option (Cons x) r)))"

definition chat :: "string \<Rightarrow> json \<Rightarrow> dict" where
  "chat role content = [(''role'', JStr role), (''content'', content)]"

definition is_conversion_error :: "py_error \<Rightarrow> bool" where
  "is_conversion_error err = (case err of OtherError nm _ \<Rightarrow> nm = ''FunctionCallConversionError'' | _ \<Rightarrow> False)"

definition bad_content :: py_error where
  "bad_content = conversion_error ''Unexpected content type''"

definition system_to_text :: "string \<Rightarrow> json \<Rightarrow> dict res" where
  "system_to_text sfx content = (case content of
       JStr s \<Rightarrow> Inr (chat ''system'' (JStr (s @ sfx)))
     | JList xs \<Rightarrow> bind_res (on_last_text (\<lambda>s. s @ sfx) sfx xs) (\<lambda>ys. Inr (chat ''system'' (JList ys)))
     | _ \<Rightarrow> Inl bad_content)"

definition with_example :: "string \<Rightarrow> json \<Rightarrow> json res" where
  "with_example example content = (case content of
       JStr s \<Rightarrow> Inr (JStr (example @ s @ IN_CONTEXT_LEARNING_EXAMPLE_SUFFIX))
     | JList [] \<Rightarrow> Inr (JList [text_json example, text_json IN_CONTEXT_LEARNING_EXAMPLE_SUFFIX])
     | JList (x # xs) \<Rightarrow> bind_res (is_text_json x) (\<lambda>b.
         if b then bind_res (with_json_text (\<lambda>s. example @ s @ IN_CONTEXT_LEARNING_EXAMPLE_SUFFIX) x) (\<lambda>y. Inr (JList (y # xs)))
         else Inr (JList (text_json example # x # xs @ [text_json IN_CONTEXT_LEARNING_EXAMPLE_SUFFIX])))
     | _ \<Rightarrow> Inl bad_content)"

definition user_to_text :: "string \<Rightarrow> bool \<Rightarrow> json \<Rightarrow> dict res" where
  \<comment> \<open>the flag says that this message gets the example\<close>
  "user_to_text example first content =
     bind_res (if first \<and> example \<noteq> [] then with_example example content else Inr content) (\<lambda>c. Inr (chat ''user'' c))"

definition assistant_to_text :: "conv_env \<Rightarrow> json option \<Rightarrow> json \<Rightarrow> dict res" where
  "assistant_to_text E tool_calls content = (case tool_calls of
       None \<Rightarrow> Inr (chat ''assistant'' content)
     | Some JNull \<Rightarrow> Inr (chat ''assistant'' content)
     | Some (JList [tc]) \<Rightarrow>
         (case convert_tool_call_to_string E tc of
            Inl err \<Rightarrow> Inl (if is_conversion_error err then conversion_error ''Failed to convert tool call to string.'' else err)
          | Inr tool_content \<Rightarrow> (case content of
                JStr s \<Rightarrow> Inr (chat ''assistant'' (JStr (py_lstrip (s @ [nl, nl] @ tool_content))))
              | JList xs \<Rightarrow> bind_res (on_last_text (\<lambda>s. py_lstrip (s @ [nl, nl] @ tool_content)) tool_content xs) (\<lambda>ys.
                  Inr (chat ''assistant'' (JList ys)))
              | _ \<Rightarrow> Inl bad_content))
     | Some (JList _) \<Rightarrow> Inl (conversion_error ''Expected exactly one tool call in the message.'')
     | Some _ \<Rightarrow> Inl ill_typed)"

definition with_cache_mark :: "json \<Rightarrow> json res" where
  "with_cache_mark j = bind_res (as_dict j) (\<lambda>d. Inr (JObj (d_set ''cache_control'' (JObj [(''type'', JStr ''ephemeral'')]) d)))"

definition tool_to_text :: "json \<Rightarrow> bool \<Rightarrow> json \<Rightarrow> dict res" where
  \<comment> \<open>the name of the tool, and whether the message carries a cache mark\<close>
  "tool_to_text nm cached content =
     (let heading = ''EXECUTION RESULT of ['' @ py_str nm @ '']:'' @ [nl] in
      bind_res
       (case content of
          JStr s \<Rightarrow> Inr (JStr (heading @ s))
        | JList xs \<Rightarrow> bind_res (on_first_text (\<lambda>s. heading @ s) xs) (\<lambda>r. Inr (JList
            (case r of Some ys \<Rightarrow> ys | None \<Rightarrow> text_json heading # xs)))
        | _ \<Rightarrow> Inl bad_content) (\<lambda>c.
      bind_res
       (if \<not> cached then Inr c
        else case c of
          JList ys \<Rightarrow> bind_res (with_cache_mark (last ys)) (\<lambda>y. Inr (JList (butlast ys @ [y])))
        | _ \<Rightarrow> Inl (TypeError '''str' object does not support item assignment'')) (\<lambda>c.
      Inr (chat ''user'' c))))"

fun messages_to_text :: "conv_env \<Rightarrow> string \<Rightarrow> string \<Rightarrow> bool \<Rightarrow> dict list \<Rightarrow> dict list res" where
  \<comment> \<open>the suffix of the system prompt, the example, and whether the example is still to be given\<close>
  "messages_to_text E sfx example first [] = Inr []"
| "messages_to_text E sfx example first (m # ms) =
     bind_res (a_item ''role'' (JObj m)) (\<lambda>role. bind_res (a_item ''content'' (JObj m)) (\<lambda>content.
     bind_res
       (if role = JStr ''system'' then system_to_text sfx content
        else if role = JStr ''user'' then user_to_text example first content
        else if role = JStr ''assistant'' then assistant_to_text E (d_get m ''tool_calls'') content
        else if role = JStr ''tool'' then tool_to_text (case d_get m ''name'' of None \<Rightarrow> JStr ''function'' | Some j \<Rightarrow> j)
          (d_has m ''cache_control'') content
        else Inl (conversion_error ''Unexpected role'')) (\<lambda>d.
     bind_res (messages_to_text E sfx example (first \<and> role \<noteq> JStr ''user'') ms) (\<lambda>ds. Inr (d # ds)))))"

definition convert_fncall_messages_to_non_fncall_messages ::
  "conv_env \<Rightarrow> dict list \<Rightarrow> tool_spec list \<Rightarrow> bool \<Rightarrow> dict list res" where
  "convert_fncall_messages_to_non_fncall_messages E messages tools add_in_context_learning_example =
     bind_res (convert_tools_to_description tools) (\<lambda>d.
       messages_to_text E (SYSTEM_PROMPT_SUFFIX_TEMPLATE d) (get_example_for_tools E tools) add_in_context_learning_example messages)"

section \<open>Patterns\<close>

text \<open>
  The regular expressions of the module. Their names run to the next closing bracket and their bodies are as short as
  possible, so a match at a position is determined: it is found without backtracking.
\<close>

definition tag_at :: "string \<Rightarrow> string \<Rightarrow> (string \<times> string) option" where
  \<comment> \<open>an opening tag with a name at the start of a text: the name and the rest\<close>
  "tag_at opening s =
     (if \<not> py_startswith s opening then None
      else let t = drop (length opening) s; nm = takeWhile (\<lambda>c. c \<noteq> CHR ''>'') t; rest = dropWhile (\<lambda>c. c \<noteq> CHR ''>'') t
           in if nm = [] \<or> rest = [] then None else Some (nm, tl rest))"

definition fn_at :: "string \<Rightarrow> (string \<times> string) option" where
  \<comment> \<open>\<open>FN_REGEX_PATTERN\<close> at the start of a text: the groups\<close>
  "fn_at s = (case tag_at ''<function='' s of
       Some (nm, c # t) \<Rightarrow> if c = nl then map_option (\<lambda>(a, b). (nm, a)) (py_partition t ''</function>'') else None
     | _ \<Rightarrow> None)"

fun search_first :: "(string \<Rightarrow> 'a option) \<Rightarrow> string \<Rightarrow> 'a option" where
  \<comment> \<open>\<open>re.search\<close> for a pattern that never matches the empty text\<close>
  "search_first p [] = None"
| "search_first p (c # s) = (case p (c # s) of Some r \<Rightarrow> Some r | None \<Rightarrow> search_first p s)"

definition param_at :: "string \<Rightarrow> ((string \<times> string) \<times> string) option" where
  \<comment> \<open>\<open>FN_PARAM_REGEX_PATTERN\<close> at the start of a text: the groups, and what follows the match\<close>
  "param_at s = (case tag_at ''<parameter='' s of
       Some (nm, t) \<Rightarrow> map_option (\<lambda>(a, b). ((nm, a), b)) (py_partition t ''</parameter>'')
     | None \<Rightarrow> None)"

lemma tag_at_shorter: "tag_at opening s = Some (nm, t) \<Longrightarrow> length t < length s"
proof -
  assume tag: "tag_at opening s = Some (nm, t)"
  let ?t = "drop (length opening) s"
  from tag have "t = tl (dropWhile (\<lambda>c. c \<noteq> CHR ''>'') ?t)" and ne: "dropWhile (\<lambda>c. c \<noteq> CHR ''>'') ?t \<noteq> []"
    by (auto simp: tag_at_def Let_def split: if_splits)
  then have "length t < length (dropWhile (\<lambda>c. c \<noteq> CHR ''>'') ?t)" by simp
  also have "\<dots> \<le> length ?t" by (rule length_dropWhile_le)
  also have "\<dots> \<le> length s" by simp
  finally show ?thesis .
qed

lemma param_at_shorter: "param_at s = Some (x, t) \<Longrightarrow> length t < length s"
  by (auto simp: param_at_def split: option.splits prod.splits dest!: tag_at_shorter py_partition_eq)

function find_params :: "string \<Rightarrow> (string \<times> string) list" where
  \<comment> \<open>\<open>re.finditer(FN_PARAM_REGEX_PATTERN, s)\<close>\<close>
  "find_params s = (case s of
       [] \<Rightarrow> []
     | c # cs \<Rightarrow> (case param_at s of Some (x, t) \<Rightarrow> x # find_params t | None \<Rightarrow> find_params cs))"
  by pat_completeness auto
termination by (relation "measure length") (auto dest: param_at_shorter)

declare find_params.simps [simp del]

definition tool_result_at :: "string \<Rightarrow> (string \<times> string) option" where
  \<comment> \<open>\<open>TOOL_RESULT_REGEX_PATTERN\<close> at the start of a text\<close>
  "tool_result_at s = (if py_startswith s ''EXECUTION RESULT of [''
     then py_partition (drop (length ''EXECUTION RESULT of ['') s) ('']:'' @ [nl]) else None)"

definition word_char :: "char \<Rightarrow> bool" where
  "word_char c = (c \<in> set ''ABCDEFGHIJKLMNOPQRSTUVWXYZabcdefghijklmnopqrstuvwxyz0123456789_'')"

definition malformed_at :: "string \<Rightarrow> (string \<times> string) option" where
  \<comment> \<open>a malformed parameter at the start of a text: what it becomes, and what follows it\<close>
  "malformed_at s =
     (if \<not> py_startswith s ''<parameter='' then None
      else let t = drop (length ''<parameter='') s; nm = takeWhile word_char t; rest = dropWhile word_char t in
        if nm = [] \<or> \<not> py_startswith rest ''='' then None
        else let v = takeWhile (\<lambda>c. c \<noteq> CHR ''<'') (tl rest); after = dropWhile (\<lambda>c. c \<noteq> CHR ''<'') (tl rest) in
          if \<not> py_startswith after ''</parameter>'' then None
          else Some (''<parameter='' @ nm @ ''>'' @ v @ ''</parameter>'', drop (length ''</parameter>'') after))"

lemma malformed_at_shorter: "malformed_at s = Some (x, t) \<Longrightarrow> length t < length s"
proof -
  assume m: "malformed_at s = Some (x, t)"
  let ?t = "drop (length ''<parameter='') s"
  let ?rest = "dropWhile word_char ?t"
  let ?after = "dropWhile (\<lambda>c. c \<noteq> CHR ''<'') (tl ?rest)"
  from m have t: "t = drop (length ''</parameter>'') ?after" and eq: "py_startswith ?rest ''=''"
    by (auto simp: malformed_at_def Let_def split: if_splits)
  from startswith_nonempty [OF eq] have ne: "?rest \<noteq> []" by simp
  have "length t \<le> length ?after" by (simp add: t)
  also have "\<dots> \<le> length (tl ?rest)" by (rule length_dropWhile_le)
  also have "\<dots> < length ?rest" using ne by simp
  also have "\<dots> \<le> length ?t" by (rule length_dropWhile_le)
  also have "\<dots> \<le> length s" by simp
  finally show ?thesis .
qed

function normalize_parameter_tags :: "string \<Rightarrow> string" where
  "normalize_parameter_tags s = (case s of
       [] \<Rightarrow> []
     | c # cs \<Rightarrow> (case malformed_at s of Some (x, t) \<Rightarrow> x @ normalize_parameter_tags t | None \<Rightarrow> c # normalize_parameter_tags cs))"
  by pat_completeness auto
termination by (relation "measure length") (auto dest: malformed_at_shorter)

declare normalize_parameter_tags.simps [simp del]

definition fix_stopword :: "string \<Rightarrow> string" where
  "fix_stopword content =
     (if occurs_once content ''<function=''
      then if py_endswith content ''</'' then py_rstrip content @ ''function>'' else content @ [nl] @ ''</function>''
      else content)"

section \<open>Parameters\<close>

definition in_quotes :: "string \<Rightarrow> string" where "in_quotes s = CHR 0x27 # s @ [CHR 0x27]"

definition validation_failure :: "string \<Rightarrow> py_error" where
  "validation_failure s = FunctionCallValidationError s"

definition converted_value :: "conv_env \<Rightarrow> string \<Rightarrow> string option \<Rightarrow> string \<Rightarrow> json res" where
  \<comment> \<open>the second option is the type of the parameter\<close>
  "converted_value E param_name ty v =
     (if ty = Some ''integer'' then (case py_int v of
          Some i \<Rightarrow> Inr (JInt i)
        | None \<Rightarrow> Inl (validation_failure (''Parameter '' @ in_quotes param_name @ '' is expected to be an integer.'')))
      else if ty = Some ''array'' then (case ce_loads E v of
          Some j \<Rightarrow> Inr j
        | None \<Rightarrow> Inl (validation_failure (''Parameter '' @ in_quotes param_name @ '' is expected to be an array.'')))
      else Inr (JStr v))"

definition declared :: "tool_spec \<Rightarrow> (string \<times> param_info) list" where
  \<comment> \<open>the properties of the tool, or none\<close>
  "declared t = (case td_parameters t of None \<Rightarrow> []
     | Some ps \<Rightarrow> (case tp_properties ps of None \<Rightarrow> [] | Some x \<Rightarrow> x))"

definition required :: "tool_spec \<Rightarrow> string list" where
  "required t = (case td_parameters t of None \<Rightarrow> []
     | Some ps \<Rightarrow> (case tp_required ps of None \<Rightarrow> [] | Some x \<Rightarrow> x))"

definition info_of :: "tool_spec \<Rightarrow> string \<Rightarrow> param_info res" where
  \<comment> \<open>\<open>matching_tool['parameters']['properties'][param_name]\<close>\<close>
  "info_of t param_name = (case td_parameters t of
       None \<Rightarrow> Inl (KeyError ''parameters'')
     | Some ps \<Rightarrow> (case tp_properties ps of
         None \<Rightarrow> Inl (KeyError ''properties'')
       | Some props \<Rightarrow> (case d_get props param_name of None \<Rightarrow> Inl (KeyError param_name) | Some i \<Rightarrow> Inr i)))"

definition type_of_param :: "param_info \<Rightarrow> string" where
  "type_of_param i = (case pi_type i of None \<Rightarrow> ''string'' | Some t \<Rightarrow> t)"

definition checked_param :: "conv_env \<Rightarrow> tool_spec \<Rightarrow> string \<Rightarrow> string \<times> string \<Rightarrow> (string \<times> json) res" where
  "checked_param E t fn_name = (\<lambda>(param_name, param_value).
     if declared t \<noteq> [] \<and> \<not> d_has (declared t) param_name
     then Inl (validation_failure (''Parameter '' @ in_quotes param_name @ '' is not allowed for function '' @ in_quotes fn_name))
     else bind_res (converted_value E param_name (map_option type_of_param (d_get (declared t) param_name)) param_value) (\<lambda>v.
       bind_res (info_of t param_name) (\<lambda>info. case pi_enum info of
           None \<Rightarrow> Inr (param_name, v)
         | Some allowed \<Rightarrow>
             if list_ex (py_eq v) allowed then Inr (param_name, v)
             else Inl (validation_failure (''Parameter '' @ in_quotes param_name @ '' is expected to be one of ''
               @ py_repr (JList allowed) @ ''.'')))))"

definition extract_and_validate_params :: "conv_env \<Rightarrow> tool_spec \<Rightarrow> (string \<times> string) list \<Rightarrow> string \<Rightarrow> dict res" where
  "extract_and_validate_params E t param_matches fn_name =
     bind_res (map_res (checked_param E t fn_name) param_matches) (\<lambda>found.
       if list_all (\<lambda>k. k \<in> set (map fst found)) (required t) then Inr (d_update [] found)
       else Inl (validation_failure (''Missing required parameters for function '' @ in_quotes fn_name)))"

section \<open>From text to calls\<close>

definition two_digits :: "nat \<Rightarrow> string" where
  "two_digits n = (if n < 10 then ''0'' else []) @ str_of_nat n"

definition call_id :: "nat \<Rightarrow> string" where "call_id n = ''toolu_'' @ two_digits n"

definition without_example :: "string \<Rightarrow> string \<Rightarrow> string" where
  "without_example example s =
     (let s = (if py_startswith s example then remove_first s example else s)
      in if py_endswith s IN_CONTEXT_LEARNING_EXAMPLE_SUFFIX then remove_first s IN_CONTEXT_LEARNING_EXAMPLE_SUFFIX else s)"

definition or_empty :: "json \<Rightarrow> json" where
  \<comment> \<open>\<open>content or ''\<close>\<close>
  "or_empty j = (if py_truthy j then j else JStr [])"

definition system_from_text :: "string \<Rightarrow> json \<Rightarrow> dict res" where
  "system_from_text sfx content =
     bind_res (case content of
         JStr s \<Rightarrow> Inr (JStr (before s sfx))
       | JList xs \<Rightarrow> bind_res (is_text_json (last xs)) (\<lambda>b.
           if b then bind_res (with_json_text (\<lambda>s. before s sfx) (last xs)) (\<lambda>x. Inr (JList (butlast xs @ [x])))
           else Inr content)
       | _ \<Rightarrow> Inr content) (\<lambda>c. Inr (chat ''system'' c))"

definition cleaned_user :: "string \<Rightarrow> json \<Rightarrow> json res" where
  "cleaned_user example content = (case content of
       JStr s \<Rightarrow> Inr (JStr (without_example example s))
     | JList xs \<Rightarrow> bind_res (map_res (\<lambda>x. bind_res (is_text_json x) (\<lambda>b.
         if b then with_json_text (without_example example) x else Inr x)) xs) (\<lambda>ys. Inr (JList ys))
     | _ \<Rightarrow> Inl bad_content)"

definition has_text :: "json \<Rightarrow> bool res" where
  \<comment> \<open>\<open>item.get('type') == 'text'\<close>\<close>
  "has_text x = bind_res (a_get ''type'' JNull x) (\<lambda>t. Inr (t = JStr ''text''))"

fun first_match :: "(string \<Rightarrow> 'a option) \<Rightarrow> json list \<Rightarrow> 'a option res" where
  \<comment> \<open>the first text item in which the pattern is found\<close>
  "first_match p [] = Inr None"
| "first_match p (x # xs) = bind_res (has_text x) (\<lambda>b.
     if \<not> b then first_match p xs
     else bind_res (json_text x) (\<lambda>s. case search_first p s of Some r \<Rightarrow> Inr (Some r) | None \<Rightarrow> first_match p xs))"

definition tool_result_of :: "json \<Rightarrow> (string \<times> string) option res" where
  "tool_result_of content = (case content of
       JStr s \<Rightarrow> Inr (search_first tool_result_at s)
     | JList xs \<Rightarrow> first_match tool_result_at xs
     | _ \<Rightarrow> Inl bad_content)"

definition user_from_text :: "string \<Rightarrow> bool \<Rightarrow> nat \<Rightarrow> json \<Rightarrow> dict res" where
  \<comment> \<open>whether this is the first message of the user, and the number of the next call\<close>
  "user_from_text example first counter content =
     bind_res (if first then cleaned_user example content else Inr content) (\<lambda>c.
     bind_res (tool_result_of c) (\<lambda>found. case found of
         None \<Rightarrow> Inr (chat ''user'' c)
       | Some (tool_name, result) \<Rightarrow> Inr
           [(''role'', JStr ''tool''), (''name'', JStr tool_name),
            (''content'', (case c of JList _ \<Rightarrow> JList [text_json (py_strip result)] | _ \<Rightarrow> JStr (py_strip result))),
            (''tool_call_id'', JStr (call_id (counter - 1)))]))"

definition parsed_call :: "conv_env \<Rightarrow> tool_spec list \<Rightarrow> nat \<Rightarrow> string \<times> string \<Rightarrow> json res" where
  "parsed_call E tools counter = (\<lambda>(fn_name, body).
     case find (\<lambda>t. td_type t = ''function'' \<and> td_name t = fn_name) tools of
       None \<Rightarrow> Inl (validation_failure (''Function '' @ in_quotes fn_name @ '' not found in available tools: ''
         @ py_repr (JList (map (JStr \<circ> td_name) (filter (\<lambda>t. td_type t = ''function'') tools)))))
     | Some t \<Rightarrow>
         bind_res (extract_and_validate_params E t (find_params (normalize_parameter_tags body)) fn_name) (\<lambda>params.
         Inr (JObj [(''index'', JInt 1), (''id'', JStr (call_id counter)), (''type'', JStr ''function''),
           (''function'', JObj [(''name'', JStr fn_name), (''arguments'', JStr (json_dumps (JObj params)))])])))"

definition spoken :: "string \<Rightarrow> string" where
  \<comment> \<open>what a message says before its call\<close>
  "spoken s = py_strip (before s ''<function='')"

definition with_calls :: "json \<Rightarrow> json \<Rightarrow> dict" where
  "with_calls content call = chat ''assistant'' content @ [(''tool_calls'', JList [call])]"

definition assistant_from_text :: "conv_env \<Rightarrow> tool_spec list \<Rightarrow> nat \<Rightarrow> dict \<Rightarrow> json \<Rightarrow> (dict \<times> bool) res" where
  \<comment> \<open>the message, and whether it has a call\<close>
  "assistant_from_text E tools counter m content = (case content of
       JStr s \<Rightarrow>
         let s = fix_stopword s in
         (case search_first fn_at s of
            None \<Rightarrow> Inr (m, False)
          | Some r \<Rightarrow> bind_res (parsed_call E tools counter r) (\<lambda>call. Inr (with_calls (JStr (spoken s)) call, True)))
     | JList xs \<Rightarrow>
         bind_res (is_text_json (last xs)) (\<lambda>b.
         bind_res (if b then with_json_text fix_stopword (last xs) else Inr (last xs)) (\<lambda>x.
         bind_res (if b then bind_res (json_text x) (\<lambda>s. Inr (search_first fn_at s)) else Inr None) (\<lambda>fn_match.
         bind_res (first_match fn_at (butlast xs @ [x])) (\<lambda>found.
           case fn_match of
             None \<Rightarrow>
               if found \<noteq> None then Inl (conversion_error ''Expecting function call in the LAST index of content list.'')
               else Inr (d_set ''content'' (JList (butlast xs @ [x])) m, False)
           | Some r \<Rightarrow>
               bind_res (parsed_call E tools counter r) (\<lambda>call.
               bind_res (with_json_text spoken x) (\<lambda>y. Inr (with_calls (JList (butlast xs @ [y])) call, True)))))))
     | _ \<Rightarrow> Inl bad_content)"

fun messages_from_text :: "conv_env \<Rightarrow> tool_spec list \<Rightarrow> string \<Rightarrow> string \<Rightarrow> bool \<Rightarrow> nat \<Rightarrow> dict list \<Rightarrow> dict list res" where
  "messages_from_text E tools sfx example first counter [] = Inr []"
| "messages_from_text E tools sfx example first counter (m # ms) =
     bind_res (a_item ''role'' (JObj m)) (\<lambda>role. bind_res (a_item ''content'' (JObj m)) (\<lambda>content.
     bind_res
       (if role = JStr ''system'' then bind_res (system_from_text sfx (or_empty content)) (\<lambda>d. Inr (d, False))
        else if role = JStr ''user'' then bind_res (user_from_text example first counter (or_empty content)) (\<lambda>d. Inr (d, False))
        else if role = JStr ''assistant'' then assistant_from_text E tools counter m (or_empty content)
        else Inl (conversion_error ''Unexpected role'')) (\<lambda>(d, called).
     bind_res (messages_from_text E tools sfx example (first \<and> role \<noteq> JStr ''user'') (if called then counter + 1 else counter) ms) (\<lambda>ds.
     Inr (d # ds)))))"

definition convert_non_fncall_messages_to_fncall_messages :: "conv_env \<Rightarrow> dict list \<Rightarrow> tool_spec list \<Rightarrow> dict list res" where
  "convert_non_fncall_messages_to_fncall_messages E messages tools =
     bind_res (convert_tools_to_description tools) (\<lambda>d.
       messages_from_text E tools (SYSTEM_PROMPT_SUFFIX_TEMPLATE d) (get_example_for_tools E tools) True 1 messages)"

section \<open>One call per message\<close>

definition several_calls :: "dict \<Rightarrow> json list res" where
  \<comment> \<open>the calls of a message that has more than one\<close>
  "several_calls m = (case d_get m ''tool_calls'' of
       None \<Rightarrow> Inr []
     | Some j \<Rightarrow> if \<not> py_truthy j then Inr [] else (case j of JList xs \<Rightarrow> Inr (if 1 < length xs then xs else []) | _ \<Rightarrow> Inl ill_typed))"

fun split_message :: "json \<Rightarrow> json list \<Rightarrow> (string \<times> dict) list \<Rightarrow> (string \<times> dict) list res" where
  \<comment> \<open>the messages for the calls are added to the pending ones; the first keeps the content\<close>
  "split_message content [] pending = Inr pending"
| "split_message content (tc # tcs) pending =
     bind_res (a_item ''id'' tc) (\<lambda>i. bind_res (as_str i) (\<lambda>i.
       split_message (JStr []) tcs (d_set i (chat ''assistant'' content @ [(''tool_calls'', JList [tc])]) pending)))"

fun split_loop :: "dict list \<Rightarrow> (string \<times> dict) list \<Rightarrow> ((string \<times> dict) list \<times> dict list) res" where
  "split_loop [] pending = Inr (pending, [])"
| "split_loop (m # ms) pending =
     bind_res (a_item ''role'' (JObj m)) (\<lambda>role. bind_res (a_item ''content'' (JObj m)) (\<lambda>content.
     bind_res
       (if role = JStr ''assistant'' then
          bind_res (several_calls m) (\<lambda>tcs.
            if tcs \<noteq> [] then bind_res (split_message content tcs pending) (\<lambda>p. Inr (p, []))
            else Inr (pending, [m]))
        else if role = JStr ''tool'' then
          bind_res (a_item ''tool_call_id'' (JObj m)) (\<lambda>i. bind_res (as_str i) (\<lambda>i.
            case d_get pending i of
              Some call \<Rightarrow> Inr (d_del i pending, [call, m])
            | None \<Rightarrow> if pending = [] then Inr (pending, [m]) else Inl AssertionError))
        else if pending = [] then Inr (pending, [m]) else Inl AssertionError) (\<lambda>(pending, out).
     bind_res (split_loop ms pending) (\<lambda>(pending, rest). Inr (pending, out @ rest)))))"

definition convert_from_multiple_tool_calls_to_single_tool_call_messages :: "dict list \<Rightarrow> bool \<Rightarrow> dict list res" where
  "convert_from_multiple_tool_calls_to_single_tool_call_messages messages ignore_final_tool_result =
     bind_res (split_loop messages []) (\<lambda>(pending, out).
       if \<not> ignore_final_tool_result \<and> pending \<noteq> []
       then Inl (conversion_error ''Found pending tool calls but no tool result'') else Inr out)"

section \<open>A completion with mocked calls\<close>

text \<open>
  The part of \<open>LLM.completion\<close> (\<open>openhands/llm/llm.py\<close>) around the call of the model when calls of tools are mocked by a
  prompt. The model is a function of the texts and the stop words; it gives the messages of its choices.
\<close>

record mock_config =
  mc_model :: string
  mc_supports_stop_words :: bool
  mc_disable_stop_word :: bool

definition adds_example :: "mock_config \<Rightarrow> bool" where
  "adds_example C = (\<not> (py_contains (mc_model C) ''openhands-lm'' \<or> py_contains (mc_model C) ''devstral''))"

definition stop_words_of :: "mock_config \<Rightarrow> string list option" where
  "stop_words_of C = (if mc_supports_stop_words C \<and> \<not> mc_disable_stop_word C then Some STOP_WORDS else None)"

definition mocked_completion ::
  "conv_env \<Rightarrow> mock_config \<Rightarrow> (dict list \<Rightarrow> string list option \<Rightarrow> dict list) \<Rightarrow> dict list \<Rightarrow> tool_spec list \<Rightarrow> dict res" where
  "mocked_completion E C llm messages tools =
     bind_res (convert_fncall_messages_to_non_fncall_messages E messages tools (adds_example C)) (\<lambda>texts.
       if texts = [] then Inl (ValueError ''The messages list is empty. At least one message is required.'')
       else case llm texts (stop_words_of C) of
         [] \<Rightarrow> Inl (OtherError ''LLMNoResponseError'' ''Response choices is less than 1'')
       | m # _ \<Rightarrow> bind_res (convert_non_fncall_messages_to_fncall_messages E (texts @ [m]) tools) (\<lambda>ms. Inr (last ms)))"

end
