(* ===== verification/FnCallLaws.thy ===== *)
theory FnCallLaws
  imports FnCallConverter
begin

text \<open>
  Calls survive their trip through plain text: the text of a call is parsed back to the call, also when the model was cut at
  the stop word, and a prompt that is turned into text and back is the prompt, with the calls numbered anew.
\<close>

section \<open>Searching\<close>

lemma search_quiet:
  assumes "\<And>s. \<not> py_startswith s p \<Longrightarrow> f s = None"
  shows "quiet p w t \<Longrightarrow> search_first f (w @ t) = search_first f t"
  using assms by (induction w) auto

lemma search_none:
  assumes "\<And>s. \<not> py_startswith s p \<Longrightarrow> f s = None" and "\<not> py_contains s p"
  shows "search_first f s = None"
  using assms(2) by (induction s) (auto simp: assms(1))

lemma tag_at_start: "py_startswith s opening \<or> tag_at opening s = None"
  by (simp add: tag_at_def)

lemma fn_at_start: "\<not> py_startswith s ''<function='' \<Longrightarrow> fn_at s = None"
  by (simp add: fn_at_def tag_at_def)

lemma param_at_start: "\<not> py_startswith s ''<parameter='' \<Longrightarrow> param_at s = None"
  by (simp add: param_at_def tag_at_def)

lemma malformed_at_start: "\<not> py_startswith s ''<parameter='' \<Longrightarrow> malformed_at s = None"
  by (simp add: malformed_at_def)

lemma tool_result_at_start: "\<not> py_startswith s ''EXECUTION RESULT of ['' \<Longrightarrow> tool_result_at s = None"
  by (simp add: tool_result_at_def)

lemma find_params_quiet: "quiet ''<parameter='' w t \<Longrightarrow> find_params (w @ t) = find_params t"
  by (induction w) (simp_all add: find_params.simps [of "_ # _"] param_at_start)

lemma normalize_quiet: "quiet ''<parameter='' w t \<Longrightarrow> normalize_parameter_tags (w @ t) = w @ normalize_parameter_tags t"
  by (induction w) (simp_all add: normalize_parameter_tags.simps [of "_ # _"] malformed_at_start)

lemma find_params_Nil [simp]: "find_params [] = []" "normalize_parameter_tags [] = []"
  by (simp_all add: find_params.simps normalize_parameter_tags.simps)

lemma tag_at_tag:
  assumes "nm \<noteq> []" and "CHR ''>'' \<notin> set nm"
  shows "tag_at opening (opening @ nm @ CHR ''>'' # t) = Some (nm, t)"
proof -
  have "takeWhile (\<lambda>c. c \<noteq> CHR ''>'') (nm @ CHR ''>'' # t) = nm" "dropWhile (\<lambda>c. c \<noteq> CHR ''>'') (nm @ CHR ''>'' # t) = CHR ''>'' # t"
    using assms(2) by (simp_all add: takeWhile_append dropWhile_append)
  with assms(1) show ?thesis by (simp add: tag_at_def startswith_append)
qed

section \<open>The text of a call\<close>

definition clean_name :: "string \<Rightarrow> bool" where
  "clean_name nm = (nm \<noteq> [] \<and> list_all (\<lambda>c. c \<noteq> CHR ''<'' \<and> c \<noteq> CHR ''>'' \<and> c \<noteq> CHR ''='') nm)"

definition tags :: "string list" where
  "tags = [''<parameter='', ''</parameter>'', ''<function='', ''</function>'']"

definition clean_text :: "string \<Rightarrow> bool" where
  "clean_text s = list_all (\<lambda>p. \<not> py_contains s p) tags"

definition clean_args :: "dict \<Rightarrow> bool" where
  "clean_args args = list_all (\<lambda>(k, v). clean_name k \<and> clean_text (shown_value v)) args"

definition inner :: "json \<Rightarrow> string" where
  "inner v = (if multiline v then nl # shown_value v @ [nl] else shown_value v)"

lemma param_text_eq: "param_text (k, v) = ''<parameter='' @ k @ CHR ''>'' # inner v @ ''</parameter>'' @ [nl]"
  by (simp add: param_text_def inner_def Let_def)

lemma clean_name_facts:
  assumes "clean_name nm"
  shows "nm \<noteq> []" "CHR ''<'' \<notin> set nm" "CHR ''>'' \<notin> set nm" "CHR ''='' \<notin> set nm"
  using assms by (auto simp: clean_name_def list_all_iff)

lemma nl_neq [simp]: "nl \<noteq> CHR ''<''" "nl \<noteq> CHR ''>''" "nl \<noteq> CHR ''=''" "nl \<notin> set (tl p) \<or> p \<notin> set tags"
  by (auto simp: nl_def tags_def)

lemma tags_shape: "p \<in> set tags \<Longrightarrow> p = CHR ''<'' # tl p \<and> CHR ''<'' \<notin> set (tl p)"
  by (auto simp: tags_def)

lemma inner_quiet:
  assumes "p \<in> set tags" and "clean_text (shown_value v)"
  shows "quiet p (inner v) (''</parameter>'' @ t)"
proof -
  from tags_shape [OF assms(1)] have p: "p = CHR ''<'' # tl p" "CHR ''<'' \<notin> set (tl p)" by simp_all
  have free: "\<not> py_contains (shown_value v) p" using assms by (auto simp: clean_text_def list_all_iff)
  have "hd p = CHR ''<''" "p \<noteq> []" using p(1) by (metis list.sel(1), metis list.distinct(1))
  then have nl: "quiet p [nl] u" for u by (intro quiet_char) (simp_all add: nl_def)
  have "quiet p (shown_value v) (nl # u)" for u using quiet_free [OF p(1) _ free] nl_neq(4) [of p] assms(1) by simp
  moreover have "quiet p (shown_value v) (''</parameter>'' @ t)" using quiet_free [OF p(1) _ free] p(2) by simp
  ultimately show ?thesis
    using quiet_append [of p "[nl]" "shown_value v @ [nl]"] nl quiet_append [of p "shown_value v" "[nl]"]
    by (simp add: inner_def)
qed

lemma name_quiet:
  assumes "p \<in> set tags" and "clean_name nm"
  shows "quiet p nm t" "quiet p (nm @ w) t = quiet p w t"
proof -
  show q: "quiet p nm u" for u
    using tags_shape [OF assms(1)] clean_name_facts(2) [OF assms(2)] by (intro quiet_char) (metis list.sel(1), blast)
  then show "quiet p (nm @ w) t = quiet p w t" by (simp add: quiet_append)
qed

lemma params_quiet:
  assumes "p = ''<function='' \<or> p = ''</function>''" and "clean_args args"
  shows "quiet p (concat (map param_text args)) t"
  using assms(2)
proof (induction args)
  case (Cons kv args)
  obtain k v where kv: "kv = (k, v)" by (cases kv)
  with Cons.prems have clean: "clean_name k" "clean_text (shown_value v)" and rest: "clean_args args" by (simp_all add: clean_args_def)
  have tag: "p \<in> set tags" using assms(1) by (auto simp: tags_def)
  have opens: "quiet p ''<parameter='' u" and closing: "quiet p (''</parameter>'' @ [nl]) u" and bracket: "quiet p ''>'' u" for u
    using assms(1) by (auto simp: py_startswith_def)
  have "quiet p (param_text kv) u" for u
    using opens name_quiet(2) [OF tag clean(1), of "CHR ''>'' # inner v @ ''</parameter>'' @ [nl]"] bracket closing
      inner_quiet [OF tag clean(2), of "nl # u"]
      quiet_append [of p "''<parameter=''"] quiet_append [of p "''>''"] quiet_append [of p "inner v"]
    by (simp add: kv param_text_eq)
  with Cons.IH [OF rest] show ?case by (simp add: quiet_append)
qed simp

text \<open>The parameters are found again, each with the text between its tags.\<close>

lemma param_at_text:
  assumes "clean_name k" and "clean_text (shown_value v)"
  shows "param_at (param_text (k, v) @ t) = Some ((k, inner v), nl # t)"
proof -
  note k = clean_name_facts [OF assms(1)]
  have "quiet ''</parameter>'' (inner v) (''</parameter>'' @ nl # t)" by (rule inner_quiet [OF _ assms(2)]) (simp add: tags_def)
  from partition_quiet [OF this] tag_at_tag [OF k(1,3), of "''<parameter=''" "inner v @ ''</parameter>'' @ nl # t"]
  show ?thesis by (simp add: param_at_def param_text_eq)
qed

lemma find_params_step: "param_at (c # s) = Some (x, t) \<Longrightarrow> find_params (c # s) = x # find_params t"
  by (simp add: find_params.simps [of "c # s"])

lemma find_params_nl: "find_params (nl # s) = find_params s"
  using find_params_quiet [of "[nl]" s] by (simp add: py_startswith_def nl_def)

lemma find_params_texts:
  "clean_args args \<Longrightarrow> find_params (concat (map param_text args) @ t) = map (\<lambda>(k, v). (k, inner v)) args @ find_params t"
proof (induction args)
  case (Cons kv args)
  obtain k v where kv: "kv = (k, v)" by (cases kv)
  with Cons.prems have clean: "clean_name k" "clean_text (shown_value v)" and rest: "clean_args args" by (simp_all add: clean_args_def)
  obtain c s where cs: "param_text (k, v) = c # s" by (simp add: param_text_eq)
  from param_at_text [OF clean, of "concat (map param_text args) @ t"]
  have "find_params (param_text (k, v) @ concat (map param_text args) @ t) = (k, inner v) # find_params (nl # concat (map param_text args) @ t)"
    unfolding cs append_Cons by (rule find_params_step)
  with Cons.IH [OF rest] show ?case by (simp add: kv find_params_nl)
qed simp

text \<open>The texts of the parameters are not malformed.\<close>

lemma not_malformed:
  assumes "clean_name k"
  shows "malformed_at (''<parameter='' @ k @ CHR ''>'' # t) = None"
proof -
  note k = clean_name_facts [OF assms]
  let ?t = "k @ CHR ''>'' # t"
  let ?rest = "dropWhile word_char ?t"
  have "?rest \<noteq> []" by (simp add: word_char_def)
  moreover have "hd ?rest \<noteq> CHR ''=''"
  proof (cases "list_all word_char k")
    case True
    then show ?thesis by (simp add: list_all_iff dropWhile_append word_char_def)
  next
    case False
    then have "dropWhile word_char k \<noteq> []" by (auto simp: list_all_iff dropWhile_eq_Nil_conv)
    moreover from this have "?rest = dropWhile word_char k @ CHR ''>'' # t" by (metis dropWhile_append1 dropWhile_eq_Nil_conv)
    ultimately show ?thesis using k(4) by (metis hd_append2 hd_in_set set_dropWhileD)
  qed
  ultimately have "\<not> py_startswith ?rest ''=''" by (cases ?rest) (simp_all add: py_startswith_def)
  then show ?thesis by (simp add: malformed_at_def)
qed

lemma normalize_texts:
  "clean_args args \<Longrightarrow> normalize_parameter_tags (concat (map param_text args) @ t) = concat (map param_text args) @ normalize_parameter_tags t"
proof (induction args)
  case (Cons kv args)
  obtain k v where kv: "kv = (k, v)" by (cases kv)
  with Cons.prems have clean: "clean_name k" "clean_text (shown_value v)" and rest: "clean_args args" by (simp_all add: clean_args_def)
  let ?p = "''<parameter=''"
  let ?u = "concat (map param_text args) @ t"
  have tag: "?p \<in> set tags" by (simp add: tags_def)
  have "quiet ?p (k @ CHR ''>'' # inner v @ ''</parameter>'' @ [nl]) ?u"
    using name_quiet(2) [OF tag clean(1)] quiet_append [of ?p "''>''"] quiet_append [of ?p "inner v"] inner_quiet [OF tag clean(2), of "nl # ?u"]
    by (simp add: py_startswith_def nl_def)
  moreover have "quiet ?p ''parameter='' u" for u by (intro quiet_char) simp_all
  ultimately have q: "quiet ?p (''parameter='' @ k @ CHR ''>'' # inner v @ ''</parameter>'' @ [nl]) ?u"
    using quiet_append [of ?p "''parameter=''"] by simp
  have "normalize_parameter_tags (CHR ''<'' # ''parameter='' @ k @ CHR ''>'' # inner v @ ''</parameter>'' @ nl # ?u)
      = CHR ''<'' # normalize_parameter_tags (''parameter='' @ k @ CHR ''>'' # inner v @ ''</parameter>'' @ nl # ?u)"
    using not_malformed [OF clean(1), of "inner v @ ''</parameter>'' @ nl # ?u"]
    by (simp add: normalize_parameter_tags.simps [of "CHR ''<'' # _"])
  also have "\<dots> = CHR ''<'' # ''parameter='' @ k @ CHR ''>'' # inner v @ ''</parameter>'' @ nl # normalize_parameter_tags ?u"
    using normalize_quiet [OF q] by simp
  finally show ?case using Cons.IH [OF rest] by (simp add: kv param_text_eq)
qed simp

text \<open>The call is found behind what the message says before it.\<close>

lemma fn_at_call:
  assumes "clean_name nm" and "quiet ''</function>'' body (''</function>'' @ t)"
  shows "fn_at (''<function='' @ nm @ CHR ''>'' # nl # body @ ''</function>'' @ t) = Some (nm, body)"
  using tag_at_tag [OF clean_name_facts(1,3) [OF assms(1)], of "''<function=''" "nl # body @ ''</function>'' @ t"]
    partition_quiet [OF assms(2)]
  by (simp add: fn_at_def)

lemma search_call:
  assumes "clean_name nm" and "quiet ''</function>'' body (''</function>'' @ t)" and "\<not> py_contains before_call ''<function=''"
  shows "search_first fn_at (before_call @ ''<function='' @ nm @ CHR ''>'' # nl # body @ ''</function>'' @ t) = Some (nm, body)"
proof -
  let ?s = "''<function='' @ nm @ CHR ''>'' # nl # body @ ''</function>'' @ t"
  have "quiet ''<function='' before_call ?s" by (rule quiet_free [of _ "CHR ''<''" "''function=''"]) (use assms(3) in simp_all)
  from search_quiet [of "''<function=''" fn_at, OF fn_at_start this] fn_at_call [OF assms(1,2)]
  show ?thesis by simp
qed

section \<open>The parameters of a call\<close>

text \<open>
  What a value is after its trip: an integer or a list stays what it is when the parameter is declared so; a string of one line
  stays what it is, one of several lines has a line break more at each end; any other value has become the text that shows it.
\<close>

definition carried_value :: "string \<Rightarrow> json \<Rightarrow> json" where
  "carried_value ty v = (case v of
       JInt i \<Rightarrow> if ty = ''integer'' then v else JStr (str_of_int i)
     | JList vs \<Rightarrow> if ty = ''array'' then v else JStr (json_dumps v)
     | JStr s \<Rightarrow> JStr (if nl \<in> set s then nl # s @ [nl] else s)
     | JObj d \<Rightarrow> JStr (json_dumps v)
     | _ \<Rightarrow> JStr (py_str v))"

definition carried_param :: "tool_spec \<Rightarrow> string \<times> json \<Rightarrow> string \<times> json" where
  "carried_param t = (\<lambda>(k, v). (k, carried_value (case d_get (declared t) k of None \<Rightarrow> ''string'' | Some info \<Rightarrow> type_of_param info) v))"

definition carried :: "tool_spec list \<Rightarrow> string \<Rightarrow> dict \<Rightarrow> dict" where
  "carried tools nm args = (case find (\<lambda>t. td_type t = ''function'' \<and> td_name t = nm) tools of
       None \<Rightarrow> args | Some t \<Rightarrow> map (carried_param t) args)"

text \<open>
  A value that the schema of the tool lets through: the parameter is declared, an integer or an array where one is declared, and a
  value that is restricted to some is one of them after the trip.
\<close>

definition fits :: "conv_env \<Rightarrow> tool_spec \<Rightarrow> string \<times> json \<Rightarrow> bool" where
  "fits E t = (\<lambda>(k, v). case info_of t k of
       Inl _ \<Rightarrow> False
     | Inr info \<Rightarrow>
         (type_of_param info = ''integer'' \<longrightarrow> (case v of JInt i \<Rightarrow> True | _ \<Rightarrow> False))
         \<and> (type_of_param info = ''array'' \<longrightarrow> (case v of JList vs \<Rightarrow> ce_loads E (json_dumps v) = Some v | _ \<Rightarrow> False))
         \<and> (case pi_enum info of None \<Rightarrow> True | Some allowed \<Rightarrow> list_ex (py_eq (carried_value (type_of_param info) v)) allowed))"

definition call_ok :: "conv_env \<Rightarrow> tool_spec list \<Rightarrow> string \<Rightarrow> dict \<Rightarrow> bool" where
  \<comment> \<open>a call of one of the tools, with all that it requires, none of whose texts looks like a tag of the format\<close>
  "call_ok E tools nm args =
     (clean_name nm \<and> clean_args args \<and> distinct (d_keys args) \<and> ce_loads E (json_dumps (JObj args)) = Some (JObj args)
      \<and> (case find (\<lambda>t. td_type t = ''function'' \<and> td_name t = nm) tools of
           None \<Rightarrow> False
         | Some t \<Rightarrow> list_all (fits E t) args \<and> list_all (d_has args) (required t)))"

lemma info_of_declared: "info_of t k = Inr info \<Longrightarrow> d_get (declared t) k = Some info"
  by (auto simp: info_of_def declared_def split: option.splits)

lemma checked_fits:
  assumes "fits E t (k, v)"
  shows "checked_param E t nm (k, inner v) = Inr (carried_param t (k, v))"
proof -
  from assms obtain info where info: "info_of t k = Inr info" by (auto simp: fits_def split: sum.splits)
  note decl = info_of_declared [OF info]
  then have has: "declared t \<noteq> []" "d_has (declared t) k" by (auto simp: d_has_def)
  have "converted_value E k (Some (type_of_param info)) (inner v) = Inr (carried_value (type_of_param info) v)"
    using assms info
    by (cases v) (auto simp: fits_def converted_value_def inner_def multiline_def shown_value_def py_str_def carried_value_def)
  with assms info decl has show ?thesis
    by (auto simp: checked_param_def carried_param_def fits_def split: option.splits)
qed

lemma carried_keys: "d_keys (map (carried_param t) args) = d_keys args"
  by (simp add: d_keys_def carried_param_def comp_def case_prod_beta)

lemma d_update_fresh: "distinct (d_keys (d @ e)) \<Longrightarrow> d_update d e = d @ e"
proof (induction e arbitrary: d)
  case (Cons kv e)
  obtain k v where kv: "kv = (k, v)" by (cases kv)
  with Cons.prems have "k \<notin> fst ` set d" by (auto simp: d_keys_def)
  then have "d_set k v d = d @ [kv]" unfolding d_set_def kv by (induction d) auto
  with Cons.IH [of "d @ [kv]"] Cons.prems show ?case by (simp add: d_update_def kv)
qed (simp add: d_update_def)

lemma extract_fitting:
  assumes "list_all (fits E t) args" and "distinct (d_keys args)" and "list_all (d_has args) (required t)"
  shows "extract_and_validate_params E t (map (\<lambda>(k, v). (k, inner v)) args) nm = Inr (map (carried_param t) args)"
proof -
  have "map_res (checked_param E t nm) (map (\<lambda>(k, v). (k, inner v)) args) = Inr (map (carried_param t) args)"
    using assms(1) checked_fits by (induction args) auto
  moreover have "list_all (\<lambda>k. k \<in> set (d_keys args)) (required t)"
    using assms(3) by (auto simp: list_all_iff d_has_keys)
  then have "list_all (\<lambda>k. k \<in> fst ` set (map (carried_param t) args)) (required t)"
    using carried_keys [of t args] unfolding d_keys_def by (metis list.set_map)
  moreover have "d_update [] (map (carried_param t) args) = map (carried_param t) args"
    using d_update_fresh [of "[]" "map (carried_param t) args"] assms(2) carried_keys [of t args] by simp
  ultimately show ?thesis unfolding extract_and_validate_params_def by (simp del: list.set_map)
qed

definition call_json :: "nat \<Rightarrow> string \<Rightarrow> dict \<Rightarrow> json" where
  "call_json n nm args = JObj [(''index'', JInt 1), (''id'', JStr (call_id n)), (''type'', JStr ''function''),
     (''function'', JObj [(''name'', JStr nm), (''arguments'', JStr (json_dumps (JObj args)))])]"

lemma parsed_ok:
  assumes "call_ok E tools nm args" and "t = [] \<or> t = [nl]"
  shows "parsed_call E tools n (nm, concat (map param_text args) @ t) = Inr (call_json n nm (carried tools nm args))"
proof -
  from assms(1) obtain tl where tl: "find (\<lambda>t. td_type t = ''function'' \<and> td_name t = nm) tools = Some tl"
    and fit: "list_all (fits E tl) args" "list_all (d_has args) (required tl)"
    and clean: "clean_args args" "distinct (d_keys args)" by (auto simp: call_ok_def split: option.splits)
  have "normalize_parameter_tags t = t" "find_params t = []"
    using assms(2) normalize_quiet [of "[nl]" "[]"] find_params_nl [of "[]"] by (auto simp: py_startswith_def nl_def)
  then have "find_params (normalize_parameter_tags (concat (map param_text args) @ t)) = map (\<lambda>(k, v). (k, inner v)) args"
    using normalize_texts [OF clean(1), of t] find_params_texts [OF clean(1), of t] by simp
  with tl extract_fitting [OF fit(1) clean(2) fit(2)] show ?thesis by (simp add: parsed_call_def call_json_def carried_def comp_assoc)
qed

lemma answer_parsed:
  assumes "call_ok E tools nm args" and "\<not> py_contains said ''<function=''"
    and "closing \<in> {''</function>'', ''</'', []}"
  obtains f r where "fix_stopword (said @ ''<function='' @ nm @ ''>'' @ [nl] @ concat (map param_text args) @ closing) = f"
    "search_first fn_at f = Some r" "\<And>n. parsed_call E tools n r = Inr (call_json n nm (carried tools nm args))" "spoken f = py_strip said"
proof -
  let ?params = "concat (map param_text args)"
  let ?head = "''<function='' @ nm @ CHR ''>'' # nl # ?params"
  have clean: "clean_name nm" "clean_args args" using assms(1) by (simp_all add: call_ok_def)
  have fn_tag: "''<function='' \<in> set tags" by (simp add: tags_def)
  have q1: "quiet ''<function='' said t" if "hd t = CHR ''<''" for t
    by (rule quiet_free [of _ "CHR ''<''" "''function=''"]) (use assms(2) that in simp_all)
  have q2: "quiet ''</function>'' (?params @ u) t" if "u = [] \<or> u = [nl]" for u t
    using params_quiet [OF disjI2 [OF refl] clean(2)] that by (auto simp: quiet_append py_startswith_def nl_def)
  have "quiet ''<function='' closing []" using assms(3) by (auto simp: py_startswith_def)
  then have "quiet ''<function='' (nm @ CHR ''>'' # nl # ?params @ closing) []"
    using name_quiet(1) [OF fn_tag clean(1)] params_quiet [OF disjI1 [OF refl] clean(2)]
    by (simp add: quiet_append py_startswith_def nl_def)
  from quiet_contains [OF this] have once: "occurs_once (said @ ?head @ closing) ''<function=''"
    using partition_quiet [OF q1, of "nm @ CHR ''>'' # nl # ?params @ closing"]
    by (simp add: occurs_once_def)
  obtain u t where fixed: "fix_stopword (said @ ?head @ closing) = said @ ?head @ u @ ''</function>'' @ t" and u: "u = [] \<or> u = [nl]"
  proof -
    have end_nl: "last (said @ ?head) = nl" by (cases args rule: rev_cases) (auto simp: param_text_eq split: prod.split)
    consider "closing = ''</function>''" | "closing = ''</''" | "closing = []" using assms(3) by blast
    then show thesis
    proof cases
      case 1
      then have "\<not> py_endswith (said @ ?head @ closing) ''</''" by (auto dest: endswith_last)
      with once 1 show thesis by (intro that [of "[]" "nl # ''</function>''"]) (simp_all add: fix_stopword_def)
    next
      case 2
      have "py_rstrip (said @ ?head @ closing) = said @ ?head @ closing"
        using 2 by (simp add: py_rstrip_def py_isspace_def)
      with once 2 endswith_append [of "said @ ?head" "''</''"] show thesis
        by (intro that [of "[]" "[]"]) (simp_all add: fix_stopword_def)
    next
      case 3
      then have "\<not> py_endswith (said @ ?head @ closing) ''</''" using end_nl by (auto simp: nl_def dest: endswith_last)
      with once 3 show thesis by (intro that [of "[nl]" "[]"]) (simp_all add: fix_stopword_def)
    qed
  qed
  have "search_first fn_at (said @ ?head @ u @ ''</function>'' @ t) = Some (nm, ?params @ u)"
    using search_call [OF clean(1) q2 [OF u] assms(2)] by simp
  moreover have "before (said @ ?head @ u @ ''</function>'' @ t) ''<function='' = said"
    using partition_quiet [OF q1] by (simp add: before_def)
  ultimately show thesis
    using that [of "said @ ?head @ u @ ''</function>'' @ t" "(nm, ?params @ u)"] parsed_ok [OF assms(1) u] fixed
    by (simp add: spoken_def)
qed

text \<open>The content of a message in its two forms: a string, or a list with one text.\<close>

definition as_content :: "bool \<Rightarrow> string \<Rightarrow> json" where
  "as_content list_form s = (if list_form then JList [text_json s] else JStr s)"

lemma text_json_simps [simp]:
  "is_text_json (text_json s) = Inr True" "json_text (text_json s) = Inr s" "has_text (text_json s) = Inr True"
  "with_json_text f (text_json s) = Inr (text_json (f s))"
  by (simp_all add: text_json_def is_text_json_def json_text_def has_text_def with_json_text_def a_item_def a_get_def as_str_def
      as_dict_def d_set_def)

lemma or_empty_content [simp]: "or_empty (as_content lf s) = as_content lf s"
  by (simp add: or_empty_def as_content_def py_truthy_def)

lemma assistant_call:
  assumes "fix_stopword s = f" and "search_first fn_at f = Some r" and "parsed_call E tools n r = Inr call"
  shows "assistant_from_text E tools n m (as_content lf s) = Inr (with_calls (as_content lf (spoken f)) call, True)"
  using assms by (simp add: assistant_from_text_def as_content_def)

text \<open>
  The answer of a model is understood as the call it is, whether the model wrote the call to its end, was cut before the
  stop word, or stopped in the middle of the closing tag: the message that the agent gets has exactly this call, with its
  arguments, and the text before it.
\<close>

theorem answer_is_understood:
  assumes "call_ok E tools nm args" and "\<not> py_contains said ''<function=''"
    and "closing \<in> {''</function>'', ''</'', []}"
  shows "assistant_from_text E tools n m
      (as_content lf (said @ ''<function='' @ nm @ ''>'' @ [nl] @ concat (map param_text args) @ closing))
    = Inr (with_calls (as_content lf (py_strip said)) (call_json n nm (carried tools nm args)), True)"
proof -
  from answer_parsed [OF assms] obtain f r
    where "fix_stopword (said @ ''<function='' @ nm @ ''>'' @ [nl] @ concat (map param_text args) @ closing) = f"
      "search_first fn_at f = Some r" "parsed_call E tools n r = Inr (call_json n nm (carried tools nm args))" "spoken f = py_strip said" by metis
  from assistant_call [OF this(1-3)] this(4) show ?thesis by simp
qed

section \<open>A conversation there and back\<close>

datatype turn =
    System string
  | User string
  | Says string
  | Calls string string dict
  | Result string string

text \<open>The messages with calls, numbered from \<open>n\<close>, and the texts they become.\<close>

fun fn_message :: "bool \<Rightarrow> nat \<Rightarrow> turn \<Rightarrow> dict" where
  "fn_message lf n (System s) = chat ''system'' (as_content lf s)"
| "fn_message lf n (User s) = chat ''user'' (as_content lf s)"
| "fn_message lf n (Says s) = chat ''assistant'' (as_content lf s)"
| "fn_message lf n (Calls s nm args) = with_calls (as_content lf s) (call_json n nm args)"
| "fn_message lf n (Result nm s) = [(''role'', JStr ''tool''), (''name'', JStr nm), (''content'', as_content lf s),
     (''tool_call_id'', JStr (call_id (n - 1)))]"

definition bump :: "nat \<Rightarrow> turn \<Rightarrow> nat" where
  "bump n t = (case t of Calls _ _ _ \<Rightarrow> n + 1 | _ \<Rightarrow> n)"

fun fn_messages :: "bool \<Rightarrow> nat \<Rightarrow> turn list \<Rightarrow> dict list" where
  "fn_messages lf n [] = []"
| "fn_messages lf n (t # ts) = fn_message lf n t # fn_messages lf (bump n t) ts"

fun text_message :: "bool \<Rightarrow> turn \<Rightarrow> dict" where
  "text_message lf (System s) = chat ''system'' (as_content lf s)"
| "text_message lf (User s) = chat ''user'' (as_content lf s)"
| "text_message lf (Says s) = chat ''assistant'' (as_content lf s)"
| "text_message lf (Calls s nm args) = chat ''assistant'' (as_content lf (py_lstrip (s @ [nl, nl] @ call_text nm args)))"
| "text_message lf (Result nm s) = chat ''user'' (as_content lf (''EXECUTION RESULT of ['' @ nm @ '']:'' @ [nl] @ s))"

fun settled :: "tool_spec list \<Rightarrow> turn \<Rightarrow> turn" where
  \<comment> \<open>the texts of calls and results lose the white space around them, and the arguments are what the text carries of them\<close>
  "settled tools (Calls s nm args) = Calls (py_strip s) nm (carried tools nm args)"
| "settled tools (Result nm s) = Result nm (py_strip s)"
| "settled tools t = t"

definition unmarked :: "string \<Rightarrow> bool" where
  "unmarked s = (\<not> py_contains s ''EXECUTION RESULT of ['')"

fun turn_ok :: "conv_env \<Rightarrow> tool_spec list \<Rightarrow> turn \<Rightarrow> bool" where
  \<comment> \<open>the turns after the first message of the user\<close>
  "turn_ok E tools (System s) = False"
| "turn_ok E tools (User s) = unmarked s"
| "turn_ok E tools (Says s) = (\<not> py_contains s ''<function='')"
| "turn_ok E tools (Calls s nm args) = (\<not> py_contains s ''<function='' \<and> call_ok E tools nm args)"
| "turn_ok E tools (Result nm s) = (CHR '']'' \<notin> set nm)"

lemma convert_call:
  "ce_loads E (json_dumps (JObj args)) = Some (JObj args) \<Longrightarrow>
    convert_tool_call_to_string E (call_json n nm args) = Inr (call_text nm args)"
  by (simp add: convert_tool_call_to_string_def call_json_def a_in_def a_item_def py_str_def)

lemma chat_simps [simp]:
  "a_item ''role'' (JObj (chat r c)) = Inr (JStr r)" "a_item ''content'' (JObj (chat r c)) = Inr c"
  "d_get (chat r c) ''tool_calls'' = None" "d_set ''content'' c (chat r c) = chat r c"
  by (simp_all add: chat_def a_item_def d_set_def)

lemma with_calls_simps [simp]:
  "a_item ''role'' (JObj (with_calls c x)) = Inr (JStr ''assistant'')" "a_item ''content'' (JObj (with_calls c x)) = Inr c"
  "d_get (with_calls c x) ''tool_calls'' = Some (JList [x])"
  by (simp_all add: with_calls_def chat_def a_item_def)

lemma on_last_text_one [simp]: "on_last_text f d [text_json s] = Inr [text_json (f s)]"
  by (simp add: on_last_text_def)

text \<open>To text\<close>

lemma turns_to_text:
  "list_all (turn_ok E tools) ts \<Longrightarrow> messages_to_text E sfx example False (fn_messages lf n ts) = Inr (map (text_message lf) ts)"
proof (induction ts arbitrary: n)
  case (Cons t ts)
  from Cons.prems have ok: "turn_ok E tools t" "list_all (turn_ok E tools) ts" by simp_all
  note rest = Cons.IH [OF ok(2)]
  show ?case
  proof (cases t)
    case (Calls s nm args)
    with ok(1) have "ce_loads E (json_dumps (JObj args)) = Some (JObj args)" by (simp add: call_ok_def)
    from convert_call [OF this] rest show ?thesis
      by (simp add: Calls bump_def assistant_to_text_def as_content_def)
  next
    case (Result nm s)
    with rest show ?thesis
      by (simp add: bump_def tool_to_text_def as_content_def a_item_def d_has_def py_str_def Let_def)
  qed (use ok rest in \<open>simp_all add: bump_def user_to_text_def assistant_to_text_def\<close>)
qed simp

text \<open>And back\<close>

lemma dropWhile_contains: "py_contains (dropWhile P s) p \<Longrightarrow> py_contains s p"
  by (induction s) (auto split: if_splits)

lemma lstrip_call:
  "\<exists>said. py_lstrip (s @ [nl, nl] @ ''<function='' @ u) = said @ ''<function='' @ u \<and> py_strip said = py_strip s
     \<and> (\<not> py_contains s ''<function='' \<longrightarrow> \<not> py_contains said ''<function='')"
proof (cases "list_all py_isspace s")
  case True
  then have "py_lstrip (s @ [nl, nl] @ ''<function='' @ u) = [] @ ''<function='' @ u" "py_strip s = []"
    by (simp_all add: py_lstrip_def py_strip_def list_all_iff dropWhile_append py_isspace_def nl_def dropWhile_eq_Nil_conv [THEN iffD2])
  then show ?thesis by (intro exI [of _ "[]"]) (simp add: py_strip_def)
next
  case False
  let ?w = "dropWhile py_isspace s"
  from False have ne: "?w \<noteq> []" by (auto simp: list_all_iff dropWhile_eq_Nil_conv)
  then have "\<not> py_isspace (hd ?w)" by (rule hd_dropWhile)
  with ne have w: "dropWhile py_isspace (?w @ [nl, nl]) = ?w @ [nl, nl]" "dropWhile py_isspace ?w = ?w"
    by (cases ?w; simp)+
  have "py_isspace nl" by (simp add: nl_def py_isspace_def)
  then have strip: "py_strip (?w @ [nl, nl]) = py_strip s" using w by (simp add: py_strip_def)
  have "quiet ''<function='' ?w [nl, nl]" if "\<not> py_contains s ''<function=''"
    by (rule quiet_free [of _ "CHR ''<''" "''function=''"]) (use that dropWhile_contains in \<open>auto simp: nl_def\<close>)
  then have "quiet ''<function='' (?w @ [nl, nl]) []" if "\<not> py_contains s ''<function=''"
    using that by (simp add: quiet_append py_startswith_def nl_def)
  from quiet_contains [OF this] have "\<not> py_contains (?w @ [nl, nl]) ''<function=''" if "\<not> py_contains s ''<function=''"
    using that by simp
  moreover have "py_lstrip (s @ [nl, nl] @ ''<function='' @ u) = (?w @ [nl, nl]) @ ''<function='' @ u"
    using False by (simp only: py_lstrip_def list_all_iff dropWhile_append append.assoc if_False simp_thms)
  ultimately show ?thesis using strip by blast
qed

lemma call_back:
  assumes "call_ok E tools nm args" and "\<not> py_contains s ''<function=''"
  shows "assistant_from_text E tools n m (as_content lf (py_lstrip (s @ [nl, nl] @ call_text nm args)))
    = Inr (with_calls (as_content lf (py_strip s)) (call_json n nm (carried tools nm args)), True)"
proof -
  let ?u = "nm @ ''>'' @ [nl] @ concat (map param_text args) @ ''</function>''"
  from lstrip_call [of s ?u] assms(2) obtain said where said: "py_lstrip (s @ [nl, nl] @ call_text nm args) = said @ ''<function='' @ ?u"
    "py_strip said = py_strip s" "\<not> py_contains said ''<function=''" by (auto simp: call_text_def)
  from answer_parsed [OF assms(1) said(3), of "''</function>''"] obtain f r
    where "fix_stopword (said @ ''<function='' @ ?u) = f"
      "search_first fn_at f = Some r" "parsed_call E tools n r = Inr (call_json n nm (carried tools nm args))" "spoken f = py_strip said"
    by (metis append.assoc insertI1)
  from assistant_call [OF this(1-3)] this(4) said show ?thesis by simp
qed

lemma says_back:
  assumes "\<not> py_contains s ''<function=''"
  shows "assistant_from_text E tools n (chat ''assistant'' (as_content lf s)) (as_content lf s) = Inr (chat ''assistant'' (as_content lf s), False)"
proof -
  have "fix_stopword s = s" using partition_none [OF assms] by (simp add: fix_stopword_def occurs_once_def)
  moreover have "search_first fn_at s = None" using search_none [OF fn_at_start assms] .
  ultimately show ?thesis by (simp add: assistant_from_text_def as_content_def)
qed

lemma tool_result_back:
  assumes "CHR '']'' \<notin> set nm"
  shows "search_first tool_result_at (''EXECUTION RESULT of ['' @ nm @ '']:'' @ [nl] @ s) = Some (nm, s)"
proof -
  have "quiet ('']:'' @ [nl]) nm (('']:'' @ [nl]) @ s)" using assms by (intro quiet_char) simp_all
  from partition_quiet [OF this] have "tool_result_at (''EXECUTION RESULT of ['' @ nm @ '']:'' @ [nl] @ s) = Some (nm, s)"
    by (simp add: tool_result_at_def py_startswith_def)
  then show ?thesis by simp
qed

definition call_count :: "turn list \<Rightarrow> nat" where
  "call_count ts = length (filter (\<lambda>t. case t of Calls _ _ _ \<Rightarrow> True | _ \<Rightarrow> False) ts)"

lemma call_count_Cons: "bump n t + call_count ts = n + call_count (t # ts)"
  by (cases t) (simp_all add: bump_def call_count_def)

lemma bump_settled [simp]: "bump n (settled tools t) = bump n t"
  by (cases t) (simp_all add: bump_def)

lemma turn_from_text:
  assumes "turn_ok E tools t"
  shows "messages_from_text E tools sfx example False n (text_message lf t # ms)
    = bind_res (messages_from_text E tools sfx example False (bump n t) ms) (\<lambda>ds. Inr (fn_message lf n (settled tools t) # ds))"
proof (cases t)
  case (User s)
  with assms search_none [OF tool_result_at_start] have none: "search_first tool_result_at s = None" by (simp add: unmarked_def)
  then have "user_from_text example False n (as_content lf s) = Inr (chat ''user'' (as_content lf s))"
    by (simp add: user_from_text_def tool_result_of_def as_content_def)
  then show ?thesis by (simp add: User bump_def)
next
  case (Says s)
  with assms says_back [of s E tools n lf] show ?thesis by (simp add: bump_def)
next
  case (Calls s nm args)
  with assms call_back [of E tools nm args s n _ lf] show ?thesis by (simp add: bump_def)
next
  case (Result nm s)
  with assms have "search_first tool_result_at (''EXECUTION RESULT of ['' @ nm @ '']:'' @ [nl] @ s) = Some (nm, s)"
    by (intro tool_result_back) simp
  then have "user_from_text example False n (as_content lf (''EXECUTION RESULT of ['' @ nm @ '']:'' @ [nl] @ s))
      = Inr (fn_message lf n (Result nm (py_strip s)))"
    by (simp add: user_from_text_def tool_result_of_def as_content_def)
  then show ?thesis by (simp add: Result bump_def)
qed (use assms in simp)

lemma turns_from_text:
  "list_all (turn_ok E tools) ts \<Longrightarrow>
    messages_from_text E tools sfx example False n (map (text_message lf) ts @ ms)
    = bind_res (messages_from_text E tools sfx example False (n + call_count ts) ms) (\<lambda>ds. Inr (fn_messages lf n (map (settled tools) ts) @ ds))"
proof (induction ts arbitrary: n)
  case Nil
  then show ?case by (cases "messages_from_text E tools sfx example False n ms") (simp_all add: call_count_def)
next
  case (Cons t ts)
  then show ?case
    using turn_from_text [of E tools t sfx example n lf "map (text_message lf) ts @ ms"] call_count_Cons [of n t ts]
    by (cases "messages_from_text E tools sfx example False (bump n t + call_count ts) ms") simp_all
qed

text \<open>The system prompt and the first message of the user lose what they were given.\<close>

definition opening_ok :: "string \<Rightarrow> string \<Rightarrow> string \<Rightarrow> bool" where
  \<comment> \<open>no copy of the added texts starts within the prompt and the message\<close>
  "opening_ok sfx s u =
     (quiet sfx s sfx \<and> quiet IN_CONTEXT_LEARNING_EXAMPLE_SUFFIX u IN_CONTEXT_LEARNING_EXAMPLE_SUFFIX \<and> unmarked u)"

lemma before_quiet: "quiet p w p \<Longrightarrow> before (w @ p) p = w \<and> remove_first (w @ p) p = w"
  using partition_quiet [of p w "[]"] by (simp add: before_def remove_first_def)

lemma quiet_not_endswith: "quiet p w p \<Longrightarrow> p \<noteq> [] \<Longrightarrow> \<not> py_endswith w p"
proof
  assume q: "quiet p w p" and ne: "p \<noteq> []" and en: "py_endswith w p"
  from en obtain v where "w = v @ p" by (metis append_take_drop_id py_endswith_def)
  with q have "quiet p p p" by (simp add: quiet_append)
  with ne startswith_append [of p p] show False by (cases p) simp_all
qed

lemma remove_at_start: "remove_first (p @ s) p = s"
  using partition_quiet [of p "[]" s] by (simp add: remove_first_def)

lemma EXAMPLE_SUFFIX_nonempty: "IN_CONTEXT_LEARNING_EXAMPLE_SUFFIX \<noteq> []"
  by (simp add: IN_CONTEXT_LEARNING_EXAMPLE_SUFFIX_def text_lines_def)

lemma example_removed:
  assumes "quiet IN_CONTEXT_LEARNING_EXAMPLE_SUFFIX u IN_CONTEXT_LEARNING_EXAMPLE_SUFFIX"
  shows "without_example example (example @ u @ IN_CONTEXT_LEARNING_EXAMPLE_SUFFIX) = u" "without_example [] u = u"
proof -
  show "without_example example (example @ u @ IN_CONTEXT_LEARNING_EXAMPLE_SUFFIX) = u"
    using before_quiet [OF assms] by (simp add: without_example_def startswith_append remove_at_start endswith_append)
  show "without_example [] u = u"
    using quiet_not_endswith [OF assms EXAMPLE_SUFFIX_nonempty] remove_at_start [of "[]" u]
    by (simp add: without_example_def)
qed

definition no_example :: "conv_env \<Rightarrow> tool_spec list \<Rightarrow> string \<Rightarrow> bool" where
  \<comment> \<open>the message does not start with the example itself\<close>
  "no_example E tools u = (get_example_for_tools E tools = [] \<or> \<not> py_startswith u (get_example_for_tools E tools))"

lemma user_there_and_back:
  assumes "quiet IN_CONTEXT_LEARNING_EXAMPLE_SUFFIX u IN_CONTEXT_LEARNING_EXAMPLE_SUFFIX" and "unmarked u"
    and "add \<or> example = [] \<or> \<not> py_startswith u example"
  obtains v where "user_to_text example add (as_content lf u) = Inr (chat ''user'' (as_content lf v))"
    "user_from_text example True n (as_content lf v) = Inr (chat ''user'' (as_content lf u))"
proof -
  let ?v = "if example = [] \<or> \<not> add then u else example @ u @ IN_CONTEXT_LEARNING_EXAMPLE_SUFFIX"
  from assms(2) search_none [OF tool_result_at_start] have none: "search_first tool_result_at u = None" by (simp add: unmarked_def)
  have "without_example example u = u" if "\<not> py_startswith u example"
    using that quiet_not_endswith [OF assms(1) EXAMPLE_SUFFIX_nonempty] by (simp add: without_example_def)
  then have "without_example example ?v = u" using assms(3) example_removed [OF assms(1)] by auto
  then have "cleaned_user example (as_content lf ?v) = Inr (as_content lf u)" by (simp add: cleaned_user_def as_content_def)
  then have "user_from_text example True n (as_content lf ?v) = Inr (chat ''user'' (as_content lf u))"
    using none by (simp add: user_from_text_def tool_result_of_def as_content_def)
  moreover have "user_to_text example add (as_content lf u) = Inr (chat ''user'' (as_content lf ?v))"
    by (simp add: user_to_text_def with_example_def as_content_def)
  ultimately show thesis by (intro that)
qed

text \<open>The texts of a prompt, and what they give back when more messages follow.\<close>

lemma prompt_texts:
  assumes "convert_tools_to_description tools = Inr d" and "opening_ok (SYSTEM_PROMPT_SUFFIX_TEMPLATE d) s u"
    and "list_all (turn_ok E tools) ts" and "add \<or> no_example E tools u"
  obtains texts where
    "convert_fncall_messages_to_non_fncall_messages E (fn_messages lf n (System s # User u # ts)) tools add = Inr texts"
    "texts \<noteq> []"
    "\<And>ms. convert_non_fncall_messages_to_fncall_messages E (texts @ ms) tools
      = bind_res (messages_from_text E tools (SYSTEM_PROMPT_SUFFIX_TEMPLATE d) (get_example_for_tools E tools) False (1 + call_count ts) ms)
          (\<lambda>ds. Inr (fn_messages lf 1 (System s # User u # map (settled tools) ts) @ ds))"
proof -
  let ?sfx = "SYSTEM_PROMPT_SUFFIX_TEMPLATE d" and ?ex = "get_example_for_tools E tools"
  from assms(2) have ok: "quiet ?sfx s ?sfx" "quiet IN_CONTEXT_LEARNING_EXAMPLE_SUFFIX u IN_CONTEXT_LEARNING_EXAMPLE_SUFFIX" "unmarked u"
    by (simp_all add: opening_ok_def)
  obtain v where v: "user_to_text ?ex add (as_content lf u) = Inr (chat ''user'' (as_content lf v))"
    "user_from_text ?ex True 1 (as_content lf v) = Inr (chat ''user'' (as_content lf u))"
    using user_there_and_back [OF ok(2,3), of add ?ex lf 1] assms(4) by (auto simp: no_example_def)
  have sys: "system_to_text ?sfx (as_content lf s) = Inr (chat ''system'' (as_content lf (s @ ?sfx)))"
    "system_from_text ?sfx (as_content lf (s @ ?sfx)) = Inr (chat ''system'' (as_content lf s))"
    using before_quiet [OF ok(1)] by (simp_all add: system_to_text_def system_from_text_def as_content_def)
  let ?texts = "chat ''system'' (as_content lf (s @ ?sfx)) # chat ''user'' (as_content lf v) # map (text_message lf) ts"
  show thesis
  proof (rule that [of ?texts])
    show "convert_fncall_messages_to_non_fncall_messages E (fn_messages lf n (System s # User u # ts)) tools add = Inr ?texts"
      using turns_to_text [OF assms(3), of ?sfx ?ex lf n] assms(1) v sys
      by (simp add: convert_fncall_messages_to_non_fncall_messages_def bump_def)
    show "convert_non_fncall_messages_to_fncall_messages E (?texts @ ms) tools
      = bind_res (messages_from_text E tools ?sfx ?ex False (1 + call_count ts) ms)
          (\<lambda>ds. Inr (fn_messages lf 1 (System s # User u # map (settled tools) ts) @ ds))" for ms
      using turns_from_text [OF assms(3), of ?sfx ?ex 1 lf ms] assms(1) v sys
      by (cases "messages_from_text E tools ?sfx ?ex False (1 + call_count ts) ms")
         (simp_all add: convert_non_fncall_messages_to_fncall_messages_def bump_def)
  qed simp
qed


text \<open>
  C14. A model without function calling calls a tool: when it answers a prompt with the text of a call, written out or
  cut at the stop word, the completion returns the message with this call and the text before it, and the id of the call is one more than the
  number of the calls in the prompt. Numbers, lists and strings of one line arrive as the model wrote them; a value that it writes on lines of its
  own, as the system prompt teaches it, arrives with the line breaks that set it off. Prompt and call are as in the
  property before.
\<close>

theorem mocked_call_arrives:
  assumes "convert_tools_to_description tools = Inr d" and "opening_ok (SYSTEM_PROMPT_SUFFIX_TEMPLATE d) s u"
    and "list_all (turn_ok E tools) ts" and "adds_example C \<or> no_example E tools u"
    and "call_ok E tools nm args" and "\<not> py_contains said ''<function=''" and "closing \<in> {''</function>'', ''</'', []}"
    and "\<And>texts. \<exists>more. llm texts (stop_words_of C)
      = chat ''assistant'' (JStr (said @ ''<function='' @ nm @ ''>'' @ [nl] @ concat (map param_text args) @ closing)) # more"
  shows "mocked_completion E C llm (fn_messages lf n (System s # User u # ts)) tools
    = Inr (with_calls (JStr (py_strip said)) (call_json (1 + call_count ts) nm (carried tools nm args)))"
proof -
  let ?answer = "said @ ''<function='' @ nm @ ''>'' @ [nl] @ concat (map param_text args) @ closing"
  let ?m = "chat ''assistant'' (JStr ?answer)"
  from prompt_texts [OF assms(1-4)] obtain texts where
    texts: "convert_fncall_messages_to_non_fncall_messages E (fn_messages lf n (System s # User u # ts)) tools (adds_example C) = Inr texts" "texts \<noteq> []"
    "\<And>ms. convert_non_fncall_messages_to_fncall_messages E (texts @ ms) tools
      = bind_res (messages_from_text E tools (SYSTEM_PROMPT_SUFFIX_TEMPLATE d) (get_example_for_tools E tools) False (1 + call_count ts) ms)
          (\<lambda>ds. Inr (fn_messages lf 1 (System s # User u # map (settled tools) ts) @ ds))" by metis
  from assms(8) obtain more where llm: "llm texts (stop_words_of C) = ?m # more" by blast
  have "or_empty (JStr ?answer) = JStr ?answer" by (simp add: or_empty_def py_truthy_def)
  moreover from answer_parsed [OF assms(5-7)] obtain f r where "fix_stopword ?answer = f"
      "search_first fn_at f = Some r" "parsed_call E tools (1 + call_count ts) r = Inr (call_json (1 + call_count ts) nm (carried tools nm args))"
      "spoken f = py_strip said" by metis
  from assistant_call [OF this(1-3), of ?m False] this(4)
  have "assistant_from_text E tools (1 + call_count ts) ?m (JStr ?answer)
      = Inr (with_calls (JStr (py_strip said)) (call_json (1 + call_count ts) nm (carried tools nm args)), True)"
    by (simp add: as_content_def)
  ultimately have "messages_from_text E tools sfx ex False (1 + call_count ts) [?m]
      = Inr [with_calls (JStr (py_strip said)) (call_json (1 + call_count ts) nm (carried tools nm args))]" for sfx ex
    by (simp del: append_assoc append_Cons)
  then show ?thesis using texts llm by (simp add: mocked_completion_def)
qed

section \<open>What the text changes\<close>

text \<open>
  A value of several lines does not survive the text: written on lines of its own, it is read back with an empty line before
  and after it. An edit that is carried over as text does not have the string that the call had.
\<close>

theorem multiline_value_grows:
  assumes "find (\<lambda>t. td_type t = ''function'' \<and> td_name t = nm) tools = Some t" and "clean_name k" and "clean_text v" and "nl \<in> set v"
    and "info_of t k = Inr info" and "type_of_param info = ''string''" and "pi_enum info = None" and "set (required t) \<subseteq> {k}"
  shows "parsed_call E tools n (nm, concat (map param_text [(k, JStr v)])) = Inr (call_json n nm [(k, JStr (nl # v @ [nl]))])"
proof -
  have clean: "clean_args [(k, JStr v)]" using assms(2,3) by (simp add: clean_args_def shown_value_def py_str_def)
  have inner: "inner (JStr v) = nl # v @ [nl]" using assms(4) by (simp add: inner_def multiline_def shown_value_def py_str_def)
  have params: "find_params (normalize_parameter_tags (concat (map param_text [(k, JStr v)]))) = [(k, nl # v @ [nl])]"
    using normalize_texts [OF clean, of "[]"] find_params_texts [OF clean, of "[]"] inner by simp
  have "checked_param E t nm (k, nl # v @ [nl]) = Inr (k, JStr (nl # v @ [nl]))"
    using info_of_declared [OF assms(5)] assms(5-7)
    by (auto simp: checked_param_def converted_value_def d_has_def)
  moreover have "list_all (\<lambda>x. x \<in> {k}) (required t)" using assms(8) by (auto simp: list_all_iff)
  ultimately have "extract_and_validate_params E t [(k, nl # v @ [nl])] nm = Inr [(k, JStr (nl # v @ [nl]))]"
    by (simp add: extract_and_validate_params_def d_update_def d_set_def)
  with assms(1) params show ?thesis by (simp add: parsed_call_def call_json_def)
qed

text \<open>
  A parameter that is given to a tool which declares none raises \<open>KeyError\<close>, not the validation error that the agent
  would report to the model.
\<close>

theorem undeclared_parameter_raises_key_error:
  assumes "declared t = []"
  shows "\<exists>key. extract_and_validate_params E t ((k, v) # found) nm = Inl (KeyError key)"
proof -
  have "\<exists>key. info_of t k = Inl (KeyError key)"
    using assms by (auto simp: info_of_def declared_def split: option.splits)
  then show ?thesis
    using assms by (auto simp: extract_and_validate_params_def checked_param_def converted_value_def)
qed

section \<open>One call per message\<close>

definition from_assistant :: "dict \<Rightarrow> bool" where
  "from_assistant m = (a_item ''role'' (JObj m) = Inr (JStr ''assistant''))"

definition single :: "dict \<Rightarrow> bool" where
  "single m = (from_assistant m \<longrightarrow> several_calls m = Inr [])"

definition pending_ok :: "(string \<times> dict) list \<Rightarrow> bool" where
  "pending_ok pending = list_all (\<lambda>(_, m). single m \<and> from_assistant m) pending"

lemma split_message_ok:
  "split_message content tcs pending = Inr p \<Longrightarrow> pending_ok pending \<Longrightarrow> pending_ok p"
proof (induction content tcs pending rule: split_message.induct)
  case (2 content tc tcs pending)
  let ?m = "chat ''assistant'' content @ [(''tool_calls'', JList [tc])]"
  from "2.prems"(1) obtain i j where ij: "a_item ''id'' tc = Inr i" "as_str i = Inr j"
    and rest: "split_message (JStr []) tcs (d_set j ?m pending) = Inr p"
    by (auto simp: bind_res_Inr)
  have m: "single ?m \<and> from_assistant ?m"
    by (simp add: single_def from_assistant_def several_calls_def chat_def py_truthy_def a_item_def)
  have "pending_ok d \<Longrightarrow> pending_ok (d_set j ?m d)" for d
    using m by (induction d) (auto simp: d_set_def pending_ok_def)
  with "2.IH" [OF rest] "2.prems"(2) show ?case by blast
qed simp

lemma pending_okD: "pending_ok pending \<Longrightarrow> d_get pending i = Some m \<Longrightarrow> single m \<and> from_assistant m"
  by (induction pending) (auto simp: pending_ok_def split: if_splits)

lemma pending_ok_del: "pending_ok pending \<Longrightarrow> pending_ok (d_del i pending)"
  by (induction i pending rule: d_del.induct) (auto simp: pending_ok_def)

lemma split_loop_ok:
  "split_loop ms pending = Inr (p, out) \<Longrightarrow> pending_ok pending \<Longrightarrow>
    list_all single out \<and> filter (\<lambda>m. \<not> from_assistant m) out = filter (\<lambda>m. \<not> from_assistant m) ms"
proof (induction ms arbitrary: pending out)
  case (Cons m ms)
  from Cons.prems(1) obtain role content pending' o1 o2 where rc: "a_item ''role'' (JObj m) = Inr role" "a_item ''content'' (JObj m) = Inr content"
    and step: "(if role = JStr ''assistant'' then
          bind_res (several_calls m) (\<lambda>tcs.
            if tcs \<noteq> [] then bind_res (split_message content tcs pending) (\<lambda>p. Inr (p, []))
            else Inr (pending, [m]))
        else if role = JStr ''tool'' then
          bind_res (a_item ''tool_call_id'' (JObj m)) (\<lambda>i. bind_res (as_str i) (\<lambda>i.
            case d_get pending i of
              Some call \<Rightarrow> Inr (d_del i pending, [call, m])
            | None \<Rightarrow> if pending = [] then Inr (pending, [m]) else Inl AssertionError))
        else if pending = [] then Inr (pending, [m]) else Inl AssertionError) = Inr (pending', o1)"
    and rest: "split_loop ms pending' = Inr (p, o2)" and out: "out = o1 @ o2"
    by (auto simp: bind_res_Inr)
  have "pending_ok pending' \<and> list_all single o1 \<and> filter (\<lambda>m. \<not> from_assistant m) o1 = filter (\<lambda>m. \<not> from_assistant m) [m]"
  proof (cases "role = JStr ''assistant''")
    case True
    with step rc Cons.prems(2) show ?thesis
      by (auto simp: bind_res_Inr from_assistant_def single_def split: if_splits intro: split_message_ok)
  next
    case False
    then have no: "\<not> from_assistant m" "single m" using rc by (simp_all add: from_assistant_def single_def)
    show ?thesis
    proof (cases "role = JStr ''tool''")
      case True
      with False step obtain i where "(case d_get pending i of Some call \<Rightarrow> Inr (d_del i pending, [call, m])
          | None \<Rightarrow> if pending = [] then Inr (pending, [m]) else Inl AssertionError) = Inr (pending', o1)"
        by (auto simp: bind_res_Inr)
      with no Cons.prems(2) show ?thesis
        by (auto simp: pending_ok_del dest: pending_okD split: option.splits if_splits)
    qed (use False no step Cons.prems(2) in \<open>auto split: if_splits\<close>)
  qed
  with Cons.IH [OF rest] out show ?case by simp
qed simp

text \<open>
  When messages with several calls are broken up, every message that comes out has at most one call, and all other
  messages stay as they are, in their order.
\<close>

theorem one_call_per_message:
  assumes "convert_from_multiple_tool_calls_to_single_tool_call_messages messages ignore = Inr out"
  shows "list_all single out \<and> filter (\<lambda>m. \<not> from_assistant m) out = filter (\<lambda>m. \<not> from_assistant m) messages"
proof -
  from assms obtain p where "split_loop messages [] = Inr (p, out)"
    by (auto simp: convert_from_multiple_tool_calls_to_single_tool_call_messages_def bind_res_Inr split: if_splits)
  from split_loop_ok [OF this] show ?thesis by (simp add: pending_ok_def)
qed

end
