(* ===== verification/FnCallExamples.thy ===== *)
theory FnCallExamples
  imports FnCallLaws
begin

text \<open>A shell as the only tool, on which the properties of the conversion are applied.\<close>

definition shell_params :: tool_params where
  "shell_params = \<lparr>tp_properties = Some [(''command'', \<lparr>pi_type = Some ''string'', pi_description = Some ''What to run'', pi_enum = None\<rparr>),
       (''timeout'', \<lparr>pi_type = Some ''integer'', pi_description = None, pi_enum = None\<rparr>)],
     tp_required = Some [''command'']\<rparr>"

definition shell :: tool_spec where
  "shell = \<lparr>td_type = ''function'', td_name = ''execute_bash'', td_description = Some ''Runs a command'', td_parameters = Some shell_params\<rparr>"

definition shell_args :: dict where
  "shell_args = [(''command'', JStr (''ls -a'' @ [nl] @ ''pwd'')), (''timeout'', JInt 30)]"

definition shell_args_back :: dict where
  \<comment> \<open>after their trip\<close>
  "shell_args_back = [(''command'', JStr (nl # ''ls -a'' @ [nl] @ ''pwd'' @ [nl])), (''timeout'', JInt 30)]"

definition shell_env :: conv_env where
  "shell_env = \<lparr>ce_loads = (\<lambda>s. if s = json_dumps (JObj shell_args) then Some (JObj shell_args) else None), ce_windows = False,
     ce_example = (\<lambda>_ _. ''USER: hello'')\<rparr>"

definition shell_turns :: "turn list" where
  "shell_turns = [Calls ''Let me look.'' ''execute_bash'' shell_args, Result ''execute_bash'' ''a.txt '', Says ''There it is.'']"

definition shell_description :: string where
  "shell_description = (case convert_tools_to_description [shell] of Inr d \<Rightarrow> d | Inl _ \<Rightarrow> [])"

lemma shell_described: "convert_tools_to_description [shell] = Inr shell_description"
  by code_simp

lemma shell_call_ok: "call_ok shell_env [shell] ''execute_bash'' shell_args"
  by code_simp

lemma shell_args_carried: "carried [shell] ''execute_bash'' shell_args = shell_args_back"
  by code_simp

lemma shell_turns_ok: "list_all (turn_ok shell_env [shell]) shell_turns"
  by code_simp

lemma shell_opening: "opening_ok (SYSTEM_PROMPT_SUFFIX_TEMPLATE shell_description) ''Be good.'' ''List the files.''"
proof -
  have hds: "hd (SYSTEM_PROMPT_SUFFIX_TEMPLATE shell_description) = nl" "SYSTEM_PROMPT_SUFFIX_TEMPLATE shell_description \<noteq> []"
    "hd IN_CONTEXT_LEARNING_EXAMPLE_SUFFIX = nl" "IN_CONTEXT_LEARNING_EXAMPLE_SUFFIX \<noteq> []"
    by (simp_all add: SYSTEM_PROMPT_SUFFIX_TEMPLATE_def IN_CONTEXT_LEARNING_EXAMPLE_SUFFIX_def text_lines_def)
  have free: "nl \<notin> set ''Be good.''" "nl \<notin> set ''List the files.''" and un: "unmarked ''List the files.''" by code_simp+
  from quiet_char [OF _ hds(2)] hds(1) free(1)
  have "quiet (SYSTEM_PROMPT_SUFFIX_TEMPLATE shell_description) ''Be good.'' t" for t by metis
  moreover from quiet_char [OF _ hds(4)] hds(3) free(2)
  have "quiet IN_CONTEXT_LEARNING_EXAMPLE_SUFFIX ''List the files.'' t" for t by metis
  ultimately show ?thesis using un unfolding opening_ok_def by blast
qed

theorem answer_is_understood_witness:
  "assistant_from_text shell_env [shell] 3 m (as_content False (''Look: '' @ ''<function='' @ ''execute_bash'' @ ''>'' @ [nl]
      @ concat (map param_text shell_args) @ ''</''))
   = Inr (with_calls (as_content False (py_strip ''Look: '')) (call_json 3 ''execute_bash'' shell_args_back), True)"
proof -
  have "\<not> py_contains ''Look: '' ''<function=''" by code_simp
  from answer_is_understood [OF shell_call_ok this] show ?thesis unfolding shell_args_carried by blast
qed


definition small_model :: mock_config where
  "small_model = \<lparr>mc_model = ''small'', mc_supports_stop_words = True, mc_disable_stop_word = False\<rparr>"

definition shell_answer :: "string \<Rightarrow> string" where
  "shell_answer closing = ''Again. '' @ ''<function='' @ ''execute_bash'' @ ''>'' @ [nl] @ concat (map param_text shell_args) @ closing"

theorem mocked_call_arrives_witness:
  "mocked_completion shell_env small_model (\<lambda>_ _. [chat ''assistant'' (JStr (shell_answer []))])
      (fn_messages False 1 (System ''Be good.'' # User ''List the files.'' # shell_turns)) [shell]
   = Inr (with_calls (JStr (py_strip ''Again. '')) (call_json 2 ''execute_bash'' shell_args_back))"
proof -
  have adds: "adds_example small_model \<or> no_example shell_env [shell] ''List the files.''" and said: "\<not> py_contains ''Again. '' ''<function=''"
    and one: "1 + call_count shell_turns = 2" by code_simp+
  have "mocked_completion shell_env small_model (\<lambda>_ _. [chat ''assistant'' (JStr (shell_answer []))])
      (fn_messages False 1 (System ''Be good.'' # User ''List the files.'' # shell_turns)) [shell]
   = Inr (with_calls (JStr (py_strip ''Again. '')) (call_json (1 + call_count shell_turns) ''execute_bash'' (carried [shell] ''execute_bash'' shell_args)))"
    by (rule mocked_call_arrives [OF shell_described shell_opening shell_turns_ok adds shell_call_ok said, of "[]"])
      (auto simp only: shell_answer_def append.assoc insert_iff simp_thms)
  then show ?thesis unfolding one shell_args_carried .
qed

theorem multiline_value_grows_witness:
  "parsed_call shell_env [shell] 1 (''execute_bash'', concat (map param_text [(''command'', JStr (''ls'' @ [nl] @ ''pwd''))]))
    = Inr (call_json 1 ''execute_bash'' [(''command'', JStr (nl # (''ls'' @ [nl] @ ''pwd'') @ [nl]))])"
proof (rule multiline_value_grows)
  show "find (\<lambda>t. td_type t = ''function'' \<and> td_name t = ''execute_bash'') [shell] = Some shell" by code_simp
  show "clean_name ''command''" "clean_text (''ls'' @ [nl] @ ''pwd'')" by code_simp+
  show "info_of shell ''command'' = Inr \<lparr>pi_type = Some ''string'', pi_description = Some ''What to run'', pi_enum = None\<rparr>"
    by code_simp
  show "set (required shell) \<subseteq> {''command''}" by (simp add: shell_def shell_params_def required_def)
qed (simp_all add: type_of_param_def)

theorem undeclared_parameter_raises_key_error_witness:
  "\<exists>key. extract_and_validate_params shell_env (shell\<lparr>td_parameters := None\<rparr>) [(''reason'', ''done'')] ''finish'' = Inl (KeyError key)"
  by (rule undeclared_parameter_raises_key_error) (simp add: declared_def)

definition two_calls :: dict where
  "two_calls = chat ''assistant'' (JStr ''Both.'') @ [(''tool_calls'', JList [call_json 1 ''a'' [], call_json 2 ''b'' []])]"

theorem one_call_per_message_witness:
  "list_all single (case convert_from_multiple_tool_calls_to_single_tool_call_messages [two_calls,
      fn_message False 2 (Result ''a'' ''x''), fn_message False 3 (Result ''b'' ''y'')] False of Inr out \<Rightarrow> out | Inl _ \<Rightarrow> [])"
proof -
  let ?ms = "[two_calls, fn_message False 2 (Result ''a'' ''x''), fn_message False 3 (Result ''b'' ''y'')]"
  obtain out where out: "convert_from_multiple_tool_calls_to_single_tool_call_messages ?ms False = Inr out"
  proof -
    have "is_ok (convert_from_multiple_tool_calls_to_single_tool_call_messages ?ms False)" by code_simp
    then show thesis using that by (cases "convert_from_multiple_tool_calls_to_single_tool_call_messages ?ms False") simp_all
  qed
  with one_call_per_message [OF out] show ?thesis by simp
qed

end
