(* ===== verification/Bash.thy ===== *)
theory Bash
  imports Deserialization Texts
begin

text \<open>
  The shell of the sandbox (\<open>openhands/runtime/utils/bash.py\<close>, and the prompt of
  \<open>openhands/events/observation/commands.py\<close>): a session types commands into a terminal, polls what it shows until the
  prompt comes back or a timeout is reached, and cuts the output of the command out of the screen.

  The terminal multiplexer is the record \<open>terminal\<close> over an arbitrary state: what it shows, what keys and time do to it, and
  the clock. The parser of shell commands (bashlex) is a parameter that gives the nodes of a text or one of the errors its callers name. The poll may go on
  for ever, so it is a partial function; its result is what \<open>execute\<close> returns, or nothing when the program shuts down.
\<close>

section \<open>The prompt\<close>

definition ps1_begin :: string where "ps1_begin = ''###PS1JSON###''"

definition ps1_end :: string where "ps1_end = ''###PS1END###''"

text \<open>A match: where it starts and ends in the text, and its group.\<close>

type_synonym ps1_match = "nat \<times> nat \<times> string"

definition ps1_at :: "bool \<Rightarrow> string \<Rightarrow> (string \<times> string) option" where
  \<comment> \<open>the pattern at the start of a text, which is the start of a line or not: the group and the rest\<close>
  "ps1_at line_start s =
     (if line_start \<and> py_startswith s ps1_begin then py_partition (drop (length ps1_begin) s) ps1_end else None)"

lemma ps1_at_length: "ps1_at b s = Some (body, rest) \<Longrightarrow> length s = length ps1_begin + length body + length ps1_end + length rest"
  by (auto simp: ps1_at_def py_startswith_def ps1_begin_def ps1_end_def split: if_splits dest!: py_partition_eq arg_cong [where f = length])

function ps1_scan :: "nat \<Rightarrow> bool \<Rightarrow> string \<Rightarrow> ps1_match list" where
  \<comment> \<open>\<open>CMD_OUTPUT_METADATA_PS1_REGEX.finditer\<close>, from a position on\<close>
  "ps1_scan i line_start s = (case s of
       [] \<Rightarrow> []
     | c # cs \<Rightarrow> (case ps1_at line_start s of
         Some (body, rest) \<Rightarrow>
           let e = i + length ps1_begin + length body + length ps1_end in (i, e, body) # ps1_scan e False rest
       | None \<Rightarrow> ps1_scan (i + 1) (c = nl) cs))"
  by pat_completeness auto
termination by (relation "measure (\<lambda>(_, _, s). length s)") (auto dest!: ps1_at_length simp: ps1_begin_def)

declare ps1_scan.simps [simp del]

record ps1_env =
  pe_loads :: "string \<Rightarrow> json option"
  pe_float :: "string \<Rightarrow> rat option"

definition matches_ps1_metadata :: "ps1_env \<Rightarrow> string \<Rightarrow> ps1_match list" where
  "matches_ps1_metadata P s = filter (\<lambda>(_, _, body). pe_loads P (py_strip body) \<noteq> None) (ps1_scan 0 True s)"

definition numeric_field :: "ps1_env \<Rightarrow> string \<Rightarrow> dict \<Rightarrow> dict \<Rightarrow> dict" where
  \<comment> \<open>\<open>int(float(str(metadata[k])))\<close> of a finite number, or -1\<close>
  "numeric_field P k metadata processed = (case d_get metadata k of
       None \<Rightarrow> processed
     | Some j \<Rightarrow> d_set k (JInt (case pe_float P (py_str j) of
         Some q \<Rightarrow> (if 0 \<le> q then \<lfloor>q\<rfloor> else \<lceil>q\<rceil>) | None \<Rightarrow> -1)) processed)"

definition from_ps1_match :: "ps1_env \<Rightarrow> ps1_match \<Rightarrow> cmd_output_metadata res" where
  "from_ps1_match P m = (case pe_loads P (snd (snd m)) of
       None \<Rightarrow> Inl (ValueError ''JSONDecodeError'')
     | Some (JObj d) \<Rightarrow> dec_metadata (numeric_field P ''exit_code'' d (numeric_field P ''pid'' d d))
     | Some _ \<Rightarrow> Inl (AttributeError ''copy''))"

section \<open>Splitting and escaping commands\<close>

text \<open>The errors of the parser that its callers name.\<close>

datatype parse_failure = ParsingError | NotImplementedFailure | TypeFailure | AttributeFailure string

datatype bash_node = Node (bn_kind: string) (bn_pos: "nat \<times> nat") (bn_heredoc: "(nat \<times> nat) option") (bn_parts: "bash_node list")

definition slice :: "nat \<Rightarrow> nat \<Rightarrow> string \<Rightarrow> string" where
  \<comment> \<open>\<open>s[a:b]\<close>\<close>
  "slice a b s = drop a (take b s)"

definition add_to_last :: "string \<Rightarrow> string list \<Rightarrow> string list" where
  "add_to_last t ws = (if ws = [] then ws else butlast ws @ [last ws @ t])"

fun split_nodes :: "string \<Rightarrow> (nat \<times> nat) list \<Rightarrow> string list \<Rightarrow> nat \<Rightarrow> string list \<times> nat" where
  "split_nodes commands [] result last_end = (result, last_end)"
| "split_nodes commands ((start, stop) # ns) result last_end =
     (let between = slice last_end start commands;
          result = (if last_end < start
            then (if result \<noteq> [] then add_to_last (py_rstrip between) result
                  else if py_strip between \<noteq> [] then result @ [py_rstrip between] else result)
            else result)
      in split_nodes commands ns (result @ [py_rstrip (slice start stop commands)]) stop)"

type_synonym bash_parser = "string \<Rightarrow> parse_failure + bash_node list"

definition split_bash_commands :: "bash_parser \<Rightarrow> string \<Rightarrow> string list" where
  \<comment> \<open>each failure of the parser is caught\<close>
  "split_bash_commands parse commands =
     (if py_strip commands = [] then [[]]
      else case parse commands of
        Inl _ \<Rightarrow> [commands]
      | Inr parsed \<Rightarrow> (case split_nodes commands (map bn_pos parsed) [] 0 of (result, last_end) \<Rightarrow>
          let remaining = py_rstrip (drop last_end commands) in
          if last_end < length commands \<and> result \<noteq> [] then add_to_last remaining result
          else if last_end < length commands \<and> remaining \<noteq> [] then result @ [remaining]
          else result))"

fun escape_specials :: "string \<Rightarrow> string" where
  \<comment> \<open>a backslash before a special character is doubled\<close>
  "escape_specials (a # b # s) =
     (if a = CHR 0x5C \<and> b \<in> set '';&|><'' then CHR 0x5C # CHR 0x5C # b # escape_specials s else a # escape_specials (b # s))"
| "escape_specials s = s"

definition enclosed :: "string \<Rightarrow> string \<Rightarrow> string \<Rightarrow> bool" where
  "enclosed a b s = (py_startswith s a \<and> py_endswith s b)"

definition kept_as_is :: "string \<Rightarrow> bool" where
  \<comment> \<open>quoted strings and command substitutions\<close>
  "kept_as_is s = (enclosed [CHR 0x22] [CHR 0x22] s \<or> enclosed [CHR 0x27] [CHR 0x27] s \<or> enclosed ''$('' '')'' s
     \<or> enclosed [CHR 0x60] [CHR 0x60] s)"

fun visit_node :: "string \<Rightarrow> bash_node \<Rightarrow> string \<times> nat \<Rightarrow> string \<times> nat"
and visit_nodes :: "string \<Rightarrow> bash_node list \<Rightarrow> string \<times> nat \<Rightarrow> string \<times> nat" where
  \<comment> \<open>the state is the text so far and \<open>last_pos\<close>\<close>
  "visit_node command (Node kind pos heredoc children) (parts, last_pos) =
     (case (kind = ''redirect'', heredoc) of
        (True, Some h) \<Rightarrow>
          (parts @ slice last_pos (fst pos) command @ slice (fst pos) (fst h) command @ slice (fst h) (snd h) command, snd pos)
      | _ \<Rightarrow>
        if kind = ''word''
        then let word = slice (fst pos) (snd pos) command in
             (parts @ escape_specials (slice last_pos (fst pos) command)
                @ (if kept_as_is word then word else escape_specials word), snd pos)
        else visit_nodes command children (parts, last_pos))"
| "visit_nodes command [] st = st"
| "visit_nodes command (n # ns) st = visit_nodes command ns (visit_node command n st)"

definition escape_bash_special_chars :: "bash_parser \<Rightarrow> string \<Rightarrow> string res" where
  \<comment> \<open>an \<open>AttributeError\<close> of the parser is not caught\<close>
  "escape_bash_special_chars parse command =
     (if py_strip command = [] then Inr []
      else case parse command of
        Inl (AttributeFailure m) \<Rightarrow> Inl (AttributeError m)
      | Inl _ \<Rightarrow> Inr command
      | Inr nodes \<Rightarrow>
          (case foldl (\<lambda>(parts, last_pos) n.
                  visit_node command n (parts @ escape_specials (slice last_pos (fst (bn_pos n)) command), fst (bn_pos n)))
                ([], 0) nodes of
             (parts, last_pos) \<Rightarrow> Inr (parts @ drop last_pos command)))"

section \<open>The session\<close>

datatype bash_status = CMD_CONTINUE | CMD_COMPLETED | NO_CHANGE_TIMEOUT | HARD_TIMEOUT

record 't terminal =
  te_look :: "'t \<Rightarrow> 't \<times> string list"
  te_keys :: "string \<Rightarrow> bool \<Rightarrow> 't \<Rightarrow> 't"
  te_clear_history :: "'t \<Rightarrow> 't"
  te_sleep :: "rat \<Rightarrow> 't \<Rightarrow> 't"
  te_time :: "'t \<Rightarrow> rat"
  te_continue :: "'t \<Rightarrow> bool"

record 't bash_env = ps1_env +
  be_terminal :: "'t terminal"
  be_parse :: bash_parser

record 't bash_session =
  bs_initialized :: bool
  bs_no_change_timeout :: int
  bs_prev_status :: "bash_status option"
  bs_prev_output :: string
  bs_cwd :: string
  bs_term :: 't

definition POLL_INTERVAL :: rat where "POLL_INTERVAL = 1 / 2"

definition TIMEOUT_MESSAGE_TEMPLATE :: string where
  "TIMEOUT_MESSAGE_TEMPLATE =
     ''You may wait longer to see additional output by sending empty command '' @ [CHR 0x27, CHR 0x27] @ '', ''
     @ ''send other commands to interact with the current process, ''
     @ ''send keys ('' @ [CHR 0x22] @ ''C-c'' @ [CHR 0x22] @ '', '' @ [CHR 0x22] @ ''C-z'' @ [CHR 0x22] @ '', '' @ [CHR 0x22] @ ''C-d''
     @ [CHR 0x22] @ '') to interrupt/kill the previous command before sending your new command, ''
     @ ''or use the timeout parameter in execute_bash for future commands.''"

definition get_pane_content :: "'t bash_env \<Rightarrow> 't bash_session \<Rightarrow> 't bash_session \<times> string" where
  "get_pane_content E s = (case te_look (be_terminal E) (bs_term s) of (t, lines) \<Rightarrow>
     (s\<lparr>bs_term := t\<rparr>, py_join [nl] (map py_rstrip lines)))"

definition send_keys :: "'t bash_env \<Rightarrow> string \<Rightarrow> bool \<Rightarrow> 't bash_session \<Rightarrow> 't bash_session" where
  "send_keys E keys enter s = s\<lparr>bs_term := te_keys (be_terminal E) keys enter (bs_term s)\<rparr>"

definition sleep :: "'t bash_env \<Rightarrow> rat \<Rightarrow> 't bash_session \<Rightarrow> 't bash_session" where
  "sleep E q s = s\<lparr>bs_term := te_sleep (be_terminal E) q (bs_term s)\<rparr>"

definition now :: "'t bash_env \<Rightarrow> 't bash_session \<Rightarrow> rat" where
  "now E s = te_time (be_terminal E) (bs_term s)"

definition clear_screen :: "'t bash_env \<Rightarrow> 't bash_session \<Rightarrow> 't bash_session" where
  "clear_screen E s = (let s = sleep E (1 / 10) (send_keys E ''C-l'' False s) in
     s\<lparr>bs_term := te_clear_history (be_terminal E) (bs_term s)\<rparr>)"

definition is_special_key :: "string \<Rightarrow> bool" where
  "is_special_key command = (py_startswith (py_strip command) ''C-'' \<and> length (py_strip command) = 3)"

definition remove_command_prefix :: "string \<Rightarrow> string \<Rightarrow> string" where
  "remove_command_prefix command_output command = py_lstrip (py_removeprefix (py_lstrip command_output) (py_lstrip command))"

definition get_command_output ::
  "string \<Rightarrow> string \<Rightarrow> cmd_output_metadata \<Rightarrow> string \<Rightarrow> 't bash_session \<Rightarrow> 't bash_session \<times> cmd_output_metadata \<times> string" where
  "get_command_output command raw metadata continue_prefix s =
     (let (output, metadata) = (if bs_prev_output s \<noteq> []
            then (py_removeprefix raw (bs_prev_output s), metadata\<lparr>cm_prefix := continue_prefix\<rparr>)
            else (raw, metadata))
      in (s\<lparr>bs_prev_output := raw\<rparr>, metadata, py_rstrip (remove_command_prefix output command)))"

fun outputs_after :: "string \<Rightarrow> nat \<Rightarrow> ps1_match list \<Rightarrow> string" where
  \<comment> \<open>what follows a prompt that ends at a position, up to the end of the text; prompts in between are left out\<close>
  "outputs_after pane e [] = drop (e + 1) pane"
| "outputs_after pane e ((a, b, _) # ms) = slice (e + 1) a pane @ [nl] @ outputs_after pane b ms"

definition combine_outputs_between_matches :: "string \<Rightarrow> ps1_match list \<Rightarrow> bool \<Rightarrow> string" where
  "combine_outputs_between_matches pane ps1_matches get_content_before_last_match =
     (case ps1_matches of
        [] \<Rightarrow> pane
      | [(a, b, _)] \<Rightarrow> if get_content_before_last_match then take a pane else drop (b + 1) pane
      | (a, b, _) # ms \<Rightarrow> outputs_after pane b ms)"

definition py_upper_char :: "char \<Rightarrow> char" where
  \<comment> \<open>\<open>str.upper\<close> on ASCII letters; other characters are left as they are\<close>
  "py_upper_char c = (let n = of_char c :: nat in if 97 \<le> n \<and> n \<le> 122 then char_of (n - 32) else c)"

definition completed_suffix :: "string \<Rightarrow> int \<Rightarrow> string" where
  "completed_suffix command exit_code = nl # ''[The command completed with exit code '' @ str_of_int exit_code @ ''.''
     @ (if is_special_key command then '' CTRL+'' @ [py_upper_char (last command)] @ '' was sent.'' else []) @ '']''"

definition handle_completed_command ::
  "'t bash_env \<Rightarrow> string \<Rightarrow> string \<Rightarrow> ps1_match list \<Rightarrow> bool \<Rightarrow> 't bash_session \<Rightarrow> 't bash_session \<times> observation res" where
  "handle_completed_command E command pane ps1_matches hid s =
     (if ps1_matches = [] then (s, Inl AssertionError)
      else case from_ps1_match (ps1_env.truncate E) (last ps1_matches) of
        Inl err \<Rightarrow> (s, Inl err)
      | Inr metadata \<Rightarrow>
          let only = (length ps1_matches = 1);
              s = (case cm_working_dir metadata of None \<Rightarrow> s | Some d \<Rightarrow> if d \<noteq> bs_cwd s \<and> d \<noteq> [] then s\<lparr>bs_cwd := d\<rparr> else s);
              raw = combine_outputs_between_matches pane ps1_matches only;
              metadata = (if only then metadata\<lparr>cm_prefix := ''[Previous command outputs are truncated. Showing the last ''
                  @ str_of_nat (length (py_splitlines raw)) @ '' lines of the output below.]'' @ [nl]\<rparr> else metadata);
              metadata = metadata\<lparr>cm_suffix := completed_suffix command (cm_exit_code metadata)\<rparr>;
              (s, metadata, output) = get_command_output command raw metadata [] s;
              s = clear_screen E (s\<lparr>bs_prev_status := Some CMD_COMPLETED, bs_prev_output := []\<rparr>)
          in (s, Inr (CmdOutputObservation (new_cmd_output output command metadata hid None None))))"

definition previous_output_prefix :: string where
  "previous_output_prefix = ''[Below is the output of the previous command.]'' @ [nl]"

definition unfinished_command ::
  "string \<Rightarrow> string \<Rightarrow> ps1_match list \<Rightarrow> string \<Rightarrow> bool \<Rightarrow> 't bash_session \<Rightarrow> 't bash_session \<times> observation" where
  \<comment> \<open>what is reported of a command that goes on; the fourth argument is the suffix\<close>
  "unfinished_command command pane ps1_matches sfx hid s =
     (let raw = combine_outputs_between_matches pane ps1_matches False;
          (s, metadata, output) = get_command_output command raw (default_metadata\<lparr>cm_suffix := sfx\<rparr>) previous_output_prefix s
      in (s, CmdOutputObservation (new_cmd_output output command metadata hid None None)))"

definition handle_nochange_timeout_command ::
  "string \<Rightarrow> string \<Rightarrow> ps1_match list \<Rightarrow> 't bash_session \<Rightarrow> 't bash_session \<times> observation" where
  "handle_nochange_timeout_command command pane ps1_matches s =
     unfinished_command command pane ps1_matches
       (nl # ''[The command has no new output after '' @ str_of_int (bs_no_change_timeout s) @ '' seconds. ''
          @ TIMEOUT_MESSAGE_TEMPLATE @ '']'') False (s\<lparr>bs_prev_status := Some NO_CHANGE_TIMEOUT\<rparr>)"

definition handle_hard_timeout_command ::
  "string \<Rightarrow> string \<Rightarrow> ps1_match list \<Rightarrow> rat \<Rightarrow> 't bash_session \<Rightarrow> 't bash_session \<times> observation" where
  "handle_hard_timeout_command command pane ps1_matches timeout s =
     unfinished_command command pane ps1_matches
       (nl # ''[The command timed out after '' @ str_of_float timeout @ '' seconds. '' @ TIMEOUT_MESSAGE_TEMPLATE @ '']'') False
       (s\<lparr>bs_prev_status := Some HARD_TIMEOUT\<rparr>)"

section \<open>Executing a command\<close>

definition ends_with_prompt :: "string \<Rightarrow> bool" where
  "ends_with_prompt pane = py_endswith (py_rstrip pane) (nl # ps1_end)"

definition returned :: "'s \<times> observation \<Rightarrow> 's \<times> observation res" where
  "returned r = (fst r, Inr (snd r))"

partial_function (option) poll ::
  "'t bash_env \<Rightarrow> cmd_run_action \<Rightarrow> rat option \<Rightarrow> string \<Rightarrow> nat \<Rightarrow> rat \<Rightarrow> string \<Rightarrow> rat \<Rightarrow> 't bash_session
     \<Rightarrow> ('t bash_session \<times> observation res) option" where
  \<comment> \<open>\<open>timeout\<close> is that of the action; then the command, the prompts at the start, the time of the start, what the pane showed last
    and when that changed\<close>
  "poll E action timeout command initial_ps1_count start_time last_pane_output last_change_time s =
     (if \<not> te_continue (be_terminal E) (bs_term s) then Some (s, Inl (RuntimeError ''Bash session was likely interrupted...''))
      else case get_pane_content E s of (s, pane) \<Rightarrow>
        let ps1_matches = matches_ps1_metadata (ps1_env.truncate E) pane;
            last_change_time = (if pane \<noteq> last_pane_output then now E s else last_change_time)
        in if initial_ps1_count < length ps1_matches \<or> ends_with_prompt pane
           then Some (handle_completed_command E command pane ps1_matches (cr_hidden action) s)
           else if \<not> cr_blocking action \<and> of_int (bs_no_change_timeout s) \<le> now E s - last_change_time
           then Some (returned (handle_nochange_timeout_command command pane ps1_matches s))
           else if (case timeout of None \<Rightarrow> False | Some t \<Rightarrow> t \<noteq> 0 \<and> t \<le> now E s - start_time)
           then Some (returned (handle_hard_timeout_command command pane ps1_matches (the timeout) s))
           else poll E action timeout command initial_ps1_count start_time pane last_change_time (sleep E POLL_INTERVAL s))"

definition still_running :: "bash_status option \<Rightarrow> bool" where
  "still_running st = (st = Some CMD_CONTINUE \<or> st = Some NO_CHANGE_TIMEOUT \<or> st = Some HARD_TIMEOUT)"

definition refused :: "string \<Rightarrow> observation" where
  "refused t = CmdOutputObservation (new_cmd_output t [] default_metadata False None None)"

definition multiple_commands :: "string list \<Rightarrow> observation" where
  "multiple_commands cmds = ErrorObservation
     (py_join [nl]
       ([''ERROR: Cannot execute multiple commands at once.'',
         ''Please run each command separately OR chain them into a single command via && or ;'', ''Provided commands:'']
        @ map (\<lambda>(i, c). ''('' @ str_of_nat (i + 1) @ '') '' @ c) (zip [0..<length cmds] cmds))) []"

definition not_executed_suffix :: "string \<Rightarrow> string" where
  "not_executed_suffix command = nl # ''[Your command '' @ [CHR 0x22] @ command @ [CHR 0x22] @ '' is NOT executed. ''
     @ ''The previous command is still running - You CANNOT send new commands until the previous command is completed. ''
     @ ''By setting `is_input` to `true`, you can interact with the current process: '' @ TIMEOUT_MESSAGE_TEMPLATE @ '']''"

definition bash_execute ::
  "'t bash_env \<Rightarrow> cmd_run_action \<Rightarrow> rat option \<Rightarrow> 't bash_session \<Rightarrow> ('t bash_session \<times> observation res) option" where
  "bash_execute E action timeout s =
     (if \<not> bs_initialized s then Some (s, Inl (RuntimeError ''Bash session is not initialized''))
      else let command = py_strip (cr_command action); is_input = cr_is_input action; commands = split_bash_commands (be_parse E) command in
        if \<not> still_running (bs_prev_status s) \<and> command = []
        then Some (returned (s, refused ''ERROR: No previous running command to retrieve logs from.''))
        else if \<not> still_running (bs_prev_status s) \<and> is_input
        then Some (returned (s, refused ''ERROR: No previous running command to interact with.''))
        else if 1 < length commands then Some (returned (s, multiple_commands commands))
        else case get_pane_content E s of (s, pane) \<Rightarrow>
          let ps1_matches = matches_ps1_metadata (ps1_env.truncate E) pane; start_time = now E s in
          if (bs_prev_status s = Some HARD_TIMEOUT \<or> bs_prev_status s = Some NO_CHANGE_TIMEOUT) \<and> \<not> ends_with_prompt pane
             \<and> \<not> is_input \<and> command \<noteq> []
          then Some (returned (unfinished_command command pane ps1_matches (not_executed_suffix command) (cr_hidden action) s))
          else if command = [] then poll E action timeout command (length ps1_matches) start_time pane start_time s
          else case (if is_input then Inr command else escape_bash_special_chars (be_parse E) command) of
            Inl err \<Rightarrow> Some (s, Inl err)
          | Inr typed \<Rightarrow> poll E action timeout typed (length ps1_matches) start_time pane start_time
              (send_keys E typed (\<not> is_special_key command) s))"

end
