(* ===== verification/BashLaws.thy ===== *)
theory BashLaws
  imports Bash
begin

text \<open>
  What the shell session promises of one command: it is not typed into a running process, with a timeout it returns, and its
  output is cut out of the screen exactly.
\<close>

section \<open>Reading the session\<close>

lemma look_simps:
  assumes "get_pane_content E s = (s1, pane)"
  shows "bs_term s1 = fst (te_look (be_terminal E) (bs_term s))" "bs_prev_status s1 = bs_prev_status s"
    "bs_prev_output s1 = bs_prev_output s" "bs_initialized s1 = bs_initialized s" "bs_cwd s1 = bs_cwd s"
    "bs_no_change_timeout s1 = bs_no_change_timeout s"
  using assms by (auto simp: get_pane_content_def split: prod.splits)

lemma session_simps [simp]:
  "bs_prev_status (sleep E q s) = bs_prev_status s" "bs_prev_output (sleep E q s) = bs_prev_output s"
  "bs_initialized (sleep E q s) = bs_initialized s" "bs_no_change_timeout (sleep E q s) = bs_no_change_timeout s"
  "bs_prev_status (send_keys E k b s) = bs_prev_status s" "bs_prev_output (send_keys E k b s) = bs_prev_output s"
  "bs_initialized (send_keys E k b s) = bs_initialized s"
  "bs_prev_status (clear_screen E s) = bs_prev_status s" "bs_prev_output (clear_screen E s) = bs_prev_output s"
  "bs_initialized (clear_screen E s) = bs_initialized s" "bs_cwd (clear_screen E s) = bs_cwd s"
  by (simp_all add: sleep_def send_keys_def clear_screen_def Let_def)

lemma unfinished_simps:
  assumes "unfinished_command command pane ms sfx hid s = (s', ob)"
  shows "bs_term s' = bs_term s" "bs_prev_status s' = bs_prev_status s" "bs_initialized s' = bs_initialized s"
    "bs_prev_output s' = combine_outputs_between_matches pane ms False"
  using assms by (auto simp: unfinished_command_def get_command_output_def Let_def split: if_splits)

section \<open>Commands that are not typed\<close>

text \<open>
  C23. What must not be executed does not reach the terminal: with nothing running, an empty command or an input is refused;
  while a process runs, a command that is not an input is refused after one look; several commands at once are refused. In each case no key is
  sent, and the status of the session stays.
\<close>

theorem refused_commands_are_not_typed:
  assumes "bs_initialized s" and "py_strip (cr_command action) = command"
    and "(\<not> still_running (bs_prev_status s) \<and> (command = [] \<or> cr_is_input action))
      \<or> 1 < length (split_bash_commands (be_parse E) command)
      \<or> (bs_prev_status s = Some HARD_TIMEOUT \<or> bs_prev_status s = Some NO_CHANGE_TIMEOUT) \<and> \<not> cr_is_input action \<and> command \<noteq> []
         \<and> \<not> ends_with_prompt (snd (get_pane_content E s))"
  shows "\<exists>s' ob. bash_execute E action timeout s = Some (s', Inr ob)
    \<and> bs_prev_status s' = bs_prev_status s \<and> bs_initialized s'
    \<and> (bs_term s' = bs_term s \<or> bs_term s' = fst (te_look (be_terminal E) (bs_term s)))"
proof -
  obtain s1 pane where look: "get_pane_content E s = (s1, pane)" by fastforce
  obtain s2 ob where un: "unfinished_command command pane (matches_ps1_metadata (ps1_env.truncate E) pane)
      (not_executed_suffix command) (cr_hidden action) s1 = (s2, ob)" by fastforce
  note simps = look_simps [OF look] unfinished_simps [OF un]
  consider "\<not> still_running (bs_prev_status s) \<and> (command = [] \<or> cr_is_input action)"
    | "\<not> (\<not> still_running (bs_prev_status s) \<and> (command = [] \<or> cr_is_input action))"
      "1 < length (split_bash_commands (be_parse E) command)"
    | "\<not> (\<not> still_running (bs_prev_status s) \<and> (command = [] \<or> cr_is_input action))"
      "\<not> 1 < length (split_bash_commands (be_parse E) command)"
      "bs_prev_status s = Some HARD_TIMEOUT \<or> bs_prev_status s = Some NO_CHANGE_TIMEOUT" "\<not> cr_is_input action" "command \<noteq> []"
      "\<not> ends_with_prompt pane"
    using assms(3) look by auto
  then show ?thesis
  proof cases
    case 1
    with assms(1,2) show ?thesis by (auto simp: bash_execute_def Let_def returned_def)
  next
    case 2
    with assms(1,2) show ?thesis by (auto simp: bash_execute_def Let_def returned_def)
  next
    case 3
    with assms(1,2) look un simps(2) have "bash_execute E action timeout s = Some (s2, Inr ob)"
      by (auto simp: bash_execute_def Let_def returned_def still_running_def simp del: One_nat_def)
    with simps assms(1) show ?thesis by auto
  qed
qed

section \<open>A command returns\<close>

definition clock_ok :: "'t terminal \<Rightarrow> bool" where
  \<comment> \<open>looking and typing do not turn the clock back, and sleeping moves it at least by the time slept\<close>
  "clock_ok T \<longleftrightarrow>
     (\<forall>t. te_time T t \<le> te_time T (fst (te_look T t))) \<and> (\<forall>t q. te_time T t + q \<le> te_time T (te_sleep T q t))"

lemma poll_returns:
  assumes clock: "clock_ok (be_terminal E)" and T: "0 < t"
  shows "start_time + t - now E s \<le> of_nat n * POLL_INTERVAL \<Longrightarrow>
    \<exists>r. poll E action (Some t) command count start_time last_output last_change s = Some r"
proof (induction n arbitrary: last_output last_change s)
  case 0
  obtain s1 pane where look: "get_pane_content E s = (s1, pane)" by fastforce
  have "now E s \<le> now E s1" using clock look_simps(1) [OF look] by (simp add: now_def clock_ok_def)
  with 0 have "t \<le> now E s1 - start_time" by (simp add: algebra_simps)
  with look T show ?case by (subst poll.simps) (auto simp: Let_def)
next
  case (Suc n)
  obtain s1 pane where look: "get_pane_content E s = (s1, pane)" by fastforce
  have "now E s \<le> now E s1" using clock look_simps(1) [OF look] by (simp add: now_def clock_ok_def)
  moreover have "now E s1 + POLL_INTERVAL \<le> now E (sleep E POLL_INTERVAL s1)"
    using clock by (simp add: now_def sleep_def clock_ok_def)
  ultimately have "start_time + t - now E (sleep E POLL_INTERVAL s1) \<le> of_nat n * POLL_INTERVAL"
    using Suc.prems by (simp add: algebra_simps)
  from Suc.IH [OF this] look show ?case by (subst poll.simps) (auto simp: Let_def)
qed

lemma enough_polls: "\<exists>n. (q::rat) \<le> of_nat n * POLL_INTERVAL"
proof -
  obtain n :: nat where "q / POLL_INTERVAL < of_nat n" using reals_Archimedean2 by blast
  then show ?thesis by (intro exI [of _ n]) (simp add: POLL_INTERVAL_def field_simps)
qed

text \<open>
  C24. A command with a hard timeout returns, whatever the terminal shows, also when it is blocking: time goes on between the
  polls, and the poll that first sees the timeout is the last.
\<close>

theorem command_with_timeout_returns:
  assumes "clock_ok (be_terminal E)" and "0 < t"
  shows "\<exists>r. bash_execute E action (Some t) s = Some r"
proof -
  have poll: "poll E action (Some t) command count start_time last_output last_change s \<noteq> None"
    for command count start_time last_output last_change and s :: "'a bash_session"
    using enough_polls poll_returns [OF assms] by blast
  have "bash_execute E action (Some t) s \<noteq> None"
    unfolding bash_execute_def Let_def using poll by (simp split: prod.split sum.split del: not_None_eq)
  then show ?thesis by blast
qed

section \<open>Prompts on the screen\<close>

definition prompt_block :: "string \<Rightarrow> string" where
  "prompt_block j = ps1_begin @ [nl] @ j @ [nl] @ ps1_end"

definition prompt_ok :: "ps1_env \<Rightarrow> string \<Rightarrow> bool" where
  "prompt_ok P j = (\<not> py_contains j ps1_end \<and> pe_loads P (py_strip (nl # j @ [nl])) \<noteq> None)"

lemma scan_quiet:
  "quiet ps1_begin w t \<Longrightarrow> ps1_scan i b (w @ t) = ps1_scan (i + length w) (if w = [] then b else last w = nl) t"
proof (induction w arbitrary: i b)
  case (Cons c w)
  then have "ps1_at b (c # w @ t) = None" by (simp add: ps1_at_def)
  then have "ps1_scan i b (c # w @ t) = ps1_scan (i + 1) (c = nl) (w @ t)" by (simp add: ps1_scan.simps [of i b "c # w @ t"])
  with Cons show ?case by simp
qed simp

lemma quiet_line:
  assumes "p = ps1_begin \<or> p = ps1_end" and "\<not> py_contains w p"
  shows "quiet p (w @ [nl]) t"
proof -
  have "quiet p w (nl # t)"
    by (rule quiet_free [of _ "CHR ''#''" "tl p"]) (use assms in \<open>auto simp: ps1_begin_def ps1_end_def nl_def\<close>)
  moreover have "\<not> py_startswith (nl # t) p" using assms(1) by (auto simp: ps1_begin_def ps1_end_def nl_def py_startswith_def)
  ultimately show ?thesis by (simp add: quiet_append)
qed

lemma scan_block:
  assumes "\<not> py_contains j ps1_end"
  shows "ps1_scan i True (prompt_block j @ t) = (i, i + length (prompt_block j), nl # j @ [nl]) # ps1_scan (i + length (prompt_block j)) False t"
proof -
  have "quiet ps1_end (nl # j @ [nl]) (ps1_end @ t)"
    using quiet_line [OF disjI2 [OF refl] assms, of "ps1_end @ t"] by (simp add: ps1_end_def nl_def py_startswith_def)
  from partition_quiet [OF this] have at: "ps1_at True (prompt_block j @ t) = Some (nl # j @ [nl], t)"
    by (simp add: ps1_at_def prompt_block_def startswith_append)
  obtain c cs where cs: "prompt_block j @ t = c # cs" by (simp add: prompt_block_def ps1_begin_def)
  have "length (prompt_block j) = length ps1_begin + length (nl # j @ [nl]) + length ps1_end" by (simp add: prompt_block_def)
  with at show ?thesis unfolding cs by (simp add: ps1_scan.simps [of i True "c # cs"] Let_def add.assoc)
qed

lemma scan_rest:
  assumes "list_all py_isspace t"
  shows "ps1_scan i b t = []"
proof -
  have "quiet ps1_begin t []" using assms
    by (intro quiet_char) (auto simp: list_all_iff ps1_begin_def py_isspace_def)
  from scan_quiet [OF this, of i b] show ?thesis by (simp add: ps1_scan.simps [of _ _ "[]"])
qed

text \<open>The screen after a command: the prompt it was typed at, its echo, its output and the next prompt.\<close>

definition screen :: "string \<Rightarrow> string \<Rightarrow> string \<Rightarrow> string \<Rightarrow> string" where
  "screen j0 shown j1 post = prompt_block j0 @ nl # shown @ nl # prompt_block j1 @ post"

lemma screen_matches:
  assumes "prompt_ok P j0" and "prompt_ok P j1" and "\<not> py_contains shown ps1_begin" and "list_all py_isspace post"
  shows "matches_ps1_metadata P (screen j0 shown j1 post)
    = [(0, length (prompt_block j0), nl # j0 @ [nl]),
       (length (prompt_block j0) + length shown + 2, length (prompt_block j0) + length shown + 2 + length (prompt_block j1), nl # j1 @ [nl])]"
proof -
  let ?e = "length (prompt_block j0)"
  have q: "quiet ps1_begin (nl # shown @ [nl]) (prompt_block j1 @ post)"
    using quiet_line [OF disjI1 [OF refl] assms(3), of "prompt_block j1 @ post"] by (simp add: ps1_begin_def nl_def py_startswith_def)
  have "ps1_scan 0 True (screen j0 shown j1 post) = (0, ?e, nl # j0 @ [nl]) # ps1_scan ?e False ((nl # shown @ [nl]) @ prompt_block j1 @ post)"
    using scan_block [of j0 0] assms(1) by (simp add: screen_def prompt_ok_def)
  also have "ps1_scan ?e False ((nl # shown @ [nl]) @ prompt_block j1 @ post) = ps1_scan (?e + length shown + 2) True (prompt_block j1 @ post)"
    using scan_quiet [OF q, of ?e False] by simp
  also have "\<dots> = [(?e + length shown + 2, ?e + length shown + 2 + length (prompt_block j1), nl # j1 @ [nl])]"
    using scan_block [of j1] assms(2) scan_rest [OF assms(4)] by (simp add: prompt_ok_def)
  finally show ?thesis using assms(1,2) by (simp add: matches_ps1_metadata_def prompt_ok_def)
qed

lemma screen_output:
  assumes "prompt_ok P j0" and "prompt_ok P j1" and "\<not> py_contains shown ps1_begin" and "list_all py_isspace post"
  shows "combine_outputs_between_matches (screen j0 shown j1 post) (matches_ps1_metadata P (screen j0 shown j1 post)) b
    = shown @ [nl, nl] @ drop 1 post"
proof -
  let ?e = "length (prompt_block j0)"
  have pane: "screen j0 shown j1 post = (prompt_block j0 @ [nl]) @ (shown @ [nl]) @ prompt_block j1 @ post" by (simp add: screen_def)
  have "slice (?e + 1) (?e + length shown + 2) (screen j0 shown j1 post) = shown @ [nl]"
    unfolding pane slice_def by simp
  moreover have "drop (?e + length shown + 2 + length (prompt_block j1) + 1) (screen j0 shown j1 post) = drop 1 post"
  proof -
    define before where "before = (prompt_block j0 @ [nl]) @ (shown @ [nl]) @ prompt_block j1"
    have "drop (length before + 1) (before @ post) = drop 1 post" by simp
    moreover have "?e + length shown + 2 + length (prompt_block j1) + 1 = length before + 1" by (simp add: before_def)
    moreover have "screen j0 shown j1 post = before @ post" unfolding pane by (simp add: before_def)
    ultimately show ?thesis by simp
  qed
  ultimately show ?thesis
    unfolding screen_matches [OF assms] by (simp add: combine_outputs_between_matches_def)
qed

lemma strip_space: "list_all py_isspace ws \<Longrightarrow> py_strip (out @ ws) = py_strip out"
proof -
  assume ws: "list_all py_isspace ws"
  show ?thesis
  proof (cases "list_all py_isspace out")
    case True
    with ws have "dropWhile py_isspace (out @ ws) = []" and "dropWhile py_isspace out = []"
      by (simp_all only: dropWhile_eq_Nil_conv list_all_iff set_append ball_Un)
    then show ?thesis by (simp only: py_strip_def)
  next
    case False
    then have "dropWhile py_isspace (out @ ws) = dropWhile py_isspace out @ ws" by (auto simp: list_all_iff dropWhile_append)
    moreover have "dropWhile py_isspace (rev ws @ x) = dropWhile py_isspace x" for x
      using ws by (simp add: list_all_iff dropWhile_append)
    ultimately show ?thesis by (simp add: py_strip_def)
  qed
qed

lemma echo_removed:
  assumes "command \<noteq> []" and "\<not> py_isspace (hd command)" and "list_all py_isspace ws"
  shows "py_rstrip (remove_command_prefix (command @ nl # out @ ws) command) = py_strip out"
proof -
  have l: "py_lstrip (command @ x) = command @ x" for x using assms(1,2) by (cases command) (simp_all add: py_lstrip_def)
  have "py_removeprefix (command @ nl # out @ ws) command = nl # out @ ws"
    by (simp add: py_removeprefix_def startswith_append)
  then have "remove_command_prefix (command @ nl # out @ ws) command = py_lstrip (out @ ws)"
    using l l [of "[]"] by (simp add: remove_command_prefix_def) (simp add: py_lstrip_def nl_def py_isspace_def)
  then have "py_rstrip (remove_command_prefix (command @ nl # out @ ws) command) = py_strip (out @ ws)"
    by (simp add: py_rstrip_def py_lstrip_def py_strip_def)
  with strip_space [OF assms(3)] show ?thesis by simp
qed

text \<open>
  C22. The poll that sees the next prompt returns the output of the command, exactly: the text between the echo of the command
  and the prompt, without the white space around it, with the exit code and the directory that this prompt shows; then
  the session is ready for the next command.
\<close>

theorem output_arrives:
  assumes "te_continue (be_terminal E) (bs_term s)"
    and "get_pane_content E s = (s1, screen j0 (command @ nl # out) j1 post)"
    and "prompt_ok (ps1_env.truncate E) j0" and "prompt_ok (ps1_env.truncate E) j1" and "list_all py_isspace post"
    and "\<not> py_contains (command @ nl # out) ps1_begin" and "command \<noteq> []" and "\<not> py_isspace (hd command)"
    and "pe_loads (ps1_env.truncate E) (nl # j1 @ [nl]) = Some (JObj d)"
    and "from_ps1_match (ps1_env.truncate E) (0, 0, nl # j1 @ [nl]) = Inr md"
    and "bs_prev_output s = []" and "count < 2"
  shows "\<exists>s'. poll E action timeout command count start_time last_output last_change s
      = Some (s', Inr (CmdOutputObservation (new_cmd_output (py_strip out) command
          (md\<lparr>cm_suffix := completed_suffix command (cm_exit_code md)\<rparr>) (cr_hidden action) None None)))
    \<and> bs_prev_status s' = Some CMD_COMPLETED \<and> bs_prev_output s' = []
    \<and> bs_cwd s' = (case cm_working_dir md of None \<Rightarrow> bs_cwd s | Some [] \<Rightarrow> bs_cwd s | Some w \<Rightarrow> w)"
proof -
  let ?P = "ps1_env.truncate E" and ?pane = "screen j0 (command @ nl # out) j1 post"
  let ?ms = "matches_ps1_metadata ?P ?pane"
  note ms = screen_matches [OF assms(3,4,6,5)]
  have ws: "list_all py_isspace ([nl, nl] @ drop 1 post)"
    using assms(5) by (auto simp: list_all_iff nl_def py_isspace_def dest: in_set_dropD)
  have len: "length ?ms = 2" "?ms \<noteq> []" unfolding ms by simp_all
  have md: "from_ps1_match ?P (last ?ms) = Inr md" using assms(10) unfolding ms by (simp add: from_ps1_match_def)
  have out: "py_rstrip (remove_command_prefix (combine_outputs_between_matches ?pane ?ms b) command) = py_strip out" for b
    using screen_output [OF assms(3,4,6,5), of b] echo_removed [OF assms(7,8) ws, of out] by simp
  note look = look_simps [OF assms(2)]
  obtain s' r where run: "handle_completed_command E command ?pane ?ms (cr_hidden action) s1 = (s', r)" by fastforce
  then have "r = Inr (CmdOutputObservation (new_cmd_output (py_strip out) command
      (md\<lparr>cm_suffix := completed_suffix command (cm_exit_code md)\<rparr>) (cr_hidden action) None None))
    \<and> bs_prev_status s' = Some CMD_COMPLETED \<and> bs_prev_output s' = []
    \<and> bs_cwd s' = (case cm_working_dir md of None \<Rightarrow> bs_cwd s | Some [] \<Rightarrow> bs_cwd s | Some w \<Rightarrow> w)"
    using len md out look(3,5) assms(11)
    by (auto simp: handle_completed_command_def get_command_output_def Let_def split: option.splits list.splits if_splits)
  with run show ?thesis
    using assms(1,2,12) len by (subst poll.simps) (auto simp: Let_def)
qed

end
