(* ===== verification/BashSession.thy ===== *)
theory BashSession
  imports BashLaws
begin

text \<open>
  What a shell session keeps over its commands: splitting a text of commands loses nothing but white space, output is
  remembered only of a command that still runs, and what a look that comes too early reports.
\<close>

section \<open>Splitting keeps the commands\<close>

abbreviation ink :: "string \<Rightarrow> string" where
  \<comment> \<open>a text without its white space\<close>
  "ink s \<equiv> filter (\<lambda>c. \<not> py_isspace c) s"

lemma ink_rstrip [simp]: "ink (py_rstrip s) = ink s"
proof -
  have "filter (\<lambda>c. \<not> py_isspace c) (dropWhile py_isspace w) = filter (\<lambda>c. \<not> py_isspace c) w" for w
    by (induction w) auto
  then show ?thesis by (simp add: py_rstrip_def rev_filter [symmetric])
qed

lemma ink_blank: "py_strip s = [] \<Longrightarrow> ink s = []"
  by (simp add: py_strip_def filter_empty_conv) (metis UnE set_append set_takeWhileD takeWhile_dropWhile_id)

fun in_order :: "nat \<Rightarrow> nat \<Rightarrow> (nat \<times> nat) list \<Rightarrow> bool" where
  "in_order len last_end [] = True"
| "in_order len last_end ((start, stop) # ns) = (last_end \<le> start \<and> start \<le> stop \<and> stop \<le> len \<and> in_order len stop ns)"

lemma concat_add_to_last: "ws \<noteq> [] \<Longrightarrow> concat (add_to_last t ws) = concat ws @ t"
  by (induction ws rule: rev_induct) (simp_all add: add_to_last_def)

lemma take_slice: "a \<le> b \<Longrightarrow> take a s @ slice a b s = take b s"
  by (simp add: slice_def) (metis append_take_drop_id min.absorb1 take_take)

lemma ink_up_to: "a \<le> b \<Longrightarrow> ink (take b s) = ink (take a s) @ ink (slice a b s)"
  using take_slice [of a b s] by (metis filter_append)

lemma split_nodes_ink:
  "in_order (length commands) last_end ns \<Longrightarrow> last_end \<le> length commands \<Longrightarrow> ink (concat result) = ink (take last_end commands)
   \<Longrightarrow> split_nodes commands ns result last_end = (result', last_end')
   \<Longrightarrow> ink (concat result') = ink (take last_end' commands) \<and> last_end' \<le> length commands"
proof (induction ns arbitrary: result last_end)
  case (Cons n ns)
  obtain start stop where n: "n = (start, stop)" by fastforce
  define result2 where "result2 = (if last_end < start
            then (if result \<noteq> [] then add_to_last (py_rstrip (slice last_end start commands)) result
                  else if py_strip (slice last_end start commands) \<noteq> [] then result @ [py_rstrip (slice last_end start commands)] else result)
            else result)"
  have le: "last_end \<le> start" "start \<le> stop" "stop \<le> length commands" and ns: "in_order (length commands) stop ns"
    using Cons.prems(1) unfolding n by auto
  have "ink (concat result2) = ink (take start commands)"
    using Cons.prems(3) le(1) ink_blank unfolding result2_def ink_up_to [OF le(1)]
    by (auto simp: concat_add_to_last slice_def)
  then have "ink (concat (result2 @ [py_rstrip (slice start stop commands)])) = ink (take stop commands)"
    unfolding ink_up_to [OF le(2)] by simp
  moreover have "split_nodes commands ns (result2 @ [py_rstrip (slice start stop commands)]) stop = (result', last_end')"
    using Cons.prems(4) unfolding n result2_def by (simp add: Let_def)
  ultimately show ?case using Cons.IH [OF ns le(3)] by blast
qed auto

text \<open>Splitting loses nothing but white space, when the nodes of the parser are in order.\<close>

theorem split_keeps_the_commands:
  assumes "\<And>ns. parse commands = Inr ns \<Longrightarrow> in_order (length commands) 0 (map bn_pos ns)"
  shows "ink (concat (split_bash_commands parse commands)) = ink commands"
proof (cases "py_strip commands = []")
  case True
  then show ?thesis by (simp add: split_bash_commands_def ink_blank)
next
  case False
  show ?thesis
  proof (cases "parse commands")
    case (Inl _)
    with False show ?thesis by (simp add: split_bash_commands_def)
  next
    case (Inr ns)
    obtain result last_end where split: "split_nodes commands (map bn_pos ns) [] 0 = (result, last_end)" by fastforce
    from split_nodes_ink [OF assms [OF Inr] _ _ split]
    have inv: "ink (concat result) = ink (take last_end commands)" "last_end \<le> length commands" by auto
    have all: "ink commands = ink (take last_end commands) @ ink (py_rstrip (drop last_end commands))"
      unfolding ink_rstrip by (metis append_take_drop_id filter_append)
    have split_eq: "split_bash_commands parse commands = (let remaining = py_rstrip (drop last_end commands) in
        if last_end < length commands \<and> result \<noteq> [] then add_to_last remaining result
        else if last_end < length commands \<and> remaining \<noteq> [] then result @ [remaining] else result)"
      using False Inr split by (simp add: split_bash_commands_def)
    have nil: "py_rstrip (drop last_end commands) = []" if "\<not> last_end < length commands" using that by (simp add: py_rstrip_def)
    show ?thesis unfolding all split_eq inv(1) [symmetric] Let_def using nil
      by (cases "last_end < length commands") (simp_all add: concat_add_to_last del: ink_rstrip)
  qed
qed

section \<open>Left-over output\<close>

definition session_ok :: "'t bash_session \<Rightarrow> bool" where
  \<comment> \<open>output is remembered only of a command that goes on\<close>
  "session_ok s = (bs_prev_output s \<noteq> [] \<longrightarrow> still_running (bs_prev_status s))"

lemma completed_ok:
  "session_ok s \<Longrightarrow> handle_completed_command E command pane ms hid s = (s', r) \<Longrightarrow> session_ok s'"
  by (auto simp: handle_completed_command_def session_ok_def get_command_output_def Let_def split: sum.splits option.splits if_splits prod.splits)

lemma unfinished_ok:
  "still_running (bs_prev_status s) \<Longrightarrow> unfinished_command command pane ms sfx hid s = (s', ob) \<Longrightarrow> session_ok s'"
  by (simp add: session_ok_def unfinished_simps)

lemma nochange_ok: "session_ok (fst (handle_nochange_timeout_command command pane ms s))"
  unfolding handle_nochange_timeout_command_def
  by (rule unfinished_ok [OF _ surjective_pairing]) (simp add: still_running_def)

lemma hard_ok: "session_ok (fst (handle_hard_timeout_command command pane ms t s))"
  unfolding handle_hard_timeout_command_def
  by (rule unfinished_ok [OF _ surjective_pairing]) (simp add: still_running_def)

lemma poll_ok:
  assumes "poll E action timeout command count start_time last_output last_change s = Some r" and "session_ok s"
  shows "session_ok (fst r)"
  using assms
proof (induction E action timeout command count start_time last_output last_change s r rule: poll.raw_induct [rotated, consumes 1])
  case (1 poll E action timeout command count start_time last_output last_change s r)
  obtain s1 pane where look: "get_pane_content E s = (s1, pane)" by fastforce
  have ok: "session_ok s1" using 1(3) look_simps [OF look] by (simp add: session_ok_def)
  have slept: "session_ok (sleep E q s1)" for q using ok by (simp add: session_ok_def)
  obtain s2 ob where compl: "handle_completed_command E command pane (matches_ps1_metadata (ps1_env.truncate E) pane) (cr_hidden action) s1 = (s2, ob)"
    by fastforce
  have "session_ok (fst (handle_completed_command E command pane (matches_ps1_metadata (ps1_env.truncate E) pane) (cr_hidden action) s1))"
    using completed_ok [OF ok compl] compl by simp
  with 1(2,3) look nochange_ok hard_ok show ?case
   by (auto simp: Let_def returned_def intro: 1(1) [OF _ slept] split: if_splits sum.splits)
qed

text \<open>
  Output that the session remembers to cut it from the next report is always of a command that still runs: every run of
  \<open>execute\<close> keeps it so, whatever the terminal shows, errors included, so that nothing is cut from the output of a new command.
\<close>

theorem execute_keeps_session_ok:
  assumes "session_ok s" and "bash_execute E action timeout s = Some (s', r)"
  shows "session_ok s'"
proof -
  obtain s1 pane where look: "get_pane_content E s = (s1, pane)" by fastforce
  have ok: "session_ok s1" and sent: "session_ok (send_keys E k b s1)" for k b
    using assms(1) look_simps [OF look] by (simp_all add: session_ok_def)
  have un: "session_ok (fst (unfinished_command command pane ms sfx hid s1))"
    if "bs_prev_status s1 = Some st" "st = HARD_TIMEOUT \<or> st = NO_CHANGE_TIMEOUT" for command ms sfx hid st
    by (rule unfinished_ok [OF _ surjective_pairing]) (use that in \<open>auto simp: still_running_def\<close>)
  from assms look look_simps(2) [OF look, symmetric] ok show ?thesis
    by (auto simp: bash_execute_def Let_def returned_def dest: poll_ok [OF _ ok] poll_ok [OF _ sent] intro: un split: if_splits sum.splits)
qed

section \<open>A prompt that was there before\<close>

lemma completed_at_prompt:
  assumes "handle_completed_command E command pane ms hid s = (s', r)" and "ms \<noteq> []"
    and "from_ps1_match (ps1_env.truncate E) (last ms) = Inr md" and "bs_prev_output s = []"
  shows "\<exists>md2. r = Inr (CmdOutputObservation (new_cmd_output
      (py_rstrip (remove_command_prefix (combine_outputs_between_matches pane ms (length ms = 1)) command)) command md2 hid None None))
    \<and> cm_exit_code md2 = cm_exit_code md"
    "bs_prev_status s' = Some CMD_COMPLETED"
proof -
  have "get_command_output command raw md2 [] (case cm_working_dir md of None \<Rightarrow> s | Some d \<Rightarrow> if d \<noteq> bs_cwd s \<and> d \<noteq> [] then s\<lparr>bs_cwd := d\<rparr> else s)
      = ((case cm_working_dir md of None \<Rightarrow> s | Some d \<Rightarrow> if d \<noteq> bs_cwd s \<and> d \<noteq> [] then s\<lparr>bs_cwd := d\<rparr> else s)\<lparr>bs_prev_output := raw\<rparr>,
         md2, py_rstrip (remove_command_prefix raw command))" for raw md2
    using assms(4) by (simp add: get_command_output_def split: option.split)
  note run = assms(1) [unfolded handle_completed_command_def Let_def, simplified assms(2,3) this if_False sum.case option.case prod.case]
  show "\<exists>md2. r = Inr (CmdOutputObservation (new_cmd_output
      (py_rstrip (remove_command_prefix (combine_outputs_between_matches pane ms (length ms = 1)) command)) command md2 hid None None))
    \<and> cm_exit_code md2 = cm_exit_code md"
    using run by (auto simp del: One_nat_def)
  show "bs_prev_status s' = Some CMD_COMPLETED" using run by auto
qed

text \<open>
  A command ends with the first look at a screen that still ends with a prompt, also when it is the prompt the command was
  typed at: when the terminal has not shown anything new yet, the command is reported as completed, with the exit code of
  the command before it and no output, although it may just be starting.
\<close>

theorem early_look_reports_completion:
  assumes "bs_initialized s" and "\<not> still_running (bs_prev_status s)" and "py_strip (cr_command action) = command"
    and "command \<noteq> []" and "\<not> cr_is_input action" and "length (split_bash_commands (be_parse E) command) \<le> 1"
    and "get_pane_content E s = (s1, prompt_block j)" and "escape_bash_special_chars (be_parse E) command = Inr typed"
    and "s2 = send_keys E typed (\<not> is_special_key command) s1" and "te_continue (be_terminal E) (bs_term s2)"
    and "get_pane_content E s2 = (s3, prompt_block j)" and "prompt_ok (ps1_env.truncate E) j"
    and "from_ps1_match (ps1_env.truncate E) (0, 0, nl # j @ [nl]) = Inr md" and "session_ok s"
  shows "\<exists>s' ob. bash_execute E action timeout s = Some (s', Inr (CmdOutputObservation ob))
    \<and> co_content ob = [] \<and> cm_exit_code (co_metadata ob) = cm_exit_code md \<and> bs_prev_status s' = Some CMD_COMPLETED"
proof -
  let ?P = "ps1_env.truncate E" and ?pane = "prompt_block j"
  have ms: "matches_ps1_metadata ?P ?pane = [(0, length ?pane, nl # j @ [nl])]"
    using scan_block [of j 0 "[]"] scan_rest [of "[]"] assms(12) by (simp add: matches_ps1_metadata_def prompt_ok_def)
  have "py_rstrip ?pane = ?pane" by (simp add: py_rstrip_def ps1_end_def py_isspace_def prompt_block_def)
  then have ends: "ends_with_prompt ?pane" by (simp add: ends_with_prompt_def py_endswith_def prompt_block_def)
  have prev: "bs_prev_output s3 = []" using assms(2,14) look_simps(3) [OF assms(11)] look_simps(3) [OF assms(7)] assms(9)
    by (simp add: session_ok_def)
  have dec: "from_ps1_match ?P (0, b, nl # j @ [nl]) = Inr md" for b using assms(13) by (simp add: from_ps1_match_def)
  have no_output: "py_rstrip (remove_command_prefix [] typed) = []"
    by (simp add: remove_command_prefix_def py_removeprefix_def py_lstrip_def py_rstrip_def)
  have short: "maybe_truncate MAX_CMD_OUTPUT_SIZE [] = []" by (simp add: maybe_truncate_def)
  obtain s' r where run: "handle_completed_command E typed ?pane (matches_ps1_metadata ?P ?pane) (cr_hidden action) s3 = (s', r)" by fastforce
  have r: "\<exists>ob. r = Inr (CmdOutputObservation ob) \<and> co_content ob = [] \<and> cm_exit_code (co_metadata ob) = cm_exit_code md"
    "bs_prev_status s' = Some CMD_COMPLETED"
    using completed_at_prompt [OF run _ _ prev] dec no_output short unfolding ms
    by (auto simp: combine_outputs_between_matches_def new_cmd_output_def)
  have "poll E action timeout typed c st (prompt_block j) ch s2 = Some (s', r)" for c st ch
    using assms(10,11) ends run by (subst poll.simps) (simp add: Let_def)
  moreover have "\<not> (bs_prev_status s = Some HARD_TIMEOUT \<or> bs_prev_status s = Some NO_CHANGE_TIMEOUT)"
    using assms(2) by (auto simp: still_running_def)
  ultimately show ?thesis
    using assms(1-7) r(1) r(2) ends assms(8) unfolding assms(9) by (auto simp: bash_execute_def Let_def)
qed

section \<open>A parser that fails\<close>

lemma py_strip_again: "py_strip (py_strip s) = py_strip s"
proof (cases "dropWhile py_isspace s = []")
  case False
  define x where "x = dropWhile py_isspace s"
  have x: "x \<noteq> []" "\<not> py_isspace (hd x)" using False hd_dropWhile [of py_isspace s] by (auto simp: x_def)
  define y where "y = dropWhile py_isspace (rev x)"
  have last: "last y = hd x" using dropWhile_last [of "hd x" "rev x" py_isspace] x by (simp add: y_def last_rev)
  have y: "y \<noteq> []" using x by (auto simp: y_def)
  moreover have "\<not> py_isspace (hd y)" using y hd_dropWhile [of py_isspace "rev x"] by (simp add: y_def)
  ultimately have "py_strip (rev y) = rev y" using x(2) last by (intro py_strip_id) (simp_all add: hd_rev last_rev)
  then show ?thesis by (simp add: py_strip_def x_def y_def)
qed (simp only: py_strip_def rev.simps dropWhile.simps)

text \<open>
  A text on which the parser raises \<open>AttributeError\<close> is accepted as one command, since splitting catches this error, and
  then fails: escaping does not catch it, so with nothing else in the way \<open>execute\<close> raises it and the command is never typed.
\<close>

theorem attribute_error_of_the_parser_escapes:
  assumes "bs_initialized s" and "\<not> still_running (bs_prev_status s)" and "py_strip (cr_command action) = command"
    and "command \<noteq> []" and "\<not> cr_is_input action" and "be_parse E command = Inl (AttributeFailure m)"
  shows "split_bash_commands (be_parse E) command = [command]
    \<and> bash_execute E action timeout s = Some (fst (get_pane_content E s), Inl (AttributeError m))"
proof -
  have strip: "py_strip command \<noteq> []" using assms(3,4) py_strip_again [of "cr_command action"] by simp
  then have "split_bash_commands (be_parse E) command = [command]"
    and "escape_bash_special_chars (be_parse E) command = Inl (AttributeError m)"
    using assms(6) by (simp_all add: split_bash_commands_def escape_bash_special_chars_def)
  moreover obtain s1 pane where "get_pane_content E s = (s1, pane)" by fastforce
  ultimately show ?thesis
    using assms look_simps(2) [of E s s1 pane] by (auto simp: bash_execute_def Let_def still_running_def)
qed

end
