(* ===== verification/BashExamples.thy ===== *)
theory BashExamples
  imports BashSession
begin

text \<open>The theorems on the shell session at a terminal that shows a list of screens, one per look, and counts the time.\<close>

section \<open>A terminal\<close>

record scripted =
  sc_screens :: "string list list"
  sc_clock :: rat

definition scripted_look :: "scripted \<Rightarrow> scripted \<times> string list" where
  \<comment> \<open>the last screen stays\<close>
  "scripted_look t = (case sc_screens t of
       [] \<Rightarrow> (t, []) | [l] \<Rightarrow> (t, l) | l # ls \<Rightarrow> (t\<lparr>sc_screens := ls\<rparr>, l))"

definition scripted_terminal :: "scripted terminal" where
  "scripted_terminal = \<lparr>te_look = scripted_look, te_keys = (\<lambda>_ _ t. t), te_clear_history = id,
     te_sleep = (\<lambda>q t. t\<lparr>sc_clock := sc_clock t + q\<rparr>), te_time = sc_clock, te_continue = (\<lambda>_. True)\<rparr>"

definition ps1_json :: string where "ps1_json = ''{..7..}''"

definition scripted_env :: "scripted bash_env" where
  "scripted_env = \<lparr>pe_loads = (\<lambda>s. if py_strip s = ps1_json then Some (JObj [(''exit_code'', JStr ''7''), (''working_dir'', JStr ''/w'')]) else None),
     pe_float = (\<lambda>s. if s = ''7'' then Some 7 else None), be_terminal = scripted_terminal,
     be_parse = (\<lambda>s. if s = ''((a'' then Inl (AttributeFailure ''kind'') else if s = ''ls'' @ [nl] @ ''pwd'' then Inr [Node ''command'' (0, 2) None [], Node ''command'' (3, 6) None []]
        else Inr [Node ''command'' (0, length s) None [Node ''word'' (0, length s) None []]])\<rparr>"

definition prompt_lines :: "string list" where "prompt_lines = [ps1_begin, ps1_json, ps1_end]"

definition idle :: "string list list \<Rightarrow> scripted bash_session" where
  "idle screens = \<lparr>bs_initialized = True, bs_no_change_timeout = 30, bs_prev_status = None, bs_prev_output = [], bs_cwd = ''/'',
     bs_term = \<lparr>sc_screens = screens, sc_clock = 0\<rparr>\<rparr>"

definition command_action :: "string \<Rightarrow> bool \<Rightarrow> cmd_run_action" where
  "command_action c is_input = \<lparr>cr_command = c, cr_is_input = is_input, cr_thought = [], cr_blocking = True, cr_is_static = False,
     cr_cwd = None, cr_hidden = False, cr_confirmation_state = CONFIRMED, cr_security_risk = None\<rparr>"

definition seven :: cmd_output_metadata where
  "seven = default_metadata\<lparr>cm_exit_code := 7, cm_working_dir := Some ''/w''\<rparr>"

lemma scripted_prompt:
  "prompt_ok (ps1_env.truncate scripted_env) ps1_json"
  "pe_loads (ps1_env.truncate scripted_env) (nl # ps1_json @ [nl]) = Some (JObj [(''exit_code'', JStr ''7''), (''working_dir'', JStr ''/w'')])"
  "from_ps1_match (ps1_env.truncate scripted_env) (0, 0, nl # ps1_json @ [nl]) = Inr seven"
  by code_simp+

section \<open>Witnesses\<close>

theorem refused_commands_are_not_typed_witness:
  "\<exists>s' ob. bash_execute scripted_env (command_action ''y'' True) None (idle []) = Some (s', Inr ob) \<and> bs_prev_status s' = None"
  using refused_commands_are_not_typed [of "idle []" "command_action ''y'' True" "''y''" scripted_env None]
  by (auto simp: idle_def command_action_def still_running_def py_strip_def py_isspace_def)

theorem command_with_timeout_returns_witness:
  "\<exists>r. bash_execute scripted_env (command_action ''cat'' False) (Some 2) (idle [[''cat'']]) = Some r"
  by (rule command_with_timeout_returns)
    (auto simp: clock_ok_def scripted_env_def scripted_terminal_def scripted_look_def split: list.splits)

theorem output_arrives_witness:
  "\<exists>s'. poll scripted_env (command_action ''ls'' False) None ''ls'' 1 0 [] 0 (idle [prompt_lines @ [''ls'', ''a b'', []] @ prompt_lines])
      = Some (s', Inr (CmdOutputObservation (new_cmd_output ''a b'' ''ls''
          (seven\<lparr>cm_suffix := completed_suffix ''ls'' 7\<rparr>) False None None)))
    \<and> bs_cwd s' = ''/w''"
proof -
  have look: "get_pane_content scripted_env (idle [prompt_lines @ [''ls'', ''a b'', []] @ prompt_lines])
    = (idle [prompt_lines @ [''ls'', ''a b'', []] @ prompt_lines], screen ps1_json (''ls'' @ nl # ''a b'' @ [nl]) ps1_json [])"
    by code_simp
  have out: "py_strip (''a b'' @ [nl]) = ''a b''" and md: "cm_exit_code seven = 7" "cm_working_dir seven = Some ''/w''"
    and fr: "\<not> py_contains (''ls'' @ nl # ''a b'' @ [nl]) ps1_begin" and cmd: "''ls'' \<noteq> []" "\<not> py_isspace (hd ''ls'')"
    by code_simp+
  have st: "te_continue (be_terminal scripted_env) (bs_term (idle [prompt_lines @ [''ls'', ''a b'', []] @ prompt_lines]))"
    by (simp add: scripted_env_def scripted_terminal_def)
  have prev: "bs_prev_output (idle x) = []" for x by (simp add: idle_def)
  from output_arrives [OF st look scripted_prompt(1) scripted_prompt(1) _ fr cmd scripted_prompt(2,3) prev,
      of 1 "command_action ''ls'' False" None 0 "[]" 0]
  show ?thesis by (auto simp: out [simplified] md command_action_def)
qed

theorem split_keeps_the_commands_witness:
  "ink (concat (split_bash_commands (be_parse scripted_env) (''ls'' @ [nl] @ ''pwd''))) = ''lspwd''"
  using split_keeps_the_commands [of "be_parse scripted_env" "''ls'' @ [nl] @ ''pwd''"]
  by (simp add: scripted_env_def py_isspace_def nl_def)

theorem execute_keeps_session_ok_witness:
  "\<exists>s' r. bash_execute scripted_env (command_action [] False) None (idle []) = Some (s', r) \<and> session_ok s'"
proof -
  have "bash_execute scripted_env (command_action [] False) None (idle [])
    = Some (returned (idle [], refused ''ERROR: No previous running command to retrieve logs from.''))"
    by (simp add: bash_execute_def idle_def command_action_def still_running_def py_strip_def Let_def)
  with execute_keeps_session_ok [of "idle []" scripted_env "command_action [] False" None] show ?thesis
    by (auto simp: returned_def session_ok_def idle_def)
qed

theorem early_look_reports_completion_witness:
  "\<exists>s' ob. bash_execute scripted_env (command_action ''ls'' False) None (idle [prompt_lines]) = Some (s', Inr (CmdOutputObservation ob))
    \<and> co_content ob = [] \<and> cm_exit_code (co_metadata ob) = 7"
proof -
  have look: "get_pane_content scripted_env (idle [prompt_lines]) = (idle [prompt_lines], prompt_block ps1_json)"
    by code_simp
  have typed: "escape_bash_special_chars (be_parse scripted_env) ''ls'' = Inr ''ls''" "length (split_bash_commands (be_parse scripted_env) ''ls'') \<le> 1"
    "py_strip (cr_command (command_action ''ls'' False)) = ''ls''" "''ls'' \<noteq> []" "\<not> cr_is_input (command_action ''ls'' False)"
    "bs_initialized (idle [prompt_lines])" "\<not> still_running (bs_prev_status (idle [prompt_lines]))" "cm_exit_code seven = 7"
    by code_simp+
  have same: "send_keys scripted_env k b s = s" for k b s by (simp add: send_keys_def scripted_env_def scripted_terminal_def)
  have st: "te_continue (be_terminal scripted_env) t" for t by (simp add: scripted_env_def scripted_terminal_def)
  have ok: "session_ok (idle x)" for x by (simp add: session_ok_def idle_def)
  from early_look_reports_completion [OF typed(6,7,3,4,5,2) look typed(1) refl, unfolded same, OF st look scripted_prompt(1,3) ok, of None] typed(8)
  show ?thesis by auto
qed

theorem attribute_error_of_the_parser_escapes_witness:
  "bash_execute scripted_env (command_action ''((a'' False) None (idle [prompt_lines]) = Some (idle [prompt_lines], Inl (AttributeError ''kind''))"
proof -
  have look: "fst (get_pane_content scripted_env (idle [prompt_lines])) = idle [prompt_lines]" by code_simp
  have typed: "py_strip (cr_command (command_action ''((a'' False)) = ''((a''" "''((a'' \<noteq> []" "\<not> cr_is_input (command_action ''((a'' False)"
    "bs_initialized (idle [prompt_lines])" "\<not> still_running (bs_prev_status (idle [prompt_lines]))"
    "be_parse scripted_env ''((a'' = Inl (AttributeFailure ''kind'')"
    by code_simp+
  from attribute_error_of_the_parser_escapes [OF typed(4,5,1,2,3,6), of None] look show ?thesis by simp
qed

end
