(* ===== verification/Patches.thy ===== *)
theory Patches
  imports Texts
begin

text \<open>
  Reading and applying patches (\<open>openhands/resolver/patching\<close>): the changes of unified, plain and RCS diffs, and \<open>apply_diff\<close>,
  which checks the context of a patch against a text and carries out its changes.

  A change is the named tuple of the code: the old line number, the new one, the line and the number of its hunk. The external
  \<open>patch\<close> program is not used by default and left out.
\<close>

section \<open>Matching lines\<close>

type_synonym patch_change = "int option \<times> int option \<times> string option \<times> nat"

definition is_digit :: "char \<Rightarrow> bool" where
  "is_digit c = (char_digit c \<noteq> None)"

definition digits_of :: "string \<Rightarrow> string \<times> string" where
  "digits_of s = (takeWhile is_digit s, dropWhile is_digit s)"

definition int_of_text :: "string \<Rightarrow> int" where
  \<comment> \<open>\<open>int\<close> of a text of digits\<close>
  "int_of_text s = (case py_int s of Some i \<Rightarrow> i | None \<Rightarrow> 0)"

definition range_at :: "string \<Rightarrow> (string \<times> string \<times> string) option" where
  \<comment> \<open>\<open>(\d+),?(\d*)\<close> at the start of a text: both groups and the rest\<close>
  "range_at s = (case digits_of s of (a, r) \<Rightarrow>
     if a = [] then None
     else case digits_of (if py_startswith r '','' then tl r else r) of (b, r) \<Rightarrow> Some (a, b, r))"

definition dots :: "string \<Rightarrow> string option" where
  \<comment> \<open>\<open>(.*)$\<close>: a line break can only be the last character\<close>
  "dots s = (if nl \<notin> set s then Some s else if last s = nl \<and> nl \<notin> set (butlast s) then Some (butlast s) else None)"

definition unified_hunk_start :: "string \<Rightarrow> (string \<times> string \<times> string \<times> string) option" where
  "unified_hunk_start s =
     (if \<not> py_startswith s ''@@ -'' then None
      else case range_at (drop 4 s) of
        None \<Rightarrow> None
      | Some (a, b, r) \<Rightarrow>
          if \<not> py_startswith r '' +'' then None
          else case range_at (drop 2 r) of
            None \<Rightarrow> None
          | Some (c, d, r) \<Rightarrow>
              if py_startswith r '' @@'' \<and> dots (drop 3 r) \<noteq> None then Some (a, b, c, d) else None)"

definition default_hunk_start :: "string \<Rightarrow> (string \<times> string \<times> string \<times> string) option" where
  \<comment> \<open>the groups of the line numbers\<close>
  "default_hunk_start s = (case range_at s of
       None \<Rightarrow> None
     | Some (a, b, r) \<Rightarrow>
         if r = [] \<or> hd r \<notin> set ''acd'' then None
         else case range_at (tl r) of
           None \<Rightarrow> None
         | Some (c, d, r) \<Rightarrow> if r = [] \<or> r = [nl] then Some (a, b, c, d) else None)"

definition default_change :: "string \<Rightarrow> (char \<times> string) option" where
  "default_change s = (case s of
       k # sp # t \<Rightarrow> if (k = CHR ''>'' \<or> k = CHR ''<'') \<and> sp = CHR '' '' then map_option (Pair k) (dots t) else None
     | _ \<Rightarrow> None)"

definition rcs_ed_hunk_start :: "string \<Rightarrow> (char \<times> string \<times> string) option" where
  \<comment> \<open>\<open>^([ad])(\d+) ?(\d*)$\<close>\<close>
  "rcs_ed_hunk_start s = (case s of
       [] \<Rightarrow> None
     | k # t \<Rightarrow> if k \<noteq> CHR ''a'' \<and> k \<noteq> CHR ''d'' then None
         else case digits_of t of (a, r) \<Rightarrow>
           if a = [] then None
           else case digits_of (if py_startswith r '' '' then tl r else r) of (b, r) \<Rightarrow>
             if r = [] \<or> r = [nl] then Some (k, a, b) else None)"

section \<open>Splitting into hunks\<close>

definition findall_regex :: "string list \<Rightarrow> (string \<Rightarrow> 'm option) \<Rightarrow> nat list" where
  "findall_regex items match = filter (\<lambda>i. match (items ! i) \<noteq> None) [0..<length items]"

fun split_at_indices :: "string list \<Rightarrow> nat list \<Rightarrow> string list list" where
  \<comment> \<open>the chunks between matches, and the last\<close>
  "split_at_indices items [] = []"
| "split_at_indices items [i] = [drop i items]"
| "split_at_indices items (i # j # js) = drop i (take j items) # split_at_indices items (j # js)"

definition split_by_regex :: "string list \<Rightarrow> (string \<Rightarrow> 'm option) \<Rightarrow> string list list" where
  "split_by_regex items match = (case findall_regex items match of
       [] \<Rightarrow> [items]
     | i # js \<Rightarrow> take i items # split_at_indices items (i # js))"

fun to_header :: "(string \<Rightarrow> 'm option) \<Rightarrow> string list \<Rightarrow> ('m \<times> string list) option" where
  \<comment> \<open>drops lines up to the first that matches, which is dropped as well\<close>
  "to_header match [] = None"
| "to_header match (l # ls) = (case match l of Some h \<Rightarrow> Some (h, ls) | None \<Rightarrow> to_header match ls)"

definition none_if_empty :: "patch_change list \<Rightarrow> patch_change list option" where
  "none_if_empty cs = (if cs = [] then None else Some cs)"

section \<open>Unified diffs\<close>

fun unified_lines :: "int \<Rightarrow> int \<Rightarrow> int \<Rightarrow> int \<Rightarrow> nat \<Rightarrow> int \<Rightarrow> int \<Rightarrow> string list \<Rightarrow> patch_change list" where
  \<comment> \<open>the start and length of the hunk in the old and in the new text, its number, and the lines seen of both\<close>
  "unified_lines old old_len new new_len h r i [] = []"
| "unified_lines old old_len new new_len h r i (n # ns) =
     (let kind = (if n = [] then CHR '' '' else hd n); line = (if 1 < length n then tl n else []) in
      if kind = CHR ''-'' \<and> (r \<noteq> old_len \<or> r = 0)
      then (Some (old + r), None, Some line, h) # unified_lines old old_len new new_len h (r + 1) i ns
      else if kind = CHR ''+'' \<and> (i \<noteq> new_len \<or> i = 0)
      then (None, Some (new + i), Some line, h) # unified_lines old old_len new new_len h r (i + 1) ns
      else if kind = CHR '' ''
      then (Some (old + r), Some (new + i), Some line, h) # unified_lines old old_len new new_len h (r + 1) (i + 1) ns
      else unified_lines old old_len new new_len h r i ns)"

definition count_of :: "string \<Rightarrow> int" where
  \<comment> \<open>a length that is not given is one\<close>
  "count_of s = (if s = [] then 1 else int_of_text s)"

definition unified_hunk :: "nat \<times> string list \<Rightarrow> patch_change list" where
  "unified_hunk = (\<lambda>(h, hunk). case to_header unified_hunk_start hunk of
       None \<Rightarrow> []
     | Some ((a, b, c, d), ls) \<Rightarrow> unified_lines (int_of_text a) (count_of b) (int_of_text c) (count_of d) h 0 0 ls)"

definition parse_unified_diff :: "string list \<Rightarrow> patch_change list option" where
  "parse_unified_diff ls = none_if_empty (concat (map unified_hunk (enumerate 0 (split_by_regex ls unified_hunk_start))))"

section \<open>Plain diffs\<close>

definition span_of :: "int \<Rightarrow> string \<Rightarrow> int" where
  "span_of start s = (if s = [] then 0 else int_of_text s - start + 1)"

fun default_lines :: "int \<Rightarrow> int \<Rightarrow> int \<Rightarrow> int \<Rightarrow> nat \<Rightarrow> int \<Rightarrow> int \<Rightarrow> string list \<Rightarrow> patch_change list" where
  "default_lines old old_len new new_len h r i [] = []"
| "default_lines old old_len new new_len h r i (l # ls) = (case default_hunk_start l of
       Some (a, b, c, d) \<Rightarrow> default_lines (int_of_text a) (span_of (int_of_text a) b) (int_of_text c) (span_of (int_of_text c) d) h r i ls
     | None \<Rightarrow> (case default_change l of
         None \<Rightarrow> default_lines old old_len new new_len h r i ls
       | Some (kind, line) \<Rightarrow>
           if kind = CHR ''<'' \<and> (r \<noteq> old_len \<or> r = 0)
           then (Some (old + r), None, Some line, h) # default_lines old old_len new new_len h (r + 1) i ls
           else if kind = CHR ''>'' \<and> (i \<noteq> new_len \<or> i = 0)
           then (None, Some (new + i), Some line, h) # default_lines old old_len new new_len h r (i + 1) ls
           else default_lines old old_len new new_len h r i ls))"

definition parse_default_diff :: "string list \<Rightarrow> patch_change list option" where
  \<comment> \<open>the numbers are kept from hunk to hunk, but every hunk after the first chunk starts with its own\<close>
  "parse_default_diff ls = none_if_empty
     (concat (map (\<lambda>(h, hunk). default_lines 0 0 0 0 h 0 0 hunk) (enumerate 0 (split_by_regex ls default_hunk_start))))"

section \<open>RCS diffs\<close>

fun rcs_adds :: "int \<Rightarrow> nat \<Rightarrow> nat \<Rightarrow> int \<Rightarrow> string list \<Rightarrow> patch_change list \<times> int \<times> string list" where
  \<comment> \<open>the lines of an addition: the first number is what is left of its size, then \<open>h\<close>, the old line and \<open>j\<close>\<close>
  "rcs_adds old 0 h j ls = ([], j, ls)"
| "rcs_adds old (Suc n) h j [] = ([], j, [])"
| "rcs_adds old (Suc n) h j (l # ls) = (case rcs_adds old n h (j + 1) ls of (cs, j', rest) \<Rightarrow> ((None, Some (old + j), Some l, h) # cs, j', rest))"

fun rcs_dels :: "int \<Rightarrow> nat \<Rightarrow> nat \<Rightarrow> int \<Rightarrow> patch_change list \<times> int" where
  "rcs_dels old 0 h j = ([], j)"
| "rcs_dels old (Suc n) h j = (case rcs_dels old n h (j + 1) of (cs, j') \<Rightarrow> ((Some (old + j), None, None, h) # cs, j'))"

lemma rcs_adds_length: "rcs_adds old n h j ls = (cs, j', rest) \<Longrightarrow> length rest \<le> length ls"
  by (induction old n h j ls arbitrary: cs j' rest rule: rcs_adds.induct) (fastforce split: prod.splits)+

function rcs_lines :: "nat \<Rightarrow> int \<Rightarrow> int \<Rightarrow> string list \<Rightarrow> patch_change list \<times> int" where
  \<comment> \<open>a hunk, with \<open>j\<close> and \<open>total_change_size\<close>\<close>
  "rcs_lines h j grown [] = ([], grown)"
| "rcs_lines h j grown (l # ls) = (case rcs_ed_hunk_start l of
       None \<Rightarrow> rcs_lines h j grown ls
     | Some (kind, a, b) \<Rightarrow>
         let old = int_of_text a; size = (if b = [] then 0 else int_of_text b) in
         if kind = CHR ''a''
         then (case rcs_adds (old + grown + 1) (nat size) h j ls of (cs, j, rest) \<Rightarrow>
                 (case rcs_lines h j (grown + size) rest of (cs', grown) \<Rightarrow> (cs @ cs', grown)))
         else (case rcs_dels old (nat size) h j of (cs, j) \<Rightarrow>
                 (case rcs_lines h j (grown - size) ls of (cs', grown) \<Rightarrow> (cs @ cs', grown))))"
  by pat_completeness auto
termination
  by (relation "measure (\<lambda>(_, _, _, ls). length ls)") (auto dest!: rcs_adds_length [OF sym])

fun rcs_hunks :: "int \<Rightarrow> (nat \<times> string list) list \<Rightarrow> patch_change list" where
  "rcs_hunks grown [] = []"
| "rcs_hunks grown ((h, hunk) # hs) = (case rcs_lines h 0 grown hunk of (cs, grown) \<Rightarrow> cs @ rcs_hunks grown hs)"

definition parse_rcs_ed_diff :: "string list \<Rightarrow> patch_change list option" where
  "parse_rcs_ed_diff ls = none_if_empty (rcs_hunks 0 (enumerate 0 (split_by_regex ls rcs_ed_hunk_start)))"

section \<open>Applying changes\<close>

fun py_words_aux :: "string \<Rightarrow> string \<Rightarrow> string list" where
  \<comment> \<open>the first text is the word so far, reversed\<close>
  "py_words_aux w [] = (if w = [] then [] else [rev w])"
| "py_words_aux w (c # s) =
     (if py_isspace c then (if w = [] then py_words_aux [] s else rev w # py_words_aux [] s) else py_words_aux (c # w) s)"

definition normalized :: "string \<Rightarrow> string" where
  \<comment> \<open>\<open>' '.join(line.split())\<close>\<close>
  "normalized s = py_join '' '' (py_words_aux [] s)"

definition hunk_apply_exception :: "string \<Rightarrow> nat \<Rightarrow> py_error" where
  "hunk_apply_exception msg h = OtherError ''HunkApplyException'' (msg @ '', in hunk #'' @ str_of_nat h)"

definition double_quoted :: "string \<Rightarrow> string" where "double_quoted s = CHR 0x22 # s @ [CHR 0x22]"

definition reverse_changes :: "patch_change list \<Rightarrow> patch_change list" where
  "reverse_changes changes = map (\<lambda>(old, new, line, h). (new, old, line, h)) changes"

definition check_change :: "string list \<Rightarrow> patch_change \<Rightarrow> unit res" where
  "check_change ls = (\<lambda>(old, new, line, h). case (old, line) of
       (Some old, Some line) \<Rightarrow>
         if int (length ls) < old
         then Inl (hunk_apply_exception (''context line '' @ str_of_int old @ '', '' @ double_quoted line @ '' does not exist in source'') h)
         else bind_res (py_get ls (old - 1)) (\<lambda>sl.
           if sl \<noteq> line \<and> normalized line \<noteq> normalized sl
           then Inl (hunk_apply_exception (''context line '' @ str_of_int old @ '', '' @ double_quoted line @ '' does not match '' @ double_quoted sl) h)
           else Inr ())
     | _ \<Rightarrow> Inr ())"

definition py_del :: "'a list \<Rightarrow> int \<Rightarrow> 'a list res" where
  \<comment> \<open>\<open>del xs[i]\<close>\<close>
  "py_del xs i = bind_res (py_get xs i) (\<lambda>_. let k = py_clamp i (length xs) in Inr (take k xs @ drop (Suc k) xs))"

fun apply_changes :: "int \<Rightarrow> int \<Rightarrow> patch_change list \<Rightarrow> string list \<Rightarrow> string list res" where
  \<comment> \<open>with \<open>r\<close> and \<open>i\<close>, the lines removed and inserted so far; a line \<open>None\<close> is not inserted\<close>
  "apply_changes r i [] ls = Inr ls"
| "apply_changes r i ((Some old, None, line, h) # cs) ls = bind_res (py_del ls (old - 1 - r + i)) (apply_changes (r + 1) i cs)"
| "apply_changes r i ((None, Some new, Some line, h) # cs) ls = apply_changes r (i + 1) cs (py_insert (new - 1) line ls)"
| "apply_changes r i ((None, Some new, None, h) # cs) ls = Inl (OtherError ''ill-typed'' [])"
| "apply_changes r i ((Some old, Some new, line, h) # cs) ls = apply_changes r i cs ls"
| "apply_changes r i ((None, None, line, h) # cs) ls = apply_changes r i cs ls"

definition apply_diff :: "bool \<Rightarrow> patch_change list \<Rightarrow> string list \<Rightarrow> string list res" where
  "apply_diff reverse changes ls =
     (let changes = (if reverse then reverse_changes changes else changes) in
      bind_res (map_res (check_change ls) changes) (\<lambda>_. apply_changes 0 0 changes ls))"

end
