(* ===== verification/PatchLaws.thy ===== *)
theory PatchLaws
  imports Patches
begin

text \<open>
  A patch against what it means. An edit script says of every line of two texts whether it is left alone, shown as context,
  removed or added; the changes of a script, applied to the first text, give the second, and the reverse gives the
  first. The scripts are then written as unified, plain and RCS diffs, and read back.
\<close>

section \<open>Edit scripts\<close>

text \<open>A line outside of the hunks; a context line and a removed line as the patch has it and as the text has it; an added line.\<close>

datatype edit = Skip string | Keep string string | Del "string option" string | Add string

fun source :: "edit list \<Rightarrow> string list" where
  "source [] = []"
| "source (Skip s # es) = s # source es"
| "source (Keep c s # es) = s # source es"
| "source (Del c s # es) = s # source es"
| "source (Add l # es) = source es"

fun target :: "edit list \<Rightarrow> string list" where
  "target [] = []"
| "target (Skip s # es) = s # target es"
| "target (Keep c s # es) = s # target es"
| "target (Del c s # es) = target es"
| "target (Add l # es) = l # target es"

fun same_text :: "string \<Rightarrow> string \<Rightarrow> bool" where
  "same_text c s = (c = s \<or> normalized c = normalized s)"

fun fits :: "edit \<Rightarrow> bool" where
  \<comment> \<open>the patch shows the line of the text, up to white space\<close>
  "fits (Skip s) = True"
| "fits (Keep c s) = same_text c s"
| "fits (Del (Some c) s) = same_text c s"
| "fits (Del None s) = True"
| "fits (Add l) = True"

fun changes_of :: "int \<Rightarrow> int \<Rightarrow> edit list \<Rightarrow> (int option \<times> int option \<times> string option) list" where
  \<comment> \<open>from a line of the old and a line of the new text on\<close>
  "changes_of p q [] = []"
| "changes_of p q (Skip s # es) = changes_of (p + 1) (q + 1) es"
| "changes_of p q (Keep c s # es) = (Some p, Some q, Some c) # changes_of (p + 1) (q + 1) es"
| "changes_of p q (Del c s # es) = (Some p, None, c) # changes_of (p + 1) q es"
| "changes_of p q (Add l # es) = (None, Some q, Some l) # changes_of p (q + 1) es"

definition described :: "int \<Rightarrow> int \<Rightarrow> edit list \<Rightarrow> patch_change list \<Rightarrow> bool" where
  \<comment> \<open>the changes are those of the script, whatever the numbers of the hunks\<close>
  "described p q es cs \<longleftrightarrow> map (\<lambda>(old, new, line, h). (old, new, line)) cs = changes_of p q es"

lemma described_simps [simp]:
  "described p q [] cs \<longleftrightarrow> cs = []"
  "described p q (Skip s # es) cs \<longleftrightarrow> described (p + 1) (q + 1) es cs"
  "described p q (Keep c s # es) cs \<longleftrightarrow> (\<exists>h cs'. cs = (Some p, Some q, Some c, h) # cs' \<and> described (p + 1) (q + 1) es cs')"
  "described p q (Del co s # es) cs \<longleftrightarrow> (\<exists>h cs'. cs = (Some p, None, co, h) # cs' \<and> described (p + 1) q es cs')"
  "described p q (Add l # es) cs \<longleftrightarrow> (\<exists>h cs'. cs = (None, Some q, Some l, h) # cs' \<and> described p (q + 1) es cs')"
  by (auto simp: described_def)

lemma changes_of_append:
  "changes_of p q (es @ es') = changes_of p q es @ changes_of (p + int (length (source es))) (q + int (length (target es))) es'"
  by (induction p q es rule: changes_of.induct) (simp_all add: algebra_simps)

lemma described_append:
  "described p q es us \<Longrightarrow> described (p + int (length (source es))) (q + int (length (target es))) es' vs
    \<Longrightarrow> described p q (es @ es') (us @ vs)"
  by (simp add: described_def changes_of_append)

section \<open>Applying a script\<close>

lemma py_get_at: "k = int (length xs) \<Longrightarrow> py_get (xs @ y # ys) k = Inr y"
  by (simp add: py_get_def py_clamp_def)

lemma py_del_at: "k = int (length xs) \<Longrightarrow> py_del (xs @ y # ys) k = Inr (xs @ ys)"
  by (simp add: py_del_def py_get_at Let_def py_clamp_def)

lemma py_insert_at: "k = int (length xs) \<Longrightarrow> py_insert k y (xs @ ys) = xs @ y # ys"
  by (simp add: py_insert_def py_clamp_def)

lemma check_simps [simp]:
  "check_change ls (None, new, line, h) = Inr ()" "check_change ls (Some old, new, None, h) = Inr ()"
  by (simp_all add: check_change_def)

lemma check_at:
  assumes "p = int (length before) + 1"
  shows "same_text c s \<Longrightarrow> check_change (before @ s # ls) (Some p, new, Some c, h) = Inr ()"
    and "\<not> same_text c s \<Longrightarrow> \<exists>m. check_change (before @ s # ls) (Some p, new, Some c, h) = Inl (OtherError ''HunkApplyException'' m)"
  using assms by (auto simp: check_change_def py_get_at hunk_apply_exception_def)

definition checked :: "string list \<Rightarrow> patch_change list \<Rightarrow> bool \<Rightarrow> bool" where
  \<comment> \<open>the check of the context goes through, or raises the exception of a hunk\<close>
  "checked ls cs ok \<longleftrightarrow> (if ok then \<exists>u. map_res (check_change ls) cs = Inr u
     else \<exists>m. map_res (check_change ls) cs = Inl (OtherError ''HunkApplyException'' m))"

lemma checked_Nil: "checked ls [] True"
  by (simp add: checked_def)

lemma checked_ok: "check_change ls c = Inr () \<Longrightarrow> checked ls (c # cs) ok = checked ls cs ok"
  unfolding checked_def by (cases "map_res (check_change ls) cs") auto

lemma checked_bad: "\<exists>m. check_change ls c = Inl (OtherError ''HunkApplyException'' m) \<Longrightarrow> checked ls (c # cs) False"
  by (auto simp: checked_def)

lemma script_checked:
  "described p q es cs \<Longrightarrow> p = int (length before) + 1 \<Longrightarrow> checked (before @ source es) cs (list_all fits es)"
proof (induction p q es arbitrary: before cs rule: changes_of.induct)
  case (2 p q s es)
  then show ?case using "2.IH" [of cs "before @ [s]"] by simp
next
  case (3 p q c s es)
  then obtain h cs' where cs: "cs = (Some p, Some q, Some c, h) # cs'" "described (p + 1) (q + 1) es cs'" by auto
  with "3.IH" [of cs' "before @ [s]"] "3.prems"(2) have "checked (before @ s # source es) cs' (list_all fits es)" by simp
  with check_at [OF "3.prems"(2), of c s "source es"] cs(1) show ?case
    by (cases "same_text c s") (auto simp: checked_ok checked_bad simp del: same_text.simps)
next
  case (4 p q co s es)
  then obtain h cs' where cs: "cs = (Some p, None, co, h) # cs'" "described (p + 1) q es cs'" by auto
  with "4.IH" [of cs' "before @ [s]"] "4.prems"(2) have "checked (before @ s # source es) cs' (list_all fits es)" by simp
  with check_at [OF "4.prems"(2), of "the co" s "source es"] cs(1) show ?case
    by (cases co; cases "same_text (the co) s") (auto simp: checked_ok checked_bad simp del: same_text.simps)
next
  case (5 p q l es)
  then show ?case by (auto simp: checked_ok)
qed (simp add: checked_Nil)

lemma script_applied:
  "described p q es cs \<Longrightarrow> q = int (length before) + 1 \<Longrightarrow> p - r + i = q \<Longrightarrow>
    apply_changes r i cs (before @ source es) = Inr (before @ target es)"
proof (induction p q es arbitrary: before cs r i rule: changes_of.induct)
  case (2 p q s es)
  then show ?case using "2.IH" [of cs "before @ [s]" r i] by simp
next
  case (3 p q c s es)
  then obtain h cs' where cs: "cs = (Some p, Some q, Some c, h) # cs'" "described (p + 1) (q + 1) es cs'" by auto
  with 3 show ?case using "3.IH" [of cs' "before @ [s]" r i] by simp
next
  case (4 p q co s es)
  then obtain h cs' where cs: "cs = (Some p, None, co, h) # cs'" "described (p + 1) q es cs'" by auto
  with 4 show ?case using "4.IH" [of cs' before "r + 1" i] by (simp add: py_del_at)
next
  case (5 p q l es)
  then obtain h cs' where cs: "cs = (None, Some q, Some l, h) # cs'" "described p (q + 1) es cs'" by auto
  with 5 show ?case using "5.IH" [of cs' "before @ [l]" r "i + 1"] by (simp add: py_insert_at)
qed simp

text \<open>The changes of a script turn its first text into its second exactly when the context fits; otherwise nothing is changed.\<close>

theorem script_applies:
  assumes "described 1 1 es cs"
  shows "list_all fits es \<Longrightarrow> apply_diff False cs (source es) = Inr (target es)"
    and "\<not> list_all fits es \<Longrightarrow> \<exists>m. apply_diff False cs (source es) = Inl (OtherError ''HunkApplyException'' m)"
  using script_checked [OF assms, of "[]"] script_applied [OF assms, of "[]" 0 0]
  by (auto simp: apply_diff_def checked_def)

fun flip :: "edit \<Rightarrow> edit" where
  "flip (Skip s) = Skip s"
| "flip (Keep c s) = Keep c s"
| "flip (Del (Some c) s) = Add c"
| "flip (Del None s) = Skip s"
| "flip (Add l) = Del (Some l) l"

fun exact :: "edit \<Rightarrow> bool" where
  "exact (Del co s) = (co = Some s)"
| "exact (Keep c s) = same_text c s"
| "exact _ = True"

lemma flip_texts: "list_all exact es \<Longrightarrow> source (map flip es) = target es \<and> target (map flip es) = source es \<and> list_all fits (map flip es)"
  by (induction es rule: source.induct) auto

lemma flip_described: "list_all exact es \<Longrightarrow> described p q es cs \<Longrightarrow> described q p (map flip es) (reverse_changes cs)"
  by (induction p q es arbitrary: cs rule: changes_of.induct) (auto simp: reverse_changes_def)

lemma exact_fits: "exact e \<Longrightarrow> fits e"
  by (cases e) (auto split: option.splits)

theorem script_reverses:
  assumes "described 1 1 es cs" and "list_all exact es"
  shows "apply_diff True cs (target es) = Inr (source es)"
  using script_applies(1) [OF flip_described [OF assms(2,1)]] flip_texts [OF assms(2)]
  by (simp add: apply_diff_def)

end
