(* ===== verification/PatchTexts.thy ===== *)
theory PatchTexts
  imports PatchLaws
begin

text \<open>
  Patches as texts: a script is written as the hunks of a unified, a plain or an RCS diff, and the parsers give its changes
  back, so that a patch turns the first text into the second.
\<close>

section \<open>Splitting at the headers of hunks\<close>

lemma upt_shift: "[a..<a + b] = map (\<lambda>i. a + i) [0..<b]"
  by (induction b) simp_all

lemma findall_append: "findall_regex (xs @ ys) f = findall_regex xs f @ map (\<lambda>i. length xs + i) (findall_regex ys f)"
proof -
  have "[0..<length (xs @ ys)] = [0..<length xs] @ map (\<lambda>i. length xs + i) [0..<length ys]"
    by (simp add: upt_add_eq_append upt_shift)
  moreover have "filter (\<lambda>i. f ((xs @ ys) ! i) \<noteq> None) [0..<length xs] = filter (\<lambda>i. f (xs ! i) \<noteq> None) [0..<length xs]"
    by (intro filter_cong) (simp_all add: nth_append)
  ultimately show ?thesis by (simp add: findall_regex_def filter_map comp_def nth_append)
qed

lemma findall_none: "list_all (\<lambda>l. f l = None) xs \<Longrightarrow> findall_regex xs f = []"
  by (auto simp: findall_regex_def list_all_length)

fun starts :: "nat \<Rightarrow> 'a list list \<Rightarrow> nat list" where
  "starts k [] = []"
| "starts k (b # bs) = k # starts (k + length b) bs"

definition hunk_block :: "(string \<Rightarrow> 'm option) \<Rightarrow> string list \<Rightarrow> bool" where
  \<comment> \<open>a header and lines that are none\<close>
  "hunk_block f b \<longleftrightarrow> b \<noteq> [] \<and> f (hd b) \<noteq> None \<and> list_all (\<lambda>l. f l = None) (tl b)"

lemma findall_block: "hunk_block f b \<Longrightarrow> findall_regex b f = [0]"
proof -
  assume "hunk_block f b"
  then obtain x xs where b: "b = [x] @ xs" "f x \<noteq> None" "list_all (\<lambda>l. f l = None) xs" by (cases b) (auto simp: hunk_block_def)
  have "findall_regex [x] f = [0]" using b(2) by (simp add: findall_regex_def)
  with b findall_none [OF b(3)] show ?thesis unfolding b(1) findall_append by simp
qed

lemma findall_blocks:
  "list_all (hunk_block f) bs \<Longrightarrow> map (\<lambda>i. k + i) (findall_regex (concat bs) f) = starts k bs"
proof (induction bs arbitrary: k)
  case (Cons b bs)
  have "map (\<lambda>i. (k + length b) + i) (findall_regex (concat bs) f) = starts (k + length b) bs" using Cons by simp
  with Cons.prems show ?case by (simp add: findall_append findall_block comp_def add.assoc)
qed (simp add: findall_regex_def)

lemma split_at_starts:
  "bs \<noteq> [] \<Longrightarrow> split_at_indices (before @ concat bs) (starts (length before) bs) = bs"
proof (induction bs arbitrary: before)
  case (Cons b bs)
  show ?case
  proof (cases bs)
    case (Cons c cs)
    with Cons.IH [of "before @ b"] show ?thesis by simp
  qed simp
qed simp

lemma split_blocks:
  assumes "list_all (\<lambda>l. f l = None) before" and "list_all (hunk_block f) bs"
  shows "split_by_regex (before @ concat bs) f = before # bs"
proof -
  have "findall_regex (before @ concat bs) f = starts (length before) bs"
    using findall_none [OF assms(1)] findall_blocks [OF assms(2)] by (simp add: findall_append)
  with split_at_starts [of bs before] show ?thesis
    by (cases bs) (simp_all add: split_by_regex_def)
qed

section \<open>Numbers\<close>

lemma is_digit_str [simp]: "c \<in> set (str_of_nat n) \<Longrightarrow> is_digit c"
  by (auto simp: is_digit_def dest: str_of_nat_digits)

lemma digits_of_str: "r = [] \<or> \<not> is_digit (hd r) \<Longrightarrow> digits_of (str_of_nat n @ r) = (str_of_nat n, r)"
  by (cases r) (simp_all add: digits_of_def)

lemma digits_of_none: "r = [] \<or> \<not> is_digit (hd r) \<Longrightarrow> digits_of r = ([], r)"
  by (cases r) (simp_all add: digits_of_def)

lemma int_of_text_str [simp]: "int_of_text (str_of_nat n) = int n"
  using py_int_str_of_int [of "int n"] by (simp add: int_of_text_def str_of_int_def)

definition range_text :: "nat \<Rightarrow> nat \<Rightarrow> string" where
  \<comment> \<open>a first line and a number of lines, as \<open>diff\<close> writes them: one is left out, and for none the line before is given\<close>
  "range_text p n = str_of_nat (if n = 0 then p - 1 else p) @ (if n = 1 then [] else CHR '','' # str_of_nat n)"

definition count_text :: "nat \<Rightarrow> string" where
  "count_text n = (if n = 1 then [] else str_of_nat n)"

lemma count_of_text [simp]: "count_of (count_text n) = int n"
  by (simp add: count_of_def count_text_def)

lemma range_at_two:
  assumes "r = [] \<or> \<not> is_digit (hd r)" and "b = None \<longrightarrow> \<not> py_startswith r '','' "
  shows "range_at (str_of_nat a @ (case b of None \<Rightarrow> [] | Some n \<Rightarrow> CHR '','' # str_of_nat n) @ r)
    = Some (str_of_nat a, case b of None \<Rightarrow> [] | Some n \<Rightarrow> str_of_nat n, r)"
proof (cases b)
  case None
  then show ?thesis using digits_of_str [OF assms(1), of a] digits_of_none [OF assms(1)] assms(2)
    by (simp add: range_at_def)
next
  case (Some n)
  have "digits_of (str_of_nat a @ CHR '','' # str_of_nat n @ r) = (str_of_nat a, CHR '','' # str_of_nat n @ r)"
    using digits_of_str [of "CHR '','' # str_of_nat n @ r" a] by (simp add: is_digit_def char_digit_def)
  then show ?thesis using Some digits_of_str [OF assms(1), of n] by (simp add: range_at_def py_startswith_def)
qed

lemma range_at_text:
  assumes "r = [] \<or> \<not> is_digit (hd r)" and "\<not> py_startswith r '','' "
  shows "range_at (range_text p n @ r) = Some (str_of_nat (if n = 0 then p - 1 else p), count_text n, r)"
  using range_at_two [OF assms(1), of "if n = 1 then None else Some n" "if n = 0 then p - 1 else p"] assms(2)
  by (simp add: range_text_def count_text_def split: if_splits)

section \<open>Unified diffs\<close>

text \<open>A hunk: the lines left alone before it, its edits, and the text behind its header.\<close>

type_synonym hunk = "string list \<times> edit list \<times> string"

fun in_hunk :: "edit \<Rightarrow> bool" where
  "in_hunk (Skip s) = False"
| "in_hunk (Keep c s) = True"
| "in_hunk (Del co s) = (co \<noteq> None)"
| "in_hunk (Add l) = True"

fun body_line :: "edit \<Rightarrow> string" where
  "body_line (Keep c s) = CHR '' '' # c"
| "body_line (Del co s) = CHR ''-'' # the co"
| "body_line (Add l) = CHR ''+'' # l"
| "body_line (Skip s) = s"

definition hunk_header :: "nat \<Rightarrow> nat \<Rightarrow> edit list \<Rightarrow> string \<Rightarrow> string" where
  "hunk_header p q es lab = ''@@ -'' @ range_text p (length (source es)) @ '' +'' @ range_text q (length (target es)) @ '' @@'' @ lab"

fun unified_blocks :: "nat \<Rightarrow> nat \<Rightarrow> hunk list \<Rightarrow> string list list" where
  "unified_blocks p q [] = []"
| "unified_blocks p q ((gap, es, lab) # hs) =
     (hunk_header (p + length gap) (q + length gap) es lab # map body_line es)
     # unified_blocks (p + length gap + length (source es)) (q + length gap + length (target es)) hs"

definition hunk_ok :: "hunk \<Rightarrow> bool" where
  "hunk_ok = (\<lambda>(gap, es, lab). es \<noteq> [] \<and> list_all in_hunk es \<and> nl \<notin> set lab)"

definition script_of :: "hunk list \<Rightarrow> string list \<Rightarrow> edit list" where
  "script_of hs rest = concat (map (\<lambda>(gap, es, lab). map Skip gap @ es) hs) @ map Skip rest"

lemma header_read:
  assumes "nl \<notin> set lab"
  shows "unified_hunk_start (hunk_header p q es lab) = Some
    (str_of_nat (if source es = [] then p - 1 else p), count_text (length (source es)),
     str_of_nat (if target es = [] then q - 1 else q), count_text (length (target es)))"
proof -
  have sp: "\<not> is_digit CHR '' ''" by (simp add: is_digit_def char_digit_def)
  have "range_at (range_text p (length (source es)) @ '' +'' @ range_text q (length (target es)) @ '' @@'' @ lab)
      = Some (str_of_nat (if length (source es) = 0 then p - 1 else p), count_text (length (source es)),
          '' +'' @ range_text q (length (target es)) @ '' @@'' @ lab)"
    using range_at_text [of "'' +'' @ range_text q (length (target es)) @ '' @@'' @ lab" p "length (source es)"] sp
    by (simp add: py_startswith_def)
  moreover have "range_at (range_text q (length (target es)) @ '' @@'' @ lab)
      = Some (str_of_nat (if length (target es) = 0 then q - 1 else q), count_text (length (target es)), '' @@'' @ lab)"
    using range_at_text [of "'' @@'' @ lab" q "length (target es)"] sp by (simp add: py_startswith_def)
  ultimately show ?thesis using assms
    by (simp add: unified_hunk_start_def hunk_header_def py_startswith_def dots_def)
qed

lemma body_no_header: "in_hunk e \<Longrightarrow> unified_hunk_start (body_line e) = None"
  by (cases e) (auto simp: unified_hunk_start_def py_startswith_def)

lemma unified_lines_described:
  "list_all in_hunk es \<Longrightarrow> 0 \<le> r \<Longrightarrow> 0 \<le> i \<Longrightarrow> described (old + r) (new + i) es
     (unified_lines old (r + int (length (source es))) new (i + int (length (target es))) h r i (map body_line es))"
proof (induction es arbitrary: r i)
  case (Cons e es)
  show ?case
  proof (cases e)
    case (Keep c s)
    with Cons.IH [of "r + 1" "i + 1"] Cons.prems show ?thesis by (simp add: Let_def algebra_simps)
  next
    case (Del co s)
    with Cons.IH [of "r + 1" i] Cons.prems show ?thesis by (auto simp add: Let_def algebra_simps)
  next
    case (Add l)
    with Cons.IH [of r "i + 1"] Cons.prems show ?thesis by (simp add: Let_def algebra_simps)
  qed (use Cons.prems in simp)
qed simp

text \<open>With no line of the text in it, the position in this text does not matter.\<close>

lemma described_any_old: "source es = [] \<Longrightarrow> described p q es cs = described p' q es cs"
proof (induction es arbitrary: q cs)
  case (Cons e es)
  then show ?case by (cases e) auto
qed simp

lemma described_any_new: "list_all in_hunk es \<Longrightarrow> target es = [] \<Longrightarrow> described p q es cs = described p q' es cs"
proof (induction es arbitrary: p cs)
  case (Cons e es)
  then show ?case by (cases e) auto
qed simp

lemma unified_hunk_described:
  assumes "hunk_ok (gap, es, lab)" and "1 \<le> p" and "1 \<le> q"
  shows "described (int p) (int q) es (unified_hunk (h, hunk_header p q es lab # map body_line es))"
proof -
  have es: "list_all in_hunk es" "nl \<notin> set lab" using assms(1) by (simp_all add: hunk_ok_def)
  let ?old = "int (if source es = [] then p - 1 else p)" and ?new = "int (if target es = [] then q - 1 else q)"
  have "described ?old ?new es (unified_lines ?old (int (length (source es))) ?new (int (length (target es))) h 0 0 (map body_line es))"
    using unified_lines_described [OF es(1), of 0 0 ?old ?new h] by simp
  then have "described (int p) (int q) es (unified_lines ?old (int (length (source es))) ?new (int (length (target es))) h 0 0 (map body_line es))"
    using described_any_old [of es ?old "int q" _ "int p"] described_any_new [OF es(1), of ?old ?new _ "int q"]
    by (auto split: if_splits)
  then show ?thesis by (simp add: unified_hunk_def header_read [OF es(2)] del: map_map)
qed

lemma described_skips: "described p q (map Skip xs @ es) cs \<longleftrightarrow> described (p + int (length xs)) (q + int (length xs)) es cs"
  by (induction xs arbitrary: p q) (simp_all add: algebra_simps)

lemma described_skip_only [simp]: "described p q (map Skip xs) cs \<longleftrightarrow> cs = []"
  using described_skips [of p q xs "[]"] by simp

lemma source_append [simp]: "source (es @ es') = source es @ source es'"
  by (induction es rule: source.induct) simp_all

lemma target_append [simp]: "target (es @ es') = target es @ target es'"
  by (induction es rule: target.induct) simp_all

lemma texts_skip [simp]: "source (map Skip xs) = xs" "target (map Skip xs) = xs"
  by (induction xs) simp_all

lemma unified_blocks_described:
  "list_all hunk_ok hs \<Longrightarrow> 1 \<le> p \<Longrightarrow> 1 \<le> q \<Longrightarrow>
    described (int p) (int q) (script_of hs rest) (concat (map unified_hunk (enumerate k (unified_blocks p q hs))))"
proof (induction hs arbitrary: p q k)
  case (Cons hk hs)
  obtain gap es lab where hk: "hk = (gap, es, lab)" by (cases hk) auto
  have ok: "hunk_ok (gap, es, lab)" and hs: "list_all hunk_ok hs" using Cons.prems(1) hk by simp_all
  from Cons.IH [OF hs, of "p + length gap + length (source es)" "q + length gap + length (target es)" "Suc k"] Cons.prems(2,3)
    unified_hunk_described [OF ok, of "p + length gap" "q + length gap" k]
  have "described (int (p + length gap)) (int (q + length gap)) (es @ script_of hs rest)
    (unified_hunk (k, hunk_header (p + length gap) (q + length gap) es lab # map body_line es)
     @ concat (map unified_hunk (enumerate (Suc k) (unified_blocks (p + length gap + length (source es)) (q + length gap + length (target es)) hs))))"
    by (intro described_append) (simp_all add: add.assoc)
  then show ?case by (simp add: hk script_of_def described_skips)
qed (simp add: script_of_def)

lemma unified_blocks_ok: "list_all hunk_ok hs \<Longrightarrow> list_all (hunk_block unified_hunk_start) (unified_blocks p q hs)"
proof (induction hs arbitrary: p q)
  case (Cons hk hs)
  then show ?case by (cases hk) (auto simp: hunk_ok_def hunk_block_def header_read list_all_iff body_no_header)
qed simp

lemma described_nonempty: "described p q es cs \<Longrightarrow> \<exists>e \<in> set es. in_hunk e \<Longrightarrow> cs \<noteq> []"
  by (induction p q es arbitrary: cs rule: changes_of.induct) auto

lemma unified_parsed:
  assumes "list_all (\<lambda>l. unified_hunk_start l = None) preamble" and "list_all hunk_ok hs" and "hs \<noteq> []"
  shows "\<exists>cs. parse_unified_diff (preamble @ concat (unified_blocks 1 1 hs)) = Some cs \<and> described 1 1 (script_of hs rest) cs"
proof -
  define cs where "cs = concat (map unified_hunk (enumerate 1 (unified_blocks 1 1 hs)))"
  have "to_header unified_hunk_start preamble = None" using assms(1) by (induction preamble) auto
  then have first: "unified_hunk (0, preamble) = []" by (simp add: unified_hunk_def)
  have d: "described 1 1 (script_of hs rest) cs" using unified_blocks_described [OF assms(2), of 1 1 rest 1] by (simp add: cs_def)
  obtain gap es lab hs' where hs: "hs = (gap, es, lab) # hs'" using assms(3) by (cases hs) auto
  with assms(2) obtain e where "e \<in> set es" "in_hunk e" by (cases es) (auto simp: hunk_ok_def)
  then have "cs \<noteq> []" using described_nonempty [OF d] by (auto simp: hs script_of_def)
  moreover have "parse_unified_diff (preamble @ concat (unified_blocks 1 1 hs)) = none_if_empty cs"
    using split_blocks [OF assms(1) unified_blocks_ok [OF assms(2)]] first by (simp add: parse_unified_diff_def cs_def)
  ultimately show ?thesis using d by (simp add: none_if_empty_def)
qed

text \<open>
  C25. A unified diff does what it says: whatever texts stand before its hunks, applied to the first text it gives the second when its
  context fits, up to white space, and the kept lines stay as they are; when some line does not fit it raises the
  exception of a hunk. When it removes what the text has, its reverse gives the first text back.
\<close>

theorem unified_diff_applies:
  assumes "list_all (\<lambda>l. unified_hunk_start l = None) preamble" and "list_all hunk_ok hs" and "hs \<noteq> []"
  shows "\<exists>cs. parse_unified_diff (preamble @ concat (unified_blocks 1 1 hs)) = Some cs
    \<and> (if list_all fits (script_of hs rest) then apply_diff False cs (source (script_of hs rest)) = Inr (target (script_of hs rest))
       else \<exists>m. apply_diff False cs (source (script_of hs rest)) = Inl (OtherError ''HunkApplyException'' m))
    \<and> (list_all exact (script_of hs rest) \<longrightarrow> apply_diff True cs (target (script_of hs rest)) = Inr (source (script_of hs rest)))"
  using unified_parsed [OF assms] script_applies script_reverses by (metis (full_types))

section \<open>A blank line after a hunk\<close>

lemma unified_lines_blank:
  "list_all in_hunk es \<Longrightarrow> 0 \<le> r \<Longrightarrow> 0 \<le> i \<Longrightarrow> described (old + r) (new + i) (es @ [Keep [] s])
     (unified_lines old (r + int (length (source es))) new (i + int (length (target es))) h r i (map body_line es @ [[]]))"
proof (induction es arbitrary: r i)
  case (Cons e es)
  show ?case
  proof (cases e)
    case (Keep c s)
    with Cons.IH [of "r + 1" "i + 1"] Cons.prems show ?thesis by (simp add: Let_def algebra_simps)
  next
    case (Del co s)
    with Cons.IH [of "r + 1" i] Cons.prems show ?thesis by (auto simp add: Let_def algebra_simps)
  next
    case (Add l)
    with Cons.IH [of r "i + 1"] Cons.prems show ?thesis by (simp add: Let_def algebra_simps)
  qed (use Cons.prems in simp)
qed (simp add: Let_def)

lemma blank_parsed:
  assumes "list_all (\<lambda>l. unified_hunk_start l = None) preamble" and "hunk_ok (gap, es, lab)"
    and "source es \<noteq> []" and "target es \<noteq> []"
  shows "\<exists>cs. parse_unified_diff (preamble @ concat (unified_blocks 1 1 [(gap, es, lab)]) @ [[]]) = Some cs
    \<and> described 1 1 (map Skip gap @ es @ [Keep [] s]) cs"
proof -
  let ?p = "1 + length gap"
  let ?b = "hunk_header ?p ?p es lab # map body_line es @ [[]]"
  have es: "list_all in_hunk es" "nl \<notin> set lab" using assms(2) by (simp_all add: hunk_ok_def)
  have b: "hunk_block unified_hunk_start ?b"
    using es by (auto simp: hunk_block_def header_read list_all_iff body_no_header) (simp add: unified_hunk_start_def py_startswith_def)
  have "preamble @ concat (unified_blocks 1 1 [(gap, es, lab)]) @ [[]] = preamble @ concat [?b]" by simp
  with split_blocks [OF assms(1), of "[?b]"] b
  have split: "split_by_regex (preamble @ concat (unified_blocks 1 1 [(gap, es, lab)]) @ [[]]) unified_hunk_start = [preamble, ?b]" by simp
  define cs where "cs = unified_hunk (1, ?b)"
  have "cs = unified_lines (int ?p) (int (length (source es))) (int ?p) (int (length (target es))) 1 0 0 (map body_line es @ [[]])"
    using header_read [OF es(2), of ?p ?p es] assms(3,4) by (simp add: cs_def unified_hunk_def)
  then have d: "described (int ?p) (int ?p) (es @ [Keep [] s]) cs"
    using unified_lines_blank [OF es(1), of 0 0 "int ?p" "int ?p" s 1] by simp
  then have "cs \<noteq> []" using described_nonempty [OF d] by simp
  have "to_header unified_hunk_start preamble = None" using assms(1) by (induction preamble) auto
  then have "unified_hunk (0, preamble) = []" by (simp add: unified_hunk_def)
  with split \<open>cs \<noteq> []\<close> have "parse_unified_diff (preamble @ concat (unified_blocks 1 1 [(gap, es, lab)]) @ [[]]) = Some cs"
    by (simp add: parse_unified_diff_def none_if_empty_def cs_def)
  moreover have "described 1 1 (map Skip gap @ es @ [Keep [] s]) cs" using d by (simp add: described_skips)
  ultimately show ?thesis by blast
qed

lemma described_appendD:
  "described p q (es @ es') cs \<Longrightarrow> \<exists>us vs. cs = us @ vs \<and> described p q es us
    \<and> described (p + int (length (source es))) (q + int (length (target es))) es' vs"
  by (simp add: described_def changes_of_append map_eq_append_conv) metis

lemma checked_late: "checked ls us ok \<Longrightarrow> checked ls [c] False \<Longrightarrow> checked ls (us @ [c]) False"
proof (induction us)
  case (Cons u us)
  show ?case
  proof (cases "check_change ls u")
    case (Inl e)
    with Cons.prems(1) show ?thesis by (auto simp: checked_def split: if_splits)
  next
    case (Inr v)
    with Cons show ?thesis by (simp add: checked_ok)
  qed
qed simp

lemma checked_apply: "checked ls cs False \<Longrightarrow> \<exists>m. apply_diff False cs ls = Inl (OtherError ''HunkApplyException'' m)"
  by (auto simp: checked_def apply_diff_def)

text \<open>
  An empty line behind the last line of a hunk is taken for a context line, although the header of the hunk gives
  its length: the patch, which would apply without it, fails on a text that ends there or goes on with a line that is not blank.
\<close>

theorem blank_line_after_a_hunk_fails:
  assumes "list_all (\<lambda>l. unified_hunk_start l = None) preamble" and "hunk_ok (gap, es, lab)"
    and "source es \<noteq> []" and "target es \<noteq> []" and "list_all fits es" and "rest = [] \<or> normalized (hd rest) \<noteq> []"
  shows "\<exists>cs cs' m. parse_unified_diff (preamble @ concat (unified_blocks 1 1 [(gap, es, lab)])) = Some cs
    \<and> apply_diff False cs (gap @ source es @ rest) = Inr (gap @ target es @ rest)
    \<and> parse_unified_diff (preamble @ concat (unified_blocks 1 1 [(gap, es, lab)]) @ [[]]) = Some cs'
    \<and> apply_diff False cs' (gap @ source es @ rest) = Inl (OtherError ''HunkApplyException'' m)"
proof -
  have "list_all hunk_ok [(gap, es, lab)]" using assms(2) by simp
  from unified_parsed [OF assms(1) this, of rest] obtain cs where
    cs: "parse_unified_diff (preamble @ concat (unified_blocks 1 1 [(gap, es, lab)])) = Some cs" "described 1 1 (script_of [(gap, es, lab)] rest) cs"
    by blast
  have skips: "list_all fits (map Skip xs)" for xs by (induction xs) simp_all
  with script_applies(1) [OF cs(2)] assms(5)
  have good: "apply_diff False cs (gap @ source es @ rest) = Inr (gap @ target es @ rest)" by (simp add: script_of_def)
  define s where "s = (if rest = [] then [] else hd rest)"
  from blank_parsed [OF assms(1-4), of s] obtain cs' where
    cs': "parse_unified_diff (preamble @ concat (unified_blocks 1 1 [(gap, es, lab)]) @ [[]]) = Some cs'"
    "described 1 1 (map Skip gap @ es @ [Keep [] s]) cs'" by blast
  have "\<exists>m. apply_diff False cs' (gap @ source es @ rest) = Inl (OtherError ''HunkApplyException'' m)"
  proof (cases rest)
    case Nil
    have "map Skip gap @ es @ [Keep [] s] = (map Skip gap @ es) @ [Keep [] s]" by simp
    with cs'(2) obtain us vs where us: "cs' = us @ vs" "described 1 1 (map Skip gap @ es) us"
      "described (1 + int (length gap + length (source es))) (1 + int (length gap + length (target es))) [Keep [] s] vs"
      by (metis (no_types, lifting) described_appendD length_append source_append target_append texts_skip)
    then obtain h where vs: "vs = [(Some (1 + int (length gap + length (source es))), Some (1 + int (length gap + length (target es))), Some [], h)]"
      by auto
    have "list_all fits (map Skip gap @ es)" using skips assms(5) by simp
    then have "checked (gap @ source es) us True" using script_checked [OF us(2), of "[]"] by simp
    moreover have "checked (gap @ source es) vs False"
      unfolding vs by (rule checked_bad) (simp add: check_change_def hunk_apply_exception_def)
    ultimately show ?thesis using checked_apply [OF checked_late] Nil vs us(1) by simp
  next
    case (Cons x xs)
    have "described 1 1 ((map Skip gap @ es @ [Keep [] s]) @ map Skip xs) (cs' @ [])"
      by (rule described_append [OF cs'(2)]) simp
    moreover have "\<not> fits (Keep [] s)" using assms(6) Cons by (auto simp: s_def normalized_def)
    ultimately show ?thesis
      using script_applies(2) [of "(map Skip gap @ es @ [Keep [] s]) @ map Skip xs" cs'] Cons by (simp add: s_def del: fits.simps)
  qed
  with cs(1) good cs'(1) show ?thesis by blast
qed

end
