(* ===== verification/PlainPatches.thy ===== *)
theory PlainPatches
  imports PatchTexts
begin

text \<open>
  Plain and RCS diffs: the commands that \<open>diff\<close> and \<open>diff -n\<close> write for a script of replacements are read back as its changes.
\<close>

section \<open>Plain diffs\<close>

text \<open>A replacement: the lines left alone before it, the removed and the added lines.\<close>

type_synonym replacement = "string list \<times> string list \<times> string list"

definition replaced :: "string list \<Rightarrow> string list \<Rightarrow> edit list" where
  "replaced old new = map (\<lambda>s. Del (Some s) s) old @ map Add new"

definition plain_script :: "replacement list \<Rightarrow> string list \<Rightarrow> edit list" where
  "plain_script rs rest = concat (map (\<lambda>(gap, old, new). map Skip gap @ replaced old new) rs) @ map Skip rest"

definition lines_text :: "nat \<Rightarrow> nat \<Rightarrow> string" where
  "lines_text p n = str_of_nat p @ (case (if n = 1 then None else Some (p + n - 1)) of None \<Rightarrow> [] | Some e \<Rightarrow> CHR '','' # str_of_nat e)"

definition plain_header :: "nat \<Rightarrow> nat \<Rightarrow> nat \<Rightarrow> nat \<Rightarrow> string" where
  "plain_header p q m n =
     (if m = 0 then lines_text (p - 1) 1 @ ''a'' @ lines_text q n
      else if n = 0 then lines_text p m @ ''d'' @ lines_text (q - 1) 1
      else lines_text p m @ ''c'' @ lines_text q n)"

definition old_line :: "string \<Rightarrow> string" where "old_line s = ''< '' @ s"

definition new_line :: "string \<Rightarrow> string" where "new_line s = ''> '' @ s"

fun plain_blocks :: "nat \<Rightarrow> nat \<Rightarrow> replacement list \<Rightarrow> string list list" where
  "plain_blocks p q [] = []"
| "plain_blocks p q ((gap, old, new) # rs) =
     (plain_header (p + length gap) (q + length gap) (length old) (length new)
       # map old_line old @ (if old \<noteq> [] \<and> new \<noteq> [] then [''---''] else []) @ map new_line new)
     # plain_blocks (p + length gap + length old) (q + length gap + length new) rs"

definition replacement_ok :: "replacement \<Rightarrow> bool" where
  "replacement_ok = (\<lambda>(gap, old, new). (old \<noteq> [] \<or> new \<noteq> []) \<and> list_all (\<lambda>l. nl \<notin> set l) (old @ new))"

definition end_text :: "nat \<Rightarrow> nat \<Rightarrow> string" where
  "end_text p n = (if n = 1 then [] else str_of_nat (p + n - 1))"

lemma range_at_lines:
  "r = [] \<or> hd r \<in> set ''acd'' \<Longrightarrow> range_at (lines_text p n @ r) = Some (str_of_nat p, end_text p n, r)"
  using range_at_two [of r "if n = 1 then None else Some (p + n - 1)" p]
  by (cases r) (auto simp: lines_text_def end_text_def is_digit_def char_digit_def py_startswith_def)

lemma plain_header_read:
  "default_hunk_start (plain_header p q m n) = Some
    (if m = 0 then (str_of_nat (p - 1), [], str_of_nat q, end_text q n)
     else if n = 0 then (str_of_nat p, end_text p m, str_of_nat (q - 1), [])
     else (str_of_nat p, end_text p m, str_of_nat q, end_text q n))"
  using range_at_lines [of "[]"] by (simp add: default_hunk_start_def plain_header_def range_at_lines) (simp add: end_text_def)

lemma span_of_end: "n \<noteq> 0 \<Longrightarrow> span_of (int p) (end_text p n) = (if n = 1 then 0 else int n)"
  by (simp add: span_of_def end_text_def)

lemma sign_no_header [simp]:
  "default_hunk_start (old_line s) = None" "default_hunk_start (new_line s) = None" "default_hunk_start (CHR ''-'' # s) = None"
  by (simp_all add: default_hunk_start_def range_at_def digits_of_def is_digit_def char_digit_def old_line_def new_line_def)

lemma sign_change [simp]:
  "nl \<notin> set s \<Longrightarrow> default_change (old_line s) = Some (CHR ''<'', s)"
  "nl \<notin> set s \<Longrightarrow> default_change (new_line s) = Some (CHR ''>'', s)"
  by (simp_all add: default_change_def dots_def old_line_def new_line_def)

lemma plain_removed:
  "list_all (\<lambda>l. nl \<notin> set l) ls \<Longrightarrow> 0 \<le> r \<Longrightarrow> old_len = r + int (length ls) \<or> old_len = 0 \<and> r = 0 \<and> length ls \<le> 1 \<Longrightarrow>
    \<exists>us. default_lines old old_len new new_len h r i (map old_line ls @ rest)
      = us @ default_lines old old_len new new_len h (r + int (length ls)) i rest
    \<and> described (old + r) q (map (\<lambda>s. Del (Some s) s) ls) us"
proof (induction ls arbitrary: r)
  case (Cons l ls)
  have "old_len = (r + 1) + int (length ls) \<or> ls = []" using Cons.prems(3) by auto
  then obtain us where us: "default_lines old old_len new new_len h (r + 1) i (map old_line ls @ rest)
      = us @ default_lines old old_len new new_len h (r + 1 + int (length ls)) i rest"
    "described (old + (r + 1)) q (map (\<lambda>s. Del (Some s) s) ls) us"
    using Cons.IH [of "r + 1"] Cons.prems(1,2) by (cases "ls = []") auto
  have "r \<noteq> old_len \<or> r = 0" using Cons.prems(2,3) by auto
  then have "default_lines old old_len new new_len h r i (map old_line (l # ls) @ rest)
      = (Some (old + r), None, Some l, h) # default_lines old old_len new new_len h (r + 1) i (map old_line ls @ rest)"
    using Cons.prems(1) by simp
  with us show ?case
    by (intro exI [of _ "(Some (old + r), None, Some l, h) # us"]) (simp add: add.assoc)
qed simp

lemma plain_added:
  "list_all (\<lambda>l. nl \<notin> set l) ls \<Longrightarrow> 0 \<le> i \<Longrightarrow> new_len = i + int (length ls) \<or> new_len = 0 \<and> i = 0 \<and> length ls \<le> 1 \<Longrightarrow>
    described p (new + i) (map Add ls) (default_lines old old_len new new_len h r i (map new_line ls))"
proof (induction ls arbitrary: i)
  case (Cons l ls)
  have "i \<noteq> new_len \<or> i = 0" using Cons.prems(2,3) by auto
  moreover have "described p (new + (i + 1)) (map Add ls) (default_lines old old_len new new_len h r (i + 1) (map new_line ls))"
    using Cons.IH [of "i + 1"] Cons.prems by (cases "ls = []") (auto simp: add.assoc)
  ultimately show ?case using Cons.prems(1) by (simp add: algebra_simps)
qed simp

lemma source_replaced [simp]: "source (replaced old new) = old" "target (replaced old new) = new"
proof -
  have "source (map (\<lambda>s. Del (Some s) s) old) = old" "target (map (\<lambda>s. Del (Some s) s) old) = []" by (induction old) simp_all
  moreover have "source (map Add new) = []" "target (map Add new) = new" by (induction new) simp_all
  ultimately show "source (replaced old new) = old" "target (replaced old new) = new" by (simp_all add: replaced_def)
qed

lemma plain_hunk_described:
  assumes "replacement_ok (gap, old, new)" and "1 \<le> p" and "1 \<le> q"
  shows "described (int p) (int q) (replaced old new)
    (default_lines 0 0 0 0 h 0 0 (plain_header p q (length old) (length new)
       # map old_line old @ (if old \<noteq> [] \<and> new \<noteq> [] then [''---''] else []) @ map new_line new))"
proof -
  have ok: "list_all (\<lambda>l. nl \<notin> set l) old" "list_all (\<lambda>l. nl \<notin> set l) new" "old \<noteq> [] \<or> new \<noteq> []"
    using assms(1) by (auto simp: replacement_ok_def)
  have mid: "default_change ''---'' = None" by (simp add: default_change_def)
  let ?sep = "if old \<noteq> [] \<and> new \<noteq> [] then [''---''] else []"
  obtain o1 l1 n1 l2 where nums: "default_lines 0 0 0 0 h 0 0 (plain_header p q (length old) (length new) # ls)
      = default_lines o1 l1 n1 l2 h 0 0 ls"
    "old \<noteq> [] \<longrightarrow> o1 = int p \<and> (l1 = int (length old) \<or> l1 = 0 \<and> length old \<le> 1)"
    "new \<noteq> [] \<longrightarrow> n1 = int q \<and> (l2 = int (length new) \<or> l2 = 0 \<and> length new \<le> 1)" for ls
    using ok(3) that by (cases "old = []"; cases "new = []") (auto simp: plain_header_read span_of_end)
  have old: "old \<noteq> [] \<Longrightarrow> o1 = int p" "l1 = 0 + int (length old) \<or> l1 = 0 \<and> (0::int) = 0 \<and> length old \<le> 1 \<or> old = []" using nums(2) by auto
  have new: "new \<noteq> [] \<Longrightarrow> n1 = int q" "l2 = 0 + int (length new) \<or> l2 = 0 \<and> (0::int) = 0 \<and> length new \<le> 1 \<or> new = []" using nums(3) by auto
  obtain us where us: "default_lines o1 l1 n1 l2 h 0 0 (map old_line old @ ?sep @ map new_line new)
      = us @ default_lines o1 l1 n1 l2 h (int (length old)) 0 (?sep @ map new_line new)"
    "described (int p) (int q) (map (\<lambda>s. Del (Some s) s) old) us"
    using plain_removed [OF ok(1), of 0 l1 o1 n1 l2 h 0 "?sep @ map new_line new" "int q"] old by (cases "old = []") auto
  have "default_lines o1 l1 n1 l2 h (int (length old)) 0 (?sep @ map new_line new)
      = default_lines o1 l1 n1 l2 h (int (length old)) 0 (map new_line new)"
    by (simp add: mid)
  moreover have "described (int p + int (length old)) (int q) (map Add new) (default_lines o1 l1 n1 l2 h (int (length old)) 0 (map new_line new))"
    using plain_added [OF ok(2), of 0 l2 "int p + int (length old)" n1 o1 l1 h] new by (cases "new = []") auto
  moreover have "source (map (\<lambda>s. Del (Some s) s) old) = old" "target (map (\<lambda>s. Del (Some s) s) old) = []"
    using source_replaced [of old "[]"] by (simp_all add: replaced_def)
  ultimately show ?thesis
    using described_append [OF us(2)] us(1) nums(1) by (simp add: replaced_def)
qed

lemma plain_blocks_described:
  "list_all replacement_ok rs \<Longrightarrow> 1 \<le> p \<Longrightarrow> 1 \<le> q \<Longrightarrow> described (int p) (int q) (plain_script rs rest)
    (concat (map (\<lambda>(h, hunk). default_lines 0 0 0 0 h 0 0 hunk) (enumerate k (plain_blocks p q rs))))"
proof (induction rs arbitrary: p q k)
  case (Cons rp rs)
  obtain gap old new where rp: "rp = (gap, old, new)" by (cases rp) auto
  have ok: "replacement_ok (gap, old, new)" and rs: "list_all replacement_ok rs" using Cons.prems(1) rp by simp_all
  from plain_hunk_described [OF ok, of "p + length gap" "q + length gap" k]
    Cons.IH [OF rs, of "p + length gap + length old" "q + length gap + length new" "Suc k"] Cons.prems(2,3)
  have "described (int (p + length gap)) (int (q + length gap)) (replaced old new @ plain_script rs rest)
    (default_lines 0 0 0 0 k 0 0 (plain_header (p + length gap) (q + length gap) (length old) (length new)
       # map old_line old @ (if old \<noteq> [] \<and> new \<noteq> [] then [''---''] else []) @ map new_line new)
     @ concat (map (\<lambda>(h, hunk). default_lines 0 0 0 0 h 0 0 hunk) (enumerate (Suc k)
         (plain_blocks (p + length gap + length old) (q + length gap + length new) rs))))"
    by (intro described_append) (simp_all add: add.assoc)
  then show ?case unfolding rp by (simp add: plain_script_def described_skips del: default_lines.simps)
qed (simp add: plain_script_def)

lemma plain_blocks_ok: "list_all replacement_ok rs \<Longrightarrow> list_all (hunk_block default_hunk_start) (plain_blocks p q rs)"
proof (induction rs arbitrary: p q)
  case (Cons rp rs)
  then show ?case by (cases rp) (auto simp: hunk_block_def plain_header_read list_all_iff)
qed simp

lemma exact_script: "list_all exact (plain_script rs rest)"
proof -
  have "list_all exact (map Skip xs)" "list_all exact (replaced old new)" for xs old new
    by (auto simp: list_all_iff replaced_def)
  then show ?thesis by (induction rs) (auto simp: plain_script_def)
qed

text \<open>
  A plain diff between two texts, read and applied to the first, gives the second, and its reverse gives the first back.
\<close>

theorem plain_diff_applies:
  assumes "list_all replacement_ok rs" and "rs \<noteq> []"
  shows "\<exists>cs. parse_default_diff (concat (plain_blocks 1 1 rs)) = Some cs
    \<and> apply_diff False cs (source (plain_script rs rest)) = Inr (target (plain_script rs rest))
    \<and> apply_diff True cs (target (plain_script rs rest)) = Inr (source (plain_script rs rest))"
proof -
  define cs where "cs = concat (map (\<lambda>(h, hunk). default_lines 0 0 0 0 h 0 0 hunk) (enumerate 1 (plain_blocks 1 1 rs)))"
  have d: "described 1 1 (plain_script rs rest) cs" using plain_blocks_described [OF assms(1), of 1 1 rest 1] by (simp add: cs_def)
  obtain gap old new rs' where rs: "rs = (gap, old, new) # rs'" using assms(2) by (cases rs) auto
  have "\<exists>e \<in> set (plain_script rs rest). in_hunk e"
    using assms(1) by (cases old; cases new) (auto simp: rs plain_script_def replaced_def replacement_ok_def)
  with d have "cs \<noteq> []" by (rule described_nonempty)
  with split_blocks [of default_hunk_start "[]", OF _ plain_blocks_ok [OF assms(1)]]
  have "parse_default_diff (concat (plain_blocks 1 1 rs)) = Some cs"
    by (simp add: parse_default_diff_def none_if_empty_def cs_def)
  moreover have "list_all fits (plain_script rs rest)" using exact_script exact_fits by (auto simp: list_all_iff)
  ultimately show ?thesis using script_applies(1) [OF d] script_reverses [OF d exact_script] by blast
qed

section \<open>RCS diffs\<close>

definition rcs_replaced :: "string list \<Rightarrow> string list \<Rightarrow> edit list" where
  \<comment> \<open>the removed lines are not in the diff\<close>
  "rcs_replaced old new = map (Del None) old @ map Add new"

definition rcs_script :: "replacement list \<Rightarrow> string list \<Rightarrow> edit list" where
  "rcs_script rs rest = concat (map (\<lambda>(gap, old, new). map Skip gap @ rcs_replaced old new) rs) @ map Skip rest"

definition rcs_command :: "char \<Rightarrow> nat \<Rightarrow> nat \<Rightarrow> string" where
  "rcs_command k p n = k # str_of_nat p @ CHR '' '' # str_of_nat n"

fun rcs_blocks :: "nat \<Rightarrow> replacement list \<Rightarrow> string list list" where
  "rcs_blocks p [] = []"
| "rcs_blocks p ((gap, old, new) # rs) =
     (if old = [] then [] else [[rcs_command CHR ''d'' (p + length gap) (length old)]])
     @ (if new = [] then [] else [rcs_command CHR ''a'' (p + length gap + length old - 1) (length new) # new])
     @ rcs_blocks (p + length gap + length old) rs"

definition rcs_ok :: "replacement \<Rightarrow> bool" where
  \<comment> \<open>no added line looks like a command\<close>
  "rcs_ok = (\<lambda>(gap, old, new). list_all (\<lambda>l. rcs_ed_hunk_start l = None) new)"

lemma rcs_command_read: "k \<in> set ''ad'' \<Longrightarrow> rcs_ed_hunk_start (rcs_command k p n) = Some (k, str_of_nat p, str_of_nat n)"
  using digits_of_str [of "CHR '' '' # str_of_nat n" p] digits_of_str [of "[]" n]
  by (auto simp: rcs_ed_hunk_start_def rcs_command_def is_digit_def char_digit_def py_startswith_def)

lemma rcs_dels_described:
  "described (old + j) q (map (Del None) ls) (fst (rcs_dels old (length ls) h j))"
  by (induction ls arbitrary: j) (auto split: prod.split simp: add.assoc, metis fst_conv)

lemma rcs_adds_described:
  "snd (snd (rcs_adds old (length ls) h j ls)) = [] \<and> described p (old + j) (map Add ls) (fst (rcs_adds old (length ls) h j ls))"
proof (induction ls arbitrary: j)
  case (Cons l ls)
  from Cons.IH [of "j + 1"] show ?case by (auto split: prod.split simp: add.assoc)
qed simp

lemma rcs_removed:
  "rcs_hunks g ((h, [rcs_command CHR ''d'' p m]) # hs) = fst (rcs_dels (int p) m h 0) @ rcs_hunks (g - int m) hs"
  by (simp add: rcs_command_read Let_def split: prod.split)

lemma rcs_added:
  "rcs_hunks g ((h, rcs_command CHR ''a'' p (length new) # new) # hs)
    = fst (rcs_adds (int p + g + 1) (length new) h 0 new) @ rcs_hunks (g + int (length new)) hs"
  using rcs_adds_described [of "int p + g + 1" new h 0] by (auto simp: rcs_command_read Let_def split: prod.split)

lemma rcs_hunks_described:
  "list_all rcs_ok rs \<Longrightarrow> 1 \<le> p \<Longrightarrow> 1 \<le> q \<Longrightarrow>
    described (int p) (int q) (rcs_script rs rest) (rcs_hunks (int q - int p) (enumerate k (rcs_blocks p rs)))"
proof (induction rs arbitrary: p q k)
  case (Cons rp rs)
  obtain gap old new where rp: "rp = (gap, old, new)" by (cases rp) auto
  let ?p = "p + length gap" and ?q = "q + length gap"
  define g where "g = int q - int p"
  define dels where "dels = (if old = [] then [] else fst (rcs_dels (int ?p) (length old) k 0))"
  define k' where "k' = (if old = [] then k else Suc k)"
  define adds where "adds = (if new = [] then [] else fst (rcs_adds (int ?q) (length new) k' 0 new))"
  define k'' where "k'' = (if new = [] then k' else Suc k')"
  have d: "described (int ?p) (int ?q) (map (Del None) old) dels"
    using rcs_dels_described [of "int ?p" 0 "int ?q" old k] by (simp add: dels_def)
  have a: "described (int ?p + int (length old)) (int ?q) (map Add new) adds"
    using rcs_adds_described [of "int ?q" new k' 0] by (simp add: adds_def)
  have texts: "source (map (Del None) old) = old" "target (map (Del None) old) = []" "source (map Add new) = []" "target (map Add new) = new"
    by (induction old; simp)+ (induction new; simp)+
  have run: "rcs_hunks g (enumerate k (rcs_blocks p ((gap, old, new) # rs)))
      = dels @ adds @ rcs_hunks (g - int (length old) + int (length new)) (enumerate k'' (rcs_blocks (?p + length old) rs))"
  proof -
    have at: "int (?p + length old - 1) + (g - int (length old)) + 1 = int ?q" using Cons.prems(2) by (simp add: g_def of_nat_diff)
    have "rcs_hunks g' (enumerate k' ((if new = [] then [] else [rcs_command CHR ''a'' (?p + length old - 1) (length new) # new]) @ bs))
        = (if new = [] then [] else fst (rcs_adds (int (?p + length old - 1) + g' + 1) (length new) k' 0 new))
          @ rcs_hunks (g' + int (length new)) (enumerate k'' bs)" for g' bs
      by (simp add: k''_def rcs_added [simplified] rcs_added del: rcs_adds.simps rcs_hunks.simps)
    moreover have "rcs_hunks g (enumerate k ((if old = [] then [] else [[rcs_command CHR ''d'' ?p (length old)]]) @ bs))
        = dels @ rcs_hunks (g - int (length old)) (enumerate k' bs)" for bs
      by (simp add: dels_def k'_def rcs_removed del: rcs_dels.simps rcs_hunks.simps)
    ultimately show ?thesis unfolding rcs_blocks.simps at [symmetric] adds_def by (simp only: append_assoc)
  qed
  define vs where "vs = rcs_hunks (g - int (length old) + int (length new)) (enumerate k'' (rcs_blocks (?p + length old) rs))"
  have grown: "int (?q + length new) - int (?p + length old) = g - int (length old) + int (length new)" by (simp add: g_def)
  have "list_all rcs_ok rs" "1 \<le> ?p + length old" "1 \<le> ?q + length new" using Cons.prems rp by simp_all
  from Cons.IH [OF this, of k'', unfolded grown]
  have "described (int (?p + length old)) (int (?q + length new)) (rcs_script rs rest) vs" by (simp only: vs_def)
  then have "described (int ?p + int (length old)) (int ?q) (map Add new @ rcs_script rs rest) (adds @ vs)"
    using described_append [OF a] texts by (simp add: add.assoc)
  then have "described (int ?p) (int ?q) (rcs_replaced old new @ rcs_script rs rest) (dels @ adds @ vs)"
    using described_append [OF d] texts by (simp add: rcs_replaced_def)
  then show ?case unfolding rp g_def [symmetric] run vs_def [symmetric] by (simp add: rcs_script_def described_skips)
qed (simp add: rcs_script_def)

lemma rcs_blocks_ok: "list_all rcs_ok rs \<Longrightarrow> list_all (hunk_block rcs_ed_hunk_start) (rcs_blocks p rs)"
proof (induction rs arbitrary: p)
  case (Cons rp rs)
  then show ?case by (cases rp) (auto simp: hunk_block_def rcs_command_read rcs_ok_def)
qed simp

text \<open>An RCS diff between two texts whose added lines are no commands, read and applied to the first, gives the second.\<close>

theorem rcs_diff_applies:
  assumes "list_all rcs_ok rs" and "parse_rcs_ed_diff (concat (rcs_blocks 1 rs)) = Some cs"
  shows "apply_diff False cs (source (rcs_script rs rest)) = Inr (target (rcs_script rs rest))"
proof -
  from assms(2) split_blocks [of rcs_ed_hunk_start "[]", OF _ rcs_blocks_ok [OF assms(1)]]
  have "cs = rcs_hunks 0 (enumerate 1 (rcs_blocks 1 rs))"
    by (simp add: parse_rcs_ed_diff_def none_if_empty_def split: if_splits)
  with rcs_hunks_described [OF assms(1), of 1 1 rest 1] have d: "described 1 1 (rcs_script rs rest) cs" by simp
  have "list_all fits (map Skip xs)" "list_all fits (rcs_replaced old new)" for xs old new
    by (auto simp: list_all_iff rcs_replaced_def)
  then have "list_all fits (rcs_script rs rest)" by (induction rs) (auto simp: rcs_script_def)
  with script_applies(1) [OF d] show ?thesis .
qed

end
