(* ===== verification/PatchFiles.thy ===== *)
theory PatchFiles
  imports PatchTexts
begin

text \<open>
  Patching the files of a repository (\<open>apply_patch\<close> of \<open>openhands/resolver/send_pull_request.py\<close>): the differences that were read
  from a patch are carried out one after the other. The file system is a map from paths to texts; directories, which are made and
  removed as needed, are not in it. Whether a file can be decoded is a parameter.
\<close>

section \<open>Paths and lines\<close>

record patch_header =
  ph_old_path :: "string option"
  ph_new_path :: "string option"

record diffobj =
  df_header :: "patch_header option"
  df_changes :: "patch_change list option"
  df_text :: string

type_synonym files = "string \<Rightarrow> string option"

definition crlf :: string where "crlf = [CHR 0x0D, nl]"

definition os_path_join :: "string \<Rightarrow> string \<Rightarrow> string" where
  \<comment> \<open>\<open>os.path.join\<close>\<close>
  "os_path_join a b = (if py_startswith b ''/'' then b else if a = [] \<or> py_endswith a ''/'' then a @ b else a @ ''/'' @ b)"

definition without_prefixes :: "string \<Rightarrow> string" where
  "without_prefixes p = py_removeprefix (py_removeprefix p ''a/'') ''b/''"

definition detect_newline :: "string \<Rightarrow> string option" where
  "detect_newline content =
     (if py_contains content crlf then Some crlf else if nl \<in> set content then Some [nl] else None)"

function lines_at :: "string \<Rightarrow> string \<Rightarrow> string list" where
  \<comment> \<open>\<open>readlines\<close> of a text whose lines end with the first argument\<close>
  "lines_at sep s = (if sep = [] \<or> s = [] then [] else case py_partition s sep of
       None \<Rightarrow> [s] | Some (a, b) \<Rightarrow> (a @ sep) # lines_at sep b)"
  by pat_completeness auto
termination by (relation "measure (\<lambda>(_, s). length s)") (auto dest!: py_partition_eq)

declare lines_at.simps [simp del]

definition strip_chars :: "string \<Rightarrow> string \<Rightarrow> string" where
  \<comment> \<open>\<open>s.strip(chars)\<close>\<close>
  "strip_chars cs s = rev (dropWhile (\<lambda>c. c \<in> set cs) (rev (dropWhile (\<lambda>c. c \<in> set cs) s)))"

definition read_lines :: "string option \<Rightarrow> string \<Rightarrow> string list" where
  \<comment> \<open>without a given line end, a carriage return ends a line as well, and \<open>strip(None)\<close> takes off white space\<close>
  "read_lines newline content = (case newline of
       Some sep \<Rightarrow> map (strip_chars sep) (lines_at sep content)
     | None \<Rightarrow> map py_strip (lines_at [nl] (map (\<lambda>c. if c = CHR 0x0D then nl else c) content)))"

definition written :: "string option \<Rightarrow> string list \<Rightarrow> string" where
  \<comment> \<open>every line is printed with a line break, which is written as the line end of the file\<close>
  "written newline ls = concat (map (\<lambda>l. if newline = Some crlf
     then concat (map (\<lambda>c. if c = nl then crlf else [c]) (l @ [nl])) else l @ [nl]) ls)"

section \<open>Applying a patch\<close>

definition apply_one :: "(string \<Rightarrow> bool) \<Rightarrow> string \<Rightarrow> diffobj \<Rightarrow> files \<Rightarrow> files \<times> unit res" where
  "apply_one decodes repo_dir d fs = (case df_header d of
       None \<Rightarrow> (fs, Inl (AttributeError ''new_path''))
     | Some h \<Rightarrow>
         if ph_new_path h = None \<or> ph_new_path h = Some [] then (fs, Inr ())
         else
           let old_path = (case ph_old_path h of
                 None \<Rightarrow> None
               | Some p \<Rightarrow> if p \<noteq> [] \<and> p \<noteq> ''/dev/null'' then Some (os_path_join repo_dir (without_prefixes p)) else None);
               new_path = os_path_join repo_dir (without_prefixes (the (ph_new_path h)))
           in
             if ph_new_path h = Some ''/dev/null''
             then (case old_path of None \<Rightarrow> (fs, Inl AssertionError) | Some p \<Rightarrow> (fs(p := None), Inr ()))
             else if old_path \<noteq> None \<and> old_path \<noteq> Some [] \<and> new_path \<noteq> [] \<and> py_contains (df_text d) ''rename from''
             then (case fs (the old_path) of
                 None \<Rightarrow> (fs, Inl FileNotFoundError)
               | Some c \<Rightarrow> (if the old_path = new_path then fs else fs(the old_path := None, new_path := Some c), Inr ()))
             else case (case old_path of
                 None \<Rightarrow> Inr (Some [nl], [])
               | Some p \<Rightarrow> (case fs p of
                   None \<Rightarrow> Inl FileNotFoundError
                 | Some c \<Rightarrow> Inr (detect_newline c, if decodes c then read_lines (detect_newline c) c else []))) of
               Inl err \<Rightarrow> (fs, Inl err)
             | Inr (newline, ls) \<Rightarrow> (case df_changes d of
                 None \<Rightarrow> (fs, Inr ())
               | Some cs \<Rightarrow> (case apply_diff False cs ls of
                   Inl err \<Rightarrow> (fs, Inl err)
                 | Inr ls \<Rightarrow> (fs(new_path := Some (written newline ls)), Inr ()))))"

fun apply_patch :: "(string \<Rightarrow> bool) \<Rightarrow> string \<Rightarrow> diffobj list \<Rightarrow> files \<Rightarrow> files \<times> unit res" where
  \<comment> \<open>the differences are those the parser of patches has found\<close>
  "apply_patch decodes repo_dir [] fs = (fs, Inr ())"
| "apply_patch decodes repo_dir (d # ds) fs = (case apply_one decodes repo_dir d fs of
     (fs, Inl err) \<Rightarrow> (fs, Inl err) | (fs, Inr _) \<Rightarrow> apply_patch decodes repo_dir ds fs)"

section \<open>Reading and writing lines\<close>

definition clean :: "string \<Rightarrow> bool" where
  \<comment> \<open>a line without line ends in it\<close>
  "clean l \<longleftrightarrow> nl \<notin> set l \<and> CHR 0x0D \<notin> set l"

definition file_text :: "string \<Rightarrow> string list \<Rightarrow> string" where
  "file_text eol ls = concat (map (\<lambda>l. l @ eol) ls)"

lemma clean_written: "list_all clean ls \<Longrightarrow> eol = [nl] \<or> eol = crlf \<Longrightarrow> written (Some eol) ls = file_text eol ls"
proof -
  have chars: "nl \<notin> set l \<Longrightarrow> concat (map (\<lambda>c. if c = nl then crlf else [c]) l) = l" for l by (induction l) auto
  show "list_all clean ls \<Longrightarrow> eol = [nl] \<or> eol = crlf \<Longrightarrow> written (Some eol) ls = file_text eol ls"
    by (induction ls) (auto simp: written_def file_text_def clean_def chars crlf_def)
qed

lemma clean_partition:
  assumes "clean l" and "eol = [nl] \<or> eol = crlf"
  shows "py_partition (l @ eol @ s) eol = Some (l, s)"
proof -
  have "quiet eol l (eol @ s)" using assms by (intro quiet_char) (auto simp: clean_def crlf_def)
  from partition_quiet [OF this] show ?thesis .
qed

lemma clean_lines: "list_all clean ls \<Longrightarrow> eol = [nl] \<or> eol = crlf \<Longrightarrow> lines_at eol (file_text eol ls) = map (\<lambda>l. l @ eol) ls"
proof (induction ls)
  case (Cons l ls)
  then show ?case using clean_partition [of l eol "file_text eol ls"]
    by (subst lines_at.simps) (auto simp: file_text_def crlf_def)
qed (simp add: lines_at.simps file_text_def)

lemma clean_strip: "clean l \<Longrightarrow> eol = [nl] \<or> eol = crlf \<Longrightarrow> strip_chars eol (l @ eol) = l"
proof -
  assume l: "clean l" and eol: "eol = [nl] \<or> eol = crlf"
  have stay: "dropWhile (\<lambda>c. c \<in> set eol) x = x" if "set x \<inter> set eol = {}" for x using that by (cases x) auto
  have disj: "set l \<inter> set eol = {}" using l eol by (auto simp: clean_def crlf_def)
  show ?thesis
  proof (cases "l = []")
    case True
    then show ?thesis by (auto simp: strip_chars_def dest: set_dropWhileD)
  next
    case False
    then have "dropWhile (\<lambda>c. c \<in> set eol) (l @ eol) = l @ eol" using disj by (cases l) auto
    moreover have "dropWhile (\<lambda>c. c \<in> set eol) (rev eol @ rev l) = rev l"
      using stay [of "rev l"] disj by (simp add: dropWhile_append)
    ultimately show ?thesis by (simp add: strip_chars_def)
  qed
qed

lemma clean_read:
  assumes "list_all clean ls" and "eol = [nl] \<or> eol = crlf"
  shows "read_lines (Some eol) (file_text eol ls) = ls"
proof -
  have "map (\<lambda>l. strip_chars eol (l @ eol)) ls = ls" using assms clean_strip by (induction ls) auto
  then show ?thesis by (simp add: read_lines_def clean_lines [OF assms] comp_def)
qed

lemma contains_middle: "py_contains (u @ p @ v) p"
proof (induction u)
  case Nil
  have "py_startswith (p @ v) p" by (rule startswith_append)
  then show ?case by (cases "p @ v") (simp_all add: py_startswith_def)
qed simp

lemma clean_newline:
  assumes "list_all clean ls" and "eol = [nl] \<or> eol = crlf" and "ls \<noteq> []"
  shows "detect_newline (file_text eol ls) = Some eol"
proof (cases "eol = crlf")
  case True
  obtain l ls' where "ls = l # ls'" using assms(3) by (cases ls) auto
  then have "file_text eol ls = l @ crlf @ file_text eol ls'" by (simp add: file_text_def True)
  then have "py_contains (file_text eol ls) crlf" by (simp only: contains_middle)
  then show ?thesis by (simp add: detect_newline_def True)
next
  case False
  then have eol: "eol = [nl]" using assms(2) by simp
  have "CHR 0x0D \<notin> set (file_text eol ls)" using assms(1) by (auto simp: file_text_def eol clean_def list_all_iff nl_def)
  then have "\<not> py_contains (file_text eol ls) crlf"
    using quiet_contains [OF quiet_char, of crlf "file_text eol ls"] by (simp add: crlf_def)
  moreover have "nl \<in> set (file_text eol ls)" using assms(3) by (cases ls) (auto simp: file_text_def eol)
  ultimately show ?thesis by (simp add: detect_newline_def eol)
qed

lemma clean_read_back:
  assumes "list_all clean ls" and "eol = [nl] \<or> eol = crlf" and "eol = crlf \<longrightarrow> ls \<noteq> []"
  shows "read_lines (detect_newline (file_text eol ls)) (file_text eol ls) = ls"
    and "list_all clean new \<Longrightarrow> written (detect_newline (file_text eol ls)) new = file_text eol new"
proof -
  have empty: "detect_newline (file_text eol []) = None" by (simp add: detect_newline_def file_text_def crlf_def py_startswith_def)
  show "read_lines (detect_newline (file_text eol ls)) (file_text eol ls) = ls"
  proof (cases "ls = []")
    case True
    then show ?thesis unfolding True empty by (simp add: read_lines_def file_text_def lines_at.simps)
  qed (use clean_newline clean_read assms in simp)
  show "list_all clean new \<Longrightarrow> written (detect_newline (file_text eol ls)) new = file_text eol new"
  proof (cases "ls = []")
    case True
    then show "list_all clean new \<Longrightarrow> ?thesis" using assms clean_written [of new "[nl]"] unfolding True empty
      by (auto simp: written_def crlf_def)
  qed (use clean_newline clean_written assms in simp)
qed

section \<open>A patch changes the files as it says\<close>

text \<open>A file of the patch: its path, its line end, its hunks, what follows them and what stands before them in the patch.\<close>

record patched_file =
  pf_path :: string
  pf_eol :: string
  pf_hunks :: "hunk list"
  pf_rest :: "string list"
  pf_preamble :: "string list"

definition pf_script :: "patched_file \<Rightarrow> edit list" where
  "pf_script f = script_of (pf_hunks f) (pf_rest f)"

definition pf_diff :: "patched_file \<Rightarrow> diffobj" where
  \<comment> \<open>its difference, as it is read from the text of the patch\<close>
  "pf_diff f = (let ls = pf_preamble f @ concat (unified_blocks 1 1 (pf_hunks f)) in
     \<lparr>df_header = Some \<lparr>ph_old_path = Some (pf_path f), ph_new_path = Some (pf_path f)\<rparr>,
      df_changes = parse_unified_diff ls, df_text = py_join [nl] ls @ [nl]\<rparr>)"

definition pf_ok :: "patched_file \<Rightarrow> bool" where
  "pf_ok f \<longleftrightarrow> pf_path f \<noteq> [] \<and> pf_path f \<noteq> ''/dev/null'' \<and> without_prefixes (pf_path f) = pf_path f
     \<and> (pf_eol f = [nl] \<or> pf_eol f = crlf) \<and> (pf_eol f = crlf \<longrightarrow> source (pf_script f) \<noteq> [])
     \<and> list_all clean (source (pf_script f)) \<and> list_all clean (target (pf_script f)) \<and> list_all fits (pf_script f)
     \<and> list_all (\<lambda>l. unified_hunk_start l = None) (pf_preamble f) \<and> list_all hunk_ok (pf_hunks f) \<and> pf_hunks f \<noteq> []
     \<and> \<not> py_contains (df_text (pf_diff f)) ''rename from''"

definition pf_before :: "patched_file \<Rightarrow> string" where "pf_before f = file_text (pf_eol f) (source (pf_script f))"

definition pf_after :: "patched_file \<Rightarrow> string" where "pf_after f = file_text (pf_eol f) (target (pf_script f))"

lemma file_patched:
  assumes "pf_ok f" and "fs (os_path_join repo (pf_path f)) = Some (pf_before f)" and "decodes (pf_before f)"
  shows "apply_one decodes repo (pf_diff f) fs = (fs(os_path_join repo (pf_path f) \<mapsto> pf_after f), Inr ())"
proof -
  have ok: "pf_path f \<noteq> []" "pf_path f \<noteq> ''/dev/null''" "without_prefixes (pf_path f) = pf_path f"
    "pf_eol f = [nl] \<or> pf_eol f = crlf" "pf_eol f = crlf \<longrightarrow> source (pf_script f) \<noteq> []"
    "list_all clean (source (pf_script f))" "list_all clean (target (pf_script f))" "list_all fits (pf_script f)"
    "\<not> py_contains (df_text (pf_diff f)) ''rename from''"
    using assms(1) by (simp_all add: pf_ok_def)
  from assms(1) unified_parsed [of "pf_preamble f" "pf_hunks f" "pf_rest f"] obtain cs where
    cs: "df_changes (pf_diff f) = Some cs" "described 1 1 (pf_script f) cs"
    by (auto simp: pf_ok_def pf_diff_def pf_script_def Let_def)
  have h: "df_header (pf_diff f) = Some \<lparr>ph_old_path = Some (pf_path f), ph_new_path = Some (pf_path f)\<rparr>" by (simp add: pf_diff_def Let_def)
  from clean_read_back [OF ok(6,4,5)] script_applies(1) [OF cs(2) ok(8)]
  show ?thesis unfolding apply_one_def h using ok cs(1) assms(2,3)
    by (simp add: pf_before_def pf_after_def)
qed

text \<open>
  C26. A patch of unified diffs to different files, each fitting its file up to white space, turns every one of these files into its
  second text, with its own line ends kept, and leaves every other file of the file system as it is.
\<close>

theorem patch_updates_exactly_its_files:
  assumes "list_all pf_ok ps" and "distinct (map (\<lambda>f. os_path_join repo (pf_path f)) ps)"
    and "list_all (\<lambda>f. fs (os_path_join repo (pf_path f)) = Some (pf_before f) \<and> decodes (pf_before f)) ps"
  shows "apply_patch decodes repo (map pf_diff ps) fs
    = (fs(map (\<lambda>f. os_path_join repo (pf_path f)) ps [\<mapsto>] map pf_after ps), Inr ())"
  using assms
proof (induction ps arbitrary: fs)
  case (Cons f ps)
  let ?p = "os_path_join repo (pf_path f)"
  have "list_all (\<lambda>g. (fs(?p \<mapsto> pf_after f)) (os_path_join repo (pf_path g)) = Some (pf_before g) \<and> decodes (pf_before g)) ps"
    using Cons.prems(2,3) by (auto simp: list_all_iff image_iff)
  then have "apply_patch decodes repo (map pf_diff ps) (fs(?p \<mapsto> pf_after f))
      = ((fs(?p \<mapsto> pf_after f))(map (\<lambda>f. os_path_join repo (pf_path f)) ps [\<mapsto>] map pf_after ps), Inr ())"
    using Cons.IH Cons.prems(1,2) by simp
  moreover have "apply_one decodes repo (pf_diff f) fs = (fs(?p \<mapsto> pf_after f), Inr ())"
    using file_patched Cons.prems(1,3) by simp
  ultimately show ?case by (simp only: list.map apply_patch.simps map_upds_Cons prod.case sum.case)
qed simp

section \<open>Renames and prefixes\<close>

text \<open>
  A difference whose text says \<open>rename from\<close>, be it in a header or in a line of a file, only moves the file: its changes are
  not carried out, and when both paths are the same nothing happens at all, although the patch counts as applied.
\<close>

theorem rename_text_drops_the_changes:
  assumes "df_header d = Some h" and "ph_old_path h = Some old" and "ph_new_path h = Some new" and "old \<noteq> []" and "new \<noteq> []"
    and "old \<noteq> ''/dev/null''" and "new \<noteq> ''/dev/null''" and "repo \<noteq> []"
    and "py_contains (df_text d) ''rename from''" and "fs (os_path_join repo (without_prefixes old)) = Some c"
  shows "apply_one decodes repo d fs
    = ((if os_path_join repo (without_prefixes old) = os_path_join repo (without_prefixes new) then fs
        else fs(os_path_join repo (without_prefixes old) := None, os_path_join repo (without_prefixes new) := Some c)), Inr ())"
proof -
  have join: "os_path_join repo p \<noteq> []" for p using assms(8) by (auto simp: os_path_join_def py_startswith_def)
  show ?thesis using assms join by (simp add: apply_one_def)
qed

text \<open>A file in a directory \<open>b\<close> of the repository is looked up outside of it.\<close>

lemma directory_b_is_dropped: "without_prefixes (''a/b/'' @ p) = p" "without_prefixes (''b/'' @ p) = p"
  by (simp_all add: without_prefixes_def py_removeprefix_def py_startswith_def)

text \<open>A file without a line break loses the white space around its line, whatever the patch does to it.\<close>

lemma single_line_is_stripped:
  assumes "clean l" and "l \<noteq> []"
  shows "read_lines (detect_newline l) l = [py_strip l]"
proof -
  have "map (\<lambda>c. if c = CHR 0x0D then nl else c) l = l" using assms(1) by (induction l) (auto simp: clean_def)
  moreover have "\<not> py_contains l crlf" using quiet_contains [OF quiet_char, of crlf l] assms(1) by (simp add: clean_def crlf_def)
  moreover have "\<not> py_contains l [nl]" using quiet_contains [OF quiet_char, of "[nl]" l] assms(1) by (simp add: clean_def)
  ultimately show ?thesis using assms by (simp add: detect_newline_def read_lines_def clean_def lines_at.simps partition_none)
qed

end
