(* ===== verification/PatchExamples.thy ===== *)
theory PatchExamples
  imports PlainPatches PatchFiles
begin

text \<open>The theorems on patches at a small file: a line is replaced in its first hunk, and a line is added in its second.\<close>

definition demo_hunks :: "hunk list" where
  "demo_hunks =
     [([''a''], [Keep '' b'' ''b'', Del (Some ''c'') ''c'', Add ''C'', Keep ''d'' ''d''], '' fun''),
      ([''e''], [Keep ''f'' ''f'', Add ''g''], [])]"

definition demo_preamble :: "string list" where "demo_preamble = [''--- a/x'', ''+++ b/x'']"

definition demo_replacements :: "replacement list" where
  "demo_replacements = [([''a''], [''b'', ''c''], [''B'']), ([''d''], [], [''e''])]"

definition demo_file :: patched_file where
  "demo_file = \<lparr>pf_path = ''x'', pf_eol = crlf, pf_hunks = demo_hunks, pf_rest = [''z''], pf_preamble = demo_preamble\<rparr>"

lemma demo_ok: "list_all (\<lambda>l. unified_hunk_start l = None) demo_preamble" "list_all hunk_ok demo_hunks" "demo_hunks \<noteq> []"
  by code_simp+

lemma demo_fits: "list_all fits (script_of demo_hunks [''z''])"
  by code_simp

lemma demo_source: "source (script_of demo_hunks [''z'']) = [''a'', ''b'', ''c'', ''d'', ''e'', ''f'', ''z'']"
  "target (script_of demo_hunks [''z'']) = [''a'', ''b'', ''C'', ''d'', ''e'', ''f'', ''g'', ''z'']"
  by code_simp+

theorem unified_diff_applies_witness:
  "\<exists>cs. parse_unified_diff (demo_preamble @ concat (unified_blocks 1 1 demo_hunks)) = Some cs
    \<and> apply_diff False cs [''a'', ''b'', ''c'', ''d'', ''e'', ''f'', ''z''] = Inr [''a'', ''b'', ''C'', ''d'', ''e'', ''f'', ''g'', ''z'']"
  using unified_diff_applies [OF demo_ok, of "[''z'']"] demo_fits demo_source by auto

theorem blank_line_after_a_hunk_fails_witness:
  "\<exists>cs m. parse_unified_diff (concat (unified_blocks 1 1 [([], [Keep ''a'' ''a'', Add ''b''], [])]) @ [[]]) = Some cs
    \<and> apply_diff False cs [''a''] = Inl (OtherError ''HunkApplyException'' m)"
  using blank_line_after_a_hunk_fails [of "[]" "[]" "[Keep ''a'' ''a'', Add ''b'']" "[]" "[]"] by (auto simp: hunk_ok_def)

theorem plain_diff_applies_witness:
  "\<exists>cs. parse_default_diff (concat (plain_blocks 1 1 demo_replacements)) = Some cs
    \<and> apply_diff False cs [''a'', ''b'', ''c'', ''d''] = Inr [''a'', ''B'', ''d'', ''e'']"
proof -
  have ok: "list_all replacement_ok demo_replacements" "demo_replacements \<noteq> []" by code_simp+
  have texts: "source (plain_script demo_replacements []) = [''a'', ''b'', ''c'', ''d'']"
    "target (plain_script demo_replacements []) = [''a'', ''B'', ''d'', ''e'']" by code_simp+
  from plain_diff_applies [OF ok, of "[]"] texts show ?thesis by auto
qed

theorem patch_updates_exactly_its_files_witness:
  "apply_patch (\<lambda>_. True) ''/r'' [pf_diff demo_file] [''/r/x'' \<mapsto> pf_before demo_file, ''/r/y'' \<mapsto> []]
    = ([''/r/x'' \<mapsto> pf_before demo_file, ''/r/y'' \<mapsto> [], ''/r/x'' \<mapsto> pf_after demo_file], Inr ())"
proof -
  have "list_all pf_ok [demo_file]" by code_simp
  moreover have "os_path_join ''/r'' (pf_path demo_file) = ''/r/x''" by code_simp
  ultimately show ?thesis
    using patch_updates_exactly_its_files [of "[demo_file]" "''/r''" "[''/r/x'' \<mapsto> pf_before demo_file, ''/r/y'' \<mapsto> []]" "\<lambda>_. True"]
    by simp
qed

theorem rename_text_drops_the_changes_witness:
  "apply_one (\<lambda>_. True) ''/r'' \<lparr>df_header = Some \<lparr>ph_old_path = Some ''x'', ph_new_path = Some ''x''\<rparr>,
      df_changes = Some [(None, Some 1, Some ''rename from'', 1)], df_text = ''+rename from''\<rparr> [''/r/x'' \<mapsto> ''a'']
    = ([''/r/x'' \<mapsto> ''a''], Inr ())"
proof -
  have p: "os_path_join ''/r'' (without_prefixes ''x'') = ''/r/x''" and t: "py_contains ''+rename from'' ''rename from''" by code_simp+
  show ?thesis
    using rename_text_drops_the_changes [of "\<lparr>df_header = Some \<lparr>ph_old_path = Some ''x'', ph_new_path = Some ''x''\<rparr>,
        df_changes = Some [(None, Some 1, Some ''rename from'', 1)], df_text = ''+rename from''\<rparr>"
        "\<lparr>ph_old_path = Some ''x'', ph_new_path = Some ''x''\<rparr>" "''x''" "''x''" "''/r''" "[''/r/x'' \<mapsto> ''a'']" "''a''"] p t
    by simp
qed

end
