(* ===== verification/Webhooks.thy ===== *)
theory Webhooks
  imports State
begin

text \<open>
  The file store that tells a web hook of its changes in batches (\<open>openhands/storage/batched_web_hook.py\<close>). It wraps another
  store; every write and every deletion is noted under its path, and the notes are sent together when they grow over a size, when
  no change has come for some time, or on demand.

  The timer is a flag: whether one is pending. The pool of threads is the list of the batches it was given; it may run them in
  any order. A request is retried twice, so the answers to a batch are a list of which three are looked at.
\<close>

section \<open>Contents as bytes\<close>

datatype file_contents = TextContents string | ByteContents string

definition utf8_char :: "char \<Rightarrow> string" where
  "utf8_char c = (let n = of_char c :: nat in if n < 128 then [c] else [char_of (192 + n div 64), char_of (128 + n mod 64)])"

definition utf8_encode :: "string \<Rightarrow> string" where
  \<comment> \<open>\<open>s.encode('utf-8')\<close> of the characters below 256\<close>
  "utf8_encode s = concat (map utf8_char s)"

fun utf8_decode :: "string \<Rightarrow> string option" where
  \<comment> \<open>the texts of characters below 256; other bytes count as undecodable\<close>
  "utf8_decode [] = Some []"
| "utf8_decode (c # s) =
     (if (of_char c :: nat) < 128 then map_option (Cons c) (utf8_decode s)
      else case s of
        [] \<Rightarrow> None
      | d # t \<Rightarrow>
          let a = of_char c :: nat; b = of_char d :: nat in
          if (a = 194 \<or> a = 195) \<and> 128 \<le> b \<and> b < 192
          then map_option (Cons (char_of ((a - 192) * 64 + (b - 128)))) (utf8_decode t) else None)"

definition base64_alphabet :: string where
  "base64_alphabet = ''ABCDEFGHIJKLMNOPQRSTUVWXYZabcdefghijklmnopqrstuvwxyz0123456789+/''"

definition sextet :: "nat \<Rightarrow> char" where "sextet n = base64_alphabet ! n"

fun base64_encode :: "string \<Rightarrow> string" where
  "base64_encode [] = []"
| "base64_encode [a] = (let x = of_char a :: nat in [sextet (x div 4), sextet (x mod 4 * 16), CHR ''='', CHR ''=''])"
| "base64_encode [a, b] = (let x = of_char a :: nat; y = of_char b in
     [sextet (x div 4), sextet (x mod 4 * 16 + y div 16), sextet (y mod 16 * 4), CHR ''=''])"
| "base64_encode (a # b # c # s) = (let x = of_char a :: nat; y = of_char b; z = of_char c in
     [sextet (x div 4), sextet (x mod 4 * 16 + y div 16), sextet (y mod 16 * 4 + z div 64), sextet (z mod 64)] @ base64_encode s)"

definition sextet_value :: "char \<Rightarrow> nat option" where
  "sextet_value c = find_index (\<lambda>d. d = c) base64_alphabet"

fun base64_decode :: "string \<Rightarrow> string option" where
  "base64_decode [] = Some []"
| "base64_decode (a # b # c # d # s) = (case (sextet_value a, sextet_value b) of
     (Some p, Some q) \<Rightarrow>
       if c = CHR ''='' then (if d = CHR ''='' \<and> s = [] then Some [char_of (p * 4 + q div 16)] else None)
       else (case sextet_value c of
         None \<Rightarrow> None
       | Some r \<Rightarrow>
           if d = CHR ''='' then (if s = [] then Some [char_of (p * 4 + q div 16), char_of (q mod 16 * 16 + r div 4)] else None)
           else (case sextet_value d of
             None \<Rightarrow> None
           | Some t \<Rightarrow> map_option (\<lambda>u. char_of (p * 4 + q div 16) # char_of (q mod 16 * 16 + r div 4) # char_of (r mod 4 * 64 + t) # u)
               (base64_decode s)))
   | _ \<Rightarrow> None)"
| "base64_decode _ = None"

definition content_bytes :: "file_contents \<Rightarrow> string" where
  "content_bytes c = (case c of TextContents s \<Rightarrow> utf8_encode s | ByteContents b \<Rightarrow> b)"

definition content_size :: "file_contents option \<Rightarrow> int" where
  "content_size c = (case c of None \<Rightarrow> 0 | Some c \<Rightarrow> int (length (content_bytes c)))"

section \<open>The batch\<close>

type_synonym update_batch = "(string \<times> string \<times> file_contents option) list"

record 's batched_store =
  bw_store :: 's
  bw_batch :: update_batch
  bw_size :: int
  bw_timer :: bool
  bw_tasks :: "update_batch list"
  bw_received :: "update_batch list"

definition WEBHOOK_BATCH_SIZE_LIMIT_BYTES :: int where "WEBHOOK_BATCH_SIZE_LIMIT_BYTES = 1048576"

definition batch_limit :: "int option \<Rightarrow> int" where
  \<comment> \<open>the argument of the constructor or the default\<close>
  "batch_limit arg = (case arg of None \<Rightarrow> WEBHOOK_BATCH_SIZE_LIMIT_BYTES | Some n \<Rightarrow> if n = 0 then WEBHOOK_BATCH_SIZE_LIMIT_BYTES else n)"

definition new_batched_store :: "'s \<Rightarrow> 's batched_store" where
  "new_batched_store s = \<lparr>bw_store = s, bw_batch = [], bw_size = 0, bw_timer = False, bw_tasks = [], bw_received = []\<rparr>"

definition send_batch :: "bool list \<Rightarrow> update_batch \<Rightarrow> 's batched_store \<Rightarrow> 's batched_store" where
  \<comment> \<open>an empty batch is not sent; after three failures the batch is given up\<close>
  "send_batch answers b s = (if b \<noteq> [] \<and> True \<in> set (take 3 answers) then s\<lparr>bw_received := bw_received s @ [b]\<rparr> else s)"

definition enqueue_batch :: "'s batched_store \<Rightarrow> 's batched_store" where
  \<comment> \<open>\<open>_enqueue_batch_from_lock\<close> in the background\<close>
  "enqueue_batch s = s\<lparr>bw_batch := [], bw_size := 0, bw_tasks := bw_tasks s @ [bw_batch s], bw_timer := False\<rparr>"

definition queue_update :: "int \<Rightarrow> string \<Rightarrow> string \<Rightarrow> file_contents option \<Rightarrow> 's batched_store \<Rightarrow> 's batched_store" where
  "queue_update limit path operation contents s =
     (let prev = (case map_of (bw_batch s) path of None \<Rightarrow> 0 | Some (_, c) \<Rightarrow> content_size c);
          size = bw_size s - prev + content_size contents;
          s = s\<lparr>bw_size := size, bw_batch := AList.update path (operation, contents) (bw_batch s)\<rparr>
      in if limit \<le> size then enqueue_batch s else s\<lparr>bw_timer := True\<rparr>)"

definition bw_write ::
  "(string \<Rightarrow> file_contents \<Rightarrow> 's \<Rightarrow> 's) \<Rightarrow> int \<Rightarrow> string \<Rightarrow> file_contents \<Rightarrow> 's batched_store \<Rightarrow> 's batched_store" where
  "bw_write wr limit path contents s = queue_update limit path ''write'' (Some contents) (s\<lparr>bw_store := wr path contents (bw_store s)\<rparr>)"

definition bw_delete :: "(string \<Rightarrow> 's \<Rightarrow> 's) \<Rightarrow> int \<Rightarrow> string \<Rightarrow> 's batched_store \<Rightarrow> 's batched_store" where
  "bw_delete del limit path s = queue_update limit path ''delete'' None (s\<lparr>bw_store := del path (bw_store s)\<rparr>)"

definition bw_read :: "('s \<Rightarrow> string \<Rightarrow> file_contents res) \<Rightarrow> 's batched_store \<Rightarrow> string \<Rightarrow> file_contents res" where
  "bw_read rd s path = rd (bw_store s) path"

definition bw_list :: "('s \<Rightarrow> string \<Rightarrow> string list res) \<Rightarrow> 's batched_store \<Rightarrow> string \<Rightarrow> string list res" where
  "bw_list ls s path = ls (bw_store s) path"

definition bw_flush :: "bool list \<Rightarrow> 's batched_store \<Rightarrow> 's batched_store" where
  \<comment> \<open>\<open>flush\<close>: sends at once\<close>
  "bw_flush answers s = send_batch answers (bw_batch s) (s\<lparr>bw_batch := [], bw_size := 0, bw_timer := False\<rparr>)"

definition bw_timeout :: "'s batched_store \<Rightarrow> 's batched_store" where
  \<comment> \<open>\<open>_enqueue_batch_from_timer\<close>, when a timer is pending\<close>
  "bw_timeout s = (if bw_timer s then enqueue_batch s else s)"

definition bw_task :: "nat \<Rightarrow> bool list \<Rightarrow> 's batched_store \<Rightarrow> 's batched_store" where
  \<comment> \<open>a thread of the pool runs one of the tasks\<close>
  "bw_task k answers s = (if k < length (bw_tasks s)
     then send_batch answers (bw_tasks s ! k) (s\<lparr>bw_tasks := take k (bw_tasks s) @ drop (Suc k) (bw_tasks s)\<rparr>) else s)"

section \<open>The request\<close>

record batch_item =
  bi_method :: string
  bi_path :: string
  bi_content :: "string option"
  bi_encoding :: "string option"

definition payload_item :: "string \<times> string \<times> file_contents option \<Rightarrow> batch_item" where
  "payload_item = (\<lambda>(path, operation, contents).
     let item = \<lparr>bi_method = (if operation = ''write'' then ''POST'' else ''DELETE''), bi_path = path, bi_content = None, bi_encoding = None\<rparr>
     in if operation = ''write'' then (case contents of
          None \<Rightarrow> item
        | Some (TextContents t) \<Rightarrow> item\<lparr>bi_content := Some t\<rparr>
        | Some (ByteContents b) \<Rightarrow> (case utf8_decode b of
            Some t \<Rightarrow> item\<lparr>bi_content := Some t\<rparr>
          | None \<Rightarrow> item\<lparr>bi_content := Some (base64_encode b), bi_encoding := Some ''base64''\<rparr>))
        else item)"

definition batch_payload :: "update_batch \<Rightarrow> batch_item list" where
  "batch_payload b = map payload_item b"

section \<open>Runs\<close>

datatype bw_step = WriteStep string file_contents | DeleteStep string | TimeoutStep | FlushStep "bool list" | TaskStep nat "bool list"

fun bw_run :: "(string \<Rightarrow> file_contents \<Rightarrow> 's \<Rightarrow> 's) \<Rightarrow> (string \<Rightarrow> 's \<Rightarrow> 's) \<Rightarrow> int \<Rightarrow> bw_step \<Rightarrow> 's batched_store \<Rightarrow> 's batched_store" where
  "bw_run wr del limit (WriteStep p c) s = bw_write wr limit p c s"
| "bw_run wr del limit (DeleteStep p) s = bw_delete del limit p s"
| "bw_run wr del limit TimeoutStep s = bw_timeout s"
| "bw_run wr del limit (FlushStep answers) s = bw_flush answers s"
| "bw_run wr del limit (TaskStep k answers) s = bw_task k answers s"

definition bw_runs where
  "bw_runs wr del limit steps s = fold (bw_run wr del limit) steps s"

end
