(* ===== verification/WebhookLaws.thy ===== *)
theory WebhookLaws
  imports Webhooks
begin

text \<open>
  What a batched store promises: it is a store like the one it wraps, its batch stays below the limit and is sent in the end,
  and the batches, in the order they are handed over, say for every path what the history of changes says.
\<close>

section \<open>Codecs\<close>

lemma sextets: "n < 64 \<Longrightarrow> sextet_value (sextet n) = Some n \<and> sextet n \<noteq> CHR ''=''"
proof -
  have "list_all (\<lambda>n. sextet_value (sextet n) = Some n \<and> sextet n \<noteq> CHR ''='') [0..<64]" by code_simp
  then show "n < 64 \<Longrightarrow> sextet_value (sextet n) = Some n \<and> sextet n \<noteq> CHR ''=''" by (simp add: list_all_iff)
qed

lemma sextet_parts:
  fixes x y z :: nat
  assumes "x < 256" and "y < 256" and "z < 256"
  shows "x div 4 < 64" "x mod 4 * 16 + y div 16 < 64" "y mod 16 * 4 + z div 64 < 64" "z mod 64 < 64" "x mod 4 * 16 < 64" "y mod 16 * 4 < 64"
    "x div 4 * 4 + (x mod 4 * 16 + y div 16) div 16 = x" "(x mod 4 * 16 + y div 16) mod 16 * 16 + (y mod 16 * 4 + z div 64) div 4 = y"
    "(y mod 16 * 4 + z div 64) mod 4 * 64 + z mod 64 = z" "x div 4 * 4 + x mod 4 * 16 div 16 = x"
    "(x mod 4 * 16 + y div 16) mod 16 * 16 + y mod 16 * 4 div 4 = y"
proof -
  have small: "x div 4 < 64" "x mod 4 < 4" "y div 16 < 16" "y mod 16 < 16" "z div 64 < 4" "z mod 64 < 64"
    using assms by (simp_all add: less_mult_imp_div_less)
  then show "x div 4 < 64" "x mod 4 * 16 + y div 16 < 64" "y mod 16 * 4 + z div 64 < 64" "z mod 64 < 64" "x mod 4 * 16 < 64"
    "y mod 16 * 4 < 64" by linarith+
  have "(x mod 4 * 16 + y div 16) div 16 = x mod 4" "(x mod 4 * 16 + y div 16) mod 16 = y div 16"
    "(y mod 16 * 4 + z div 64) div 4 = y mod 16" "(y mod 16 * 4 + z div 64) mod 4 = z div 64" using small by simp_all
  then show "x div 4 * 4 + (x mod 4 * 16 + y div 16) div 16 = x"
    "(x mod 4 * 16 + y div 16) mod 16 * 16 + (y mod 16 * 4 + z div 64) div 4 = y"
    "(y mod 16 * 4 + z div 64) mod 4 * 64 + z mod 64 = z" "x div 4 * 4 + x mod 4 * 16 div 16 = x"
    "(x mod 4 * 16 + y div 16) mod 16 * 16 + y mod 16 * 4 div 4 = y"
    by simp_all
qed

lemma base64_roundtrip: "base64_decode (base64_encode b) = Some b"
proof (induction b rule: base64_encode.induct)
  case (2 a)
  note parts = sextet_parts [of "of_char a" 0 0]
  then show ?case using sextets by (simp add: Let_def)
next
  case (3 a b)
  note parts = sextet_parts [of "of_char a" "of_char b" 0]
  then show ?case using sextets by (simp add: Let_def)
next
  case (4 a b c s)
  note parts = sextet_parts [of "of_char a" "of_char b" "of_char c"]
  then show ?case using sextets 4 by (simp add: Let_def)
qed simp

lemma utf8_decode_encode: "utf8_decode b = Some s \<Longrightarrow> utf8_encode s = b"
proof (induction b arbitrary: s rule: utf8_decode.induct)
  case (2 c t)
  show ?case
  proof (cases "(of_char c :: nat) < 128")
    case True
    with 2 show ?thesis by (auto simp: utf8_encode_def utf8_char_def)
  next
    case False
    with "2.prems" obtain d u v where t: "t = d # u" "s = char_of ((of_char c - 192) * 64 + (of_char d - 128 :: nat)) # v"
      "utf8_decode u = Some v" "(of_char c :: nat) = 194 \<or> (of_char c :: nat) = 195" "128 \<le> (of_char d :: nat)" "(of_char d :: nat) < 192"
      by (auto simp: Let_def split: list.splits if_splits)
    define a :: nat where "a = of_char c"
    define b :: nat where "b = of_char d"
    have ab: "a = 194 \<or> a = 195" "128 \<le> b" "b < 192" using t(4-6) by (simp_all add: a_def b_def)
    then obtain k where "b = 128 + k" "k < 64" using le_Suc_ex [of 128 b] by auto
    with ab have n: "128 \<le> (a - 192) * 64 + (b - 128)" "(a - 192) * 64 + (b - 128) < 256"
      "192 + ((a - 192) * 64 + (b - 128)) div 64 = a" "128 + ((a - 192) * 64 + (b - 128)) mod 64 = b" by auto
    have "utf8_char (char_of ((a - 192) * 64 + (b - 128))) = [char_of a, char_of b]"
      using n by (simp add: utf8_char_def Let_def)
    moreover have "utf8_encode v = u" using "2.IH"(2) [OF False t(1) refl refl] t(3-6) by simp
    ultimately show ?thesis using t(1,2) by (simp add: utf8_encode_def a_def b_def)
  qed
qed (simp add: utf8_encode_def)

section \<open>Invariants of a run\<close>

definition batch_size :: "update_batch \<Rightarrow> int" where
  "batch_size b = sum_list (map (\<lambda>(_, _, c). content_size c) b)"

definition batch_ok :: "int \<Rightarrow> 's batched_store \<Rightarrow> bool" where
  "batch_ok limit s \<longleftrightarrow> distinct (map fst (bw_batch s)) \<and> bw_size s = batch_size (bw_batch s) \<and> bw_size s < limit
     \<and> (bw_timer s \<longleftrightarrow> bw_batch s \<noteq> [])"

lemma batch_size_update:
  "distinct (map fst b) \<Longrightarrow> batch_size (AList.update p (op, c) b)
    = batch_size b - (case map_of b p of None \<Rightarrow> 0 | Some (_, c) \<Rightarrow> content_size c) + content_size c"
proof (induction b)
  case (Cons x b)
  have "map_of b p = None" if "fst x = p" using Cons.prems that by (force simp: map_of_eq_None_iff)
  with Cons show ?case by (cases x) (auto simp: batch_size_def)
qed (simp add: batch_size_def)

lemma update_nonempty: "AList.update p x b \<noteq> []"
  by (cases b) (auto split: prod.split)

lemma queue_update_ok:
  assumes "0 < limit" and "batch_ok limit s"
  shows "batch_ok limit (queue_update limit p operation c s)"
  using assms batch_size_update [of "bw_batch s" p operation c]
  by (auto simp: batch_ok_def queue_update_def enqueue_batch_def Let_def distinct_update update_nonempty batch_size_def [of "[]"])

lemma send_batch_fields [simp]:
  "bw_batch (send_batch answers b s) = bw_batch s" "bw_size (send_batch answers b s) = bw_size s"
  "bw_timer (send_batch answers b s) = bw_timer s" "bw_tasks (send_batch answers b s) = bw_tasks s"
  "bw_store (send_batch answers b s) = bw_store s"
  by (simp_all add: send_batch_def)

text \<open>
  In every run, with any answers of the web hook, the recorded size is the size of what is pending and stays below the limit, a path
  is pending once, and a timer runs exactly while something is pending, so that every change is handed over in the end.
\<close>

theorem batch_stays_within_its_limit:
  assumes "0 < limit"
  shows "batch_ok limit (bw_runs wr del limit steps (new_batched_store s0))"
proof -
  have step: "batch_ok limit (bw_run wr del limit st s)" if "batch_ok limit s" for st s
  proof -
    have "batch_ok limit (s\<lparr>bw_store := x\<rparr>)" for x using that by (simp add: batch_ok_def)
    then have "batch_ok limit (queue_update limit p operation c (s\<lparr>bw_store := x\<rparr>))" for x p operation c
      by (rule queue_update_ok [OF assms])
    with that assms show ?thesis
      by (cases st) (simp_all add: bw_write_def bw_delete_def, simp_all add: batch_ok_def bw_timeout_def enqueue_batch_def bw_flush_def
        bw_task_def batch_size_def)
  qed
  have "batch_ok limit s \<Longrightarrow> batch_ok limit (fold (bw_run wr del limit) steps s)" for s
    by (induction steps arbitrary: s) (simp_all add: step)
  moreover have "batch_ok limit (new_batched_store s0)"
    using assms by (simp add: batch_ok_def new_batched_store_def batch_size_def)
  ultimately show ?thesis by (simp add: bw_runs_def)
qed

section \<open>The receiver\<close>

definition apply_update ::
  "(string \<Rightarrow> file_contents \<Rightarrow> 's \<Rightarrow> 's) \<Rightarrow> (string \<Rightarrow> 's \<Rightarrow> 's) \<Rightarrow> string \<times> string \<times> file_contents option \<Rightarrow> 's \<Rightarrow> 's" where
  \<comment> \<open>a receiver that does what an item says\<close>
  "apply_update wr del = (\<lambda>(path, operation, contents) s.
     if operation = ''write'' then (case contents of None \<Rightarrow> s | Some c \<Rightarrow> wr path c s) else del path s)"

fun update_of :: "bw_step \<Rightarrow> update_batch" where
  "update_of (WriteStep p c) = [(p, ''write'', Some c)]"
| "update_of (DeleteStep p) = [(p, ''delete'', None)]"
| "update_of _ = []"

definition history_of :: "bw_step list \<Rightarrow> update_batch" where
  "history_of steps = concat (map update_of steps)"

fun orderly :: "bw_step \<Rightarrow> 's batched_store \<Rightarrow> bool" where
  \<comment> \<open>the web hook answers in time, the pool runs its tasks in order, and a flush does not overtake them\<close>
  "orderly (FlushStep answers) s \<longleftrightarrow> True \<in> set (take 3 answers) \<and> bw_tasks s = []"
| "orderly (TaskStep k answers) s \<longleftrightarrow> True \<in> set (take 3 answers) \<and> k = 0"
| "orderly _ s \<longleftrightarrow> True"

fun orderly_run :: "(string \<Rightarrow> file_contents \<Rightarrow> 's \<Rightarrow> 's) \<Rightarrow> (string \<Rightarrow> 's \<Rightarrow> 's) \<Rightarrow> int \<Rightarrow> bw_step list \<Rightarrow> 's batched_store \<Rightarrow> bool" where
  "orderly_run wr del limit [] s = True"
| "orderly_run wr del limit (st # steps) s \<longleftrightarrow> orderly st s \<and> orderly_run wr del limit steps (bw_run wr del limit st s)"

definition handed_over :: "'s batched_store \<Rightarrow> update_batch" where
  "handed_over s = concat (bw_received s) @ concat (bw_tasks s)"

definition says_the_same :: "'s batched_store \<Rightarrow> update_batch \<Rightarrow> bool" where
  \<comment> \<open>for every path, what was handed over and what is pending end with the same change as the history\<close>
  "says_the_same s h \<longleftrightarrow> distinct (map fst (bw_batch s)) \<and> set (handed_over s @ bw_batch s) \<subseteq> set h
     \<and> map_of (rev (handed_over s)) ++ map_of (bw_batch s) = map_of (rev h)"

lemma says_fields [simp]:
  "says_the_same (s\<lparr>bw_timer := t\<rparr>) h = says_the_same s h" "says_the_same (s\<lparr>bw_store := x\<rparr>) h = says_the_same s h"
  by (simp_all add: says_the_same_def handed_over_def)

lemma map_of_rev_distinct: "distinct (map fst b) \<Longrightarrow> map_of (rev b) = map_of b"
  by (rule map_of_inject_set [THEN iffD2]) (simp_all add: rev_map [symmetric])

lemma handed_enqueue: "says_the_same s h \<Longrightarrow> says_the_same (enqueue_batch s) h"
  by (auto simp: says_the_same_def handed_over_def enqueue_batch_def map_of_rev_distinct)

lemma set_alist_update: "set (AList.update k v b) \<subseteq> insert (k, v) (set b)"
  by (induction b) auto

lemma queue_says:
  assumes "says_the_same s h"
  shows "says_the_same (queue_update limit p operation c s) (h @ [(p, operation, c)])"
proof -
  have noted: "says_the_same (s\<lparr>bw_size := n, bw_batch := AList.update p (operation, c) (bw_batch s)\<rparr>) (h @ [(p, operation, c)])" for n
    using assms set_alist_update [of p "(operation, c)" "bw_batch s"]
    by (auto simp: says_the_same_def handed_over_def distinct_update update_conv' map_add_upd [symmetric])
  show ?thesis unfolding queue_update_def Let_def using noted handed_enqueue [OF noted] by simp
qed

lemma run_says:
  assumes "says_the_same s h" and "orderly st s"
  shows "says_the_same (bw_run wr del limit st s) (h @ update_of st)"
proof (cases st)
  case (WriteStep p c)
  show ?thesis using queue_says [of "s\<lparr>bw_store := wr p c (bw_store s)\<rparr>" h] assms(1) by (simp add: WriteStep bw_write_def)
next
  case (DeleteStep p)
  show ?thesis using queue_says [of "s\<lparr>bw_store := del p (bw_store s)\<rparr>" h] assms(1) by (simp add: DeleteStep bw_delete_def)
next
  case TimeoutStep
  show ?thesis using assms(1) handed_enqueue [OF assms(1)] by (simp add: TimeoutStep bw_timeout_def)
next
  case (FlushStep answers)
  with assms show ?thesis
    by (auto simp: bw_flush_def send_batch_def says_the_same_def handed_over_def map_of_rev_distinct)
next
  case (TaskStep k answers)
  show ?thesis
  proof (cases "bw_tasks s")
    case Nil
    with assms TaskStep show ?thesis by (simp add: bw_task_def)
  next
    case (Cons b bs)
    with assms TaskStep show ?thesis by (auto simp: bw_task_def send_batch_def says_the_same_def handed_over_def)
  qed
qed

lemma runs_say:
  "says_the_same s h \<Longrightarrow> orderly_run wr del limit steps s
    \<Longrightarrow> says_the_same (bw_runs wr del limit steps s) (h @ history_of steps)"
proof (induction steps arbitrary: s h)
  case (Cons st steps)
  from Cons.IH [OF run_says] Cons.prems show ?case by (simp add: bw_runs_def history_of_def)
qed (simp add: bw_runs_def history_of_def)

lemma run_store:
  "bw_store (bw_runs wr del limit steps s) = fold (apply_update wr del) (history_of steps) (bw_store s)"
proof (induction steps arbitrary: s)
  case (Cons st steps)
  have "bw_store (queue_update limit p operation c t) = bw_store t" for p operation c and t :: "'a batched_store"
    by (simp add: queue_update_def enqueue_batch_def Let_def)
  then have "bw_store (bw_run wr del limit st s) = fold (apply_update wr del) (update_of st) (bw_store s)"
    by (cases st) (simp_all add: bw_write_def bw_delete_def apply_update_def bw_timeout_def enqueue_batch_def bw_flush_def bw_task_def)
  with Cons [of "bw_run wr del limit st s"] show ?case by (simp add: bw_runs_def history_of_def)
qed (simp add: bw_runs_def history_of_def)

text \<open>No deletion takes other paths along, and every write has its contents.\<close>

definition flat :: "update_batch \<Rightarrow> bool" where
  "flat us \<longleftrightarrow> (\<forall>(d, operation, c) \<in> set us.
     if operation = ''write'' then c \<noteq> None else \<forall>(p, _) \<in> set us. py_startswith p d \<longrightarrow> p = d)"

lemma flat_subset:
  assumes "flat us" and "set vs \<subseteq> set us"
  shows "flat vs"
proof -
  have "if operation = ''write'' then c \<noteq> None else \<forall>(p, _) \<in> set vs. py_startswith p d \<longrightarrow> p = d"
    if "(d, operation, c) \<in> set vs" for d operation c
  proof -
    have "if operation = ''write'' then c \<noteq> None else \<forall>(p, _) \<in> set us. py_startswith p d \<longrightarrow> p = d"
      using assms that unfolding flat_def by blast
    with assms(2) show ?thesis by (cases "operation = ''write''") auto
  qed
  then show ?thesis unfolding flat_def by blast
qed

definition last_word :: "update_batch \<Rightarrow> string \<Rightarrow> file_contents res" where
  \<comment> \<open>what the last change of a path makes of it\<close>
  "last_word us p = (case map_of (rev us) p of Some (_, Some c) \<Rightarrow> Inr c | _ \<Rightarrow> Inl FileNotFoundError)"

lemma py_startswith_refl [simp]: "py_startswith p p"
  by (simp add: py_startswith_def)

locale contents_store = deleting_store wr rd ls del
  for wr :: "string \<Rightarrow> file_contents \<Rightarrow> 's \<Rightarrow> 's" and rd and ls and del
begin

lemma flat_read:
  assumes empty: "\<And>p. rd s0 p = Inl FileNotFoundError"
  shows "flat us \<Longrightarrow> list_all (\<lambda>(_, operation, c). operation = ''write'' \<or> c = None) us
    \<Longrightarrow> rd (fold (apply_update wr del) us s0) p = last_word us p"
proof (induction us arbitrary: p rule: rev_induct)
  case (snoc u us)
  obtain d operation c where u: "u = (d, operation, c)" by (cases u) auto
  have IH: "rd (fold (apply_update wr del) us s0) q = last_word us q" for q
    using snoc.IH [of q] snoc.prems(2) flat_subset [OF snoc.prems(1), of us] by auto
  show ?case
  proof (cases "operation = ''write''")
    case True
    moreover from this snoc.prems(1) obtain x where "c = Some x" by (auto simp: flat_def u)
    ultimately show ?thesis using IH by (simp add: u apply_update_def last_word_def read_write)
  next
    case False
    with snoc.prems(2) have c: "c = None" by (simp add: u)
    have "map_of (rev us) p = None" if "py_startswith p d" "p \<noteq> d"
    proof -
      have "\<forall>(q, _) \<in> set us. q \<noteq> p" using snoc.prems(1) False that by (fastforce simp: flat_def u)
      then show ?thesis by (force simp: map_of_eq_None_iff)
    qed
    then show ?thesis using IH False by (auto simp: u c apply_update_def last_word_def read_deleted)
  qed
qed (simp add: last_word_def empty)

end

interpretation mem_contents: contents_store mem_write mem_read mem_list mem_delete
  by unfold_locales

text \<open>
  C34. The web hook catches up: when the pool has nothing to do and nothing is pending, a receiver that carries out the items of the
  batches as they come, from an empty store, reads every path as the local store reads it. For this every batch must be answered within
  three attempts, batches must be sent in the order they were handed over, and no deletion may take other files along.
\<close>

theorem mirror_catches_up:
  assumes "s = bw_runs mem_write mem_delete limit steps (new_batched_store [])"
    and "orderly_run mem_write mem_delete limit steps (new_batched_store [])"
    and "flat (history_of steps)" and "bw_tasks s = []" and "bw_batch s = []"
  shows "mem_read (fold (apply_update mem_write mem_delete) (concat (bw_received s)) []) p = mem_read (bw_store s) p"
proof -
  let ?h = "history_of steps"
  have same: "says_the_same s ?h"
    using runs_say [OF _ assms(2), of "[]"] assms(1) by (simp add: says_the_same_def new_batched_store_def handed_over_def)
  then have sub: "set (concat (bw_received s)) \<subseteq> set ?h" and last: "map_of (rev (concat (bw_received s))) = map_of (rev ?h)"
    using assms(4,5) by (auto simp: says_the_same_def handed_over_def)
  have shape: "list_all (\<lambda>(_, operation, c). operation = ''write'' \<or> c = None) ?h"
  proof -
    have "list_all (\<lambda>(_, operation, c). operation = ''write'' \<or> c = None) (update_of st)" for st by (cases st) simp_all
    then show ?thesis by (simp add: history_of_def list_all_iff)
  qed
  have shape': "list_all (\<lambda>(_, operation, c). operation = ''write'' \<or> c = None) (concat (bw_received s))"
    using shape sub unfolding list_all_iff by blast
  have empty: "mem_read ([] :: file_contents mem_store) q = Inl FileNotFoundError" for q by (simp add: mem_read_def)
  have "mem_read (bw_store s) p = last_word ?h p"
    using mem_contents.flat_read [OF empty assms(3) shape] run_store [of mem_write mem_delete limit steps "new_batched_store []"]
    by (simp add: assms(1) new_batched_store_def)
  moreover have "mem_read (fold (apply_update mem_write mem_delete) (concat (bw_received s)) []) p = last_word (concat (bw_received s)) p"
    using mem_contents.flat_read [OF empty flat_subset [OF assms(3) sub] shape'] .
  ultimately show ?thesis using last by (simp add: last_word_def)
qed

text \<open>
  A batch keeps a path at the place of its first change: when a file is written, its directory is deleted and the file is
  written again, the batch has the new write before the deletion, and the receiver loses the file that the local store has.
\<close>

theorem directory_deletion_overtakes_a_write:
  assumes "py_startswith p d" and "p \<noteq> d" and "content_size (Some c) < limit" and "content_size (Some c') < limit"
    and "s = bw_runs mem_write mem_delete limit [WriteStep p c, DeleteStep d, WriteStep p c', FlushStep [True]] (new_batched_store [])"
  shows "bw_batch s = [] \<and> bw_tasks s = [] \<and> mem_read (bw_store s) p = Inr c'
    \<and> mem_read (fold (apply_update mem_write mem_delete) (concat (bw_received s)) []) p = Inl FileNotFoundError"
proof -
  have none: "content_size None = 0" by (simp add: content_size_def)
  have pos: "0 \<le> content_size x" for x by (simp add: content_size_def split: option.split)
  have "0 < limit" using pos [of "Some c"] assms(3) by linarith
  with assms(2-4) have "bw_received s = [[(p, ''write'', Some c'), (d, ''delete'', None)]] \<and> bw_batch s = [] \<and> bw_tasks s = []"
    unfolding assms(5) by (simp add: bw_runs_def bw_write_def bw_delete_def queue_update_def bw_flush_def send_batch_def
        new_batched_store_def none Let_def)
  moreover have "bw_store s = mem_write p c' (mem_delete d (mem_write p c []))"
    unfolding assms(5) run_store by (simp add: history_of_def apply_update_def new_batched_store_def)
  ultimately show ?thesis using assms(1) by (simp add: apply_update_def mem_read_write mem_read_deleted)
qed

end
