(* ===== verification/EventWebhook.thy ===== *)
theory EventWebhook
  imports WebhookLaws
begin

text \<open>
  The other side of the web hook (\<open>enterprise/server/routes/event_webhook.py\<close>): the server receives a batch, checks the key of the
  session for every conversation in it, and carries out the writes of the files it knows.

  The database, the conversation manager and the handlers of the four kinds of files are a record over the state of the server: the
  user of a conversation, the key of its running session, \<open>json.loads\<close>, what a handler does and whether it raises. What goes wrong
  with one operation of a batch is logged and the loop goes on, so the state at that moment is kept; a single write answers with the
  status of its response. Base 64 is read as it is written; texts that are none count as an error, where the library skips
  characters outside of its alphabet.
\<close>

section \<open>Operations\<close>

definition base64_value :: "string \<Rightarrow> string res" where
  \<comment> \<open>\<open>base64.b64decode\<close>\<close>
  "base64_value s = (case base64_decode s of None \<Rightarrow> Inl (ValueError ''binascii.Error'') | Some b \<Rightarrow> Inr b)"

definition item_bytes :: "batch_item \<Rightarrow> string res" where
  \<comment> \<open>\<open>get_content\<close>\<close>
  "item_bytes item = (case bi_content item of
       None \<Rightarrow> Inl (ValueError ''empty_content_in_batch'')
     | Some c \<Rightarrow> if bi_encoding item = Some ''base64'' then base64_value c else Inr (utf8_encode c))"

definition parse_conversation_path :: "string \<Rightarrow> (string \<times> string) option" where
  \<comment> \<open>\<open>_parse_conversation_id_and_subpath\<close>; \<open>None\<close> for the exception with the bad request\<close>
  "parse_conversation_path path = (case py_split (CHR ''/'') path of
       first # cid # rest \<Rightarrow> if first = ''sessions'' then Some (cid, py_join ''/'' rest) else None
     | _ \<Rightarrow> None)"

datatype webhook_effect =
    UpdateAgentState string string string
  | UpdateStats string string string
  | UpdateMetadata string json
  | ProcessEvent string string string json

record 'w webhook_env =
  we_user :: "'w \<Rightarrow> string \<Rightarrow> string option"
  we_key :: "'w \<Rightarrow> string \<Rightarrow> string \<Rightarrow> string option option"
  we_loads :: "string \<Rightarrow> json option"
  we_handle :: "webhook_effect \<Rightarrow> 'w \<Rightarrow> 'w"
  we_raises :: "webhook_effect \<Rightarrow> 'w \<Rightarrow> bool"

record 'w webhook_run =
  wr_world :: 'w
  wr_prev :: "string option"
  wr_user :: "string option"
  wr_done :: "webhook_effect list"

definition item_json :: "'w webhook_env \<Rightarrow> batch_item \<Rightarrow> json option" where
  "item_json E item = (case item_bytes item of Inl _ \<Rightarrow> None | Inr b \<Rightarrow> we_loads E b)"

definition effect_of :: "'w webhook_env \<Rightarrow> string \<Rightarrow> string \<Rightarrow> string \<Rightarrow> batch_item \<Rightarrow> webhook_effect option" where
  \<comment> \<open>what is done for a file; \<open>None\<close> when nothing is to be done or the content cannot be read\<close>
  "effect_of E user cid subpath item =
     (if subpath = ''agent_state.pkl''
      then (case item_bytes item of Inl _ \<Rightarrow> None | Inr b \<Rightarrow> Some (UpdateAgentState user cid b))
      else if subpath = ''conversation_stats.pkl''
      then (case item_bytes item of Inl _ \<Rightarrow> None | Inr b \<Rightarrow> Some (UpdateStats user cid b))
      else if subpath = ''metadata.json'' then map_option (UpdateMetadata cid) (item_json E item)
      else if py_startswith subpath ''events/'' then map_option (ProcessEvent user cid subpath) (item_json E item)
      else None)"

definition dispatch_item :: "'w webhook_env \<Rightarrow> string \<Rightarrow> string \<Rightarrow> batch_item \<Rightarrow> 'w webhook_run \<Rightarrow> 'w webhook_run" where
  "dispatch_item E cid subpath item s = (case wr_user s of
       None \<Rightarrow> s
     | Some user \<Rightarrow> (case effect_of E user cid subpath item of
         None \<Rightarrow> s
       | Some e \<Rightarrow> s\<lparr>wr_world := we_handle E e (wr_world s), wr_done := wr_done s @ [e]\<rparr>))"

definition process_item :: "'w webhook_env \<Rightarrow> string option \<Rightarrow> batch_item \<Rightarrow> 'w webhook_run \<Rightarrow> 'w webhook_run" where
  \<comment> \<open>the user is assigned before the key is looked up, and \<open>prev_conversation_id\<close> before the keys are compared\<close>
  "process_item E x_session_api_key item s =
     (if bi_method item \<noteq> ''POST'' then s
      else if bi_path item = ''settings.json'' \<or> bi_path item = ''secrets.json'' then s
      else case parse_conversation_path (bi_path item) of
        None \<Rightarrow> s
      | Some (cid, subpath) \<Rightarrow>
          if wr_prev s = Some cid then dispatch_item E cid subpath item s
          else case we_user E (wr_world s) cid of
            None \<Rightarrow> s
          | Some user \<Rightarrow>
              let s = s\<lparr>wr_user := Some user\<rparr> in
              (case we_key E (wr_world s) user cid of
                 None \<Rightarrow> s
               | Some session_api_key \<Rightarrow>
                   let s = s\<lparr>wr_prev := Some cid\<rparr> in
                   if session_api_key \<noteq> x_session_api_key then s else dispatch_item E cid subpath item s))"

definition process_batch :: "'w webhook_env \<Rightarrow> string option \<Rightarrow> batch_item list \<Rightarrow> 'w \<Rightarrow> 'w webhook_run" where
  "process_batch E x_session_api_key items w =
     fold (process_item E x_session_api_key) items \<lparr>wr_world = w, wr_prev = None, wr_user = None, wr_done = []\<rparr>"

definition on_batch_write :: "'w webhook_env \<Rightarrow> string option \<Rightarrow> batch_item list \<Rightarrow> 'w \<Rightarrow> int \<times> 'w" where
  \<comment> \<open>the status of the response, and the state after the background task\<close>
  "on_batch_write E x_session_api_key items w = (202, wr_world (process_batch E x_session_api_key items w))"

section \<open>A single write\<close>

definition handler_status :: "'w webhook_env \<Rightarrow> webhook_effect \<Rightarrow> 'w \<Rightarrow> int" where
  \<comment> \<open>an exception that leaves the route is an internal error\<close>
  "handler_status E e w = (if we_raises E e w then 500 else 200)"

definition on_write :: "'w webhook_env \<Rightarrow> string option \<Rightarrow> string \<Rightarrow> string \<Rightarrow> 'w \<Rightarrow> int \<times> 'w" where
  "on_write E x_session_api_key path body w = (case parse_conversation_path path of
       None \<Rightarrow> (400, w)
     | Some (cid, subpath) \<Rightarrow> (case we_user E w cid of
         None \<Rightarrow> (500, w)
       | Some user \<Rightarrow> (case we_key E w user cid of
           None \<Rightarrow> (500, w)
         | Some session_api_key \<Rightarrow>
             if session_api_key \<noteq> x_session_api_key then (403, w)
             else if subpath = ''agent_state.pkl''
             then (let e = UpdateAgentState user cid body in (handler_status E e w, we_handle E e w))
             else (case we_loads E body of
               None \<Rightarrow> (400, w)
             | Some content \<Rightarrow>
                 if subpath = ''metadata.json''
                 then (let e = UpdateMetadata cid content in (handler_status E e w, we_handle E e w))
                 else if py_startswith subpath ''events/''
                 then (let e = ProcessEvent user cid subpath content in (handler_status E e w, we_handle E e w))
                 else if py_startswith subpath ''event_cache'' then (200, w)
                 else (400, w)))))"

definition on_delete :: "string \<Rightarrow> string option \<Rightarrow> 'w \<Rightarrow> int \<times> 'w" where
  "on_delete path x_session_api_key w = (200, w)"

section \<open>Contents arrive\<close>

lemma item_bytes_write: "item_bytes (payload_item (path, ''write'', Some c)) = Inr (content_bytes c)"
proof (cases c)
  case (ByteContents b)
  then show ?thesis
    by (auto simp: payload_item_def item_bytes_def content_bytes_def base64_value_def base64_roundtrip Let_def
        dest: utf8_decode_encode split: option.split)
qed (simp add: payload_item_def item_bytes_def content_bytes_def Let_def)

text \<open>
  What is written reaches the server byte for byte: the content of an item that was made of a write is the bytes of the write, be it
  a text, bytes that are one, or bytes that are none and are sent in base 64.
\<close>

theorem written_bytes_arrive:
  "item_bytes (payload_item (path, ''write'', Some c)) = Inr (content_bytes c)"
  by (rule item_bytes_write)

section \<open>Authentication\<close>

lemma session_file_path:
  assumes "parse_conversation_path path = Some r"
  shows "path \<noteq> ''settings.json'' \<and> path \<noteq> ''secrets.json''"
proof -
  have "parse_conversation_path ''settings.json'' = None" "parse_conversation_path ''secrets.json'' = None" by code_simp+
  with assms show ?thesis by auto
qed

lemma wrong_key_single_write:
  assumes "we_user E w cid = Some user" and "we_key E w user cid = Some session_key" and "session_key \<noteq> key"
    and "parse_conversation_path path = Some (cid, sub)"
  shows "on_write E key path body w = (403, w)"
  using assms by (simp add: on_write_def)

lemma process_other_method: "bi_method item \<noteq> ''POST'' \<Longrightarrow> process_item E key item s = s"
  by (simp add: process_item_def)

text \<open>
  C36. A wrong key protects a conversation from the first operation on it only: the comparison fails after the conversation
  was noted as checked, so the second operation of a batch on the same conversation is carried out for its user without any check.
\<close>

theorem wrong_key_stops_one_operation_only:
  assumes "bi_method a = ''POST''" and "bi_method b = ''POST''"
    and "parse_conversation_path (bi_path a) = Some (cid, sub_a)" and "parse_conversation_path (bi_path b) = Some (cid, sub_b)"
    and "we_user E w cid = Some user" and "we_key E w user cid = Some session_key" and "session_key \<noteq> key"
    and "effect_of E user cid sub_b b = Some e"
  shows "wr_done (process_batch E key [a] w) = [] \<and> wr_world (process_batch E key [a] w) = w
    \<and> wr_done (process_batch E key [a, b] w) = [e] \<and> wr_world (process_batch E key [a, b] w) = we_handle E e w"
  using assms session_file_path [OF assms(3)] session_file_path [OF assms(4)]
  by (simp add: process_batch_def process_item_def dispatch_item_def Let_def)

text \<open>
  When the lookup of a session fails, the user of its conversation stays assigned: the next operation on the conversation
  before it is carried out under the wrong user.
\<close>

theorem failed_lookup_swaps_the_user:
  assumes "bi_method a = ''POST''" and "bi_method b = ''POST''" and "bi_method c = ''POST''" and "cid \<noteq> other"
    and "parse_conversation_path (bi_path a) = Some (cid, sub_a)" and "parse_conversation_path (bi_path b) = Some (other, sub_b)"
    and "parse_conversation_path (bi_path c) = Some (cid, sub_c)" and "\<And>w. we_user E w cid = Some user"
    and "\<And>w. we_user E w other = Some stranger" and "\<And>w. we_key E w user cid = Some key" and "\<And>w. we_key E w stranger other = None"
    and "effect_of E user cid sub_a a = Some e" and "effect_of E stranger cid sub_c c = Some e'"
  shows "wr_done (process_batch E key [a, b, c] w) = [e, e']"
  using assms session_file_path [OF assms(5)] session_file_path [OF assms(6)] session_file_path [OF assms(7)]
  by (simp add: process_batch_def process_item_def dispatch_item_def Let_def)

section \<open>A batch of its own session\<close>

definition file_effect :: "'w webhook_env \<Rightarrow> string \<Rightarrow> string \<Rightarrow> string \<Rightarrow> string \<Rightarrow> webhook_effect option" where
  \<comment> \<open>what the bytes of a file of a conversation are to do\<close>
  "file_effect E user cid sub b =
     (if sub = ''agent_state.pkl'' then Some (UpdateAgentState user cid b)
      else if sub = ''conversation_stats.pkl'' then Some (UpdateStats user cid b)
      else if sub = ''metadata.json'' then map_option (UpdateMetadata cid) (we_loads E b)
      else if py_startswith sub ''events/'' then map_option (ProcessEvent user cid sub) (we_loads E b)
      else None)"

lemma payload_of_write [simp]:
  "bi_method (payload_item (path, ''write'', Some c)) = ''POST''" "bi_path (payload_item (path, ''write'', Some c)) = path"
  by (simp_all add: payload_item_def Let_def split: file_contents.split option.split)

lemma effect_of_write: "effect_of E user cid sub (payload_item (path, ''write'', Some c)) = file_effect E user cid sub (content_bytes c)"
  by (simp add: effect_of_def file_effect_def item_json_def item_bytes_write)

lemma parse_session_path:
  assumes "CHR ''/'' \<notin> set cid"
  shows "parse_conversation_path (''sessions/'' @ cid @ ''/'' @ sub) = Some (cid, sub)"
proof -
  have "py_split (CHR ''/'') (''sessions'' @ CHR ''/'' # cid @ CHR ''/'' # sub) = ''sessions'' # cid # py_split (CHR ''/'') sub"
    using py_split_append [of "CHR ''/''" "''sessions''"] py_split_append [OF assms] by simp
  then show ?thesis by (simp add: parse_conversation_path_def py_join_split)
qed

text \<open>
  C35. A batch of writes to the files of one conversation, sent with the key of its session, does everything it says, in order and once,
  for the user of the conversation: each file that the server knows has its effect, with the bytes that were written.
\<close>

theorem own_batch_is_carried_out:
  assumes "\<And>w. we_user E w cid = Some user" and "\<And>w. we_key E w user cid = Some key" and "CHR ''/'' \<notin> set cid"
  shows "wr_done (process_batch E key (batch_payload (map (\<lambda>(sub, c). (''sessions/'' @ cid @ ''/'' @ sub, ''write'', Some c)) files)) w)
    = List.map_filter (\<lambda>(sub, c). file_effect E user cid sub (content_bytes c)) files"
proof -
  let ?item = "\<lambda>(sub, c). payload_item (''sessions/'' @ cid @ ''/'' @ sub, ''write'', Some c)"
  have item: "process_item E key (?item f) s
      = (let s' = s\<lparr>wr_prev := Some cid, wr_user := Some user\<rparr> in
         case file_effect E user cid (fst f) (content_bytes (snd f)) of
           None \<Rightarrow> s' | Some e \<Rightarrow> s'\<lparr>wr_world := we_handle E e (wr_world s'), wr_done := wr_done s' @ [e]\<rparr>)"
    if "wr_prev s \<noteq> Some cid \<or> wr_user s = Some user" for f and s :: "'a webhook_run"
  proof -
    obtain sub c where f: "f = (sub, c)" by fastforce
    have post: "bi_method (?item f) = ''POST''" "bi_path (?item f) = ''sessions/'' @ cid @ ''/'' @ sub"
      by (simp_all add: f payload_item_def Let_def split: file_contents.split option.split)
    have same: "s = s\<lparr>wr_prev := Some cid, wr_user := Some user\<rparr>" if "wr_prev s = Some cid" "wr_user s = Some user" using that by simp
    show ?thesis
    proof (cases "wr_prev s = Some cid")
      case True
      with that have u: "wr_user s = Some user" by simp
      show ?thesis unfolding process_item_def post using True u same [OF True u]
        by (simp add: f parse_session_path [OF assms(3), simplified] dispatch_item_def effect_of_write split: option.split)
    next
      case False
      then show ?thesis unfolding process_item_def post using assms
        by (simp add: f parse_session_path [OF assms(3), simplified] dispatch_item_def effect_of_write Let_def split: option.split)
    qed
  qed
  have "wr_done (fold (process_item E key) (map ?item files) s)
      = wr_done s @ List.map_filter (\<lambda>(sub, c). file_effect E user cid sub (content_bytes c)) files"
    if "wr_prev s \<noteq> Some cid \<or> wr_user s = Some user" for s :: "'a webhook_run"
    using that
  proof (induction files arbitrary: s)
    case (Cons f files)
    show ?case
    proof (cases "file_effect E user cid (fst f) (content_bytes (snd f))")
      case None
      with Cons.IH Cons.prems item [of s f] show ?thesis by (simp add: map_filter_simps case_prod_beta Let_def)
    next
      case (Some e)
      with Cons.IH Cons.prems item [of s f] show ?thesis by (simp add: map_filter_simps case_prod_beta Let_def)
    qed
  qed (simp add: map_filter_simps)
  moreover have "batch_payload (map (\<lambda>(sub, c). (''sessions/'' @ cid @ ''/'' @ sub, ''write'', Some c)) files) = map ?item files"
    by (auto simp: batch_payload_def)
  ultimately show ?thesis by (simp add: process_batch_def)
qed

section \<open>One write in two ways\<close>

lemma single_write_as_batch:
  \<comment> \<open>a file sent on its own or as the only operation of a batch, the statistics apart, has the same effect\<close>
  assumes "sub \<noteq> ''conversation_stats.pkl''" and "CHR ''/'' \<notin> set cid"
  shows "snd (on_write E key (''sessions/'' @ cid @ ''/'' @ sub) (content_bytes c) w)
    = snd (on_batch_write E key (batch_payload [(''sessions/'' @ cid @ ''/'' @ sub, ''write'', Some c)]) w)"
proof -
  let ?path = "''sessions/'' @ cid @ ''/'' @ sub"
  have known: "file_effect E user cid sub b = (if sub = ''agent_state.pkl'' then Some (UpdateAgentState user cid b)
      else case we_loads E b of None \<Rightarrow> None | Some content \<Rightarrow>
        if sub = ''metadata.json'' then Some (UpdateMetadata cid content)
        else if py_startswith sub ''events/'' then Some (ProcessEvent user cid sub content) else None)" for user b
    using assms(1) by (auto simp: file_effect_def split: option.split)
  have batch: "snd (on_batch_write E key (batch_payload [(?path, ''write'', Some c)]) w) = (case we_user E w cid of
      None \<Rightarrow> w | Some user \<Rightarrow> (case we_key E w user cid of
        None \<Rightarrow> w | Some k \<Rightarrow> if k \<noteq> key then w else (case file_effect E user cid sub (content_bytes c) of
          None \<Rightarrow> w | Some e \<Rightarrow> we_handle E e w)))"
    by (simp add: on_batch_write_def process_batch_def batch_payload_def process_item_def parse_session_path [OF assms(2), simplified]
        dispatch_item_def effect_of_write Let_def split: option.split)
  show ?thesis
    unfolding batch known on_write_def parse_session_path [OF assms(2)]
    by (simp add: Let_def split: option.split)
qed

lemma statistics_cannot_be_written_alone:
  \<comment> \<open>the route for one file reads the pickled statistics as JSON\<close>
  assumes "CHR ''/'' \<notin> set cid" and "we_loads E body = None" and "we_user E w cid = Some user" and "we_key E w user cid = Some key"
  shows "on_write E key (''sessions/'' @ cid @ ''/conversation_stats.pkl'') body w = (400, w)"
  using assms parse_session_path [OF assms(1), of "''conversation_stats.pkl''"] by (simp add: on_write_def)

end
