(* ===== verification/WebhookExamples.thy ===== *)
theory WebhookExamples
  imports EventWebhook
begin

text \<open>The theorems on the web hook at a small run, and at a server with two conversations.\<close>

definition demo_steps :: "bw_step list" where
  "demo_steps = [WriteStep ''sessions/s/a'' (TextContents ''1''), WriteStep ''sessions/s/a'' (TextContents ''22''), TimeoutStep,
     DeleteStep ''sessions/s/a'', TaskStep 0 [False, True], WriteStep ''sessions/s/b'' (ByteContents [CHR 0xFF]), FlushStep [True]]"

definition demo_server :: "nat webhook_env" where
  "demo_server = \<lparr>we_user = (\<lambda>_ cid. if cid = ''s'' then Some ''ann'' else if cid = ''t'' then Some ''bob'' else None),
     we_key = (\<lambda>_ _ cid. if cid = ''s'' then Some (Some ''k'') else None),
     we_loads = (\<lambda>b. if b = ''{}'' then Some (JObj []) else None), we_handle = (\<lambda>_ n. n + 1), we_raises = (\<lambda>_ _. False)\<rparr>"

definition post_item :: "string \<Rightarrow> batch_item" where
  "post_item path = \<lparr>bi_method = ''POST'', bi_path = path, bi_content = Some ''{}'', bi_encoding = None\<rparr>"

theorem batch_stays_within_its_limit_witness:
  "batch_ok 2 (bw_runs mem_write mem_delete 2 demo_steps (new_batched_store []))"
  by (rule batch_stays_within_its_limit) simp

theorem mirror_catches_up_witness:
  "mem_read (fold (apply_update mem_write mem_delete)
      (concat (bw_received (bw_runs mem_write mem_delete 2 demo_steps (new_batched_store [])))) []) ''sessions/s/b'' = Inr (ByteContents [CHR 0xFF])"
proof -
  let ?s = "bw_runs mem_write mem_delete 2 demo_steps (new_batched_store [])"
  have run: "orderly_run mem_write mem_delete 2 demo_steps (new_batched_store [])" "bw_tasks ?s = []" "bw_batch ?s = []"
    "mem_read (bw_store ?s) ''sessions/s/b'' = Inr (ByteContents [CHR 0xFF])"
    by code_simp+
  have "flat (history_of demo_steps)" by code_simp
  from mirror_catches_up [OF refl run(1) this run(2,3), of "''sessions/s/b''"] run(4) show ?thesis by simp
qed

theorem directory_deletion_overtakes_a_write_witness:
  "\<exists>s :: file_contents mem_store batched_store. mem_read (bw_store s) ''d/f'' = Inr (TextContents ''2'')
    \<and> mem_read (fold (apply_update mem_write mem_delete) (concat (bw_received s)) []) ''d/f'' = Inl FileNotFoundError"
proof -
  define s where "s = bw_runs mem_write mem_delete 100 [WriteStep ''d/f'' (TextContents ''1''), DeleteStep ''d/'',
      WriteStep ''d/f'' (TextContents ''2''), FlushStep [True]] (new_batched_store [])"
  have small: "content_size (Some (TextContents ''1'')) < 100" "content_size (Some (TextContents ''2'')) < 100"
    "py_startswith ''d/f'' ''d/''" "(''d/f''::string) \<noteq> ''d/''"
    by code_simp+
  from directory_deletion_overtakes_a_write [OF small(3,4,1,2) s_def] show ?thesis by blast
qed

theorem own_batch_is_carried_out_witness:
  "wr_done (process_batch (demo_server\<lparr>we_key := \<lambda>_ _ _. Some (Some ''k'')\<rparr>) (Some ''k'')
      (batch_payload [(''sessions/s/events/0.json'', ''write'', Some (TextContents ''{}''))]) 0)
    = [ProcessEvent ''ann'' ''s'' ''events/0.json'' (JObj [])]"
proof -
  have "List.map_filter (\<lambda>(sub, c). file_effect (demo_server\<lparr>we_key := \<lambda>_ _ _. Some (Some ''k'')\<rparr>) ''ann'' ''s'' sub (content_bytes c))
      [(''events/0.json'', TextContents ''{}'')] = [ProcessEvent ''ann'' ''s'' ''events/0.json'' (JObj [])]"
    by code_simp
  then show ?thesis
    using own_batch_is_carried_out [of "demo_server\<lparr>we_key := \<lambda>_ _ _. Some (Some ''k'')\<rparr>" "''s''" "''ann''" "Some ''k''"
        "[(''events/0.json'', TextContents ''{}'')]" 0]
    by (simp add: demo_server_def)
qed

theorem wrong_key_stops_one_operation_only_witness:
  "wr_done (process_batch demo_server (Some ''forged'') [post_item ''sessions/s/metadata.json'', post_item ''sessions/s/agent_state.pkl''] 0)
    = [UpdateAgentState ''ann'' ''s'' ''{}'']"
proof -
  have parts: "parse_conversation_path (bi_path (post_item ''sessions/s/metadata.json'')) = Some (''s'', ''metadata.json'')"
    "parse_conversation_path (bi_path (post_item ''sessions/s/agent_state.pkl'')) = Some (''s'', ''agent_state.pkl'')"
    "bi_method (post_item p) = ''POST''" "we_user demo_server 0 ''s'' = Some ''ann''" "we_key demo_server 0 ''ann'' ''s'' = Some (Some ''k'')"
    "effect_of demo_server ''ann'' ''s'' ''agent_state.pkl'' (post_item ''sessions/s/agent_state.pkl'') = Some (UpdateAgentState ''ann'' ''s'' ''{}'')"
    for p by code_simp+
  show ?thesis
    using wrong_key_stops_one_operation_only [OF parts(3) parts(3) parts(1,2,4,5) _ parts(6), of "Some ''forged''"] by simp
qed

theorem failed_lookup_swaps_the_user_witness:
  "wr_done (process_batch demo_server (Some ''k'')
      [post_item ''sessions/s/agent_state.pkl'', post_item ''sessions/t/agent_state.pkl'', post_item ''sessions/s/agent_state.pkl''] 0)
    = [UpdateAgentState ''ann'' ''s'' ''{}'', UpdateAgentState ''bob'' ''s'' ''{}'']"
proof -
  have parts: "parse_conversation_path (bi_path (post_item ''sessions/s/agent_state.pkl'')) = Some (''s'', ''agent_state.pkl'')"
    "parse_conversation_path (bi_path (post_item ''sessions/t/agent_state.pkl'')) = Some (''t'', ''agent_state.pkl'')"
    "bi_method (post_item p) = ''POST''" "(''s''::string) \<noteq> ''t''"
    "effect_of demo_server ''ann'' ''s'' ''agent_state.pkl'' (post_item ''sessions/s/agent_state.pkl'') = Some (UpdateAgentState ''ann'' ''s'' ''{}'')"
    "effect_of demo_server ''bob'' ''s'' ''agent_state.pkl'' (post_item ''sessions/s/agent_state.pkl'') = Some (UpdateAgentState ''bob'' ''s'' ''{}'')"
    for p by code_simp+
  show ?thesis
    using failed_lookup_swaps_the_user [OF parts(3) parts(3) parts(3) parts(4) parts(1,2,1), of demo_server "''ann''" "''bob''" "Some ''k''"] parts(5,6)
    by (simp add: demo_server_def)
qed

end
