(* ===== verification/ConversationManager.thy ===== *)
theory ConversationManager
  imports State
begin

text \<open>
  The manager of conversations on one server (\<open>server/conversation_manager/standalone_conversation_manager.py\<close>): which agent loops
  run, which connections of clients belong to them, and how many requests use a conversation at the moment
  (\<open>server/session/conversation.py\<close>).

  Sessions, event streams and runtimes are objects with an identity, a number that the manager's record draws from \<open>objects\<close>;
  the streams and runtimes that were closed are logged. An operation is one step: the manager holds its lock, or does not wait,
  where it reads and writes its dictionaries. The start of a loop waits when it has to close others: it is given as a whole, for a manager
  that does nothing else meanwhile, and in the parts between which others run.
\<close>

section \<open>Waiting for all\<close>

definition is_error :: "'a res \<Rightarrow> bool" where "is_error r = (\<not> is_ok r)"

definition wait_all :: "'a res list \<Rightarrow> 'a list res" where
  \<comment> \<open>of the results of the tasks, when no timeout runs out\<close>
  "wait_all rs = (case filter is_error rs of
       [] \<Rightarrow> Inr (List.map_filter (case_sum (\<lambda>_. None) Some) rs)
     | [e] \<Rightarrow> (case e of Inl err \<Rightarrow> Inl err | Inr _ \<Rightarrow> Inr [])
     | _ \<Rightarrow> Inl (OtherError ''AsyncException'' ''''))"

section \<open>Objects\<close>

record session =
  ws_sid :: string
  ws_user :: "string option"
  ws_stream :: nat
  ws_runtime :: "nat option"
  ws_runtime_initialized :: bool
  ws_controller :: "agent_state option"
  ws_started_at :: rat
  ws_last_active_ts :: int

definition WAIT_TIME_BEFORE_CLOSE :: rat where "WAIT_TIME_BEFORE_CLOSE = 90"

definition agent_session_state :: "rat \<Rightarrow> session \<Rightarrow> agent_state option" where
  \<comment> \<open>\<open>AgentSession.get_state\<close> at a time\<close>
  "agent_session_state now s = (case ws_controller s of
       Some st \<Rightarrow> Some st
     | None \<Rightarrow> if ws_started_at s + WAIT_TIME_BEFORE_CLOSE < now then Some ERROR else None)"

record server_conversation =
  sc_id :: nat
  sc_sid :: string
  sc_user :: "string option"
  sc_stream :: nat
  sc_runtime :: nat
  sc_attach_to_existing :: bool

datatype conversation_status = STATUS_STARTING | STATUS_RUNNING

record agent_loop_info =
  ai_conversation_id :: string
  ai_url :: string
  ai_event_store :: nat
  ai_status :: conversation_status
  ai_runtime :: "nat option"

record conversation_manager =
  local_agent_loops :: "(string \<times> session) list"
  local_connections :: "(string \<times> string) list"
  active_conversations :: "(string \<times> server_conversation \<times> int) list"
  detached_conversations :: "(string \<times> server_conversation \<times> rat) list"
  objects :: nat
  closed_streams :: "nat list"
  closed_runtimes :: "nat list"
  closing_notices :: "string list"

definition new_manager :: conversation_manager where
  "new_manager = \<lparr>local_agent_loops = [], local_connections = [], active_conversations = [], detached_conversations = [],
     objects = 0, closed_streams = [], closed_runtimes = [], closing_notices = []\<rparr>"

section \<open>Conversations in use\<close>

definition new_server_conversation :: "string \<Rightarrow> string option \<Rightarrow> session option \<Rightarrow> conversation_manager \<Rightarrow> server_conversation \<times> conversation_manager" where
  \<comment> \<open>the constructor; a stream and a runtime of its own where the session gives none\<close>
  "new_server_conversation sid user session m =
     (let n = objects m;
          stream = (case session of None \<Rightarrow> n + 1 | Some s \<Rightarrow> ws_stream s);
          runtime = (case session of None \<Rightarrow> None | Some s \<Rightarrow> ws_runtime s)
      in (\<lparr>sc_id = n, sc_sid = sid, sc_user = user, sc_stream = stream,
           sc_runtime = (case runtime of None \<Rightarrow> n + 2 | Some r \<Rightarrow> r), sc_attach_to_existing = (runtime \<noteq> None)\<rparr>,
          m\<lparr>objects := n + 3\<rparr>))"

definition connect_conversation :: "unit res \<Rightarrow> server_conversation \<Rightarrow> unit res" where
  \<comment> \<open>\<open>connects\<close> is what the connection of a runtime of its own returns\<close>
  "connect_conversation connects c = (if sc_attach_to_existing c then Inr () else connects)"

definition disconnect_conversation :: "server_conversation \<Rightarrow> conversation_manager \<Rightarrow> conversation_manager" where
  "disconnect_conversation c m = (if sc_attach_to_existing c then m
     else m\<lparr>closed_streams := closed_streams m @ [sc_stream c], closed_runtimes := closed_runtimes m @ [sc_runtime c]\<rparr>)"

definition runtime_unavailable :: "py_error \<Rightarrow> bool" where
  \<comment> \<open>\<open>AgentRuntimeUnavailableError\<close> and its subclasses\<close>
  "runtime_unavailable e = (case e of OtherError name _ \<Rightarrow> name \<in> {''AgentRuntimeUnavailableError'',
     ''AgentRuntimeNotReadyError'', ''AgentRuntimeDisconnectedError'', ''AgentRuntimeNotFoundError''} | _ \<Rightarrow> False)"

definition attach_to_conversation ::
  "bool \<Rightarrow> unit res \<Rightarrow> string \<Rightarrow> string option \<Rightarrow> conversation_manager \<Rightarrow> server_conversation option res \<times> conversation_manager" where
  \<comment> \<open>\<open>found\<close> says whether the session exists in the store\<close>
  "attach_to_conversation found connects sid user m =
     (if \<not> found then (Inr None, m)
      else case d_get (active_conversations m) sid of
        Some (conversation, count) \<Rightarrow>
          (Inr (Some conversation), m\<lparr>active_conversations := d_set sid (conversation, count + 1) (active_conversations m)\<rparr>)
      | None \<Rightarrow> (case d_get (detached_conversations m) sid of
          Some (conversation, _) \<Rightarrow>
            (Inr (Some conversation), m\<lparr>detached_conversations := d_del sid (detached_conversations m),
               active_conversations := d_set sid (conversation, 1) (active_conversations m)\<rparr>)
        | None \<Rightarrow> (case new_server_conversation sid user (d_get (local_agent_loops m) sid) m of (c, m) \<Rightarrow>
            (case connect_conversation connects c of
               Inr _ \<Rightarrow> (Inr (Some c), m\<lparr>active_conversations := d_set sid (c, 1) (active_conversations m)\<rparr>)
             | Inl e \<Rightarrow> if runtime_unavailable e then (Inr None, disconnect_conversation c m) else (Inl e, m)))))"

definition detach_from_conversation :: "rat \<Rightarrow> server_conversation \<Rightarrow> conversation_manager \<Rightarrow> conversation_manager" where
  "detach_from_conversation now conversation m =
     (let sid = sc_sid conversation in case d_get (active_conversations m) sid of
        None \<Rightarrow> m
      | Some (conv, count) \<Rightarrow>
          if count > 1 then m\<lparr>active_conversations := d_set sid (conv, count - 1) (active_conversations m)\<rparr>
          else m\<lparr>active_conversations := d_del sid (active_conversations m),
                 detached_conversations := d_set sid (conversation, now) (detached_conversations m)\<rparr>)"

section \<open>Queries\<close>

definition truthy_user :: "string option \<Rightarrow> bool" where
  "truthy_user user = (user \<noteq> None \<and> user \<noteq> Some '''')"

definition get_running_agent_loops :: "string option \<Rightarrow> string list option \<Rightarrow> conversation_manager \<Rightarrow> string list" where
  \<comment> \<open>a set, here without repetitions and in the order of the dictionary\<close>
  "get_running_agent_loops user filter_to_sids m =
     map fst (filter (\<lambda>(sid, s). (case filter_to_sids of None \<Rightarrow> True | Some sids \<Rightarrow> sid \<in> set sids)
       \<and> (truthy_user user \<longrightarrow> ws_user s = user)) (local_agent_loops m))"

definition get_connections :: "string option \<Rightarrow> string list option \<Rightarrow> conversation_manager \<Rightarrow> (string \<times> string) list" where
  "get_connections user filter_to_sids m =
     filter (\<lambda>(_, sid). (case filter_to_sids of None \<Rightarrow> True | Some sids \<Rightarrow> sid \<in> set sids)
       \<and> (truthy_user user \<longrightarrow> (case d_get (local_agent_loops m) sid of None \<Rightarrow> False | Some s \<Rightarrow> ws_user s = user))) (local_connections m)"

definition get_status_from_session :: "session \<Rightarrow> conversation_status" where
  "get_status_from_session s = (if ws_runtime s \<noteq> None \<and> ws_runtime_initialized s then STATUS_RUNNING else STATUS_STARTING)"

definition get_conversation_url :: "string \<Rightarrow> string" where
  "get_conversation_url conversation_id = ''/api/conversations/'' @ conversation_id"

definition agent_loop_info_from_session :: "session \<Rightarrow> agent_loop_info" where
  "agent_loop_info_from_session s = \<lparr>ai_conversation_id = ws_sid s, ai_url = get_conversation_url (ws_sid s), ai_event_store = ws_stream s,
     ai_status = get_status_from_session s, ai_runtime = ws_runtime s\<rparr>"

definition get_agent_loop_info :: "string option \<Rightarrow> string list option \<Rightarrow> conversation_manager \<Rightarrow> agent_loop_info list" where
  \<comment> \<open>an empty filter does not filter\<close>
  "get_agent_loop_info user filter_to_sids m =
     map agent_loop_info_from_session (filter (\<lambda>s. \<not> (truthy_user user \<and> ws_user s \<noteq> user)
       \<and> (case filter_to_sids of None \<Rightarrow> True | Some sids \<Rightarrow> sids = [] \<or> ws_sid s \<in> set sids)) (map snd (local_agent_loops m)))"

definition get_agent_session :: "string \<Rightarrow> conversation_manager \<Rightarrow> session option" where
  "get_agent_session sid m = d_get (local_agent_loops m) sid"

section \<open>Closing sessions\<close>

definition session_close :: "session \<Rightarrow> conversation_manager \<Rightarrow> conversation_manager" where
  \<comment> \<open>\<open>Session.close\<close> when the start of the agent has finished: the stream and the runtime are closed\<close>
  "session_close s m = m\<lparr>closed_streams := closed_streams m @ [ws_stream s],
     closed_runtimes := closed_runtimes m @ (case ws_runtime s of None \<Rightarrow> [] | Some r \<Rightarrow> [r])\<rparr>"

definition do_close_session :: "string \<Rightarrow> conversation_manager \<Rightarrow> conversation_manager" where
  \<comment> \<open>\<open>_close_session\<close>\<close>
  "do_close_session sid m =
     (let m' = m\<lparr>local_connections := filter (\<lambda>(_, conn_sid). conn_sid \<noteq> sid) (local_connections m),
                 local_agent_loops := d_del sid (local_agent_loops m)\<rparr>
      in case d_get (local_agent_loops m) sid of None \<Rightarrow> m' | Some s \<Rightarrow> session_close s m')"

definition close_session :: "string \<Rightarrow> conversation_manager \<Rightarrow> conversation_manager" where
  "close_session sid m = (if d_has (local_agent_loops m) sid then do_close_session sid m else m)"

section \<open>Clean-up\<close>

definition cleanup_detached :: "conversation_manager \<Rightarrow> conversation_manager" where
  "cleanup_detached m =
     fold (\<lambda>(sid, conversation, _) m. (disconnect_conversation conversation m)\<lparr>detached_conversations := d_del sid (detached_conversations m)\<rparr>)
       (detached_conversations m) m"

definition is_idle :: "int \<Rightarrow> rat \<Rightarrow> session \<Rightarrow> bool" where
  "is_idle close_delay now s = (of_int (ws_last_active_ts s) < now - of_int close_delay
     \<and> agent_session_state now s \<noteq> Some RUNNING \<and> agent_session_state now s \<noteq> None)"

definition sids_to_close :: "int \<Rightarrow> rat \<Rightarrow> conversation_manager \<Rightarrow> string list" where
  "sids_to_close close_delay now m =
     (let idle = map fst (filter (\<lambda>(_, s). is_idle close_delay now s) (sort_key (\<lambda>(_, s). ws_last_active_ts s) (local_agent_loops m)));
          connected_sids = map snd (get_connections None (Some idle) m)
      in filter (\<lambda>sid. sid \<notin> set connected_sids) idle)"

definition cleanup_turn :: "int option \<Rightarrow> rat \<Rightarrow> conversation_manager \<Rightarrow> bool \<times> conversation_manager" where
  \<comment> \<open>one turn of \<open>_cleanup_stale\<close>, and whether there is a next one\<close>
  "cleanup_turn close_delay now m =
     (let m = cleanup_detached m in case close_delay of
        None \<Rightarrow> (False, m)
      | Some delay \<Rightarrow> if delay = 0 then (False, m) else (True, fold do_close_session (sids_to_close delay now m) m))"

definition cleanup_cancelled :: "conversation_manager \<Rightarrow> conversation_manager" where
  "cleanup_cancelled m =
     (let m = (fold (\<lambda>(_, conversation, _). disconnect_conversation conversation) (detached_conversations m) m)\<lparr>detached_conversations := []\<rparr>
      in fold do_close_session (d_keys (local_agent_loops m)) m)"

section \<open>Starting agent loops\<close>

record conversation_metadata =
  md_conversation_id :: string
  md_selected_repository :: "string option"
  md_user_id :: "string option"
  md_selected_branch :: "string option"
  md_git_provider :: "string option"
  md_title :: "string option"
  md_last_updated_at :: "rat option"
  md_trigger :: "string option"
  md_pr_number :: "int list"
  md_created_at :: rat
  md_llm_model :: "string option"
  md_accumulated_cost :: rat
  md_prompt_tokens :: int
  md_completion_tokens :: int
  md_total_tokens :: int
  md_sandbox_id :: "string option"
  md_conversation_version :: "string option"

definition last_updated_at_key :: "conversation_metadata \<Rightarrow> rat" where
  "last_updated_at_key c = (case md_last_updated_at c of None \<Rightarrow> 0 | Some t \<Rightarrow> t)"

definition get_all_metadata :: "(string \<Rightarrow> conversation_metadata res) \<Rightarrow> string list \<Rightarrow> conversation_metadata list res" where
  "get_all_metadata get_metadata ids = wait_all (map get_metadata ids)"

fun close_oldest :: "int \<Rightarrow> conversation_metadata list \<Rightarrow> conversation_manager \<Rightarrow> unit res \<times> conversation_manager" where
  \<comment> \<open>the loop, with the oldest conversation at the head: \<open>pop\<close> takes the last of the list in the code\<close>
  "close_oldest limit [] m = (if 0 \<ge> limit then Inl IndexError else Inr (), m)"
| "close_oldest limit (c # cs) m =
     (if int (length (c # cs)) \<ge> limit
      then close_oldest limit cs (close_session (md_conversation_id c) (m\<lparr>closing_notices := closing_notices m @ [md_conversation_id c]\<rparr>))
      else (Inr (), m))"

definition newest_first :: "conversation_metadata list \<Rightarrow> conversation_metadata list" where
  "newest_first cs = sort_key (\<lambda>c. - last_updated_at_key c) cs"

definition make_room ::
  "(string \<Rightarrow> conversation_metadata res) \<Rightarrow> (string list \<Rightarrow> string list) \<Rightarrow> int \<Rightarrow> string option \<Rightarrow> conversation_manager \<Rightarrow> unit res \<times> conversation_manager" where
  \<comment> \<open>\<open>set_order\<close> is the order in which a set of identifiers is passed through\<close>
  "make_room get_metadata set_order limit user m =
     (let response_ids = get_running_agent_loops user None m
      in if int (length response_ids) \<ge> limit
         then (case get_all_metadata get_metadata (set_order response_ids) of
             Inl e \<Rightarrow> (Inl e, m)
           | Inr conversations \<Rightarrow> close_oldest limit (rev (newest_first conversations)) m)
         else (Inr (), m))"

definition register_session :: "rat \<Rightarrow> string \<Rightarrow> string option \<Rightarrow> conversation_manager \<Rightarrow> session \<times> conversation_manager" where
  \<comment> \<open>the new session, in place of any other under its identifier; its agent is initialised in the background\<close>
  "register_session now sid user m =
     (let s = \<lparr>ws_sid = sid, ws_user = user, ws_stream = objects m, ws_runtime = None, ws_runtime_initialized = False,
               ws_controller = None, ws_started_at = 0, ws_last_active_ts = \<lfloor>now\<rfloor>\<rparr>
      in (s, m\<lparr>local_agent_loops := d_set sid s (local_agent_loops m), objects := objects m + 1\<rparr>))"

definition start_agent_loop ::
  "(string \<Rightarrow> conversation_metadata res) \<Rightarrow> (string list \<Rightarrow> string list) \<Rightarrow> int \<Rightarrow> rat \<Rightarrow> string \<Rightarrow> string option
     \<Rightarrow> conversation_manager \<Rightarrow> session res \<times> conversation_manager" where
  "start_agent_loop get_metadata set_order limit now sid user m = (case make_room get_metadata set_order limit user m of
       (Inl e, m) \<Rightarrow> (Inl e, m)
     | (Inr _, m) \<Rightarrow> (case register_session now sid user m of (s, m) \<Rightarrow> (Inr s, m)))"

definition maybe_start_agent_loop ::
  "(string \<Rightarrow> conversation_metadata res) \<Rightarrow> (string list \<Rightarrow> string list) \<Rightarrow> int \<Rightarrow> rat \<Rightarrow> string \<Rightarrow> string option
     \<Rightarrow> conversation_manager \<Rightarrow> agent_loop_info res \<times> conversation_manager" where
  "maybe_start_agent_loop get_metadata set_order limit now sid user m = (case d_get (local_agent_loops m) sid of
       Some s \<Rightarrow> (Inr (agent_loop_info_from_session s), m)
     | None \<Rightarrow> (case start_agent_loop get_metadata set_order limit now sid user m of
         (Inl e, m) \<Rightarrow> (Inl e, m)
       | (Inr s, m) \<Rightarrow> (Inr (agent_loop_info_from_session s), m)))"

section \<open>Connections\<close>

definition join_conversation ::
  "(string \<Rightarrow> conversation_metadata res) \<Rightarrow> (string list \<Rightarrow> string list) \<Rightarrow> int \<Rightarrow> rat \<Rightarrow> string \<Rightarrow> string \<Rightarrow> string option
     \<Rightarrow> conversation_manager \<Rightarrow> agent_loop_info res \<times> conversation_manager" where
  "join_conversation get_metadata set_order limit now sid connection_id user m =
     maybe_start_agent_loop get_metadata set_order limit now sid user
       (m\<lparr>local_connections := d_set connection_id sid (local_connections m)\<rparr>)"

definition send_event_to_conversation :: "string \<Rightarrow> conversation_manager \<Rightarrow> session res" where
  \<comment> \<open>the session that dispatches the data\<close>
  "send_event_to_conversation sid m = (case d_get (local_agent_loops m) sid of
       None \<Rightarrow> Inl (RuntimeError (''no_conversation:'' @ sid)) | Some s \<Rightarrow> Inr s)"

definition send_to_event_stream :: "string \<Rightarrow> conversation_manager \<Rightarrow> session res" where
  "send_to_event_stream connection_id m = (case d_get (local_connections m) connection_id of
       None \<Rightarrow> Inl (RuntimeError (''no_connected_session:'' @ connection_id))
     | Some sid \<Rightarrow> if sid = '''' then Inl (RuntimeError (''no_connected_session:'' @ connection_id)) else send_event_to_conversation sid m)"

definition request_llm_completion :: "(session \<Rightarrow> string res) \<Rightarrow> string \<Rightarrow> conversation_manager \<Rightarrow> string res" where
  "request_llm_completion completion sid m = (case d_get (local_agent_loops m) sid of
       None \<Rightarrow> Inl (RuntimeError (''no_conversation:'' @ sid)) | Some s \<Rightarrow> completion s)"

definition disconnect_from_session :: "string \<Rightarrow> conversation_manager \<Rightarrow> conversation_manager" where
  "disconnect_from_session connection_id m = m\<lparr>local_connections := d_del connection_id (local_connections m)\<rparr>"

section \<open>A start in its parts\<close>

text \<open>
  \<open>_start_agent_loop\<close> reads which loops there are, waits for their records, waits for each that it closes, and registers the new session in
  the end. When there is room it does not wait.
\<close>

record pending_start =
  ps_sid :: string
  ps_user :: "string option"
  ps_room :: "conversation_metadata list"

definition begin_start ::
  "(string \<Rightarrow> conversation_metadata res) \<Rightarrow> (string list \<Rightarrow> string list) \<Rightarrow> int \<Rightarrow> string \<Rightarrow> string option
     \<Rightarrow> conversation_manager \<Rightarrow> pending_start option res" where
  \<comment> \<open>what is still to be done, with the oldest conversation at the head; \<open>None\<close>: there is room\<close>
  "begin_start get_metadata set_order limit sid user m =
     (let response_ids = get_running_agent_loops user None m
      in if int (length response_ids) \<ge> limit
         then (case get_all_metadata get_metadata (set_order response_ids) of
             Inl e \<Rightarrow> Inl e
           | Inr conversations \<Rightarrow> Inr (Some \<lparr>ps_sid = sid, ps_user = user, ps_room = rev (newest_first conversations)\<rparr>))
         else Inr None)"

definition go_on :: "int \<Rightarrow> rat \<Rightarrow> pending_start \<Rightarrow> conversation_manager \<Rightarrow> pending_start option res \<times> conversation_manager" where
  \<comment> \<open>a turn of the loop, or what follows it\<close>
  "go_on limit now p m =
     (if int (length (ps_room p)) \<ge> limit
      then (case ps_room p of
          [] \<Rightarrow> (Inl IndexError, m)
        | c # cs \<Rightarrow> (Inr (Some (p\<lparr>ps_room := cs\<rparr>)),
            close_session (md_conversation_id c) (m\<lparr>closing_notices := closing_notices m @ [md_conversation_id c]\<rparr>)))
      else (Inr None, snd (register_session now (ps_sid p) (ps_user p) m)))"

definition begin_join ::
  "(string \<Rightarrow> conversation_metadata res) \<Rightarrow> (string list \<Rightarrow> string list) \<Rightarrow> int \<Rightarrow> rat \<Rightarrow> string \<Rightarrow> string \<Rightarrow> string option
     \<Rightarrow> conversation_manager \<Rightarrow> pending_start option res \<times> conversation_manager" where
  \<comment> \<open>\<open>join_conversation\<close> until it waits\<close>
  "begin_join get_metadata set_order limit now sid connection_id user m =
     (let m = m\<lparr>local_connections := d_set connection_id sid (local_connections m)\<rparr>
      in case d_get (local_agent_loops m) sid of
        Some s \<Rightarrow> (Inr None, m)
      | None \<Rightarrow> (case begin_start get_metadata set_order limit sid user m of
          Inl e \<Rightarrow> (Inl e, m)
        | Inr None \<Rightarrow> (Inr None, snd (register_session now sid user m))
        | Inr (Some p) \<Rightarrow> (Inr (Some p), m)))"

section \<open>The record of a conversation\<close>

definition get_default_conversation_title :: "string \<Rightarrow> string" where
  "get_default_conversation_title conversation_id = ''Conversation '' @ take 5 conversation_id"

definition git_commands :: "string list" where
  "git_commands = [''git checkout'', ''git switch'', ''git merge'', ''git rebase'', ''git reset'', ''git branch'']"

definition is_git_related_event :: "event option \<Rightarrow> bool" where
  "is_git_related_event event = (case event of
       None \<Rightarrow> False
     | Some e \<Rightarrow> (case ev_body e of
         Obs (CmdOutputObservation r) \<Rightarrow> cm_exit_code (co_metadata r) = 0 \<and> list_ex (py_contains (py_lower (co_command r))) git_commands
       | _ \<Rightarrow> False))"

definition should_update_branch :: "string option \<Rightarrow> string option \<Rightarrow> bool" where
  "should_update_branch current_branch new_branch = (new_branch \<noteq> None \<and> new_branch \<noteq> current_branch)"

definition workspace_repo :: "string option \<Rightarrow> string option" where
  \<comment> \<open>the directory of the repository in the workspace\<close>
  "workspace_repo selected_repository = (case selected_repository of
       None \<Rightarrow> None | Some r \<Rightarrow> if r = '''' then None else Some (last (py_split (CHR ''/'') r)))"

definition update_conversation_branch ::
  "(nat \<Rightarrow> string option \<Rightarrow> string option res) \<Rightarrow> conversation_manager \<Rightarrow> conversation_metadata \<Rightarrow> conversation_metadata" where
  \<comment> \<open>\<open>get_workspace_branch\<close> is the runtime's; an exception is logged\<close>
  "update_conversation_branch get_workspace_branch m c = (case d_get (local_agent_loops m) (md_conversation_id c) of
       None \<Rightarrow> c
     | Some s \<Rightarrow> (case ws_runtime s of
         None \<Rightarrow> c
       | Some runtime \<Rightarrow> (case get_workspace_branch runtime (workspace_repo (md_selected_repository c)) of
           Inl _ \<Rightarrow> c
         | Inr current_branch \<Rightarrow>
             if should_update_branch (md_selected_branch c) current_branch then c\<lparr>md_selected_branch := current_branch\<rparr> else c)))"

definition update_metrics :: "event option \<Rightarrow> conversation_metadata \<Rightarrow> conversation_metadata" where
  "update_metrics event c = (case Option.bind event ev_llm_metrics of
       None \<Rightarrow> c
     | Some metrics \<Rightarrow>
         let usage = accumulated_token_usage metrics in
         c\<lparr>md_accumulated_cost := accumulated_cost metrics, md_prompt_tokens := tu_prompt_tokens usage,
           md_completion_tokens := tu_completion_tokens usage, md_total_tokens := tu_prompt_tokens usage + tu_completion_tokens usage\<rparr>)"

definition update_title :: "string option \<Rightarrow> string \<Rightarrow> conversation_metadata \<Rightarrow> conversation_metadata" where
  \<comment> \<open>\<open>generated\<close> is the title that was generated, if any\<close>
  "update_title generated conversation_id c =
     (let default_title = get_default_conversation_title conversation_id
      in if md_title c \<noteq> Some default_title then c
         else case generated of
             None \<Rightarrow> c\<lparr>md_title := Some default_title\<rparr>
           | Some t \<Rightarrow> c\<lparr>md_title := Some (if list_all py_isspace t then default_title else t)\<rparr>)"

definition updated_conversation ::
  "(nat \<Rightarrow> string option \<Rightarrow> string option res) \<Rightarrow> rat \<Rightarrow> string option \<Rightarrow> string \<Rightarrow> event option \<Rightarrow> conversation_manager
     \<Rightarrow> conversation_metadata \<Rightarrow> conversation_metadata" where
  \<comment> \<open>what \<open>_update_conversation_for_event\<close> saves of the record that it loaded\<close>
  "updated_conversation get_workspace_branch now generated conversation_id event m c =
     (let c = update_metrics event (c\<lparr>md_last_updated_at := Some now\<rparr>);
          c = (if is_git_related_event event then update_conversation_branch get_workspace_branch m c else c)
      in update_title generated conversation_id c)"

end
