(* ===== verification/ManagerLaws.thy ===== *)
theory ManagerLaws
  imports ConversationManager
begin

text \<open>
  What the manager of conversations keeps: a conversation is open as long as anyone uses it and is closed afterwards, and the number
  of agent loops stays within its limit. Runs are lists of steps; beside the manager they record the conversations that were given
  out and those that are held, and the starts that wait, each with the number of objects there were when it began. A start that waits
  goes on when a step says so, with any steps of others in between.
\<close>

section \<open>Runs\<close>

record manager_env =
  me_metadata :: "string \<Rightarrow> conversation_metadata res"
  me_set_order :: "string list \<Rightarrow> string list"
  me_limit :: int
  me_close_delay :: "int option"

datatype manager_step =
    AttachStep string "string option" bool "unit res"
  | DetachStep server_conversation rat
  | CleanupStep rat
  | JoinStep string string "string option" rat
  | GoOnStep nat rat
  | LeaveStep string
  | CloseStep string
  | SessionStep string bool bool "agent_state option" rat int

record served =
  sv_manager :: conversation_manager
  sv_held :: "server_conversation list"
  sv_given :: "server_conversation list"
  sv_starts :: "(nat \<times> pending_start) list"

definition session_progress :: "string \<Rightarrow> bool \<Rightarrow> bool \<Rightarrow> agent_state option \<Rightarrow> rat \<Rightarrow> int \<Rightarrow> conversation_manager \<Rightarrow> conversation_manager" where
  \<comment> \<open>what a session does on its own: it may get a runtime of its own, and report anything\<close>
  "session_progress sid runtime initialized controller started_at last_active m = (case d_get (local_agent_loops m) sid of
       None \<Rightarrow> m
     | Some s \<Rightarrow> m\<lparr>local_agent_loops := d_set sid (s\<lparr>ws_runtime := (case ws_runtime s of
           None \<Rightarrow> if runtime then Some (objects m) else None | Some r \<Rightarrow> Some r), ws_runtime_initialized := initialized,
         ws_controller := controller, ws_started_at := started_at, ws_last_active_ts := last_active\<rparr>) (local_agent_loops m),
         objects := objects m + 1\<rparr>)"

fun serve :: "manager_env \<Rightarrow> manager_step \<Rightarrow> served \<Rightarrow> served" where
  "serve E (AttachStep sid user found connects) w = (case attach_to_conversation found connects sid user (sv_manager w) of
     (Inr (Some c), m) \<Rightarrow> w\<lparr>sv_manager := m, sv_held := c # sv_held w, sv_given := c # sv_given w\<rparr>
   | (_, m) \<Rightarrow> w\<lparr>sv_manager := m\<rparr>)"
| "serve E (DetachStep c now) w = (if c \<in> set (sv_held w)
     then w\<lparr>sv_manager := detach_from_conversation now c (sv_manager w), sv_held := remove1 c (sv_held w)\<rparr> else w)"
| "serve E (CleanupStep now) w = w\<lparr>sv_manager := snd (cleanup_turn (me_close_delay E) now (sv_manager w))\<rparr>"
| "serve E (JoinStep sid connection_id user now) w =
     (case begin_join (me_metadata E) (me_set_order E) (me_limit E) now sid connection_id user (sv_manager w) of
        (Inr (Some p), m) \<Rightarrow> w\<lparr>sv_manager := m, sv_starts := sv_starts w @ [(objects m, p)]\<rparr>
      | (_, m) \<Rightarrow> w\<lparr>sv_manager := m\<rparr>)"
| "serve E (GoOnStep i now) w =
     (if i < length (sv_starts w)
      then (case sv_starts w ! i of (k, p) \<Rightarrow> (case go_on (me_limit E) now p (sv_manager w) of
          (Inr (Some p), m) \<Rightarrow> w\<lparr>sv_manager := m, sv_starts := (sv_starts w)[i := (k, p)]\<rparr>
        | (_, m) \<Rightarrow> w\<lparr>sv_manager := m, sv_starts := take i (sv_starts w) @ drop (Suc i) (sv_starts w)\<rparr>))
      else w)"
| "serve E (LeaveStep connection_id) w = w\<lparr>sv_manager := disconnect_from_session connection_id (sv_manager w)\<rparr>"
| "serve E (CloseStep sid) w = w\<lparr>sv_manager := close_session sid (sv_manager w)\<rparr>"
| "serve E (SessionStep sid runtime initialized controller started_at last_active) w =
     w\<lparr>sv_manager := session_progress sid runtime initialized controller started_at last_active (sv_manager w)\<rparr>"

definition serve_all :: "manager_env \<Rightarrow> manager_step list \<Rightarrow> served" where
  "serve_all E steps = fold (serve E) steps \<lparr>sv_manager = new_manager, sv_held = [], sv_given = [], sv_starts = []\<rparr>"

lemma serve_all_induct [consumes 1, case_names start step]:
  assumes "w = serve_all E steps"
    and "P \<lparr>sv_manager = new_manager, sv_held = [], sv_given = [], sv_starts = []\<rparr>" and "\<And>st w. P w \<Longrightarrow> P (serve E st w)"
  shows "P w"
  unfolding assms(1) serve_all_def using assms(2,3) by (induction steps rule: rev_induct) simp_all

section \<open>The loops beside the conversations\<close>

definition session_runtimes :: "conversation_manager \<Rightarrow> nat set" where
  "session_runtimes m = {r. \<exists>sid s. (sid, s) \<in> set (local_agent_loops m) \<and> ws_runtime s = Some r}"

definition only_loops :: "conversation_manager \<Rightarrow> conversation_manager \<Rightarrow> bool" where
  \<comment> \<open>a change of the loops, which closes only what belongs to sessions\<close>
  "only_loops m m' \<longleftrightarrow> active_conversations m' = active_conversations m \<and> detached_conversations m' = detached_conversations m
     \<and> objects m \<le> objects m' \<and> session_runtimes m' \<subseteq> session_runtimes m \<union> {objects m..<objects m'}
     \<and> set (closed_runtimes m) \<subseteq> set (closed_runtimes m')
     \<and> set (closed_runtimes m') \<subseteq> set (closed_runtimes m) \<union> session_runtimes m \<union> {objects m..<objects m'}"

named_theorems loops \<open>operations that change the loops only\<close>

lemma only_loops_refl [loops]: "only_loops m m"
  by (simp add: only_loops_def)

lemma only_loops_trans: "only_loops a b \<Longrightarrow> only_loops b c \<Longrightarrow> only_loops a c"
proof -
  assume ab: "only_loops a b" and bc: "only_loops b c"
  have le: "objects a \<le> objects b" "objects b \<le> objects c" using ab bc by (simp_all add: only_loops_def)
  then have ivl: "{objects a..<objects b} \<subseteq> {objects a..<objects c}" "{objects b..<objects c} \<subseteq> {objects a..<objects c}" by auto
  have "session_runtimes b \<subseteq> session_runtimes a \<union> {objects a..<objects b}" "session_runtimes c \<subseteq> session_runtimes b \<union> {objects b..<objects c}"
    "set (closed_runtimes b) \<subseteq> set (closed_runtimes a) \<union> session_runtimes a \<union> {objects a..<objects b}"
    "set (closed_runtimes c) \<subseteq> set (closed_runtimes b) \<union> session_runtimes b \<union> {objects b..<objects c}"
    using ab bc unfolding only_loops_def by blast+
  with ivl have "session_runtimes c \<subseteq> session_runtimes a \<union> {objects a..<objects c}"
    "set (closed_runtimes c) \<subseteq> set (closed_runtimes a) \<union> session_runtimes a \<union> {objects a..<objects c}" by blast+
  with ab bc le show "only_loops a c" unfolding only_loops_def by auto
qed

lemma d_del_filter: "d_del k d = filter (\<lambda>kv. fst kv \<noteq> k) d"
  by (induction k d rule: d_del.induct) auto

lemma set_d_set_insert: "set (d_set k v d) \<subseteq> insert (k, v) (set d)"
  by (induction d) (auto simp: d_set_def)

lemma session_runtimes_d_set: "session_runtimes (m\<lparr>local_agent_loops := d_set sid s (local_agent_loops m)\<rparr>)
    \<subseteq> session_runtimes m \<union> set_option (ws_runtime s)"
  using set_d_set_insert [of sid s "local_agent_loops m"] by (fastforce simp: session_runtimes_def)

lemma session_runtimes_get: "d_get (local_agent_loops m) sid = Some s \<Longrightarrow> ws_runtime s = Some r \<Longrightarrow> r \<in> session_runtimes m"
  using map_of_SomeD [of "local_agent_loops m" sid s] by (force simp: session_runtimes_def)

lemma do_close_loops [loops]: "only_loops m (do_close_session sid m)"
proof -
  have del: "session_runtimes (m\<lparr>local_connections := cs, local_agent_loops := d_del sid (local_agent_loops m)\<rparr>) \<subseteq> session_runtimes m" for cs
    by (auto simp: session_runtimes_def d_del_filter)
  show ?thesis
  proof (cases "d_get (local_agent_loops m) sid")
    case None
    with del show ?thesis by (auto simp: do_close_session_def only_loops_def)
  next
    case (Some s)
    have "session_runtimes (session_close s m') = session_runtimes m'" for m' by (simp add: session_close_def session_runtimes_def)
    with del have "session_runtimes (do_close_session sid m) \<subseteq> session_runtimes m" by (simp add: do_close_session_def Some)
    with session_runtimes_get [OF Some] show ?thesis
      by (auto simp: do_close_session_def session_close_def only_loops_def Some split: option.splits)
  qed
qed

lemma close_loops [loops]: "only_loops m (close_session sid m)"
  by (simp add: close_session_def loops)

lemma fold_close_loops [loops]: "only_loops m (fold do_close_session sids m)"
  by (induction sids arbitrary: m) (auto intro: only_loops_trans loops)

lemma leave_loops [loops]: "only_loops m (disconnect_from_session cid m)"
  by (simp add: disconnect_from_session_def only_loops_def session_runtimes_def)

lemma progress_loops [loops]: "only_loops m (session_progress sid runtime initialized controller started_at last_active m)"
proof (cases "d_get (local_agent_loops m) sid")
  case (Some s)
  show ?thesis using set_d_set_insert [of sid _ "local_agent_loops m"] session_runtimes_get [OF Some]
    by (fastforce simp: session_progress_def only_loops_def session_runtimes_def Some split: option.splits)
qed (simp add: session_progress_def loops)

lemma register_loops [loops]: "only_loops m (snd (register_session now sid user m))"
  using set_d_set_insert [of sid _ "local_agent_loops m"]
  by (fastforce simp: register_session_def only_loops_def session_runtimes_def Let_def)

lemma close_oldest_loops [loops]: "only_loops m (snd (close_oldest limit cs m))"
proof (induction limit cs m rule: close_oldest.induct)
  case (2 limit c cs m)
  have "only_loops m (m\<lparr>closing_notices := closing_notices m @ [md_conversation_id c]\<rparr>)" by (simp add: only_loops_def session_runtimes_def)
  from only_loops_trans [OF this close_loops] have "only_loops m (close_session (md_conversation_id c) (m\<lparr>closing_notices := closing_notices m @ [md_conversation_id c]\<rparr>))" .
  from only_loops_trans [OF this] 2 show ?case by (simp add: loops)
qed (simp add: loops)

lemma make_room_loops [loops]: "only_loops m (snd (make_room md set_order limit user m))"
  by (simp add: make_room_def loops Let_def split: sum.split)

lemma maybe_start_loops [loops]: "only_loops m (snd (maybe_start_agent_loop md set_order limit now sid user m))"
proof -
  obtain r m' where room: "make_room md set_order limit user m = (r, m')" by fastforce
  obtain s m'' where reg: "register_session now sid user m' = (s, m'')" by fastforce
  from make_room_loops [of m md set_order limit user] room have m': "only_loops m m'" by simp
  with register_loops [of m' now sid user] reg have "only_loops m m''" by (auto intro: only_loops_trans)
  with m' show ?thesis
    by (simp add: maybe_start_agent_loop_def start_agent_loop_def room reg loops split: option.split sum.split)
qed

lemma join_loops [loops]: "only_loops m (snd (join_conversation md set_order limit now sid connection_id user m))"
proof -
  have "only_loops m (m\<lparr>local_connections := cs\<rparr>)" for cs by (simp add: only_loops_def session_runtimes_def)
  then show ?thesis unfolding join_conversation_def by (rule only_loops_trans) (rule maybe_start_loops)
qed

lemma go_on_loops [loops]: "only_loops m (snd (go_on limit now p m))"
proof -
  have "only_loops m (m\<lparr>closing_notices := closing_notices m @ [x]\<rparr>)" for x by (simp add: only_loops_def session_runtimes_def)
  from only_loops_trans [OF this close_loops] show ?thesis by (simp add: go_on_def loops split: list.split)
qed

lemma begin_join_loops [loops]: "only_loops m (snd (begin_join md set_order limit now sid connection_id user m))"
proof -
  let ?m = "m\<lparr>local_connections := d_set connection_id sid (local_connections m)\<rparr>"
  have m: "only_loops m ?m" by (simp add: only_loops_def session_runtimes_def)
  with only_loops_trans [OF m register_loops] show ?thesis
    by (simp add: begin_join_def Let_def split: option.split sum.split)
qed

section \<open>Conversations in use are open\<close>

definition listed :: "conversation_manager \<Rightarrow> server_conversation \<Rightarrow> bool" where
  "listed m c \<longleftrightarrow> (\<exists>n. d_get (active_conversations m) (sc_sid c) = Some (c, n)) \<or> (\<exists>t. d_get (detached_conversations m) (sc_sid c) = Some (c, t))"

definition owned :: "served \<Rightarrow> server_conversation set" where
  \<comment> \<open>the conversations with a runtime of their own\<close>
  "owned w = {c \<in> set (sv_given w). \<not> sc_attach_to_existing c}"

definition tables_ok ::
  "(string \<Rightarrow> (server_conversation \<times> int) option) \<Rightarrow> (string \<Rightarrow> (server_conversation \<times> rat) option)
     \<Rightarrow> server_conversation list \<Rightarrow> server_conversation set \<Rightarrow> bool" where
  "tables_ok active detached held given \<longleftrightarrow> set held \<subseteq> given
   \<and> (\<forall>c \<in> set held. active (sc_sid c) = Some (c, int (count_list held c)))
   \<and> (\<forall>sid c n. active sid = Some (c, n) \<longrightarrow> sc_sid c = sid \<and> c \<in> set held \<and> detached sid = None)
   \<and> (\<forall>sid c t. detached sid = Some (c, t) \<longrightarrow> sc_sid c = sid \<and> c \<in> given)"

definition conversations_ok :: "served \<Rightarrow> bool" where
  "conversations_ok w \<longleftrightarrow> tables_ok (d_get (active_conversations (sv_manager w))) (d_get (detached_conversations (sv_manager w)))
     (sv_held w) (set (sv_given w))"

lemma tables_held: "tables_ok A D held given \<Longrightarrow> c \<in> set held \<Longrightarrow> A (sc_sid c) = Some (c, int (count_list held c))"
  and tables_active: "tables_ok A D held given \<Longrightarrow> A sid = Some (c, n) \<Longrightarrow> sc_sid c = sid \<and> c \<in> set held \<and> D sid = None"
  and tables_detached: "tables_ok A D held given \<Longrightarrow> D sid = Some (c, t) \<Longrightarrow> sc_sid c = sid \<and> c \<in> given"
  and tables_given: "tables_ok A D held given \<Longrightarrow> set held \<subseteq> given"
  unfolding tables_ok_def by blast+

lemma tables_unique: "tables_ok A D held given \<Longrightarrow> c \<in> set held \<Longrightarrow> d \<in> set held \<Longrightarrow> sc_sid d = sc_sid c \<Longrightarrow> d = c"
  by (metis tables_held option.inject prod.inject)

lemma tables_hold:
  assumes ok: "tables_ok A D held given" and others: "\<And>d. d \<in> set held \<Longrightarrow> sc_sid d = sc_sid c \<Longrightarrow> d = c"
  shows "tables_ok (A(sc_sid c \<mapsto> (c, int (count_list held c) + 1))) (D(sc_sid c := None)) (c # held) (insert c given)"
proof -
  let ?A = "A(sc_sid c \<mapsto> (c, int (count_list held c) + 1))" and ?D = "D(sc_sid c := None)"
  have "?A (sc_sid d) = Some (d, int (count_list (c # held) d))" if "d \<in> set (c # held)" for d
  proof (cases "d = c")
    case False
    with that have d: "d \<in> set held" by simp
    with others [of d] False have "sc_sid d \<noteq> sc_sid c" by blast
    with tables_held [OF ok d] False show ?thesis by simp
  qed simp
  moreover have "sc_sid d = sid \<and> d \<in> set (c # held) \<and> ?D sid = None" if "?A sid = Some (d, n)" for sid d n
    using that tables_active [OF ok, of sid d n] by (auto split: if_splits)
  moreover have "sc_sid d = sid \<and> d \<in> insert c given" if "?D sid = Some (d, t)" for sid d t
    using that tables_detached [OF ok, of sid d t] by (auto split: if_splits)
  moreover have "set (c # held) \<subseteq> insert c given" using tables_given [OF ok] by auto
  ultimately show ?thesis unfolding tables_ok_def by blast
qed

lemma count_list_remove1: "count_list (remove1 c xs) d = (if c = d then count_list xs d - 1 else count_list xs d)"
  by (induction xs) auto

lemma tables_release:
  assumes ok: "tables_ok A D held given" and "c \<in> set held"
  shows "count_list held c > 1 \<Longrightarrow> tables_ok (A(sc_sid c \<mapsto> (c, int (count_list held c) - 1))) D (remove1 c held) given"
    and "\<not> count_list held c > 1 \<Longrightarrow> tables_ok (A(sc_sid c := None)) (D(sc_sid c \<mapsto> (c, t))) (remove1 c held) given"
proof -
  have only: "d = c" if "d \<in> set held" "sc_sid d = sc_sid c" for d
    using tables_unique [OF ok assms(2) that] .
  have less: "set (remove1 c held) \<subseteq> set held" by (rule set_remove1_subset)
  have pos: "count_list held c > 0" using assms(2) by (metis count_list_0_iff gr0I)
  {
    assume two: "count_list held c > 1"
    then have "count_list (remove1 c held) c \<noteq> 0" using count_list_remove1 [of c held c] by simp
    then have "c \<in> set (remove1 c held)" by (metis count_list_0_iff)
    let ?A = "A(sc_sid c \<mapsto> (c, int (count_list held c) - 1))"
    have "?A (sc_sid d) = Some (d, int (count_list (remove1 c held) d))" if "d \<in> set (remove1 c held)" for d
      using that less only [of d] tables_held [OF ok, of d] two by (auto simp: count_list_remove1)
    moreover have "sc_sid d = sid \<and> d \<in> set (remove1 c held) \<and> D sid = None" if "?A sid = Some (d, n)" for sid d n
      using that tables_active [OF ok, of sid d n] tables_active [OF ok tables_held [OF ok assms(2)]] \<open>c \<in> set (remove1 c held)\<close>
      by (auto simp: in_set_remove1 split: if_splits intro: in_set_remove1 [THEN iffD2])
    moreover have "set (remove1 c held) \<subseteq> given" using less tables_given [OF ok] by blast
    ultimately show "tables_ok ?A D (remove1 c held) given" using tables_detached [OF ok] unfolding tables_ok_def by blast
  }
  assume one: "\<not> count_list held c > 1"
  then have "count_list (remove1 c held) c = 0" using count_list_remove1 [of c held c] pos by simp
  then have "c \<notin> set (remove1 c held)" by (metis count_list_0_iff)
  let ?A = "A(sc_sid c := None)" and ?D = "D(sc_sid c \<mapsto> (c, t))"
  have "?A (sc_sid d) = Some (d, int (count_list (remove1 c held) d))" if "d \<in> set (remove1 c held)" for d
  proof -
    have "d \<noteq> c" "d \<in> set held" using that less \<open>c \<notin> set (remove1 c held)\<close> by auto
    with only [of d] tables_held [OF ok, of d] show ?thesis by (auto simp: count_list_remove1)
  qed
  moreover have "sc_sid d = sid \<and> d \<in> set (remove1 c held) \<and> ?D sid = None" if "?A sid = Some (d, n)" for sid d n
    using that tables_active [OF ok, of sid d n] by (auto simp: in_set_remove1 split: if_splits intro: in_set_remove1 [THEN iffD2])
  moreover have "sc_sid d = sid \<and> d \<in> given" if "?D sid = Some (d, t')" for sid d t'
    using that tables_detached [OF ok, of sid d t'] tables_given [OF ok] assms(2) by (auto split: if_splits)
  moreover have "set (remove1 c held) \<subseteq> given" using less tables_given [OF ok] by blast
  ultimately show "tables_ok ?A ?D (remove1 c held) given" unfolding tables_ok_def by blast
qed

definition runtimes_ok :: "served \<Rightarrow> bool" where
  "runtimes_ok w \<longleftrightarrow>
     sc_runtime ` owned w \<union> session_runtimes (sv_manager w) \<union> set (closed_runtimes (sv_manager w)) \<subseteq> {..<objects (sv_manager w)}
   \<and> inj_on sc_runtime (owned w) \<and> session_runtimes (sv_manager w) \<inter> sc_runtime ` owned w = {}
   \<and> (\<forall>c \<in> owned w. sc_runtime c \<in> set (closed_runtimes (sv_manager w)) \<longleftrightarrow> \<not> listed (sv_manager w) c)"

lemma runtimes_bound: "runtimes_ok w \<Longrightarrow>
    sc_runtime ` owned w \<union> session_runtimes (sv_manager w) \<union> set (closed_runtimes (sv_manager w)) \<subseteq> {..<objects (sv_manager w)}"
  and runtimes_inj: "runtimes_ok w \<Longrightarrow> inj_on sc_runtime (owned w)"
  and runtimes_apart: "runtimes_ok w \<Longrightarrow> session_runtimes (sv_manager w) \<inter> sc_runtime ` owned w = {}"
  and runtimes_closed: "runtimes_ok w \<Longrightarrow> c \<in> owned w \<Longrightarrow> sc_runtime c \<in> set (closed_runtimes (sv_manager w)) \<longleftrightarrow> \<not> listed (sv_manager w) c"
  unfolding runtimes_ok_def by simp_all

lemma conversations_ok_loops: "conversations_ok w \<Longrightarrow> only_loops (sv_manager w) m \<Longrightarrow> conversations_ok (w\<lparr>sv_manager := m\<rparr>)"
  by (simp add: conversations_ok_def only_loops_def)

lemma runtimes_ok_loops:
  assumes "runtimes_ok w" and "only_loops (sv_manager w) m"
  shows "runtimes_ok (w\<lparr>sv_manager := m\<rparr>)"
proof -
  have "listed m c = listed (sv_manager w) c" for c using assms(2) by (simp add: listed_def only_loops_def)
  moreover have "owned (w\<lparr>sv_manager := m\<rparr>) = owned w" by (simp add: owned_def)
  moreover have "sc_runtime c \<in> set (closed_runtimes m) \<longleftrightarrow> sc_runtime c \<in> set (closed_runtimes (sv_manager w))" if "c \<in> owned w" for c
  proof -
    have "sc_runtime c \<in> {..<objects (sv_manager w)}" "sc_runtime c \<notin> session_runtimes (sv_manager w)"
      using assms(1) that by (auto simp: runtimes_ok_def)
    with assms(2) show ?thesis by (auto simp: only_loops_def)
  qed
  moreover have "sc_runtime ` owned w \<subseteq> {..<objects m}" "session_runtimes m \<subseteq> {..<objects m}" "set (closed_runtimes m) \<subseteq> {..<objects m}"
    "session_runtimes m \<inter> sc_runtime ` owned w = {}"
    using assms unfolding runtimes_ok_def only_loops_def by fastforce+
  ultimately show ?thesis using assms(1) by (simp add: runtimes_ok_def)
qed

lemma owned_simps [simp]:
  "owned (w\<lparr>sv_manager := m\<rparr>) = owned w" "owned (w\<lparr>sv_held := h\<rparr>) = owned w"
  "owned (w\<lparr>sv_given := c # sv_given w\<rparr>) = (if sc_attach_to_existing c then owned w else insert c (owned w))"
  "owned (w\<lparr>sv_manager := m, sv_held := h, sv_given := c # sv_given w\<rparr>) = (if sc_attach_to_existing c then owned w else insert c (owned w))"
  by (auto simp: owned_def)

lemma listed_update: "d_get (active_conversations m') = d_get (active_conversations m) \<Longrightarrow>
    d_get (detached_conversations m') = d_get (detached_conversations m) \<Longrightarrow> listed m' = listed m"
  by (simp add: listed_def fun_eq_iff)

subsection \<open>Attaching\<close>

lemma conversations_ok_hold:
  assumes "conversations_ok w" and "\<And>d. d \<in> set (sv_held w) \<Longrightarrow> sc_sid d = sc_sid c \<Longrightarrow> d = c"
    and "d_get (active_conversations m) = (d_get (active_conversations (sv_manager w)))(sc_sid c \<mapsto> (c, int (count_list (sv_held w) c) + 1))"
    and "d_get (detached_conversations m) = (d_get (detached_conversations (sv_manager w)))(sc_sid c := None)"
  shows "conversations_ok (w\<lparr>sv_manager := m, sv_held := c # sv_held w, sv_given := c # sv_given w\<rparr>)"
  unfolding conversations_ok_def using tables_hold [OF assms(1) [unfolded conversations_ok_def] assms(2)] by (simp add: assms(3,4) del: fun_upd_apply)

lemma runtimes_ok_same:
  assumes "runtimes_ok w" and "owned w' = owned w" and "\<And>c. c \<in> owned w \<Longrightarrow> listed (sv_manager w') c = listed (sv_manager w) c"
    and "session_runtimes (sv_manager w') = session_runtimes (sv_manager w)" and "objects (sv_manager w) \<le> objects (sv_manager w')"
    and "closed_runtimes (sv_manager w') = closed_runtimes (sv_manager w)"
  shows "runtimes_ok w'"
proof -
  have "{..<objects (sv_manager w)} \<subseteq> {..<objects (sv_manager w')}" using assms(5) by auto
  from subset_trans [OF runtimes_bound [OF assms(1)] this] show ?thesis
    using runtimes_inj [OF assms(1)] runtimes_apart [OF assms(1)] runtimes_closed [OF assms(1)] assms(3)
    unfolding runtimes_ok_def assms(2,4,6) by simp
qed

lemma runtimes_ok_more:
  assumes "runtimes_ok w" and "owned w' = insert c (owned w)" and "\<And>d. d \<in> owned w \<Longrightarrow> listed (sv_manager w') d = listed (sv_manager w) d"
    and "listed (sv_manager w') c" and "session_runtimes (sv_manager w') = session_runtimes (sv_manager w)"
    and "objects (sv_manager w) \<le> sc_runtime c" "sc_runtime c < objects (sv_manager w')"
    and "closed_runtimes (sv_manager w') = closed_runtimes (sv_manager w)"
  shows "runtimes_ok w'"
proof -
  have low: "{..<objects (sv_manager w)} \<subseteq> {..<objects (sv_manager w')}" using assms(6,7) by auto
  note bound = runtimes_bound [OF assms(1)]
  have new: "sc_runtime c \<notin> sc_runtime ` owned w \<union> session_runtimes (sv_manager w) \<union> set (closed_runtimes (sv_manager w))"
    using subsetD [OF bound, of "sc_runtime c"] assms(6) by auto
  then have "inj_on sc_runtime (insert c (owned w))" using runtimes_inj [OF assms(1)] by (simp add: inj_on_insert) blast
  moreover have "session_runtimes (sv_manager w) \<inter> sc_runtime ` insert c (owned w) = {}"
    using runtimes_apart [OF assms(1)] new by simp
  moreover have "sc_runtime d \<in> set (closed_runtimes (sv_manager w)) \<longleftrightarrow> \<not> listed (sv_manager w') d" if "d \<in> insert c (owned w)" for d
    using runtimes_closed [OF assms(1), of d] assms(3) [of d] assms(4) new that by auto
  moreover have "sc_runtime ` insert c (owned w) \<union> session_runtimes (sv_manager w) \<union> set (closed_runtimes (sv_manager w)) \<subseteq> {..<objects (sv_manager w')}"
    using subset_trans [OF bound low] assms(7) by simp
  ultimately show ?thesis unfolding runtimes_ok_def assms(2,5,8) by simp
qed

lemma serve_attach:
  assumes "conversations_ok w" and "runtimes_ok w"
  shows "conversations_ok (serve E (AttachStep sid user found connects) w) \<and> runtimes_ok (serve E (AttachStep sid user found connects) w)"
proof (cases "found")
  case True
  let ?m = "sv_manager w"
  show ?thesis
  proof (cases "d_get (active_conversations ?m) sid")
    case (Some cn)
    obtain c n where cn: "cn = (c, n)" by fastforce
    note a = Some [unfolded cn]
    note ok = assms(1) [unfolded conversations_ok_def]
    from tables_active [OF ok a] tables_given [OF ok] have c: "sc_sid c = sid" "c \<in> set (sv_held w)" "c \<in> set (sv_given w)"
      and none: "d_get (detached_conversations ?m) sid = None" by auto
    from tables_held [OF ok c(2)] a c(1) have n: "n = int (count_list (sv_held w) c)" by simp
    have only: "d = c" if "d \<in> set (sv_held w)" "sc_sid d = sc_sid c" for d using tables_unique [OF ok c(2) that] .
    let ?w = "w\<lparr>sv_manager := ?m\<lparr>active_conversations := d_set sid (c, n + 1) (active_conversations ?m)\<rparr>, sv_held := c # sv_held w, sv_given := c # sv_given w\<rparr>"
    have "runtimes_ok ?w"
      by (rule runtimes_ok_same [OF assms(2)]) (use a c in \<open>auto simp: owned_def listed_def session_runtimes_def\<close>)
    moreover have "conversations_ok ?w"
      by (rule conversations_ok_hold [OF assms(1) only]) (use n c(1) none in \<open>auto simp: fun_eq_iff\<close>)
    ultimately show ?thesis using True a by (simp add: attach_to_conversation_def)
  next
    case None
    show ?thesis
    proof (cases "d_get (detached_conversations ?m) sid")
      case (Some ct)
      obtain c t where ct: "ct = (c, t)" by fastforce
      note d = Some [unfolded ct]
      from tables_detached [OF assms(1) [unfolded conversations_ok_def] d] have c: "sc_sid c = sid" "c \<in> set (sv_given w)" by simp_all
      have free: "sc_sid h \<noteq> sid" if "h \<in> set (sv_held w)" for h
        using tables_held [OF assms(1) [unfolded conversations_ok_def] that] None by auto
      let ?w = "w\<lparr>sv_manager := ?m\<lparr>detached_conversations := d_del sid (detached_conversations ?m),
        active_conversations := d_set sid (c, 1) (active_conversations ?m)\<rparr>, sv_held := c # sv_held w, sv_given := c # sv_given w\<rparr>"
      have "runtimes_ok ?w"
        by (rule runtimes_ok_same [OF assms(2)]) (use None d c in \<open>auto simp: owned_def listed_def session_runtimes_def\<close>)
      moreover have "conversations_ok ?w"
      proof (rule conversations_ok_hold [OF assms(1)])
        let ?m' = "?m\<lparr>detached_conversations := d_del sid (detached_conversations ?m), active_conversations := d_set sid (c, 1) (active_conversations ?m)\<rparr>"
        have "count_list (sv_held w) c = 0" using free c(1) by (auto simp: count_list_0_iff)
        then show "d_get (active_conversations ?m') = (d_get (active_conversations ?m))(sc_sid c \<mapsto> (c, int (count_list (sv_held w) c) + 1))"
          using c(1) by (simp add: fun_eq_iff)
      qed (use free c(1) in \<open>auto simp: fun_eq_iff\<close>)
      ultimately show ?thesis using True None d by (simp add: attach_to_conversation_def)
    next
      case none: None
      obtain c k where new: "new_server_conversation sid user (d_get (local_agent_loops ?m) sid) ?m = (c, ?m\<lparr>objects := k\<rparr>)"
        and k: "k = objects ?m + 3" by (simp add: new_server_conversation_def Let_def)
      have c: "sc_sid c = sid" "\<not> sc_attach_to_existing c \<Longrightarrow> sc_runtime c = objects ?m + 2"
        using new by (auto simp: new_server_conversation_def Let_def split: option.splits)
      have bound: "r < objects ?m" if "r \<in> sc_runtime ` owned w \<union> session_runtimes ?m \<union> set (closed_runtimes ?m)" for r
        using subsetD [OF runtimes_bound [OF assms(2)] that] by simp
      have fresh_c: "c \<notin> owned w" using bound [of "sc_runtime c"] c(2) by (force simp: owned_def)
      show ?thesis
      proof (cases "connect_conversation connects c")
        case (Inr u)
        let ?w = "w\<lparr>sv_manager := ?m\<lparr>objects := k, active_conversations := d_set sid (c, 1) (active_conversations ?m)\<rparr>,
          sv_held := c # sv_held w, sv_given := c # sv_given w\<rparr>"
        have others: "listed (sv_manager ?w) d = listed ?m d" if "d \<in> owned w" for d
          using that fresh_c None none by (auto simp: listed_def)
        have me: "listed (sv_manager ?w) c" using c(1) by (simp add: listed_def)
        have sessions: "session_runtimes (sv_manager ?w) = session_runtimes ?m" by (simp add: session_runtimes_def)
        have "runtimes_ok ?w"
        proof (cases "sc_attach_to_existing c")
          case True
          show ?thesis by (rule runtimes_ok_same [OF assms(2)]) (use True others k sessions in simp_all)
        next
          case False
          show ?thesis by (rule runtimes_ok_more [OF assms(2), where c = c]) (use False others me sessions c(2) k in simp_all)
        qed
        moreover have free: "sc_sid h \<noteq> sid" if "h \<in> set (sv_held w)" for h
          using tables_held [OF assms(1) [unfolded conversations_ok_def] that] None by auto
        have "conversations_ok ?w"
        proof (rule conversations_ok_hold [OF assms(1)])
          let ?m' = "?m\<lparr>objects := k, active_conversations := d_set sid (c, 1) (active_conversations ?m)\<rparr>"
          have "count_list (sv_held w) c = 0" using free c(1) by (auto simp: count_list_0_iff)
          then show "d_get (active_conversations ?m') = (d_get (active_conversations ?m))(sc_sid c \<mapsto> (c, int (count_list (sv_held w) c) + 1))"
            using c(1) by (simp add: fun_eq_iff)
        qed (use free none c(1) in \<open>auto simp: fun_eq_iff\<close>)
        moreover have "serve E (AttachStep sid user found connects) w = ?w" using True None none new Inr
          by (simp add: attach_to_conversation_def)
        ultimately show ?thesis by simp
      next
        case (Inl e)
        then have not_ex: "\<not> sc_attach_to_existing c" by (auto simp: connect_conversation_def split: if_splits)
        let ?closed = "w\<lparr>sv_manager := disconnect_conversation c (?m\<lparr>objects := k\<rparr>)\<rparr>" and ?left = "w\<lparr>sv_manager := ?m\<lparr>objects := k\<rparr>\<rparr>"
        have "only_loops ?m (?m\<lparr>objects := k\<rparr>)" "only_loops ?m (disconnect_conversation c (?m\<lparr>objects := k\<rparr>))"
          using not_ex c(2) k by (auto simp: only_loops_def disconnect_conversation_def session_runtimes_def)
        then have "conversations_ok ?closed" "conversations_ok ?left" "runtimes_ok ?closed" "runtimes_ok ?left"
          using conversations_ok_loops [OF assms(1)] runtimes_ok_loops [OF assms(2)] by blast+
        then show ?thesis using True None none new Inl by (simp add: attach_to_conversation_def)
      qed
    qed
  qed
qed (use assms in \<open>simp add: attach_to_conversation_def\<close>)

subsection \<open>Detaching and cleaning up\<close>

lemma serve_detach:
  assumes "conversations_ok w" and "runtimes_ok w"
  shows "conversations_ok (serve E (DetachStep c now) w) \<and> runtimes_ok (serve E (DetachStep c now) w)"
proof (cases "c \<in> set (sv_held w)")
  case True
  let ?m = "sv_manager w"
  note ok = assms(1) [unfolded conversations_ok_def]
  note a = tables_held [OF ok True]
  from tables_given [OF ok] True have given: "c \<in> set (sv_given w)" by blast
  from tables_active [OF ok a] have free: "d_get (detached_conversations ?m) (sc_sid c) = None" by simp
  have only: "d_get (active_conversations ?m) (sc_sid d) = d_get (active_conversations ?m) (sc_sid c)" if "sc_sid d = sc_sid c" for d
    using that by simp
  show ?thesis
  proof (cases "count_list (sv_held w) c > 1")
    case many: True
    let ?w = "w\<lparr>sv_manager := ?m\<lparr>active_conversations := d_set (sc_sid c) (c, int (count_list (sv_held w) c) - 1) (active_conversations ?m)\<rparr>,
      sv_held := remove1 c (sv_held w)\<rparr>"
    have "conversations_ok ?w"
      unfolding conversations_ok_def using tables_release(1) [OF ok True many] by (simp del: fun_upd_apply)
    moreover have "runtimes_ok ?w"
      by (rule runtimes_ok_same [OF assms(2)]) (use a in \<open>auto simp: listed_def session_runtimes_def owned_def\<close>)
    ultimately show ?thesis using True a many by (simp add: detach_from_conversation_def)
  next
    case last_one: False
    let ?w = "w\<lparr>sv_manager := ?m\<lparr>active_conversations := d_del (sc_sid c) (active_conversations ?m),
      detached_conversations := d_set (sc_sid c) (c, now) (detached_conversations ?m)\<rparr>, sv_held := remove1 c (sv_held w)\<rparr>"
    have gone: "d_get (d_del (sc_sid c) (active_conversations ?m)) = (d_get (active_conversations ?m))(sc_sid c := None)" by (rule ext) simp
    have "conversations_ok ?w"
      unfolding conversations_ok_def using tables_release(2) [OF ok True last_one, of now] by (simp add: gone del: fun_upd_apply map_of_d_del)
    moreover have "runtimes_ok ?w"
      by (rule runtimes_ok_same [OF assms(2)]) (use a free in \<open>auto simp: listed_def session_runtimes_def owned_def\<close>)
    ultimately show ?thesis using True a last_one by (simp add: detach_from_conversation_def Let_def)
  qed
qed (use assms in simp)

definition own_runtimes :: "(string \<times> server_conversation \<times> rat) list \<Rightarrow> nat list" where
  "own_runtimes ds = map (\<lambda>(_, c, _). sc_runtime c) (filter (\<lambda>(_, c, _). \<not> sc_attach_to_existing c) ds)"

lemma cleanup_detached_fold:
  "let m' = fold (\<lambda>(sid, conversation, _) m. (disconnect_conversation conversation m)\<lparr>detached_conversations := d_del sid (detached_conversations m)\<rparr>) ds m
   in active_conversations m' = active_conversations m \<and> local_agent_loops m' = local_agent_loops m \<and> objects m' = objects m
    \<and> local_connections m' = local_connections m
    \<and> closed_runtimes m' = closed_runtimes m @ own_runtimes ds
    \<and> detached_conversations m' = filter (\<lambda>d. fst d \<notin> fst ` set ds) (detached_conversations m)"
proof (induction ds arbitrary: m)
  case (Cons d ds)
  obtain sid c t where d: "d = (sid, c, t)" by (cases d)
  show ?case
    using Cons.IH [of "(disconnect_conversation c m)\<lparr>detached_conversations := d_del sid (detached_conversations m)\<rparr>"]
    by (simp add: d Let_def disconnect_conversation_def own_runtimes_def d_del_filter conj_commute)
qed (simp add: own_runtimes_def)

lemma cleanup_detached_fields:
  "active_conversations (cleanup_detached m) = active_conversations m" "local_agent_loops (cleanup_detached m) = local_agent_loops m"
  "objects (cleanup_detached m) = objects m" "local_connections (cleanup_detached m) = local_connections m"
  "closed_runtimes (cleanup_detached m) = closed_runtimes m @ own_runtimes (detached_conversations m)"
  "detached_conversations (cleanup_detached m) = []"
  using cleanup_detached_fold [of "detached_conversations m" m] by (simp_all add: cleanup_detached_def Let_def)

lemma own_runtimes_set: "r \<in> set (own_runtimes ds) \<longleftrightarrow> (\<exists>sid c t. (sid, c, t) \<in> set ds \<and> \<not> sc_attach_to_existing c \<and> r = sc_runtime c)"
  by (force simp: own_runtimes_def)

lemma serve_cleanup:
  assumes "conversations_ok w" and "runtimes_ok w" and "distinct (d_keys (detached_conversations (sv_manager w)))"
  shows "conversations_ok (w\<lparr>sv_manager := cleanup_detached (sv_manager w)\<rparr>) \<and> runtimes_ok (w\<lparr>sv_manager := cleanup_detached (sv_manager w)\<rparr>)"
proof -
  let ?m = "sv_manager w" and ?m' = "cleanup_detached (sv_manager w)"
  note ok = assms(1) [unfolded conversations_ok_def]
  have det: "(sid, c, t) \<in> set (detached_conversations ?m) \<longleftrightarrow> d_get (detached_conversations ?m) sid = Some (c, t)" for sid c t
    using assms(3) by (simp add: d_keys_def)
  have "conversations_ok (w\<lparr>sv_manager := ?m'\<rparr>)"
    using tables_held [OF ok] tables_active [OF ok] tables_given [OF ok]
    by (auto simp: conversations_ok_def tables_ok_def cleanup_detached_fields)
  moreover have "runtimes_ok (w\<lparr>sv_manager := ?m'\<rparr>)"
  proof -
    have closed: "set (closed_runtimes ?m') = set (closed_runtimes ?m) \<union> {sc_runtime c | c. c \<in> owned w \<and> (\<exists>t. d_get (detached_conversations ?m) (sc_sid c) = Some (c, t))}"
    proof -
      have "c \<in> owned w \<and> d_get (detached_conversations ?m) (sc_sid c) = Some (c, t)"
        if "d_get (detached_conversations ?m) sid = Some (c, t)" "\<not> sc_attach_to_existing c" for sid c t
        using tables_detached [OF ok that(1)] that by (simp add: owned_def)
      then have "set (own_runtimes (detached_conversations ?m)) = {sc_runtime c | c. c \<in> owned w \<and> (\<exists>t. d_get (detached_conversations ?m) (sc_sid c) = Some (c, t))}"
        unfolding set_eq_iff own_runtimes_set det by (auto simp: owned_def; blast)
      then show ?thesis by (simp add: cleanup_detached_fields)
    qed
    have sessions: "session_runtimes ?m' = session_runtimes ?m" by (simp add: session_runtimes_def cleanup_detached_fields)
    have "sc_runtime c \<in> set (closed_runtimes ?m') \<longleftrightarrow> \<not> listed ?m' c" if c: "c \<in> owned w" for c
    proof -
      have "sc_runtime c \<in> set (closed_runtimes ?m') \<longleftrightarrow> \<not> listed ?m c \<or> (\<exists>t. d_get (detached_conversations ?m) (sc_sid c) = Some (c, t))"
        using runtimes_closed [OF assms(2) c] inj_onD [OF runtimes_inj [OF assms(2)] _ c] c unfolding closed by auto
      moreover have "d_get (active_conversations ?m) (sc_sid c) \<noteq> Some (c, n)" if "d_get (detached_conversations ?m) (sc_sid c) = Some (c, t)" for n t
        using tables_active [OF ok] that by fastforce
      ultimately show ?thesis by (auto simp: listed_def cleanup_detached_fields)
    qed
    moreover have "set (closed_runtimes ?m') \<subseteq> {..<objects ?m}" using runtimes_bound [OF assms(2)] unfolding closed by auto
    ultimately show ?thesis using runtimes_bound [OF assms(2)] runtimes_inj [OF assms(2)] runtimes_apart [OF assms(2)]
      by (simp add: runtimes_ok_def sessions cleanup_detached_fields(3))
  qed
  ultimately show ?thesis ..
qed

subsection \<open>Every run\<close>

definition served_ok :: "served \<Rightarrow> bool" where
  "served_ok w \<longleftrightarrow> conversations_ok w \<and> runtimes_ok w \<and> distinct (d_keys (detached_conversations (sv_manager w)))"

lemma served_ok_loops: "served_ok w \<Longrightarrow> only_loops (sv_manager w) m \<Longrightarrow> served_ok (w\<lparr>sv_manager := m\<rparr>)"
  using conversations_ok_loops runtimes_ok_loops by (auto simp: served_ok_def only_loops_def)

lemma cleanup_turn_after: "only_loops (cleanup_detached m) (snd (cleanup_turn delay now m))"
  by (auto simp: cleanup_turn_def Let_def loops split: option.split)

lemma attach_detached_keys: "distinct (d_keys (detached_conversations m)) \<Longrightarrow>
    distinct (d_keys (detached_conversations (snd (attach_to_conversation found connects sid user m))))"
  by (auto simp: attach_to_conversation_def new_server_conversation_def disconnect_conversation_def Let_def
      intro: distinct_d_del split: option.split sum.split)

lemma serve_attach_manager:
  "sv_manager (serve E (AttachStep sid user found connects) w) = snd (attach_to_conversation found connects sid user (sv_manager w))"
  by (simp split: prod.split sum.split option.split)

lemma served_ok_starts: "served_ok (w\<lparr>sv_manager := m, sv_starts := ps\<rparr>) = served_ok (w\<lparr>sv_manager := m\<rparr>)"
  by (simp add: served_ok_def conversations_ok_def runtimes_ok_def owned_def)

lemma serve_ok:
  assumes "served_ok w"
  shows "served_ok (serve E st w)"
proof (cases st)
  case (AttachStep sid user found connects)
  with assms serve_attach [of w E sid user found connects] attach_detached_keys [of "sv_manager w" found connects sid user] show ?thesis
    unfolding served_ok_def AttachStep serve_attach_manager by simp
next
  case (DetachStep c now)
  have "distinct (d_keys (detached_conversations (sv_manager (serve E (DetachStep c now) w))))"
    using assms by (auto simp: served_ok_def detach_from_conversation_def Let_def intro: distinct_d_set split: option.split)
  with assms serve_detach [of w E c now] DetachStep show ?thesis unfolding served_ok_def by simp
next
  case (CleanupStep now)
  have "served_ok (w\<lparr>sv_manager := cleanup_detached (sv_manager w)\<rparr>)"
    using assms serve_cleanup [of w] by (simp add: served_ok_def cleanup_detached_fields d_keys_def)
  from served_ok_loops [OF this, of "snd (cleanup_turn (me_close_delay E) now (sv_manager w))"] CleanupStep show ?thesis
    by (simp add: cleanup_turn_after)
next
  case (JoinStep sid connection_id user now)
  let ?r = "begin_join (me_metadata E) (me_set_order E) (me_limit E) now sid connection_id user (sv_manager w)"
  have "served_ok (w\<lparr>sv_manager := snd ?r\<rparr>)" by (rule served_ok_loops [OF assms]) (rule begin_join_loops)
  then show ?thesis by (cases ?r) (auto simp: JoinStep served_ok_starts split: sum.split option.split)
next
  case (GoOnStep i now)
  have "served_ok (w\<lparr>sv_manager := snd (go_on (me_limit E) now p (sv_manager w))\<rparr>)" for p
    by (rule served_ok_loops [OF assms]) (rule go_on_loops)
  then show ?thesis using assms
    by (auto simp: GoOnStep served_ok_starts split: prod.split sum.split option.split) (metis snd_conv)+
qed (use served_ok_loops [OF assms] in \<open>simp_all add: loops\<close>)

lemma served_ok_all: "w = serve_all E steps \<Longrightarrow> served_ok w"
proof (induction rule: serve_all_induct)
  case start
  show ?case by (simp add: served_ok_def conversations_ok_def tables_ok_def runtimes_ok_def owned_def session_runtimes_def new_manager_def d_keys_def)
qed (rule serve_ok)

text \<open>
  C27. All requests for a conversation share one object, whose count is the number of those that hold it, and the runtime that was
  opened for it is open as long as anyone does, in every run of attaching, detaching, cleaning up, joining, leaving and closing.
\<close>

theorem attached_conversations_stay_open:
  assumes "w = serve_all E steps" and "c \<in> set (sv_held w)"
  shows "d_get (active_conversations (sv_manager w)) (sc_sid c) = Some (c, int (count_list (sv_held w) c))
    \<and> (sc_attach_to_existing c \<or> sc_runtime c \<notin> set (closed_runtimes (sv_manager w)))"
proof -
  have ok: "conversations_ok w" "runtimes_ok w" using served_ok_all [OF assms(1)] by (simp_all add: served_ok_def)
  have held: "d_get (active_conversations (sv_manager w)) (sc_sid c) = Some (c, int (count_list (sv_held w) c))"
    using tables_held [OF ok(1) [unfolded conversations_ok_def] assms(2)] .
  have "c \<in> set (sv_given w)" using tables_given [OF ok(1) [unfolded conversations_ok_def]] assms(2) by blast
  then have "sc_attach_to_existing c \<or> c \<in> owned w" by (simp add: owned_def)
  with held runtimes_closed [OF ok(2), of c] show ?thesis by (auto simp: listed_def)
qed

text \<open>
  C28. The clean-up closes exactly what nobody uses: after a turn the runtime of a conversation that was given out, and that opened
  it, is closed if and only if nobody holds the conversation.
\<close>

theorem cleanup_closes_exactly_the_released:
  assumes "w = serve_all E steps" and "c \<in> set (sv_given w)" and "\<not> sc_attach_to_existing c"
  shows "sc_runtime c \<in> set (closed_runtimes (snd (cleanup_turn delay now (sv_manager w)))) \<longleftrightarrow> c \<notin> set (sv_held w)"
proof -
  let ?w = "w\<lparr>sv_manager := snd (cleanup_turn delay now (sv_manager w))\<rparr>"
  have "served_ok (w\<lparr>sv_manager := cleanup_detached (sv_manager w)\<rparr>)"
    using served_ok_all [OF assms(1)] serve_cleanup [of w] by (simp add: served_ok_def cleanup_detached_fields d_keys_def)
  from served_ok_loops [OF this, of "snd (cleanup_turn delay now (sv_manager w))"] have ok: "served_ok ?w" by (simp add: cleanup_turn_after)
  have "detached_conversations (sv_manager ?w) = []" using cleanup_turn_after [of "sv_manager w" delay now]
    by (simp add: only_loops_def cleanup_detached_fields)
  then have "listed (sv_manager ?w) c \<longleftrightarrow> (\<exists>n. d_get (active_conversations (sv_manager ?w)) (sc_sid c) = Some (c, n))" by (simp add: listed_def)
  also have "\<dots> \<longleftrightarrow> c \<in> set (sv_held w)"
    using ok tables_active [of _ _ "sv_held w"] tables_held [of _ _ "sv_held w"] by (fastforce simp: served_ok_def conversations_ok_def)
  finally show ?thesis using ok runtimes_closed [of ?w c] assms(2,3) by (simp add: served_ok_def owned_def)
qed

end
