(* ===== verification/SessionLimit.thy ===== *)
theory SessionLimit
  imports ManagerLaws "HOL-Library.Multiset"
begin

text \<open>
  The limit on the agent loops of a user, also when starts of loops overlap, the choice of the loops that have to make room, the clean-up of idle sessions, and the
  cases in which sessions lose what they need.
\<close>

section \<open>Making room\<close>

lemma d_keys_filter [simp]: "d_keys (filter (\<lambda>kv. fst kv \<notin> A) d) = filter (\<lambda>k. k \<notin> A) (d_keys d)"
  by (simp add: d_keys_def filter_map comp_def)

lemma wait_all_Inr: "wait_all rs = Inr xs \<Longrightarrow> rs = map Inr xs"
proof -
  assume all: "wait_all rs = Inr xs"
  have none: "filter is_error rs = []"
  proof (rule ccontr)
    assume "filter is_error rs \<noteq> []"
    then obtain e es where e: "filter is_error rs = e # es" by (cases "filter is_error rs") auto
    then have "is_error e" by (metis filter_eq_Cons_iff)
    then obtain err where "e = Inl err" by (cases e) (auto simp: is_error_def)
    with all e show False by (auto simp: wait_all_def split: list.splits)
  qed
  then have "List.map_filter (case_sum (\<lambda>_. None) Some) rs = xs" using all by (simp add: wait_all_def)
  then show ?thesis using none
  proof (induction rs arbitrary: xs)
    case (Cons r rs)
    then obtain x where "r = Inr x" by (cases r) (auto simp: is_error_def split: if_splits)
    with Cons show ?case by (auto simp: map_filter_simps is_error_def)
  qed (simp add: map_filter_simps)
qed

lemma do_close_agent_loops: "local_agent_loops (do_close_session sid m) = filter (\<lambda>kv. fst kv \<noteq> sid) (local_agent_loops m)"
  by (simp add: do_close_session_def session_close_def Let_def d_del_filter split: option.split)

lemma close_agent_loops: "local_agent_loops (close_session sid m) = filter (\<lambda>kv. fst kv \<noteq> sid) (local_agent_loops m)"
proof -
  have "filter (\<lambda>kv. fst kv \<noteq> sid) d = d" if "\<not> d_has d sid" for d :: "(string \<times> session) list"
    using d_del_notin [OF that] by (simp add: d_del_filter)
  then show ?thesis by (simp add: close_session_def do_close_agent_loops)
qed

lemma fold_close_agent_loops: "local_agent_loops (fold do_close_session sids m) = filter (\<lambda>kv. fst kv \<notin> set sids) (local_agent_loops m)"
  by (induction sids arbitrary: m) (auto simp: do_close_agent_loops intro: filter_cong)

lemma close_oldest_agent_loops:
  assumes "0 < limit"
  shows "fst (close_oldest limit cs m) = Inr () \<and> local_agent_loops (snd (close_oldest limit cs m))
    = filter (\<lambda>kv. fst kv \<notin> md_conversation_id ` set (take (length cs + 1 - nat limit) cs)) (local_agent_loops m)"
proof (induction cs arbitrary: m)
  case (Cons c cs)
  show ?case
  proof (cases "int (length (c # cs)) \<ge> limit")
    case True
    then have "length (c # cs) + 1 - nat limit = Suc (length cs + 1 - nat limit)" using assms by simp
    with Cons True show ?thesis by (simp add: close_agent_loops)
  next
    case False
    then have "length (c # cs) + 1 - nat limit = 0" using assms by simp
    with False show ?thesis by simp
  qed
qed (use assms in simp)

definition metadata_known :: "(string \<Rightarrow> conversation_metadata res) \<Rightarrow> bool" where
  \<comment> \<open>the store files every record under its own identifier\<close>
  "metadata_known md \<longleftrightarrow> (\<forall>sid c. md sid = Inr c \<longrightarrow> md_conversation_id c = sid)"

definition passes_all :: "(string list \<Rightarrow> string list) \<Rightarrow> bool" where
  \<comment> \<open>a set is passed through once, in any order\<close>
  "passes_all set_order \<longleftrightarrow> (\<forall>xs. mset (set_order xs) = mset xs)"

definition age_key :: "(string \<Rightarrow> conversation_metadata res) \<Rightarrow> string \<Rightarrow> rat" where
  "age_key md sid = (case md sid of Inl _ \<Rightarrow> 0 | Inr c \<Rightarrow> last_updated_at_key c)"

lemma running_keys: "distinct (d_keys (local_agent_loops m)) \<Longrightarrow> distinct (get_running_agent_loops user f m)"
  "set (get_running_agent_loops user f m) \<subseteq> set (d_keys (local_agent_loops m))"
  by (auto simp: get_running_agent_loops_def d_keys_def distinct_map intro: inj_on_subset)

lemma known_records:
  assumes "metadata_known md" and "map md ids = map Inr cs"
  shows "map md_conversation_id cs = ids" and "c \<in> set cs \<Longrightarrow> md (md_conversation_id c) = Inr c"
proof -
  show ids: "map md_conversation_id cs = ids" using assms(2)
  proof (induction ids arbitrary: cs)
    case (Cons sid ids)
    then show ?case using assms(1) by (cases cs) (auto simp: metadata_known_def)
  qed simp
  show "md (md_conversation_id c) = Inr c" if "c \<in> set cs"
    using that assms(2) unfolding ids [symmetric] by (auto simp: list_eq_iff_nth_eq in_set_conv_nth)
qed

lemma oldest_sorted: "sorted (map last_updated_at_key (rev (newest_first cs)))"
proof -
  have "sorted (map (\<lambda>c. - last_updated_at_key c) (newest_first cs))" by (simp add: newest_first_def)
  then show ?thesis by (simp add: sorted_wrt_rev sorted_wrt_map rev_map [symmetric])
qed

lemma distinct_set_minus: "xs = ys @ zs \<Longrightarrow> distinct xs \<Longrightarrow> set xs - set ys = set zs"
  by auto

text \<open>The records of the loops of a user, whatever the order of the set.\<close>

lemma oldest_ids:
  assumes "metadata_known md" and "passes_all set_order" and "distinct (d_keys (local_agent_loops m))"
    and "get_all_metadata md (set_order (get_running_agent_loops user None m)) = Inr cs"
  shows "distinct (map md_conversation_id (rev (newest_first cs)))"
    and "md_conversation_id ` set (rev (newest_first cs)) = set (get_running_agent_loops user None m)"
    and "length (rev (newest_first cs)) = length (get_running_agent_loops user None m)"
    and "\<And>c. c \<in> set (rev (newest_first cs)) \<Longrightarrow> md (md_conversation_id c) = Inr c"
proof -
  let ?ids = "get_running_agent_loops user None m" and ?old = "rev (newest_first cs)"
  have md: "map md (set_order ?ids) = map Inr cs" using wait_all_Inr assms(4) by (simp add: get_all_metadata_def)
  then have ids: "map md_conversation_id cs = set_order ?ids" and known: "\<And>c. c \<in> set cs \<Longrightarrow> md (md_conversation_id c) = Inr c"
    using known_records [OF assms(1)] by blast+
  have "mset ?old = mset cs" by (simp add: newest_first_def)
  then have same: "mset (map md_conversation_id ?old) = mset ?ids" using ids assms(2) by (metis mset_map passes_all_def)
  then show "distinct (map md_conversation_id ?old)" using running_keys(1) [OF assms(3), of user None] by (metis mset_eq_imp_distinct_iff)
  from same show "md_conversation_id ` set ?old = set ?ids" by (metis set_map set_mset_mset)
  from same show "length ?old = length ?ids" by (metis length_map size_mset)
  show "md (md_conversation_id c) = Inr c" if "c \<in> set ?old" for c using that known by (simp add: newest_first_def)
qed

text \<open>Who has to make room: as many as are too many for one more, none of them younger than one that stays.\<close>

lemma make_room_closes:
  assumes "0 < limit" and "metadata_known md" and "passes_all set_order" and "distinct (d_keys (local_agent_loops m))"
    and "make_room md set_order limit user m = (Inr u, m')"
  obtains gone where "gone \<subseteq> set (get_running_agent_loops user None m)"
    and "card gone = length (get_running_agent_loops user None m) + 1 - nat limit"
    and "local_agent_loops m' = filter (\<lambda>kv. fst kv \<notin> gone) (local_agent_loops m)"
    and "\<And>a b. a \<in> gone \<Longrightarrow> b \<in> set (get_running_agent_loops user None m) - gone \<Longrightarrow> age_key md a \<le> age_key md b"
proof (cases "int (length (get_running_agent_loops user None m)) \<ge> limit")
  case True
  let ?ids = "get_running_agent_loops user None m"
  from True assms(5) obtain cs where cs: "get_all_metadata md (set_order ?ids) = Inr cs"
    and closed: "close_oldest limit (rev (newest_first cs)) m = (Inr u, m')"
    by (auto simp: make_room_def split: sum.splits)
  let ?old = "rev (newest_first cs)" let ?k = "length ?ids + 1 - nat limit"
  note old = oldest_ids [OF assms(2-4) cs]
  note dist = old(1) and set_ids = old(2) and len = old(3)
  let ?gone = "md_conversation_id ` set (take ?k ?old)"
  have "\<And>c. c \<in> set ?old \<Longrightarrow> age_key md (md_conversation_id c) = last_updated_at_key c"
    using old(4) by (simp add: age_key_def)
  moreover have "sorted (map last_updated_at_key (take ?k ?old @ drop ?k ?old))"
    using oldest_sorted [of cs] by simp
  ultimately have order: "age_key md (md_conversation_id c) \<le> age_key md (md_conversation_id d)"
    if "c \<in> set (take ?k ?old)" "d \<in> set (drop ?k ?old)" for c d
    using that in_set_takeD [OF that(1)] in_set_dropD [OF that(2)] unfolding map_append sorted_append by simp
  have split: "set ?ids - ?gone = md_conversation_id ` set (drop ?k ?old)"
  proof -
    have "map md_conversation_id ?old = map md_conversation_id (take ?k ?old) @ map md_conversation_id (drop ?k ?old)"
      by (metis append_take_drop_id map_append)
    with dist set_ids show ?thesis by (metis distinct_set_minus set_map)
  qed
  show ?thesis
  proof (rule that [of ?gone])
    show "?gone \<subseteq> set ?ids" using set_ids set_take_subset [of ?k ?old] by blast
    have "distinct (map md_conversation_id (take ?k ?old))" using dist by (metis distinct_take take_map)
    then have "card ?gone = length (take ?k ?old)" by (metis distinct_card length_map set_map)
    then show "card ?gone = ?k" using len assms(1) by simp
    show "local_agent_loops m' = filter (\<lambda>kv. fst kv \<notin> ?gone) (local_agent_loops m)"
      using close_oldest_agent_loops [OF assms(1), of ?old m] closed len by simp
    show "age_key md a \<le> age_key md b" if "a \<in> ?gone" "b \<in> set ?ids - ?gone" for a b
      using that order unfolding split by blast
  qed
next
  case False
  with assms(1,5) that [of "{}"] show ?thesis by (auto simp: make_room_def)
qed

section \<open>The limit\<close>

lemma register_agent_loops:
  assumes "sid \<notin> set (d_keys (local_agent_loops m))"
  shows "\<exists>s. local_agent_loops (snd (register_session now sid user m)) = local_agent_loops m @ [(sid, s)] \<and> ws_user s = user \<and> ws_sid s = sid"
proof -
  have "AList.update sid v d = d @ [(sid, v)]" if "sid \<notin> set (d_keys d)" for v and d :: "(string \<times> session) list"
    using that by (induction d) (auto simp: d_keys_def)
  then show ?thesis using assms by (auto simp: register_session_def Let_def d_set_def)
qed

text \<open>
  Starts of one user may overlap, so the limit is shown for runs with at most so many of them at once. The loops are counted by the objects
  there were when they were registered: a number that grows, and that a start which waits remembers from when it looked.
\<close>

definition loop_keys :: "conversation_manager \<Rightarrow> (string \<times> string option \<times> nat) list" where
  "loop_keys m = map (\<lambda>(sid, s). (sid, ws_user s, ws_stream s)) (local_agent_loops m)"

definition older :: "string option \<Rightarrow> nat \<Rightarrow> conversation_manager \<Rightarrow> nat" where
  "older user n m = length (filter (\<lambda>(sid, u, k). u = user \<and> k < n) (loop_keys m))"

definition younger :: "string option \<Rightarrow> nat \<Rightarrow> conversation_manager \<Rightarrow> nat" where
  "younger user n m = length (filter (\<lambda>(sid, u, k). u = user \<and> n \<le> k) (loop_keys m))"

definition leaving :: "int \<Rightarrow> pending_start \<Rightarrow> string set" where
  \<comment> \<open>the conversations that a start has still to close\<close>
  "leaving limit p = md_conversation_id ` set (take (length (ps_room p) + 1 - nat limit) (ps_room p))"

definition staying :: "string option \<Rightarrow> nat \<Rightarrow> string set \<Rightarrow> conversation_manager \<Rightarrow> nat" where
  "staying user n gone m = length (filter (\<lambda>(sid, u, k). u = user \<and> k < n \<and> sid \<notin> gone) (loop_keys m))"

definition waiting :: "string option \<Rightarrow> nat \<Rightarrow> (nat \<times> pending_start) list \<Rightarrow> nat" where
  "waiting user n starts = length (filter (\<lambda>(k, p). ps_user p = user \<and> k \<le> n) starts)"

definition under_way :: "string option \<Rightarrow> served \<Rightarrow> nat" where
  "under_way user w = length (filter (\<lambda>(k, p). ps_user p = user) (sv_starts w))"

definition begins :: "string option \<Rightarrow> manager_step \<Rightarrow> bool" where
  "begins user st = (case st of JoinStep sid connection_id u now \<Rightarrow> u = user | _ \<Rightarrow> False)"

definition few_starts :: "nat \<Rightarrow> string option \<Rightarrow> manager_env \<Rightarrow> manager_step list \<Rightarrow> bool" where
  \<comment> \<open>a start of the user begins only while fewer than so many wait\<close>
  "few_starts most user E steps =
     list_all (\<lambda>i. begins user (steps ! i) \<longrightarrow> under_way user (serve_all E (take i steps)) < most) [0..<length steps]"

lemma few_starts_snoc:
  "few_starts most user E (steps @ [st]) \<longleftrightarrow> few_starts most user E steps \<and> (begins user st \<longrightarrow> under_way user (serve_all E steps) < most)"
proof -
  have "list_all (\<lambda>i. begins user ((steps @ [st]) ! i) \<longrightarrow> under_way user (serve_all E (take i (steps @ [st]))) < most) [0..<length steps]
      = few_starts most user E steps" by (auto simp: few_starts_def list_all_iff nth_append)
  then show ?thesis by (simp add: few_starts_def)
qed

subsection \<open>Counting\<close>

lemma filter_length_mono: "(\<And>x. x \<in> set xs \<Longrightarrow> Q x \<Longrightarrow> R x) \<Longrightarrow> length (filter Q xs) \<le> length (filter R xs)"
  by (induction xs) (auto simp: le_SucI)

lemma filter_length_split: "(\<And>x. Q x \<Longrightarrow> R x \<or> S x) \<Longrightarrow> length (filter Q xs) \<le> length (filter R xs) + length (filter S xs)"
  by (induction xs) (auto simp: le_SucI)

lemma subseq_filter_length: "subseq xs ys \<Longrightarrow> length (filter Q xs) \<le> length (filter Q ys)"
  by (metis list_emb_length subseq_filter)

lemma fewer_loops:
  assumes "subseq (loop_keys m') (loop_keys m)"
  shows "older user n m' \<le> older user n m" "younger user n m' \<le> younger user n m" "staying user n gone m' \<le> staying user n gone m"
  unfolding older_def younger_def staying_def using assms by (auto intro: subseq_filter_length)

lemma filter_update_length:
  fixes d :: "(string \<times> 'b) list"
  shows "length (filter R (d_set sid s d)) \<le> length (filter R d) + (if R (sid, s) then 1 else 0)"
  by (induction d) (auto simp: d_set_def)

lemma register_counts:
  assumes "m' = snd (register_session now sid u m)"
  shows "older user n m' \<le> older user n m + (if u = user \<and> objects m < n then 1 else 0)"
    and "younger user n m' \<le> younger user n m + (if u = user \<and> n \<le> objects m then 1 else 0)"
    and "staying user n gone m' \<le> staying user n gone m + (if u = user \<and> objects m < n \<and> sid \<notin> gone then 1 else 0)"
proof -
  obtain s where s: "local_agent_loops m' = d_set sid s (local_agent_loops m)" "ws_user s = u" "ws_stream s = objects m"
    unfolding assms by (simp add: register_session_def Let_def)
  have count: "length (filter R (loop_keys m')) \<le> length (filter R (loop_keys m)) + (if R (sid, u, objects m) then 1 else 0)" for R
    using filter_update_length [of "\<lambda>kv. R (fst kv, ws_user (snd kv), ws_stream (snd kv))" sid s "local_agent_loops m"] s
    by (simp add: loop_keys_def filter_map comp_def case_prod_beta split: if_splits)
  show "older user n m' \<le> older user n m + (if u = user \<and> objects m < n then 1 else 0)"
    using count [of "\<lambda>(sid, u, k). u = user \<and> k < n"] by (simp add: older_def)
  show "younger user n m' \<le> younger user n m + (if u = user \<and> n \<le> objects m then 1 else 0)"
    using count [of "\<lambda>(sid, u, k). u = user \<and> n \<le> k"] by (simp add: younger_def)
  show "staying user n gone m' \<le> staying user n gone m + (if u = user \<and> objects m < n \<and> sid \<notin> gone then 1 else 0)"
    using count [of "\<lambda>(sid, u, k). u = user \<and> k < n \<and> sid \<notin> gone"] by (simp add: staying_def)
qed

lemma waiting_update:
  assumes "i < length starts" and "starts ! i = (k, p)" and "ps_user p' = ps_user p"
  shows "waiting user n (starts[i := (k, p')]) = waiting user n starts"
  unfolding waiting_def using assms by (induction starts arbitrary: i) (auto split: nat.split)

lemma waiting_removed:
  assumes "i < length starts" and "starts ! i = (k, p)"
  shows "waiting user n starts = waiting user n (take i starts @ drop (Suc i) starts) + (if ps_user p = user \<and> k \<le> n then 1 else 0)"
proof -
  have "starts = take i starts @ (k, p) # drop (Suc i) starts" using assms by (metis id_take_nth_drop)
  then have "waiting user n starts = waiting user n (take i starts @ (k, p) # drop (Suc i) starts)" by simp
  then show ?thesis by (simp add: waiting_def)
qed

lemma waiting_under_way: "waiting user n (sv_starts w) \<le> under_way user w"
  unfolding waiting_def under_way_def by (rule filter_length_mono) auto

subsection \<open>What every step keeps\<close>

definition loops_sound :: "conversation_manager \<Rightarrow> bool" where
  "loops_sound m \<longleftrightarrow> distinct (map fst (loop_keys m)) \<and> (\<forall>x \<in> set (loop_keys m). snd (snd x) < objects m)"

definition start_kept ::
  "string option \<Rightarrow> int \<Rightarrow> nat \<Rightarrow> nat \<Rightarrow> conversation_manager \<Rightarrow> (nat \<times> pending_start) list \<Rightarrow> nat \<Rightarrow> pending_start \<Rightarrow> bool" where
  \<comment> \<open>a start that began after the mark could be the mark itself\<close>
  "start_kept user limit most n m starts k p \<longleftrightarrow> k \<le> objects m \<and> (ps_user p = user \<and> n \<le> k \<longrightarrow>
     younger user k m + waiting user k starts \<le> most \<and> int (staying user k (leaving limit p) m) < limit)"

definition limit_kept ::
  "string option \<Rightarrow> int \<Rightarrow> nat \<Rightarrow> nat \<Rightarrow> conversation_manager \<Rightarrow> (nat \<times> pending_start) list \<Rightarrow> bool" where
  \<comment> \<open>fewer loops than the limit are older than the mark, and at most so many are younger or under way\<close>
  "limit_kept user limit most n m starts \<longleftrightarrow> n \<le> objects m \<and> loops_sound m
     \<and> int (older user n m) < limit \<and> younger user n m + waiting user n starts \<le> most
     \<and> (\<forall>(k, p) \<in> set starts. start_kept user limit most n m starts k p)"

lemma sound_fewer: "loops_sound m \<Longrightarrow> subseq (loop_keys m') (loop_keys m) \<Longrightarrow> objects m \<le> objects m' \<Longrightarrow> loops_sound m'"
proof -
  assume sound: "loops_sound m" and sub: "subseq (loop_keys m') (loop_keys m)" and objs: "objects m \<le> objects m'"
  from sub obtain N where N: "loop_keys m' = nths (loop_keys m) N" unfolding subseq_conv_nths by blast
  have "distinct (map fst (nths (loop_keys m) N))" using sound unfolding loops_sound_def nths_map [symmetric] by (blast intro: distinct_nthsI)
  moreover have "set (loop_keys m') \<subseteq> set (loop_keys m)" unfolding N by (rule set_nths_subset)
  ultimately show "loops_sound m'" using sound objs unfolding loops_sound_def N by fastforce
qed

lemma start_kept_fewer:
  assumes "start_kept user limit most n m starts k p" and "younger user k m' \<le> younger user k m"
    and "staying user k (leaving limit p) m' \<le> staying user k (leaving limit p) m" and "objects m \<le> objects m'"
  shows "start_kept user limit most n m' starts k p"
  using assms unfolding start_kept_def by linarith

lemma limit_kept_fewer:
  assumes "limit_kept user limit most n m starts" and "subseq (loop_keys m') (loop_keys m)" and "objects m \<le> objects m'"
  shows "limit_kept user limit most n m' starts"
proof -
  note fewer = fewer_loops [OF assms(2)]
  have "start_kept user limit most n m' starts k p" if "(k, p) \<in> set starts" for k p
    using start_kept_fewer [OF _ fewer(2,3) assms(3)] assms(1) that unfolding limit_kept_def by blast
  moreover have "n \<le> objects m'" "int (older user n m') < limit" "younger user n m' + waiting user n starts \<le> most"
    using assms(1,3) fewer(1,2) [of user n] unfolding limit_kept_def by linarith+
  moreover have "loops_sound m'" using sound_fewer [OF _ assms(2,3)] assms(1) unfolding limit_kept_def by blast
  ultimately show ?thesis unfolding limit_kept_def by blast
qed

lemma start_kept_mark: "start_kept user limit most n m starts k p \<Longrightarrow> n \<le> n' \<Longrightarrow> start_kept user limit most n' m starts k p"
  by (auto simp: start_kept_def)

lemma sound_register:
  assumes "loops_sound m" and "m' = snd (register_session now sid u m)"
  shows "loops_sound m'"
proof -
  obtain s where s: "local_agent_loops m' = d_set sid s (local_agent_loops m)" "ws_stream s = objects m" "objects m' = Suc (objects m)"
    unfolding assms(2) by (simp add: register_session_def Let_def)
  have keys: "map fst (loop_keys m) = d_keys (local_agent_loops m)" for m by (simp add: d_keys_def loop_keys_def comp_def case_prod_beta)
  have "snd (snd x) < objects m'" if "x \<in> set (loop_keys m')" for x
    using that set_d_set_insert [of sid s "local_agent_loops m"] assms(1) s
    by (fastforce simp: loop_keys_def loops_sound_def less_Suc_eq)
  with assms(1) s show ?thesis by (simp add: loops_sound_def keys distinct_d_set)
qed

text \<open>A start that goes on: it closes a loop, or it registers its own.\<close>

lemma limit_kept_removed:
  assumes "limit_kept user limit most n m starts" and "i < length starts" and "starts ! i = (k, p)"
  shows "limit_kept user limit most n m (take i starts @ drop (Suc i) starts)"
proof -
  let ?rest = "take i starts @ drop (Suc i) starts"
  have fewer: "waiting user j ?rest \<le> waiting user j starts" for j using waiting_removed [OF assms(2,3), of user j] by simp
  have "set ?rest \<subseteq> set starts" by (auto dest: in_set_takeD in_set_dropD)
  moreover have "start_kept user limit most n m ?rest j q" if "start_kept user limit most n m starts j q" for j q
    using that fewer [of j] unfolding start_kept_def by linarith
  moreover have "younger user n m + waiting user n ?rest \<le> most" using assms(1) fewer [of n] unfolding limit_kept_def by linarith
  ultimately show ?thesis using assms(1) unfolding limit_kept_def by blast
qed

lemma limit_kept_registered:
  assumes "limit_kept user limit most n m starts" and "i < length starts" and "starts ! i = (k, p)"
    and "leaving limit p = {}" and "m' = snd (register_session now (ps_sid p) (ps_user p) m)"
  shows "\<exists>n'. limit_kept user limit most n' m' (take i starts @ drop (Suc i) starts)"
proof -
  let ?rest = "take i starts @ drop (Suc i) starts"
  let ?n = "if ps_user p = user then max n k else n"
  have sub: "set ?rest \<subseteq> set starts" by (auto dest: in_set_takeD in_set_dropD)
  have in_starts: "(k, p) \<in> set starts" using assms(2,3) by (metis nth_mem)
  have bound: "k \<le> objects m" "\<And>j q. (j, q) \<in> set starts \<Longrightarrow> j \<le> objects m" "n \<le> objects m"
    using assms(1) in_starts unfolding limit_kept_def start_kept_def by blast+
  have objs: "objects m' = Suc (objects m)" by (simp add: assms(5) register_session_def Let_def)
  note counts = register_counts [OF assms(5)]
  have total: "younger user j m' + waiting user j ?rest \<le> younger user j m + waiting user j starts" if "?n \<le> j" for j
    using counts(2) [of user j] waiting_removed [OF assms(2,3), of user j] that by (auto split: if_splits)
  have old: "older user ?n m' \<le> older user ?n m" using counts(1) [of user ?n] bound by (auto split: if_splits)
  have stay: "staying user j gone m' \<le> staying user j gone m" if "j \<le> objects m" for j gone
    using counts(3) [of user j gone] that by (auto split: if_splits)
  have mark: "int (older user ?n m) < limit \<and> younger user ?n m + waiting user ?n starts \<le> most"
  proof (cases "ps_user p = user \<and> n \<le> k")
    case True
    then have "younger user k m + waiting user k starts \<le> most \<and> int (staying user k {} m) < limit"
      using assms(1,4) in_starts unfolding limit_kept_def start_kept_def by auto
    with True show ?thesis by (simp add: older_def staying_def)
  next
    case False
    with assms(1) show ?thesis by (auto simp: limit_kept_def max_def)
  qed
  have "start_kept user limit most ?n m' ?rest j q" if "(j, q) \<in> set ?rest" for j q
  proof -
    from that sub assms(1) have "start_kept user limit most n m starts j q" "j \<le> objects m" using bound(2) unfolding limit_kept_def by blast+
    then show ?thesis using total [of j] stay [of j "leaving limit q"] objs
      unfolding start_kept_def by (auto split: if_splits)
  qed
  moreover have "loops_sound m'" using sound_register [OF _ assms(5)] assms(1) unfolding limit_kept_def by blast
  moreover have "?n \<le> objects m'" using bound objs by (auto split: if_splits)
  ultimately have "limit_kept user limit most ?n m' ?rest"
    using mark old total [of ?n] unfolding limit_kept_def by auto
  then show ?thesis by blast
qed

lemma limit_kept_closed:
  assumes "limit_kept user limit most n m starts" and "i < length starts" and "starts ! i = (k, p)" and "0 < limit"
    and "go_on limit now p m = (Inr (Some p'), m')"
  shows "limit_kept user limit most n m' (starts[i := (k, p')])"
proof -
  from assms(5) obtain c cs where c: "ps_room p = c # cs" "int (length (c # cs)) \<ge> limit" "p' = p\<lparr>ps_room := cs\<rparr>"
    and m': "m' = close_session (md_conversation_id c) (m\<lparr>closing_notices := closing_notices m @ [md_conversation_id c]\<rparr>)"
    by (auto simp: go_on_def split: if_splits list.splits)
  have loops: "loop_keys m' = filter (\<lambda>x. fst x \<noteq> md_conversation_id c) (loop_keys m)"
    by (simp add: m' loop_keys_def close_agent_loops filter_map comp_def case_prod_beta)
  have objs: "objects m \<le> objects m'" by (simp add: m' close_session_def do_close_session_def session_close_def Let_def split: option.split)
  have "length (c # cs) + 1 - nat limit = Suc (length cs + 1 - nat limit)" using c(2) assms(4) by simp
  then have "leaving limit p = insert (md_conversation_id c) (leaving limit p')" by (simp add: leaving_def c)
  then have stay: "staying user j (leaving limit p') m' \<le> staying user j (leaving limit p) m" for j
    unfolding staying_def loops filter_filter by (intro filter_length_mono) auto
  have "limit_kept user limit most n m' starts"
    by (rule limit_kept_fewer [OF assms(1) _ objs]) (simp add: loops)
  moreover have wait: "waiting user j (starts[i := (k, p')]) = waiting user j starts" for j
    by (rule waiting_update [OF assms(2,3)]) (simp add: c(3))
  have here: "start_kept user limit most n m starts k p" using assms(1-3) unfolding limit_kept_def by (metis case_prodD nth_mem)
  have "younger user k m' \<le> younger user k m" using fewer_loops(2) [of m' m] loops by simp
  then have "start_kept user limit most n m' starts k p'"
    using here stay [of k] objs c(3) unfolding start_kept_def by (simp; linarith)
  ultimately show ?thesis
    using set_update_subset_insert [of starts i "(k, p')"] unfolding limit_kept_def start_kept_def wait by blast
qed

lemma kept_go_on:
  assumes "limit_kept user (me_limit E) most n (sv_manager w) (sv_starts w)" and "0 < me_limit E"
  shows "\<exists>n. limit_kept user (me_limit E) most n (sv_manager (serve E (GoOnStep i now) w)) (sv_starts (serve E (GoOnStep i now) w))"
proof (cases "i < length (sv_starts w)")
  case True
  obtain k p where kp: "sv_starts w ! i = (k, p)" by fastforce
  obtain r m' where r: "go_on (me_limit E) now p (sv_manager w) = (r, m')" by fastforce
  show ?thesis
  proof (cases r)
    case (Inl e)
    then have "m' = sv_manager w" using r by (auto simp: go_on_def split: if_splits list.splits)
    with limit_kept_removed [OF assms(1) True kp] Inl True kp r show ?thesis by auto
  next
    case (Inr rest)
    show ?thesis
    proof (cases rest)
      case None
      with Inr r have "leaving (me_limit E) p = {}" "m' = snd (register_session now (ps_sid p) (ps_user p) (sv_manager w))"
        by (auto simp: go_on_def leaving_def split: if_splits list.splits)
      from limit_kept_registered [OF assms(1) True kp this] None Inr True kp r show ?thesis by simp
    next
      case (Some p')
      with limit_kept_closed [OF assms(1) True kp assms(2)] Inr True kp r show ?thesis by auto
    qed
  qed
qed (use assms(1) in auto)

lemma running_ids:
  assumes "truthy_user user" and "loops_sound m"
  shows "get_running_agent_loops user None m = map fst (filter (\<lambda>(sid, u, k). u = user \<and> k < objects m) (loop_keys m))"
proof -
  have "filter (\<lambda>(sid, u, k). u = user \<and> k < objects m) (loop_keys m) = filter (\<lambda>(sid, u, k). u = user) (loop_keys m)"
    using assms(2) by (intro filter_cong) (auto simp: loops_sound_def)
  moreover have "filter (\<lambda>(sid, s). ws_user s = user) d = filter (\<lambda>x. ws_user (snd x) = user) d" for d :: "(string \<times> session) list"
    by (rule filter_cong) auto
  ultimately show ?thesis using assms(1)
    by (simp add: get_running_agent_loops_def loop_keys_def filter_map comp_def case_prod_beta)
qed

lemma running_loops: "truthy_user user \<Longrightarrow> loops_sound m \<Longrightarrow> length (get_running_agent_loops user None m) = older user (objects m) m"
  by (simp add: running_ids older_def)

lemma no_younger: "loops_sound m \<Longrightarrow> younger user (objects m) m = 0"
  by (auto simp: younger_def loops_sound_def filter_empty_conv)

lemma limit_kept_running:
  assumes "limit_kept user limit most n m starts" and "truthy_user user"
  shows "int (length (get_running_agent_loops user None m)) \<le> limit - 1 + int most"
proof -
  have sound: "loops_sound m" using assms(1) by (simp add: limit_kept_def)
  have "older user (objects m) m \<le> older user n m + younger user n m"
    unfolding older_def younger_def by (rule filter_length_split) auto
  with running_loops [OF assms(2) sound] assms(1) show ?thesis unfolding limit_kept_def by linarith
qed

text \<open>A start that begins: it registers at once, or it waits.\<close>

lemma staying_older: "staying user n gone m \<le> older user n m"
  unfolding staying_def older_def by (rule filter_length_mono) auto

lemma limit_kept_started:
  assumes "limit_kept user limit most n m starts" and "m' = snd (register_session now sid u m)"
    and "u = user \<Longrightarrow> int (older user (objects m) m) < limit \<and> waiting user (objects m) starts < most"
  shows "\<exists>n'. limit_kept user limit most n' m' starts"
proof -
  let ?n = "if u = user then objects m else n"
  note counts = register_counts [OF assms(2)]
  have objs: "objects m' = Suc (objects m)" by (simp add: assms(2) register_session_def Let_def)
  have sound: "loops_sound m" using assms(1) by (simp add: limit_kept_def)
  have "start_kept user limit most ?n m' starts k p" if "(k, p) \<in> set starts" for k p
  proof -
    from assms(1) that have kept: "start_kept user limit most n m starts k p" unfolding limit_kept_def by blast
    show ?thesis
    proof (cases "u = user \<and> objects m \<le> k")
      case True
      then have k: "k = objects m" using kept by (simp add: start_kept_def)
      have "younger user k m' + waiting user k starts \<le> most" using counts(2) [of user k] True assms(3) no_younger [OF sound, of user] k by simp
      moreover have "int (staying user k (leaving limit p) m') < limit"
        using counts(3) [of user k "leaving limit p"] staying_older [of user k "leaving limit p" m] True assms(3) k by simp
      ultimately show ?thesis using kept objs by (simp add: start_kept_def)
    next
      case False
      have "younger user k m' \<le> younger user k m \<and> staying user k (leaving limit p) m' \<le> staying user k (leaving limit p) m" if "u \<noteq> user"
        using counts(2) [of user k] counts(3) [of user k] that by simp
      with False kept objs show ?thesis unfolding start_kept_def by (auto; linarith)
    qed
  qed
  moreover have "loops_sound m'" by (rule sound_register [OF sound assms(2)])
  moreover have "int (older user ?n m') < limit \<and> younger user ?n m' + waiting user ?n starts \<le> most \<and> ?n \<le> objects m'"
    using assms(1,3) counts(1,2) [of user ?n] no_younger [OF sound, of user] objs unfolding limit_kept_def by (auto split: if_splits)
  ultimately have "limit_kept user limit most ?n m' starts" unfolding limit_kept_def by auto
  then show ?thesis by blast
qed

lemma limit_kept_waits:
  assumes "limit_kept user limit most n m starts"
    and "ps_user p = user \<Longrightarrow> waiting user (objects m) starts < most \<and> int (staying user (objects m) (leaving limit p) m) < limit"
  shows "limit_kept user limit most n m (starts @ [(objects m, p)])"
proof -
  let ?starts = "starts @ [(objects m, p)]"
  have wait: "waiting user j ?starts = waiting user j starts + (if ps_user p = user \<and> objects m \<le> j then 1 else 0)" for j
    by (simp add: waiting_def)
  have young: "younger user (objects m) m = 0" using assms(1) no_younger by (simp add: limit_kept_def)
  have room: "younger user j m + waiting user j ?starts \<le> most" if "j \<le> objects m" "younger user j m + waiting user j starts \<le> most" for j
    using that wait [of j] young assms(2) by (cases "j = objects m") auto
  have "start_kept user limit most n m ?starts k q" if "(k, q) \<in> set starts" for k q
  proof -
    from that assms(1) have "start_kept user limit most n m starts k q" unfolding limit_kept_def by blast
    then show ?thesis using room [of k] unfolding start_kept_def by blast
  qed
  moreover have "start_kept user limit most n m ?starts (objects m) p"
    using assms(2) wait [of "objects m"] young by (auto simp: start_kept_def)
  ultimately show ?thesis using assms(1) room [of n] unfolding limit_kept_def by auto
qed

lemma staying_begun:
  assumes "metadata_known md" and "passes_all set_order" and "0 < limit" and "loops_sound m" and "truthy_user user"
    and "begin_start md set_order limit sid user m = Inr (Some p)"
  shows "int (staying user (objects m) (leaving limit p) m) < limit"
proof -
  let ?ids = "get_running_agent_loops user None m"
  have dist: "distinct (d_keys (local_agent_loops m))"
    using assms(4) by (simp add: loops_sound_def d_keys_def loop_keys_def comp_def case_prod_beta)
  from assms(6) obtain cs where cs: "get_all_metadata md (set_order ?ids) = Inr cs" and p: "ps_room p = rev (newest_first cs)"
    and many: "int (length ?ids) \<ge> limit"
    by (auto simp: begin_start_def Let_def split: sum.splits if_splits)
  let ?k = "length ?ids + 1 - nat limit"
  note old = oldest_ids [OF assms(1,2) dist cs, folded p]
  have gone: "leaving limit p = set (map md_conversation_id (take ?k (ps_room p)))" by (simp add: leaving_def old(3))
  have "distinct (map md_conversation_id (take ?k (ps_room p)))" using old(1) by (metis distinct_take take_map)
  then have "card (leaving limit p) = length (take ?k (ps_room p))" unfolding gone by (metis distinct_card length_map)
  then have card: "card (leaving limit p) = ?k" using old(3) assms(3) many by simp
  have sub: "leaving limit p \<subseteq> set ?ids" unfolding gone using old(2) set_take_subset [of ?k "ps_room p"] by auto
  have "staying user (objects m) (leaving limit p) m = length (filter (\<lambda>sid. sid \<notin> leaving limit p) ?ids)"
    unfolding running_ids [OF assms(5,4)] staying_def filter_map length_map filter_filter
    by (intro arg_cong [where f = length] filter_cong) auto
  also have "\<dots> = card (set (filter (\<lambda>sid. sid \<notin> leaving limit p) ?ids))"
    by (rule distinct_card [symmetric]) (simp add: running_keys(1) [OF dist])
  also have "set (filter (\<lambda>sid. sid \<notin> leaving limit p) ?ids) = set ?ids - leaving limit p" by auto
  also have "card (set ?ids - leaving limit p) = length ?ids - ?k"
    using card_Diff_subset [OF finite_subset [OF sub] sub] card by (simp add: distinct_card [OF running_keys(1) [OF dist]])
  finally show ?thesis using assms(3) many by linarith
qed

lemma kept_join:
  assumes "limit_kept user (me_limit E) most n (sv_manager w) (sv_starts w)" and "0 < me_limit E" and "metadata_known (me_metadata E)"
    and "passes_all (me_set_order E)" and "truthy_user user" and "u = user \<Longrightarrow> under_way user w < most"
    and "w' = serve E (JoinStep sid connection_id u now) w"
  shows "\<exists>n. limit_kept user (me_limit E) most n (sv_manager w') (sv_starts w')"
proof -
  let ?m = "(sv_manager w)\<lparr>local_connections := d_set connection_id sid (local_connections (sv_manager w))\<rparr>"
  have kept: "limit_kept user (me_limit E) most n ?m (sv_starts w)" by (rule limit_kept_fewer [OF assms(1)]) (simp_all add: loop_keys_def)
  have sound: "loops_sound ?m" using kept by (simp add: limit_kept_def)
  have few: "waiting user (objects ?m) (sv_starts w) < most" if "u = user"
    using assms(6) [OF that] waiting_under_way [of user "objects ?m" w] by linarith
  show ?thesis
  proof (cases "d_get (local_agent_loops (sv_manager w)) sid")
    case (Some s)
    with kept show ?thesis by (auto simp: assms(7) begin_join_def)
  next
    case None
    note serve = assms(7) [simplified, unfolded begin_join_def Let_def]
    show ?thesis
    proof (cases "begin_start (me_metadata E) (me_set_order E) (me_limit E) sid u ?m")
      case (Inl e)
      with kept None show ?thesis by (auto simp: serve)
    next
      case (Inr begun)
      show ?thesis
      proof (cases begun)
        case None
        with Inr have "int (length (get_running_agent_loops u None ?m)) < me_limit E" by (auto simp: begin_start_def Let_def split: if_splits sum.splits)
        then have "int (older user (objects ?m) ?m) < me_limit E" if "u = user" using running_loops [OF assms(5) sound] that by simp
        then have "\<exists>n. limit_kept user (me_limit E) most n (snd (register_session now sid u ?m)) (sv_starts w)"
          using few by (intro limit_kept_started [OF kept refl]) blast
        with None Inr \<open>d_get _ sid = None\<close> show ?thesis by (simp add: serve)
      next
        case (Some p)
        with Inr have p: "begin_start (me_metadata E) (me_set_order E) (me_limit E) sid u ?m = Inr (Some p)" by simp
        then have "ps_user p = u" by (auto simp: begin_start_def Let_def split: if_splits sum.splits)
        then have "limit_kept user (me_limit E) most n ?m (sv_starts w @ [(objects ?m, p)])"
          using few staying_begun [OF assms(3,4,2) sound assms(5)] p by (intro limit_kept_waits [OF kept]) blast
        with p \<open>d_get _ sid = None\<close> show ?thesis by (auto simp: serve)
      qed
    qed
  qed
qed

lemma filter_subseq: "d' = filter P d \<Longrightarrow> subseq (map f d') (map f d)"
  by (simp add: subseq_map)

lemma cleanup_agent_loops:
  "\<exists>P. local_agent_loops (snd (cleanup_turn delay now m)) = filter P (local_agent_loops m)"
proof -
  have "\<exists>P. local_agent_loops m = filter P (local_agent_loops m)" by (rule exI [of _ "\<lambda>_. True"]) simp
  then show ?thesis
    by (auto simp: cleanup_turn_def cleanup_detached_fields fold_close_agent_loops Let_def split: option.split)
qed

lemma map_d_set_same: "d_get d k = Some s \<Longrightarrow> f (k, s') = f (k, s) \<Longrightarrow> map f (d_set k s' d) = map f d"
  by (induction d) (auto simp: d_set_def split: if_splits)

lemma progress_keys:
  "loop_keys (session_progress sid runtime initialized controller started_at last_active m) = loop_keys m"
  "objects m \<le> objects (session_progress sid runtime initialized controller started_at last_active m)"
  by (auto simp: session_progress_def loop_keys_def map_d_set_same split: option.split)

lemma kept_step:
  assumes "limit_kept user (me_limit E) most n (sv_manager w) (sv_starts w)" and "0 < me_limit E" and "metadata_known (me_metadata E)"
    and "passes_all (me_set_order E)" and "truthy_user user" and "begins user st \<Longrightarrow> under_way user w < most"
  shows "\<exists>n. limit_kept user (me_limit E) most n (sv_manager (serve E st w)) (sv_starts (serve E st w))"
proof -
  have fewer: ?thesis if "subseq (loop_keys (sv_manager (serve E st w))) (loop_keys (sv_manager w))"
      "objects (sv_manager w) \<le> objects (sv_manager (serve E st w))" "sv_starts (serve E st w) = sv_starts w"
    using limit_kept_fewer [OF assms(1) that(1,2)] that(3) by auto
  show ?thesis
  proof (cases st)
    case (AttachStep sid u found connects)
    have "loop_keys (snd (attach_to_conversation found connects sid u m)) = loop_keys m \<and> objects m \<le> objects (snd (attach_to_conversation found connects sid u m))" for m
      by (auto simp: loop_keys_def attach_to_conversation_def new_server_conversation_def disconnect_conversation_def Let_def split: option.split sum.split)
    moreover have "sv_starts (serve E st w) = sv_starts w" by (simp add: AttachStep split: prod.split sum.split option.split)
    ultimately show ?thesis using fewer unfolding AttachStep serve_attach_manager by simp
  next
    case (DetachStep c now)
    show ?thesis by (rule fewer) (auto simp: DetachStep loop_keys_def detach_from_conversation_def Let_def split: option.split)
  next
    case (CleanupStep now)
    obtain P where "local_agent_loops (snd (cleanup_turn (me_close_delay E) now (sv_manager w))) = filter P (local_agent_loops (sv_manager w))"
      using cleanup_agent_loops by blast
    moreover have "objects (sv_manager w) \<le> objects (snd (cleanup_turn (me_close_delay E) now (sv_manager w)))"
      using cleanup_turn_after [of "sv_manager w"] cleanup_detached_fields(3) by (simp add: only_loops_def)
    ultimately show ?thesis by (intro fewer) (simp_all add: CleanupStep loop_keys_def filter_subseq)
  next
    case (JoinStep sid connection_id u now)
    from kept_join [OF assms(1-5) _ refl] assms(6) show ?thesis unfolding JoinStep by (simp add: begins_def)
  next
    case (GoOnStep i now)
    from kept_go_on [OF assms(1,2)] show ?thesis unfolding GoOnStep by blast
  next
    case (LeaveStep connection_id)
    show ?thesis by (rule fewer) (simp_all add: LeaveStep disconnect_from_session_def loop_keys_def)
  next
    case (CloseStep sid)
    show ?thesis using close_loops [of "sv_manager w" sid]
      by (intro fewer) (simp_all add: CloseStep loop_keys_def filter_subseq [OF close_agent_loops] only_loops_def)
  next
    case (SessionStep sid runtime initialized controller started_at last_active)
    show ?thesis by (rule fewer) (simp_all add: SessionStep progress_keys)
  qed
qed

text \<open>A start that nothing comes between is the start as a whole.\<close>

fun run_start :: "nat \<Rightarrow> int \<Rightarrow> rat \<Rightarrow> pending_start \<Rightarrow> conversation_manager \<Rightarrow> unit res \<times> conversation_manager" where
  "run_start 0 limit now p m = (Inl IndexError, m)"
| "run_start (Suc turns) limit now p m = (case go_on limit now p m of
       (Inl e, m) \<Rightarrow> (Inl e, m)
     | (Inr None, m) \<Rightarrow> (Inr (), m)
     | (Inr (Some p), m) \<Rightarrow> run_start turns limit now p m)"

lemma run_start_closes:
  "length (ps_room p) < turns \<Longrightarrow> run_start turns limit now p m = (case close_oldest limit (ps_room p) m of
     (Inl e, m) \<Rightarrow> (Inl e, m) | (Inr _, m) \<Rightarrow> (Inr (), snd (register_session now (ps_sid p) (ps_user p) m)))"
proof (induction turns arbitrary: p m)
  case (Suc turns)
  then show ?case by (cases "ps_room p") (auto simp: go_on_def split: prod.split sum.split)
qed simp

lemma undisturbed_start:
  assumes "begin_start md set_order limit sid user m = Inr (Some p)" and "length (ps_room p) < turns"
  shows "run_start turns limit now p m = (case start_agent_loop md set_order limit now sid user m of
    (Inl e, m) \<Rightarrow> (Inl e, m) | (Inr s, m) \<Rightarrow> (Inr (), m))"
proof -
  from assms(1) have "make_room md set_order limit user m = close_oldest limit (ps_room p) m" "ps_sid p = sid" "ps_user p = user"
    by (auto simp: begin_start_def make_room_def Let_def split: if_splits sum.splits)
  with run_start_closes [OF assms(2)] show ?thesis
    by (auto simp: start_agent_loop_def split: prod.split sum.split)
qed

text \<open>
  C29. How many agent loops a user has, in every run in which starts, closings, clean-ups and the rest come between the parts of a start that
  waits: when at most so many starts of the user are under way at once, the limit less one and that many more. So the limit holds as long as
  the starts of the user do not overlap (one at once), while starts that overlap may exceed it. The store keeps records under their
  identifiers.
\<close>

theorem conversations_stay_within_the_limit:
  assumes "w = serve_all E steps" and "0 < me_limit E" and "metadata_known (me_metadata E)" and "passes_all (me_set_order E)"
    and "truthy_user user" and "few_starts most user E steps"
  shows "int (length (get_running_agent_loops user None (sv_manager w))) \<le> me_limit E - 1 + int most"
proof -
  have "\<exists>n. limit_kept user (me_limit E) most n (sv_manager (serve_all E steps)) (sv_starts (serve_all E steps))"
    using assms(6)
  proof (induction steps rule: rev_induct)
    case Nil
    have "limit_kept user (me_limit E) most 0 new_manager []"
      using assms(2) by (simp add: limit_kept_def loops_sound_def older_def younger_def waiting_def loop_keys_def new_manager_def)
    then show ?case by (auto simp: serve_all_def)
  next
    case (snoc st steps)
    then obtain n where "limit_kept user (me_limit E) most n (sv_manager (serve_all E steps)) (sv_starts (serve_all E steps))"
      by (auto simp: few_starts_snoc)
    from kept_step [OF this assms(2-5), of st] snoc.prems show ?case by (simp add: few_starts_snoc serve_all_def)
  qed
  with limit_kept_running [OF _ assms(5)] assms(1) show ?thesis by blast
qed

text \<open>
  C30. A new conversation makes room at the expense of the oldest: exactly as many loops of the user as are too many are gone, each last
  updated no later than any that stays, all other loops stay, and the new one is there.
\<close>

theorem the_oldest_make_room:
  assumes "0 < limit" and "metadata_known md" and "passes_all set_order" and "distinct (d_keys (local_agent_loops m))"
    and "d_get (local_agent_loops m) sid = None" and "maybe_start_agent_loop md set_order limit now sid user m = (Inr info, m')"
    and "running = get_running_agent_loops user None m"
  shows "\<exists>gone \<subseteq> set running. card gone = length running + 1 - nat limit
    \<and> (\<forall>a \<in> gone. \<forall>b \<in> set running - gone. age_key md a \<le> age_key md b)
    \<and> (\<exists>s. local_agent_loops m' = filter (\<lambda>kv. fst kv \<notin> gone) (local_agent_loops m) @ [(sid, s)] \<and> ws_user s = user)"
proof -
  obtain r m1 where room: "make_room md set_order limit user m = (r, m1)" by fastforce
  with assms(5,6) obtain u where r: "r = Inr u" by (cases r) (auto simp: maybe_start_agent_loop_def start_agent_loop_def)
  from assms(5,6) room r have m': "m' = snd (register_session now sid user m1)"
    by (auto simp: maybe_start_agent_loop_def start_agent_loop_def split: prod.splits)
  from make_room_closes [OF assms(1-4) room [unfolded r]] obtain gone where
    gone: "gone \<subseteq> set running" "card gone = length running + 1 - nat limit"
      "local_agent_loops m1 = filter (\<lambda>kv. fst kv \<notin> gone) (local_agent_loops m)"
      "\<forall>a \<in> gone. \<forall>b \<in> set running - gone. age_key md a \<le> age_key md b" unfolding assms(7) by metis
  have "sid \<notin> set (d_keys (local_agent_loops m1))" using assms(5) gone(3) by (auto simp: d_keys_def map_of_eq_None_iff)
  from register_agent_loops [OF this, of now user] gone show ?thesis unfolding m' by metis
qed

section \<open>Idle sessions\<close>

text \<open>
  A turn of the clean-up closes exactly the sessions that have been idle for longer than the delay, do not run, are not starting and
  have no connection.
\<close>

theorem idle_sessions_are_closed:
  assumes "delay \<noteq> 0" and "distinct (d_keys (local_agent_loops m))"
  shows "local_agent_loops (snd (cleanup_turn (Some delay) now m))
    = filter (\<lambda>(sid, s). \<not> (is_idle delay now s \<and> sid \<notin> snd ` set (local_connections m))) (local_agent_loops m)"
proof -
  let ?m = "cleanup_detached m"
  have conns: "snd ` set (get_connections None (Some sids) ?m) = {sid \<in> snd ` set (local_connections m). sid \<in> set sids}" for sids
    by (force simp: get_connections_def truthy_user_def cleanup_detached_fields)
  have exactly: "sid \<in> set (sids_to_close delay now ?m) \<longleftrightarrow> is_idle delay now s \<and> sid \<notin> snd ` set (local_connections m)"
    if "(sid, s) \<in> set (local_agent_loops m)" for sid s
  proof -
    have "s' = s" if "(sid, s') \<in> set (local_agent_loops m)" for s'
      using that \<open>(sid, s) \<in> _\<close> assms(2) by (metis d_keys_def eq_key_imp_eq_value)
    then have "(\<exists>s'. (sid, s') \<in> set (local_agent_loops m) \<and> is_idle delay now s') \<longleftrightarrow> is_idle delay now s" using that by blast
    then show ?thesis by (auto simp: sids_to_close_def Let_def conns cleanup_detached_fields image_iff)
  qed
  have "filter (\<lambda>kv. fst kv \<notin> set (sids_to_close delay now ?m)) (local_agent_loops m)
      = filter (\<lambda>(sid, s). \<not> (is_idle delay now s \<and> sid \<notin> snd ` set (local_connections m))) (local_agent_loops m)"
  proof (rule filter_cong [OF refl])
    fix kv assume "kv \<in> set (local_agent_loops m)"
    with exactly [of "fst kv" "snd kv"] show "fst kv \<notin> set (sids_to_close delay now ?m)
        = (case kv of (sid, s) \<Rightarrow> \<not> (is_idle delay now s \<and> sid \<notin> snd ` set (local_connections m)))"
      by (simp add: case_prod_beta)
  qed
  then show ?thesis using assms(1) by (simp add: cleanup_turn_def fold_close_agent_loops cleanup_detached_fields Let_def)
qed

section \<open>Where it goes wrong\<close>

text \<open>
  A conversation that is in use, or was until a moment ago, is given out again even when its session was closed and started anew: the
  request works on the closed stream of the old session, not on the stream of the running one.
\<close>

theorem attached_again_to_a_closed_stream:
  assumes "d_get (active_conversations m) sid = Some (c, n)" and "d_get (local_agent_loops m) sid = Some s"
    and "sc_stream c = ws_stream s" and "ws_stream s < objects m" and "length (local_agent_loops m) = 1" and "1 < limit" and "ws_sid s = sid"
    and "(info, m') = maybe_start_agent_loop md set_order limit now sid user (close_session sid m)"
    and "(r, m'') = attach_to_conversation True connects sid user m'"
  shows "r = Inr (Some c) \<and> sc_stream c \<in> set (closed_streams m'') \<and> (\<exists>i. info = Inr i \<and> ai_event_store i \<noteq> sc_stream c)"
proof -
  obtain k where k: "local_agent_loops m = [(k, s)]" using assms(2,5) by (cases "local_agent_loops m") (auto split: if_splits)
  with assms(2) have loops: "local_agent_loops m = [(sid, s)]" by (auto split: if_splits)
  have closed: "local_agent_loops (close_session sid m) = []" "ws_stream s \<in> set (closed_streams (close_session sid m))"
    "active_conversations (close_session sid m) = active_conversations m" "objects (close_session sid m) = objects m"
    by (simp_all add: close_session_def do_close_session_def session_close_def loops d_has_def)
  have "make_room md set_order limit user (close_session sid m) = (Inr (), close_session sid m)"
    using assms(6) by (simp add: make_room_def get_running_agent_loops_def closed)
  then have m': "m' = snd (register_session now sid user (close_session sid m))" and info: "info = Inr (agent_loop_info_from_session (fst (register_session now sid user (close_session sid m))))"
    using assms(8) by (auto simp: maybe_start_agent_loop_def start_agent_loop_def closed split: prod.splits)
  have "active_conversations m' = active_conversations m" "closed_streams m' = closed_streams (close_session sid m)"
    unfolding m' register_session_def by (simp_all add: Let_def closed)
  with assms(1,3,4,9) closed info show ?thesis
    by (auto simp: attach_to_conversation_def register_session_def agent_loop_info_from_session_def Let_def)
qed

text \<open>
  C32. A request that comes while a session has no runtime yet opens a runtime of its own on the stream of the session; when it is done, the
  next clean-up closes that stream, although the session runs.
\<close>

theorem cleanup_closes_the_stream_of_a_running_session:
  assumes "d_get (local_agent_loops m) sid = Some s" and "ws_runtime s = None" and "d_get (active_conversations m) sid = None"
    and "detached_conversations m = []" and "(Inr (Some c), m1) = attach_to_conversation True (Inr ()) sid user m"
    and "m2 = detach_from_conversation now c m1"
  shows "ws_stream s \<in> set (closed_streams (cleanup_detached m2)) \<and> d_get (local_agent_loops (cleanup_detached m2)) sid = Some s"
proof -
  from assms(1-5) have c: "sc_stream c = ws_stream s" "sc_sid c = sid" "\<not> sc_attach_to_existing c"
    and m1: "d_get (active_conversations m1) sid = Some (c, 1)" "detached_conversations m1 = []" "local_agent_loops m1 = local_agent_loops m"
    by (auto simp: attach_to_conversation_def new_server_conversation_def connect_conversation_def Let_def)
  have m2: "detached_conversations m2 = [(sid, c, now)]" "local_agent_loops m2 = local_agent_loops m"
    using m1 c by (simp_all add: assms(6) detach_from_conversation_def d_set_def)
  have "ws_stream s \<in> set (closed_streams (cleanup_detached m2))"
    using c by (simp add: cleanup_detached_def m2 disconnect_conversation_def)
  with assms(1) m2 show ?thesis by (simp add: cleanup_detached_fields)
qed

text \<open>
  Two starts of one conversation that both wait for others to be closed both go on: the second takes the place of the first, whose session
  no operation can reach any more.
\<close>

lemma second_start_orphans_the_first:
  assumes "register_session now sid user m = (s, m1)" and "register_session now' sid user m1 = (s', m2)"
  shows "ws_stream s \<noteq> ws_stream s' \<and> d_get (local_agent_loops m2) sid = Some s' \<and> closed_streams m2 = closed_streams m"
  using assms by (auto simp: register_session_def Let_def)

section \<open>The record of a conversation\<close>

lemma given_title_is_kept:
  "md_title c = Some t \<Longrightarrow> t \<noteq> get_default_conversation_title conversation_id \<Longrightarrow>
     md_title (updated_conversation branch now generated conversation_id event m c) = Some t"
  by (auto simp: updated_conversation_def update_title_def update_metrics_def update_conversation_branch_def Let_def
      split: option.split sum.split)

lemma token_counts_add_up:
  assumes "event = Some e" and "ev_llm_metrics e = Some metrics"
  shows "let c' = updated_conversation branch now generated conversation_id event m c in
    md_total_tokens c' = md_prompt_tokens c' + md_completion_tokens c' \<and> md_accumulated_cost c' = accumulated_cost metrics"
  using assms by (auto simp: updated_conversation_def update_title_def update_metrics_def update_conversation_branch_def Let_def
      split: option.split sum.split)

lemma branch_changes_after_git_only:
  "\<not> is_git_related_event event \<Longrightarrow> md_selected_branch (updated_conversation branch now generated conversation_id event m c) = md_selected_branch c"
  by (auto simp: updated_conversation_def update_title_def update_metrics_def Let_def split: option.split)

end
