(* ===== verification/WebSession.thy ===== *)
theory WebSession
  imports SessionLimit EventStream
begin

text \<open>
  The session of a conversation on the server: what a client sees of the events (\<open>server/session/session.py\<close>,
  \<open>server/listen_socket.py\<close>), how its messages get into the stream, and the start and the closing of the agent
  (\<open>server/session/agent_session.py\<close>), which wait for one another.

  The web socket is the list of what was emitted; the runtime, the memory and the controller of an agent session are numbers, and
  what goes wrong while they are made is an argument.
\<close>

section \<open>Events for the client\<close>

definition shown_environment_event :: "body \<Rightarrow> bool" where
  "shown_environment_event b = (case b of Obs (CmdOutputObservation _) \<Rightarrow> True | Obs (AgentStateChangedObservation _ _ _) \<Rightarrow> True
     | Obs (RecallObservation _) \<Rightarrow> True | _ \<Rightarrow> False)"

definition as_agent :: "dict \<Rightarrow> dict" where
  "as_agent d = d_set ''source'' (JStr ''agent'') d"

definition web_on_event :: "event \<Rightarrow> dict option res" where
  \<comment> \<open>\<open>_on_event\<close>: what is sent, if anything\<close>
  "web_on_event e =
     (if is_null_action (ev_body e) \<or> is_null_obs (ev_body e) then Inr None
      else if ev_source e = Some AGENT \<or> ev_source e = Some USER then bind_res (event_to_dict e) (\<lambda>d. Inr (Some d))
      else if ev_source e = Some ENVIRONMENT \<and> shown_environment_event (ev_body e) then bind_res (event_to_dict e) (\<lambda>d. Inr (Some (as_agent d)))
      else if is_error_obs (ev_body e) then bind_res (event_to_dict e) (\<lambda>d. Inr (Some (as_agent d)))
      else Inr None)"

record web_client =
  wc_is_alive :: bool
  wc_publish_queue :: "dict list"
  wc_sent :: "dict list"
  wc_last_active_ts :: int
  wc_wait_websocket_initial_complete :: bool

definition web_send :: "dict \<Rightarrow> web_client \<Rightarrow> web_client" where
  "web_send data c = c\<lparr>wc_publish_queue := wc_publish_queue c @ [data]\<rparr>"

definition send_error :: "string \<Rightarrow> web_client \<Rightarrow> web_client" where
  "send_error notice c = web_send [(''error'', JBool True), (''message'', JStr notice)] c"

definition do_send :: "bool \<Rightarrow> rat \<Rightarrow> dict \<Rightarrow> web_client \<Rightarrow> bool \<times> web_client" where
  \<comment> \<open>\<open>_send\<close>, after the wait for a client; \<open>fails\<close> when emitting raises \<open>RuntimeError\<close>\<close>
  "do_send fails now data c =
     (if \<not> wc_is_alive c then (False, c)
      else let c = c\<lparr>wc_wait_websocket_initial_complete := False\<rparr> in
        if fails then (False, c\<lparr>wc_is_alive := False\<rparr>)
        else (True, c\<lparr>wc_sent := wc_sent c @ [data], wc_last_active_ts := \<lfloor>now\<rfloor>\<rparr>))"

definition monitor_publish_queue :: "bool \<Rightarrow> rat \<Rightarrow> web_client \<Rightarrow> web_client" where
  \<comment> \<open>one turn of the loop\<close>
  "monitor_publish_queue fails now c = (case wc_publish_queue c of
       [] \<Rightarrow> c | data # rest \<Rightarrow> snd (do_send fails now data (c\<lparr>wc_publish_queue := rest\<rparr>)))"

definition hear_event :: "event \<Rightarrow> web_client \<Rightarrow> unit res \<times> web_client" where
  "hear_event e c = (case web_on_event e of
       Inl err \<Rightarrow> (Inl err, c) | Inr None \<Rightarrow> (Inr (), c) | Inr (Some d) \<Rightarrow> (Inr (), web_send d c))"

section \<open>Messages of the client\<close>

record model_vision =
  mv_disable_vision :: bool
  mv_vision_is_active :: bool

definition has_images :: "event \<Rightarrow> bool" where
  "has_images e = (case ev_body e of Act (MessageAction r) \<Rightarrow> (case ma_image_urls r of None \<Rightarrow> False | Some urls \<Rightarrow> urls \<noteq> []) | _ \<Rightarrow> False)"

definition vision_error :: "model_vision option \<Rightarrow> event \<Rightarrow> string option" where
  "vision_error controller e = (if \<not> has_images e then None else case controller of
       None \<Rightarrow> None
     | Some v \<Rightarrow>
         if mv_disable_vision v then Some ''Support for images is disabled for this model, try without an image.''
         else if \<not> mv_vision_is_active v then Some ''Model does not support image upload, change to a different model or try without an image.''
         else None)"

definition dispatch_data ::
  "(string \<Rightarrow> json \<Rightarrow> 's \<Rightarrow> 's) \<Rightarrow> ('s \<Rightarrow> string \<Rightarrow> string list res) \<Rightarrow> (string \<Rightarrow> dict option) \<Rightarrow> string \<Rightarrow> model_vision option \<Rightarrow> dict
     \<Rightarrow> web_client \<times> ('s, 'k) event_stream \<Rightarrow> unit res \<times> web_client \<times> ('s, 'k) event_stream" where
  "dispatch_data wr ls lit now controller data = (\<lambda>(c, st). case event_from_dict lit data of
       Inl err \<Rightarrow> (Inl err, c, st)
     | Inr e \<Rightarrow> (case vision_error controller e of
         Some notice \<Rightarrow> (Inr (), send_error notice c, st)
       | None \<Rightarrow> (case add_event wr ls lit now e USER st of (st, _, r) \<Rightarrow> (r, c, st))))"

section \<open>Connecting\<close>

definition not_replayed :: "body \<Rightarrow> bool" where
  "not_replayed b = (is_null_action b \<or> is_null_obs b \<or> (case b of Act (RecallAction _ _ _) \<Rightarrow> True | _ \<Rightarrow> False))"

fun replay_loop :: "event list \<Rightarrow> event option \<Rightarrow> dict list \<times> (py_error + event option)" where
  \<comment> \<open>what is emitted, and the last change of the agent's state\<close>
  "replay_loop [] agent_state_changed = ([], Inr agent_state_changed)"
| "replay_loop (e # es) agent_state_changed =
     (if not_replayed (ev_body e) then replay_loop es agent_state_changed
      else if is_state_changed (ev_body e) then replay_loop es (Some e)
      else (case event_to_dict e of
          Inl err \<Rightarrow> ([], Inl err)
        | Inr d \<Rightarrow> (case replay_loop es agent_state_changed of (ds, r) \<Rightarrow> (d # ds, r))))"

definition replay_events_to_client ::
  "('s \<Rightarrow> string \<Rightarrow> json res) \<Rightarrow> ('s \<Rightarrow> string \<Rightarrow> string list res) \<Rightarrow> (string \<Rightarrow> dict option) \<Rightarrow> int \<Rightarrow> ('s, 'm) event_store_scheme
     \<Rightarrow> dict list \<times> unit res" where
  "replay_events_to_client rd ls lit latest_event_id st =
     (case search_events rd ls lit (\<lambda>_. True) (latest_event_id + 1) None False None None st of
        (_, events, failure) \<Rightarrow> (case replay_loop events None of
            (ds, Inl err) \<Rightarrow> (ds, Inl err)
          | (ds, Inr agent_state_changed) \<Rightarrow> (case failure of
              Some err \<Rightarrow> (ds, Inl err)
            | None \<Rightarrow> (case agent_state_changed of
                None \<Rightarrow> (ds, Inr ())
              | Some e \<Rightarrow> (case event_to_dict e of Inl err \<Rightarrow> (ds, Inl err) | Inr d \<Rightarrow> (ds @ [d], Inr ()))))))"

definition parse_latest_event_id :: "string option \<Rightarrow> int" where
  "parse_latest_event_id param = (case param of None \<Rightarrow> -1 | Some s \<Rightarrow> (case py_int s of None \<Rightarrow> -1 | Some n \<Rightarrow> n))"

definition invalid_session_api_key :: "string option \<Rightarrow> (string \<times> string list) list \<Rightarrow> bool res" where
  \<comment> \<open>\<open>configured\<close> is the key in the environment\<close>
  "invalid_session_api_key configured query_params =
     (if configured = None \<or> configured = Some '''' then Inr False
      else case d_get query_params ''session_api_key'' of
        None \<Rightarrow> Inl (KeyError ''session_api_key'')
      | Some [] \<Rightarrow> Inr True
      | Some (key # _) \<Rightarrow> Inr (Some key \<noteq> configured))"

definition connection_refused :: "string \<Rightarrow> py_error" where
  "connection_refused notice = OtherError ''ConnectionRefusedError'' notice"

definition first_param :: "(string \<times> string list) list \<Rightarrow> string \<Rightarrow> string option" where
  \<comment> \<open>\<open>parse_qs\<close> gives lists that are not empty\<close>
  "first_param query_params name = (case d_get query_params name of Some (v # _) \<Rightarrow> Some v | _ \<Rightarrow> None)"

definition parse_providers :: "(string \<times> string list) list \<Rightarrow> string list res" where
  \<comment> \<open>the values of \<open>ProviderType\<close>\<close>
  "parse_providers query_params =
     (let raw_list = (case d_get query_params ''providers_set'' of None \<Rightarrow> [] | Some l \<Rightarrow> l);
          providers = filter (\<lambda>p. p \<noteq> '''') (concat (map (py_split (CHR '','')) raw_list))
      in map_res (\<lambda>p. if p \<in> set [''github'', ''gitlab'', ''bitbucket'', ''enterprise_sso''] then Inr p
                     else Inl (ValueError (p @ '' is not a valid ProviderType''))) providers)"

definition check_connection :: "string option \<Rightarrow> (string \<times> string list) list \<Rightarrow> (string \<times> string list) res" where
  \<comment> \<open>the checks before the validator: the conversation and the providers\<close>
  "check_connection configured query_params = bind_res (parse_providers query_params) (\<lambda>providers_set.
     (case first_param query_params ''conversation_id'' of
        None \<Rightarrow> Inl (connection_refused ''No conversation_id in query params'')
      | Some conversation_id \<Rightarrow>
          if conversation_id = '''' then Inl (connection_refused ''No conversation_id in query params'')
          else bind_res (invalid_session_api_key configured query_params) (\<lambda>invalid.
            if invalid then Inl (connection_refused ''invalid_session_api_key'') else Inr (conversation_id, providers_set))))"

definition socket_connect ::
  "('s \<Rightarrow> string \<Rightarrow> json res) \<Rightarrow> ('s \<Rightarrow> string \<Rightarrow> string list res) \<Rightarrow> (string \<Rightarrow> dict option)
     \<Rightarrow> (string \<Rightarrow> string option res) \<Rightarrow> (string \<Rightarrow> string option \<Rightarrow> ('s, 'm) event_store_scheme)
     \<Rightarrow> (string \<Rightarrow> string list \<Rightarrow> string option \<Rightarrow> conversation_manager \<Rightarrow> unit res \<times> conversation_manager)
     \<Rightarrow> string option \<Rightarrow> (string \<times> string list) list \<Rightarrow> conversation_manager \<Rightarrow> dict list \<times> unit res \<times> conversation_manager" where
  \<comment> \<open>\<open>connect\<close>: what is emitted to the connection, and how it ends; \<open>join\<close> loads the settings and joins the conversation\<close>
  "socket_connect rd ls lit validate new_store join configured query_params m =
     (case check_connection configured query_params of
        Inl err \<Rightarrow> ([], Inl err, m)
      | Inr (conversation_id, providers_set) \<Rightarrow> (case validate conversation_id of
          Inl err \<Rightarrow> ([], Inl err, m)
        | Inr user_id \<Rightarrow>
            (case replay_events_to_client rd ls lit (parse_latest_event_id (first_param query_params ''latest_event_id'')) (new_store conversation_id user_id) of
               (ds, Inl err) \<Rightarrow> (ds, Inl err, m)
             | (ds, Inr _) \<Rightarrow> (case join conversation_id providers_set user_id m of (r, m) \<Rightarrow> (ds, r, m)))))"

section \<open>Starting and closing the agent\<close>

record agent_session =
  as_controller :: "nat option"
  as_runtime :: "nat option"
  as_memory :: "nat option"
  as_starting :: bool
  as_started_at :: rat
  as_closed :: bool
  as_first_events :: "event list"
  as_stream_closed :: bool
  as_controllers_closed :: "nat list"
  as_runtimes_closed :: "nat list"

definition new_agent_session :: agent_session where
  "new_agent_session = \<lparr>as_controller = None, as_runtime = None, as_memory = None, as_starting = False, as_started_at = 0, as_closed = False,
     as_first_events = [], as_stream_closed = False, as_controllers_closed = [], as_runtimes_closed = []\<rparr>"

definition start_begin :: "rat \<Rightarrow> agent_session \<Rightarrow> bool res \<times> agent_session" where
  \<comment> \<open>up to the first wait: whether the start goes on\<close>
  "start_begin now a =
     (if as_controller a \<noteq> None \<or> as_runtime a \<noteq> None
      then (Inl (RuntimeError ''Session already started. You need to close this session and start a new one.''), a)
      else if as_closed a then (Inr False, a)
      else (Inr True, a\<lparr>as_starting := True, as_started_at := now\<rparr>))"

definition initial_events :: "event option \<Rightarrow> event list" where
  "initial_events initial_message = (case initial_message of
       Some notice \<Rightarrow> [notice\<lparr>ev_source := Some USER\<rparr>, (new_action (ChangeAgentStateAction RUNNING ''''))\<lparr>ev_source := Some ENVIRONMENT\<rparr>]
     | None \<Rightarrow> [(new_action (ChangeAgentStateAction AWAITING_USER_INPUT ''''))\<lparr>ev_source := Some ENVIRONMENT\<rparr>])"

definition start_runtime :: "nat \<Rightarrow> agent_session \<Rightarrow> agent_session" where
  \<comment> \<open>the object is made before it is connected\<close>
  "start_runtime r a = a\<lparr>as_runtime := Some r\<rparr>"

definition start_end :: "unit res \<Rightarrow> unit res \<Rightarrow> nat \<Rightarrow> nat \<Rightarrow> event option \<Rightarrow> agent_session \<Rightarrow> unit res \<times> agent_session" where
  \<comment> \<open>the rest, without a replay: \<open>prepared\<close> is what connecting and preparing the runtime gives, where \<open>AgentRuntimeUnavailableError\<close> is
    caught, and \<open>furnished\<close> what the secrets, the memory and the tools give\<close>
  "start_end prepared furnished memory controller initial_message a =
     (case (case prepared of Inl e \<Rightarrow> if runtime_unavailable e then furnished else Inl e | Inr _ \<Rightarrow> furnished) of
        Inl e \<Rightarrow> (Inl e, a\<lparr>as_starting := False\<rparr>)
      | Inr _ \<Rightarrow>
          let a = a\<lparr>as_memory := Some memory\<rparr> in
          if as_controller a \<noteq> None then (Inl (RuntimeError ''Controller already created''), a\<lparr>as_starting := False\<rparr>)
          else if as_runtime a = None then (Inl (RuntimeError ''Runtime must be initialized before the agent controller''), a\<lparr>as_starting := False\<rparr>)
          else let a = a\<lparr>as_controller := Some controller\<rparr>;
                   a = (if as_closed a then a else a\<lparr>as_first_events := as_first_events a @ initial_events initial_message\<rparr>)
               in (Inr (), a\<lparr>as_starting := False\<rparr>))"

definition close_begin :: "agent_session \<Rightarrow> bool \<times> agent_session" where
  "close_begin a = (if as_closed a then (False, a) else (True, a\<lparr>as_closed := True\<rparr>))"

definition WAIT_TIME_BEFORE_CLOSE_INTERVAL :: rat where "WAIT_TIME_BEFORE_CLOSE_INTERVAL = 5"

fun close_wait :: "rat \<Rightarrow> (bool \<times> bool \<times> rat) list \<Rightarrow> nat \<Rightarrow> nat option" where
  \<comment> \<open>the loop over what it finds: still starting, no shutdown, and the time after the sleep. The number of sleeps; \<open>None\<close>: it still waits\<close>
  "close_wait started_at [] n = None"
| "close_wait started_at ((starting, continue, now) # polls) n =
     (if \<not> (starting \<and> continue) then Some n
      else if now \<le> started_at + WAIT_TIME_BEFORE_CLOSE then Some (Suc n)
      else close_wait started_at polls (Suc n))"

definition close_end :: "agent_session \<Rightarrow> agent_session" where
  "close_end a = a\<lparr>as_stream_closed := True,
     as_controllers_closed := as_controllers_closed a @ (case as_controller a of None \<Rightarrow> [] | Some c \<Rightarrow> [c]),
     as_runtimes_closed := as_runtimes_closed a @ (case as_runtime a of None \<Rightarrow> [] | Some r \<Rightarrow> [r])\<rparr>"

end
