(* ===== verification/WebSessionLaws.thy ===== *)
theory WebSessionLaws
  imports WebSession
begin

text \<open>What a client gets and what it can add, and how closing an agent session meets its start.\<close>

section \<open>The client\<close>

text \<open>
  What a client sends enters the log: data that is a fresh event of the user, with images only where the model sees them, is
  stored under the next id with the user as its source, queued for every subscriber, and answered with nothing.
\<close>

theorem user_event_is_stored:
  assumes "stream_ok mem_read mem_list lit st" and "next_id mem_list st = Inr n" and "st_secrets st = []"
    and "event_from_dict lit data = Inr e" and "event_ok e" and "event_id e = INVALID_ID" and "vision_error controller e = None"
  shows "\<exists>st'. dispatch_data mem_write mem_list lit now controller data (c, st) = (Inr (), c, st')
    \<and> stream_ok mem_read mem_list lit st' \<and> next_id mem_list st' = Inr (n + 1)
    \<and> stored mem_read lit st' = (stored mem_read lit st)(n \<mapsto> stamped n (now, e, USER))
    \<and> st_queue st' = st_queue st @ [stamped n (now, e, USER)]"
proof -
  from mem_events.add_event_succeeds [OF assms(1,2,5,6,3), of now USER] obtain e' d where
    add: "add_event mem_write mem_list lit now e USER st = (added mem_write n d (stamped n (now, e, USER)) st, e', Inr ())"
    and parse: "event_from_dict lit d = Inr (stamped n (now, e, USER))" "d_get d ''id'' = Some (JInt n)" by blast
  have "0 \<le> n" using assms(1,2) by (auto simp: stream_ok_def)
  from mem_events.added_ok [OF assms(1,2) parse(1) mem_events.stamped_id [OF this] parse(2)] add show ?thesis
    by (simp add: dispatch_data_def assms(4,7))
qed

definition replayed_at_once :: "event \<Rightarrow> bool" where
  \<comment> \<open>all but null events, recalls and changes of the agent's state\<close>
  "replayed_at_once e = (case ev_body e of
       Act NullAction \<Rightarrow> False
     | Act (RecallAction _ _ _) \<Rightarrow> False
     | Obs (NullObservation _) \<Rightarrow> False
     | Obs (AgentStateChangedObservation _ _ _) \<Rightarrow> False
     | _ \<Rightarrow> True)"

lemma replayed_at_once_eq: "replayed_at_once e = (\<not> not_replayed (ev_body e) \<and> \<not> is_state_changed (ev_body e))"
  by (auto simp: replayed_at_once_def not_replayed_def isinst split: body.splits action.splits observation.splits)

lemma state_change_replayed: "is_state_changed b \<Longrightarrow> \<not> not_replayed b"
  by (auto simp: is_state_changed_def not_replayed_def is_null_action_def is_null_obs_def split: body.splits observation.splits)

lemma replay_loop_all:
  assumes "\<And>e. e \<in> set es \<Longrightarrow> event_to_dict e = Inr (doc e)"
  shows "replay_loop es last_change = (map doc (filter replayed_at_once es),
    Inr (case filter (\<lambda>e. is_state_changed (ev_body e)) es of [] \<Rightarrow> last_change | cs \<Rightarrow> Some (last cs)))"
  using assms
proof (induction es arbitrary: last_change)
  case (Cons e es)
  then show ?case using state_change_replayed [of "ev_body e"]
    by (auto simp: replayed_at_once_eq split: list.split)
qed simp

text \<open>
  C31. A client that connects again gets what it missed: of the stored events after the last one it has, in order, all but null events and
  recalls; of the changes of the agent's state only the last, behind all others; and each event once.
\<close>

theorem replay_sends_what_was_missed:
  assumes "store_ok mem_read lit st" and "cur_id mem_list st = Inr (st', n)"
    and "missed = List.map_filter (stored mem_read lit st) [latest_event_id + 1..n - 1]"
    and "\<And>e. e \<in> set missed \<Longrightarrow> event_to_dict e = Inr (doc e)"
    and "changes = filter (\<lambda>e. is_state_changed (ev_body e)) missed"
  shows "replay_events_to_client mem_read mem_list lit latest_event_id st
    = (map doc (filter replayed_at_once missed) @ (if changes = [] then [] else [doc (last changes)]), Inr ())"
proof -
  have "snd (search_events mem_read mem_list lit (\<lambda>_. True) (latest_event_id + 1) None False None None st) = (missed, None)"
    using mem_events.search_events_select [OF assms(1) TrueI assms(2), of None "n - 1" "latest_event_id + 1" False None None]
    by (simp add: assms(3) select_all [where p = "\<lambda>_. True"] filter_truth_def)
  then obtain st'' where search: "search_events mem_read mem_list lit (\<lambda>_. True) (latest_event_id + 1) None False None None st = (st'', missed, None)"
    by (metis prod.collapse)
  show ?thesis
  proof (cases changes)
    case Nil
    then show ?thesis using assms(5) by (simp add: replay_events_to_client_def search replay_loop_all [OF assms(4)])
  next
    case (Cons ch chs)
    moreover have "set changes \<subseteq> set missed" using assms(5) by auto
    ultimately have "last changes \<in> set missed" using last_in_set [of changes] by blast
    from assms(4) [OF this] Cons show ?thesis using assms(5)
      by (simp add: replay_events_to_client_def search replay_loop_all [OF assms(4)] split: list.splits)
  qed
qed

text \<open>A recall of the user is sent while the client is connected, and left out when it connects again.\<close>

lemma recall_is_sent_live_only:
  assumes "ev_body e = Act (RecallAction kind query thought)" and "ev_source e = Some USER" and "event_to_dict e = Inr d"
  shows "web_on_event e = Inr (Some d)" and "replay_loop [e] None = ([], Inr None)"
  using assms by (simp_all add: web_on_event_def is_null_action_def is_null_obs_def not_replayed_def)

text \<open>A client without a key, where one is configured, is not refused: looking its key up raises.\<close>

lemma missing_key_is_not_refused:
  "configured = Some (k # ks) \<Longrightarrow> parse_providers query_params = Inr ps \<Longrightarrow> d_get query_params ''session_api_key'' = None \<Longrightarrow>
     first_param query_params ''conversation_id'' = Some (c # cs) \<Longrightarrow> check_connection configured query_params = Inl (KeyError ''session_api_key'')"
  by (simp add: check_connection_def invalid_session_api_key_def)

section \<open>Closing meets starting\<close>

lemma close_waits_for_ever:
  assumes "list_all (\<lambda>(starting, continue, now). starting \<and> continue \<and> started_at + WAIT_TIME_BEFORE_CLOSE < now) polls"
  shows "close_wait started_at polls n = None"
  using assms by (induction polls arbitrary: n) auto

text \<open>
  C33. Closing waits the wrong way round. A session that began to start less than the waiting time ago is given up after one sleep: its
  stream and its runtime are closed, and the start goes on and leaves a controller that nothing closes. A session whose start hangs for
  longer than the waiting time is waited for without end.
\<close>

theorem closing_waits_the_wrong_way:
  assumes "start_begin t new_agent_session = (Inr True, a)" and "close_begin (start_runtime r a) = (True, b)"
    and "now \<le> t + WAIT_TIME_BEFORE_CLOSE" and "start_end (Inr ()) (Inr ()) memory controller notice (close_end b) = (result, final)"
    and "list_all (\<lambda>(starting, continue, later). starting \<and> continue \<and> t + WAIT_TIME_BEFORE_CLOSE < later) hanging"
  shows "close_wait (as_started_at b) ((True, True, now) # polls) 0 = Some 1
    \<and> result = Inr () \<and> as_controller final = Some controller \<and> as_controllers_closed final = [] \<and> as_runtimes_closed final = [r]
    \<and> as_stream_closed final \<and> as_closed final \<and> fst (close_begin final) = False
    \<and> close_wait (as_started_at b) hanging 0 = None"
proof -
  have a: "a = new_agent_session\<lparr>as_starting := True, as_started_at := t\<rparr>"
    using assms(1) by (simp add: start_begin_def new_agent_session_def)
  then have b: "b = new_agent_session\<lparr>as_starting := True, as_started_at := t, as_runtime := Some r, as_closed := True\<rparr>"
    using assms(2) by (simp add: close_begin_def start_runtime_def new_agent_session_def)
  have "result = Inr ()" "final = (close_end b)\<lparr>as_memory := Some memory, as_controller := Some controller, as_starting := False\<rparr>"
    using assms(4) by (simp_all add: start_end_def close_end_def b new_agent_session_def)
  then show ?thesis using assms(3) close_waits_for_ever [OF assms(5)]
    by (simp add: b close_end_def close_begin_def new_agent_session_def)
qed

end
