(* ===== verification/ManagerExamples.thy ===== *)
theory ManagerExamples
  imports WebSessionLaws
begin

text \<open>The theorems on the manager and the session at small runs: two users' conversations, requests that come and go, a client.\<close>

section \<open>Runs of the manager\<close>

definition demo_record :: "string \<Rightarrow> conversation_metadata" where
  "demo_record sid = \<lparr>md_conversation_id = sid, md_selected_repository = None, md_user_id = None, md_selected_branch = None,
     md_git_provider = None, md_title = None, md_last_updated_at = Some (rat_of_nat (of_char (hd sid))), md_trigger = None, md_pr_number = [],
     md_created_at = 0, md_llm_model = None, md_accumulated_cost = 0, md_prompt_tokens = 0, md_completion_tokens = 0, md_total_tokens = 0,
     md_sandbox_id = None, md_conversation_version = None\<rparr>"

definition demo_env :: manager_env where
  "demo_env = \<lparr>me_metadata = (\<lambda>sid. Inr (demo_record sid)), me_set_order = (\<lambda>xs. xs), me_limit = 1, me_close_delay = Some 10\<rparr>"

definition demo_requests :: "manager_step list" where
  "demo_requests = [AttachStep ''s'' None True (Inr ()), JoinStep ''s'' ''k'' (Some ''ann'') 1, AttachStep ''s'' None True (Inr ()),
     AttachStep ''t'' None True (Inr ())]"

definition demo_conversation :: "string \<Rightarrow> nat \<Rightarrow> server_conversation" where
  "demo_conversation sid n = \<lparr>sc_id = n, sc_sid = sid, sc_user = None, sc_stream = n + 1, sc_runtime = n + 2, sc_attach_to_existing = False\<rparr>"

definition demo_end :: "manager_step list" where
  "demo_end = demo_requests @ [DetachStep (demo_conversation ''t'' 4) 2, DetachStep (demo_conversation ''s'' 0) 3]"

lemma demo_env_ok: "0 < me_limit demo_env" "metadata_known (me_metadata demo_env)" "passes_all (me_set_order demo_env)"
  by (auto simp: demo_env_def metadata_known_def passes_all_def demo_record_def)

theorem attached_conversations_stay_open_witness:
  "d_get (active_conversations (sv_manager (serve_all demo_env demo_requests))) ''s'' = Some (demo_conversation ''s'' 0, 2)
    \<and> 2 \<notin> set (closed_runtimes (sv_manager (serve_all demo_env demo_requests)))"
proof -
  have held: "demo_conversation ''s'' 0 \<in> set (sv_held (serve_all demo_env demo_requests))"
    and count: "count_list (sv_held (serve_all demo_env demo_requests)) (demo_conversation ''s'' 0) = 2" by code_simp+
  from attached_conversations_stay_open [OF refl held] count show ?thesis by (simp add: demo_conversation_def numeral_2_eq_2)
qed

theorem cleanup_closes_exactly_the_released_witness:
  "6 \<in> set (closed_runtimes (snd (cleanup_turn (Some 10) 4 (sv_manager (serve_all demo_env demo_end)))))
    \<and> 2 \<notin> set (closed_runtimes (snd (cleanup_turn (Some 10) 4 (sv_manager (serve_all demo_env demo_end)))))"
proof -
  have given: "demo_conversation ''t'' 4 \<in> set (sv_given (serve_all demo_env demo_end))" "demo_conversation ''s'' 0 \<in> set (sv_given (serve_all demo_env demo_end))"
    and held: "demo_conversation ''t'' 4 \<notin> set (sv_held (serve_all demo_env demo_end))" "demo_conversation ''s'' 0 \<in> set (sv_held (serve_all demo_env demo_end))"
    by code_simp+
  have own: "\<not> sc_attach_to_existing (demo_conversation sid n)" for sid n by (simp add: demo_conversation_def)
  from cleanup_closes_exactly_the_released [OF refl given(1) own, of "Some 10" 4]
    cleanup_closes_exactly_the_released [OF refl given(2) own, of "Some 10" 4] held show ?thesis by (simp add: demo_conversation_def numeral_2_eq_2)
qed

definition demo_starts :: "manager_step list" where
  \<comment> \<open>the second start waits, a clean-up comes between, and it goes on\<close>
  "demo_starts = [JoinStep ''s'' ''k'' (Some ''ann'') 1, JoinStep ''t'' ''l'' (Some ''ann'') 2, CleanupStep 3, GoOnStep 0 4, GoOnStep 0 5]"

theorem conversations_stay_within_the_limit_witness:
  "int (length (get_running_agent_loops (Some ''ann'') None (sv_manager (serve_all demo_env demo_starts)))) \<le> 1"
proof -
  have "few_starts 1 (Some ''ann'') demo_env demo_starts" by code_simp
  from conversations_stay_within_the_limit [OF refl demo_env_ok _ this] show ?thesis by (simp add: truthy_user_def demo_env_def)
qed

text \<open>With a limit of one, two starts that both wait close the same loop and both register theirs: two loops run.\<close>

lemma overlapping_starts_exceed_the_limit:
  "get_running_agent_loops (Some ''ann'') None (sv_manager (serve_all demo_env
     [JoinStep ''s'' ''k'' (Some ''ann'') 1, JoinStep ''t'' ''l'' (Some ''ann'') 2, JoinStep ''u'' ''m'' (Some ''ann'') 3,
      GoOnStep 0 4, GoOnStep 1 4, GoOnStep 0 5, GoOnStep 0 5])) = [''t'', ''u'']"
  by code_simp

definition two_loops :: conversation_manager where
  "two_loops = snd (register_session 2 ''b'' (Some ''ann'') (snd (register_session 1 ''a'' (Some ''ann'') new_manager)))"

theorem the_oldest_make_room_witness:
  "\<exists>gone s. card gone = 1 \<and> gone \<subseteq> {''a'', ''b''} \<and> ws_user s = Some ''ann''
    \<and> local_agent_loops (snd (maybe_start_agent_loop (\<lambda>sid. Inr (demo_record sid)) (\<lambda>xs. xs) 2 3 ''c'' (Some ''ann'') two_loops))
      = filter (\<lambda>kv. fst kv \<notin> gone) (local_agent_loops two_loops) @ [(''c'', s)]"
proof -
  let ?start = "maybe_start_agent_loop (\<lambda>sid. Inr (demo_record sid)) (\<lambda>xs. xs) 2 3 ''c'' (Some ''ann'') two_loops"
  have run: "get_running_agent_loops (Some ''ann'') None two_loops = [''a'', ''b'']" "d_get (local_agent_loops two_loops) ''c'' = None"
    "distinct (d_keys (local_agent_loops two_loops))" "is_ok (fst ?start)" by code_simp+
  then obtain info where "?start = (Inr info, snd ?start)" by (cases "fst ?start") (auto simp: prod_eq_iff is_ok_def)
  from the_oldest_make_room [OF _ demo_env_ok(2,3) [unfolded demo_env_def manager_env.simps] run(3,2) this refl] run(1)
  obtain gone s where "gone \<subseteq> {''a'', ''b''}" "card gone = 1" "ws_user s = Some ''ann''"
    "local_agent_loops (snd ?start) = filter (\<lambda>kv. fst kv \<notin> gone) (local_agent_loops two_loops) @ [(''c'', s)]" by fastforce
  then show ?thesis by blast
qed

definition starting_loop :: conversation_manager where
  "starting_loop = snd (register_session 1 ''a'' None new_manager)"

theorem cleanup_closes_the_stream_of_a_running_session_witness:
  "\<exists>m :: conversation_manager. 0 \<in> set (closed_streams m) \<and> map_option ws_stream (d_get (local_agent_loops m) ''a'') = Some 0"
proof -
  obtain s where s: "d_get (local_agent_loops starting_loop) ''a'' = Some s" "ws_runtime s = None" "ws_stream s = 0"
    by (simp add: starting_loop_def register_session_def new_manager_def d_set_def Let_def)
  have "active_conversations starting_loop = []" "detached_conversations starting_loop = []"
    by (simp_all add: starting_loop_def register_session_def new_manager_def Let_def)
  moreover then obtain c m1 where "(Inr (Some c), m1) = attach_to_conversation True (Inr ()) ''a'' None starting_loop"
    by (simp add: attach_to_conversation_def new_server_conversation_def connect_conversation_def Let_def split: option.splits)
  ultimately have "0 \<in> set (closed_streams (cleanup_detached (detach_from_conversation 0 c m1)))
      \<and> map_option ws_stream (d_get (local_agent_loops (cleanup_detached (detach_from_conversation 0 c m1))) ''a'') = Some 0"
    using cleanup_closes_the_stream_of_a_running_session [OF s(1,2) _ _ _ refl, of c m1 None 0] s(3) by simp
  then show ?thesis by blast
qed

section \<open>The client\<close>

definition state_changed :: event where
  "state_changed = new_obs (AgentStateChangedObservation '''' RUNNING '''')"

definition client_data :: dict where
  "client_data = (case event_to_dict null_event of Inr d \<Rightarrow> d | Inl _ \<Rightarrow> [])"

theorem user_event_is_stored_witness:
  "\<exists>c st' e. dispatch_data mem_write mem_list (\<lambda>_. None) ''t'' None client_data
      (c, new_stream ''s'' [] None :: (json mem_store, unit) event_stream) = (Inr (), c, st')
    \<and> stored mem_read (\<lambda>_. None) st' 0 = Some e \<and> ev_source e = Some USER"
proof -
  let ?st = "new_stream ''s'' [] None :: (json mem_store, unit) event_stream"
  have nx: "next_id mem_list ?st = Inr 0" using calculate_cur_id_empty by (simp add: next_id_def new_stream_def)
  have sec: "st_secrets ?st = []" by (simp add: new_stream_def)
  have parse: "event_from_dict (\<lambda>_. None) client_data = Inr null_event" by code_simp
  have ok: "event_ok null_event" "event_id null_event = INVALID_ID" "vision_error None null_event = None"
    by (simp_all add: null_event_def new_action_def event_ok_def event_id_def vision_error_def)
  have "ev_source (stamped 0 (''t'', null_event, USER)) = Some USER" by code_simp
  with user_event_is_stored [OF new_stream_ok nx sec parse ok, of "''t''" undefined] show ?thesis by fastforce
qed

theorem replay_sends_what_was_missed_witness:
  "\<exists>st :: (json mem_store, unit) event_stream. \<exists>ds. replay_events_to_client mem_read mem_list (\<lambda>_. None) (-1) st = (ds, Inr ())
    \<and> length ds = 2 \<and> d_get (ds ! 1) ''observation'' = Some (JStr ''agent_state_changed'')"
proof -
  let ?es = "[(''t0'', state_changed, ENVIRONMENT), (''t1'', sample_cmd\<lparr>ev_id := None\<rparr>, AGENT)]"
  let ?st = "new_stream ''s'' [] None :: (json mem_store, unit) event_stream"
  let ?log = "[stamped 0 (''t0'', state_changed, ENVIRONMENT), stamped 1 (''t1'', sample_cmd\<lparr>ev_id := None\<rparr>, AGENT)]"
  let ?doc = "\<lambda>e. case event_to_dict e of Inr d \<Rightarrow> d | Inl _ \<Rightarrow> []"
  have nx: "next_id mem_list ?st = Inr 0" using calculate_cur_id_empty by (simp add: next_id_def new_stream_def)
  have sec: "st_secrets ?st = []" by (simp add: new_stream_def)
  have "\<forall>(now, e, src) \<in> set ?es. event_ok e \<and> event_id e = INVALID_ID"
    by (simp add: state_changed_def sample_cmd_def event_ok_def new_action_def new_obs_def fresh_def conf_ok_def
        confirmation_of_def confirmation_value_def event_id_def agent_state_ok_def agent_state_of_def agent_state_value_def)
  from mem_events.add_events_log [OF new_stream_ok nx sec this, of "\<lambda>_. None"] obtain st' :: "(json mem_store, unit) event_stream" where
    raw: "stream_ok mem_read mem_list (\<lambda>_. None) st' \<and> next_id mem_list st' = Inr (0 + int (length ?es))
      \<and> (\<forall>i. stored mem_read (\<lambda>_. None) st' i = (if 0 \<le> i \<and> i < 0 + int (length ?es) then Some (stamped i (?es ! nat (i - 0)))
          else stored mem_read (\<lambda>_. None) ?st i))" by blast
  then have st': "stream_ok mem_read mem_list (\<lambda>_. None) st'" "next_id mem_list st' = Inr 2"
    "stored mem_read (\<lambda>_. None) st' 0 = Some (?log ! 0)" "stored mem_read (\<lambda>_. None) st' 1 = Some (?log ! 1)"
    by simp_all
  obtain st2 where cid: "cur_id mem_list st' = Inr (st2, 2)" using st'(2) by (auto simp: cur_id_def next_id_def split: option.splits)
  have "[-1 + 1..2 - 1 :: int] = [0, 1]" by (simp add: upto_rec1)
  then have log: "?log = List.map_filter (stored mem_read (\<lambda>_. None) st') [-1 + 1..2 - 1]" by (simp add: st'(3,4) map_filter_simps)
  have docs: "list_all (\<lambda>e. is_ok (event_to_dict e)) ?log" by code_simp
  have docs': "event_to_dict e = Inr (?doc e)" if "e \<in> set ?log" for e
    using that docs by (cases "event_to_dict e") (auto simp: list_all_iff is_ok_def)
  have store: "store_ok mem_read (\<lambda>_. None) st'" using st'(1) by (simp add: stream_ok_def)
  have "replay_events_to_client mem_read mem_list (\<lambda>_. None) (-1) st'
      = (map ?doc (filter replayed_at_once ?log) @ (if filter (\<lambda>e. is_state_changed (ev_body e)) ?log = [] then []
          else [?doc (last (filter (\<lambda>e. is_state_changed (ev_body e)) ?log))]), Inr ())"
    by (rule replay_sends_what_was_missed [OF store cid log docs' refl])
  moreover have "length (map ?doc (filter replayed_at_once ?log) @ (if filter (\<lambda>e. is_state_changed (ev_body e)) ?log = [] then []
          else [?doc (last (filter (\<lambda>e. is_state_changed (ev_body e)) ?log))])) = 2"
    "d_get ((map ?doc (filter replayed_at_once ?log) @ (if filter (\<lambda>e. is_state_changed (ev_body e)) ?log = [] then []
          else [?doc (last (filter (\<lambda>e. is_state_changed (ev_body e)) ?log))])) ! 1) ''observation'' = Some (JStr ''agent_state_changed'')"
    by code_simp+
  ultimately show ?thesis by blast
qed

theorem closing_waits_the_wrong_way_witness:
  "\<exists>final :: agent_session. as_controller final = Some 7 \<and> as_controllers_closed final = [] \<and> as_runtimes_closed final = [3] \<and> as_closed final
    \<and> close_wait 100 [(True, True, 105), (True, True, 110)] 0 = Some 1 \<and> close_wait 100 [(True, True, 200), (True, True, 205)] 0 = None"
proof -
  let ?a = "new_agent_session\<lparr>as_starting := True, as_started_at := 100\<rparr>"
  let ?b = "?a\<lparr>as_runtime := Some 3, as_closed := True\<rparr>"
  have "start_begin 100 new_agent_session = (Inr True, ?a)" "close_begin (start_runtime 3 ?a) = (True, ?b)"
    by (simp_all add: start_begin_def new_agent_session_def close_begin_def start_runtime_def)
  from closing_waits_the_wrong_way [OF this, of 105 5 7 None _ _ "[(True, True, 200), (True, True, 205)]" "[(True, True, 110)]"]
  have "fst (start_end (Inr ()) (Inr ()) 5 7 None (close_end ?b)) = Inr () \<and> as_controller (snd (start_end (Inr ()) (Inr ()) 5 7 None (close_end ?b))) = Some 7
      \<and> as_controllers_closed (snd (start_end (Inr ()) (Inr ()) 5 7 None (close_end ?b))) = [] \<and> as_runtimes_closed (snd (start_end (Inr ()) (Inr ()) 5 7 None (close_end ?b))) = [3]
      \<and> as_closed (snd (start_end (Inr ()) (Inr ()) 5 7 None (close_end ?b)))
      \<and> close_wait 100 [(True, True, 105), (True, True, 110)] 0 = Some 1 \<and> close_wait 100 [(True, True, 200), (True, True, 205)] 0 = None"
    by (simp add: prod_eq_iff WAIT_TIME_BEFORE_CLOSE_def new_agent_session_def)
  then show ?thesis by blast
qed

end
