(* ===== verification/WorkspaceFiles.thy ===== *)
theory WorkspaceFiles
  imports PatchFiles WebhookLaws
begin

text \<open>
  Files of the workspace: which paths an agent may use, and how files are read and written (\<open>runtime/utils/files.py\<close>, the
  file handlers of \<open>runtime/action_execution_server.py\<close> and of \<open>runtime/impl/cli/cli_runtime.py\<close>).

  The file system has no symbolic links: the real path of a path is what is left when \<open>.\<close> and \<open>..\<close> are carried out. It maps real paths to
  the bytes of files or to directories; the directories above a file are made without being listed, and where a regular file stands above
  the target the error is that of the code. The editor of the agents, the test
  for binary files and the types of media are parameters.
\<close>

section \<open>Paths\<close>

definition is_absolute :: "string \<Rightarrow> bool" where
  "is_absolute path = py_startswith path ''/''"

definition path_parts :: "string \<Rightarrow> string list" where
  \<comment> \<open>the parts of a \<open>Path\<close> without its root\<close>
  "path_parts path = filter (\<lambda>p. p \<noteq> '''' \<and> p \<noteq> ''.'') (py_split (CHR ''/'') path)"

fun resolve_dots :: "string list \<Rightarrow> string list \<Rightarrow> string list" where
  "resolve_dots acc [] = rev acc"
| "resolve_dots acc (p # ps) = (if p = ''..'' then resolve_dots (tl acc) ps else resolve_dots (p # acc) ps)"

definition real_parts :: "string \<Rightarrow> string list" where
  "real_parts path = resolve_dots [] (path_parts path)"

definition path_of :: "string list \<Rightarrow> string" where
  "path_of parts = ''/'' @ py_join ''/'' parts"

definition realpath :: "string \<Rightarrow> string" where
  \<comment> \<open>of an absolute path\<close>
  "realpath path = path_of (real_parts path)"

definition permission_error :: "string \<Rightarrow> py_error" where
  "permission_error why = OtherError ''PermissionError'' why"

definition resolve_path :: "string \<Rightarrow> string \<Rightarrow> string \<Rightarrow> string \<Rightarrow> string res" where
  \<comment> \<open>for an absolute working directory\<close>
  "resolve_path file_path working_directory workspace_base workspace_mount_path_in_sandbox =
     (let path_in_sandbox = (if is_absolute file_path then path_parts file_path else path_parts working_directory @ path_parts file_path);
          abs_path_in_sandbox = resolve_dots [] path_in_sandbox;
          mount = path_parts workspace_mount_path_in_sandbox
      in if \<not> prefix mount abs_path_in_sandbox then Inl (permission_error (''File access not permitted: '' @ file_path))
         else Inr (path_of (path_parts workspace_base @ drop (length mount) abs_path_in_sandbox)))"

section \<open>Lines\<close>

definition select_lines :: "string list \<Rightarrow> int \<Rightarrow> int \<Rightarrow> string list" where
  \<comment> \<open>\<open>read_lines\<close>\<close>
  "select_lines all_lines start stop =
     (let n = int (length all_lines);
          start = min (max start 0) n;
          stop = (if stop = -1 then -1 else max stop 0);
          stop = min stop n
      in if stop = -1 then (if start = 0 then all_lines else py_drop start all_lines)
         else let begin_at = max 0 (min start (n - 2));
                  stop = (if stop > n then -1 else max (begin_at + 1) stop)
              in py_slice begin_at stop all_lines)"

definition insert_lines :: "string list \<Rightarrow> string list \<Rightarrow> int \<Rightarrow> int \<Rightarrow> string list" where
  "insert_lines to_insert original start stop =
     (if start = 0 then [''''] else py_take start original) @ map (\<lambda>i. i @ [nl]) to_insert
       @ (if stop = -1 then [''''] else py_drop stop original)"

section \<open>Reading and writing\<close>

datatype fs_node = FsFile string | FsDirectory

type_synonym file_system = "string \<Rightarrow> fs_node option"

fun universal_newlines :: "string \<Rightarrow> string" where
  \<comment> \<open>of a file that is opened as text\<close>
  "universal_newlines [] = []"
| "universal_newlines [c] = [if c = CHR 0x0D then nl else c]"
| "universal_newlines (c # d # s) =
     (if c = CHR 0x0D then (if d = nl then nl # universal_newlines s else nl # universal_newlines (d # s)) else c # universal_newlines (d # s))"

definition readlines :: "string \<Rightarrow> string list option" where
  \<comment> \<open>\<open>None\<close>: the bytes are no text\<close>
  "readlines bytes = map_option (\<lambda>t. lines_at [nl] (universal_newlines t)) (utf8_decode bytes)"

definition file_error :: "string \<Rightarrow> observation" where
  "file_error content = ErrorObservation content ''''"

definition file_read :: "string \<Rightarrow> string \<Rightarrow> observation" where
  "file_read path content = FileReadObservation content path READ_DEFAULT"

definition is_file :: "fs_node option \<Rightarrow> bool" where
  "is_file node = (case node of Some (FsFile _) \<Rightarrow> True | _ \<Rightarrow> False)"

definition file_above :: "file_system \<Rightarrow> string \<Rightarrow> nat option" where
  \<comment> \<open>how many parts of the path lead to a file, although more follow: nothing can be there\<close>
  "file_above fs path = find (\<lambda>k. is_file (fs (path_of (take k (path_parts path))))) [0..<length (path_parts path)]"

definition not_a_directory :: "string \<Rightarrow> py_error" where
  "not_a_directory path = OtherError ''NotADirectoryError'' (''[Errno 20] Not a directory: '' @ py_repr_str path)"

definition made_below :: "nat \<Rightarrow> string \<Rightarrow> string" where
  \<comment> \<open>the first directory, or the file itself, that cannot be made\<close>
  "made_below k path = path_of (take (Suc k) (path_parts path))"

definition read_file :: "file_system \<Rightarrow> string \<Rightarrow> string \<Rightarrow> string \<Rightarrow> string \<Rightarrow> int \<Rightarrow> int \<Rightarrow> observation res" where
  "read_file fs path workdir workspace_base mount start stop =
     (case resolve_path path workdir workspace_base mount of
        Inl _ \<Rightarrow> Inr (file_error (''You're not allowed to access this path: '' @ path @ ''. You can only access paths inside the workspace.''))
      | Inr whole_path \<Rightarrow> if file_above fs whole_path \<noteq> None then Inl (not_a_directory whole_path) else Inr (case fs whole_path of
          None \<Rightarrow> file_error (''File not found: '' @ path)
        | Some FsDirectory \<Rightarrow> file_error (''Path is a directory: '' @ path @ ''. You can only read files'')
        | Some (FsFile bytes) \<Rightarrow> (case readlines bytes of
            None \<Rightarrow> file_error (''File could not be decoded as utf-8: '' @ path)
          | Some all_lines \<Rightarrow> file_read path (concat (select_lines all_lines start stop)))))"

definition new_contents :: "fs_node option \<Rightarrow> string list \<Rightarrow> int \<Rightarrow> int \<Rightarrow> string + string" where
  \<comment> \<open>what is written to a file; \<open>Inl\<close>: the exception\<close>
  "new_contents node inserted start stop = (case node of
       None \<Rightarrow> Inr (concat (map (\<lambda>i. i @ [nl]) inserted))
     | Some FsDirectory \<Rightarrow> Inl ''IsADirectoryError''
     | Some (FsFile bytes) \<Rightarrow> (case readlines bytes of
         None \<Rightarrow> Inl ''UnicodeDecodeError''
       | Some all_lines \<Rightarrow> Inr (concat (insert_lines inserted all_lines start stop))))"

definition write_file :: "string \<Rightarrow> string \<Rightarrow> string \<Rightarrow> string \<Rightarrow> string \<Rightarrow> int \<Rightarrow> int \<Rightarrow> file_system \<Rightarrow> observation res \<times> file_system" where
  "write_file path workdir workspace_base mount content start stop fs =
     (case resolve_path path workdir workspace_base mount of
        Inl _ \<Rightarrow> (Inr (file_error (''Permission error on '' @ path @ '': File access not permitted: '' @ path)), fs)
      | Inr whole_path \<Rightarrow> (case file_above fs whole_path of
          Some k \<Rightarrow> (Inl (not_a_directory (made_below k whole_path)), fs)
        | None \<Rightarrow> (case new_contents (fs whole_path) (py_split nl content) start stop of
            Inl e \<Rightarrow> (Inr (file_error (if e = ''IsADirectoryError'' then ''Path is a directory: '' @ path @ ''. You can only write to files''
                        else ''File could not be decoded as utf-8: '' @ path)), fs)
          | Inr t \<Rightarrow> (Inr (FileWriteObservation '''' path), fs(whole_path \<mapsto> FsFile (utf8_encode t))))))"

section \<open>In the sandbox\<close>

definition executor_resolve_path :: "string \<Rightarrow> string \<Rightarrow> string" where
  \<comment> \<open>\<open>_resolve_path\<close>\<close>
  "executor_resolve_path path working_dir =
     (if is_absolute path then path_of (path_parts path) else path_of (path_parts working_dir @ path_parts path))"

record file_tools =
  ft_is_binary :: "string \<Rightarrow> bool"
  ft_editor_view :: "string \<Rightarrow> int list option \<Rightarrow> string"
  ft_guess_type :: "string \<Rightarrow> string option"

definition ends_with_any :: "string \<Rightarrow> string list \<Rightarrow> bool" where
  "ends_with_any s endings = list_ex (py_endswith s) endings"

definition media_type :: "file_tools \<Rightarrow> string \<Rightarrow> string option" where
  \<comment> \<open>of files that are shown as data and not as text\<close>
  "media_type T filepath =
     (let name = py_lower filepath; guessed = (\<lambda>default. case ft_guess_type T filepath of None \<Rightarrow> default | Some t \<Rightarrow> t) in
      if ends_with_any name [''.png'', ''.jpg'', ''.jpeg'', ''.bmp'', ''.gif''] then Some (guessed ''image/png'')
      else if py_endswith name ''.pdf'' then Some ''application/pdf''
      else if ends_with_any name [''.mp4'', ''.webm'', ''.ogg''] then Some (guessed ''video/mp4'')
      else None)"

definition executor_read :: "file_tools \<Rightarrow> file_system \<Rightarrow> string \<Rightarrow> file_read_action \<Rightarrow> observation res" where
  "executor_read T fs working_dir action =
     (if ft_is_binary T (fr_path action) then Inr (file_error ''ERROR_BINARY_FILE'')
      else if fr_impl_source action = READ_OH_ACI
      then Inr (FileReadObservation (ft_editor_view T (fr_path action) (fr_view_range action)) (fr_path action) READ_OH_ACI)
      else let filepath = executor_resolve_path (fr_path action) working_dir in
        if file_above fs (realpath filepath) \<noteq> None then Inl (not_a_directory filepath)
        else Inr (case fs (realpath filepath) of
           None \<Rightarrow> file_error (''File not found: '' @ filepath @ ''. Your current working directory is '' @ working_dir @ ''.'')
         | Some FsDirectory \<Rightarrow> file_error (''Path is a directory: '' @ filepath @ ''. You can only read files'')
         | Some (FsFile bytes) \<Rightarrow> (case media_type T filepath of
             Some mime_type \<Rightarrow> file_read filepath (''data:'' @ mime_type @ '';base64,'' @ base64_encode bytes)
           | None \<Rightarrow> (case readlines bytes of
               None \<Rightarrow> file_error (''File could not be decoded as utf-8: '' @ filepath @ ''.'')
             | Some all_lines \<Rightarrow> file_read filepath (concat (select_lines all_lines (fr_start action) (fr_end action)))))))"

definition executor_write :: "string option \<Rightarrow> string \<Rightarrow> file_write_action \<Rightarrow> file_system \<Rightarrow> observation res \<times> file_system" where
  \<comment> \<open>\<open>denied\<close> is why the permissions could not be changed, if so\<close>
  "executor_write denied working_dir action fs =
     (let filepath = executor_resolve_path (fw_path action) working_dir in
      case file_above fs (realpath filepath) of
        Some k \<Rightarrow> (Inl (not_a_directory (made_below k (realpath filepath))), fs)
      | None \<Rightarrow> (case new_contents (fs (realpath filepath)) (py_split nl (fw_content action)) (fw_start action) (fw_end action) of
          Inl e \<Rightarrow> (Inr (file_error (if e = ''IsADirectoryError'' then ''Path is a directory: '' @ filepath @ ''. You can only write to files''
                      else ''File could not be decoded as utf-8: '' @ filepath)), fs)
        | Inr t \<Rightarrow>
            (Inr (case denied of
                None \<Rightarrow> FileWriteObservation '''' filepath
              | Some e \<Rightarrow> file_error (''File '' @ filepath @ '' written, but failed to change ownership and permissions: '' @ e)),
             fs(realpath filepath \<mapsto> FsFile (utf8_encode t)))))"

section \<open>On the user's machine\<close>

definition sanitize_filename :: "string \<Rightarrow> string \<Rightarrow> string res" where
  \<comment> \<open>\<open>_sanitize_filename\<close> of the runtime without a sandbox\<close>
  "sanitize_filename workspace_path filename =
     (if py_startswith filename ''/'' \<and> \<not> py_startswith filename ''/workspace/'' \<and> filename \<noteq> ''/workspace'' \<and> \<not> py_startswith filename workspace_path
      then Inl (permission_error (''Invalid path: '' @ filename @ ''. You can only work with files in '' @ workspace_path @ ''.''))
      else
        let actual_filename =
              (if filename = ''/workspace'' then workspace_path
               else if py_startswith filename ''/workspace/'' then os_path_join workspace_path (drop (length ''/workspace/'') filename)
               else if py_startswith filename ''/'' then filename
               else os_path_join workspace_path (dropWhile (\<lambda>c. c = CHR ''/'') filename));
            resolved_path = realpath actual_filename
        in if \<not> py_startswith resolved_path workspace_path
           then Inl (permission_error (''Invalid path traversal: '' @ filename @ ''. Path resolves outside the workspace. Resolved: ''
             @ resolved_path @ '', Workspace: '' @ workspace_path))
           else Inr resolved_path)"

definition cli_read :: "file_tools \<Rightarrow> (string \<Rightarrow> string) \<Rightarrow> bool \<Rightarrow> string \<Rightarrow> file_system \<Rightarrow> file_read_action \<Rightarrow> observation res" where
  \<comment> \<open>\<open>decode\<close> replaces what is no text\<close>
  "cli_read T decode initialized workspace_path fs action =
     (if \<not> initialized then Inr (file_error ''Runtime not initialized'')
      else bind_res (sanitize_filename workspace_path (fr_path action)) (\<lambda>file_path. Inr (
        if fr_impl_source action = READ_OH_ACI
        then FileReadObservation (ft_editor_view T file_path (fr_view_range action)) (fr_path action) READ_OH_ACI
        else case fs file_path of
            None \<Rightarrow> file_error (''File not found: '' @ fr_path action)
          | Some FsDirectory \<Rightarrow> file_error (''Cannot read directory: '' @ fr_path action)
          | Some (FsFile bytes) \<Rightarrow>
              if ft_is_binary T file_path then file_error ''ERROR_BINARY_FILE''
              else file_read (fr_path action) (universal_newlines (decode bytes)))))"

definition cli_write :: "bool \<Rightarrow> string \<Rightarrow> file_write_action \<Rightarrow> file_system \<Rightarrow> observation res \<times> file_system" where
  "cli_write initialized workspace_path action fs =
     (if \<not> initialized then (Inr (file_error ''Runtime not initialized''), fs)
      else case sanitize_filename workspace_path (fw_path action) of
          Inl e \<Rightarrow> (Inl e, fs)
        | Inr file_path \<Rightarrow>
            let failed = (\<lambda>why. (Inr (file_error (''Error writing to file '' @ fw_path action @ '': '' @ why)), fs)) in
            (case file_above fs file_path of
               Some k \<Rightarrow>
                 if Suc k = length (path_parts file_path)
                 then failed (''[Errno 17] File exists: '' @ py_repr_str (path_of (take k (path_parts file_path))))
                 else failed (''[Errno 20] Not a directory: '' @ py_repr_str (made_below k file_path))
             | None \<Rightarrow>
                 if fs file_path = Some FsDirectory then failed (''[Errno 21] Is a directory: '' @ py_repr_str file_path)
                 else (Inr (FileWriteObservation '''' (fw_path action)), fs(file_path \<mapsto> FsFile (utf8_encode (fw_content action))))))"

end
