(* ===== verification/WorkspaceLaws.thy ===== *)
theory WorkspaceLaws
  imports WorkspaceFiles
begin

text \<open>
  What holds of the files of the workspace: where the checked paths lead, and what a file holds after it was written.
\<close>

section \<open>Parts of paths\<close>

definition plain_part :: "string \<Rightarrow> bool" where
  "plain_part p \<longleftrightarrow> p \<noteq> '''' \<and> p \<noteq> ''.'' \<and> CHR ''/'' \<notin> set p"

lemma split_append_sep: "py_split c (a @ c # b) = py_split c a @ py_split c b"
proof (induction a)
  case (Cons x a)
  obtain w ws where "py_split c a = w # ws" by (cases "py_split c a") auto
  with Cons show ?case by simp
qed simp

lemma path_parts_append: "path_parts (a @ CHR ''/'' # b) = path_parts a @ path_parts b"
  by (simp add: path_parts_def split_append_sep)

lemma path_parts_slash: "path_parts (CHR ''/'' # b) = path_parts b"
  using path_parts_append [of "[]" b] by (simp add: path_parts_def)

lemma plain_path_parts: "list_all plain_part (path_parts s)"
  using py_split_no_sep by (auto simp: path_parts_def plain_part_def list_all_iff)

lemma path_parts_path_of:
  assumes "list_all plain_part ps"
  shows "path_parts (path_of ps) = ps"
proof (cases "ps = []")
  case False
  with assms have "py_split (CHR ''/'') (py_join ''/'' ps) = ps"
    by (intro py_split_join) (auto simp: list_all_iff plain_part_def)
  moreover have "filter (\<lambda>p. p \<noteq> '''' \<and> p \<noteq> ''.'') ps = ps"
    using assms by (auto simp: filter_id_conv list_all_iff plain_part_def)
  ultimately have "path_parts (py_join ''/'' ps) = ps" by (simp only: path_parts_def)
  then show ?thesis by (simp add: path_of_def path_parts_slash)
qed (simp add: path_of_def path_parts_def)

lemma path_parts_join:
  "path_parts (os_path_join a b) = (if is_absolute b then path_parts b else path_parts a @ path_parts b)"
proof -
  have ends: "py_endswith a ''/'' \<longleftrightarrow> (\<exists>a'. a = a' @ ''/'')"
    by (auto simp: py_endswith_def) (metis append_take_drop_id)
  show ?thesis
  proof (cases "is_absolute b \<or> a = []")
    case True
    then show ?thesis by (auto simp: os_path_join_def is_absolute_def path_parts_def)
  next
    case False
    show ?thesis
    proof (cases "py_endswith a ''/''")
      case True
      then obtain a' where "a = a' @ ''/''" using ends by auto
      then show ?thesis using False True path_parts_append [of a' b] path_parts_append [of a' "[]"]
        by (simp add: os_path_join_def is_absolute_def) (simp add: path_parts_def)
    qed (use False in \<open>simp add: os_path_join_def is_absolute_def path_parts_append\<close>)
  qed
qed

section \<open>Dots\<close>

lemma resolve_dots_append: "resolve_dots acc (a @ b) = resolve_dots (rev (resolve_dots acc a)) b"
  by (induction acc a rule: resolve_dots.induct) auto

lemma resolve_dots_plain: "''..'' \<notin> set ps \<Longrightarrow> resolve_dots acc ps = rev acc @ ps"
  by (induction ps arbitrary: acc) auto

lemma set_tl: "x \<in> set (tl xs) \<Longrightarrow> x \<in> set xs"
  by (cases xs) auto

lemma resolve_dots_no_dots: "''..'' \<notin> set acc \<Longrightarrow> ''..'' \<notin> set (resolve_dots acc ps)"
  by (induction acc ps rule: resolve_dots.induct) (auto dest: set_tl)

lemma resolve_dots_subset: "set (resolve_dots acc ps) \<subseteq> set acc \<union> set ps"
  by (induction acc ps rule: resolve_dots.induct) (auto dest: set_tl)

lemma plain_real_parts: "list_all plain_part (real_parts s)"
  using resolve_dots_subset [of "[]" "path_parts s"] plain_path_parts [of s] by (auto simp: real_parts_def list_all_iff)

lemma real_parts_realpath: "real_parts (realpath s) = real_parts s"
  using resolve_dots_no_dots [of "[]" "path_parts s"]
  by (simp add: realpath_def real_parts_def path_parts_path_of [OF plain_real_parts [unfolded real_parts_def]] resolve_dots_plain)

section \<open>Checked paths\<close>

lemma resolve_path_cases:
  "resolve_path f wd base mount = (case prefix (path_parts mount) (real_parts (os_path_join wd f)) of
     False \<Rightarrow> Inl (permission_error (''File access not permitted: '' @ f))
   | True \<Rightarrow> Inr (path_of (path_parts base @ drop (length (path_parts mount)) (real_parts (os_path_join wd f)))))"
  by (simp add: resolve_path_def real_parts_def path_parts_join Let_def)

text \<open>
  C37. A path that is let through lies in the mounted workspace of the sandbox once its dots are carried out, and the path on the host
  that is used for it lies as far below the base of the workspace: no dots lead out of it.
\<close>

theorem resolve_path_stays_inside:
  assumes "resolve_path f wd base mount = Inr p"
  shows "\<exists>rel. real_parts (os_path_join wd f) = path_parts mount @ rel \<and> real_parts p = real_parts base @ rel"
proof -
  let ?abs = "real_parts (os_path_join wd f)"
  from assms have "prefix (path_parts mount) ?abs" by (cases "prefix (path_parts mount) ?abs") (simp_all add: resolve_path_cases)
  then obtain rel where rel: "?abs = path_parts mount @ rel" by (auto simp: prefix_def)
  then have p: "p = path_of (path_parts base @ rel)" using assms by (simp add: resolve_path_cases)
  have "''..'' \<notin> set rel" and "list_all plain_part rel"
    using rel resolve_dots_no_dots [of "[]" "path_parts (os_path_join wd f)"] plain_real_parts [of "os_path_join wd f"]
    by (auto simp: real_parts_def)
  then have "real_parts p = real_parts base @ rel"
    using plain_path_parts [of base]
    by (simp add: p real_parts_def path_parts_path_of resolve_dots_append resolve_dots_plain)
  with rel show ?thesis by blast
qed

lemma path_of_append: "a \<noteq> [] \<Longrightarrow> b \<noteq> [] \<Longrightarrow> path_of (a @ b) = path_of a @ path_of b"
proof (induction a)
  case (Cons x xs)
  then show ?case by (cases "xs = []") (simp_all add: path_of_def py_join_Cons)
qed simp

text \<open>
  C38. The check of the runtime without a sandbox compares strings: a path beside the workspace whose name starts like the
  workspace is let through, with all that is below it.
\<close>

theorem sibling_of_the_workspace_is_accepted:
  assumes "realpath ws = ws" and "realpath f = f" and "f = ws @ c # rest" and "c \<noteq> CHR ''/''" and "ws \<noteq> ''/''"
    and "\<not> py_startswith f ''/workspace/''" and "f \<noteq> ''/workspace''"
  shows "sanitize_filename ws f = Inr f \<and> \<not> prefix (real_parts ws) (real_parts f)"
proof
  have start: "\<exists>x. ws = CHR ''/'' # x" using assms(1) by (metis append_Cons append_Nil path_of_def realpath_def)
  show "sanitize_filename ws f = Inr f" using assms(2-) start by (auto simp: sanitize_filename_def py_startswith_def Let_def)
  show "\<not> prefix (real_parts ws) (real_parts f)"
  proof
    assume "prefix (real_parts ws) (real_parts f)"
    then obtain r where r: "real_parts f = real_parts ws @ r" by (auto simp: prefix_def)
    have ws: "ws = path_of (real_parts ws)" and f: "f = path_of (real_parts ws @ r)"
      using assms(1,2) r by (simp_all add: realpath_def)
    have "real_parts ws \<noteq> []" using ws assms(5) by (auto simp: path_of_def)
    moreover have "r \<noteq> []" using ws f assms(3) by auto
    ultimately have "f = ws @ path_of r" using ws f path_of_append by metis
    then show False using assms(3,4) by (simp add: path_of_def)
  qed
qed

text \<open>
  What passes starts like the workspace; so nothing passes when the workspace is named by a relative path.
\<close>

lemma sanitized_starts_like_the_workspace: "sanitize_filename ws f = Inr p \<Longrightarrow> py_startswith p ws \<and> (\<exists>x. p = ''/'' @ x)"
  by (auto simp: sanitize_filename_def Let_def realpath_def path_of_def split: if_splits)

lemma relative_workspace_denies_everything:
  assumes "ws \<noteq> []" and "\<not> is_absolute ws"
  shows "\<exists>e. sanitize_filename ws f = Inl e"
proof (cases "sanitize_filename ws f")
  case (Inr p)
  then show ?thesis using sanitized_starts_like_the_workspace [OF Inr] assms
    by (cases ws) (auto simp: is_absolute_def py_startswith_def)
qed blast

section \<open>Texts\<close>

lemma utf8_encode_decode [simp]: "utf8_decode (utf8_encode s) = Some s"
proof (induction s)
  case (Cons c s)
  define n where "n = (of_char c :: nat)"
  have n: "n < 256" and c: "c = char_of n" by (simp_all add: n_def)
  show ?case
  proof (cases "n < 128")
    case False
    then obtain k where k: "n = 128 + k" "k < 128" using n le_Suc_ex [of 128 n] by auto
    have "192 + n div 64 = 194 + k div 64" "k div 64 < 2" "128 + n mod 64 = 128 + k mod 64"
      using k mod_mult_self1 [of k 2 64] by (auto simp: add.commute)
    then show ?thesis using Cons False n div_mult_mod_eq [of n 64]
      by (simp add: utf8_encode_def utf8_char_def n_def [symmetric] Let_def) (auto simp: c)
  qed (use Cons in \<open>simp add: utf8_encode_def utf8_char_def n_def\<close>)
qed (simp add: utf8_encode_def)

lemma universal_newlines_unix: "CHR 0x0D \<notin> set s \<Longrightarrow> universal_newlines s = s"
  by (induction s rule: universal_newlines.induct) auto

lemma concat_lines_at: "sep \<noteq> [] \<Longrightarrow> concat (lines_at sep s) = s"
proof (induction sep s rule: lines_at.induct)
  case (1 sep s)
  then show ?case by (subst lines_at.simps) (auto split: option.splits dest!: py_partition_eq)
qed

lemma split_and_broken: "concat (map (\<lambda>i. i @ [nl]) (py_split nl s)) = s @ [nl]"
proof (induction s)
  case (Cons c s)
  obtain w ws where "py_split nl s = w # ws" by (cases "py_split nl s") auto
  with Cons show ?case by auto
qed simp

section \<open>Whole files\<close>

lemma whole_text: "CHR 0x0D \<notin> set s \<Longrightarrow> \<exists>ls. readlines (utf8_encode s) = Some ls \<and> concat ls = s"
  by (simp add: readlines_def universal_newlines_unix concat_lines_at)

lemma all_lines: "select_lines ls 0 (-1) = ls"
  by (simp add: select_lines_def)

definition is_text_node :: "fs_node option \<Rightarrow> bool" where
  \<comment> \<open>what can be written to\<close>
  "is_text_node node = (case node of None \<Rightarrow> True | Some FsDirectory \<Rightarrow> False | Some (FsFile bytes) \<Rightarrow> readlines bytes \<noteq> None)"

lemma whole_contents: "is_text_node node \<Longrightarrow> new_contents node (py_split nl s) 0 (-1) = Inr (s @ [nl])"
  by (auto simp: new_contents_def is_text_node_def insert_lines_def split_and_broken split: option.splits fs_node.splits)

lemma made_path_differs:
  assumes "k < length (path_parts p)"
  shows "path_of (take k (path_parts p)) \<noteq> p"
proof
  assume "path_of (take k (path_parts p)) = p"
  moreover have "list_all plain_part (take k (path_parts p))"
    using plain_path_parts [of p] by (auto simp: list_all_iff dest: in_set_takeD)
  ultimately have "path_parts p = take k (path_parts p)" using path_parts_path_of by metis
  from arg_cong [OF this, of length] have "length (path_parts p) = min (length (path_parts p)) k" unfolding length_take .
  with assms show False by simp
qed

lemma file_above_after_write: "file_above (fs(p \<mapsto> node)) p = file_above fs p"
proof -
  have "is_file ((fs(p \<mapsto> node)) (path_of (take k (path_parts p)))) = is_file (fs (path_of (take k (path_parts p))))"
    if "k \<in> set [0..<length (path_parts p)]" for k using that made_path_differs by simp
  then show ?thesis unfolding file_above_def by (rule find_cong [OF refl])
qed

text \<open>
  C39. Writing a whole file and reading it back gives the content with one more line break, and no other file changes; so a file that
  is read and written back grows each time. No regular file stands above the target, which is new or a text, and the content has no carriage
  return.
\<close>

theorem a_written_file_has_one_line_break_more:
  assumes "resolve_path path wd base mount = Inr p" and "is_text_node (fs p)" and "file_above fs p = None" and "CHR 0x0D \<notin> set content"
  shows "\<exists>fs'. write_file path wd base mount content 0 (-1) fs = (Inr (FileWriteObservation '''' path), fs')
    \<and> read_file fs' path wd base mount 0 (-1) = Inr (file_read path (content @ [nl])) \<and> (\<forall>q. q \<noteq> p \<longrightarrow> fs' q = fs q)"
proof -
  obtain ls where ls: "readlines (utf8_encode (content @ [nl])) = Some ls" "concat ls = content @ [nl]"
    using whole_text [of "content @ [nl]"] assms(4) by (auto simp: nl_def)
  have "write_file path wd base mount content 0 (-1) fs
      = (Inr (FileWriteObservation '''' path), fs(p \<mapsto> FsFile (utf8_encode (content @ [nl]))))"
    using assms whole_contents by (simp add: write_file_def)
  moreover have "read_file (fs(p \<mapsto> FsFile (utf8_encode (content @ [nl])))) path wd base mount 0 (-1) = Inr (file_read path (content @ [nl]))"
    using assms(1,3) ls by (simp add: read_file_def all_lines file_above_after_write)
  ultimately show ?thesis by auto
qed

text \<open>Where a regular file stands above the target, the exception leaves the function, and no file changes.\<close>

lemma nothing_is_written_below_a_file:
  "resolve_path path wd base mount = Inr p \<Longrightarrow> file_above fs p = Some k \<Longrightarrow>
     write_file path wd base mount content a b fs = (Inl (not_a_directory (made_below k p)), fs)"
  by (simp add: write_file_def)

lemma last_line_alone: "2 \<le> length ls \<Longrightarrow> select_lines ls (int (length ls) - 1) (int (length ls)) = drop (length ls - 2) ls"
  by (auto simp: select_lines_def py_slice_def py_clamp_def Let_def nat_diff_distrib)

text \<open>
  The runtime on the user's machine writes the content as it is, and over the whole file, whatever lines are named.
\<close>

lemma cli_write_ignores_the_lines:
  "cli_write initialized ws (action\<lparr>fw_start := a, fw_end := b\<rparr>) fs = cli_write initialized ws action fs"
  by (cases "sanitize_filename ws (fw_path action)"; cases action) (auto simp: cli_write_def Let_def split: option.split)

lemma cli_written_is_read:
  assumes "cli_write True ws action fs = (Inr (FileWriteObservation '''' (fw_path action)), fs')" and "CHR 0x0D \<notin> set (fw_content action)"
    and "fr_path reading = fw_path action" and "fr_impl_source reading \<noteq> READ_OH_ACI"
    and "\<And>s. decode (utf8_encode s) = s" and "\<And>p. \<not> ft_is_binary T p"
  shows "cli_read T decode True ws fs' reading = Inr (file_read (fw_path action) (fw_content action))"
  using assms by (auto simp: cli_write_def cli_read_def universal_newlines_unix file_error_def Let_def split: sum.splits if_splits option.splits)

section \<open>Examples\<close>

lemma resolve_path_stays_inside_witness:
  "resolve_path ''src/../a.py'' ''/workspace/repo'' ''/home/u/w'' ''/workspace'' = Inr ''/home/u/w/repo/a.py''
   \<and> (\<exists>rel. real_parts (os_path_join ''/workspace/repo'' ''src/../a.py'') = path_parts ''/workspace'' @ rel
        \<and> real_parts ''/home/u/w/repo/a.py'' = real_parts ''/home/u/w'' @ rel)"
proof -
  have "resolve_path ''src/../a.py'' ''/workspace/repo'' ''/home/u/w'' ''/workspace'' = Inr ''/home/u/w/repo/a.py''" by code_simp
  with resolve_path_stays_inside [OF this] show ?thesis by blast
qed

lemma sibling_of_the_workspace_is_accepted_witness:
  "sanitize_filename ''/home/u/work'' ''/home/u/work-secret/key'' = Inr ''/home/u/work-secret/key''
   \<and> \<not> prefix (real_parts ''/home/u/work'') (real_parts ''/home/u/work-secret/key'')"
proof (rule sibling_of_the_workspace_is_accepted)
  show "realpath ''/home/u/work'' = ''/home/u/work''" by code_simp
  show "realpath ''/home/u/work-secret/key'' = ''/home/u/work-secret/key''" by code_simp
qed (simp_all add: py_startswith_def, code_simp?)

lemma a_written_file_has_one_line_break_more_witness:
  "\<exists>fs'. write_file ''a.txt'' ''/w'' ''/h'' ''/w'' [CHR ''x''] 0 (-1) (\<lambda>_. None) = (Inr (FileWriteObservation '''' ''a.txt''), fs')
    \<and> read_file fs' ''a.txt'' ''/w'' ''/h'' ''/w'' 0 (-1) = Inr (file_read ''a.txt'' [CHR ''x'', nl])"
proof -
  have "resolve_path ''a.txt'' ''/w'' ''/h'' ''/w'' = Inr ''/h/a.txt''" by code_simp
  moreover have "file_above (\<lambda>_. None) ''/h/a.txt'' = None" by code_simp
  ultimately show ?thesis
    using a_written_file_has_one_line_break_more [of "''a.txt''" "''/w''" "''/h''" "''/w''" "''/h/a.txt''" "\<lambda>_. None" "[CHR ''x'']"]
    by (auto simp: is_text_node_def)
qed

lemma outside_is_refused: "resolve_path ''../../etc/passwd'' ''/workspace/repo'' ''/h'' ''/workspace''
    = Inl (permission_error ''File access not permitted: ../../etc/passwd'')"
  by code_simp

end
