(* ===== verification/Spec2Isabelle.thy ===== *)
theory Spec2Isabelle
  imports ControlFlags CondenserLaws StuckLaws HistoryLaws CodeActExamples RecallExamples FnCallExamples BashExamples PatchExamples WebhookExamples ManagerExamples
    WorkspaceLaws
begin

text \<open>
  A model of the core of the OpenHands agent platform (\<open>src/OpenHands/openhands\<close>, Python), with the theorems that make it
  correct. Paths below are under that directory.

  \<^bold>\<open>The program.\<close> A conversation is a log of events, actions and observations, in an event stream that stores every event as
  a file and hands it to its subscribers. The agent controller subscribes to the stream: it keeps the history, moves the agent
  between its states, asks the agent for one action at a time, gates actions that need the user's confirmation and runs
  delegates. The agent reads the history through a view, a condenser and the conversation memory, asks a language model and
  turns the response into actions. The runtime executes the actions it hears and publishes observations, which bring the
  controller to the next step.

  \<^bold>\<open>The theories\<close>, in the order of the code, each with the code it follows; a definition has the name of its function, method
  or class wherever the logic allows it.

  \<^item> \<open>Prelude\<close>, \<open>Json\<close>: exceptions and results, Python's lists, strings, numbers and dictionaries; \<open>Texts\<close>: searching in
    texts. \<open>Effects\<close>: computations that change a state and may raise, and invariants of them (\<open>keeps\<close>, with the rules \<open>keep\<close>).
  \<^item> \<open>Metrics\<close> (\<open>llm/metrics.py\<close>, \<open>server/services/conversation_stats.py\<close>), \<open>ControlFlags\<close>
    (\<open>controller/state/control_flags.py\<close>): cost and token accounting, iteration and budget limits.
  \<^item> \<open>Events\<close>, \<open>EventOps\<close> (\<open>events/event.py\<close>, \<open>events/action\<close>, \<open>events/observation\<close>): all classes of events as records and
    datatypes, with their texts, truncation and equality. \<open>Serialization\<close>, \<open>Deserialization\<close>, \<open>Roundtrip\<close>
    (\<open>events/serialization\<close>): both directions and the round trip.
  \<^item> \<open>FileStore\<close> (\<open>storage\<close>): the interface as the locale \<open>file_store\<close>, interpreted on the in-memory store.
    \<open>EventFilter\<close>, \<open>EventStore\<close>, \<open>EventStream\<close> (\<open>events/event_filter.py\<close>, \<open>events/event_store.py\<close>, \<open>events/stream.py\<close>): paged
    search, ids, the write path with its secrets, and the queue of the subscribers.
  \<^item> \<open>View\<close>, \<open>Condensers\<close>, \<open>CondenserLaws\<close> (\<open>memory/view.py\<close>, \<open>memory/condenser\<close>): what a condensation hides, and the strategies.
  \<^item> \<open>Stuck\<close>, \<open>StuckLaws\<close> (\<open>controller/stuck.py\<close>), \<open>State\<close>, \<open>StateTracker\<close>, \<open>HistoryLaws\<close> (\<open>controller/state\<close>), \<open>Replay\<close>
    (\<open>controller/replay.py\<close>): the detector of loops, saving and loading of the state and its history, replays.
  \<^item> \<open>Controller\<close>, \<open>ControllerLaws\<close>, \<open>DelegateLaws\<close> (\<open>controller/agent_controller.py\<close>): every handler, over a world of the
    stream, the shared flags and the chain of controllers. \<open>Runtime\<close> (\<open>runtime/base.py\<close>): the handling of an event
    by the runtime, up to the execution itself. \<open>ControllerExamples\<close>, \<open>GateExamples\<close>: a conversation on which they run.
  \<^item> \<open>Messages\<close> (\<open>core/message.py\<close>), \<open>ConversationMemory\<close>, \<open>MemoryLaws\<close>, \<open>MemoryExamples\<close> (\<open>memory/conversation_memory.py\<close>): from
    events to the messages for the model. \<open>Microagents\<close> (\<open>microagent\<close>), \<open>Recall\<close>, \<open>RecallExamples\<close> (\<open>memory/memory.py\<close>): knowledge
    in files, and the service that answers the recalls of the stream with it.
  \<^item> \<open>FunctionCalling\<close>, \<open>CallLaws\<close> (\<open>agenthub/codeact_agent/function_calling.py\<close>), \<open>ReaderCalls\<close>
    (\<open>agenthub/readonly_agent\<close>, \<open>agenthub/loc_agent\<close>): from the response of the model to actions. \<open>CodeAct\<close>, \<open>CodeActLaws\<close>
    (\<open>agenthub/codeact_agent/codeact_agent.py\<close>): the step of the agent. \<open>AgentContract\<close>: what the controller may expect of
    any agent. \<open>CodeActExamples\<close>: the CodeAct agent in a conversation.
  \<^item> \<open>FnCallConverter\<close>, \<open>FnCallLaws\<close>, \<open>FnCallExamples\<close> (\<open>llm/fn_call_converter.py\<close>, \<open>llm/llm.py\<close>): tool calls as text for models
    that cannot call functions, the parsing of their answers, and the completion around such a model.
  \<^item> \<open>Bash\<close>, \<open>BashLaws\<close>, \<open>BashSession\<close>, \<open>BashExamples\<close> (\<open>runtime/utils/bash.py\<close>, \<open>events/observation/commands.py\<close>): the shell
    session, which types a command into a terminal, polls the screen and cuts the output out of it.
  \<^item> \<open>Patches\<close>, \<open>PatchLaws\<close>, \<open>PatchTexts\<close>, \<open>PlainPatches\<close> (\<open>resolver/patching\<close>), \<open>PatchFiles\<close>, \<open>PatchExamples\<close>
    (\<open>resolver/send_pull_request.py\<close>): the reading of diffs, edit scripts as what they mean, and patching of files.
  \<^item> \<open>Webhooks\<close>, \<open>WebhookLaws\<close> (\<open>storage/batched_web_hook.py\<close>), \<open>EventWebhook\<close>, \<open>WebhookExamples\<close>
    (\<open>src/OpenHands/enterprise/server/routes/event_webhook.py\<close>): a store that reports its changes in batches, and the server
    that receives them.
  \<^item> \<open>ConversationManager\<close>, \<open>ManagerLaws\<close>, \<open>SessionLimit\<close> (\<open>server/conversation_manager\<close>, \<open>server/session/conversation.py\<close>): which
    agent loops run on a server, who uses a conversation, and the clean-up. \<open>WebSession\<close>, \<open>WebSessionLaws\<close>, \<open>ManagerExamples\<close>
    (\<open>server/session\<close>, \<open>server/listen_socket.py\<close>): what a client sees and sends, and the start and the closing of an agent.
  \<^item> \<open>WorkspaceFiles\<close>, \<open>WorkspaceLaws\<close> (\<open>runtime/utils/files.py\<close>, the file handlers of \<open>runtime/action_execution_server.py\<close> and of
    \<open>runtime/impl/cli/cli_runtime.py\<close>): which paths an agent may use, and what its files hold; the file system has no symbolic links.

  \<^bold>\<open>State and errors.\<close> Objects are records, passed and returned; an event carries beside its body the attributes that
  the dataclasses keep outside of their equality. A function that may raise returns \<open>'a res\<close>, the exception or the value;
  the operations of the controller and of the agent are computations of \<open>Effects\<close>, so that the state after an exception
  is there as well. Python's integers are \<open>int\<close>, floats are rational numbers without rounding, a dictionary is an association
  list in insertion order. A field has the type its class declares: a constructor that is given a value of another
  type, which Python would store unchecked, is the error \<open>ill_typed\<close>. Characters are the 256 of the logic.

  \<^bold>\<open>Interfaces.\<close> Contracts are locales: \<open>file_store\<close> and its extension \<open>deleting_store\<close> and \<open>contents_store\<close> (interpreted on the in-memory store),
  \<open>control_flag\<close> (iterations and budget), \<open>condenser\<close>, \<open>tool_table\<close> (what the loop over tool calls asks of an agent's
  tools; interpreted for the three agents) and \<open>lawful_agent\<close> (what the controller asks of a step; interpreted on
  the CodeAct agent). The properties that rest on a contract are stated on the model's own definitions.

  \<^bold>\<open>What is shown.\<close> The stream stores and delivers every event once and in order, and the search returns exactly the stored
  events of its range; an event survives its serialization. The history is the log without what delegates did, and a
  condenser keeps what it promises. One action is in flight at a time, limits stop the agent, an action is held back exactly
  when the user has to confirm it, and a message of the user reaches the agent through the recall service. The prompt has every call answered at once,
  a response becomes one action for each of its calls, and these are played to the end before the model is asked again. A prompt survives its
  trip through plain text, and a call that a model writes as text reaches the agent, but for the line breaks that are put around values of
  several lines and never taken away. The shell returns exactly the output
  of a command, does not type what must not be executed, and returns at its timeout. A patch changes the files as it says.
  A server that receives every batch of a store in order has its files, and does what a batch of its own session says.
  On the server a conversation is open as long as anyone uses it and closed afterwards, no user has more agent loops than the limit unless
  starts of the user overlap, and then at most one more for each start beside the first, and a client that connects again gets what it missed. A path that is let through by the file helpers stays in the workspace.
  Theorems of the kind \<open>error\<close> describe inputs on which the code does not do what it means to.

  \<^bold>\<open>Termination.\<close> All functions are total but one: the polling of the terminal may go on for ever, so it is a partial function,
  with a theorem that it returns when the command has a timeout. Loops over pages and ids recurse on a measure (the distance to the end of the
  range), the search for parameters on the text that is left, the replay on the number of events that are left, the removal of fields on the size of the value. Where fuel is
  used (the replacement of strings) it is the length of the input, and every turn consumes a character.

  \<^bold>\<open>Parameters.\<close> What is not code of the repository is an argument with its contract as a hypothesis: the responses of the
  model (LiteLLM), the templates of the prompts, the clock, the reading of a Python literal, \<open>json.loads\<close> and \<open>float\<close> of a
  string in a tool call, the front matter and the file system of microagents, the execution of an action in the sandbox, the security analyzer,
  the terminal and its clock, the parser of shell commands, the answers to requests, the database and the handlers behind the web hook,
  the records of conversations, the settings and the user of a connection, the order in which a set is passed through, and
  the editor of files and the test for binary files.

  \<^bold>\<open>Not modelled.\<close> Threads, event loops and locks: an operation runs to its end, except that adding an event is split where
  its lock is released, and that starting a loop and closing a session are split where they wait. Logging and usage tracking. The clients of models, containers, browsers and forges, the web
  servers and their databases, the terminal client and the front end: they are input and output around the modelled
  core. The descriptions of the tools, the registries of classes and the configuration files.
\<close>

end
